(* ===== verification/EM_Prelude.thy ===== *)
theory EM_Prelude
  imports Main "HOL-Library.List_Lexorder"
begin

text \<open>
  Shared vocabulary of the development: text values, failures, JavaScript's safe
  integers, decimal printing, the order-preserving duplicate removal of
  \<open>[...new Set(xs)]\<close>, and the generic lemmas the component theories use.

  A JavaScript string is a list of code points (\<open>ustring\<close>); \<open>str\<close> turns an ASCII
  literal into one. Lone surrogates are code points of the range 0xD800 to 0xDFFF.
  A timestamp the code keeps as a canonical ISO string (24 characters, UTC) is its epoch
  millisecond, an \<open>int\<close>: on those strings the code's \<open><\<close> and \<open>=\<close> agree with the
  numeric order.
\<close>

section \<open>Text\<close>

type_synonym ustring = "nat list"

definition str :: "string \<Rightarrow> ustring" where
  "str s = map of_char s"

lemma str_eval [simp]:
  "str [] = []" "str (c # cs) = of_char c # str cs"
  by (simp_all add: str_def)

lemma str_append: "str (xs @ ys) = str xs @ str ys"
  by (simp add: str_def)

text \<open>\<open>String.prototype.length\<close> counts UTF-16 code units.\<close>

definition js_length :: "ustring \<Rightarrow> nat" where
  "js_length s = sum_list (map (\<lambda>c. if c < 65536 then 1 else 2) s)"

lemma js_length_append [simp]: "js_length (xs @ ys) = js_length xs + js_length ys"
  by (simp add: js_length_def)

lemma js_length_Nil [simp]: "js_length [] = 0"
  by (simp add: js_length_def)

lemma length_le_js_length: "length s \<le> js_length s"
  by (induction s) (auto simp: js_length_def)

text \<open>The UTF-16 code units of a string; JavaScript orders strings by them.\<close>

fun utf16 :: "ustring \<Rightarrow> nat list" where
  "utf16 [] = []"
| "utf16 (c # cs) =
     (if c < 65536 then c # utf16 cs
      else (55296 + (c - 65536) div 1024) # (56320 + (c - 65536) mod 1024) # utf16 cs)"

lemma length_utf16: "length (utf16 s) = js_length s"
  by (induction s) (auto simp: js_length_def)

text \<open>Characters removed by \<open>String.prototype.trim\<close> (WhiteSpace and LineTerminator).\<close>

definition js_space :: "nat \<Rightarrow> bool" where
  "js_space c \<longleftrightarrow> c \<in> {9, 10, 11, 12, 13, 32, 160, 5760, 8232, 8233, 8239, 8287, 12288, 65279}
     \<or> (8192 \<le> c \<and> c \<le> 8202)"

definition js_trim :: "ustring \<Rightarrow> ustring" where
  "js_trim s = rev (dropWhile js_space (rev (dropWhile js_space s)))"

lemma js_trim_Nil [simp]: "js_trim [] = []"
  by (simp add: js_trim_def)

lemma set_js_trim: "set (js_trim s) \<subseteq> set s"
  unfolding js_trim_def by (auto dest!: set_dropWhileD)

lemma dropWhile_idem: "dropWhile p (dropWhile p xs) = dropWhile p xs"
  by (induction xs) auto

lemma dropWhile_rev_cases:
  "dropWhile p (rev (dropWhile p (rev xs))) = rev (dropWhile p (rev (dropWhile p xs)))"
proof (induction xs)
  case Nil
  then show ?case by simp
next
  case (Cons x xs)
  show ?case
  proof (cases "dropWhile p (rev xs) = []")
    case True
    then have all: "\<forall>y\<in>set xs. p y" by (simp add: dropWhile_eq_Nil_conv)
    then have 1: "dropWhile p (rev xs @ [x]) = (if p x then [] else [x])"
      by (subst dropWhile_append2) auto
    from all have 2: "dropWhile p xs = []" by (simp only: dropWhile_eq_Nil_conv)
    show ?thesis by (simp add: 1 2 del: dropWhile_eq_Nil_conv)
  next
    case False
    then obtain y where y: "y \<in> set (rev xs)" "\<not> p y"
      by (auto simp: dropWhile_eq_Nil_conv)
    then have "dropWhile p (rev xs @ [x]) = dropWhile p (rev xs) @ [x]"
      by (rule dropWhile_append1)
    with Cons show ?thesis by simp
  qed
qed

lemma js_trim_idem [simp]: "js_trim (js_trim s) = js_trim s"
proof -
  have "dropWhile js_space (js_trim s) = js_trim s"
    unfolding js_trim_def by (metis dropWhile_idem dropWhile_rev_cases)
  then show ?thesis
    by (simp add: js_trim_def dropWhile_idem)
qed

section \<open>Numbers\<close>

text \<open>\<open>Number.isSafeInteger\<close> on an integral value.\<close>

definition max_safe :: int where
  "max_safe = 9007199254740991"

definition is_safe_integer :: "int \<Rightarrow> bool" where
  "is_safe_integer n \<longleftrightarrow> - max_safe \<le> n \<and> n \<le> max_safe"

text \<open>Decimal printing, \<open>String(n)\<close> for a nonnegative integer.\<close>

fun dec :: "nat \<Rightarrow> ustring" where
  "dec n = (if n < 10 then [48 + n] else dec (n div 10) @ [48 + n mod 10])"

declare dec.simps [simp del]

lemma dec_digits: "c \<in> set (dec n) \<Longrightarrow> 48 \<le> c \<and> c \<le> 57"
proof (induction n rule: dec.induct)
  case (1 n)
  show ?case
  proof (cases "n < 10")
    case True
    with "1.prems" show ?thesis by (auto simp: dec.simps [of n])
  next
    case False
    with "1.prems" have "c \<in> set (dec (n div 10)) \<or> c = 48 + n mod 10"
      by (auto simp: dec.simps [of n])
    moreover have "n mod 10 < 10" by simp
    ultimately show ?thesis using "1.IH" [OF False] by auto
  qed
qed

lemma dec_nonempty [simp]: "dec n \<noteq> []"
  by (subst dec.simps) simp

fun undec :: "ustring \<Rightarrow> nat" where
  "undec cs = foldl (\<lambda>a c. 10 * a + (c - 48)) 0 cs"

lemma undec_dec [simp]: "undec (dec n) = n"
proof (induction n rule: dec.induct)
  case (1 n)
  then show ?case
    by (cases "n < 10") (simp_all add: dec.simps [of n])
qed

lemma dec_inj [simp]: "dec m = dec n \<longleftrightarrow> m = n"
  by (metis undec_dec)

definition dec_int :: "int \<Rightarrow> ustring" where
  "dec_int i = (if i < 0 then 45 # dec (nat (- i)) else dec (nat i))"

lemma dec_int_inj [simp]: "dec_int i = dec_int j \<longleftrightarrow> i = j"
proof -
  have neg: "45 # dec m \<noteq> dec n" for m n
    using dec_digits [of 45 n] by (metis list.set_intros(1) Suc_n_not_le_n eval_nat_numeral(3)
        le_trans nat_le_linear not_less_eq_eq numeral_le_iff semiring_norm(69) semiring_norm(71)
        semiring_norm(72) semiring_norm(73))
  show ?thesis
    using neg neg [symmetric] by (auto simp: dec_int_def)
qed

lemma dec_int_chars: "c \<in> set (dec_int i) \<Longrightarrow> c \<noteq> 58 \<and> c \<noteq> 10"
  by (auto simp: dec_int_def dest!: dec_digits split: if_splits)

text \<open>
  A key built as prefix, separator and decimal number, where the number holds no
  separator, determines both parts even if the prefix holds separators.
\<close>

lemma split_at_last:
  assumes "xs @ c # ys = xs' @ c # ys'" and "c \<notin> set ys" and "c \<notin> set ys'"
  shows "xs = xs' \<and> ys = ys'"
proof -
  have "rev ys @ c # rev xs = rev ys' @ c # rev xs'"
    using arg_cong [OF assms(1), of rev] by simp
  then have "takeWhile (\<lambda>x. x \<noteq> c) (rev ys @ c # rev xs) = takeWhile (\<lambda>x. x \<noteq> c) (rev ys' @ c # rev xs')"
    by simp
  moreover have "takeWhile (\<lambda>x. x \<noteq> c) (rev ys @ c # rev xs) = rev ys"
    using assms(2) by (subst takeWhile_append2) auto
  moreover have "takeWhile (\<lambda>x. x \<noteq> c) (rev ys' @ c # rev xs') = rev ys'"
    using assms(3) by (subst takeWhile_append2) auto
  ultimately have "rev ys = rev ys'" by simp
  then have "ys = ys'" by simp
  with assms(1) show ?thesis by simp
qed

section \<open>Results\<close>

text \<open>A step of the code that can throw: \<open>Inl\<close> is the exception, \<open>Inr\<close> the value.\<close>

fun bind_res :: "'e + 'a \<Rightarrow> ('a \<Rightarrow> 'e + 'b) \<Rightarrow> 'e + 'b" where
  "bind_res (Inl e) f = Inl e"
| "bind_res (Inr a) f = f a"

lemma bind_res_Inr_iff: "bind_res r f = Inr b \<longleftrightarrow> (\<exists>a. r = Inr a \<and> f a = Inr b)"
  by (cases r) auto

lemma bind_res_Inl_iff: "bind_res r f = Inl e \<longleftrightarrow> r = Inl e \<or> (\<exists>a. r = Inr a \<and> f a = Inl e)"
  by (cases r) auto

definition require :: "bool \<Rightarrow> 'e \<Rightarrow> 'e + unit" where
  "require b e = (if b then Inr () else Inl e)"

lemma require_Inr [simp]: "require b e = Inr u \<longleftrightarrow> b"
  by (simp add: require_def)

lemma require_Inl [simp]: "require b e = Inl e' \<longleftrightarrow> \<not> b \<and> e' = e"
  by (auto simp: require_def)

lemma require_bind [simp]:
  "bind_res (require True e) f = f ()" "bind_res (require False e) f = Inl e"
  by (simp_all add: require_def)

text \<open>A step of the code for each element of a list, up to the first that throws.\<close>

fun map_res :: "('a \<Rightarrow> 'e + 'b) \<Rightarrow> 'a list \<Rightarrow> 'e + 'b list" where
  "map_res f [] = Inr []"
| "map_res f (x # xs) = bind_res (f x) (\<lambda>y. bind_res (map_res f xs) (\<lambda>ys. Inr (y # ys)))"

fun check_all :: "('a \<Rightarrow> 'e + unit) \<Rightarrow> 'a list \<Rightarrow> 'e + unit" where
  "check_all f [] = Inr ()"
| "check_all f (x # xs) = bind_res (f x) (\<lambda>_. check_all f xs)"

lemma map_res_Inr: "map_res f xs = Inr ys \<Longrightarrow> list_all2 (\<lambda>x y. f x = Inr y) xs ys"
  by (induction xs arbitrary: ys) (auto simp: bind_res_Inr_iff)

lemma map_res_source: "map_res f xs = Inr ys \<Longrightarrow> y \<in> set ys \<Longrightarrow> \<exists>x\<in>set xs. f x = Inr y"
  using map_res_Inr [of f xs ys] by (fastforce simp: list_all2_conv_all_nth in_set_conv_nth)

lemma map_res_length: "map_res f xs = Inr ys \<Longrightarrow> length ys = length xs"
  using map_res_Inr [of f xs ys] by (simp add: list_all2_lengthD)

lemma map_res_set: "map_res f xs = Inr ys \<Longrightarrow> set ys = {y. \<exists>x\<in>set xs. f x = Inr y}"
  by (induction xs arbitrary: ys) (auto simp: bind_res_Inr_iff)

text \<open>A SHA-256 digest in lower-case hexadecimal, \<open>/^[a-f0-9]{64}$/\<close>.\<close>

definition hex_lower_char :: "nat \<Rightarrow> bool" where
  "hex_lower_char c \<longleftrightarrow> (48 \<le> c \<and> c \<le> 57) \<or> (97 \<le> c \<and> c \<le> 102)"

definition digest_text :: "ustring \<Rightarrow> bool" where
  "digest_text s \<longleftrightarrow> length s = 64 \<and> list_all hex_lower_char s"

text \<open>A check on an optional field.\<close>

definition opt_all :: "('a \<Rightarrow> bool) \<Rightarrow> 'a option \<Rightarrow> bool" where
  "opt_all p x = (case x of None \<Rightarrow> True | Some a \<Rightarrow> p a)"

lemma opt_all_simps [simp]: "opt_all p None" "opt_all p (Some a) = p a"
  by (simp_all add: opt_all_def)

section \<open>Lists\<close>

text \<open>\<open>[...new Set(xs)]\<close>: the first occurrence of each value, in order.\<close>

fun js_unique :: "'a list \<Rightarrow> 'a list" where
  "js_unique [] = []"
| "js_unique (x # xs) = x # filter (\<lambda>y. y \<noteq> x) (js_unique xs)"

lemma set_js_unique [simp]: "set (js_unique xs) = set xs"
  by (induction xs) auto

lemma distinct_js_unique [simp]: "distinct (js_unique xs)"
  by (induction xs) auto

lemma js_unique_distinct: "distinct xs \<Longrightarrow> js_unique xs = xs"
proof (induction xs)
  case (Cons x xs)
  then have "filter (\<lambda>y. y \<noteq> x) xs = xs" by (intro filter_True) auto
  with Cons show ?case by simp
qed simp

lemma js_unique_idem [simp]: "js_unique (js_unique xs) = js_unique xs"
  by (rule js_unique_distinct) simp

text \<open>JavaScript's \<open>sort()\<close> on strings: stable, by UTF-16 code units.\<close>

definition js_sort :: "ustring list \<Rightarrow> ustring list" where
  "js_sort xs = sort_key utf16 xs"

lemma set_js_sort [simp]: "set (js_sort xs) = set xs"
  by (simp add: js_sort_def)

lemma distinct_js_sort [simp]: "distinct (js_sort xs) = distinct xs"
  by (simp add: js_sort_def)

text \<open>Text up to a separator, and from it on.\<close>

lemma before_separator: "c \<notin> set a \<Longrightarrow> takeWhile (\<lambda>x. x \<noteq> c) (a @ c # r) = a"
  by (induction a) auto

lemma from_separator: "c \<notin> set a \<Longrightarrow> dropWhile (\<lambda>x. x \<noteq> c) (a @ c # r) = c # r"
  by (induction a) auto

text \<open>\<open>s.split(c)\<close> at a one-character separator.\<close>

fun split_on :: "nat \<Rightarrow> ustring \<Rightarrow> ustring list" where
  "split_on c [] = [[]]"
| "split_on c (x # xs) =
     (if x = c then [] # split_on c xs
      else (case split_on c xs of [] \<Rightarrow> [[x]] | p # ps \<Rightarrow> (x # p) # ps))"

lemma split_on_none: "c \<notin> set s \<Longrightarrow> split_on c s = [s]"
  by (induction s) auto

lemma split_on_append: "c \<notin> set a \<Longrightarrow> split_on c (a @ c # r) = a # split_on c r"
  by (induction a) auto

text \<open>Two lists that agree up to the first separator agree on both sides of it.\<close>

lemma split_at_first:
  assumes "a @ c # r = a' @ c # r'" and "c \<notin> set a" and "c \<notin> set a'"
  shows "a = a' \<and> r = r'"
  using before_separator [OF assms(2), of r] before_separator [OF assms(3), of r']
    from_separator [OF assms(2), of r] from_separator [OF assms(3), of r'] assms(1) by simp

text \<open>Rows of a table that satisfy a condition, updated in place.\<close>

definition update_where :: "('a \<Rightarrow> bool) \<Rightarrow> ('a \<Rightarrow> 'a) \<Rightarrow> 'a list \<Rightarrow> 'a list" where
  "update_where p f xs = map (\<lambda>x. if p x then f x else x) xs"

lemma update_where_simps [simp]:
  "update_where p f [] = []"
  "update_where p f (x # xs) = (if p x then f x else x) # update_where p f xs"
  "length (update_where p f xs) = length xs"
  by (simp_all add: update_where_def)

lemma update_where_none: "\<forall>x\<in>set xs. \<not> p x \<Longrightarrow> update_where p f xs = xs"
  by (induction xs) auto

lemma update_where_append [simp]:
  "update_where p f (xs @ ys) = update_where p f xs @ update_where p f ys"
  by (simp add: update_where_def)

lemma set_update_where: "set (update_where p f xs) = (\<lambda>x. if p x then f x else x) ` set xs"
  by (simp add: update_where_def)

lemma map_update_where:
  "(\<And>x. p x \<Longrightarrow> g (f x) = g x) \<Longrightarrow> map g (update_where p f xs) = map g xs"
  by (simp add: update_where_def)

lemma filter_update_where_frame:
  assumes "\<And>x. p x \<Longrightarrow> \<not> q x \<and> \<not> q (f x)"
  shows "filter q (update_where p f xs) = filter q xs"
  using assms by (induction xs) auto

definition count_where :: "('a \<Rightarrow> bool) \<Rightarrow> 'a list \<Rightarrow> nat" where
  "count_where p xs = length (filter p xs)"

lemma count_where_simps [simp]:
  "count_where p [] = 0"
  "count_where p (x # xs) = (if p x then Suc (count_where p xs) else count_where p xs)"
  by (simp_all add: count_where_def)

lemma count_where_0 [simp]: "count_where p xs = 0 \<longleftrightarrow> (\<forall>x\<in>set xs. \<not> p x)"
  by (induction xs) auto

lemma find_SomeD: "find p xs = Some x \<Longrightarrow> x \<in> set xs \<and> p x"
  by (induction xs) (auto split: if_splits)

lemma find_None_iff_ball: "find p xs = None \<longleftrightarrow> (\<forall>x\<in>set xs. \<not> p x)"
  by (induction xs) auto

end
