(* ===== verification/Contracts.thy ===== *)
theory Contracts
  imports EM_Prelude
begin

text \<open>
  The shared contracts of \<open>src/contracts\<close>: the taxonomy enumerations, the error codes
  with their public bodies, and the evidence and repository authorities. Enumerations
  are datatypes; where the code reads one from a database row as text, the component
  that does so models the text and its check.
\<close>

section \<open>Taxonomy (taxonomy.ts)\<close>

datatype memory_kind =
  Decision | Fact | Convention | Procedure | Learning | Incident | Reference | Feedback

datatype memory_class = Semantic | Procedural | Episodic

datatype memory_scope = ScopeProject | ScopeRepository | ScopeRef | ScopeWorktree | ScopeSession

datatype memory_status = Active | Contested | Superseded | Invalidated | Archived

definition memory_kinds :: "memory_kind list" where
  "memory_kinds = [Decision, Fact, Convention, Procedure, Learning, Incident, Reference, Feedback]"

definition memory_scopes :: "memory_scope list" where
  "memory_scopes = [ScopeProject, ScopeRepository, ScopeRef, ScopeWorktree, ScopeSession]"

definition memory_statuses :: "memory_status list" where
  "memory_statuses = [Active, Contested, Superseded, Invalidated, Archived]"

fun scope_name :: "memory_scope \<Rightarrow> ustring" where
  "scope_name ScopeProject = str ''project''"
| "scope_name ScopeRepository = str ''repository''"
| "scope_name ScopeRef = str ''ref''"
| "scope_name ScopeWorktree = str ''worktree''"
| "scope_name ScopeSession = str ''session''"

datatype repository_authority = DefaultBranch | TrackedRef | AgentSupplied

section \<open>Validity intervals (validity.ts)\<close>

text \<open>
  \<open>iso_ok\<close> is zod's \<open>z.iso.datetime({ offset: true })\<close>, a third-party check, and
  \<open>date_parse\<close> is \<open>Date.parse\<close>, with \<open>None\<close> for \<open>NaN\<close>; both are parameters.
\<close>

record time_lib =
  iso_ok :: "ustring \<Rightarrow> bool"
  date_parse :: "ustring \<Rightarrow> int option"

definition isValidValidityInterval :: "time_lib \<Rightarrow> ustring option \<Rightarrow> ustring option \<Rightarrow> bool" where
  "isValidValidityInterval L validFrom validUntil =
     (if \<not> opt_all (iso_ok L) validFrom \<or> \<not> opt_all (iso_ok L) validUntil
      then False
      else case (validFrom, validUntil) of
             (Some f, Some u) \<Rightarrow>
               (case (date_parse L f, date_parse L u) of
                  (Some a, Some b) \<Rightarrow> a \<le> b
                | _ \<Rightarrow> False)
           | _ \<Rightarrow> True)"

section \<open>Errors (errors.ts)\<close>

datatype error_code =
    UNAUTHENTICATED
  | PROJECT_UNAVAILABLE
  | RESOURCE_UNAVAILABLE
  | VALIDATION_FAILED
  | VERSION_CONFLICT
  | IDEMPOTENCY_CONFLICT
  | PAGE_TOKEN_INVALID
  | RATE_LIMITED
  | WORKFLOW_FAILED
  | INTERNAL

record edge_error =
  err_code :: error_code
  err_message :: ustring
  err_retryable :: bool
  err_request_id :: "ustring option"
  err_retry_after_ms :: "int option"

text \<open>Any thrown value: an \<open>EdgeMnemeError\<close>, or something else.\<close>

datatype thrown = Edge edge_error | Other ustring

definition edge :: "error_code \<Rightarrow> string \<Rightarrow> thrown" where
  "edge c m = Edge \<lparr>err_code = c, err_message = str m, err_retryable = False,
     err_request_id = None, err_retry_after_ms = None\<rparr>"

record error_body =
  body_code :: error_code
  body_message :: ustring
  body_retryable :: bool
  body_request_id :: ustring
  body_retry_after_ms :: "int option"

fun errorBody :: "thrown \<Rightarrow> ustring \<Rightarrow> error_body" where
  "errorBody (Edge e) requestId =
     \<lparr>body_code = err_code e, body_message = err_message e, body_retryable = err_retryable e,
      body_request_id = (case err_request_id e of None \<Rightarrow> requestId | Some r \<Rightarrow> r),
      body_retry_after_ms = err_retry_after_ms e\<rparr>"
| "errorBody (Other m) requestId =
     \<lparr>body_code = INTERNAL, body_message = str ''An internal error occurred.'',
      body_retryable = False, body_request_id = requestId, body_retry_after_ms = None\<rparr>"

definition requireValidValidityInterval ::
  "time_lib \<Rightarrow> ustring option \<Rightarrow> ustring option \<Rightarrow> thrown + unit" where
  "requireValidValidityInterval L f u =
     require (isValidValidityInterval L f u) (Other (str ''The memory validity interval is invalid.''))"

text \<open>The error code a thrown value carries to a client.\<close>

fun thrown_code :: "thrown \<Rightarrow> error_code" where
  "thrown_code (Edge e) = err_code e"
| "thrown_code (Other m) = INTERNAL"

lemma errorBody_code [simp]: "body_code (errorBody t r) = thrown_code t"
  by (cases t) simp_all

lemma thrown_code_edge [simp]: "thrown_code (edge c m) = c"
  by (simp add: edge_def)

lemma edge_not_Other [simp]: "edge c m \<noteq> Other x" "Other x \<noteq> edge c m"
  by (simp_all add: edge_def)

text \<open>A failure that is not an \<open>EdgeMnemeError\<close> never shows its message to the client.\<close>

lemma errorBody_Other_uniform: "errorBody (Other m) r = errorBody (Other m') r"
  by simp

end
