(* ===== verification/Formal_Store.thy ===== *)
theory Formal_Store
  imports Contracts
begin

text \<open>
  The authority database as the formal write protocol sees it: the rows of the D1 tables
  of \<open>migrations/\<close> that the guarded batches of \<open>src/storage\<close> read and write, the unique
  keys and triggers those writes run into, and \<open>D1Database.batch\<close>, which runs its
  statements in order inside one transaction and rolls all of them back when one aborts.

  A statement maps a database to an abort or to the new database and the number of rows
  it changed (\<open>meta.changes\<close>). Foreign keys, the CHECK constraints on column values and
  the validity trigger of migration 0003 are left out: they can only abort a batch, and
  the rows written here satisfy the checks by construction. A column the batches neither
  read nor write is left out as well.
\<close>

section \<open>Rows\<close>

text \<open>JSON values as the code builds them; text columns holding JSON keep the value.\<close>

datatype json =
    JNull
  | JBool bool
  | JNum int
  | JStr ustring
  | JArr "json list"
  | JObj "(ustring \<times> json) list"

definition json_opt :: "ustring option \<Rightarrow> json" where
  "json_opt s = (case s of None \<Rightarrow> JNull | Some t \<Rightarrow> JStr t)"

record project =
  p_id :: ustring
  p_ref :: ustring
  p_version :: int
  p_head :: "ustring option"
  p_updated_at :: int

record memory =
  m_id :: ustring
  m_project :: ustring
  m_revision :: "ustring option"
  m_version :: int
  m_kind :: memory_kind
  m_class :: memory_class
  m_scope :: memory_scope
  m_scope_id :: ustring
  m_status :: memory_status
  m_created_at :: int
  m_updated_at :: int

record revision =
  v_id :: ustring
  v_project :: ustring
  v_memory :: ustring
  v_version :: int
  v_content :: ustring
  v_sha256 :: ustring
  v_from :: "ustring option"
  v_until :: "ustring option"
  v_audit :: ustring
  v_source :: "ustring option"
  v_recorded_at :: int

record audit_event =
  a_id :: ustring
  a_project :: ustring
  a_sequence :: int
  a_type :: ustring
  a_actor :: ustring
  a_digest :: ustring
  a_prev :: "ustring option"
  a_hash :: ustring
  a_recorded_at :: int

record idem_record =
  i_project :: ustring
  i_principal :: ustring
  i_operation :: ustring
  i_key :: ustring
  i_digest :: ustring
  i_response :: json
  i_audit :: ustring
  i_created_at :: int

record outbox_event =
  o_id :: ustring
  o_project :: ustring
  o_project_version :: int
  o_type :: ustring
  o_digest :: ustring
  o_payload :: json
  o_created_at :: int

datatype candidate_status =
    Queued | PendingReview | Approved | Rejected | RequestChanges
  | RejectedSensitive | Promoted | Noop

record observation =
  c_id :: ustring
  c_project :: ustring
  c_version :: int
  c_status :: candidate_status
  c_content :: "ustring option"
  c_reviewed_content :: "ustring option"
  c_promoted_memory :: "ustring option"
  c_promoted_revision :: "ustring option"
  c_kind :: "ustring option"
  c_class :: "ustring option"
  c_scope :: "ustring option"
  c_scope_id :: "ustring option"
  c_from :: "ustring option"
  c_until :: "ustring option"
  c_analysis :: "ustring option"
  c_session :: "ustring option"
  c_review_reason :: "ustring option"
  c_updated_at :: "int option"

datatype review_status = RPending | RApproved | RRejected | RChangesRequested | RCancelled

record review_request =
  r_id :: ustring
  r_project :: ustring
  r_candidate :: "ustring option"
  r_status :: review_status
  r_audit :: "ustring option"
  r_updated_at :: int

datatype review_verdict = Approve | Reject | AskChanges

record review_decision =
  d_id :: ustring
  d_project :: ustring
  d_request :: ustring
  d_candidate :: ustring
  d_version :: int
  d_verdict :: review_verdict
  d_reason :: ustring
  d_edits :: "json option"
  d_actor :: ustring
  d_audit :: ustring
  d_digest :: ustring
  d_created_at :: int

datatype sensitivity = Clear | Quarantined | Tombstone

record evidence_row =
  e_id :: ustring
  e_project :: ustring
  e_source_type :: ustring
  e_locator :: ustring
  e_repository :: "ustring option"
  e_commit :: "ustring option"
  e_excerpt :: ustring
  e_sensitivity :: sensitivity
  e_recorded_at :: int
  e_ref :: "ustring option"
  e_path :: "ustring option"
  e_authority :: "repository_authority option"

record evidence_link =
  l_project :: ustring
  l_revision :: ustring
  l_evidence :: ustring

record memory_context =
  x_project :: ustring
  x_memory :: ustring
  x_repository :: ustring
  x_created_at :: int

record session_row =
  s_id :: ustring
  s_project :: ustring
  s_repository :: "ustring option"
  s_ref :: "ustring option"
  s_worktree :: "ustring option"
  s_worktree_scope :: "ustring option"

record sync_cursor =
  k_project :: ustring
  k_repository :: ustring
  k_ref :: ustring
  k_ref_scope :: "ustring option"

text \<open>A row of the view \<open>canonical_repository_scope_ownership\<close> of migration 0008.\<close>

record scope_owner =
  w_project :: ustring
  w_scope :: memory_scope
  w_scope_id :: ustring
  w_repository :: ustring

datatype project_role = Reader | Writer | Maintainer

record grant =
  g_id :: ustring
  g_project :: ustring
  g_principal :: ustring
  g_role :: project_role
  g_scope_kind :: memory_scope
  g_scope_id :: ustring
  g_revoked_at :: "int option"

text \<open>A row of \<open>synthetic_cleanup_registry\<close> (migration 0005).\<close>

record cleanup_row =
  y_project :: ustring
  y_fenced_at :: "int option"

record db =
  t_projects :: "project list"
  t_memories :: "memory list"
  t_revisions :: "revision list"
  t_audits :: "audit_event list"
  t_idems :: "idem_record list"
  t_outbox :: "outbox_event list"
  t_observations :: "observation list"
  t_requests :: "review_request list"
  t_decisions :: "review_decision list"
  t_evidence :: "evidence_row list"
  t_links :: "evidence_link list"
  t_contexts :: "memory_context list"
  t_candidate_evidence :: "(ustring \<times> ustring \<times> ustring) list"
  t_sessions :: "session_row list"
  t_cursors :: "sync_cursor list"
  t_repositories :: "(ustring \<times> ustring) list"
  t_grants :: "grant list"
  t_registry :: "cleanup_row list"

definition fenced :: "ustring \<Rightarrow> db \<Rightarrow> bool" where
  "fenced pid d \<longleftrightarrow> (\<exists>y\<in>set (t_registry d). y_project y = pid \<and> y_fenced_at y \<noteq> None)"

text \<open>The canonical owners of the scopes below a project.\<close>

definition owner_rows :: "db \<Rightarrow> scope_owner list" where
  "owner_rows d =
     map (\<lambda>(pid, repo). \<lparr>w_project = pid, w_scope = ScopeRepository, w_scope_id = repo,
                           w_repository = repo\<rparr>) (t_repositories d) @
     concat (map (\<lambda>n. case s_repository n of
         Some repo \<Rightarrow> [\<lparr>w_project = s_project n, w_scope = ScopeSession, w_scope_id = s_id n,
                        w_repository = repo\<rparr>]
       | None \<Rightarrow> []) (t_sessions d)) @
     concat (map (\<lambda>k. case k_ref_scope k of
         Some sid \<Rightarrow> [\<lparr>w_project = k_project k, w_scope = ScopeRef, w_scope_id = sid,
                       w_repository = k_repository k\<rparr>]
       | None \<Rightarrow> []) (t_cursors d)) @
     concat (map (\<lambda>n. case (s_repository n, s_worktree n, s_worktree_scope n) of
         (Some repo, Some w, Some sid) \<Rightarrow>
           [\<lparr>w_project = s_project n, w_scope = ScopeWorktree, w_scope_id = sid,
             w_repository = repo\<rparr>]
       | _ \<Rightarrow> []) (t_sessions d))"

section \<open>Statements and batches\<close>

datatype abort =
    MaintainerGrantRequired
  | StaleProjectHead
  | StaleMemoryHead
  | StaleCandidateHead
  | CleanupFenced
  | EvidenceIdentityImmutable
  | EvidenceContextImmutable
  | EvidenceContextInvalid
  | ClearEvidenceRequired
  | MemoryScopeInvalid
  | UniqueViolation

type_synonym stmt = "db \<Rightarrow> abort + (db \<times> nat)"

text \<open>\<open>INSERT ... SELECT ... WHERE c\<close>: no row is selected when the condition fails.\<close>

definition guarded :: "(db \<Rightarrow> bool) \<Rightarrow> stmt \<Rightarrow> stmt" where
  "guarded c s d = (if c d then s d else Inr (d, 0))"

fun run_batch :: "stmt list \<Rightarrow> db \<Rightarrow> abort + (db \<times> nat list)" where
  "run_batch [] d = Inr (d, [])"
| "run_batch (s # ss) d =
     (case s d of
        Inl e \<Rightarrow> Inl e
      | Inr (d1, n) \<Rightarrow>
          (case run_batch ss d1 of
             Inl e \<Rightarrow> Inl e
           | Inr (d2, ns) \<Rightarrow> Inr (d2, n # ns)))"

text \<open>The database after \<open>batch\<close>: an abort rolls the transaction back.\<close>

definition after_batch :: "stmt list \<Rightarrow> db \<Rightarrow> db" where
  "after_batch ss d = (case run_batch ss d of Inl e \<Rightarrow> d | Inr (d', ns) \<Rightarrow> d')"

lemma run_batch_append:
  "run_batch (xs @ ys) d =
     (case run_batch xs d of
        Inl e \<Rightarrow> Inl e
      | Inr (d1, ns) \<Rightarrow>
          (case run_batch ys d1 of Inl e \<Rightarrow> Inl e | Inr (d2, ms) \<Rightarrow> Inr (d2, ns @ ms)))"
  by (induction xs arbitrary: d) (auto split: sum.splits)

lemma run_batch_Cons_Inr:
  "run_batch (s # ss) d = Inr (d', ns) \<longleftrightarrow>
     (\<exists>d1 n ms. s d = Inr (d1, n) \<and> run_batch ss d1 = Inr (d', ms) \<and> ns = n # ms)"
  by (auto split: sum.splits)

lemma run_batch_append_Inr:
  "run_batch (xs @ ys) d = Inr (d', ns) \<longleftrightarrow>
     (\<exists>d1 ks ms. run_batch xs d = Inr (d1, ks) \<and> run_batch ys d1 = Inr (d', ms) \<and> ns = ks @ ms)"
  by (auto simp: run_batch_append split: sum.splits)

lemma run_batch_length: "run_batch ss d = Inr (d', ns) \<Longrightarrow> length ns = length ss"
  by (induction ss arbitrary: d d' ns) (auto split: sum.splits)

text \<open>A batch of statements that all select nothing changes nothing.\<close>

lemma run_batch_idle:
  assumes "\<forall>s\<in>set ss. s d = Inr (d, 0)"
  shows "run_batch ss d = Inr (d, replicate (length ss) 0)"
  using assms by (induction ss) auto

text \<open>A field no statement of a batch writes is unchanged.\<close>

lemma run_batch_frame:
  assumes "\<forall>s\<in>set ss. \<forall>d1 d2 n. s d1 = Inr (d2, n) \<longrightarrow> f d2 = f d1"
    and "run_batch ss d = Inr (d', ns)"
  shows "f d' = f d"
  using assms
proof (induction ss arbitrary: d ns)
  case Nil
  then show ?case by simp
next
  case (Cons s ss)
  from Cons.prems(2) obtain d1 n ms where s: "s d = Inr (d1, n)"
    and r: "run_batch ss d1 = Inr (d', ms)"
    by (auto simp: run_batch_Cons_Inr simp del: run_batch.simps)
  have "f d' = f d1"
    by (rule Cons.IH [OF _ r]) (use Cons.prems(1) in auto)
  moreover have "f d1 = f d"
    using Cons.prems(1) s by auto
  ultimately show ?case by simp
qed

section \<open>The guards of the plans\<close>

definition project_at :: "ustring \<Rightarrow> int \<Rightarrow> db \<Rightarrow> bool" where
  "project_at pid ver d \<longleftrightarrow> (\<exists>p\<in>set (t_projects d). p_id p = pid \<and> p_version p = ver)"

definition reviewable :: "candidate_status \<Rightarrow> bool" where
  "reviewable s \<longleftrightarrow> s = PendingReview \<or> s = RequestChanges"

definition candidate_open :: "ustring \<Rightarrow> ustring \<Rightarrow> int \<Rightarrow> db \<Rightarrow> bool" where
  "candidate_open pid cid ver d \<longleftrightarrow>
     (\<exists>c\<in>set (t_observations d).
        c_project c = pid \<and> c_id c = cid \<and> c_version c = ver \<and> reviewable (c_status c))"

definition request_open :: "ustring \<Rightarrow> ustring \<Rightarrow> ustring \<Rightarrow> db \<Rightarrow> bool" where
  "request_open pid rid cid d \<longleftrightarrow>
     (\<exists>r\<in>set (t_requests d).
        r_project r = pid \<and> r_id r = rid \<and> r_candidate r = Some cid \<and>
        (r_status r = RPending \<or> r_status r = RChangesRequested))"

text \<open>The guards read one table each: writes to the other tables do not change them.\<close>

lemma project_at_upd [simp]:
  "project_at pid ver (d\<lparr>t_memories := x0\<rparr>) = project_at pid ver d"
  "project_at pid ver (d\<lparr>t_revisions := x1\<rparr>) = project_at pid ver d"
  "project_at pid ver (d\<lparr>t_audits := x2\<rparr>) = project_at pid ver d"
  "project_at pid ver (d\<lparr>t_idems := x3\<rparr>) = project_at pid ver d"
  "project_at pid ver (d\<lparr>t_outbox := x4\<rparr>) = project_at pid ver d"
  "project_at pid ver (d\<lparr>t_observations := x5\<rparr>) = project_at pid ver d"
  "project_at pid ver (d\<lparr>t_requests := x6\<rparr>) = project_at pid ver d"
  "project_at pid ver (d\<lparr>t_decisions := x7\<rparr>) = project_at pid ver d"
  "project_at pid ver (d\<lparr>t_evidence := x8\<rparr>) = project_at pid ver d"
  "project_at pid ver (d\<lparr>t_links := x9\<rparr>) = project_at pid ver d"
  "project_at pid ver (d\<lparr>t_contexts := x10\<rparr>) = project_at pid ver d"
  by (simp_all add: project_at_def)

lemma candidate_open_upd [simp]:
  "candidate_open pid cid ver (d\<lparr>t_memories := y0\<rparr>) = candidate_open pid cid ver d"
  "candidate_open pid cid ver (d\<lparr>t_revisions := y1\<rparr>) = candidate_open pid cid ver d"
  "candidate_open pid cid ver (d\<lparr>t_audits := y2\<rparr>) = candidate_open pid cid ver d"
  "candidate_open pid cid ver (d\<lparr>t_idems := y3\<rparr>) = candidate_open pid cid ver d"
  "candidate_open pid cid ver (d\<lparr>t_outbox := y4\<rparr>) = candidate_open pid cid ver d"
  "candidate_open pid cid ver (d\<lparr>t_requests := y6\<rparr>) = candidate_open pid cid ver d"
  "candidate_open pid cid ver (d\<lparr>t_decisions := y7\<rparr>) = candidate_open pid cid ver d"
  "candidate_open pid cid ver (d\<lparr>t_evidence := y8\<rparr>) = candidate_open pid cid ver d"
  "candidate_open pid cid ver (d\<lparr>t_links := y9\<rparr>) = candidate_open pid cid ver d"
  "candidate_open pid cid ver (d\<lparr>t_contexts := y10\<rparr>) = candidate_open pid cid ver d"
  by (simp_all add: candidate_open_def)

lemma request_open_upd [simp]:
  "request_open pid rid cid (d\<lparr>t_memories := z0\<rparr>) = request_open pid rid cid d"
  "request_open pid rid cid (d\<lparr>t_revisions := z1\<rparr>) = request_open pid rid cid d"
  "request_open pid rid cid (d\<lparr>t_audits := z2\<rparr>) = request_open pid rid cid d"
  "request_open pid rid cid (d\<lparr>t_idems := z3\<rparr>) = request_open pid rid cid d"
  "request_open pid rid cid (d\<lparr>t_outbox := z4\<rparr>) = request_open pid rid cid d"
  "request_open pid rid cid (d\<lparr>t_observations := z5\<rparr>) = request_open pid rid cid d"
  "request_open pid rid cid (d\<lparr>t_decisions := z7\<rparr>) = request_open pid rid cid d"
  "request_open pid rid cid (d\<lparr>t_evidence := z8\<rparr>) = request_open pid rid cid d"
  "request_open pid rid cid (d\<lparr>t_links := z9\<rparr>) = request_open pid rid cid d"
  "request_open pid rid cid (d\<lparr>t_contexts := z10\<rparr>) = request_open pid rid cid d"
  by (simp_all add: request_open_def)

lemma fenced_upd [simp]:
  "fenced pid (d\<lparr>t_memories := f0\<rparr>) = fenced pid d"
  "fenced pid (d\<lparr>t_revisions := f1\<rparr>) = fenced pid d"
  "fenced pid (d\<lparr>t_audits := f2\<rparr>) = fenced pid d"
  "fenced pid (d\<lparr>t_idems := f3\<rparr>) = fenced pid d"
  "fenced pid (d\<lparr>t_outbox := f4\<rparr>) = fenced pid d"
  "fenced pid (d\<lparr>t_observations := f5\<rparr>) = fenced pid d"
  "fenced pid (d\<lparr>t_requests := f6\<rparr>) = fenced pid d"
  "fenced pid (d\<lparr>t_decisions := f7\<rparr>) = fenced pid d"
  "fenced pid (d\<lparr>t_evidence := f8\<rparr>) = fenced pid d"
  "fenced pid (d\<lparr>t_links := f9\<rparr>) = fenced pid d"
  "fenced pid (d\<lparr>t_contexts := f10\<rparr>) = fenced pid d"
  "fenced pid (d\<lparr>t_projects := f11\<rparr>) = fenced pid d"
  by (simp_all add: fenced_def)

section \<open>Table operations with their constraints and triggers\<close>

text \<open>\<open>audit_project_maintainer_guard\<close>, \<open>audit_sequence_guard\<close> and the unique keys.\<close>

definition maintainer_grant :: "ustring \<Rightarrow> ustring \<Rightarrow> db \<Rightarrow> bool" where
  "maintainer_grant pid who d \<longleftrightarrow>
     (\<exists>g\<in>set (t_grants d). g_project g = pid \<and> g_principal g = who \<and>
        g_role g = Maintainer \<and> g_scope_kind g = ScopeProject \<and> g_scope_id g = pid \<and>
        g_revoked_at g = None)"

definition insert_audit :: "audit_event \<Rightarrow> stmt" where
  "insert_audit a d =
     (if \<not> maintainer_grant (a_project a) (a_actor a) d then Inl MaintainerGrantRequired
      else if \<not> (\<exists>p\<in>set (t_projects d). p_id p = a_project a \<and>
                   p_version p = a_sequence a - 1 \<and> p_head p = a_prev a)
        then Inl StaleProjectHead
      else if \<exists>b\<in>set (t_audits d). a_id b = a_id a \<or>
                (a_project b = a_project a \<and>
                   (a_sequence b = a_sequence a \<or> a_hash b = a_hash a))
        then Inl UniqueViolation
      else Inr (d\<lparr>t_audits := t_audits d @ [a]\<rparr>, 1))"

text \<open>\<open>memory_version_guard\<close> and the unique keys of \<open>memory_versions\<close>.\<close>

definition insert_revision :: "revision \<Rightarrow> stmt" where
  "insert_revision v d =
     (if \<not> (\<exists>m\<in>set (t_memories d). m_project m = v_project v \<and> m_id m = v_memory v \<and>
              m_version m = v_version v - 1)
        then Inl StaleMemoryHead
      else if \<exists>u\<in>set (t_revisions d). v_id u = v_id v \<or>
                (v_project u = v_project v \<and> v_memory u = v_memory v \<and> v_version u = v_version v)
        then Inl UniqueViolation
      else Inr (d\<lparr>t_revisions := t_revisions d @ [v]\<rparr>, 1))"

text \<open>
  \<open>memory_canonical_scope_insert_guard\<close>, the primary key, and the trigger
  \<open>memory_canonical_context_create\<close> that records the owning repository.
\<close>

definition scope_owners :: "ustring \<Rightarrow> memory_scope \<Rightarrow> ustring \<Rightarrow> db \<Rightarrow> scope_owner list" where
  "scope_owners pid sc sid d =
     filter (\<lambda>w. w_project w = pid \<and> w_scope w = sc \<and> w_scope_id w = sid) (owner_rows d)"

definition owner_contexts :: "memory \<Rightarrow> db \<Rightarrow> memory_context list" where
  "owner_contexts m d =
     (if m_scope m = ScopeProject then []
      else map (\<lambda>repo. \<lparr>x_project = m_project m, x_memory = m_id m, x_repository = repo,
                         x_created_at = m_created_at m\<rparr>)
             (js_unique (map w_repository
                (scope_owners (m_project m) (m_scope m) (m_scope_id m) d))))"

definition memory_scope_ok :: "memory \<Rightarrow> db \<Rightarrow> bool" where
  "memory_scope_ok m d \<longleftrightarrow>
     (if m_scope m = ScopeProject then m_scope_id m = m_project m
      else scope_owners (m_project m) (m_scope m) (m_scope_id m) d \<noteq> [])"

definition insert_memory :: "memory \<Rightarrow> stmt" where
  "insert_memory m d =
     (if \<not> memory_scope_ok m d then Inl MemoryScopeInvalid
      else if \<exists>n\<in>set (t_memories d). m_id n = m_id m then Inl UniqueViolation
      else if 1 < length (owner_contexts m d) \<or>
              (owner_contexts m d \<noteq> [] \<and>
               (\<exists>x\<in>set (t_contexts d). x_project x = m_project m \<and> x_memory x = m_id m))
        then Inl UniqueViolation
      else Inr (d\<lparr>t_memories := t_memories d @ [m],
                  t_contexts := t_contexts d @ owner_contexts m d\<rparr>, 1))"

text \<open>
  The explicit context insert of the promotion plan: \<open>memory_repository_context_duplicate_noop\<close>
  ignores a row that is already there, the canonical guard refuses a foreign repository.
\<close>

definition insert_context :: "memory_context \<Rightarrow> stmt" where
  "insert_context x d =
     (if \<exists>y\<in>set (t_contexts d). x_project y = x_project x \<and> x_memory y = x_memory x \<and>
           x_repository y = x_repository x
        then Inr (d, 0)
      else if \<not> (\<exists>m\<in>set (t_memories d). m_project m = x_project x \<and> m_id m = x_memory x \<and>
                   m_scope m \<noteq> ScopeProject \<and>
                   (\<exists>w\<in>set (scope_owners (m_project m) (m_scope m) (m_scope_id m) d).
                      w_repository w = x_repository x))
        then Inl MemoryScopeInvalid
      else if \<exists>y\<in>set (t_contexts d). x_project y = x_project x \<and> x_memory y = x_memory x
        then Inl UniqueViolation
      else Inr (d\<lparr>t_contexts := t_contexts d @ [x]\<rparr>, 1))"

definition insert_idem :: "idem_record \<Rightarrow> stmt" where
  "insert_idem i d =
     (if \<exists>j\<in>set (t_idems d). i_project j = i_project i \<and> i_principal j = i_principal i \<and>
           i_operation j = i_operation i \<and> i_key j = i_key i
        then Inl UniqueViolation
      else Inr (d\<lparr>t_idems := t_idems d @ [i]\<rparr>, 1))"

text \<open>\<open>synthetic_cleanup_outbox_insert_fence\<close> and the primary key.\<close>

definition insert_outbox :: "outbox_event \<Rightarrow> stmt" where
  "insert_outbox ob d =
     (if fenced (o_project ob) d then Inl CleanupFenced
      else if \<exists>q\<in>set (t_outbox d). o_id q = o_id ob then Inl UniqueViolation
      else Inr (d\<lparr>t_outbox := t_outbox d @ [ob]\<rparr>, 1))"

definition insert_decision :: "review_decision \<Rightarrow> stmt" where
  "insert_decision e d =
     (if \<exists>b\<in>set (t_decisions d). d_id b = d_id e \<or>
           (d_project b = d_project e \<and> d_candidate b = d_candidate e \<and> d_version b = d_version e)
        then Inl UniqueViolation
      else Inr (d\<lparr>t_decisions := t_decisions d @ [e]\<rparr>, 1))"

text \<open>
  \<open>evidence_repository_context_insert_guard\<close> (migration 0011) on a clear row: the
  repository columns are all null or name a registered repository with an authority, and
  a GitHub blob carries a ref, a path and a GitHub authority.
\<close>

definition evidence_context_ok :: "evidence_row \<Rightarrow> db \<Rightarrow> bool" where
  "evidence_context_ok e d \<longleftrightarrow>
     (case e_repository e of
        None \<Rightarrow> e_ref e = None \<and> e_path e = None \<and> e_authority e = None
      | Some repo \<Rightarrow> e_authority e \<noteq> None \<and> (e_project e, repo) \<in> set (t_repositories d)) \<and>
     (e_source_type e = str ''github_blob'' \<longrightarrow>
        e_ref e \<noteq> None \<and> e_path e \<noteq> None \<and>
        (e_authority e = Some DefaultBranch \<or> e_authority e = Some TrackedRef))"

definition same_tuple :: "evidence_row \<Rightarrow> evidence_row \<Rightarrow> bool" where
  "same_tuple e f \<longleftrightarrow> e_project e = e_project f \<and> e_source_type e = e_source_type f \<and>
     e_locator e = e_locator f \<and> e_excerpt e = e_excerpt f"

text \<open>
  The compare-and-abort UPSERT of the mutation plan. On a tuple already stored the
  UPDATE branch meets \<open>evidence_identity_immutable\<close> (commit) and
  \<open>evidence_repository_context_update_guard\<close> (repository columns).
\<close>

definition upsert_evidence :: "evidence_row \<Rightarrow> stmt" where
  "upsert_evidence e d =
     (if \<not> evidence_context_ok e d then Inl EvidenceContextInvalid
      else case find (same_tuple e) (t_evidence d) of
        Some f \<Rightarrow>
          (if e_commit f \<noteq> e_commit e then Inl EvidenceIdentityImmutable
           else if e_repository f \<noteq> e_repository e \<or> e_ref f \<noteq> e_ref e \<or>
                   e_path f \<noteq> e_path e \<or> e_authority f \<noteq> e_authority e
             then Inl EvidenceContextImmutable
           else Inr (d, 1))
      | None \<Rightarrow>
          (if \<exists>f\<in>set (t_evidence d). e_id f = e_id e then Inl UniqueViolation
           else Inr (d\<lparr>t_evidence := t_evidence d @ [e]\<rparr>, 1)))"

text \<open>The insert of the promotion plan: \<open>ON CONFLICT ... DO NOTHING\<close> on the tuple.\<close>

definition insert_evidence_or_ignore :: "evidence_row \<Rightarrow> stmt" where
  "insert_evidence_or_ignore e d =
     (if \<not> evidence_context_ok e d then Inl EvidenceContextInvalid
      else if \<exists>f\<in>set (t_evidence d). same_tuple e f then Inr (d, 0)
      else if \<exists>f\<in>set (t_evidence d). e_id f = e_id e then Inl UniqueViolation
      else Inr (d\<lparr>t_evidence := t_evidence d @ [e]\<rparr>, 1))"

text \<open>
  \<open>INSERT INTO version_evidence SELECT ... FROM evidence WHERE q\<close>: one link per selected
  row, with \<open>version_evidence_clear_insert_guard\<close> and the primary key checked per row.
\<close>

fun insert_links :: "ustring \<Rightarrow> ustring \<Rightarrow> evidence_row list \<Rightarrow> stmt" where
  "insert_links pid rid [] d = Inr (d, 0)"
| "insert_links pid rid (e # es) d =
     (if \<not> (\<exists>f\<in>set (t_evidence d). e_project f = pid \<and> e_id f = e_id e \<and> e_sensitivity f = Clear)
        then Inl ClearEvidenceRequired
      else if \<lparr>l_project = pid, l_revision = rid, l_evidence = e_id e\<rparr> \<in> set (t_links d)
        then Inl UniqueViolation
      else case insert_links pid rid es
             (d\<lparr>t_links := t_links d @ [\<lparr>l_project = pid, l_revision = rid, l_evidence = e_id e\<rparr>]\<rparr>) of
             Inl x \<Rightarrow> Inl x
           | Inr (d', n) \<Rightarrow> Inr (d', Suc n))"

text \<open>\<open>UPDATE memories\<close> of the current head: the unique key is on the revision pointer.\<close>

definition update_heads :: "(memory \<Rightarrow> bool) \<Rightarrow> (memory \<Rightarrow> memory) \<Rightarrow> stmt" where
  "update_heads q f d =
     Inr (d\<lparr>t_memories := update_where q f (t_memories d)\<rparr>, count_where q (t_memories d))"

definition update_requests :: "(review_request \<Rightarrow> bool) \<Rightarrow> (review_request \<Rightarrow> review_request) \<Rightarrow> stmt" where
  "update_requests q f d =
     Inr (d\<lparr>t_requests := update_where q f (t_requests d)\<rparr>, count_where q (t_requests d))"

text \<open>\<open>observation_transition_guard\<close> on every updated row.\<close>

definition candidate_transition_ok :: "observation \<Rightarrow> observation \<Rightarrow> bool" where
  "candidate_transition_ok old new \<longleftrightarrow>
     (c_status old = Queued \<and> (c_status new = PendingReview \<or> c_status new = Noop) \<and>
        c_version new = c_version old) \<or>
     (reviewable (c_status old) \<and>
        (c_status new = Promoted \<or> c_status new = Rejected \<or> c_status new = RequestChanges) \<and>
        c_version new = c_version old + 1)"

definition update_candidates :: "(observation \<Rightarrow> bool) \<Rightarrow> (observation \<Rightarrow> observation) \<Rightarrow> stmt" where
  "update_candidates q f d =
     (if \<exists>c\<in>set (t_observations d). q c \<and> \<not> candidate_transition_ok c (f c)
        then Inl StaleCandidateHead
      else Inr (d\<lparr>t_observations := update_where q f (t_observations d)\<rparr>,
                count_where q (t_observations d)))"

text \<open>\<open>synthetic_cleanup_projects_update_fence\<close> on every updated project.\<close>

definition update_projects :: "(project \<Rightarrow> bool) \<Rightarrow> (project \<Rightarrow> project) \<Rightarrow> stmt" where
  "update_projects q f d =
     (if \<exists>p\<in>set (t_projects d). q p \<and> fenced (p_id p) d then Inl CleanupFenced
      else Inr (d\<lparr>t_projects := update_where q f (t_projects d)\<rparr>, count_where q (t_projects d)))"

lemmas table_ops = insert_audit_def insert_revision_def insert_memory_def insert_context_def
  insert_idem_def insert_outbox_def insert_decision_def upsert_evidence_def
  insert_evidence_or_ignore_def update_heads_def update_requests_def update_candidates_def
  update_projects_def

text \<open>Inserting links touches the link table only, one row per selected evidence.\<close>

lemma insert_links_frame:
  "insert_links pid rid es d = Inr (d', n) \<Longrightarrow> \<exists>ls. d' = d\<lparr>t_links := t_links d @ ls\<rparr> \<and> n = length es"
proof (induction es arbitrary: d d' n)
  case Nil
  then show ?case by (auto intro!: exI [of _ "[]"])
next
  case (Cons e es)
  then show ?case
    by (fastforce split: if_splits sum.splits)
qed

section \<open>The committed-history invariant\<close>

text \<open>
  The audit chain of a project, read from its newest event back: sequence numbers run
  down to 1, each event names its predecessor's hash, and the project row holds the
  newest sequence number and hash.
\<close>

fun audit_chain :: "audit_event list \<Rightarrow> int \<Rightarrow> ustring option \<Rightarrow> bool" where
  "audit_chain [] ver h \<longleftrightarrow> ver = 0 \<and> h = None"
| "audit_chain (a # as) ver h \<longleftrightarrow>
     a_sequence a = ver \<and> h = Some (a_hash a) \<and> audit_chain as (ver - 1) (a_prev a)"

text \<open>The revisions of a memory, newest first: versions run down to 1, the head is the newest.\<close>

fun revision_chain :: "revision list \<Rightarrow> int \<Rightarrow> bool" where
  "revision_chain [] ver \<longleftrightarrow> ver = 0"
| "revision_chain (v # vs) ver \<longleftrightarrow> v_version v = ver \<and> revision_chain vs (ver - 1)"

definition project_audits :: "ustring \<Rightarrow> db \<Rightarrow> audit_event list" where
  "project_audits pid d = filter (\<lambda>a. a_project a = pid) (t_audits d)"

definition memory_revisions :: "ustring \<Rightarrow> ustring \<Rightarrow> db \<Rightarrow> revision list" where
  "memory_revisions pid mid d = filter (\<lambda>v. v_project v = pid \<and> v_memory v = mid) (t_revisions d)"

definition head_matches :: "memory \<Rightarrow> revision list \<Rightarrow> bool" where
  "head_matches m vs \<longleftrightarrow> revision_chain (rev vs) (m_version m) \<and>
     m_revision m = (case rev vs of [] \<Rightarrow> None | v # _ \<Rightarrow> Some (v_id v))"

definition formal_inv :: "db \<Rightarrow> bool" where
  "formal_inv d \<longleftrightarrow>
     distinct (map p_id (t_projects d)) \<and>
     distinct (map m_id (t_memories d)) \<and>
     (\<forall>p\<in>set (t_projects d).
        audit_chain (rev (project_audits (p_id p) d)) (p_version p) (p_head p)) \<and>
     (\<forall>m\<in>set (t_memories d). head_matches m (memory_revisions (m_project m) (m_id m) d)) \<and>
     (\<forall>v\<in>set (t_revisions d). \<exists>m\<in>set (t_memories d). m_project m = v_project v \<and> m_id m = v_memory v)"

lemma audit_chain_length: "audit_chain as ver h \<Longrightarrow> ver = int (length as)"
  by (induction as arbitrary: ver h) auto

lemma revision_chain_length: "revision_chain vs ver \<Longrightarrow> ver = int (length vs)"
  by (induction vs arbitrary: ver) auto

lemma audit_chain_sequences:
  "audit_chain as ver h \<Longrightarrow> map a_sequence (rev as) = map int [1..<Suc (length as)]"
proof (induction as arbitrary: ver h)
  case (Cons a as)
  then have "a_sequence a = int (length (a # as))"
    using audit_chain_length by fastforce
  moreover have "map a_sequence (rev as) = map int [1..<Suc (length as)]"
    using Cons.prems by (intro Cons.IH) auto
  moreover have "[1..<Suc (length (a # as))] = [1..<Suc (length as)] @ [length (a # as)]"
    by simp
  ultimately show ?case
    by (simp only: rev.simps map_append list.map append_Cons append_Nil)
qed simp

text \<open>Two memory rows with one identifier are one row.\<close>

lemma distinct_map_unique:
  "distinct (map f xs) \<Longrightarrow> x \<in> set xs \<Longrightarrow> y \<in> set xs \<Longrightarrow> f x = f y \<Longrightarrow> x = y"
  by (auto simp: distinct_map dest: inj_onD)

lemma count_where_unique:
  assumes "distinct (map f xs)" and "x \<in> set xs" and "\<And>y. q y \<Longrightarrow> f y = f x" and "q x"
  shows "count_where q xs = 1"
proof -
  have sub: "set (filter q xs) \<subseteq> {x}"
    using assms distinct_map_unique [OF assms(1)] by auto
  have "distinct (filter q xs)"
    using assms(1) by (simp add: distinct_map)
  moreover have "set (filter q xs) = {x}"
    using sub assms(2,4) by auto
  ultimately show ?thesis
    by (metis count_where_def distinct_card card.empty card.insert empty_iff finite.emptyI One_nat_def)
qed

end
