(* ===== verification/Uri_Codec.thy ===== *)
theory Uri_Codec
  imports Contracts
begin

text \<open>
  The text codecs of the standard library that identifiers and object keys go through:
  UTF-8 (\<open>TextEncoder\<close>), \<open>encodeURIComponent\<close> and \<open>decodeURIComponent\<close> on code points, with
  \<open>None\<close> for the \<open>URIError\<close> of a lone surrogate or a malformed escape. The main lemma is
  that decoding inverts encoding.
\<close>

section \<open>UTF-8\<close>

definition surrogate :: "nat \<Rightarrow> bool" where
  "surrogate c \<longleftrightarrow> 55296 \<le> c \<and> c < 57344"

definition scalar :: "nat \<Rightarrow> bool" where
  "scalar c \<longleftrightarrow> c < 1114112 \<and> \<not> surrogate c"

definition utf8 :: "nat \<Rightarrow> nat list" where
  "utf8 c =
     (if c < 128 then [c]
      else if c < 2048 then [192 + c div 64, 128 + c mod 64]
      else if c < 65536 then [224 + c div 4096, 128 + c div 64 mod 64, 128 + c mod 64]
      else [240 + c div 262144, 128 + c div 4096 mod 64, 128 + c div 64 mod 64, 128 + c mod 64])"

text \<open>\<open>new TextEncoder().encode(s).byteLength\<close>: a lone surrogate becomes U+FFFD, three bytes.\<close>

definition utf8_length :: "ustring \<Rightarrow> nat" where
  "utf8_length s = sum_list (map (\<lambda>c. length (utf8 c)) s)"

lemma utf8_length_simps [simp]:
  "utf8_length [] = 0"
  "utf8_length (c # s) = length (utf8 c) + utf8_length s"
  "utf8_length (s @ t) = utf8_length s + utf8_length t"
  by (simp_all add: utf8_length_def)

lemma utf8_length_ascii: "\<forall>c\<in>set s. c < 128 \<Longrightarrow> utf8_length s = length s"
  by (induction s) (auto simp: utf8_def)

lemma length_le_utf8_length: "length s \<le> utf8_length s"
  by (induction s) (auto simp: utf8_def)

section \<open>Percent encoding\<close>

definition uri_unreserved :: "nat \<Rightarrow> bool" where
  "uri_unreserved c \<longleftrightarrow> (48 \<le> c \<and> c \<le> 57) \<or> (65 \<le> c \<and> c \<le> 90) \<or> (97 \<le> c \<and> c \<le> 122) \<or>
     c \<in> {33, 39, 40, 41, 42, 45, 46, 95, 126}"

definition hex_digit :: "nat \<Rightarrow> nat" where
  "hex_digit n = (if n < 10 then 48 + n else 55 + n)"

definition hex_value :: "nat \<Rightarrow> nat option" where
  "hex_value c =
     (if 48 \<le> c \<and> c \<le> 57 then Some (c - 48)
      else if 65 \<le> c \<and> c \<le> 70 then Some (c - 55)
      else if 97 \<le> c \<and> c \<le> 102 then Some (c - 87)
      else None)"

definition pct :: "nat \<Rightarrow> ustring" where
  "pct b = [37, hex_digit (b div 16), hex_digit (b mod 16)]"

definition uri_encode_char :: "nat \<Rightarrow> ustring" where
  "uri_encode_char c = (if uri_unreserved c then [c] else concat (map pct (utf8 c)))"

definition encodeURIComponent :: "ustring \<Rightarrow> ustring option" where
  "encodeURIComponent s = (if list_all scalar s then Some (concat (map uri_encode_char s)) else None)"

section \<open>Percent decoding\<close>

text \<open>One \<open>%XX\<close> escape at the start of the text.\<close>

fun take_pct :: "ustring \<Rightarrow> (nat \<times> ustring) option" where
  "take_pct (p # a # b # s) =
     (if p = 37
      then (case (hex_value a, hex_value b) of
              (Some x, Some y) \<Rightarrow> Some (16 * x + y, s)
            | _ \<Rightarrow> None)
      else None)"
| "take_pct _ = None"

text \<open>\<open>n\<close> escaped continuation bytes, folded into the value read so far.\<close>

fun take_cont :: "nat \<Rightarrow> nat \<Rightarrow> ustring \<Rightarrow> (nat \<times> ustring) option" where
  "take_cont 0 v s = Some (v, s)"
| "take_cont (Suc n) v s =
     (case take_pct s of
        None \<Rightarrow> None
      | Some (b, r) \<Rightarrow> if 128 \<le> b \<and> b < 192 then take_cont n (64 * v + (b - 128)) r else None)"

text \<open>A whole escaped character: lead byte, continuation bytes, shortest form, scalar value.\<close>

definition take_escape :: "ustring \<Rightarrow> (nat \<times> ustring) option" where
  "take_escape s =
     (case take_pct s of
        None \<Rightarrow> None
      | Some (b, r) \<Rightarrow>
          if b < 128 then Some (b, r)
          else if 192 \<le> b \<and> b < 224 then
            (case take_cont 1 (b - 192) r of
               Some (v, r') \<Rightarrow> if 128 \<le> v then Some (v, r') else None
             | None \<Rightarrow> None)
          else if 224 \<le> b \<and> b < 240 then
            (case take_cont 2 (b - 224) r of
               Some (v, r') \<Rightarrow> if 2048 \<le> v \<and> scalar v then Some (v, r') else None
             | None \<Rightarrow> None)
          else if 240 \<le> b \<and> b < 248 then
            (case take_cont 3 (b - 240) r of
               Some (v, r') \<Rightarrow> if 65536 \<le> v \<and> scalar v then Some (v, r') else None
             | None \<Rightarrow> None)
          else None)"

lemma take_pct_length: "take_pct s = Some (b, r) \<Longrightarrow> length r < length s"
  by (induction s rule: take_pct.induct) (auto split: if_splits option.splits)

lemma take_cont_length: "take_cont n v s = Some (w, r) \<Longrightarrow> length r \<le> length s"
proof (induction n arbitrary: v s)
  case (Suc n)
  then show ?case
    by (fastforce split: option.splits if_splits dest: take_pct_length)
qed simp

lemma take_escape_length: "take_escape s = Some (v, r) \<Longrightarrow> length r < length s"
  by (auto simp: take_escape_def split: option.splits if_splits
      dest!: take_pct_length take_cont_length)

function decodeURIComponent :: "ustring \<Rightarrow> ustring option" where
  "decodeURIComponent [] = Some []"
| "decodeURIComponent (c # s) =
     (if c \<noteq> 37 then map_option ((#) c) (decodeURIComponent s)
      else (case take_escape (c # s) of
              None \<Rightarrow> None
            | Some (v, r) \<Rightarrow> map_option ((#) v) (decodeURIComponent r)))"
  by pat_completeness auto
termination
  by (relation "measure length") (auto dest: take_escape_length)

section \<open>Decoding inverts encoding\<close>

lemma hex_value_digit: "n < 16 \<Longrightarrow> hex_value (hex_digit n) = Some n"
  by (auto simp: hex_value_def hex_digit_def)

lemma take_pct_pct: "b < 256 \<Longrightarrow> take_pct (pct b @ s) = Some (b, s)"
  by (simp add: pct_def hex_value_digit)

lemma take_pct_Cons: "b < 256 \<Longrightarrow>
    take_pct (37 # hex_digit (b div 16) # hex_digit (b mod 16) # s) = Some (b, s)"
  using take_pct_pct [of b s] by (simp add: pct_def)

lemma take_cont_pct:
  "b < 64 \<Longrightarrow> take_cont (Suc n) v (pct (128 + b) @ s) = take_cont n (64 * v + b) s"
  by (simp add: take_pct_pct)

text \<open>Base 64 digits of a code point.\<close>

lemma base64_3: "64 * (64 * (c div 4096) + c div 64 mod 64) + c mod 64 = (c::nat)"
proof -
  have "c div 4096 = c div 64 div 64" by (simp add: div_mult2_eq [symmetric])
  then have "64 * (c div 4096) + c div 64 mod 64 = c div 64" by simp
  then show ?thesis by simp
qed

lemma base64_4:
  "64 * (64 * (64 * (c div 262144) + c div 4096 mod 64) + c div 64 mod 64) + c mod 64 = (c::nat)"
proof -
  have "c div 262144 = c div 4096 div 64" by (simp add: div_mult2_eq [symmetric])
  then have "64 * (c div 262144) + c div 4096 mod 64 = c div 4096" by simp
  with base64_3 show ?thesis by simp
qed

lemma take_escape_utf8:
  assumes "scalar c"
  shows "take_escape (concat (map pct (utf8 c)) @ s) = Some (c, s)"
proof -
  note step = take_cont_pct One_nat_def numeral_2_eq_2 numeral_3_eq_3
  consider "c < 128" | "128 \<le> c" "c < 2048" | "2048 \<le> c" "c < 65536" | "65536 \<le> c" by linarith
  then show ?thesis
  proof cases
    case 1
    then show ?thesis by (simp add: utf8_def take_escape_def take_pct_pct)
  next
    case 2
    have "c div 64 < 32" using 2 by (simp add: less_mult_imp_div_less)
    moreover have "take_cont 1 (c div 64) (pct (128 + c mod 64) @ s) = Some (c, s)"
      by (simp add: step del: take_cont.simps(2))
    ultimately show ?thesis using 2 by (simp add: utf8_def take_escape_def take_pct_pct)
  next
    case 3
    have "c div 4096 < 16" using 3 by (simp add: less_mult_imp_div_less)
    moreover have "take_cont 2 (c div 4096) (pct (128 + c div 64 mod 64) @ pct (128 + c mod 64) @ s)
        = Some (c, s)"
      using base64_3 [of c] by (simp add: step del: take_cont.simps(2))
    ultimately show ?thesis using 3 assms by (simp add: utf8_def take_escape_def take_pct_pct)
  next
    case 4
    have "c div 262144 < 5" using assms by (simp add: scalar_def less_mult_imp_div_less)
    moreover have "take_cont 3 (c div 262144) (pct (128 + c div 4096 mod 64) @
          pct (128 + c div 64 mod 64) @ pct (128 + c mod 64) @ s) = Some (c, s)"
      using base64_4 [of c] by (simp add: step del: take_cont.simps(2))
    ultimately show ?thesis using 4 assms by (simp add: utf8_def take_escape_def take_pct_pct)
  qed
qed

lemma pct_utf8_Cons: "\<exists>r. concat (map pct (utf8 c)) = 37 # r"
  by (simp add: utf8_def pct_def)

lemma decode_encode_char:
  assumes "scalar c"
  shows "decodeURIComponent (uri_encode_char c @ s) = map_option ((#) c) (decodeURIComponent s)"
proof (cases "uri_unreserved c")
  case True
  then have "c \<noteq> 37" by (auto simp: uri_unreserved_def)
  with True show ?thesis by (simp add: uri_encode_char_def)
next
  case False
  obtain r where r: "concat (map pct (utf8 c)) = 37 # r" using pct_utf8_Cons by blast
  have "take_escape (37 # r @ s) = Some (c, s)"
    using take_escape_utf8 [OF assms, of s] r by simp
  with False r show ?thesis by (simp add: uri_encode_char_def)
qed

lemma decode_encode:
  "encodeURIComponent s = Some e \<Longrightarrow> decodeURIComponent e = Some s"
proof (induction s arbitrary: e)
  case (Cons c s)
  then have "scalar c" and "encodeURIComponent s = Some (concat (map uri_encode_char s))"
    and "e = uri_encode_char c @ concat (map uri_encode_char s)"
    by (auto simp: encodeURIComponent_def split: if_splits)
  with Cons.IH show ?case by (simp add: decode_encode_char)
qed (simp add: encodeURIComponent_def)

lemma encodeURIComponent_inj:
  "encodeURIComponent s = Some e \<Longrightarrow> encodeURIComponent t = Some e \<Longrightarrow> s = t"
  using decode_encode [of s e] decode_encode [of t e] by simp

text \<open>The characters an encoded component can hold.\<close>

lemma uri_hex_digit: "n < 16 \<Longrightarrow> uri_unreserved (hex_digit n)"
  by (auto simp: hex_digit_def uri_unreserved_def)

lemma utf8_byte: "c < 1114112 \<Longrightarrow> b \<in> set (utf8 c) \<Longrightarrow> b < 256"
  by (auto simp: utf8_def split: if_splits)

lemma encode_chars:
  assumes "encodeURIComponent s = Some e" and "c \<in> set e"
  shows "uri_unreserved c \<or> c = 37"
proof -
  obtain x where x: "x \<in> set s" "c \<in> set (uri_encode_char x)" "scalar x"
    using assms by (auto simp: encodeURIComponent_def list_all_iff split: if_splits)
  show ?thesis
  proof (cases "uri_unreserved x")
    case False
    with x obtain b where b: "b \<in> set (utf8 x)" "c \<in> set (pct b)"
      by (auto simp: uri_encode_char_def)
    have "b < 256" using utf8_byte b(1) x(3) by (auto simp: scalar_def)
    then have "b div 16 < 16" "b mod 16 < 16" by simp_all
    from this [THEN uri_hex_digit] b(2) show ?thesis by (auto simp: pct_def)
  qed (use x in \<open>auto simp: uri_encode_char_def\<close>)
qed

lemma encode_no_separator:
  "encodeURIComponent s = Some e \<Longrightarrow> 47 \<notin> set e \<and> 58 \<notin> set e \<and> 0 \<notin> set e"
  by (auto dest: encode_chars simp: uri_unreserved_def)

lemma encode_ascii: "encodeURIComponent s = Some e \<Longrightarrow> c \<in> set e \<Longrightarrow> c < 128"
  by (drule (1) encode_chars) (auto simp: uri_unreserved_def)

lemma encode_nonempty: "encodeURIComponent s = Some e \<Longrightarrow> e = [] \<longleftrightarrow> s = []"
proof (cases s)
  case (Cons c t)
  obtain r where "concat (map pct (utf8 c)) = 37 # r" using pct_utf8_Cons by blast
  then have "uri_encode_char c \<noteq> []" by (simp add: uri_encode_char_def)
  then show "encodeURIComponent s = Some e \<Longrightarrow> ?thesis"
    using Cons by (auto simp: encodeURIComponent_def split: if_splits)
qed (simp add: encodeURIComponent_def eq_commute)

end
