(* ===== verification/Scope_Ids.thy ===== *)
theory Scope_Ids
  imports Uri_Codec
begin

text \<open>
  \<open>src/contracts/scope.ts\<close>: the canonical identifiers of ref and worktree scopes, and the
  object keys of \<open>src/projection/markdown.ts\<close> that are built from the same percent
  encoding. Parsing accepts exactly the identifiers the constructors produce.
\<close>

section \<open>Scope identifiers (scope.ts)\<close>

definition scope_type_error :: thrown where
  "scope_type_error = Other (str ''Scope ID components must be nonempty canonical text without NUL bytes.'')"

definition scope_unicode_error :: thrown where
  "scope_unicode_error = Other (str ''Scope ID components must be valid Unicode text.'')"

definition encodeScopeComponent :: "ustring \<Rightarrow> thrown + ustring" where
  "encodeScopeComponent value =
     (if value = [] \<or> js_trim value \<noteq> value \<or> 0 \<in> set value then Inl scope_type_error
      else case encodeURIComponent value of
             None \<Rightarrow> Inl scope_unicode_error
           | Some e \<Rightarrow> Inr e)"

definition decodeScopeComponent :: "ustring \<Rightarrow> ustring option" where
  "decodeScopeComponent value =
     (case decodeURIComponent value of
        None \<Rightarrow> None
      | Some decoded \<Rightarrow>
          (case encodeScopeComponent decoded of
             Inl e \<Rightarrow> None
           | Inr v \<Rightarrow> if v = value then Some decoded else None))"

definition createRefScopeId :: "ustring \<Rightarrow> ustring \<Rightarrow> thrown + ustring" where
  "createRefScopeId repositoryId ref =
     bind_res (encodeScopeComponent repositoryId) (\<lambda>r.
     bind_res (encodeScopeComponent ref) (\<lambda>f.
       Inr (str ''repository:'' @ r @ str '':ref:'' @ f)))"

definition createWorktreeScopeId :: "ustring \<Rightarrow> ustring \<Rightarrow> thrown + ustring" where
  "createWorktreeScopeId sessionId worktreeId =
     bind_res (encodeScopeComponent sessionId) (\<lambda>r.
     bind_res (encodeScopeComponent worktreeId) (\<lambda>f.
       Inr (str ''session:'' @ r @ str '':worktree:'' @ f)))"

text \<open>The pattern \<open>^p([^:]+):q:([^:]+)$\<close>: text without colons between the fixed parts.\<close>

definition strip_prefix :: "ustring \<Rightarrow> ustring \<Rightarrow> ustring option" where
  "strip_prefix p s = (if take (length p) s = p then Some (drop (length p) s) else None)"

definition match_pair :: "ustring \<Rightarrow> ustring \<Rightarrow> ustring \<Rightarrow> (ustring \<times> ustring) option" where
  "match_pair p q s =
     (case strip_prefix p s of
        None \<Rightarrow> None
      | Some t \<Rightarrow>
          (let a = takeWhile (\<lambda>c. c \<noteq> 58) t
           in case strip_prefix q (dropWhile (\<lambda>c. c \<noteq> 58) t) of
                None \<Rightarrow> None
              | Some b \<Rightarrow> if a \<noteq> [] \<and> b \<noteq> [] \<and> 58 \<notin> set b then Some (a, b) else None))"

definition parse_pair :: "ustring \<Rightarrow> ustring \<Rightarrow> ustring \<Rightarrow> (ustring \<times> ustring) option" where
  "parse_pair p q s =
     (case match_pair p q s of
        None \<Rightarrow> None
      | Some (a, b) \<Rightarrow>
          (case (decodeScopeComponent a, decodeScopeComponent b) of
             (Some x, Some y) \<Rightarrow> Some (x, y)
           | _ \<Rightarrow> None))"

definition parseRefScopeId :: "ustring \<Rightarrow> (ustring \<times> ustring) option" where
  "parseRefScopeId = parse_pair (str ''repository:'') (str '':ref:'')"

definition parseWorktreeScopeId :: "ustring \<Rightarrow> (ustring \<times> ustring) option" where
  "parseWorktreeScopeId = parse_pair (str ''session:'') (str '':worktree:'')"

lemma encodeScopeComponent_Inr:
  "encodeScopeComponent v = Inr e \<longleftrightarrow>
     v \<noteq> [] \<and> js_trim v = v \<and> 0 \<notin> set v \<and> encodeURIComponent v = Some e"
  by (auto simp: encodeScopeComponent_def split: option.splits)

lemma decodeScopeComponent_iff: "decodeScopeComponent e = Some v \<longleftrightarrow> encodeScopeComponent v = Inr e"
proof
  assume "decodeScopeComponent e = Some v"
  then show "encodeScopeComponent v = Inr e"
    by (auto simp: decodeScopeComponent_def split: option.splits sum.splits if_splits)
next
  assume r: "encodeScopeComponent v = Inr e"
  then have "decodeURIComponent e = Some v"
    by (simp add: encodeScopeComponent_Inr decode_encode)
  with r show "decodeScopeComponent e = Some v" by (simp add: decodeScopeComponent_def)
qed

lemma match_pair_iff:
  assumes "hd q = 58" and "q \<noteq> []"
  shows "match_pair p q s = Some (a, b) \<longleftrightarrow>
     s = p @ a @ q @ b \<and> a \<noteq> [] \<and> b \<noteq> [] \<and> 58 \<notin> set a \<and> 58 \<notin> set b"
proof
  assume m: "match_pair p q s = Some (a, b)"
  then obtain t where t: "s = p @ t" "a = takeWhile (\<lambda>c. c \<noteq> 58) t"
      "dropWhile (\<lambda>c. c \<noteq> 58) t = q @ b" "a \<noteq> []" "b \<noteq> []" "58 \<notin> set b"
    by (auto simp: match_pair_def strip_prefix_def Let_def split: option.splits if_splits)
      (metis append_take_drop_id)
  have "t = a @ q @ b" using t(2,3) takeWhile_dropWhile_id by metis
  moreover have "58 \<notin> set a" using t(2) set_takeWhileD by fastforce
  ultimately show "s = p @ a @ q @ b \<and> a \<noteq> [] \<and> b \<noteq> [] \<and> 58 \<notin> set a \<and> 58 \<notin> set b"
    using t by simp
next
  assume r: "s = p @ a @ q @ b \<and> a \<noteq> [] \<and> b \<noteq> [] \<and> 58 \<notin> set a \<and> 58 \<notin> set b"
  obtain q' where q: "q = 58 # q'" using assms by (cases q) auto
  have "takeWhile (\<lambda>c. c \<noteq> 58) (a @ 58 # q' @ b) = a" "dropWhile (\<lambda>c. c \<noteq> 58) (a @ 58 # q' @ b) = 58 # q' @ b"
    using r by (simp_all add: before_separator from_separator)
  with r q show "match_pair p q s = Some (a, b)"
    by (simp add: match_pair_def strip_prefix_def)
qed

lemma parse_pair_iff:
  assumes "hd q = 58" and "q \<noteq> []"
  shows "parse_pair p q s = Some (x, y) \<longleftrightarrow>
     (\<exists>a b. encodeScopeComponent x = Inr a \<and> encodeScopeComponent y = Inr b \<and> s = p @ a @ q @ b)"
proof
  assume "parse_pair p q s = Some (x, y)"
  then obtain a b where "match_pair p q s = Some (a, b)" "decodeScopeComponent a = Some x"
      "decodeScopeComponent b = Some y"
    by (auto simp: parse_pair_def split: option.splits)
  then show "\<exists>a b. encodeScopeComponent x = Inr a \<and> encodeScopeComponent y = Inr b \<and> s = p @ a @ q @ b"
    using match_pair_iff [OF assms] by (auto simp: decodeScopeComponent_iff)
next
  assume "\<exists>a b. encodeScopeComponent x = Inr a \<and> encodeScopeComponent y = Inr b \<and> s = p @ a @ q @ b"
  then obtain a b where ab: "encodeScopeComponent x = Inr a" "encodeScopeComponent y = Inr b"
      "s = p @ a @ q @ b"
    by blast
  then have "a \<noteq> []" "b \<noteq> []" "58 \<notin> set a" "58 \<notin> set b"
    using encode_nonempty encode_no_separator by (auto simp: encodeScopeComponent_Inr)
  with ab have "match_pair p q s = Some (a, b)" using match_pair_iff [OF assms] by simp
  moreover have "decodeScopeComponent a = Some x" "decodeScopeComponent b = Some y"
    using ab by (simp_all add: decodeScopeComponent_iff)
  ultimately show "parse_pair p q s = Some (x, y)" by (simp add: parse_pair_def)
qed

lemma parse_ref_iff: "parseRefScopeId s = Some (r, f) \<longleftrightarrow> createRefScopeId r f = Inr s"
proof -
  have "parseRefScopeId s = Some (r, f) \<longleftrightarrow> (\<exists>a b. encodeScopeComponent r = Inr a \<and>
      encodeScopeComponent f = Inr b \<and> s = str ''repository:'' @ a @ str '':ref:'' @ b)"
    unfolding parseRefScopeId_def by (rule parse_pair_iff) simp_all
  then show ?thesis by (auto simp: createRefScopeId_def bind_res_Inr_iff)
qed

lemma parse_worktree_iff: "parseWorktreeScopeId s = Some (n, w) \<longleftrightarrow> createWorktreeScopeId n w = Inr s"
proof -
  have "parseWorktreeScopeId s = Some (n, w) \<longleftrightarrow> (\<exists>a b. encodeScopeComponent n = Inr a \<and>
      encodeScopeComponent w = Inr b \<and> s = str ''session:'' @ a @ str '':worktree:'' @ b)"
    unfolding parseWorktreeScopeId_def by (rule parse_pair_iff) simp_all
  then show ?thesis by (auto simp: createWorktreeScopeId_def bind_res_Inr_iff)
qed

section \<open>Object keys (markdown.ts)\<close>

definition requireNonempty :: "ustring \<Rightarrow> ustring \<Rightarrow> thrown + unit" where
  "requireNonempty label value =
     require (value \<noteq> [] \<and> 0 \<notin> set value)
       (Other (label @ str '' must be a nonempty string without null bytes.''))"

definition uri_error :: thrown where
  "uri_error = Other (str ''URI malformed'')"

text \<open>\<open>.replaceAll(".", "%2E")\<close>.\<close>

definition escape_dots :: "ustring \<Rightarrow> ustring" where
  "escape_dots s = concat (map (\<lambda>c. if c = 46 then str ''%2E'' else [c]) s)"

definition pathSegment :: "ustring \<Rightarrow> thrown + ustring" where
  "pathSegment value =
     bind_res (requireNonempty (str ''path segment'') value) (\<lambda>_.
       case encodeURIComponent value of
         None \<Rightarrow> Inl uri_error
       | Some e \<Rightarrow> Inr (escape_dots e))"

definition canonicalMemoryUri :: "ustring \<Rightarrow> ustring \<Rightarrow> thrown + ustring" where
  "canonicalMemoryUri projectId memoryId =
     bind_res (pathSegment projectId) (\<lambda>p.
     bind_res (pathSegment memoryId) (\<lambda>m.
       Inr (str ''memory://projects/'' @ p @ str ''/memories/'' @ m)))"

definition revisionMemoryUri :: "ustring \<Rightarrow> ustring \<Rightarrow> int \<Rightarrow> thrown + ustring" where
  "revisionMemoryUri projectId memoryId memoryVersion =
     bind_res (canonicalMemoryUri projectId memoryId) (\<lambda>u.
       Inr (u @ str ''/versions/'' @ dec_int memoryVersion))"

definition projectionPrefix :: "ustring \<Rightarrow> ustring \<Rightarrow> thrown + ustring" where
  "projectionPrefix projectId snapshotId =
     bind_res (pathSegment projectId) (\<lambda>p.
     bind_res (pathSegment snapshotId) (\<lambda>n.
       Inr (str ''projects/'' @ p @ str ''/projections/'' @ n @ str ''/'')))"

definition r2_key_max :: nat where
  "r2_key_max = 1024"

definition projectionScopeIndexKey :: "ustring \<Rightarrow> ustring \<Rightarrow> ustring \<Rightarrow> thrown + ustring" where
  "projectionScopeIndexKey projectId snapshotId scopeId =
     bind_res (projectionPrefix projectId snapshotId) (\<lambda>prefix.
     bind_res (pathSegment scopeId) (\<lambda>sc.
       let key = prefix @ str ''indexes/by-scope/'' @ sc @ str ''/index.json'';
           keyBytes = utf8_length key
       in if r2_key_max < keyBytes
          then Inl (Other (str ''Projection scope index key is '' @ dec keyBytes @
                 str '' UTF-8 bytes; R2 allows at most '' @ dec r2_key_max @ str '' bytes.''))
          else Inr key))"

lemma escape_dots_Nil [simp]: "escape_dots [] = []"
  by (simp add: escape_dots_def)

lemma escape_dots_Cons [simp]:
  "escape_dots (c # s) = (if c = 46 then str ''%2E'' else [c]) @ escape_dots s"
  by (simp add: escape_dots_def)

lemma set_escape_dots: "c \<in> set (escape_dots s) \<Longrightarrow> c \<noteq> 46 \<and> (c \<in> set s \<or> c \<in> {37, 50, 69})"
  by (induction s) (auto split: if_splits)

lemma escape_dots_id: "46 \<notin> set s \<Longrightarrow> escape_dots s = s"
  by (induction s) auto

lemma escape_dots_append: "escape_dots (s @ t) = escape_dots s @ escape_dots t"
  by (simp add: escape_dots_def)

text \<open>
  The escaped dots decode back to dots, so a segment still determines its text:
  \<open>decodeURIComponent\<close> reads both forms.
\<close>

lemma take_escape_dot: "take_escape (37 # 50 # 69 # s) = Some (46, s)"
  by (simp add: take_escape_def hex_value_def)

lemma decode_escape_dots_char:
  assumes "scalar c"
  shows "decodeURIComponent (escape_dots (uri_encode_char c) @ s) =
    map_option ((#) c) (decodeURIComponent s)"
proof (cases "c = 46")
  case True
  then have "uri_encode_char c = [46]" by (simp add: uri_encode_char_def uri_unreserved_def)
  with True show ?thesis using take_escape_dot [of s] by simp
next
  case False
  have "46 \<notin> set (uri_encode_char c)"
  proof (cases "uri_unreserved c")
    case nu: False
    have "hex_digit n \<noteq> 46" for n by (simp add: hex_digit_def)
    with nu show ?thesis by (auto simp: uri_encode_char_def pct_def)
  qed (use False in \<open>simp add: uri_encode_char_def\<close>)
  then have "escape_dots (uri_encode_char c) = uri_encode_char c"
    by (rule escape_dots_id)
  then show ?thesis using decode_encode_char [OF assms] by simp
qed


lemma decode_escape_dots:
  "encodeURIComponent s = Some e \<Longrightarrow> decodeURIComponent (escape_dots e) = Some s"
proof (induction s arbitrary: e)
  case (Cons c s)
  then have "scalar c" and "encodeURIComponent s = Some (concat (map uri_encode_char s))"
    and "e = uri_encode_char c @ concat (map uri_encode_char s)"
    by (auto simp: encodeURIComponent_def split: if_splits)
  with Cons.IH show ?case by (simp add: escape_dots_append decode_escape_dots_char)
qed (simp add: encodeURIComponent_def)

lemma pathSegment_Inr:
  "pathSegment v = Inr k \<longleftrightarrow>
     v \<noteq> [] \<and> 0 \<notin> set v \<and> (\<exists>e. encodeURIComponent v = Some e \<and> k = escape_dots e)"
  by (auto simp: pathSegment_def requireNonempty_def bind_res_Inr_iff split: option.splits)

text \<open>A segment decodes to its text and holds no separator and no dot.\<close>

lemma pathSegment_decodes: "pathSegment v = Inr k \<Longrightarrow> decodeURIComponent k = Some v"
  by (auto simp: pathSegment_Inr decode_escape_dots)

lemma pathSegment_inj: "pathSegment v = Inr k \<Longrightarrow> pathSegment w = Inr k \<Longrightarrow> v = w"
  using pathSegment_decodes [of v k] pathSegment_decodes [of w k] by simp

lemma pathSegment_chars:
  assumes "pathSegment v = Inr k"
  shows "k \<noteq> [] \<and> 47 \<notin> set k \<and> 46 \<notin> set k \<and> (\<forall>c\<in>set k. c < 128)"
proof -
  obtain e where e: "encodeURIComponent v = Some e" "k = escape_dots e" "v \<noteq> []"
    using assms by (auto simp: pathSegment_Inr)
  then have "e \<noteq> []" using encode_nonempty by blast
  then have "k \<noteq> []" using e(2) by (cases e) auto
  moreover have "c \<noteq> 47 \<and> c \<noteq> 46 \<and> c < 128" if "c \<in> set k" for c
    using set_escape_dots [of c e] that e encode_no_separator [OF e(1)] encode_ascii [OF e(1), of c]
    by auto
  ultimately show ?thesis by blast
qed

definition scope_key_text :: "ustring \<Rightarrow> ustring \<Rightarrow> ustring \<Rightarrow> ustring" where
  "scope_key_text p n sc =
     (str ''projects/'' @ p @ str ''/projections/'' @ n @ str ''/'') @ str ''indexes/by-scope/'' @ sc @
     str ''/index.json''"

lemma if_Inl_Inr: "(if b then Inl x else Inr y) = Inr z \<longleftrightarrow> \<not> b \<and> y = z"
  by simp

lemma projectionScopeIndexKey_Inr:
  "projectionScopeIndexKey pid snap sid = Inr key \<longleftrightarrow>
     (\<exists>p n sc. pathSegment pid = Inr p \<and> pathSegment snap = Inr n \<and> pathSegment sid = Inr sc \<and>
        key = scope_key_text p n sc \<and> utf8_length key \<le> r2_key_max)"
  unfolding projectionScopeIndexKey_def projectionPrefix_def scope_key_text_def Let_def bind_res_Inr_iff
    if_Inl_Inr not_less
  by (auto simp del: str_eval utf8_length_simps append_assoc)

lemma scope_key_text_inj:
  assumes "scope_key_text p n sc = scope_key_text p' n' sc'"
    and "47 \<notin> set p" "47 \<notin> set n" "47 \<notin> set sc" "47 \<notin> set p'" "47 \<notin> set n'" "47 \<notin> set sc'"
  shows "p = p' \<and> n = n' \<and> sc = sc'"
proof -
  let ?r = "\<lambda>n sc. str ''projections/'' @ n @ 47 # str ''indexes/by-scope/'' @ sc @ 47 # str ''index.json''"
  have "p @ 47 # ?r n sc = p' @ 47 # ?r n' sc'"
    using assms(1) by (simp add: scope_key_text_def)
  from split_at_first [OF this assms(2,5)] have p: "p = p'" and r: "?r n sc = ?r n' sc'" by simp_all
  let ?q = "\<lambda>sc. str ''indexes/by-scope/'' @ sc @ 47 # str ''index.json''"
  have "n @ 47 # ?q sc = n' @ 47 # ?q sc'" using r by simp
  from split_at_first [OF this assms(3,6)] have n: "n = n'" and q: "?q sc = ?q sc'" by simp_all
  have "sc @ 47 # str ''index.json'' = sc' @ 47 # str ''index.json''" using q by simp
  from split_at_first [OF this assms(4,7)] p n show ?thesis by simp
qed

section \<open>Properties\<close>

text \<open>C23: Parsing and building ref scope identifiers are inverse to each other: a text parses to a
  repository and a ref exactly when the constructor produces that text from them, so every
  identifier has one spelling and one meaning, and non-canonical spellings are refused.\<close>

theorem ref_scope_id_roundtrip:
  "parseRefScopeId s = Some (r, f) \<longleftrightarrow> createRefScopeId r f = Inr s"
  by (rule parse_ref_iff)

text \<open>The same for worktree scope identifiers and their session and worktree.\<close>

theorem worktree_scope_id_roundtrip:
  "parseWorktreeScopeId s = Some (n, w) \<longleftrightarrow> createWorktreeScopeId n w = Inr s"
  by (rule parse_worktree_iff)

text \<open>A scope index key determines its project, snapshot and scope, stays within the object
  store's key limit, and holds no dot outside its fixed file name, so no scope of one project can
  name an object of another project or climb out of its prefix.\<close>

theorem scope_index_key_injective:
  assumes "projectionScopeIndexKey pid snap sid = Inr key"
    and "projectionScopeIndexKey pid' snap' sid' = Inr key"
  shows "pid = pid' \<and> snap = snap' \<and> sid = sid' \<and> length key \<le> r2_key_max \<and>
     (\<exists>p n sc. key = scope_key_text p n sc \<and> 46 \<notin> set p \<union> set n \<union> set sc)"
proof -
  obtain p n sc where a: "pathSegment pid = Inr p" "pathSegment snap = Inr n" "pathSegment sid = Inr sc"
      "key = scope_key_text p n sc" "utf8_length key \<le> r2_key_max"
    using assms(1) by (auto simp: projectionScopeIndexKey_Inr)
  obtain p' n' sc' where b: "pathSegment pid' = Inr p'" "pathSegment snap' = Inr n'"
      "pathSegment sid' = Inr sc'" "key = scope_key_text p' n' sc'"
    using assms(2) by (auto simp: projectionScopeIndexKey_Inr)
  note ca = a(1,2,3) [THEN pathSegment_chars] and cb = b(1,2,3) [THEN pathSegment_chars]
  have "p = p' \<and> n = n' \<and> sc = sc'"
    by (rule scope_key_text_inj) (use a(4) b(4) ca cb in simp_all)
  then have "pid = pid'" "snap = snap'" "sid = sid'"
    using a b pathSegment_inj by blast+
  moreover have "length key \<le> r2_key_max"
    using a(5) length_le_utf8_length [of key] by simp
  moreover have "46 \<notin> set p \<union> set n \<union> set sc" using ca by simp
  ultimately show ?thesis using a(4) by blast
qed

definition demo_scope_key :: ustring where
  "demo_scope_key = scope_key_text (str ''p'') (str ''3'') (str ''a%2Fb%2Ec'')"

lemma demo_scope_key_eq: "projectionScopeIndexKey (str ''p'') (str ''3'') (str ''a/b.c'') = Inr demo_scope_key"
proof -
  have "pathSegment (str ''p'') = Inr (str ''p'')" "pathSegment (str ''3'') = Inr (str ''3'')"
    "pathSegment (str ''a/b.c'') = Inr (str ''a%2Fb%2Ec'')"
    by (simp_all add: pathSegment_Inr encodeURIComponent_def scalar_def surrogate_def
        uri_encode_char_def uri_unreserved_def pct_def utf8_def hex_digit_def)
  moreover have "utf8_length demo_scope_key \<le> r2_key_max"
    by (simp add: demo_scope_key_def scope_key_text_def utf8_def r2_key_max_def)
  ultimately show ?thesis by (simp only: projectionScopeIndexKey_Inr) (auto simp only: demo_scope_key_def)
qed

lemma scope_index_key_injective_witness: "length demo_scope_key \<le> r2_key_max"
  using scope_index_key_injective [OF demo_scope_key_eq demo_scope_key_eq] by blast

end
