(* ===== verification/Repository_Context.thy ===== *)
theory Repository_Context
  imports Formal_Store Scope_Ids
begin

text \<open>
  \<open>src/contracts/repository-context.ts\<close> and the scope check of \<open>src/contracts/scope.ts\<close>: which
  repository a scope, a memory, a session or an evidence record belongs to, read from the
  authority database. A query's \<open>first()\<close> is the first row of the table that matches; the
  joins with \<open>repositories\<close> keep rows whose repository is registered in the same project.
\<close>

section \<open>Trusted contexts\<close>

datatype context_source = SessionSource ustring | EvidenceSource ustring

record trusted_context =
  tc_project :: ustring
  tc_repository :: ustring
  tc_ref :: "ustring option"
  tc_path :: "ustring option"
  tc_authority :: repository_authority
  tc_source :: context_source

definition registered :: "ustring \<Rightarrow> ustring \<Rightarrow> db \<Rightarrow> bool" where
  "registered pid repo d \<longleftrightarrow> (pid, repo) \<in> set (t_repositories d)"

definition session_in_repository :: "ustring \<Rightarrow> ustring \<Rightarrow> db \<Rightarrow> session_row \<Rightarrow> bool" where
  "session_in_repository pid sid d n \<longleftrightarrow> s_project n = pid \<and> s_id n = sid \<and>
     (case s_repository n of None \<Rightarrow> False | Some repo \<Rightarrow> registered pid repo d)"

definition evidence_in_repository :: "ustring \<Rightarrow> ustring \<Rightarrow> db \<Rightarrow> evidence_row \<Rightarrow> bool" where
  "evidence_in_repository pid eid d e \<longleftrightarrow> e_project e = pid \<and> e_id e = eid \<and>
     e_authority e \<noteq> None \<and>
     (case e_repository e of None \<Rightarrow> False | Some repo \<Rightarrow> registered pid repo d)"

definition resolveTrustedRepositoryContext ::
  "db \<Rightarrow> ustring \<Rightarrow> context_source \<Rightarrow> trusted_context option" where
  "resolveTrustedRepositoryContext d pid src =
     (case src of
        SessionSource sid \<Rightarrow>
          map_option (\<lambda>n. \<lparr>tc_project = pid, tc_repository = the (s_repository n), tc_ref = s_ref n,
              tc_path = None, tc_authority = AgentSupplied, tc_source = src\<rparr>)
            (find (session_in_repository pid sid d) (t_sessions d))
      | EvidenceSource eid \<Rightarrow>
          map_option (\<lambda>e. \<lparr>tc_project = pid, tc_repository = the (e_repository e), tc_ref = e_ref e,
              tc_path = e_path e, tc_authority = the (e_authority e), tc_source = src\<rparr>)
            (find (evidence_in_repository pid eid d) (t_evidence d)))"

section \<open>Scope ownership\<close>

record ownership =
  own_project :: ustring
  own_repository :: "ustring option"

definition cursor_at :: "ustring \<Rightarrow> ustring \<Rightarrow> ustring \<Rightarrow> db \<Rightarrow> sync_cursor \<Rightarrow> bool" where
  "cursor_at pid repo ref d k \<longleftrightarrow> k_project k = pid \<and> k_repository k = repo \<and> k_ref k = ref \<and>
     registered pid repo d"

definition scope_repository_row ::
  "db \<Rightarrow> ustring \<Rightarrow> memory_scope \<Rightarrow> ustring \<Rightarrow> ustring option" where
  "scope_repository_row d pid sc sid =
     (case sc of
        ScopeProject \<Rightarrow> None
      | ScopeRepository \<Rightarrow> map_option snd (find (\<lambda>r. r = (pid, sid)) (t_repositories d))
      | ScopeRef \<Rightarrow>
          (case parseRefScopeId sid of
             None \<Rightarrow> None
           | Some (repo, ref) \<Rightarrow>
               map_option k_repository (find (cursor_at pid repo ref d) (t_cursors d)))
      | ScopeSession \<Rightarrow>
          Option.bind (find (session_in_repository pid sid d) (t_sessions d)) s_repository
      | ScopeWorktree \<Rightarrow>
          (case parseWorktreeScopeId sid of
             None \<Rightarrow> None
           | Some (ses, wt) \<Rightarrow>
               Option.bind (find (\<lambda>n. session_in_repository pid ses d n \<and> s_worktree n = Some wt)
                 (t_sessions d)) s_repository))"

definition resolveScopeRepositoryOwnership ::
  "db \<Rightarrow> ustring \<Rightarrow> memory_scope \<Rightarrow> ustring \<Rightarrow> ownership option" where
  "resolveScopeRepositoryOwnership d pid sc sid =
     (if sc = ScopeProject
      then (if sid = pid then Some \<lparr>own_project = pid, own_repository = None\<rparr> else None)
      else map_option (\<lambda>repo. \<lparr>own_project = pid, own_repository = Some repo\<rparr>)
        (scope_repository_row d pid sc sid))"

definition resolveMemoryRepositoryOwnership :: "db \<Rightarrow> ustring \<Rightarrow> ustring \<Rightarrow> ownership option" where
  "resolveMemoryRepositoryOwnership d pid mid =
     map_option (\<lambda>x. \<lparr>own_project = pid, own_repository = Some (x_repository x)\<rparr>)
       (find (\<lambda>x. x_project x = pid \<and> x_memory x = mid \<and> registered pid (x_repository x) d \<and>
                (\<exists>m\<in>set (t_memories d). m_project m = pid \<and> m_id m = mid \<and> m_scope m \<noteq> ScopeProject))
         (t_contexts d))"

definition isFormalScopeEntityValid :: "db \<Rightarrow> ustring \<Rightarrow> memory_scope \<Rightarrow> ustring \<Rightarrow> bool" where
  "isFormalScopeEntityValid d pid sc sid =
     (case sc of
        ScopeProject \<Rightarrow> sid = pid
      | ScopeRef \<Rightarrow>
          (case parseRefScopeId sid of
             None \<Rightarrow> False
           | Some (repo, ref) \<Rightarrow> \<exists>k\<in>set (t_cursors d). cursor_at pid repo ref d k)
      | ScopeWorktree \<Rightarrow>
          (case parseWorktreeScopeId sid of
             None \<Rightarrow> False
           | Some (ses, wt) \<Rightarrow>
               \<exists>n\<in>set (t_sessions d). s_project n = pid \<and> s_id n = ses \<and> s_worktree n = Some wt)
      | ScopeRepository \<Rightarrow> registered pid sid d
      | ScopeSession \<Rightarrow> \<exists>n\<in>set (t_sessions d). s_project n = pid \<and> s_id n = sid)"

section \<open>The context of a memory change\<close>

record change_context =
  cc_scope :: memory_scope
  cc_scope_id :: ustring
  cc_repository :: "ustring option"
  cc_ref :: "ustring option"
  cc_session :: "ustring option"
  cc_worktree :: "ustring option"

text \<open>The memory row left-joined with its repository context.\<close>

definition memory_row :: "db \<Rightarrow> ustring \<Rightarrow> ustring \<Rightarrow> memory option" where
  "memory_row d pid mid = find (\<lambda>m. m_project m = pid \<and> m_id m = mid) (t_memories d)"

definition context_repository :: "db \<Rightarrow> ustring \<Rightarrow> ustring \<Rightarrow> ustring option" where
  "context_repository d pid mid =
     map_option x_repository (find (\<lambda>x. x_project x = pid \<and> x_memory x = mid) (t_contexts d))"

definition session_change_context ::
  "db \<Rightarrow> ustring \<Rightarrow> memory \<Rightarrow> ustring \<Rightarrow> ustring \<Rightarrow> ustring option \<Rightarrow> change_context option" where
  "session_change_context d pid m repo ses wt =
     (case resolveTrustedRepositoryContext d pid (SessionSource ses) of
        None \<Rightarrow> None
      | Some t \<Rightarrow>
          if tc_repository t \<noteq> repo then None
          else Some \<lparr>cc_scope = m_scope m, cc_scope_id = m_scope_id m, cc_repository = Some repo,
                     cc_ref = tc_ref t, cc_session = Some ses, cc_worktree = wt\<rparr>)"

definition resolveMemoryChangeRepositoryContext ::
  "db \<Rightarrow> ustring \<Rightarrow> ustring \<Rightarrow> change_context option" where
  "resolveMemoryChangeRepositoryContext d pid mid =
     (case memory_row d pid mid of
        None \<Rightarrow> None
      | Some m \<Rightarrow>
          let repo = context_repository d pid mid in
          case resolveScopeRepositoryOwnership d pid (m_scope m) (m_scope_id m) of
            None \<Rightarrow> None
          | Some ow \<Rightarrow>
              if own_repository ow \<noteq> repo then None
              else if m_scope m = ScopeProject
                then Some \<lparr>cc_scope = m_scope m, cc_scope_id = m_scope_id m, cc_repository = None,
                           cc_ref = None, cc_session = None, cc_worktree = None\<rparr>
              else (case repo of
                  None \<Rightarrow> None
                | Some rid \<Rightarrow>
                    (case m_scope m of
                       ScopeRepository \<Rightarrow>
                         Some \<lparr>cc_scope = m_scope m, cc_scope_id = m_scope_id m,
                           cc_repository = Some rid, cc_ref = None, cc_session = None,
                           cc_worktree = None\<rparr>
                     | ScopeRef \<Rightarrow>
                         (case parseRefScopeId (m_scope_id m) of
                            None \<Rightarrow> None
                          | Some (prepo, ref) \<Rightarrow>
                              if prepo \<noteq> rid then None
                              else Some \<lparr>cc_scope = m_scope m, cc_scope_id = m_scope_id m,
                                cc_repository = Some rid, cc_ref = Some ref, cc_session = None,
                                cc_worktree = None\<rparr>)
                     | ScopeSession \<Rightarrow>
                         session_change_context d pid m rid (m_scope_id m) None
                     | _ \<Rightarrow>
                         (case parseWorktreeScopeId (m_scope_id m) of
                            None \<Rightarrow> None
                          | Some (ses, wt) \<Rightarrow> session_change_context d pid m rid ses (Some wt)))))"

section \<open>Agreement with the database's own ownership view\<close>

text \<open>
  What the triggers of migrations 0006, 0008 and 0009 keep of the register tables: cursors
  and repository-bound sessions name a registered repository, session identifiers are
  unique, and the materialised scope identifiers are the canonical ones.
\<close>

definition register_ok :: "db \<Rightarrow> bool" where
  "register_ok d \<longleftrightarrow>
     (\<forall>k\<in>set (t_cursors d). registered (k_project k) (k_repository k) d \<and>
        (\<exists>sid. k_ref_scope k = Some sid \<and> createRefScopeId (k_repository k) (k_ref k) = Inr sid)) \<and>
     distinct (map s_id (t_sessions d)) \<and>
     (\<forall>n\<in>set (t_sessions d).
        (\<forall>repo. s_repository n = Some repo \<longrightarrow> registered (s_project n) repo d) \<and>
        (case s_worktree n of
           None \<Rightarrow> s_worktree_scope n = None
         | Some w \<Rightarrow> \<exists>sid. s_worktree_scope n = Some sid \<and> createWorktreeScopeId (s_id n) w = Inr sid))"

abbreviation owner_row :: "ustring \<Rightarrow> memory_scope \<Rightarrow> ustring \<Rightarrow> ustring \<Rightarrow> scope_owner" where
  "owner_row pid sc sid repo \<equiv>
     \<lparr>w_project = pid, w_scope = sc, w_scope_id = sid, w_repository = repo\<rparr>"

lemma owner_row_repository:
  "owner_row pid ScopeRepository sid repo \<in> set (owner_rows d) \<longleftrightarrow> registered pid sid d \<and> repo = sid"
  by (force simp: owner_rows_def registered_def split: option.splits)

lemma owner_row_ref:
  "owner_row pid ScopeRef sid repo \<in> set (owner_rows d) \<longleftrightarrow>
    (\<exists>k\<in>set (t_cursors d). k_project k = pid \<and> k_ref_scope k = Some sid \<and> k_repository k = repo)"
  by (fastforce simp: owner_rows_def split: option.splits)

lemma owner_row_session:
  "owner_row pid ScopeSession sid repo \<in> set (owner_rows d) \<longleftrightarrow>
    (\<exists>n\<in>set (t_sessions d). s_project n = pid \<and> s_id n = sid \<and> s_repository n = Some repo)"
  by (fastforce simp: owner_rows_def split: option.splits)

lemma owner_row_worktree:
  "owner_row pid ScopeWorktree sid repo \<in> set (owner_rows d) \<longleftrightarrow>
    (\<exists>n\<in>set (t_sessions d). s_project n = pid \<and> s_worktree n \<noteq> None \<and>
       s_worktree_scope n = Some sid \<and> s_repository n = Some repo)"
proof
  assume "owner_row pid ScopeWorktree sid repo \<in> set (owner_rows d)"
  then show "\<exists>n\<in>set (t_sessions d). s_project n = pid \<and> s_worktree n \<noteq> None \<and>
       s_worktree_scope n = Some sid \<and> s_repository n = Some repo"
    by (auto simp: owner_rows_def split: option.splits) (metis option.distinct(1))
next
  assume "\<exists>n\<in>set (t_sessions d). s_project n = pid \<and> s_worktree n \<noteq> None \<and>
       s_worktree_scope n = Some sid \<and> s_repository n = Some repo"
  then obtain n where "n \<in> set (t_sessions d)" "s_project n = pid" "s_worktree n \<noteq> None"
      "s_worktree_scope n = Some sid" "s_repository n = Some repo"
    by blast
  then show "owner_row pid ScopeWorktree sid repo \<in> set (owner_rows d)"
    unfolding owner_rows_def set_append set_concat set_map image_image
    by (intro UnI2 UN_I [of n]) auto
qed

lemma owner_row_project: "owner_row pid ScopeProject sid repo \<notin> set (owner_rows d)"
  by (force simp: owner_rows_def split: option.splits)


lemmas owner_row_iff = owner_row_repository owner_row_ref owner_row_session owner_row_worktree
  owner_row_project

text \<open>A search by a condition that fixes the key returns the one row that has it.\<close>

lemma find_key:
  assumes "distinct (map f xs)" and "\<And>x. P x \<Longrightarrow> f x = k"
  shows "find P xs = Some x \<longleftrightarrow> x \<in> set xs \<and> P x"
proof
  assume "find P xs = Some x"
  then show "x \<in> set xs \<and> P x" using find_SomeD by fast
next
  assume x: "x \<in> set xs \<and> P x"
  then obtain y where y: "find P xs = Some y" "y \<in> set xs" "P y"
    using find_None_iff_ball find_SomeD by (metis not_Some_eq)
  with x assms have "x = y" by (metis distinct_map_unique)
  with y show "find P xs = Some x" by simp
qed

lemma find_pair: "map_option snd (find (\<lambda>r. r = (p, q)) xs) = Some b \<longleftrightarrow> (p, q) \<in> set xs \<and> b = q"
  by (induction xs) auto

lemma scope_row_ref:
  assumes "register_ok d"
  shows "scope_repository_row d pid ScopeRef sid = Some repo \<longleftrightarrow>
    owner_row pid ScopeRef sid repo \<in> set (owner_rows d)"
proof
  assume "scope_repository_row d pid ScopeRef sid = Some repo"
  then obtain prepo ref k where p: "parseRefScopeId sid = Some (prepo, ref)"
      "find (cursor_at pid prepo ref d) (t_cursors d) = Some k" "k_repository k = repo"
    by (auto simp: scope_repository_row_def split: option.splits)
  then have k: "k \<in> set (t_cursors d)" "k_project k = pid" "k_repository k = prepo" "k_ref k = ref"
    by (auto simp: cursor_at_def dest: find_SomeD)
  with assms obtain sid' where "k_ref_scope k = Some sid'" "createRefScopeId prepo ref = Inr sid'"
    by (auto simp: register_ok_def)
  then have "k_ref_scope k = Some sid" using p(1) by (simp add: parse_ref_iff)
  with k p show "owner_row pid ScopeRef sid repo \<in> set (owner_rows d)" by (auto simp: owner_row_ref)
next
  assume "owner_row pid ScopeRef sid repo \<in> set (owner_rows d)"
  then obtain k where k: "k \<in> set (t_cursors d)" "k_project k = pid" "k_ref_scope k = Some sid"
      "k_repository k = repo"
    by (auto simp: owner_row_ref)
  with assms have "registered pid repo d" "createRefScopeId repo (k_ref k) = Inr sid"
    by (auto simp: register_ok_def)
  moreover from this have "parseRefScopeId sid = Some (repo, k_ref k)" by (simp add: parse_ref_iff)
  moreover have "find (cursor_at pid repo (k_ref k) d) (t_cursors d) \<noteq> None"
    using k calculation by (auto simp: find_None_iff_ball cursor_at_def)
  then obtain k' where k': "find (cursor_at pid repo (k_ref k) d) (t_cursors d) = Some k'" by blast
  then have "k_repository k' = repo" by (auto simp: cursor_at_def dest: find_SomeD)
  ultimately show "scope_repository_row d pid ScopeRef sid = Some repo"
    using k' by (simp add: scope_repository_row_def)
qed

lemma session_row_repository:
  assumes "register_ok d" and "\<And>n. Q n \<Longrightarrow> s_id n = sid"
  shows "Option.bind (find (\<lambda>n. session_in_repository pid sid d n \<and> Q n) (t_sessions d)) s_repository =
      Some repo \<longleftrightarrow>
    (\<exists>n\<in>set (t_sessions d). s_project n = pid \<and> s_id n = sid \<and> s_repository n = Some repo \<and> Q n)"
proof -
  have dist: "distinct (map s_id (t_sessions d))" using assms(1) by (simp add: register_ok_def)
  have key: "find (\<lambda>n. session_in_repository pid sid d n \<and> Q n) (t_sessions d) = Some n \<longleftrightarrow>
      n \<in> set (t_sessions d) \<and> session_in_repository pid sid d n \<and> Q n" for n
    by (rule find_key [OF dist, of _ sid]) (simp add: session_in_repository_def)
  have reg: "n \<in> set (t_sessions d) \<Longrightarrow> s_repository n = Some r \<Longrightarrow> registered (s_project n) r d" for n r
    using assms(1) by (simp add: register_ok_def)
  show ?thesis
    unfolding bind_eq_Some_conv key
    by (rule iffI) (force simp: session_in_repository_def dest: reg)+
qed

text \<open>The ownership the coordinator resolves is the one the database's view lists.\<close>

lemma scope_row_owner:
  assumes ok: "register_ok d" and sc: "sc \<noteq> ScopeProject"
  shows "scope_repository_row d pid sc sid = Some repo \<longleftrightarrow>
    owner_row pid sc sid repo \<in> set (owner_rows d)"
proof (cases sc)
  case ScopeRepository
  then show ?thesis
    by (auto simp: scope_repository_row_def owner_row_iff registered_def find_pair simp del: map_option_eq_Some)
next
  case ScopeRef
  then show ?thesis using scope_row_ref [OF ok] by simp
next
  case ScopeSession
  have eq: "session_in_repository pid sid d = (\<lambda>n. session_in_repository pid sid d n \<and> s_id n = sid)"
    by (auto simp: session_in_repository_def fun_eq_iff)
  have "Option.bind (find (session_in_repository pid sid d) (t_sessions d)) s_repository = Some repo \<longleftrightarrow>
      (\<exists>n\<in>set (t_sessions d). s_project n = pid \<and> s_id n = sid \<and> s_repository n = Some repo)"
    using session_row_repository [OF ok, of "\<lambda>n. s_id n = sid" sid pid repo] eq by auto
  with ScopeSession show ?thesis by (simp add: scope_repository_row_def owner_row_iff)
next
  case ScopeWorktree
  show ?thesis
  proof (cases "parseWorktreeScopeId sid")
    case None
    have "\<not> (\<exists>n\<in>set (t_sessions d). s_worktree n \<noteq> None \<and> s_worktree_scope n = Some sid)"
    proof
      assume "\<exists>n\<in>set (t_sessions d). s_worktree n \<noteq> None \<and> s_worktree_scope n = Some sid"
      then obtain n w where "n \<in> set (t_sessions d)" "s_worktree n = Some w" "s_worktree_scope n = Some sid"
        by auto
      with ok have "createWorktreeScopeId (s_id n) w = Inr sid" by (force simp: register_ok_def)
      with None show False by (simp flip: parse_worktree_iff)
    qed
    with None ScopeWorktree show ?thesis by (auto simp: scope_repository_row_def owner_row_iff)
  next
    case (Some sw)
    obtain ses wt where sw: "parseWorktreeScopeId sid = Some (ses, wt)" using Some by (cases sw) auto
    have scope: "s_worktree n \<noteq> None \<and> s_worktree_scope n = Some sid \<longleftrightarrow>
        s_id n = ses \<and> s_worktree n = Some wt" if "n \<in> set (t_sessions d)" for n
    proof (cases "s_worktree n")
      case (Some w)
      with ok that obtain sid' where "s_worktree_scope n = Some sid'"
          "createWorktreeScopeId (s_id n) w = Inr sid'"
        by (force simp: register_ok_def)
      moreover have "createWorktreeScopeId ses wt = Inr sid" using sw by (simp only: parse_worktree_iff)
      moreover have "s_id n = ses \<and> w = wt" if "createWorktreeScopeId (s_id n) w = Inr sid"
        using that sw parse_worktree_iff [of sid "s_id n" w] by simp
      ultimately show ?thesis using Some by auto
    qed simp
    have eq: "(\<lambda>n. session_in_repository pid ses d n \<and> s_worktree n = Some wt) =
        (\<lambda>n. session_in_repository pid ses d n \<and> s_id n = ses \<and> s_worktree n = Some wt)"
      by (auto simp: session_in_repository_def fun_eq_iff)
    have "scope_repository_row d pid sc sid = Some repo \<longleftrightarrow>
        (\<exists>n\<in>set (t_sessions d). s_project n = pid \<and> s_id n = ses \<and> s_repository n = Some repo \<and>
           s_worktree n = Some wt)"
      using session_row_repository [OF ok, of "\<lambda>n. s_id n = ses \<and> s_worktree n = Some wt" ses pid repo]
      by (auto simp add: scope_repository_row_def ScopeWorktree sw eq)
    also have "\<dots> \<longleftrightarrow> owner_row pid sc sid repo \<in> set (owner_rows d)"
      using scope by (auto simp: ScopeWorktree owner_row_iff)
    finally show ?thesis .
  qed
qed (use sc in simp)


lemma resolve_owner_iff:
  assumes "register_ok d"
  shows "resolveScopeRepositoryOwnership d pid sc sid = Some ow \<longleftrightarrow>
    own_project ow = pid \<and>
    (if sc = ScopeProject then sid = pid \<and> own_repository ow = None
     else \<exists>repo. own_repository ow = Some repo \<and> owner_row pid sc sid repo \<in> set (owner_rows d))"
proof (cases "sc = ScopeProject")
  case True
  then show ?thesis by (cases ow) (auto simp: resolveScopeRepositoryOwnership_def)
next
  case False
  with scope_row_owner [OF assms False] show ?thesis
    by (cases ow) (auto simp: resolveScopeRepositoryOwnership_def)
qed

lemma owner_row_registered:
  assumes "register_ok d" and "owner_row pid sc sid repo \<in> set (owner_rows d)"
  shows "registered pid repo d"
  using assms by (cases sc) (auto simp: owner_row_iff register_ok_def)

lemma memory_row_SomeD:
  "memory_row d pid mid = Some m \<Longrightarrow> m \<in> set (t_memories d) \<and> m_project m = pid \<and> m_id m = mid"
  by (auto simp: memory_row_def dest: find_SomeD)

lemma session_change_context_Some:
  "session_change_context d pid m repo ses wt = Some c \<Longrightarrow>
     cc_scope c = m_scope m \<and> cc_scope_id c = m_scope_id m \<and> cc_repository c = Some repo \<and>
     cc_session c = Some ses \<and> cc_worktree c = wt"
  by (auto simp: session_change_context_def split: option.splits if_splits)

section \<open>Properties\<close>


definition register_db :: db where
  "register_db =
     \<lparr>t_projects = [], t_memories = [], t_revisions = [], t_audits = [], t_idems = [], t_outbox = [],
      t_observations = [], t_requests = [], t_decisions = [], t_evidence = [], t_links = [],
      t_contexts = [\<lparr>x_project = str ''p'', x_memory = str ''m'', x_repository = str ''r'',
        x_created_at = 1\<rparr>],
      t_candidate_evidence = [],
      t_sessions = [], t_cursors = [\<lparr>k_project = str ''p'', k_repository = str ''r'',
        k_ref = str ''main'', k_ref_scope = Some (str ''repository:r:ref:main'')\<rparr>],
      t_repositories = [(str ''p'', str ''r'')], t_grants = [], t_registry = []\<rparr>"

definition register_memory :: memory where
  "register_memory =
     \<lparr>m_id = str ''m'', m_project = str ''p'', m_revision = None, m_version = 0, m_kind = Fact,
      m_class = Semantic, m_scope = ScopeRef, m_scope_id = str ''repository:r:ref:main'',
      m_status = Active, m_created_at = 1, m_updated_at = 1\<rparr>"

lemma register_ref: "createRefScopeId (str ''r'') (str ''main'') = Inr (str ''repository:r:ref:main'')"
  by (simp add: createRefScopeId_def encodeScopeComponent_def encodeURIComponent_def scalar_def
      surrogate_def uri_encode_char_def uri_unreserved_def js_trim_def js_space_def)

lemma register_db_ok: "register_ok register_db"
  using register_ref by (simp add: register_ok_def register_db_def registered_def)


text \<open>The repository context the coordinator derives for a memory change is the stored memory's
  own scope, names a repository exactly for scopes below the project, and that repository is the
  registered owner of the scope in the same project; a ref, session or worktree it carries is the
  one the scope identifier spells.\<close>

theorem change_context_sound:
  assumes ok: "register_ok d" and r: "resolveMemoryChangeRepositoryContext d pid mid = Some c"
  shows "\<exists>m\<in>set (t_memories d). m_project m = pid \<and> m_id m = mid \<and>
     cc_scope c = m_scope m \<and> cc_scope_id c = m_scope_id m \<and>
     (cc_repository c = None \<longleftrightarrow> m_scope m = ScopeProject) \<and>
     (\<forall>repo. cc_repository c = Some repo \<longrightarrow>
        registered pid repo d \<and> owner_row pid (m_scope m) (m_scope_id m) repo \<in> set (owner_rows d)) \<and>
     (m_scope m = ScopeRef \<longrightarrow> (\<exists>repo ref. cc_repository c = Some repo \<and> cc_ref c = Some ref \<and>
        createRefScopeId repo ref = Inr (m_scope_id m))) \<and>
     (m_scope m = ScopeWorktree \<longrightarrow> (\<exists>ses w. cc_session c = Some ses \<and> cc_worktree c = Some w \<and>
        createWorktreeScopeId ses w = Inr (m_scope_id m)))"
proof -
  obtain m where row: "memory_row d pid mid = Some m"
    using r by (auto simp: resolveMemoryChangeRepositoryContext_def split: option.splits)
  obtain ow where ow: "resolveScopeRepositoryOwnership d pid (m_scope m) (m_scope_id m) = Some ow"
      "own_repository ow = context_repository d pid mid"
    using r row by (auto simp: resolveMemoryChangeRepositoryContext_def Let_def split: option.splits if_splits)
  have owner: "if m_scope m = ScopeProject then own_repository ow = None
      else \<exists>repo. own_repository ow = Some repo \<and>
        owner_row pid (m_scope m) (m_scope_id m) repo \<in> set (owner_rows d) \<and> registered pid repo d"
    using ow(1) owner_row_registered [OF ok] by (auto simp: resolve_owner_iff [OF ok] split: if_splits)
  have "cc_scope c = m_scope m \<and> cc_scope_id c = m_scope_id m \<and> cc_repository c = own_repository ow \<and>
     (m_scope m = ScopeRef \<longrightarrow> (\<exists>repo ref. cc_repository c = Some repo \<and> cc_ref c = Some ref \<and>
        createRefScopeId repo ref = Inr (m_scope_id m))) \<and>
     (m_scope m = ScopeWorktree \<longrightarrow> (\<exists>ses w. cc_session c = Some ses \<and> cc_worktree c = Some w \<and>
        createWorktreeScopeId ses w = Inr (m_scope_id m)))"
    using r row ow owner
    by (cases "m_scope m")
      (auto simp: resolveMemoryChangeRepositoryContext_def Let_def split: option.splits if_splits
        dest!: session_change_context_Some simp flip: parse_ref_iff parse_worktree_iff)
  with owner memory_row_SomeD [OF row] show ?thesis by (intro bexI [of _ m]) (auto split: if_splits)
qed

definition register_memory_db :: db where
  "register_memory_db = register_db\<lparr>t_memories := [register_memory]\<rparr>"

lemma change_context_sound_witness:
  "\<exists>c. resolveMemoryChangeRepositoryContext register_memory_db (str ''p'') (str ''m'') = Some c \<and>
     (\<exists>m\<in>set (t_memories register_memory_db). cc_scope c = m_scope m)"
proof -
  have ok: "register_ok register_memory_db"
    using register_db_ok by (simp add: register_memory_db_def register_ok_def registered_def)
  have p: "parseRefScopeId (str ''repository:r:ref:main'') = Some (str ''r'', str ''main'')"
    using register_ref by (simp only: parse_ref_iff)
  have "\<exists>c. resolveMemoryChangeRepositoryContext register_memory_db (str ''p'') (str ''m'') = Some c"
    using p by (simp add: resolveMemoryChangeRepositoryContext_def memory_row_def context_repository_def
        resolveScopeRepositoryOwnership_def scope_repository_row_def cursor_at_def registered_def
        register_memory_db_def register_db_def register_memory_def)
  then show ?thesis using change_context_sound [OF ok] by blast
qed

end
