(* ===== verification/Projection_Capacity.thy ===== *)
theory Projection_Capacity
  imports Formal_Store Scope_Ids
begin

text \<open>
  The snapshot capacity arithmetic of \<open>src/projection/rebuild.ts\<close>, the authority query it
  reads, and the two guards of \<open>workers/memory-orchestrator/index.ts\<close> that keep a formal
  write from making the project's projection impossible. Counts are JavaScript integers:
  every sum the code forms is checked with \<open>Number.isSafeInteger\<close>, and a sum beyond the
  safe range cannot round back into it.
\<close>

section \<open>Capacity (rebuild.ts)\<close>

definition step_attempts :: int where "step_attempts = 3"
definition safe_subrequest_limit :: int where "safe_subrequest_limit = 45000"
definition max_snapshot_content_bytes :: int where "max_snapshot_content_bytes = 16 * 1024 * 1024"
definition snapshot_fixed_writes :: int where "snapshot_fixed_writes = 29"
definition snapshot_fixed_subrequests :: int where "snapshot_fixed_subrequests = 14"
definition workflow_fixed_subrequests :: int where "workflow_fixed_subrequests = 14"

lemmas capacity_constants = step_attempts_def safe_subrequest_limit_def max_snapshot_content_bytes_def
  snapshot_fixed_writes_def snapshot_fixed_subrequests_def workflow_fixed_subrequests_def

record capacity_input =
  ci_memories :: int
  ci_revisions :: int
  ci_scopes :: int
  ci_bytes :: int

record capacity =
  cap_writes :: int
  cap_subrequests :: int
  cap_content_ok :: bool
  cap_subrequests_ok :: bool
  cap_accepted :: bool

definition requireCapacityCount :: "int \<Rightarrow> string \<Rightarrow> thrown + unit" where
  "requireCapacityCount value label =
     require (is_safe_integer value \<and> 0 \<le> value)
       (Other (str ''The projection rebuild snapshot '' @ str label @ str '' count is invalid.''))"

definition capacity_writes :: "capacity_input \<Rightarrow> int" where
  "capacity_writes c = ci_memories c + ci_revisions c + ci_scopes c + snapshot_fixed_writes"

definition capacity_subrequests :: "capacity_input \<Rightarrow> int" where
  "capacity_subrequests c = workflow_fixed_subrequests +
     step_attempts * (snapshot_fixed_subrequests + capacity_writes c * 2)"

definition calculateProjectionRebuildSnapshotCapacity :: "capacity_input \<Rightarrow> thrown + capacity" where
  "calculateProjectionRebuildSnapshotCapacity c =
     bind_res (requireCapacityCount (ci_memories c) ''memory'') (\<lambda>_.
     bind_res (requireCapacityCount (ci_revisions c) ''revision'') (\<lambda>_.
     bind_res (requireCapacityCount (ci_scopes c) ''scope'') (\<lambda>_.
     bind_res (requireCapacityCount (ci_bytes c) ''content byte'') (\<lambda>_.
       if ci_revisions c \<noteq> ci_memories c \<or> ci_memories c < ci_scopes c
         then Inl (Other (str ''The projection rebuild snapshot capacity authority is invalid.''))
       else if \<not> is_safe_integer (capacity_writes c) \<or> \<not> is_safe_integer (capacity_subrequests c)
         then Inl (Other (str ''The projection rebuild snapshot capacity exceeds the safe integer range.''))
       else
         let contentWithinLimit = ci_bytes c \<le> max_snapshot_content_bytes;
             subrequestsWithinLimit = capacity_subrequests c \<le> safe_subrequest_limit
         in Inr \<lparr>cap_writes = capacity_writes c, cap_subrequests = capacity_subrequests c,
              cap_content_ok = contentWithinLimit, cap_subrequests_ok = subrequestsWithinLimit,
              cap_accepted = contentWithinLimit \<and> subrequestsWithinLimit\<rparr>))))"

record snapshot_authority =
  pa_project_version :: int
  pa_memories :: int
  pa_revisions :: int
  pa_scopes :: int
  pa_bytes :: int
  pa_scope_exists :: int

definition authority_input :: "snapshot_authority \<Rightarrow> capacity_input" where
  "authority_input a = \<lparr>ci_memories = pa_memories a, ci_revisions = pa_revisions a,
     ci_scopes = pa_scopes a, ci_bytes = pa_bytes a\<rparr>"

definition calculateProjectionSnapshotCapacityAfterChange ::
  "snapshot_authority \<Rightarrow> capacity_input \<Rightarrow> thrown + capacity" where
  "calculateProjectionSnapshotCapacityAfterChange a delta =
     calculateProjectionRebuildSnapshotCapacity
       \<lparr>ci_memories = pa_memories a + ci_memories delta,
        ci_revisions = pa_revisions a + ci_revisions delta,
        ci_scopes = pa_scopes a + ci_scopes delta,
        ci_bytes = pa_bytes a + ci_bytes delta\<rparr>"

section \<open>The authority query\<close>

definition projected_memories :: "db \<Rightarrow> ustring \<Rightarrow> ustring \<Rightarrow> memory list" where
  "projected_memories d pid excluded =
     filter (\<lambda>m. m_project m = pid \<and> m_revision m \<noteq> None \<and>
        (m_status m = Active \<or> m_status m = Contested) \<and> (excluded = [] \<or> m_id m \<noteq> excluded))
       (t_memories d)"

text \<open>\<open>memory_versions v JOIN projected_memories m\<close> on the current revision.\<close>

definition current_of :: "memory \<Rightarrow> revision \<Rightarrow> bool" where
  "current_of m v \<longleftrightarrow> v_project v = m_project m \<and> v_memory v = m_id m \<and> m_revision m = Some (v_id v)"

definition current_revisions :: "db \<Rightarrow> memory list \<Rightarrow> revision list" where
  "current_revisions d ms = concat (map (\<lambda>m. filter (current_of m) (t_revisions d)) ms)"

definition readProjectionSnapshotAuthority ::
  "db \<Rightarrow> ustring \<Rightarrow> int \<Rightarrow> ustring option \<Rightarrow> ustring option \<Rightarrow> snapshot_authority option" where
  "readProjectionSnapshotAuthority d pid ver scopeId excludedMemoryId =
     (let excluded = (case excludedMemoryId of None \<Rightarrow> [] | Some x \<Rightarrow> x);
          scope = (case scopeId of None \<Rightarrow> [] | Some x \<Rightarrow> x);
          ms = projected_memories d pid excluded;
          vs = current_revisions d ms
      in map_option (\<lambda>p.
           \<lparr>pa_project_version = p_version p,
            pa_memories = int (length ms),
            pa_revisions = int (length vs),
            pa_scopes = int (length (js_unique (map m_scope_id ms))),
            pa_bytes = int (sum_list (map (\<lambda>v. utf8_length (v_content v)) vs)),
            pa_scope_exists = (if \<exists>m\<in>set ms. m_scope_id m = scope then 1 else 0)\<rparr>)
         (find (\<lambda>p. p_id p = pid \<and> p_version p = ver) (t_projects d)))"

definition requireSnapshotCapacityAuthority :: "snapshot_authority \<Rightarrow> thrown + unit" where
  "requireSnapshotCapacityAuthority a =
     bind_res (calculateProjectionRebuildSnapshotCapacity (authority_input a)) (\<lambda>c.
       if \<not> cap_content_ok c
         then Inl (Other (str ''The projection rebuild snapshot contains '' @ dec_int (pa_bytes a) @
                str '' content bytes, exceeding the memory safety limit.''))
       else if \<not> cap_subrequests_ok c
         then Inl (Other (str ''The projection rebuild snapshot estimated '' @
                dec_int (cap_subrequests c) @
                str '' subrequests, exceeding the configured safety budget.''))
       else Inr ())"

definition checkProjectionSnapshotCapacity :: "db \<Rightarrow> ustring \<Rightarrow> int \<Rightarrow> thrown + bool" where
  "checkProjectionSnapshotCapacity d pid ver =
     (case readProjectionSnapshotAuthority d pid ver None None of
        None \<Rightarrow> Inr False
      | Some a \<Rightarrow> bind_res (requireSnapshotCapacityAuthority a) (\<lambda>_. Inr True))"

section \<open>The coordinator's guards (memory-orchestrator/index.ts)\<close>

definition projectionCapacityExceeded :: thrown where
  "projectionCapacityExceeded = edge VALIDATION_FAILED
     ''The project cannot accept this formal memory because projection capacity would be exceeded.''"

definition staleVersion :: thrown where
  "staleVersion = edge VERSION_CONFLICT ''The expected version is stale.''"

definition requireFormalProjectionScopeKey :: "ustring \<Rightarrow> int \<Rightarrow> ustring \<Rightarrow> thrown + unit" where
  "requireFormalProjectionScopeKey pid ver scopeId =
     (case projectionScopeIndexKey pid (dec_int ver) scopeId of
        Inl t \<Rightarrow> Inl (Edge \<lparr>err_code = VALIDATION_FAILED,
            err_message = (case t of Other m \<Rightarrow> m | Edge e \<Rightarrow> err_message e),
            err_retryable = False, err_request_id = None, err_retry_after_ms = None\<rparr>)
      | Inr k \<Rightarrow> Inr ())"

text \<open>\<open>catch (error) { if (error instanceof EdgeMnemeError) throw error; throw exceeded }\<close>.\<close>

fun rethrow_edge :: "thrown + 'a \<Rightarrow> thrown + 'a" where
  "rethrow_edge (Inl (Edge e)) = Inl (Edge e)"
| "rethrow_edge (Inl (Other m)) = Inl projectionCapacityExceeded"
| "rethrow_edge (Inr a) = Inr a"

definition requireProjectionSnapshotAuthority :: "snapshot_authority \<Rightarrow> int \<Rightarrow> thrown + capacity" where
  "requireProjectionSnapshotAuthority a expected =
     (if pa_project_version a \<noteq> expected \<or>
         (pa_scope_exists a \<noteq> 0 \<and> pa_scope_exists a \<noteq> 1) \<or>
         (pa_scope_exists a = 1 \<and> pa_scopes a = 0)
      then Inl projectionCapacityExceeded
      else calculateProjectionRebuildSnapshotCapacity (authority_input a))"

definition requireFormalProjectionCapacity ::
  "db \<Rightarrow> ustring \<Rightarrow> int \<Rightarrow> ustring option \<Rightarrow> int \<Rightarrow> int \<Rightarrow> ustring \<Rightarrow> thrown + unit" where
  "requireFormalProjectionCapacity d pid ver excluded revisionCount contentBytes scopeId =
     (case readProjectionSnapshotAuthority d pid ver (Some scopeId) excluded of
        None \<Rightarrow> Inl staleVersion
      | Some a \<Rightarrow> rethrow_edge
          (bind_res (requireProjectionSnapshotAuthority a ver) (\<lambda>_.
           bind_res (calculateProjectionSnapshotCapacityAfterChange a
               \<lparr>ci_memories = 1, ci_revisions = revisionCount,
                ci_scopes = (if pa_scope_exists a = 0 then 1 else 0), ci_bytes = contentBytes\<rparr>)
             (\<lambda>c. if \<not> cap_accepted c then Inl projectionCapacityExceeded else Inr ()))))"

definition requireFormalProjectionInvalidationCapacity ::
  "db \<Rightarrow> ustring \<Rightarrow> int \<Rightarrow> ustring \<Rightarrow> ustring \<Rightarrow> thrown + unit" where
  "requireFormalProjectionInvalidationCapacity d pid ver targetMemoryId targetScopeId =
     (case (readProjectionSnapshotAuthority d pid ver (Some targetScopeId) None,
            readProjectionSnapshotAuthority d pid ver (Some targetScopeId) (Some targetMemoryId)) of
        (Some before, Some after) \<Rightarrow> rethrow_edge
          (bind_res (requireProjectionSnapshotAuthority before ver) (\<lambda>cb.
           bind_res (requireProjectionSnapshotAuthority after ver) (\<lambda>ca.
             if pa_scope_exists before \<noteq> 1 \<or>
                pa_memories after \<noteq> pa_memories before - 1 \<or>
                pa_revisions after \<noteq> pa_revisions before - 1 \<or>
                pa_scopes after \<noteq> pa_scopes before - (if pa_scope_exists after = 0 then 1 else 0) \<or>
                pa_bytes before < pa_bytes after \<or>
                cap_writes cb \<le> cap_writes ca \<or>
                cap_subrequests cb \<le> cap_subrequests ca
             then Inl projectionCapacityExceeded else Inr ())))
      | _ \<Rightarrow> Inl staleVersion)"

section \<open>Lemmas\<close>

definition capacity_valid :: "capacity_input \<Rightarrow> bool" where
  "capacity_valid c \<longleftrightarrow> 0 \<le> ci_memories c \<and> ci_revisions c = ci_memories c \<and>
     0 \<le> ci_scopes c \<and> ci_scopes c \<le> ci_memories c \<and> 0 \<le> ci_bytes c \<and>
     ci_bytes c \<le> max_safe \<and> capacity_subrequests c \<le> max_safe"

lemma calculate_Inr:
  "calculateProjectionRebuildSnapshotCapacity c = Inr k \<longleftrightarrow>
     capacity_valid c \<and>
     k = \<lparr>cap_writes = capacity_writes c, cap_subrequests = capacity_subrequests c,
          cap_content_ok = ci_bytes c \<le> max_snapshot_content_bytes,
          cap_subrequests_ok = capacity_subrequests c \<le> safe_subrequest_limit,
          cap_accepted = ci_bytes c \<le> max_snapshot_content_bytes \<and>
            capacity_subrequests c \<le> safe_subrequest_limit\<rparr>"
  unfolding calculateProjectionRebuildSnapshotCapacity_def capacity_valid_def bind_res_Inr_iff
    requireCapacityCount_def require_Inr
  by (auto simp: Let_def is_safe_integer_def capacity_subrequests_def capacity_writes_def
      capacity_constants max_safe_def split: if_splits)

lemma capacity_input_eta:
  "\<lparr>ci_memories = ci_memories c, ci_revisions = ci_revisions c, ci_scopes = ci_scopes c,
    ci_bytes = ci_bytes c\<rparr> = c"
  by simp

end
