(* ===== verification/Mutation_Plan.thy ===== *)
theory Mutation_Plan
  imports Formal_Store
begin

text \<open>
  \<open>src/storage/mutation-plan.ts\<close>, \<open>mutation-evidence-plan.ts\<close> and \<open>idempotency.ts\<close>:
  the guarded batch of a memory correction, invalidation or rollback, the compare-and-abort
  evidence statements spliced into it by the project coordinator, and the idempotency
  lookup. Last, what a committed batch does: \<open>formal_commit\<close>, shared with the review and
  promotion plans.
\<close>

section \<open>The mutation plan\<close>

datatype change_operation = Correct | Invalidate | Rollback

fun operation_name :: "change_operation \<Rightarrow> ustring" where
  "operation_name Correct = str ''correct''"
| "operation_name Invalidate = str ''invalidate''"
| "operation_name Rollback = str ''rollback''"

record mutation_input =
  mi_operation :: change_operation
  mi_project :: ustring
  mi_project_version :: int
  mi_memory :: ustring
  mi_memory_version :: int
  mi_revision :: ustring
  mi_actor :: ustring
  mi_digest :: ustring
  mi_content :: ustring
  mi_sha256 :: ustring
  mi_from :: "ustring option"
  mi_until :: "ustring option"
  mi_now :: int
  mi_key :: "ustring option"
  mi_next_status :: "memory_status option"
  mi_prev_hash :: "ustring option"
  mi_hash :: "ustring option"

definition audit_id :: "ustring \<Rightarrow> int \<Rightarrow> ustring" where
  "audit_id pid ver = pid @ 58 # dec_int ver"

lemma audit_id_inj: "audit_id p v = audit_id q w \<longleftrightarrow> p = q \<and> v = w"
proof
  assume "audit_id p v = audit_id q w"
  then have "p = q \<and> dec_int v = dec_int w"
    unfolding audit_id_def by (rule split_at_last) (auto dest: dec_int_chars)
  then show "p = q \<and> v = w" by simp
qed simp

definition mutation_next_project :: "mutation_input \<Rightarrow> int" where
  "mutation_next_project i = mi_project_version i + 1"

definition mutation_next_memory :: "mutation_input \<Rightarrow> int" where
  "mutation_next_memory i = mi_memory_version i + 1"

definition mutation_audit_id :: "mutation_input \<Rightarrow> ustring" where
  "mutation_audit_id i = audit_id (mi_project i) (mutation_next_project i)"

definition mutation_guard :: "mutation_input \<Rightarrow> db \<Rightarrow> bool" where
  "mutation_guard i = project_at (mi_project i) (mi_project_version i)"

definition mutation_audit_hash :: "mutation_input \<Rightarrow> ustring" where
  "mutation_audit_hash i = (case mi_hash i of None \<Rightarrow> mi_digest i | Some h \<Rightarrow> h)"

definition mutation_audit :: "mutation_input \<Rightarrow> audit_event" where
  "mutation_audit i =
     \<lparr>a_id = mutation_audit_id i, a_project = mi_project i, a_sequence = mutation_next_project i,
      a_type = operation_name (mi_operation i), a_actor = mi_actor i, a_digest = mi_digest i,
      a_prev = mi_prev_hash i, a_hash = mutation_audit_hash i, a_recorded_at = mi_now i\<rparr>"

definition mutation_revision :: "mutation_input \<Rightarrow> revision" where
  "mutation_revision i =
     \<lparr>v_id = mi_revision i, v_project = mi_project i, v_memory = mi_memory i,
      v_version = mutation_next_memory i, v_content = mi_content i, v_sha256 = mi_sha256 i,
      v_from = mi_from i, v_until = mi_until i, v_audit = mutation_audit_id i,
      v_source = None, v_recorded_at = mi_now i\<rparr>"

definition mutation_status :: "mutation_input \<Rightarrow> memory_status" where
  "mutation_status i = (case mi_next_status i of None \<Rightarrow> Active | Some s \<Rightarrow> s)"

definition mutation_head_where :: "mutation_input \<Rightarrow> memory \<Rightarrow> bool" where
  "mutation_head_where i m \<longleftrightarrow> m_project m = mi_project i \<and> m_id m = mi_memory i \<and>
     m_version m = mi_memory_version i"

definition mutation_head_set :: "mutation_input \<Rightarrow> memory \<Rightarrow> memory" where
  "mutation_head_set i m =
     m\<lparr>m_revision := Some (mi_revision i), m_version := mutation_next_memory i,
       m_status := mutation_status i, m_updated_at := mi_now i\<rparr>"

definition mutation_response :: "mutation_input \<Rightarrow> json" where
  "mutation_response i =
     JObj [(str ''memory_id'', JStr (mi_memory i)),
           (str ''memory_version'', JNum (mutation_next_memory i)),
           (str ''project_version'', JNum (mutation_next_project i)),
           (str ''revision_id'', JStr (mi_revision i))]"

definition mutation_key :: "mutation_input \<Rightarrow> ustring" where
  "mutation_key i = (case mi_key i of None \<Rightarrow> mi_digest i | Some k \<Rightarrow> k)"

definition mutation_idem :: "mutation_input \<Rightarrow> idem_record" where
  "mutation_idem i =
     \<lparr>i_project = mi_project i, i_principal = mi_actor i,
      i_operation = str ''memory_'' @ operation_name (mi_operation i), i_key = mutation_key i,
      i_digest = mi_digest i, i_response = mutation_response i,
      i_audit = mutation_audit_id i, i_created_at = mi_now i\<rparr>"

definition memory_changed_payload :: "ustring \<Rightarrow> ustring \<Rightarrow> ustring \<Rightarrow> int \<Rightarrow> json" where
  "memory_changed_payload eid pid mid ver =
     JObj [(str ''type'', JStr (str ''memory.changed'')), (str ''eventId'', JStr eid),
           (str ''projectId'', JStr pid), (str ''memoryId'', JStr mid),
           (str ''projectVersion'', JNum ver)]"

definition mutation_outbox :: "mutation_input \<Rightarrow> outbox_event" where
  "mutation_outbox i =
     \<lparr>o_id = mutation_audit_id i, o_project = mi_project i,
      o_project_version = mutation_next_project i, o_type = str ''memory.changed'',
      o_digest = mi_digest i,
      o_payload = memory_changed_payload (mutation_audit_id i) (mi_project i) (mi_memory i)
        (mutation_next_project i),
      o_created_at = mi_now i\<rparr>"

text \<open>The last statement of every plan: advance the project head.\<close>

definition project_where :: "ustring \<Rightarrow> int \<Rightarrow> project \<Rightarrow> bool" where
  "project_where pid ver p \<longleftrightarrow> p_id p = pid \<and> p_version p = ver"

definition project_set :: "int \<Rightarrow> ustring \<Rightarrow> int \<Rightarrow> project \<Rightarrow> project" where
  "project_set ver h now p = p\<lparr>p_version := ver, p_head := Some h, p_updated_at := now\<rparr>"

definition advance_project :: "ustring \<Rightarrow> int \<Rightarrow> ustring \<Rightarrow> int \<Rightarrow> stmt" where
  "advance_project pid ver h now =
     update_projects (project_where pid ver) (project_set (ver + 1) h now)"

record memory_mutation_plan =
  mp_next_project :: int
  mp_next_memory :: int
  mp_statements :: "stmt list"

definition mutation_statements :: "mutation_input \<Rightarrow> stmt list" where
  "mutation_statements i =
     [guarded (mutation_guard i) (insert_audit (mutation_audit i)),
      guarded (mutation_guard i) (insert_revision (mutation_revision i)),
      guarded (mutation_guard i) (update_heads (mutation_head_where i) (mutation_head_set i)),
      guarded (mutation_guard i) (insert_idem (mutation_idem i)),
      guarded (mutation_guard i) (insert_outbox (mutation_outbox i)),
      guarded (mutation_guard i)
        (advance_project (mi_project i) (mi_project_version i) (mutation_audit_hash i) (mi_now i))]"

definition buildMemoryMutationPlan ::
  "time_lib \<Rightarrow> mutation_input \<Rightarrow> thrown + memory_mutation_plan" where
  "buildMemoryMutationPlan L i =
     bind_res (requireValidValidityInterval L (mi_from i) (mi_until i))
       (\<lambda>_. Inr \<lparr>mp_next_project = mutation_next_project i,
                 mp_next_memory = mutation_next_memory i,
                 mp_statements = mutation_statements i\<rparr>)"

section \<open>The evidence plan\<close>

record mutation_evidence =
  me_id :: ustring
  me_source_type :: ustring
  me_locator :: ustring
  me_commit :: "ustring option"
  me_excerpt :: ustring
  me_repository :: "ustring option"
  me_ref :: "ustring option"
  me_authority :: "repository_authority option"

record stored_provenance =
  sp_commit :: "ustring option"
  sp_repository :: "ustring option"
  sp_ref :: "ustring option"
  sp_path :: "ustring option"
  sp_authority :: "repository_authority option"
  sp_sensitivity :: sensitivity

definition sameMutationEvidenceProvenance :: "mutation_evidence \<Rightarrow> stored_provenance \<Rightarrow> bool" where
  "sameMutationEvidenceProvenance expected stored \<longleftrightarrow>
     sp_commit stored = me_commit expected \<and>
     sp_repository stored = me_repository expected \<and>
     sp_ref stored = me_ref expected \<and>
     sp_path stored = None \<and>
     sp_authority stored = me_authority expected \<and>
     sp_sensitivity stored = Clear"

definition evidence_of :: "ustring \<Rightarrow> int \<Rightarrow> mutation_evidence \<Rightarrow> evidence_row" where
  "evidence_of pid now ev =
     \<lparr>e_id = me_id ev, e_project = pid, e_source_type = me_source_type ev,
      e_locator = me_locator ev, e_repository = me_repository ev, e_commit = me_commit ev,
      e_excerpt = me_excerpt ev, e_sensitivity = Clear, e_recorded_at = now, e_ref = me_ref ev,
      e_path = None, e_authority = me_authority ev\<rparr>"

definition evidence_statement :: "ustring \<Rightarrow> int \<Rightarrow> int \<Rightarrow> mutation_evidence \<Rightarrow> stmt" where
  "evidence_statement pid ver now ev =
     guarded (project_at pid ver) (upsert_evidence (evidence_of pid now ev))"

text \<open>The rows the link statement selects: the tuple with exactly this provenance.\<close>

definition link_selects :: "ustring \<Rightarrow> mutation_evidence \<Rightarrow> evidence_row \<Rightarrow> bool" where
  "link_selects pid ev e \<longleftrightarrow>
     e_project e = pid \<and> e_source_type e = me_source_type ev \<and> e_locator e = me_locator ev \<and>
     e_excerpt e = me_excerpt ev \<and> e_commit e = me_commit ev \<and>
     e_repository e = me_repository ev \<and> e_ref e = me_ref ev \<and> e_path e = None \<and>
     e_authority e = me_authority ev"

definition link_statement :: "ustring \<Rightarrow> int \<Rightarrow> ustring \<Rightarrow> mutation_evidence \<Rightarrow> stmt" where
  "link_statement pid ver rid ev d =
     guarded (project_at pid ver)
       (insert_links pid rid (filter (link_selects pid ev) (t_evidence d))) d"

definition buildMutationEvidencePlan ::
  "ustring \<Rightarrow> int \<Rightarrow> ustring \<Rightarrow> int \<Rightarrow> mutation_evidence list \<Rightarrow> stmt list \<times> stmt list" where
  "buildMutationEvidencePlan pid ver rid recordedAt evs =
     (map (evidence_statement pid ver recordedAt) evs, map (link_statement pid ver rid) evs)"

section \<open>The spliced batch\<close>

text \<open>\<open>xs.splice(k, 0, ...ys)\<close>.\<close>

definition splice :: "nat \<Rightarrow> 'a list \<Rightarrow> 'a list \<Rightarrow> 'a list" where
  "splice k ys xs = take k xs @ ys @ drop k xs"

definition mutation_batch :: "mutation_input \<Rightarrow> mutation_evidence list \<Rightarrow> stmt list" where
  "mutation_batch i evs =
     (let (es, ls) = buildMutationEvidencePlan (mi_project i) (mi_project_version i)
                       (mi_revision i) (mi_now i) evs
      in splice (2 + length es) ls (splice 1 es (mutation_statements i)))"

lemma mutation_batch_order:
  "mutation_batch i evs =
     hd (mutation_statements i) #
     map (evidence_statement (mi_project i) (mi_project_version i) (mi_now i)) evs @
     (mutation_statements i ! 1) #
     map (link_statement (mi_project i) (mi_project_version i) (mi_revision i)) evs @
     drop 2 (mutation_statements i)"
  by (simp add: mutation_batch_def buildMutationEvidencePlan_def splice_def mutation_statements_def
      take_Cons' drop_Cons')

section \<open>Idempotency\<close>

record idempotency_record =
  ir_digest :: ustring
  ir_response :: json

definition resolveIdempotency :: "idempotency_record option \<Rightarrow> ustring \<Rightarrow> thrown + json option" where
  "resolveIdempotency existing payloadDigest =
     (case existing of
        None \<Rightarrow> Inr None
      | Some r \<Rightarrow>
          if ir_digest r \<noteq> payloadDigest
          then Inl (edge IDEMPOTENCY_CONFLICT
                 ''The idempotency key was already used with a different payload.'')
          else Inr (Some (ir_response r)))"

definition find_idem :: "ustring \<Rightarrow> ustring \<Rightarrow> ustring \<Rightarrow> ustring \<Rightarrow> db \<Rightarrow> idempotency_record option" where
  "find_idem pid who oper key d =
     map_option (\<lambda>r. \<lparr>ir_digest = i_digest r, ir_response = i_response r\<rparr>)
       (find (\<lambda>r. i_project r = pid \<and> i_principal r = who \<and> i_operation r = oper \<and> i_key r = key)
         (t_idems d))"

end
