(* ===== verification/Formal_Commit.thy ===== *)
theory Formal_Commit
  imports Mutation_Plan
begin

text \<open>
  What a committed guarded batch does to the formal tables. \<open>formal_commit\<close> is the
  contract the three plans (mutation, review, promotion) share: one audit event chained to
  the old head, the project row advanced by one, one idempotency record, one outbox event
  named by the audit event, and revisions only appended. The lemmas here derive the audit
  half of \<open>formal_inv\<close> from it once, and establish it for the mutation batch.
\<close>

section \<open>The commit contract\<close>

definition formal_commit :: "ustring \<Rightarrow> int \<Rightarrow> audit_event \<Rightarrow> db \<Rightarrow> db \<Rightarrow> bool" where
  "formal_commit pid ver a d d' \<longleftrightarrow>
     maintainer_grant pid (a_actor a) d \<and> \<not> fenced pid d \<and>
     a_project a = pid \<and> a_sequence a = ver + 1 \<and>
     (\<exists>p\<in>set (t_projects d). p_id p = pid \<and> p_version p = ver \<and> p_head p = a_prev a) \<and>
     t_audits d' = t_audits d @ [a] \<and>
     (\<exists>now. t_projects d' =
        update_where (project_where pid ver) (project_set (ver + 1) (a_hash a) now) (t_projects d)) \<and>
     (\<exists>i. i_digest i = a_digest a \<and> i_audit i = a_id a \<and> t_idems d' = t_idems d @ [i]) \<and>
     (\<exists>ob. o_id ob = a_id a \<and> t_outbox d' = t_outbox d @ [ob]) \<and>
     (\<exists>vs. t_revisions d' = t_revisions d @ vs)"

lemma formal_commitD:
  assumes "formal_commit pid ver a d d'"
  shows "project_at pid ver d" and "t_audits d' = t_audits d @ [a]"
    and "a_project a = pid" and "a_sequence a = ver + 1"
  using assms by (auto simp: formal_commit_def project_at_def)

text \<open>
  \<open>version_of pid d\<close> is the version of a project, \<open>None\<close> for an unknown one. A commit
  advances exactly one project by exactly one.
\<close>

definition version_of :: "ustring \<Rightarrow> db \<Rightarrow> int option" where
  "version_of pid d = map_option p_version (find (\<lambda>p. p_id p = pid) (t_projects d))"

definition head_of :: "ustring \<Rightarrow> db \<Rightarrow> ustring option" where
  "head_of pid d = Option.bind (find (\<lambda>p. p_id p = pid) (t_projects d)) p_head"

lemma find_unique:
  assumes "distinct (map f xs)" and "x \<in> set xs"
  shows "find (\<lambda>y. f y = f x) xs = Some x"
  using assms by (induction xs) (auto simp: image_iff)

lemma version_of_project_at:
  assumes "distinct (map p_id (t_projects d))"
  shows "project_at pid ver d \<longleftrightarrow> version_of pid d = Some ver"
proof
  assume "project_at pid ver d"
  then obtain p where "p \<in> set (t_projects d)" "p_id p = pid" "p_version p = ver"
    by (auto simp: project_at_def)
  with find_unique [OF assms, of p] show "version_of pid d = Some ver"
    by (simp add: version_of_def)
next
  assume "version_of pid d = Some ver"
  then show "project_at pid ver d"
    by (auto simp: version_of_def project_at_def dest!: find_SomeD)
qed

lemma find_update_where:
  assumes "\<And>x. q x \<Longrightarrow> f (g x) = f x"
  shows "find (\<lambda>x. f x = k) (update_where q g xs) =
         map_option (\<lambda>x. if q x then g x else x) (find (\<lambda>x. f x = k) xs)"
  using assms by (induction xs) auto

lemma version_of_commit:
  assumes inv: "distinct (map p_id (t_projects d))" and c: "formal_commit pid ver a d d'"
  shows "version_of q d' = (if q = pid then Some (ver + 1) else version_of q d)"
    and "head_of q d' = (if q = pid then Some (a_hash a) else head_of q d)"
proof -
  obtain now where p': "t_projects d' =
      update_where (project_where pid ver) (project_set (ver + 1) (a_hash a) now) (t_projects d)"
    using c by (auto simp: formal_commit_def)
  obtain p where p: "p \<in> set (t_projects d)" "p_id p = pid" "p_version p = ver"
    using c by (auto simp: formal_commit_def)
  have find': "find (\<lambda>x. p_id x = q) (t_projects d') =
      map_option (\<lambda>x. if project_where pid ver x then project_set (ver + 1) (a_hash a) now x else x)
        (find (\<lambda>x. p_id x = q) (t_projects d))"
    unfolding p' by (rule find_update_where) (simp add: project_set_def)
  have findp: "find (\<lambda>x. p_id x = pid) (t_projects d) = Some p"
    using find_unique [OF inv p(1)] p(2) by simp
  have other: "map_option (\<lambda>x. if project_where pid ver x then project_set (ver + 1) (a_hash a) now x else x)
        (find (\<lambda>x. p_id x = q) (t_projects d)) = find (\<lambda>x. p_id x = q) (t_projects d)" if "q \<noteq> pid"
    using that by (cases "find (\<lambda>x. p_id x = q) (t_projects d)")
      (auto simp: project_where_def dest!: find_SomeD)
  have same: "find (\<lambda>x. p_id x = pid) (t_projects d') = Some (project_set (ver + 1) (a_hash a) now p)"
    if "q = pid"
    using find' findp p that by (simp add: project_where_def)
  have "find (\<lambda>x. p_id x = q) (t_projects d') = (if q = pid
      then Some (project_set (ver + 1) (a_hash a) now p) else find (\<lambda>x. p_id x = q) (t_projects d))"
    using other find' same by (cases "q = pid") simp_all
  then show "version_of q d' = (if q = pid then Some (ver + 1) else version_of q d)"
    and "head_of q d' = (if q = pid then Some (a_hash a) else head_of q d)"
    by (simp_all add: version_of_def head_of_def project_set_def)
qed

lemma project_ids_commit:
  "formal_commit pid ver a d d' \<Longrightarrow> map p_id (t_projects d') = map p_id (t_projects d)"
  by (auto simp: formal_commit_def project_set_def intro!: map_update_where)

text \<open>The audit half of the invariant follows from the contract alone.\<close>

definition chains_ok :: "db \<Rightarrow> bool" where
  "chains_ok d \<longleftrightarrow> distinct (map p_id (t_projects d)) \<and>
     (\<forall>p\<in>set (t_projects d).
        audit_chain (rev (project_audits (p_id p) d)) (p_version p) (p_head p))"

lemma chains_ok_commit:
  assumes ok: "chains_ok d" and c: "formal_commit pid ver a d d'"
  shows "chains_ok d'"
proof -
  have dist: "distinct (map p_id (t_projects d))" using ok by (simp add: chains_ok_def)
  obtain now where p': "t_projects d' =
      update_where (project_where pid ver) (project_set (ver + 1) (a_hash a) now) (t_projects d)"
    using c by (auto simp: formal_commit_def)
  obtain p0 where p0: "p0 \<in> set (t_projects d)" "p_id p0 = pid" "p_version p0 = ver"
      "p_head p0 = a_prev a"
    using c by (auto simp: formal_commit_def)
  have a: "a_project a = pid" "a_sequence a = ver + 1" "t_audits d' = t_audits d @ [a]"
    using c by (auto simp: formal_commit_def)
  have "audit_chain (rev (project_audits (p_id r) d')) (p_version r) (p_head r)"
    if r: "r \<in> set (t_projects d')" for r
  proof -
    obtain s where s: "s \<in> set (t_projects d)"
      and rs: "r = (if project_where pid ver s then project_set (ver + 1) (a_hash a) now s else s)"
      using r by (auto simp: p' set_update_where)
    have chain: "audit_chain (rev (project_audits (p_id s) d)) (p_version s) (p_head s)"
      using ok s by (simp add: chains_ok_def)
    show ?thesis
    proof (cases "p_id s = pid")
      case True
      then have "s = p0"
        using distinct_map_unique [OF dist s p0(1)] p0(2) by simp
      with True chain p0 a rs show ?thesis
        by (simp add: project_where_def project_set_def project_audits_def)
    next
      case False
      with chain a rs show ?thesis
        by (simp add: project_where_def project_audits_def)
    qed
  qed
  then show ?thesis
    using project_ids_commit [OF c] dist by (simp add: chains_ok_def)
qed

section \<open>Statements under a false or a true guard\<close>

lemma guarded_False: "\<not> c d \<Longrightarrow> guarded c s d = Inr (d, 0)"
  by (simp add: guarded_def)

lemma guarded_True: "c d \<Longrightarrow> guarded c s d = s d"
  by (simp add: guarded_def)

lemma insert_audit_Inr:
  "insert_audit a d = Inr (d', n) \<longleftrightarrow>
     maintainer_grant (a_project a) (a_actor a) d \<and>
     (\<exists>p\<in>set (t_projects d). p_id p = a_project a \<and> p_version p = a_sequence a - 1 \<and>
        p_head p = a_prev a) \<and>
     \<not> (\<exists>b\<in>set (t_audits d). a_id b = a_id a \<or>
          (a_project b = a_project a \<and> (a_sequence b = a_sequence a \<or> a_hash b = a_hash a))) \<and>
     d' = d\<lparr>t_audits := t_audits d @ [a]\<rparr> \<and> n = 1"
  by (auto simp: insert_audit_def split: if_splits)

lemma insert_revision_Inr:
  "insert_revision v d = Inr (d', n) \<longleftrightarrow>
     (\<exists>m\<in>set (t_memories d). m_project m = v_project v \<and> m_id m = v_memory v \<and>
        m_version m = v_version v - 1) \<and>
     \<not> (\<exists>u\<in>set (t_revisions d). v_id u = v_id v \<or>
          (v_project u = v_project v \<and> v_memory u = v_memory v \<and> v_version u = v_version v)) \<and>
     d' = d\<lparr>t_revisions := t_revisions d @ [v]\<rparr> \<and> n = 1"
  by (auto simp: insert_revision_def split: if_splits)

lemma insert_idem_Inr:
  "insert_idem i d = Inr (d', n) \<longleftrightarrow>
     \<not> (\<exists>j\<in>set (t_idems d). i_project j = i_project i \<and> i_principal j = i_principal i \<and>
          i_operation j = i_operation i \<and> i_key j = i_key i) \<and>
     d' = d\<lparr>t_idems := t_idems d @ [i]\<rparr> \<and> n = 1"
  by (auto simp: insert_idem_def split: if_splits)

lemma insert_outbox_Inr:
  "insert_outbox ob d = Inr (d', n) \<longleftrightarrow>
     \<not> fenced (o_project ob) d \<and> \<not> (\<exists>q\<in>set (t_outbox d). o_id q = o_id ob) \<and>
     d' = d\<lparr>t_outbox := t_outbox d @ [ob]\<rparr> \<and> n = 1"
  by (auto simp: insert_outbox_def split: if_splits)

lemma advance_project_Inr:
  "advance_project pid ver h now d = Inr (d', n) \<longleftrightarrow>
     \<not> (\<exists>p\<in>set (t_projects d). project_where pid ver p \<and> fenced (p_id p) d) \<and>
     d' = d\<lparr>t_projects := update_where (project_where pid ver) (project_set (ver + 1) h now)
             (t_projects d)\<rparr> \<and>
     n = count_where (project_where pid ver) (t_projects d)"
  by (auto simp: advance_project_def update_projects_def split: if_splits)

lemmas op_Inr = insert_audit_Inr insert_revision_Inr insert_idem_Inr insert_outbox_Inr
  advance_project_Inr

text \<open>The evidence statements add evidence rows, the link statements add links; nothing else.\<close>

lemma upsert_evidence_frame:
  "upsert_evidence e d = Inr (d', n) \<Longrightarrow>
     n = 1 \<and> (\<exists>f\<in>set (t_evidence d'). same_tuple e f \<and> e_commit f = e_commit e \<and>
        e_repository f = e_repository e \<and> e_ref f = e_ref e \<and> e_path f = e_path e \<and>
        e_authority f = e_authority e) \<and>
     (\<exists>es. d' = d\<lparr>t_evidence := t_evidence d @ es\<rparr> \<and> (es = [] \<or> es = [e]))"
  by (auto simp: upsert_evidence_def same_tuple_def split: if_splits option.splits dest!: find_SomeD
      intro: exI [of _ "[]"])

lemma evidence_statements_run:
  assumes "run_batch (map (evidence_statement pid ver now) evs) d = Inr (d', ns)"
  shows "\<exists>es. d' = d\<lparr>t_evidence := t_evidence d @ es\<rparr> \<and> length ns = length evs"
  using assms
proof (induction evs arbitrary: d d' ns)
  case Nil
  then show ?case by (auto intro!: exI [of _ "[]"])
next
  case (Cons ev evs)
  then obtain d1 n ms where s: "evidence_statement pid ver now ev d = Inr (d1, n)"
    and r: "run_batch (map (evidence_statement pid ver now) evs) d1 = Inr (d', ms)"
    and ns: "ns = n # ms"
    by (auto simp: run_batch_Cons_Inr simp del: run_batch.simps)
  from s obtain es where d1: "d1 = d\<lparr>t_evidence := t_evidence d @ es\<rparr>"
    by (auto simp: evidence_statement_def guarded_def split: if_splits
        dest!: upsert_evidence_frame intro: that [of "[]"])
  from Cons.IH [OF r] obtain fs where "d' = d1\<lparr>t_evidence := t_evidence d1 @ fs\<rparr>"
      "length ms = length evs"
    by auto
  with d1 ns show ?case by auto
qed

lemma link_statements_run:
  assumes "run_batch (map (link_statement pid ver rid) evs) d = Inr (d', ns)"
  shows "\<exists>ls. d' = d\<lparr>t_links := t_links d @ ls\<rparr> \<and> length ns = length evs"
  using assms
proof (induction evs arbitrary: d d' ns)
  case Nil
  then show ?case by (auto intro!: exI [of _ "[]"])
next
  case (Cons ev evs)
  then obtain d1 n ms where s: "link_statement pid ver rid ev d = Inr (d1, n)"
    and r: "run_batch (map (link_statement pid ver rid) evs) d1 = Inr (d', ms)"
    and ns: "ns = n # ms"
    by (auto simp: run_batch_Cons_Inr simp del: run_batch.simps)
  from s obtain ls where d1: "d1 = d\<lparr>t_links := t_links d @ ls\<rparr>"
    by (auto simp: link_statement_def guarded_def split: if_splits
        dest!: insert_links_frame intro: that [of "[]"])
  from Cons.IH [OF r] obtain ks where "d' = d1\<lparr>t_links := t_links d1 @ ks\<rparr>"
      "length ms = length evs"
    by auto
  with d1 ns show ?case by auto
qed

section \<open>The mutation batch\<close>

lemmas mutation_parts = mutation_guard_def mutation_audit_def mutation_revision_def
  mutation_idem_def mutation_outbox_def mutation_next_project_def mutation_next_memory_def

text \<open>A stale project version: every statement selects nothing.\<close>

lemma mutation_batch_idle:
  assumes "\<not> project_at (mi_project i) (mi_project_version i) d"
  shows "run_batch (mutation_batch i evs) d =
     Inr (d, replicate (length (mutation_batch i evs)) 0)"
  by (rule run_batch_idle)
    (use assms in \<open>auto simp: mutation_batch_order mutation_statements_def guarded_def
       mutation_guard_def evidence_statement_def link_statement_def\<close>)

text \<open>A current project version: the explicit database after the batch.\<close>

lemma mutation_batch_commit:
  assumes run: "run_batch (mutation_batch i evs) d = Inr (d', ns)"
    and cur: "project_at (mi_project i) (mi_project_version i) d"
  obtains es ls where
    "insert_audit (mutation_audit i) d = Inr (d\<lparr>t_audits := t_audits d @ [mutation_audit i]\<rparr>, 1)"
    "\<exists>n. insert_revision (mutation_revision i) d =
       Inr (d\<lparr>t_revisions := t_revisions d @ [mutation_revision i]\<rparr>, n)"
    "\<exists>n. insert_idem (mutation_idem i) d = Inr (d\<lparr>t_idems := t_idems d @ [mutation_idem i]\<rparr>, n)"
    "\<exists>n. insert_outbox (mutation_outbox i) d =
       Inr (d\<lparr>t_outbox := t_outbox d @ [mutation_outbox i]\<rparr>, n)"
    "d' = d\<lparr>t_audits := t_audits d @ [mutation_audit i],
        t_evidence := t_evidence d @ es,
        t_revisions := t_revisions d @ [mutation_revision i],
        t_links := t_links d @ ls,
        t_memories := update_where (mutation_head_where i) (mutation_head_set i) (t_memories d),
        t_idems := t_idems d @ [mutation_idem i],
        t_outbox := t_outbox d @ [mutation_outbox i],
        t_projects := update_where (project_where (mi_project i) (mi_project_version i))
          (project_set (mi_project_version i + 1) (mutation_audit_hash i) (mi_now i)) (t_projects d)\<rparr>"
    "last ns = count_where (project_where (mi_project i) (mi_project_version i)) (t_projects d)"
proof -
  let ?g = "mutation_guard i"
  let ?ev = "map (evidence_statement (mi_project i) (mi_project_version i) (mi_now i)) evs"
  let ?ln = "map (link_statement (mi_project i) (mi_project_version i) (mi_revision i)) evs"
  obtain d1 n1 r1 where s1: "guarded ?g (insert_audit (mutation_audit i)) d = Inr (d1, n1)"
    and r1: "run_batch (?ev @ mutation_statements i ! 1 # ?ln @ drop 2 (mutation_statements i)) d1
       = Inr (d', r1)" and ns1: "ns = n1 # r1"
    using run unfolding mutation_batch_order
    by (auto simp: run_batch_Cons_Inr mutation_statements_def simp del: run_batch.simps)
  have d1: "d1 = d\<lparr>t_audits := t_audits d @ [mutation_audit i]\<rparr>" and a: "insert_audit (mutation_audit i) d = Inr (d1, 1)"
    using s1 cur by (simp_all add: guarded_True mutation_guard_def insert_audit_Inr)
  obtain d2 k2 r2 where s2: "run_batch ?ev d1 = Inr (d2, k2)"
    and r2: "run_batch (mutation_statements i ! 1 # ?ln @ drop 2 (mutation_statements i)) d2 = Inr (d', r2)"
    and ns2: "r1 = k2 @ r2"
    using r1 by (auto simp: run_batch_append_Inr simp del: run_batch.simps)
  obtain es where d2: "d2 = d1\<lparr>t_evidence := t_evidence d1 @ es\<rparr>"
    using evidence_statements_run [OF s2] by auto
  obtain d3 n3 r3 where s3: "guarded ?g (insert_revision (mutation_revision i)) d2 = Inr (d3, n3)"
    and r3: "run_batch (?ln @ drop 2 (mutation_statements i)) d3 = Inr (d', r3)"
    and ns3: "r2 = n3 # r3"
    using r2 by (auto simp: run_batch_Cons_Inr mutation_statements_def simp del: run_batch.simps)
  have s3': "insert_revision (mutation_revision i) d2 = Inr (d3, n3)"
    using s3 cur d1 d2 by (simp add: guarded_True mutation_guard_def)
  then have d3: "d3 = d2\<lparr>t_revisions := t_revisions d2 @ [mutation_revision i]\<rparr>"
    by (simp add: insert_revision_Inr)
  obtain d4 k4 r4 where s4: "run_batch ?ln d3 = Inr (d4, k4)"
    and r4: "run_batch (drop 2 (mutation_statements i)) d4 = Inr (d', r4)" and ns4: "r3 = k4 @ r4"
    using r3 by (auto simp: run_batch_append_Inr simp del: run_batch.simps)
  obtain ls where d4: "d4 = d3\<lparr>t_links := t_links d3 @ ls\<rparr>"
    using link_statements_run [OF s4] by auto
  have g4: "?g d4" using cur d1 d2 d3 d4 by (simp add: mutation_guard_def)
  from r4 obtain d5 n5 d6 n6 d7 n7 n8 where
      s5: "guarded ?g (update_heads (mutation_head_where i) (mutation_head_set i)) d4 = Inr (d5, n5)"
    and s6: "guarded ?g (insert_idem (mutation_idem i)) d5 = Inr (d6, n6)"
    and s7: "guarded ?g (insert_outbox (mutation_outbox i)) d6 = Inr (d7, n7)"
    and s8: "guarded ?g (advance_project (mi_project i) (mi_project_version i)
               (mutation_audit_hash i) (mi_now i)) d7 = Inr (d', n8)"
    and ns5: "r4 = [n5, n6, n7, n8]"
    by (auto simp: run_batch_Cons_Inr mutation_statements_def simp del: run_batch.simps(2))
  have d5: "d5 = d4\<lparr>t_memories := update_where (mutation_head_where i) (mutation_head_set i)
      (t_memories d4)\<rparr>"
    using s5 g4 by (simp add: guarded_True update_heads_def)
  have g5: "?g d5" using g4 d5 by (simp add: mutation_guard_def)
  have d6: "d6 = d5\<lparr>t_idems := t_idems d5 @ [mutation_idem i]\<rparr>"
    and i6: "insert_idem (mutation_idem i) d5 = Inr (d6, n6)"
    using s6 g5 by (simp_all add: guarded_True insert_idem_Inr)
  have g6: "?g d6" using g5 d6 by (simp add: mutation_guard_def)
  have d7: "d7 = d6\<lparr>t_outbox := t_outbox d6 @ [mutation_outbox i]\<rparr>"
    and o7: "insert_outbox (mutation_outbox i) d6 = Inr (d7, n7)"
    using s7 g6 by (simp_all add: guarded_True insert_outbox_Inr)
  have g7: "?g d7" using g6 d7 by (simp add: mutation_guard_def)
  have d8: "d' = d7\<lparr>t_projects := update_where (project_where (mi_project i) (mi_project_version i))
          (project_set (mi_project_version i + 1) (mutation_audit_hash i) (mi_now i)) (t_projects d7)\<rparr>"
    and n8: "n8 = count_where (project_where (mi_project i) (mi_project_version i)) (t_projects d7)"
    using s8 g7 by (simp_all add: guarded_True advance_project_Inr)
  show thesis
  proof (rule that)
    show "insert_audit (mutation_audit i) d = Inr (d\<lparr>t_audits := t_audits d @ [mutation_audit i]\<rparr>, 1)"
      using a d1 by simp
    show "\<exists>n. insert_revision (mutation_revision i) d =
       Inr (d\<lparr>t_revisions := t_revisions d @ [mutation_revision i]\<rparr>, n)"
      using s3' d1 d2 by (auto simp: insert_revision_Inr)
    show "\<exists>n. insert_idem (mutation_idem i) d = Inr (d\<lparr>t_idems := t_idems d @ [mutation_idem i]\<rparr>, n)"
      using i6 d1 d2 d3 d4 d5 by (auto simp: insert_idem_Inr)
    show "\<exists>n. insert_outbox (mutation_outbox i) d =
       Inr (d\<lparr>t_outbox := t_outbox d @ [mutation_outbox i]\<rparr>, n)"
      using o7 d1 d2 d3 d4 d5 d6 by (auto simp: insert_outbox_Inr)
    show "d' = d\<lparr>t_audits := t_audits d @ [mutation_audit i],
        t_evidence := t_evidence d @ es,
        t_revisions := t_revisions d @ [mutation_revision i],
        t_links := t_links d @ ls,
        t_memories := update_where (mutation_head_where i) (mutation_head_set i) (t_memories d),
        t_idems := t_idems d @ [mutation_idem i],
        t_outbox := t_outbox d @ [mutation_outbox i],
        t_projects := update_where (project_where (mi_project i) (mi_project_version i))
          (project_set (mi_project_version i + 1) (mutation_audit_hash i) (mi_now i)) (t_projects d)\<rparr>"
      using d8 d7 d6 d5 d4 d3 d2 d1 by simp
    show "last ns = count_where (project_where (mi_project i) (mi_project_version i)) (t_projects d)"
      using n8 ns1 ns2 ns3 ns4 ns5 d1 d2 d3 d4 d5 d6 d7 by simp
  qed
qed

lemma mutation_formal_commit:
  assumes run: "run_batch (mutation_batch i evs) d = Inr (d', ns)"
    and cur: "project_at (mi_project i) (mi_project_version i) d"
  shows "formal_commit (mi_project i) (mi_project_version i) (mutation_audit i) d d'"
proof (rule mutation_batch_commit [OF run cur])
  fix es ls
  assume "insert_audit (mutation_audit i) d = Inr (d\<lparr>t_audits := t_audits d @ [mutation_audit i]\<rparr>, 1)"
    and "\<exists>n. insert_outbox (mutation_outbox i) d =
       Inr (d\<lparr>t_outbox := t_outbox d @ [mutation_outbox i]\<rparr>, n)"
    and "d' = d\<lparr>t_audits := t_audits d @ [mutation_audit i],
        t_evidence := t_evidence d @ es,
        t_revisions := t_revisions d @ [mutation_revision i],
        t_links := t_links d @ ls,
        t_memories := update_where (mutation_head_where i) (mutation_head_set i) (t_memories d),
        t_idems := t_idems d @ [mutation_idem i],
        t_outbox := t_outbox d @ [mutation_outbox i],
        t_projects := update_where (project_where (mi_project i) (mi_project_version i))
          (project_set (mi_project_version i + 1) (mutation_audit_hash i) (mi_now i)) (t_projects d)\<rparr>"
  then show ?thesis
    by (auto simp: formal_commit_def op_Inr mutation_parts)
qed

end
