(* ===== verification/Review_Plan.thy ===== *)
theory Review_Plan
  imports Formal_Commit
begin

text \<open>
  \<open>src/storage/review-plan.ts\<close>: the guarded batch that records a rejection or a request
  for changes on a candidate. The project, candidate and review-request guards are the
  WHERE clauses of the statements; the last three statements run under \<open>reviewedGuard\<close>,
  which the candidate update of the same batch establishes.
\<close>

section \<open>The plan\<close>

datatype review_outcome = RejectCandidate | RequestCandidateChanges

record review_input =
  ri_project :: ustring
  ri_project_version :: int
  ri_candidate :: ustring
  ri_candidate_version :: int
  ri_request :: ustring
  ri_decision :: ustring
  ri_actor :: ustring
  ri_digest :: ustring
  ri_key :: ustring
  ri_outcome :: review_outcome
  ri_reason :: ustring
  ri_edits :: "json option"
  ri_content :: "ustring option"
  ri_prev_hash :: "ustring option"
  ri_hash :: ustring
  ri_now :: int

fun outcome_status :: "review_outcome \<Rightarrow> candidate_status" where
  "outcome_status RejectCandidate = Rejected"
| "outcome_status RequestCandidateChanges = RequestChanges"

fun outcome_request_status :: "review_outcome \<Rightarrow> review_status" where
  "outcome_request_status RejectCandidate = RRejected"
| "outcome_request_status RequestCandidateChanges = RChangesRequested"

fun outcome_verdict :: "review_outcome \<Rightarrow> review_verdict" where
  "outcome_verdict RejectCandidate = Reject"
| "outcome_verdict RequestCandidateChanges = AskChanges"

fun outcome_name :: "review_outcome \<Rightarrow> ustring" where
  "outcome_name RejectCandidate = str ''rejected''"
| "outcome_name RequestCandidateChanges = str ''request_changes''"

definition review_audit_id :: "review_input \<Rightarrow> ustring" where
  "review_audit_id i = audit_id (ri_project i) (ri_project_version i + 1)"

definition review_guard :: "review_input \<Rightarrow> db \<Rightarrow> bool" where
  "review_guard i d \<longleftrightarrow> project_at (ri_project i) (ri_project_version i) d \<and>
     candidate_open (ri_project i) (ri_candidate i) (ri_candidate_version i) d"

definition reviewed_guard :: "review_input \<Rightarrow> db \<Rightarrow> bool" where
  "reviewed_guard i d \<longleftrightarrow> project_at (ri_project i) (ri_project_version i) d \<and>
     (\<exists>c\<in>set (t_observations d). c_project c = ri_project i \<and> c_id c = ri_candidate i \<and>
        c_version c = ri_candidate_version i + 1 \<and> c_status c = outcome_status (ri_outcome i))"

definition review_response :: "review_input \<Rightarrow> json" where
  "review_response i =
     JObj [(str ''candidate_id'', JStr (ri_candidate i)),
           (str ''candidate_version'', JNum (ri_candidate_version i + 1)),
           (str ''status'', JStr (outcome_name (ri_outcome i))),
           (str ''project_version'', JNum (ri_project_version i + 1))]"

definition review_audit :: "review_input \<Rightarrow> audit_event" where
  "review_audit i =
     \<lparr>a_id = review_audit_id i, a_project = ri_project i, a_sequence = ri_project_version i + 1,
      a_type = str ''candidate_reviewed'', a_actor = ri_actor i, a_digest = ri_digest i,
      a_prev = ri_prev_hash i, a_hash = ri_hash i, a_recorded_at = ri_now i\<rparr>"

definition review_decision_row :: "review_input \<Rightarrow> review_decision" where
  "review_decision_row i =
     \<lparr>d_id = ri_decision i, d_project = ri_project i, d_request = ri_request i,
      d_candidate = ri_candidate i, d_version = ri_candidate_version i + 1,
      d_verdict = outcome_verdict (ri_outcome i), d_reason = ri_reason i, d_edits = ri_edits i,
      d_actor = ri_actor i, d_audit = review_audit_id i, d_digest = ri_digest i,
      d_created_at = ri_now i\<rparr>"

definition request_where :: "ustring \<Rightarrow> ustring \<Rightarrow> ustring \<Rightarrow> review_request \<Rightarrow> bool" where
  "request_where pid rid cid r \<longleftrightarrow> r_project r = pid \<and> r_id r = rid \<and> r_candidate r = Some cid \<and>
     (r_status r = RPending \<or> r_status r = RChangesRequested)"

definition request_set :: "review_status \<Rightarrow> ustring \<Rightarrow> int \<Rightarrow> review_request \<Rightarrow> review_request" where
  "request_set s aid now r = r\<lparr>r_status := s, r_audit := Some aid, r_updated_at := now\<rparr>"

definition candidate_where :: "ustring \<Rightarrow> ustring \<Rightarrow> int \<Rightarrow> observation \<Rightarrow> bool" where
  "candidate_where pid cid ver c \<longleftrightarrow> c_project c = pid \<and> c_id c = cid \<and> c_version c = ver \<and>
     reviewable (c_status c)"

definition review_candidate_set :: "review_input \<Rightarrow> observation \<Rightarrow> observation" where
  "review_candidate_set i c =
     c\<lparr>c_version := ri_candidate_version i + 1, c_status := outcome_status (ri_outcome i),
       c_review_reason := Some (ri_reason i),
       c_reviewed_content := (case ri_content i of None \<Rightarrow> c_reviewed_content c | Some t \<Rightarrow> Some t),
       c_updated_at := Some (ri_now i)\<rparr>"

definition review_idem :: "review_input \<Rightarrow> idem_record" where
  "review_idem i =
     \<lparr>i_project = ri_project i, i_principal = ri_actor i, i_operation = str ''candidate_review'',
      i_key = ri_key i, i_digest = ri_digest i, i_response = review_response i,
      i_audit = review_audit_id i, i_created_at = ri_now i\<rparr>"

definition review_outbox :: "review_input \<Rightarrow> outbox_event" where
  "review_outbox i =
     \<lparr>o_id = review_audit_id i, o_project = ri_project i,
      o_project_version = ri_project_version i + 1, o_type = str ''candidate.reviewed'',
      o_digest = ri_digest i,
      o_payload = JObj [(str ''type'', JStr (str ''candidate.reviewed'')),
        (str ''eventId'', JStr (review_audit_id i)), (str ''projectId'', JStr (ri_project i)),
        (str ''candidateId'', JStr (ri_candidate i)),
        (str ''projectVersion'', JNum (ri_project_version i + 1))],
      o_created_at = ri_now i\<rparr>"

definition review_statements :: "review_input \<Rightarrow> stmt list" where
  "review_statements i =
     [guarded (review_guard i) (insert_audit (review_audit i)),
      guarded (\<lambda>d. review_guard i d \<and>
                 request_open (ri_project i) (ri_request i) (ri_candidate i) d)
        (insert_decision (review_decision_row i)),
      guarded (review_guard i)
        (update_requests (request_where (ri_project i) (ri_request i) (ri_candidate i))
           (request_set (outcome_request_status (ri_outcome i)) (review_audit_id i) (ri_now i))),
      guarded (project_at (ri_project i) (ri_project_version i))
        (update_candidates
           (candidate_where (ri_project i) (ri_candidate i) (ri_candidate_version i))
           (review_candidate_set i)),
      guarded (reviewed_guard i) (insert_idem (review_idem i)),
      guarded (reviewed_guard i) (insert_outbox (review_outbox i)),
      guarded (reviewed_guard i)
        (advance_project (ri_project i) (ri_project_version i) (ri_hash i) (ri_now i))]"

record candidate_plan =
  cp_next_project :: int
  cp_next_candidate :: int
  cp_response :: json
  cp_statements :: "stmt list"

definition buildCandidateReviewPlan :: "review_input \<Rightarrow> candidate_plan" where
  "buildCandidateReviewPlan i =
     \<lparr>cp_next_project = ri_project_version i + 1, cp_next_candidate = ri_candidate_version i + 1,
      cp_response = review_response i, cp_statements = review_statements i\<rparr>"

section \<open>What the batch does\<close>

lemma candidate_open_iff_where:
  "candidate_open pid cid ver d \<longleftrightarrow> (\<exists>c\<in>set (t_observations d). candidate_where pid cid ver c)"
  by (auto simp: candidate_open_def candidate_where_def)

lemma reviewed_guard_upd [simp]:
  "reviewed_guard i (d\<lparr>t_idems := x\<rparr>) = reviewed_guard i d"
  "reviewed_guard i (d\<lparr>t_outbox := y\<rparr>) = reviewed_guard i d"
  by (simp_all add: reviewed_guard_def)

lemma review_guard_upd [simp]:
  "review_guard i (d\<lparr>t_audits := x1\<rparr>) = review_guard i d"
  "review_guard i (d\<lparr>t_decisions := x2\<rparr>) = review_guard i d"
  "review_guard i (d\<lparr>t_requests := x3\<rparr>) = review_guard i d"
  by (simp_all add: review_guard_def)

lemma review_batch_idle:
  assumes "\<not> project_at (ri_project i) (ri_project_version i) d"
  shows "run_batch (review_statements i) d = Inr (d, replicate (length (review_statements i)) 0)"
  by (rule run_batch_idle)
    (use assms in \<open>auto simp: review_statements_def guarded_def review_guard_def reviewed_guard_def\<close>)

lemma review_transition_ok:
  "candidate_where pid cid (ri_candidate_version i) c \<Longrightarrow>
     candidate_transition_ok c (review_candidate_set i c)"
  by (cases "ri_outcome i")
    (auto simp: candidate_where_def candidate_transition_ok_def review_candidate_set_def)

lemma update_candidates_Inr:
  "update_candidates q f d = Inr (d', n) \<longleftrightarrow>
     (\<forall>c\<in>set (t_observations d). q c \<longrightarrow> candidate_transition_ok c (f c)) \<and>
     d' = d\<lparr>t_observations := update_where q f (t_observations d)\<rparr> \<and>
     n = count_where q (t_observations d)"
  by (auto simp: update_candidates_def split: if_splits)

lemma insert_decision_Inr:
  "insert_decision e d = Inr (d', n) \<longleftrightarrow>
     \<not> (\<exists>b\<in>set (t_decisions d). d_id b = d_id e \<or>
          (d_project b = d_project e \<and> d_candidate b = d_candidate e \<and> d_version b = d_version e)) \<and>
     d' = d\<lparr>t_decisions := t_decisions d @ [e]\<rparr> \<and> n = 1"
  by (auto simp: insert_decision_def split: if_splits)

lemma review_batch_commit:
  assumes run: "run_batch (review_statements i) d = Inr (d', ns)"
    and cur: "review_guard i d"
  obtains dn where
    "insert_audit (review_audit i) d = Inr (d\<lparr>t_audits := t_audits d @ [review_audit i]\<rparr>, 1)"
    "\<not> fenced (ri_project i) d"
    "dn = t_decisions d @ (if request_open (ri_project i) (ri_request i) (ri_candidate i) d
       then [review_decision_row i] else [])"
    "d' = d\<lparr>t_audits := t_audits d @ [review_audit i],
        t_decisions := dn,
        t_requests := update_where (request_where (ri_project i) (ri_request i) (ri_candidate i))
           (request_set (outcome_request_status (ri_outcome i)) (review_audit_id i) (ri_now i))
           (t_requests d),
        t_observations := update_where
           (candidate_where (ri_project i) (ri_candidate i) (ri_candidate_version i))
           (review_candidate_set i) (t_observations d),
        t_idems := t_idems d @ [review_idem i],
        t_outbox := t_outbox d @ [review_outbox i],
        t_projects := update_where (project_where (ri_project i) (ri_project_version i))
          (project_set (ri_project_version i + 1) (ri_hash i) (ri_now i)) (t_projects d)\<rparr>"
    "last ns = count_where (project_where (ri_project i) (ri_project_version i)) (t_projects d)"
proof -
  let ?g = "review_guard i"
  let ?open = "request_open (ri_project i) (ri_request i) (ri_candidate i)"
  from run obtain d1 n1 d2 n2 d3 n3 d4 n4 d5 n5 d6 n6 n7 where
      s1: "guarded ?g (insert_audit (review_audit i)) d = Inr (d1, n1)"
    and s2: "guarded (\<lambda>d. ?g d \<and> ?open d) (insert_decision (review_decision_row i)) d1 = Inr (d2, n2)"
    and s3: "guarded ?g (update_requests (request_where (ri_project i) (ri_request i) (ri_candidate i))
           (request_set (outcome_request_status (ri_outcome i)) (review_audit_id i) (ri_now i))) d2
         = Inr (d3, n3)"
    and s4: "guarded (project_at (ri_project i) (ri_project_version i))
        (update_candidates
           (candidate_where (ri_project i) (ri_candidate i) (ri_candidate_version i))
           (review_candidate_set i)) d3 = Inr (d4, n4)"
    and s5: "guarded (reviewed_guard i) (insert_idem (review_idem i)) d4 = Inr (d5, n5)"
    and s6: "guarded (reviewed_guard i) (insert_outbox (review_outbox i)) d5 = Inr (d6, n6)"
    and s7: "guarded (reviewed_guard i)
        (advance_project (ri_project i) (ri_project_version i) (ri_hash i) (ri_now i)) d6 = Inr (d', n7)"
    and ns: "ns = [n1, n2, n3, n4, n5, n6, n7]"
    by (auto simp: run_batch_Cons_Inr review_statements_def simp del: run_batch.simps(2))
  have d1: "d1 = d\<lparr>t_audits := t_audits d @ [review_audit i]\<rparr>"
    and a1: "insert_audit (review_audit i) d = Inr (d1, 1)"
    using s1 cur by (simp_all add: guarded_True insert_audit_Inr)
  have d2: "d2 = d1\<lparr>t_decisions := t_decisions d1 @
      (if ?open d then [review_decision_row i] else [])\<rparr>"
    using s2 cur d1 by (cases "?open d") (simp_all add: guarded_def insert_decision_Inr)
  have d3: "d3 = d2\<lparr>t_requests :=
      update_where (request_where (ri_project i) (ri_request i) (ri_candidate i))
        (request_set (outcome_request_status (ri_outcome i)) (review_audit_id i) (ri_now i))
        (t_requests d2)\<rparr>"
    using s3 cur d1 d2 by (simp add: guarded_True update_requests_def)
  have cur': "project_at (ri_project i) (ri_project_version i) d"
    using cur by (simp add: review_guard_def)
  have d4: "d4 = d3\<lparr>t_observations := update_where
           (candidate_where (ri_project i) (ri_candidate i) (ri_candidate_version i))
           (review_candidate_set i) (t_observations d3)\<rparr>"
    using s4 cur' d1 d2 d3 by (simp add: guarded_True update_candidates_Inr)
  obtain c where c: "c \<in> set (t_observations d)"
    "candidate_where (ri_project i) (ri_candidate i) (ri_candidate_version i) c"
    using cur by (auto simp: review_guard_def candidate_open_iff_where)
  then have mem: "review_candidate_set i c \<in> set (t_observations d4)"
    using d4 d3 d2 d1 by (force simp: set_update_where)
  have "project_at (ri_project i) (ri_project_version i) d4"
    using cur' d1 d2 d3 d4 by simp
  then have rg: "reviewed_guard i d4"
    unfolding reviewed_guard_def using mem c(2)
    by (intro conjI bexI [of _ "review_candidate_set i c"])
      (auto simp: review_candidate_set_def candidate_where_def)
  have d5: "d5 = d4\<lparr>t_idems := t_idems d4 @ [review_idem i]\<rparr>"
    using s5 rg by (simp add: guarded_True insert_idem_Inr)
  have d6: "d6 = d5\<lparr>t_outbox := t_outbox d5 @ [review_outbox i]\<rparr>"
    and f6: "\<not> fenced (ri_project i) d5"
    using s6 rg d5 by (simp_all add: guarded_True insert_outbox_Inr review_outbox_def)
  have d7: "d' = d6\<lparr>t_projects := update_where (project_where (ri_project i) (ri_project_version i))
          (project_set (ri_project_version i + 1) (ri_hash i) (ri_now i)) (t_projects d6)\<rparr>"
    and n7: "n7 = count_where (project_where (ri_project i) (ri_project_version i)) (t_projects d6)"
    using s7 rg d5 d6 by (simp_all add: guarded_True advance_project_Inr)
  show thesis
    by (rule that [where dn = "t_decisions d @ (if ?open d then [review_decision_row i] else [])"])
      (use a1 d1 f6 d2 d3 d4 d5 d6 d7 n7 ns in simp_all)
qed

lemma review_formal_commit:
  assumes run: "run_batch (review_statements i) d = Inr (d', ns)"
    and cur: "review_guard i d"
  shows "formal_commit (ri_project i) (ri_project_version i) (review_audit i) d d'"
proof -
  obtain dn where
      "insert_audit (review_audit i) d = Inr (d\<lparr>t_audits := t_audits d @ [review_audit i]\<rparr>, 1)"
      "\<not> fenced (ri_project i) d"
    and d': "d' = d\<lparr>t_audits := t_audits d @ [review_audit i],
        t_decisions := dn,
        t_requests := update_where (request_where (ri_project i) (ri_request i) (ri_candidate i))
           (request_set (outcome_request_status (ri_outcome i)) (review_audit_id i) (ri_now i))
           (t_requests d),
        t_observations := update_where
           (candidate_where (ri_project i) (ri_candidate i) (ri_candidate_version i))
           (review_candidate_set i) (t_observations d),
        t_idems := t_idems d @ [review_idem i],
        t_outbox := t_outbox d @ [review_outbox i],
        t_projects := update_where (project_where (ri_project i) (ri_project_version i))
          (project_set (ri_project_version i + 1) (ri_hash i) (ri_now i)) (t_projects d)\<rparr>"
    by (rule review_batch_commit [OF run cur])
  then show ?thesis
    by (auto simp: formal_commit_def insert_audit_Inr review_audit_def review_idem_def review_outbox_def)
qed

end
