(* ===== verification/Promotion_Plan.thy ===== *)
theory Promotion_Plan
  imports Review_Plan
begin

text \<open>
  \<open>src/storage/promotion-plan.ts\<close>: the guarded batch that promotes a reviewed candidate
  into the first revision of a new memory. The scope and repository-context pairing is
  checked before the plan is built; audit event, memory head, context, revision, evidence
  links, decision, review request and candidate state are written under the project-version
  and candidate-status guards, and the last three statements under \<open>promotedGuard\<close>.
\<close>

section \<open>The plan\<close>

record promotion_evidence =
  pe_id :: ustring
  pe_source_type :: ustring
  pe_locator :: ustring
  pe_excerpt :: ustring
  pe_commit :: "ustring option"
  pe_repository :: "ustring option"
  pe_ref :: "ustring option"
  pe_path :: "ustring option"
  pe_authority :: "repository_authority option"

record promotion_input =
  pi_project :: ustring
  pi_project_version :: int
  pi_candidate :: ustring
  pi_candidate_version :: int
  pi_request :: ustring
  pi_decision :: ustring
  pi_memory :: ustring
  pi_revision :: ustring
  pi_actor :: ustring
  pi_digest :: ustring
  pi_key :: ustring
  pi_reason :: ustring
  pi_content :: ustring
  pi_sha256 :: ustring
  pi_kind :: memory_kind
  pi_class :: memory_class
  pi_scope :: memory_scope
  pi_scope_id :: ustring
  pi_repository :: "ustring option"
  pi_from :: "ustring option"
  pi_until :: "ustring option"
  pi_evidence :: "promotion_evidence list"
  pi_prev_hash :: "ustring option"
  pi_hash :: ustring
  pi_now :: int

fun kind_name :: "memory_kind \<Rightarrow> ustring" where
  "kind_name Decision = str ''decision''"
| "kind_name Fact = str ''fact''"
| "kind_name Convention = str ''convention''"
| "kind_name Procedure = str ''procedure''"
| "kind_name Learning = str ''learning''"
| "kind_name Incident = str ''incident''"
| "kind_name Reference = str ''reference''"
| "kind_name Feedback = str ''feedback''"

fun class_name :: "memory_class \<Rightarrow> ustring" where
  "class_name Semantic = str ''semantic''"
| "class_name Procedural = str ''procedural''"
| "class_name Episodic = str ''episodic''"

definition promotion_audit_id :: "promotion_input \<Rightarrow> ustring" where
  "promotion_audit_id i = audit_id (pi_project i) (pi_project_version i + 1)"

definition promotion_guard :: "promotion_input \<Rightarrow> db \<Rightarrow> bool" where
  "promotion_guard i d \<longleftrightarrow> project_at (pi_project i) (pi_project_version i) d \<and>
     candidate_open (pi_project i) (pi_candidate i) (pi_candidate_version i) d"

definition promoted_guard :: "promotion_input \<Rightarrow> db \<Rightarrow> bool" where
  "promoted_guard i d \<longleftrightarrow> project_at (pi_project i) (pi_project_version i) d \<and>
     (\<exists>c\<in>set (t_observations d). c_project c = pi_project i \<and> c_id c = pi_candidate i \<and>
        c_version c = pi_candidate_version i + 1 \<and> c_status c = Promoted \<and>
        c_promoted_memory c = Some (pi_memory i))"

definition promotion_response :: "promotion_input \<Rightarrow> json" where
  "promotion_response i =
     JObj [(str ''candidate_id'', JStr (pi_candidate i)),
           (str ''candidate_version'', JNum (pi_candidate_version i + 1)),
           (str ''status'', JStr (str ''promoted'')),
           (str ''memory_id'', JStr (pi_memory i)),
           (str ''memory_version'', JNum 1),
           (str ''revision_id'', JStr (pi_revision i)),
           (str ''project_version'', JNum (pi_project_version i + 1))]"

definition promotion_audit :: "promotion_input \<Rightarrow> audit_event" where
  "promotion_audit i =
     \<lparr>a_id = promotion_audit_id i, a_project = pi_project i,
      a_sequence = pi_project_version i + 1, a_type = str ''candidate_promoted'',
      a_actor = pi_actor i, a_digest = pi_digest i, a_prev = pi_prev_hash i,
      a_hash = pi_hash i, a_recorded_at = pi_now i\<rparr>"

definition promotion_memory :: "promotion_input \<Rightarrow> memory" where
  "promotion_memory i =
     \<lparr>m_id = pi_memory i, m_project = pi_project i, m_revision = None, m_version = 0,
      m_kind = pi_kind i, m_class = pi_class i, m_scope = pi_scope i,
      m_scope_id = pi_scope_id i, m_status = Active, m_created_at = pi_now i,
      m_updated_at = pi_now i\<rparr>"

definition promotion_context :: "promotion_input \<Rightarrow> ustring \<Rightarrow> memory_context" where
  "promotion_context i repo =
     \<lparr>x_project = pi_project i, x_memory = pi_memory i, x_repository = repo,
      x_created_at = pi_now i\<rparr>"

definition promotion_revision :: "promotion_input \<Rightarrow> revision" where
  "promotion_revision i =
     \<lparr>v_id = pi_revision i, v_project = pi_project i, v_memory = pi_memory i, v_version = 1,
      v_content = pi_content i, v_sha256 = pi_sha256 i, v_from = pi_from i, v_until = pi_until i,
      v_audit = promotion_audit_id i, v_source = Some (pi_candidate i),
      v_recorded_at = pi_now i\<rparr>"

definition promotion_head_where :: "promotion_input \<Rightarrow> memory \<Rightarrow> bool" where
  "promotion_head_where i m \<longleftrightarrow>
     m_project m = pi_project i \<and> m_id m = pi_memory i \<and> m_version m = 0"

definition promotion_head_set :: "promotion_input \<Rightarrow> memory \<Rightarrow> memory" where
  "promotion_head_set i m =
     m\<lparr>m_revision := Some (pi_revision i), m_version := 1, m_updated_at := pi_now i\<rparr>"

definition promotion_evidence_row :: "promotion_input \<Rightarrow> promotion_evidence \<Rightarrow> evidence_row" where
  "promotion_evidence_row i ev =
     \<lparr>e_id = pe_id ev, e_project = pi_project i, e_source_type = pe_source_type ev,
      e_locator = pe_locator ev, e_repository = pe_repository ev, e_commit = pe_commit ev,
      e_excerpt = pe_excerpt ev, e_sensitivity = Clear, e_recorded_at = pi_now i,
      e_ref = pe_ref ev, e_path = pe_path ev, e_authority = pe_authority ev\<rparr>"

definition promotion_link :: "promotion_input \<Rightarrow> promotion_evidence \<Rightarrow> stmt" where
  "promotion_link i ev d =
     guarded (promotion_guard i)
       (insert_links (pi_project i) (pi_revision i)
          (filter (same_tuple (promotion_evidence_row i ev)) (t_evidence d))) d"

definition promotion_evidence_statements :: "promotion_input \<Rightarrow> promotion_evidence \<Rightarrow> stmt list" where
  "promotion_evidence_statements i ev =
     [guarded (promotion_guard i) (insert_evidence_or_ignore (promotion_evidence_row i ev)),
      promotion_link i ev]"

definition promotion_edits :: "promotion_input \<Rightarrow> json" where
  "promotion_edits i =
     JObj [(str ''content'', JStr (pi_content i)),
           (str ''kind'', JStr (kind_name (pi_kind i))),
           (str ''memory_class'', JStr (class_name (pi_class i))),
           (str ''scope'', JStr (scope_name (pi_scope i))),
           (str ''scope_id'', JStr (pi_scope_id i)),
           (str ''valid_from'', json_opt (pi_from i)),
           (str ''valid_until'', json_opt (pi_until i))]"

definition promotion_decision_row :: "promotion_input \<Rightarrow> review_decision" where
  "promotion_decision_row i =
     \<lparr>d_id = pi_decision i, d_project = pi_project i, d_request = pi_request i,
      d_candidate = pi_candidate i, d_version = pi_candidate_version i + 1,
      d_verdict = Approve, d_reason = pi_reason i, d_edits = Some (promotion_edits i),
      d_actor = pi_actor i, d_audit = promotion_audit_id i, d_digest = pi_digest i,
      d_created_at = pi_now i\<rparr>"

definition promotion_candidate_set :: "promotion_input \<Rightarrow> observation \<Rightarrow> observation" where
  "promotion_candidate_set i c =
     c\<lparr>c_version := pi_candidate_version i + 1, c_status := Promoted,
       c_reviewed_content := Some (pi_content i), c_promoted_memory := Some (pi_memory i),
       c_promoted_revision := Some (pi_revision i), c_review_reason := Some (pi_reason i),
       c_updated_at := Some (pi_now i)\<rparr>"

definition promotion_idem :: "promotion_input \<Rightarrow> idem_record" where
  "promotion_idem i =
     \<lparr>i_project = pi_project i, i_principal = pi_actor i, i_operation = str ''candidate_review'',
      i_key = pi_key i, i_digest = pi_digest i, i_response = promotion_response i,
      i_audit = promotion_audit_id i, i_created_at = pi_now i\<rparr>"

definition promotion_outbox :: "promotion_input \<Rightarrow> outbox_event" where
  "promotion_outbox i =
     \<lparr>o_id = promotion_audit_id i, o_project = pi_project i,
      o_project_version = pi_project_version i + 1, o_type = str ''memory.changed'',
      o_digest = pi_digest i,
      o_payload = memory_changed_payload (promotion_audit_id i) (pi_project i) (pi_memory i)
        (pi_project_version i + 1),
      o_created_at = pi_now i\<rparr>"

definition promotion_prefix :: "promotion_input \<Rightarrow> stmt list" where
  "promotion_prefix i =
     [guarded (promotion_guard i) (insert_audit (promotion_audit i)),
      guarded (promotion_guard i) (insert_memory (promotion_memory i))] @
     (case pi_repository i of
        None \<Rightarrow> []
      | Some repo \<Rightarrow> [guarded (promotion_guard i) (insert_context (promotion_context i repo))]) @
     [guarded (promotion_guard i) (insert_revision (promotion_revision i)),
      guarded (promotion_guard i) (update_heads (promotion_head_where i) (promotion_head_set i))]"

definition promotion_suffix :: "promotion_input \<Rightarrow> stmt list" where
  "promotion_suffix i =
     [guarded (\<lambda>d. promotion_guard i d \<and>
                 request_open (pi_project i) (pi_request i) (pi_candidate i) d)
        (insert_decision (promotion_decision_row i)),
      guarded (promotion_guard i)
        (update_requests (request_where (pi_project i) (pi_request i) (pi_candidate i))
           (request_set RApproved (promotion_audit_id i) (pi_now i))),
      guarded (project_at (pi_project i) (pi_project_version i))
        (update_candidates
           (candidate_where (pi_project i) (pi_candidate i) (pi_candidate_version i))
           (promotion_candidate_set i)),
      guarded (promoted_guard i) (insert_idem (promotion_idem i)),
      guarded (promoted_guard i) (insert_outbox (promotion_outbox i)),
      guarded (promoted_guard i)
        (advance_project (pi_project i) (pi_project_version i) (pi_hash i) (pi_now i))]"

definition promotion_statements :: "promotion_input \<Rightarrow> stmt list" where
  "promotion_statements i =
     promotion_prefix i @ concat (map (promotion_evidence_statements i) (pi_evidence i)) @
     promotion_suffix i"

definition buildCandidatePromotionPlan :: "time_lib \<Rightarrow> promotion_input \<Rightarrow> thrown + candidate_plan" where
  "buildCandidatePromotionPlan L i =
     (if pi_evidence i = []
        then Inl (Other (str ''Candidate promotion requires evidence.''))
      else if pi_scope i = ScopeProject \<and> pi_repository i \<noteq> None
        then Inl (Other (str ''Project promotion cannot have a repository context.''))
      else if pi_scope i \<noteq> ScopeProject \<and> pi_repository i = None
        then Inl (Other (str ''Non-project promotion requires a repository context.''))
      else if pi_scope i = ScopeRepository \<and> Some (pi_scope_id i) \<noteq> pi_repository i
        then Inl (Other (str ''Repository scope must match its repository context.''))
      else bind_res (requireValidValidityInterval L (pi_from i) (pi_until i))
        (\<lambda>_. Inr \<lparr>cp_next_project = pi_project_version i + 1,
                  cp_next_candidate = pi_candidate_version i + 1,
                  cp_response = promotion_response i,
                  cp_statements = promotion_statements i\<rparr>))"

section \<open>What the batch does\<close>

lemma promotion_guard_upd [simp]:
  "promotion_guard i (d\<lparr>t_audits := x1\<rparr>) = promotion_guard i d"
  "promotion_guard i (d\<lparr>t_memories := x2\<rparr>) = promotion_guard i d"
  "promotion_guard i (d\<lparr>t_contexts := x3\<rparr>) = promotion_guard i d"
  "promotion_guard i (d\<lparr>t_revisions := x4\<rparr>) = promotion_guard i d"
  "promotion_guard i (d\<lparr>t_evidence := x5\<rparr>) = promotion_guard i d"
  "promotion_guard i (d\<lparr>t_links := x6\<rparr>) = promotion_guard i d"
  "promotion_guard i (d\<lparr>t_decisions := x7\<rparr>) = promotion_guard i d"
  "promotion_guard i (d\<lparr>t_requests := x8\<rparr>) = promotion_guard i d"
  by (simp_all add: promotion_guard_def)

lemma promoted_guard_upd [simp]:
  "promoted_guard i (d\<lparr>t_idems := x\<rparr>) = promoted_guard i d"
  "promoted_guard i (d\<lparr>t_outbox := y\<rparr>) = promoted_guard i d"
  by (simp_all add: promoted_guard_def)

lemma promotion_batch_idle:
  assumes "\<not> project_at (pi_project i) (pi_project_version i) d"
  shows "run_batch (promotion_statements i) d =
     Inr (d, replicate (length (promotion_statements i)) 0)"
  by (rule run_batch_idle)
    (use assms in \<open>auto simp: promotion_statements_def promotion_prefix_def promotion_suffix_def
       promotion_evidence_statements_def promotion_link_def guarded_def promotion_guard_def
       promoted_guard_def split: option.splits\<close>)

lemma insert_evidence_or_ignore_frame:
  "insert_evidence_or_ignore e d = Inr (d', n) \<Longrightarrow> \<exists>es. d' = d\<lparr>t_evidence := t_evidence d @ es\<rparr>"
  by (auto simp: insert_evidence_or_ignore_def split: if_splits intro: exI [of _ "[]"])

lemma promotion_evidence_run:
  assumes "run_batch (concat (map (promotion_evidence_statements i) evs)) d = Inr (d', ns)"
  shows "\<exists>es ls. d' = d\<lparr>t_evidence := t_evidence d @ es, t_links := t_links d @ ls\<rparr>"
  using assms
proof (induction evs arbitrary: d d' ns)
  case Nil
  then show ?case by (auto intro!: exI [of _ "[]"])
next
  case (Cons ev evs)
  have "run_batch (guarded (promotion_guard i)
        (insert_evidence_or_ignore (promotion_evidence_row i ev)) #
      promotion_link i ev # concat (map (promotion_evidence_statements i) evs)) d = Inr (d', ns)"
    using Cons.prems by (simp only: list.map concat.simps promotion_evidence_statements_def [of i ev]
        append_Cons append_Nil)
  then obtain d1 n1 d2 n2 ms where
      s1: "guarded (promotion_guard i) (insert_evidence_or_ignore (promotion_evidence_row i ev)) d
         = Inr (d1, n1)"
    and s2: "promotion_link i ev d1 = Inr (d2, n2)"
    and r: "run_batch (concat (map (promotion_evidence_statements i) evs)) d2 = Inr (d', ms)"
    unfolding run_batch_Cons_Inr by blast
  obtain es where d1: "d1 = d\<lparr>t_evidence := t_evidence d @ es\<rparr>"
    using s1 by (auto simp: guarded_def split: if_splits dest!: insert_evidence_or_ignore_frame
        intro: that [of "[]"])
  obtain ls where d2: "d2 = d1\<lparr>t_links := t_links d1 @ ls\<rparr>"
    using s2 by (auto simp: promotion_link_def guarded_def split: if_splits
        dest!: insert_links_frame intro: that [of "[]"])
  from Cons.IH [OF r] obtain es' ls' where
    "d' = d2\<lparr>t_evidence := t_evidence d2 @ es', t_links := t_links d2 @ ls'\<rparr>"
    by auto
  with d1 d2 show ?case by auto
qed

lemma insert_memory_Inr:
  "insert_memory m d = Inr (d', n) \<Longrightarrow>
     (\<forall>k\<in>set (t_memories d). m_id k \<noteq> m_id m) \<and> n = 1 \<and>
     (\<exists>cs. d' = d\<lparr>t_memories := t_memories d @ [m], t_contexts := t_contexts d @ cs\<rparr>)"
  by (auto simp: insert_memory_def split: if_splits)

lemma insert_context_Inr:
  "insert_context x d = Inr (d', n) \<Longrightarrow> \<exists>cs. d' = d\<lparr>t_contexts := t_contexts d @ cs\<rparr>"
  by (auto simp: insert_context_def split: if_splits intro: exI [of _ "[]"])

lemma promotion_transition_ok:
  "candidate_where pid cid (pi_candidate_version i) c \<Longrightarrow>
     candidate_transition_ok c (promotion_candidate_set i c)"
  by (auto simp: candidate_where_def candidate_transition_ok_def promotion_candidate_set_def)

lemma promotion_prefix_run:
  assumes run: "run_batch (promotion_prefix i) d = Inr (d', ns)" and cur: "promotion_guard i d"
  obtains cs where
    "insert_audit (promotion_audit i) d = Inr (d\<lparr>t_audits := t_audits d @ [promotion_audit i]\<rparr>, 1)"
    "\<forall>k\<in>set (t_memories d). m_id k \<noteq> pi_memory i"
    "\<exists>n. insert_revision (promotion_revision i)
        (d\<lparr>t_memories := t_memories d @ [promotion_memory i]\<rparr>) =
      Inr (d\<lparr>t_memories := t_memories d @ [promotion_memory i],
             t_revisions := t_revisions d @ [promotion_revision i]\<rparr>, n)"
    "d' = d\<lparr>t_audits := t_audits d @ [promotion_audit i],
        t_memories := update_where (promotion_head_where i) (promotion_head_set i)
          (t_memories d @ [promotion_memory i]),
        t_contexts := t_contexts d @ cs,
        t_revisions := t_revisions d @ [promotion_revision i]\<rparr>"
proof -
  let ?g = "promotion_guard i"
  let ?ctx = "case pi_repository i of None \<Rightarrow> [] | Some repo \<Rightarrow>
      [guarded ?g (insert_context (promotion_context i repo))]"
  from run obtain d1 n1 d2 n2 d3 ks d4 n4 n5 where
      s1: "guarded ?g (insert_audit (promotion_audit i)) d = Inr (d1, n1)"
    and s2: "guarded ?g (insert_memory (promotion_memory i)) d1 = Inr (d2, n2)"
    and s3: "run_batch ?ctx d2 = Inr (d3, ks)"
    and s4: "guarded ?g (insert_revision (promotion_revision i)) d3 = Inr (d4, n4)"
    and s5: "guarded ?g (update_heads (promotion_head_where i) (promotion_head_set i)) d4 = Inr (d', n5)"
    by (auto simp: run_batch_Cons_Inr run_batch_append_Inr promotion_prefix_def
        simp del: run_batch.simps(2))
  have d1: "d1 = d\<lparr>t_audits := t_audits d @ [promotion_audit i]\<rparr>"
    and a1: "insert_audit (promotion_audit i) d = Inr (d1, 1)"
    using s1 cur by (simp_all add: guarded_True insert_audit_Inr)
  have "insert_memory (promotion_memory i) d1 = Inr (d2, n2)"
    using s2 cur d1 by (simp add: guarded_True)
  from insert_memory_Inr [OF this] obtain cs where fresh: "\<forall>k\<in>set (t_memories d). m_id k \<noteq> pi_memory i"
    and d2: "d2 = d1\<lparr>t_memories := t_memories d1 @ [promotion_memory i], t_contexts := t_contexts d1 @ cs\<rparr>"
    using d1 by (auto simp: promotion_memory_def)
  obtain cs' where d3: "d3 = d2\<lparr>t_contexts := t_contexts d2 @ cs'\<rparr>"
    using s3 cur d1 d2
    by (auto simp: guarded_True split: option.splits sum.splits dest!: insert_context_Inr
        intro: that [of "[]"])
  have g3: "?g d3" using cur d1 d2 d3 by simp
  have s4': "insert_revision (promotion_revision i) d3 = Inr (d4, n4)"
    using s4 g3 by (simp add: guarded_True)
  then have d4: "d4 = d3\<lparr>t_revisions := t_revisions d3 @ [promotion_revision i]\<rparr>"
    by (simp add: insert_revision_Inr)
  have g4: "?g d4" using g3 d4 by simp
  have d5: "d' = d4\<lparr>t_memories := update_where (promotion_head_where i) (promotion_head_set i)
      (t_memories d4)\<rparr>"
    using s5 g4 by (simp add: guarded_True update_heads_def)
  show thesis
  proof (rule that)
    show "insert_audit (promotion_audit i) d =
        Inr (d\<lparr>t_audits := t_audits d @ [promotion_audit i]\<rparr>, 1)"
      using a1 d1 by simp
    show "\<forall>k\<in>set (t_memories d). m_id k \<noteq> pi_memory i" by (rule fresh)
    show "\<exists>n. insert_revision (promotion_revision i)
        (d\<lparr>t_memories := t_memories d @ [promotion_memory i]\<rparr>) =
      Inr (d\<lparr>t_memories := t_memories d @ [promotion_memory i],
             t_revisions := t_revisions d @ [promotion_revision i]\<rparr>, n)"
      using s4' d1 d2 d3 by (simp add: insert_revision_Inr)
    show "d' = d\<lparr>t_audits := t_audits d @ [promotion_audit i],
        t_memories := update_where (promotion_head_where i) (promotion_head_set i)
          (t_memories d @ [promotion_memory i]),
        t_contexts := t_contexts d @ cs @ cs',
        t_revisions := t_revisions d @ [promotion_revision i]\<rparr>"
      using d1 d2 d3 d4 d5 by simp
  qed
qed

lemma promotion_suffix_run:
  assumes run: "run_batch (promotion_suffix i) d = Inr (d', ns)" and cur: "promotion_guard i d"
  shows "\<not> fenced (pi_project i) d \<and>
    d' = d\<lparr>t_decisions := t_decisions d @
          (if request_open (pi_project i) (pi_request i) (pi_candidate i) d
           then [promotion_decision_row i] else []),
        t_requests := update_where (request_where (pi_project i) (pi_request i) (pi_candidate i))
           (request_set RApproved (promotion_audit_id i) (pi_now i)) (t_requests d),
        t_observations := update_where
           (candidate_where (pi_project i) (pi_candidate i) (pi_candidate_version i))
           (promotion_candidate_set i) (t_observations d),
        t_idems := t_idems d @ [promotion_idem i],
        t_outbox := t_outbox d @ [promotion_outbox i],
        t_projects := update_where (project_where (pi_project i) (pi_project_version i))
          (project_set (pi_project_version i + 1) (pi_hash i) (pi_now i)) (t_projects d)\<rparr> \<and>
    last ns = count_where (project_where (pi_project i) (pi_project_version i)) (t_projects d)"
proof -
  let ?g = "promotion_guard i"
  let ?open = "request_open (pi_project i) (pi_request i) (pi_candidate i)"
  from run obtain d2 n2 d3 n3 d4 n4 d5 n5 d6 n6 n7 where
      s2: "guarded (\<lambda>d. ?g d \<and> ?open d) (insert_decision (promotion_decision_row i)) d = Inr (d2, n2)"
    and s3: "guarded ?g (update_requests (request_where (pi_project i) (pi_request i) (pi_candidate i))
           (request_set RApproved (promotion_audit_id i) (pi_now i))) d2 = Inr (d3, n3)"
    and s4: "guarded (project_at (pi_project i) (pi_project_version i))
        (update_candidates
           (candidate_where (pi_project i) (pi_candidate i) (pi_candidate_version i))
           (promotion_candidate_set i)) d3 = Inr (d4, n4)"
    and s5: "guarded (promoted_guard i) (insert_idem (promotion_idem i)) d4 = Inr (d5, n5)"
    and s6: "guarded (promoted_guard i) (insert_outbox (promotion_outbox i)) d5 = Inr (d6, n6)"
    and s7: "guarded (promoted_guard i)
        (advance_project (pi_project i) (pi_project_version i) (pi_hash i) (pi_now i)) d6 = Inr (d', n7)"
    and ns: "ns = [n2, n3, n4, n5, n6, n7]"
    by (auto simp: run_batch_Cons_Inr promotion_suffix_def simp del: run_batch.simps(2))
  have d2: "d2 = d\<lparr>t_decisions := t_decisions d @
      (if ?open d then [promotion_decision_row i] else [])\<rparr>"
    using s2 cur by (cases "?open d") (simp_all add: guarded_def insert_decision_Inr)
  have d3: "d3 = d2\<lparr>t_requests :=
      update_where (request_where (pi_project i) (pi_request i) (pi_candidate i))
        (request_set RApproved (promotion_audit_id i) (pi_now i)) (t_requests d2)\<rparr>"
    using s3 cur d2 by (simp add: guarded_True update_requests_def)
  have cur': "project_at (pi_project i) (pi_project_version i) d"
    using cur by (simp add: promotion_guard_def)
  have d4: "d4 = d3\<lparr>t_observations := update_where
           (candidate_where (pi_project i) (pi_candidate i) (pi_candidate_version i))
           (promotion_candidate_set i) (t_observations d3)\<rparr>"
    using s4 cur' d2 d3 by (simp add: guarded_True update_candidates_Inr)
  obtain c where c: "c \<in> set (t_observations d)"
    "candidate_where (pi_project i) (pi_candidate i) (pi_candidate_version i) c"
    using cur by (auto simp: promotion_guard_def candidate_open_iff_where)
  then have mem: "promotion_candidate_set i c \<in> set (t_observations d4)"
    using d4 d3 d2 by (force simp: set_update_where)
  have "project_at (pi_project i) (pi_project_version i) d4"
    using cur' d2 d3 d4 by simp
  then have rg: "promoted_guard i d4"
    unfolding promoted_guard_def using mem c(2)
    by (intro conjI bexI [of _ "promotion_candidate_set i c"])
      (auto simp: promotion_candidate_set_def candidate_where_def)
  have d5: "d5 = d4\<lparr>t_idems := t_idems d4 @ [promotion_idem i]\<rparr>"
    using s5 rg by (simp add: guarded_True insert_idem_Inr)
  have d6: "d6 = d5\<lparr>t_outbox := t_outbox d5 @ [promotion_outbox i]\<rparr>"
    and f6: "\<not> fenced (pi_project i) d5"
    using s6 rg d5 by (simp_all add: guarded_True insert_outbox_Inr promotion_outbox_def)
  have d7: "d' = d6\<lparr>t_projects := update_where (project_where (pi_project i) (pi_project_version i))
          (project_set (pi_project_version i + 1) (pi_hash i) (pi_now i)) (t_projects d6)\<rparr>"
    and n7: "n7 = count_where (project_where (pi_project i) (pi_project_version i)) (t_projects d6)"
    using s7 rg d5 d6 by (simp_all add: guarded_True advance_project_Inr)
  show ?thesis
    using f6 d2 d3 d4 d5 d6 d7 n7 ns by simp
qed

text \<open>The explicit database after a committed promotion.\<close>

definition promotion_effect ::
  "promotion_input \<Rightarrow> memory_context list \<Rightarrow> evidence_row list \<Rightarrow> evidence_link list \<Rightarrow> db \<Rightarrow> db" where
  "promotion_effect i cs es ls d =
     d\<lparr>t_audits := t_audits d @ [promotion_audit i],
       t_memories := update_where (promotion_head_where i) (promotion_head_set i)
          (t_memories d @ [promotion_memory i]),
       t_contexts := t_contexts d @ cs,
       t_revisions := t_revisions d @ [promotion_revision i],
       t_evidence := t_evidence d @ es,
       t_links := t_links d @ ls,
       t_decisions := t_decisions d @
          (if request_open (pi_project i) (pi_request i) (pi_candidate i) d
           then [promotion_decision_row i] else []),
       t_requests := update_where (request_where (pi_project i) (pi_request i) (pi_candidate i))
           (request_set RApproved (promotion_audit_id i) (pi_now i)) (t_requests d),
       t_observations := update_where
           (candidate_where (pi_project i) (pi_candidate i) (pi_candidate_version i))
           (promotion_candidate_set i) (t_observations d),
       t_idems := t_idems d @ [promotion_idem i],
       t_outbox := t_outbox d @ [promotion_outbox i],
       t_projects := update_where (project_where (pi_project i) (pi_project_version i))
          (project_set (pi_project_version i + 1) (pi_hash i) (pi_now i)) (t_projects d)\<rparr>"

lemma promotion_batch_commit:
  assumes run: "run_batch (promotion_statements i) d = Inr (d', ns)"
    and cur: "promotion_guard i d"
  obtains cs es ls where
    "insert_audit (promotion_audit i) d = Inr (d\<lparr>t_audits := t_audits d @ [promotion_audit i]\<rparr>, 1)"
    "\<forall>k\<in>set (t_memories d). m_id k \<noteq> pi_memory i"
    "\<forall>u\<in>set (t_revisions d). v_id u \<noteq> pi_revision i"
    "\<not> fenced (pi_project i) d"
    "d' = promotion_effect i cs es ls d"
    "last ns = count_where (project_where (pi_project i) (pi_project_version i)) (t_projects d)"
proof -
  from run obtain d1 k1 d2 k2 k3 where
      r1: "run_batch (promotion_prefix i) d = Inr (d1, k1)"
    and r2: "run_batch (concat (map (promotion_evidence_statements i) (pi_evidence i))) d1 = Inr (d2, k2)"
    and r3: "run_batch (promotion_suffix i) d2 = Inr (d', k3)" and ns: "ns = k1 @ k2 @ k3"
    by (auto simp: promotion_statements_def run_batch_append_Inr)
  obtain cs where p: "insert_audit (promotion_audit i) d =
        Inr (d\<lparr>t_audits := t_audits d @ [promotion_audit i]\<rparr>, 1)"
      "\<forall>k\<in>set (t_memories d). m_id k \<noteq> pi_memory i"
      "\<exists>n. insert_revision (promotion_revision i)
        (d\<lparr>t_memories := t_memories d @ [promotion_memory i]\<rparr>) =
      Inr (d\<lparr>t_memories := t_memories d @ [promotion_memory i],
             t_revisions := t_revisions d @ [promotion_revision i]\<rparr>, n)"
    and d1: "d1 = d\<lparr>t_audits := t_audits d @ [promotion_audit i],
        t_memories := update_where (promotion_head_where i) (promotion_head_set i)
          (t_memories d @ [promotion_memory i]),
        t_contexts := t_contexts d @ cs,
        t_revisions := t_revisions d @ [promotion_revision i]\<rparr>"
    using r1 cur by (rule promotion_prefix_run)
  obtain es ls where d2: "d2 = d1\<lparr>t_evidence := t_evidence d1 @ es, t_links := t_links d1 @ ls\<rparr>"
    using promotion_evidence_run [OF r2] by auto
  have g2: "promotion_guard i d2" using cur d1 d2 by simp
  note s = promotion_suffix_run [OF r3 g2]
  have "k3 \<noteq> []" using run_batch_length [OF r3] by (auto simp: promotion_suffix_def)
  show thesis
  proof (rule that [where cs = cs and es = es and ls = ls])
    show "\<forall>u\<in>set (t_revisions d). v_id u \<noteq> pi_revision i"
      using p(3) by (auto simp: insert_revision_Inr promotion_revision_def)
    show "d' = promotion_effect i cs es ls d"
      using s d1 d2 by (simp add: promotion_effect_def)
  qed (use p s d1 d2 ns \<open>k3 \<noteq> []\<close> in simp_all)
qed

lemma promotion_formal_commit:
  assumes run: "run_batch (promotion_statements i) d = Inr (d', ns)"
    and cur: "promotion_guard i d"
  shows "formal_commit (pi_project i) (pi_project_version i) (promotion_audit i) d d'"
proof -
  obtain cs es ls where
      "insert_audit (promotion_audit i) d = Inr (d\<lparr>t_audits := t_audits d @ [promotion_audit i]\<rparr>, 1)"
      "\<not> fenced (pi_project i) d" "d' = promotion_effect i cs es ls d"
    by (rule promotion_batch_commit [OF run cur])
  then show ?thesis
    by (auto simp: formal_commit_def insert_audit_Inr promotion_effect_def promotion_audit_def
        promotion_idem_def promotion_outbox_def)
qed

end
