(* ===== verification/Formal_Protocol.thy ===== *)
theory Formal_Protocol
  imports Promotion_Plan
begin

text \<open>
  The contract that the three guarded batches of \<open>src/storage\<close> share, as a locale: a batch
  whose expected project version is stale selects nothing, one that is current commits
  exactly one audited step, and the committed-history invariant is kept. Its consequences
  (at most one commit per version, append-only history, the exact meaning of the row count
  the coordinator checks) are proved once and interpreted for the mutation, review and
  promotion plans. Last, the coordinator's interleavings as a step relation.
\<close>

section \<open>The revision half of the invariant\<close>

definition heads_ok :: "db \<Rightarrow> bool" where
  "heads_ok d \<longleftrightarrow> distinct (map m_id (t_memories d)) \<and>
     (\<forall>m\<in>set (t_memories d). head_matches m (memory_revisions (m_project m) (m_id m) d)) \<and>
     (\<forall>v\<in>set (t_revisions d). \<exists>m\<in>set (t_memories d). m_project m = v_project v \<and> m_id m = v_memory v)"

lemma formal_inv_split: "formal_inv d \<longleftrightarrow> chains_ok d \<and> heads_ok d"
  by (auto simp: formal_inv_def chains_ok_def heads_ok_def)

lemma heads_ok_cong:
  "t_memories d' = t_memories d \<Longrightarrow> t_revisions d' = t_revisions d \<Longrightarrow> heads_ok d' = heads_ok d"
  by (simp add: heads_ok_def memory_revisions_def)

text \<open>Appending the next revision of a memory and moving its head to it.\<close>

lemma heads_ok_append_revision:
  assumes ok: "heads_ok d"
    and m0: "m0 \<in> set (t_memories d)" "q m0"
    and q: "\<And>m. q m \<longleftrightarrow> m_project m = v_project v \<and> m_id m = v_memory v \<and>
              m_version m = v_version v - 1"
    and f: "\<And>m. m_project (f m) = m_project m \<and> m_id (f m) = m_id m \<and>
              m_version (f m) = v_version v \<and> m_revision (f m) = Some (v_id v)"
    and mem: "t_memories d' = update_where q f (t_memories d)"
    and rev: "t_revisions d' = t_revisions d @ [v]"
  shows "heads_ok d'"
proof -
  have dist: "distinct (map m_id (t_memories d))" using ok by (simp add: heads_ok_def)
  have ids: "map m_id (t_memories d') = map m_id (t_memories d)"
    unfolding mem by (rule map_update_where) (simp add: f)
  have heads: "head_matches n (memory_revisions (m_project n) (m_id n) d')"
    if n: "n \<in> set (t_memories d')" for n
  proof -
    obtain s where s: "s \<in> set (t_memories d)" and ns: "n = (if q s then f s else s)"
      using n by (auto simp: mem set_update_where)
    have old: "head_matches s (memory_revisions (m_project s) (m_id s) d)"
      using ok s by (simp add: heads_ok_def)
    show ?thesis
    proof (cases "q s")
      case True
      with old ns f [of s] q [of s] rev show ?thesis
        by (simp add: head_matches_def memory_revisions_def)
    next
      case False
      have "\<not> (m_project s = v_project v \<and> m_id s = v_memory v)"
      proof
        assume "m_project s = v_project v \<and> m_id s = v_memory v"
        with distinct_map_unique [OF dist s m0(1)] m0(2) q have "s = m0" by auto
        with m0(2) False show False by simp
      qed
      with old ns False rev show ?thesis
        by (auto simp: head_matches_def memory_revisions_def)
    qed
  qed
  have owned: "\<exists>m\<in>set (t_memories d'). m_project m = v_project u \<and> m_id m = v_memory u"
    if u: "u \<in> set (t_revisions d')" for u
  proof -
    have "\<exists>m\<in>set (t_memories d). m_project m = v_project u \<and> m_id m = v_memory u"
      using u rev ok m0 q by (auto simp: heads_ok_def)
    then obtain m where m: "m \<in> set (t_memories d)" "m_project m = v_project u" "m_id m = v_memory u"
      by auto
    have "(if q m then f m else m) \<in> set (t_memories d')"
      using m(1) by (simp add: mem set_update_where)
    with m f [of m] show ?thesis by (metis (full_types))
  qed
  show ?thesis
    using dist ids heads owned by (simp add: heads_ok_def)
qed

text \<open>Inserting an empty head under a fresh identifier.\<close>

lemma heads_ok_insert_memory:
  assumes ok: "heads_ok d" and fresh: "\<forall>k\<in>set (t_memories d). m_id k \<noteq> m_id m"
    and m: "m_version m = 0" "m_revision m = None"
    and mem: "t_memories d' = t_memories d @ [m]" and rev: "t_revisions d' = t_revisions d"
  shows "heads_ok d'"
proof -
  have none: "memory_revisions (m_project m) (m_id m) d' = []"
    using ok fresh rev by (fastforce simp: heads_ok_def memory_revisions_def filter_empty_conv)
  have same: "memory_revisions p i d' = memory_revisions p i d" for p i
    by (simp add: memory_revisions_def rev)
  have "distinct (map m_id (t_memories d'))"
    using ok fresh by (auto simp: heads_ok_def mem)
  moreover have "\<forall>n\<in>set (t_memories d'). head_matches n (memory_revisions (m_project n) (m_id n) d')"
    using ok none m by (auto simp: heads_ok_def mem same head_matches_def)
  moreover have "\<forall>v\<in>set (t_revisions d'). \<exists>n\<in>set (t_memories d').
      m_project n = v_project v \<and> m_id n = v_memory v"
    using ok by (auto simp: heads_ok_def mem rev)
  ultimately show ?thesis by (simp add: heads_ok_def)
qed

lemma mutation_heads_ok:
  assumes ok: "heads_ok d" and run: "run_batch (mutation_batch i evs) d = Inr (d', ns)"
    and cur: "project_at (mi_project i) (mi_project_version i) d"
  shows "heads_ok d'"
proof (rule mutation_batch_commit [OF run cur])
  fix es ls
  assume r: "\<exists>n. insert_revision (mutation_revision i) d =
       Inr (d\<lparr>t_revisions := t_revisions d @ [mutation_revision i]\<rparr>, n)"
    and d': "d' = d\<lparr>t_audits := t_audits d @ [mutation_audit i],
        t_evidence := t_evidence d @ es,
        t_revisions := t_revisions d @ [mutation_revision i],
        t_links := t_links d @ ls,
        t_memories := update_where (mutation_head_where i) (mutation_head_set i) (t_memories d),
        t_idems := t_idems d @ [mutation_idem i],
        t_outbox := t_outbox d @ [mutation_outbox i],
        t_projects := update_where (project_where (mi_project i) (mi_project_version i))
          (project_set (mi_project_version i + 1) (mutation_audit_hash i) (mi_now i)) (t_projects d)\<rparr>"
  from r obtain m0 where m0: "m0 \<in> set (t_memories d)" "mutation_head_where i m0"
    by (auto simp: insert_revision_Inr mutation_revision_def mutation_next_memory_def
        mutation_head_where_def)
  show "heads_ok d'"
  proof (rule heads_ok_append_revision [OF ok m0(1), where q = "mutation_head_where i" and f = "mutation_head_set i" and v = "mutation_revision i"])
    show "mutation_head_where i m0" by (rule m0(2))
    show "mutation_head_where i m \<longleftrightarrow> m_project m = v_project (mutation_revision i) \<and>
        m_id m = v_memory (mutation_revision i) \<and> m_version m = v_version (mutation_revision i) - 1" for m
      by (auto simp: mutation_head_where_def mutation_revision_def mutation_next_memory_def)
    show "m_project (mutation_head_set i m) = m_project m \<and> m_id (mutation_head_set i m) = m_id m \<and>
        m_version (mutation_head_set i m) = v_version (mutation_revision i) \<and>
        m_revision (mutation_head_set i m) = Some (v_id (mutation_revision i))" for m
      by (simp add: mutation_head_set_def mutation_revision_def)
    show "t_memories d' = update_where (mutation_head_where i) (mutation_head_set i) (t_memories d)"
      and "t_revisions d' = t_revisions d @ [mutation_revision i]"
      using d' by simp_all
  qed
qed

lemma review_heads_ok:
  assumes ok: "heads_ok d" and run: "run_batch (review_statements i) d = Inr (d', ns)"
    and cur: "review_guard i d"
  shows "heads_ok d'"
proof (rule review_batch_commit [OF run cur])
  fix dn
  assume "d' = d\<lparr>t_audits := t_audits d @ [review_audit i],
        t_decisions := dn,
        t_requests := update_where (request_where (ri_project i) (ri_request i) (ri_candidate i))
           (request_set (outcome_request_status (ri_outcome i)) (review_audit_id i) (ri_now i))
           (t_requests d),
        t_observations := update_where
           (candidate_where (ri_project i) (ri_candidate i) (ri_candidate_version i))
           (review_candidate_set i) (t_observations d),
        t_idems := t_idems d @ [review_idem i],
        t_outbox := t_outbox d @ [review_outbox i],
        t_projects := update_where (project_where (ri_project i) (ri_project_version i))
          (project_set (ri_project_version i + 1) (ri_hash i) (ri_now i)) (t_projects d)\<rparr>"
  then have "t_memories d' = t_memories d" "t_revisions d' = t_revisions d" by simp_all
  with ok show "heads_ok d'" using heads_ok_cong by blast
qed

lemma promotion_heads_ok:
  assumes ok: "heads_ok d" and run: "run_batch (promotion_statements i) d = Inr (d', ns)"
    and cur: "promotion_guard i d"
  shows "heads_ok d'"
proof -
  obtain cs es ls where fresh: "\<forall>k\<in>set (t_memories d). m_id k \<noteq> pi_memory i"
    and d': "d' = promotion_effect i cs es ls d"
    by (rule promotion_batch_commit [OF run cur])
  let ?d1 = "d\<lparr>t_memories := t_memories d @ [promotion_memory i]\<rparr>"
  have ok1: "heads_ok ?d1"
    by (rule heads_ok_insert_memory [OF ok, of "promotion_memory i"])
      (use fresh in \<open>simp_all add: promotion_memory_def\<close>)
  show ?thesis
  proof (rule heads_ok_append_revision [OF ok1, where ?m0.0 = "promotion_memory i"
        and q = "promotion_head_where i" and f = "promotion_head_set i" and v = "promotion_revision i"])
    show "promotion_memory i \<in> set (t_memories ?d1)" by simp
    show "promotion_head_where i (promotion_memory i)"
      by (simp add: promotion_head_where_def promotion_memory_def)
    show "promotion_head_where i m \<longleftrightarrow> m_project m = v_project (promotion_revision i) \<and>
        m_id m = v_memory (promotion_revision i) \<and> m_version m = v_version (promotion_revision i) - 1" for m
      by (auto simp: promotion_head_where_def promotion_revision_def)
    show "m_project (promotion_head_set i m) = m_project m \<and> m_id (promotion_head_set i m) = m_id m \<and>
        m_version (promotion_head_set i m) = v_version (promotion_revision i) \<and>
        m_revision (promotion_head_set i m) = Some (v_id (promotion_revision i))" for m
      by (simp add: promotion_head_set_def promotion_revision_def)
    show "t_memories d' = update_where (promotion_head_where i) (promotion_head_set i) (t_memories ?d1)"
      and "t_revisions d' = t_revisions ?d1 @ [promotion_revision i]"
      by (simp_all add: d' promotion_effect_def)
  qed
qed


section \<open>The shared contract\<close>

text \<open>
  \<open>ready\<close> is what a plan needs beside a current project version: the coordinator reads it
  together with the version in one query.
\<close>

locale formal_batch =
  fixes pid_of :: "'i \<Rightarrow> ustring"
    and ver_of :: "'i \<Rightarrow> int"
    and audit_of :: "'i \<Rightarrow> audit_event"
    and ready :: "'i \<Rightarrow> db \<Rightarrow> bool"
    and batch :: "'i \<Rightarrow> stmt list"
  assumes idle: "\<not> project_at (pid_of i) (ver_of i) d \<Longrightarrow>
      run_batch (batch i) d = Inr (d, replicate (length (batch i)) 0)"
    and commit: "project_at (pid_of i) (ver_of i) d \<Longrightarrow> ready i d \<Longrightarrow>
      run_batch (batch i) d = Inr (d', ns) \<Longrightarrow>
      formal_commit (pid_of i) (ver_of i) (audit_of i) d d'"
    and head_count: "project_at (pid_of i) (ver_of i) d \<Longrightarrow> ready i d \<Longrightarrow>
      run_batch (batch i) d = Inr (d', ns) \<Longrightarrow>
      last ns = count_where (project_where (pid_of i) (ver_of i)) (t_projects d)"
    and keeps_heads: "heads_ok d \<Longrightarrow> project_at (pid_of i) (ver_of i) d \<Longrightarrow> ready i d \<Longrightarrow>
      run_batch (batch i) d = Inr (d', ns) \<Longrightarrow> heads_ok d'"
    and nonempty: "batch i \<noteq> []"
begin

lemma stale_writes_nothing:
  "\<not> project_at (pid_of i) (ver_of i) d \<Longrightarrow> after_batch (batch i) d = d"
  by (simp add: after_batch_def idle)

text \<open>The row count of the last statement is 1 exactly when the batch committed.\<close>

lemma last_count_iff:
  assumes dist: "distinct (map p_id (t_projects d))"
    and run: "run_batch (batch i) d = Inr (d', ns)"
    and rdy: "project_at (pid_of i) (ver_of i) d \<Longrightarrow> ready i d"
  shows "last ns = 1 \<longleftrightarrow> project_at (pid_of i) (ver_of i) d"
proof (cases "project_at (pid_of i) (ver_of i) d")
  case True
  then obtain p where p: "p \<in> set (t_projects d)" "p_id p = pid_of i" "p_version p = ver_of i"
    by (auto simp: project_at_def)
  have "count_where (project_where (pid_of i) (ver_of i)) (t_projects d) = 1"
    by (rule count_where_unique [OF dist p(1)]) (use p in \<open>simp_all add: project_where_def\<close>)
  with head_count [OF True rdy [OF True] run] True show ?thesis by simp
next
  case False
  then have "ns = replicate (length (batch i)) 0" using idle [OF False] run by simp
  with nonempty [of i] False show ?thesis by simp
qed

lemma keeps_inv:
  assumes inv: "formal_inv d" and rdy: "project_at (pid_of i) (ver_of i) d \<Longrightarrow> ready i d"
  shows "formal_inv (after_batch (batch i) d)"
proof (cases "run_batch (batch i) d")
  case (Inl e)
  with inv show ?thesis by (simp add: after_batch_def)
next
  case (Inr r)
  obtain d' ns where r: "r = (d', ns)" by (cases r)
  show ?thesis
  proof (cases "project_at (pid_of i) (ver_of i) d")
    case True
    have run: "run_batch (batch i) d = Inr (d', ns)" using Inr r by simp
    have "chains_ok d'"
      using chains_ok_commit [OF _ commit [OF True rdy [OF True] run]] inv
      by (simp add: formal_inv_split)
    moreover have "heads_ok d'"
      using keeps_heads [OF _ True rdy [OF True] run] inv by (simp add: formal_inv_split)
    ultimately show ?thesis using run by (simp add: formal_inv_split after_batch_def)
  next
    case False
    then show ?thesis using inv by (simp add: stale_writes_nothing)
  qed
qed

text \<open>The two possible effects of a batch on the history of the projects.\<close>

lemma effect_cases:
  assumes rdy: "project_at (pid_of i) (ver_of i) d \<Longrightarrow> ready i d"
  shows "after_batch (batch i) d = d \<or>
     (project_at (pid_of i) (ver_of i) d \<and>
      formal_commit (pid_of i) (ver_of i) (audit_of i) d (after_batch (batch i) d))"
proof (cases "project_at (pid_of i) (ver_of i) d")
  case False
  then show ?thesis by (simp add: stale_writes_nothing)
next
  case True
  show ?thesis
  proof (cases "run_batch (batch i) d")
    case (Inl e)
    then show ?thesis by (simp add: after_batch_def)
  next
    case (Inr r)
    obtain d' ns where "r = (d', ns)" by (cases r)
    with Inr True commit [OF True rdy [OF True]] show ?thesis
      by (simp add: after_batch_def)
  qed
qed

lemma append_only:
  assumes rdy: "project_at (pid_of i) (ver_of i) d \<Longrightarrow> ready i d"
  shows "\<exists>as vs is obs. length as \<le> 1 \<and>
     t_audits (after_batch (batch i) d) = t_audits d @ as \<and>
     t_revisions (after_batch (batch i) d) = t_revisions d @ vs \<and>
     t_idems (after_batch (batch i) d) = t_idems d @ is \<and>
     t_outbox (after_batch (batch i) d) = t_outbox d @ obs"
proof (cases "after_batch (batch i) d = d")
  case True
  then show ?thesis by simp
next
  case False
  then have c: "formal_commit (pid_of i) (ver_of i) (audit_of i) d (after_batch (batch i) d)"
    using effect_cases [of i d] rdy by blast
  obtain iv ob vs where "t_audits (after_batch (batch i) d) = t_audits d @ [audit_of i]"
    "t_idems (after_batch (batch i) d) = t_idems d @ [iv]"
    "t_outbox (after_batch (batch i) d) = t_outbox d @ [ob]"
    "t_revisions (after_batch (batch i) d) = t_revisions d @ vs"
    using c unfolding formal_commit_def by blast
  then show ?thesis
    by (intro exI [of _ "[audit_of i]"] exI [of _ vs] exI [of _ "[iv]"] exI [of _ "[ob]"]) simp
qed

text \<open>Versions never decrease, and a commit ends the version it was built for.\<close>

lemma version_monotone:
  assumes dist: "distinct (map p_id (t_projects d))"
    and rdy: "project_at (pid_of i) (ver_of i) d \<Longrightarrow> ready i d"
    and v: "version_of q d = Some v"
  shows "\<exists>w. version_of q (after_batch (batch i) d) = Some w \<and> v \<le> w \<and>
     (v < w \<longleftrightarrow> q = pid_of i \<and> after_batch (batch i) d \<noteq> d) \<and> w \<le> v + 1"
proof (cases "after_batch (batch i) d = d")
  case True
  then show ?thesis using v by simp
next
  case False
  then have cur: "project_at (pid_of i) (ver_of i) d"
    and c: "formal_commit (pid_of i) (ver_of i) (audit_of i) d (after_batch (batch i) d)"
    using effect_cases [of i d] rdy by blast+
  have "version_of (pid_of i) d = Some (ver_of i)"
    using cur version_of_project_at [OF dist] by simp
  with False v version_of_commit(1) [OF dist c, of q] show ?thesis by auto
qed

lemma commit_ends_version:
  assumes dist: "distinct (map p_id (t_projects d))"
    and c: "formal_commit (pid_of i) (ver_of i) (audit_of i) d d'"
  shows "\<not> project_at (pid_of i) (ver_of i) d'"
proof -
  have "distinct (map p_id (t_projects d'))"
    using project_ids_commit [OF c] dist by simp
  then show ?thesis
    using version_of_commit(1) [OF dist c, of "pid_of i"] version_of_project_at by simp
qed

end

text \<open>
  Two batches of any two plans that expect the same version of the same project: when the
  first commits, the second writes nothing.
\<close>

locale two_formal_batches =
  a: formal_batch apid aver aaudit aready abatch + b: formal_batch bpid bver baudit bready bbatch
  for apid :: "'i \<Rightarrow> ustring" and aver aaudit aready abatch
    and bpid :: "'j \<Rightarrow> ustring" and bver baudit bready bbatch
begin

lemma one_commit_per_version:
  assumes dist: "distinct (map p_id (t_projects d))"
    and same: "bpid j = apid i" "bver j = aver i"
    and rdy: "project_at (apid i) (aver i) d \<Longrightarrow> aready i d"
    and effect: "after_batch (abatch i) d \<noteq> d"
  shows "after_batch (bbatch j) (after_batch (abatch i) d) = after_batch (abatch i) d"
proof -
  have "formal_commit (apid i) (aver i) (aaudit i) d (after_batch (abatch i) d)"
    using effect a.effect_cases [of i d] rdy by blast
  from a.commit_ends_version [OF dist this] show ?thesis
    by (intro b.stale_writes_nothing) (simp add: same)
qed

end

section \<open>The three plans meet the contract\<close>

type_synonym mutation_job = "mutation_input \<times> mutation_evidence list"

definition review_ready :: "review_input \<Rightarrow> db \<Rightarrow> bool" where
  "review_ready i = candidate_open (ri_project i) (ri_candidate i) (ri_candidate_version i)"

definition promotion_ready :: "promotion_input \<Rightarrow> db \<Rightarrow> bool" where
  "promotion_ready i = candidate_open (pi_project i) (pi_candidate i) (pi_candidate_version i)"

interpretation mut: formal_batch
  "\<lambda>j. mi_project (fst j)" "\<lambda>j. mi_project_version (fst j)" "\<lambda>j. mutation_audit (fst j)"
  "\<lambda>(j :: mutation_job) d. True" "\<lambda>j. mutation_batch (fst j) (snd j)"
proof (unfold_locales, goal_cases)
  case (1 j d)
  then show ?case by (rule mutation_batch_idle)
next
  case (2 j d d' ns)
  then show ?case using mutation_formal_commit by blast
next
  case (3 j d d' ns)
  from 3(3,1) show ?case by (rule mutation_batch_commit) simp
next
  case (4 d j d' ns)
  then show ?case using mutation_heads_ok by blast
next
  case (5 j)
  show ?case by (simp add: mutation_batch_order)
qed

interpretation rev: formal_batch ri_project ri_project_version review_audit review_ready
  review_statements
proof (unfold_locales, goal_cases)
  case (1 i d)
  then show ?case by (rule review_batch_idle)
next
  case (2 i d d' ns)
  then show ?case using review_formal_commit by (simp add: review_guard_def review_ready_def)
next
  case (3 i d d' ns)
  from 3(1,2) have g: "review_guard i d" by (simp add: review_guard_def review_ready_def)
  from 3(3) g show ?case by (rule review_batch_commit)
next
  case (4 d i d' ns)
  then show ?case using review_heads_ok by (simp add: review_guard_def review_ready_def)
next
  case (5 i)
  show ?case by (simp add: review_statements_def)
qed

interpretation pro: formal_batch pi_project pi_project_version promotion_audit promotion_ready
  promotion_statements
proof (unfold_locales, goal_cases)
  case (1 i d)
  then show ?case by (rule promotion_batch_idle)
next
  case (2 i d d' ns)
  then show ?case using promotion_formal_commit by (simp add: promotion_guard_def promotion_ready_def)
next
  case (3 i d d' ns)
  from 3(1,2) have g: "promotion_guard i d" by (simp add: promotion_guard_def promotion_ready_def)
  from 3(3) g show ?case by (rule promotion_batch_commit)
next
  case (4 d i d' ns)
  then show ?case using promotion_heads_ok by (simp add: promotion_guard_def promotion_ready_def)
next
  case (5 i)
  show ?case by (simp add: promotion_statements_def promotion_prefix_def)
qed

end
