(* ===== verification/Formal_System.thy ===== *)
theory Formal_System
  imports Formal_Protocol
begin

text \<open>
  The authority database under concurrent coordinators: requests read the project version
  and the candidate in one query and build a plan (\<open>prepare\<close>), plans commit later and in
  any order (\<open>commit\<close>) or are lost with their worker (\<open>lose\<close>), while intake, analysis and
  administration write the other tables (\<open>outside\<close>). The committed-history invariant
  holds in every reachable state.
\<close>

section \<open>Operations in flight\<close>

datatype formal_op = OpMutate mutation_job | OpReview review_input | OpPromote promotion_input

fun op_project :: "formal_op \<Rightarrow> ustring" where
  "op_project (OpMutate j) = mi_project (fst j)"
| "op_project (OpReview i) = ri_project i"
| "op_project (OpPromote i) = pi_project i"

fun op_version :: "formal_op \<Rightarrow> int" where
  "op_version (OpMutate j) = mi_project_version (fst j)"
| "op_version (OpReview i) = ri_project_version i"
| "op_version (OpPromote i) = pi_project_version i"

fun op_audit :: "formal_op \<Rightarrow> audit_event" where
  "op_audit (OpMutate j) = mutation_audit (fst j)"
| "op_audit (OpReview i) = review_audit i"
| "op_audit (OpPromote i) = promotion_audit i"

fun op_ready :: "formal_op \<Rightarrow> db \<Rightarrow> bool" where
  "op_ready (OpMutate j) d = True"
| "op_ready (OpReview i) d = review_ready i d"
| "op_ready (OpPromote i) d = promotion_ready i d"

fun op_batch :: "formal_op \<Rightarrow> stmt list" where
  "op_batch (OpMutate j) = mutation_batch (fst j) (snd j)"
| "op_batch (OpReview i) = review_statements i"
| "op_batch (OpPromote i) = promotion_statements i"

interpretation fop: formal_batch op_project op_version op_audit op_ready op_batch
proof (unfold_locales, goal_cases)
  case (1 i d)
  then show ?case by (cases i) (auto intro: mut.idle rev.idle pro.idle)
next
  case (2 i d d' ns)
  then show ?case by (cases i) (auto intro: mut.commit rev.commit pro.commit)
next
  case (3 i d d' ns)
  then show ?case by (cases i) (auto dest: mut.head_count rev.head_count pro.head_count)
next
  case (4 d i d' ns)
  then show ?case by (cases i) (auto intro: mut.keeps_heads rev.keeps_heads pro.keeps_heads)
next
  case (5 i)
  show ?case using mut.nonempty rev.nonempty pro.nonempty by (cases i) auto
qed

interpretation fops: two_formal_batches op_project op_version op_audit op_ready op_batch
  op_project op_version op_audit op_ready op_batch
  by unfold_locales

text \<open>Candidates of another project are out of reach of a batch.\<close>

lemma candidate_open_update_other:
  assumes "\<And>c. q c \<Longrightarrow> c_project c \<noteq> pid" and "\<And>c. c_project (f c) = c_project c"
  shows "candidate_open pid cid ver (d\<lparr>t_observations := update_where q f (t_observations d)\<rparr>) =
     candidate_open pid cid ver d"
proof -
  have "candidate_open pid cid ver (d\<lparr>t_observations := update_where q f (t_observations d)\<rparr>) \<longleftrightarrow>
      (\<exists>c\<in>set (t_observations d). c_project (if q c then f c else c) = pid \<and>
        c_id (if q c then f c else c) = cid \<and> c_version (if q c then f c else c) = ver \<and>
        reviewable (c_status (if q c then f c else c)))"
    by (auto simp: candidate_open_def set_update_where)
  also have "\<dots> \<longleftrightarrow> candidate_open pid cid ver d"
    unfolding candidate_open_def using assms by (intro bex_cong) auto
  finally show ?thesis .
qed

lemma candidate_open_cong:
  "t_observations d' = t_observations d \<Longrightarrow> candidate_open pid cid ver d' = candidate_open pid cid ver d"
  by (simp add: candidate_open_def)

lemma op_frames_candidates:
  assumes cur: "project_at (op_project op) (op_version op) d" and rdy: "op_ready op d"
    and run: "run_batch (op_batch op) d = Inr (d', ns)" and other: "pid \<noteq> op_project op"
  shows "candidate_open pid cid ver d' = candidate_open pid cid ver d"
proof (cases op)
  case (OpMutate j)
  have "t_observations d' = t_observations d"
    using run cur unfolding OpMutate by (auto elim!: mutation_batch_commit)
  then show ?thesis by (rule candidate_open_cong)
next
  case (OpReview i)
  let ?q = "candidate_where (ri_project i) (ri_candidate i) (ri_candidate_version i)"
  have g: "review_guard i d"
    using cur rdy by (simp add: OpReview review_guard_def review_ready_def)
  have "t_observations d' = update_where ?q (review_candidate_set i) (t_observations d)"
    using run g unfolding OpReview by (auto elim!: review_batch_commit)
  then have "candidate_open pid cid ver d' =
      candidate_open pid cid ver (d\<lparr>t_observations := update_where ?q (review_candidate_set i) (t_observations d)\<rparr>)"
    by (simp add: candidate_open_def)
  also have "\<dots> = candidate_open pid cid ver d"
    by (rule candidate_open_update_other)
      (use other in \<open>auto simp: OpReview candidate_where_def review_candidate_set_def\<close>)
  finally show ?thesis .
next
  case (OpPromote i)
  let ?q = "candidate_where (pi_project i) (pi_candidate i) (pi_candidate_version i)"
  have g: "promotion_guard i d"
    using cur rdy by (simp add: OpPromote promotion_guard_def promotion_ready_def)
  have "t_observations d' = update_where ?q (promotion_candidate_set i) (t_observations d)"
    using run g unfolding OpPromote by (auto simp: promotion_effect_def elim!: promotion_batch_commit)
  then have "candidate_open pid cid ver d' =
      candidate_open pid cid ver (d\<lparr>t_observations := update_where ?q (promotion_candidate_set i) (t_observations d)\<rparr>)"
    by (simp add: candidate_open_def)
  also have "\<dots> = candidate_open pid cid ver d"
    by (rule candidate_open_update_other)
      (use other in \<open>auto simp: OpPromote candidate_where_def promotion_candidate_set_def\<close>)
  finally show ?thesis .
qed

section \<open>Writes from outside the formal protocol\<close>

text \<open>
  Intake inserts queued observations, analysis moves a queued one to review or to no-op
  under the transition trigger, and the remaining tables change freely.
\<close>

inductive outside :: "db \<Rightarrow> db \<Rightarrow> bool" where
  intake: "\<forall>b\<in>set (t_observations d). c_id b \<noteq> c_id c \<Longrightarrow>
     outside d (d\<lparr>t_observations := t_observations d @ [c]\<rparr>)"
| analysis: "update_candidates q f d = Inr (d', n) \<Longrightarrow> (\<And>c. q c \<Longrightarrow> c_status c = Queued) \<Longrightarrow>
     (\<And>c. c_id (f c) = c_id c) \<Longrightarrow> outside d d'"
| requests: "outside d (d\<lparr>t_requests := rs\<rparr>)"
| evidence: "outside d (d\<lparr>t_evidence := es\<rparr>)"
| grants: "outside d (d\<lparr>t_grants := gs\<rparr>)"
| fences: "outside d (d\<lparr>t_registry := fs\<rparr>)"
| intake_rows: "outside d (d\<lparr>t_sessions := ss, t_cursors := ks, t_repositories := ps,
     t_candidate_evidence := xs\<rparr>)"

lemma outside_frame:
  assumes "outside d d'"
  shows "t_projects d' = t_projects d" and "t_audits d' = t_audits d"
    and "t_memories d' = t_memories d" and "t_revisions d' = t_revisions d"
    and "t_idems d' = t_idems d" and "t_outbox d' = t_outbox d"
  using assms by (cases; auto simp: update_candidates_Inr)+

lemma outside_candidate_open:
  assumes "outside d d'" and "candidate_open pid cid ver d"
  shows "candidate_open pid cid ver d'"
  using assms(1)
proof cases
  case (analysis q f n)
  then have d': "d' = d\<lparr>t_observations := update_where q f (t_observations d)\<rparr>"
    by (simp add: update_candidates_Inr)
  obtain c where c: "c \<in> set (t_observations d)" "c_project c = pid" "c_id c = cid"
      "c_version c = ver" "reviewable (c_status c)"
    using assms(2) by (auto simp: candidate_open_def)
  then have "\<not> q c" using analysis(2) by (auto simp: reviewable_def)
  with c show ?thesis
    unfolding d' candidate_open_def
    by (intro bexI [of _ c]) (auto simp: set_update_where intro!: image_eqI [of _ _ c])
qed (use assms(2) in \<open>auto simp: candidate_open_def\<close>)

lemma outside_op_ready: "outside d d' \<Longrightarrow> op_ready op d \<Longrightarrow> op_ready op d'"
  by (cases op) (auto simp: review_ready_def promotion_ready_def intro: outside_candidate_open)

section \<open>The system\<close>

record sys =
  sys_db :: db
  sys_ops :: "formal_op list"

inductive sys_step :: "sys \<Rightarrow> sys \<Rightarrow> bool" where
  prepare: "project_at (op_project op) (op_version op) (sys_db s) \<Longrightarrow> op_ready op (sys_db s) \<Longrightarrow>
     sys_step s (s\<lparr>sys_ops := op # sys_ops s\<rparr>)"
| commit: "op \<in> set (sys_ops s) \<Longrightarrow>
     sys_step s (s\<lparr>sys_db := after_batch (op_batch op) (sys_db s), sys_ops := remove1 op (sys_ops s)\<rparr>)"
| lose: "op \<in> set (sys_ops s) \<Longrightarrow> sys_step s (s\<lparr>sys_ops := remove1 op (sys_ops s)\<rparr>)"
| outside: "outside (sys_db s) d' \<Longrightarrow> sys_step s (s\<lparr>sys_db := d'\<rparr>)"

inductive sys_run :: "sys \<Rightarrow> sys \<Rightarrow> bool" where
  sys_refl: "sys_run s s"
| sys_trans: "sys_run s t \<Longrightarrow> sys_step t u \<Longrightarrow> sys_run s u"

text \<open>A plan in flight is current and ready, or was overtaken for good.\<close>

definition op_sound :: "db \<Rightarrow> formal_op \<Rightarrow> bool" where
  "op_sound d op \<longleftrightarrow> (\<exists>v. version_of (op_project op) d = Some v \<and> op_version op \<le> v \<and>
     (op_version op = v \<longrightarrow> op_ready op d))"

definition sys_ok :: "sys \<Rightarrow> bool" where
  "sys_ok s \<longleftrightarrow> formal_inv (sys_db s) \<and> (\<forall>op\<in>set (sys_ops s). op_sound (sys_db s) op)"

lemma formal_inv_ids: "formal_inv d \<Longrightarrow> distinct (map p_id (t_projects d))"
  by (simp add: formal_inv_def)

lemma op_sound_ready:
  assumes "formal_inv d" and "op_sound d op" and "project_at (op_project op) (op_version op) d"
  shows "op_ready op d"
  using assms version_of_project_at [OF formal_inv_ids] by (auto simp: op_sound_def)

lemma op_sound_after:
  assumes inv: "formal_inv d" and s1: "op_sound d op" and s2: "op_sound d op'"
  shows "op_sound (after_batch (op_batch op) d) op'"
proof (cases "after_batch (op_batch op) d = d")
  case True
  with s2 show ?thesis by simp
next
  case False
  let ?d = "after_batch (op_batch op) d"
  have dist: "distinct (map p_id (t_projects d))" by (rule formal_inv_ids [OF inv])
  have cur: "project_at (op_project op) (op_version op) d"
    and c: "formal_commit (op_project op) (op_version op) (op_audit op) d ?d"
    using False fop.effect_cases [of op d] op_sound_ready [OF inv s1] by blast+
  note rdy = op_sound_ready [OF inv s1 cur]
  obtain d' ns where run: "run_batch (op_batch op) d = Inr (d', ns)" and d': "?d = d'"
    using False by (auto simp: after_batch_def split: sum.splits)
  obtain v where v: "version_of (op_project op') d = Some v" "op_version op' \<le> v"
      "op_version op' = v \<longrightarrow> op_ready op' d"
    using s2 by (auto simp: op_sound_def)
  show ?thesis
  proof (cases "op_project op' = op_project op")
    case True
    then have "v = op_version op" using v(1) cur version_of_project_at [OF dist] by simp
    with True v version_of_commit(1) [OF dist c, of "op_project op'"] show ?thesis
      by (simp add: op_sound_def)
  next
    case other: False
    have "op_ready op' d \<Longrightarrow> op_ready op' ?d"
      using op_frames_candidates [OF cur rdy run other] unfolding d'
      by (cases op') (simp_all add: review_ready_def promotion_ready_def)
    with other v version_of_commit(1) [OF dist c, of "op_project op'"] show ?thesis
      by (simp add: op_sound_def)
  qed
qed

lemma sys_ok_step: "sys_step s t \<Longrightarrow> sys_ok s \<Longrightarrow> sys_ok t"
proof (induction rule: sys_step.induct)
  case (prepare op s)
  then have inv: "formal_inv (sys_db s)" by (simp add: sys_ok_def)
  have "op_sound (sys_db s) op"
    using prepare version_of_project_at [OF formal_inv_ids [OF inv]] by (auto simp: op_sound_def)
  with prepare show ?case by (simp add: sys_ok_def)
next
  case (commit op s)
  then have inv: "formal_inv (sys_db s)" and snd: "op_sound (sys_db s) op" by (auto simp: sys_ok_def)
  have "formal_inv (after_batch (op_batch op) (sys_db s))"
    by (rule fop.keeps_inv [OF inv]) (rule op_sound_ready [OF inv snd])
  moreover have "op_sound (after_batch (op_batch op) (sys_db s)) op'"
    if "op' \<in> set (sys_ops s)" for op'
    by (rule op_sound_after [OF inv snd]) (use commit that in \<open>auto simp: sys_ok_def\<close>)
  ultimately show ?case by (auto simp: sys_ok_def dest: notin_set_remove1 in_set_remove1 set_remove1_subset [THEN subsetD])
next
  case (lose op s)
  then show ?case by (auto simp: sys_ok_def dest: set_remove1_subset [THEN subsetD])
next
  case (outside s d')
  note fr = outside_frame [OF outside(1)]
  have "formal_inv d'"
    using outside fr by (simp add: sys_ok_def formal_inv_def project_audits_def memory_revisions_def)
  moreover have "op_sound d' op" if "op_sound (sys_db s) op" for op
    using that fr outside_op_ready [OF outside(1)] by (auto simp: op_sound_def version_of_def)
  ultimately show ?case using outside by (auto simp: sys_ok_def)
qed

lemma sys_ok_run: "sys_run s t \<Longrightarrow> sys_ok s \<Longrightarrow> sys_ok t"
  by (induction rule: sys_run.induct) (auto dest: sys_ok_step)

definition fresh_sys :: "db \<Rightarrow> sys" where
  "fresh_sys d = \<lparr>sys_db = d, sys_ops = []\<rparr>"

lemma fresh_sys_ok: "formal_inv d \<Longrightarrow> sys_ok (fresh_sys d)"
  by (simp add: sys_ok_def fresh_sys_def)

end
