(* ===== verification/Formal_Demo.thy ===== *)
theory Formal_Demo
  imports Formal_System
begin

text \<open>
  A small authority database and one plan of each kind, on which the properties of the
  formal write protocol are evaluated: one project at version 1 with a maintainer, one
  memory with one revision, one candidate in review.
\<close>

definition demo_audit :: audit_event where
  "demo_audit =
     \<lparr>a_id = audit_id (str ''p'') 1, a_project = str ''p'', a_sequence = 1,
      a_type = str ''candidate_promoted'', a_actor = str ''u'', a_digest = str ''d0'',
      a_prev = None, a_hash = str ''h1'', a_recorded_at = 10\<rparr>"

definition demo_memory :: memory where
  "demo_memory =
     \<lparr>m_id = str ''m'', m_project = str ''p'', m_revision = Some (str ''r1''), m_version = 1,
      m_kind = Fact, m_class = Semantic, m_scope = ScopeProject, m_scope_id = str ''p'',
      m_status = Active, m_created_at = 10, m_updated_at = 10\<rparr>"

definition demo_revision :: revision where
  "demo_revision =
     \<lparr>v_id = str ''r1'', v_project = str ''p'', v_memory = str ''m'', v_version = 1,
      v_content = str ''one'', v_sha256 = str ''s1'', v_from = None, v_until = None,
      v_audit = audit_id (str ''p'') 1, v_source = None, v_recorded_at = 10\<rparr>"

definition demo_candidate :: observation where
  "demo_candidate =
     \<lparr>c_id = str ''c'', c_project = str ''p'', c_version = 1, c_status = PendingReview,
      c_content = Some (str ''two''), c_reviewed_content = None, c_promoted_memory = None,
      c_promoted_revision = None, c_kind = Some (str ''fact''), c_class = Some (str ''semantic''),
      c_scope = Some (str ''project''), c_scope_id = Some (str ''p''), c_from = None, c_until = None,
      c_analysis = None, c_session = None, c_review_reason = None, c_updated_at = None\<rparr>"

definition demo_request :: review_request where
  "demo_request =
     \<lparr>r_id = str ''q'', r_project = str ''p'', r_candidate = Some (str ''c''), r_status = RPending,
      r_audit = None, r_updated_at = 10\<rparr>"

definition demo_grant :: grant where
  "demo_grant =
     \<lparr>g_id = str ''g'', g_project = str ''p'', g_principal = str ''u'', g_role = Maintainer,
      g_scope_kind = ScopeProject, g_scope_id = str ''p'', g_revoked_at = None\<rparr>"

definition demo_db :: db where
  "demo_db =
     \<lparr>t_projects = [\<lparr>p_id = str ''p'', p_ref = str ''a'', p_version = 1, p_head = Some (str ''h1''), p_updated_at = 10\<rparr>,
                    \<lparr>p_id = str ''q'', p_ref = str ''b'', p_version = 0, p_head = None, p_updated_at = 10\<rparr>],
      t_memories = [demo_memory], t_revisions = [demo_revision], t_audits = [demo_audit],
      t_idems = [], t_outbox = [], t_observations = [demo_candidate],
      t_requests = [demo_request], t_decisions = [], t_evidence = [], t_links = [],
      t_contexts = [], t_candidate_evidence = [(str ''p'', str ''c'', str ''e'')],
      t_sessions = [], t_cursors = [], t_repositories = [(str ''p'', str ''repo'')],
      t_grants = [demo_grant], t_registry = []\<rparr>"

definition demo_mutation :: mutation_input where
  "demo_mutation =
     \<lparr>mi_operation = Correct, mi_project = str ''p'', mi_project_version = 1,
      mi_memory = str ''m'', mi_memory_version = 1, mi_revision = str ''r2'', mi_actor = str ''u'',
      mi_digest = str ''d1'', mi_content = str ''three'', mi_sha256 = str ''s2'', mi_from = None,
      mi_until = None, mi_now = 20, mi_key = Some (str ''k''), mi_next_status = Some Active,
      mi_prev_hash = Some (str ''h1''), mi_hash = Some (str ''h2'')\<rparr>"

definition demo_mutation_evidence :: mutation_evidence where
  "demo_mutation_evidence =
     \<lparr>me_id = str ''e'', me_source_type = str ''document'', me_locator = str ''l'', me_commit = None,
      me_excerpt = str ''x'', me_repository = Some (str ''repo''), me_ref = None,
      me_authority = Some AgentSupplied\<rparr>"

definition demo_job :: mutation_job where
  "demo_job = (demo_mutation, [demo_mutation_evidence])"

definition demo_review :: review_input where
  "demo_review =
     \<lparr>ri_project = str ''p'', ri_project_version = 1, ri_candidate = str ''c'',
      ri_candidate_version = 1, ri_request = str ''q'', ri_decision = str ''x'',
      ri_actor = str ''u'', ri_digest = str ''d2'', ri_key = str ''k2'',
      ri_outcome = RejectCandidate, ri_reason = str ''no'', ri_edits = None, ri_content = None,
      ri_prev_hash = Some (str ''h1''), ri_hash = str ''h2'', ri_now = 20\<rparr>"

definition demo_promotion :: promotion_input where
  "demo_promotion =
     \<lparr>pi_project = str ''p'', pi_project_version = 1, pi_candidate = str ''c'',
      pi_candidate_version = 1, pi_request = str ''q'', pi_decision = str ''x'',
      pi_memory = str ''m2'', pi_revision = str ''r2'', pi_actor = str ''u'', pi_digest = str ''d3'',
      pi_key = str ''k3'', pi_reason = str ''ok'', pi_content = str ''two'', pi_sha256 = str ''s2'',
      pi_kind = Fact, pi_class = Semantic, pi_scope = ScopeProject, pi_scope_id = str ''p'',
      pi_repository = None, pi_from = None, pi_until = None,
      pi_evidence = [\<lparr>pe_id = str ''e'', pe_source_type = str ''document'', pe_locator = str ''l'',
        pe_excerpt = str ''x'', pe_commit = None, pe_repository = None, pe_ref = None,
        pe_path = None, pe_authority = None\<rparr>],
      pi_prev_hash = Some (str ''h1''), pi_hash = str ''h2'', pi_now = 20\<rparr>"

text \<open>Row counts of a batch on a database; \<open>None\<close> when it aborts.\<close>

definition batch_counts :: "stmt list \<Rightarrow> db \<Rightarrow> nat list option" where
  "batch_counts ss d = (case run_batch ss d of Inl e \<Rightarrow> None | Inr (d', ns) \<Rightarrow> Some ns)"

lemma demo_inv: "formal_inv demo_db"
  by code_simp

lemma demo_mutation_counts:
  "batch_counts (mutation_batch demo_mutation [demo_mutation_evidence]) demo_db =
     Some [1, 1, 1, 1, 1, 1, 1, 1]"
  by code_simp

lemma demo_review_counts: "batch_counts (review_statements demo_review) demo_db =
     Some [1, 1, 1, 1, 1, 1, 1]"
  by code_simp

lemma demo_promotion_counts: "batch_counts (promotion_statements demo_promotion) demo_db =
     Some [1, 1, 1, 1, 1, 1, 1, 1, 1, 1, 1, 1]"
  by code_simp

lemma demo_ready:
  "project_at (str ''p'') 1 demo_db" "candidate_open (str ''p'') (str ''c'') 1 demo_db"
  by code_simp+

end
