(* ===== verification/Projection_Guard.thy ===== *)
theory Projection_Guard
  imports Projection_Capacity Formal_Demo
begin

text \<open>
  What the coordinator's capacity guards give the formal write protocol: the exact
  acceptance boundary, that a correction or a promotion which passed its guard leaves a
  project whose snapshot still fits, and that an active memory can always be invalidated.
\<close>

section \<open>The authority query on lists\<close>

lemma length_js_unique: "length (js_unique xs) = card (set xs)"
  by (metis distinct_card distinct_js_unique set_js_unique)

definition snapshot_bytes :: "db \<Rightarrow> memory list \<Rightarrow> nat" where
  "snapshot_bytes d ms = sum_list (map (\<lambda>v. utf8_length (v_content v)) (current_revisions d ms))"

definition authority_for :: "db \<Rightarrow> memory list \<Rightarrow> int \<Rightarrow> ustring \<Rightarrow> snapshot_authority" where
  "authority_for d ms ver scope =
     \<lparr>pa_project_version = ver, pa_memories = int (length ms),
      pa_revisions = int (length (current_revisions d ms)),
      pa_scopes = int (card (m_scope_id ` set ms)), pa_bytes = int (snapshot_bytes d ms),
      pa_scope_exists = (if scope \<in> m_scope_id ` set ms then 1 else 0)\<rparr>"

lemma authority_for_eq:
  "\<lparr>pa_project_version = ver, pa_memories = int (length ms),
     pa_revisions = int (length (current_revisions d ms)),
     pa_scopes = int (length (js_unique (map m_scope_id ms))),
     pa_bytes = int (sum_list (map (\<lambda>v. utf8_length (v_content v)) (current_revisions d ms))),
     pa_scope_exists = (if \<exists>m\<in>set ms. m_scope_id m = scope then 1 else 0)\<rparr> =
   authority_for d ms ver scope"
proof -
  have "(\<exists>m\<in>set ms. m_scope_id m = scope) \<longleftrightarrow> scope \<in> m_scope_id ` set ms" by auto
  then show ?thesis by (simp add: authority_for_def length_js_unique snapshot_bytes_def)
qed

lemma read_authority:
  "readProjectionSnapshotAuthority d pid ver sc ex =
     (if project_at pid ver d
      then Some (authority_for d
        (projected_memories d pid (case ex of None \<Rightarrow> [] | Some x \<Rightarrow> x)) ver
        (case sc of None \<Rightarrow> [] | Some x \<Rightarrow> x))
      else None)"
proof (cases "find (\<lambda>p. p_id p = pid \<and> p_version p = ver) (t_projects d)")
  case None
  then have "\<not> project_at pid ver d" by (auto simp: find_None_iff_ball project_at_def)
  with None show ?thesis by (simp add: readProjectionSnapshotAuthority_def Let_def)
next
  case (Some p)
  then have "p_version p = ver" and "project_at pid ver d"
    by (auto simp: project_at_def dest: find_SomeD)
  then show ?thesis
    using Some by (simp add: readProjectionSnapshotAuthority_def Let_def authority_for_eq)
qed

lemma current_revisions_simps [simp]:
  "current_revisions d [] = []"
  "current_revisions d (m # ms) = filter (current_of m) (t_revisions d) @ current_revisions d ms"
  "current_revisions d (xs @ ys) = current_revisions d xs @ current_revisions d ys"
  by (simp_all add: current_revisions_def)

text \<open>Putting a memory with one new current revision between the others.\<close>

lemma current_revisions_extend:
  assumes rev: "t_revisions d' = t_revisions d @ [v]"
    and other: "\<forall>m\<in>set ms. \<not> current_of m v"
  shows "current_revisions d' ms = current_revisions d ms"
  using other by (induction ms) (simp_all add: rev)

lemma authority_extend:
  assumes rev: "t_revisions d' = t_revisions d @ [v]"
    and other: "\<forall>m\<in>set (xs @ ys). \<not> current_of m v"
    and new: "current_of m1 v" and fresh: "\<forall>u\<in>set (t_revisions d). v_id u \<noteq> v_id v"
    and sc: "m_scope_id m1 = sc"
  shows "authority_input (authority_for d' (xs @ m1 # ys) ver' sc') =
    \<lparr>ci_memories = pa_memories (authority_for d (xs @ ys) ver sc) + 1,
     ci_revisions = pa_revisions (authority_for d (xs @ ys) ver sc) + 1,
     ci_scopes = pa_scopes (authority_for d (xs @ ys) ver sc) +
       (if pa_scope_exists (authority_for d (xs @ ys) ver sc) = 0 then 1 else 0),
     ci_bytes = pa_bytes (authority_for d (xs @ ys) ver sc) + int (utf8_length (v_content v))\<rparr>"
proof -
  have "current_of m1 u \<Longrightarrow> v_id u = v_id v" for u using new by (simp add: current_of_def)
  then have "filter (current_of m1) (t_revisions d) = []" using fresh by (auto simp: filter_empty_conv)
  then have one: "filter (current_of m1) (t_revisions d') = [v]" using new by (simp add: rev)
  have "current_revisions d' xs = current_revisions d xs" "current_revisions d' ys = current_revisions d ys"
    using other current_revisions_extend [OF rev] by auto
  then show ?thesis
    using one sc by (auto simp: authority_for_def authority_input_def snapshot_bytes_def card_insert_if)
qed

text \<open>What passing the guard means.\<close>

lemma formal_capacity_passed:
  assumes "requireFormalProjectionCapacity d pid ver ex 1 bytes sc = Inr ()"
  shows "\<exists>a c. readProjectionSnapshotAuthority d pid ver (Some sc) ex = Some a \<and>
     calculateProjectionRebuildSnapshotCapacity
       \<lparr>ci_memories = pa_memories a + 1, ci_revisions = pa_revisions a + 1,
        ci_scopes = pa_scopes a + (if pa_scope_exists a = 0 then 1 else 0),
        ci_bytes = pa_bytes a + bytes\<rparr> = Inr c \<and> cap_accepted c"
proof -
  have rethrow: "rethrow_edge r = Inr () \<longleftrightarrow> r = Inr ()" for r :: "thrown + unit"
    by (cases r rule: rethrow_edge.cases) (auto simp: projectionCapacityExceeded_def edge_def)
  from assms obtain a where a: "readProjectionSnapshotAuthority d pid ver (Some sc) ex = Some a"
    by (auto simp: requireFormalProjectionCapacity_def split: option.splits)
  with assms show ?thesis
    by (auto simp: requireFormalProjectionCapacity_def rethrow bind_res_Inr_iff
        calculateProjectionSnapshotCapacityAfterChange_def split: if_splits)
qed

lemma check_capacity_accepts:
  assumes "readProjectionSnapshotAuthority d pid ver None None = Some a"
    and "calculateProjectionRebuildSnapshotCapacity (authority_input a) = Inr c" and "cap_accepted c"
  shows "checkProjectionSnapshotCapacity d pid ver = Inr True"
proof -
  have "cap_content_ok c" "cap_subrequests_ok c" using assms(2,3) by (auto simp: calculate_Inr)
  with assms show ?thesis
    by (simp add: checkProjectionSnapshotCapacity_def requireSnapshotCapacityAuthority_def)
qed

definition projectable :: "ustring \<Rightarrow> memory \<Rightarrow> bool" where
  "projectable pid m \<longleftrightarrow> m_project m = pid \<and> m_revision m \<noteq> None \<and>
     (m_status m = Active \<or> m_status m = Contested)"

lemma projected_all: "projected_memories d pid [] = filter (projectable pid) (t_memories d)"
  by (simp add: projected_memories_def projectable_def [abs_def])

lemma projected_except:
  "x \<noteq> [] \<Longrightarrow> projected_memories d pid x = filter (\<lambda>m. projectable pid m \<and> m_id m \<noteq> x) (t_memories d)"
  by (simp add: projected_memories_def projectable_def [abs_def] conj_ac)

text \<open>The rows around the one memory that has an identifier.\<close>

lemma split_memory:
  assumes "distinct (map m_id ms)" and "m \<in> set ms"
  obtains xs ys where "ms = xs @ m # ys" "\<forall>k\<in>set (xs @ ys). m_id k \<noteq> m_id m"
proof -
  obtain xs ys where "ms = xs @ m # ys" using assms(2) by (meson split_list)
  with assms(1) show ?thesis by (intro that [of xs ys]) (auto simp: image_iff)
qed

lemma filter_except_split:
  assumes "\<forall>k\<in>set (xs @ ys). m_id k \<noteq> x" and "m_id m = x"
  shows "filter (\<lambda>k. P k \<and> m_id k \<noteq> x) (xs @ m # ys) = filter P xs @ filter P ys"
  using assms by (auto intro!: arg_cong2 [where f = "(@)"] filter_cong)

lemma project_at_committed:
  "formal_commit pid ver a d d' \<Longrightarrow> project_at pid (ver + 1) d'"
proof -
  assume c: "formal_commit pid ver a d d'"
  obtain p now where p: "p \<in> set (t_projects d)" "project_where pid ver p" and
    "t_projects d' = update_where (project_where pid ver) (project_set (ver + 1) (a_hash a) now) (t_projects d)"
    using c unfolding formal_commit_def project_where_def by blast
  then have "project_set (ver + 1) (a_hash a) now p \<in> set (t_projects d')"
    by (force simp: set_update_where)
  moreover have "p_id (project_set (ver + 1) (a_hash a) now p) = pid \<and>
      p_version (project_set (ver + 1) (a_hash a) now p) = ver + 1"
    using p(2) by (simp add: project_set_def project_where_def)
  ultimately show ?thesis unfolding project_at_def by blast
qed

section \<open>Corrections and promotions stay within capacity\<close>

lemma correction_authority:
  assumes inv: "heads_ok d" and m: "m \<in> set (t_memories d)" "q m" "m_project m = pid"
    and q: "\<And>k. q k \<Longrightarrow> m_id k = m_id m" and x: "m_id m \<noteq> []"
    and f: "projectable pid (f m)" "m_id (f m) = m_id m" "m_scope_id (f m) = m_scope_id m"
      "current_of (f m) v"
    and mem: "t_memories d' = update_where q f (t_memories d)"
    and rev: "t_revisions d' = t_revisions d @ [v]"
    and fresh: "\<forall>u\<in>set (t_revisions d). v_id u \<noteq> v_id v"
    and cur: "project_at pid ver d" "project_at pid (ver + 1) d'"
    and guard: "requireFormalProjectionCapacity d pid ver (Some (m_id m)) 1
        (int (utf8_length (v_content v))) (m_scope_id m) = Inr ()"
  shows "checkProjectionSnapshotCapacity d' pid (ver + 1) = Inr True"
proof -
  have "distinct (map m_id (t_memories d))" using inv by (simp add: heads_ok_def)
  then obtain xs ys where ms: "t_memories d = xs @ m # ys" and ids: "\<forall>k\<in>set (xs @ ys). m_id k \<noteq> m_id m"
    using split_memory m(1) by blast
  have "\<forall>k\<in>set (xs @ ys). \<not> q k" using q ids by blast
  then have ms': "t_memories d' = xs @ f m # ys" using m(2) by (simp add: mem ms update_where_none)
  let ?P = "projectable pid"
  have new: "projected_memories d' pid [] = filter ?P xs @ f m # filter ?P ys"
    using f(1) by (simp add: projected_all ms')
  have old: "projected_memories d pid (m_id m) = filter ?P xs @ filter ?P ys"
    using projected_except [OF x] filter_except_split [OF ids refl] by (simp add: ms)
  have other: "\<forall>k\<in>set (filter ?P xs @ filter ?P ys). \<not> current_of k v"
    using ids f(2,4) by (auto simp: current_of_def)
  obtain a c where a: "readProjectionSnapshotAuthority d pid ver (Some (m_scope_id m)) (Some (m_id m)) = Some a"
    and c: "calculateProjectionRebuildSnapshotCapacity
       \<lparr>ci_memories = pa_memories a + 1, ci_revisions = pa_revisions a + 1,
        ci_scopes = pa_scopes a + (if pa_scope_exists a = 0 then 1 else 0),
        ci_bytes = pa_bytes a + int (utf8_length (v_content v))\<rparr> = Inr c" "cap_accepted c"
    using formal_capacity_passed [OF guard] by blast
  have "a = authority_for d (filter ?P xs @ filter ?P ys) ver (m_scope_id m)"
    using a old by (simp add: read_authority cur(1))
  then have "authority_input (authority_for d' (filter ?P xs @ f m # filter ?P ys) (ver + 1) []) =
      \<lparr>ci_memories = pa_memories a + 1, ci_revisions = pa_revisions a + 1,
       ci_scopes = pa_scopes a + (if pa_scope_exists a = 0 then 1 else 0),
       ci_bytes = pa_bytes a + int (utf8_length (v_content v))\<rparr>"
    using authority_extend [OF rev other f(4) fresh f(3)] by simp
  with c(1) have "calculateProjectionRebuildSnapshotCapacity
      (authority_input (authority_for d' (filter ?P xs @ f m # filter ?P ys) (ver + 1) [])) = Inr c"
    by simp
  moreover have "readProjectionSnapshotAuthority d' pid (ver + 1) None None =
      Some (authority_for d' (filter ?P xs @ f m # filter ?P ys) (ver + 1) [])"
    by (simp add: read_authority cur(2) new)
  ultimately show ?thesis using c(2) check_capacity_accepts by blast
qed


lemma correction_capacity:
  assumes inv: "heads_ok d" and m: "m \<in> set (t_memories d)" "m_id m = mi_memory i" "m_project m = mi_project i"
    and x: "mi_memory i \<noteq> []" and st: "mi_next_status i = None \<or> mi_next_status i = Some Active"
    and cur: "project_at (mi_project i) (mi_project_version i) d"
    and run: "run_batch (mutation_batch i evs) d = Inr (d', ns)"
    and guard: "requireFormalProjectionCapacity d (mi_project i) (mi_project_version i) (Some (mi_memory i)) 1
        (int (utf8_length (mi_content i))) (m_scope_id m) = Inr ()"
  shows "checkProjectionSnapshotCapacity d' (mi_project i) (mi_project_version i + 1) = Inr True"
proof (rule mutation_batch_commit [OF run cur])
  fix es ls
  assume r: "\<exists>n. insert_revision (mutation_revision i) d =
       Inr (d\<lparr>t_revisions := t_revisions d @ [mutation_revision i]\<rparr>, n)"
    and d': "d' = d\<lparr>t_audits := t_audits d @ [mutation_audit i],
        t_evidence := t_evidence d @ es,
        t_revisions := t_revisions d @ [mutation_revision i],
        t_links := t_links d @ ls,
        t_memories := update_where (mutation_head_where i) (mutation_head_set i) (t_memories d),
        t_idems := t_idems d @ [mutation_idem i],
        t_outbox := t_outbox d @ [mutation_outbox i],
        t_projects := update_where (project_where (mi_project i) (mi_project_version i))
          (project_set (mi_project_version i + 1) (mutation_audit_hash i) (mi_now i)) (t_projects d)\<rparr>"
  have dist: "distinct (map m_id (t_memories d))" using inv by (simp add: heads_ok_def)
  obtain m0 where m0: "m0 \<in> set (t_memories d)" "mutation_head_where i m0"
    using r by (auto simp: insert_revision_Inr mutation_revision_def mutation_next_memory_def
        mutation_head_where_def)
  have "m = m0"
    using distinct_map_unique [OF dist m(1) m0(1)] m(2) m0(2) by (simp add: mutation_head_where_def)
  then have qm: "mutation_head_where i m" using m0 by simp
  note parts = mutation_head_set_def mutation_revision_def mutation_head_where_def
  show ?thesis
  proof (rule correction_authority [OF inv m(1), where q = "mutation_head_where i" and f = "mutation_head_set i"
        and v = "mutation_revision i"])
    show "projectable (mi_project i) (mutation_head_set i m)"
      using st m by (auto simp: projectable_def parts mutation_status_def)
    show "current_of (mutation_head_set i m) (mutation_revision i)"
      using m by (simp add: current_of_def parts)
    show "\<forall>u\<in>set (t_revisions d). v_id u \<noteq> v_id (mutation_revision i)"
      using r by (auto simp: insert_revision_Inr)
    show "project_at (mi_project i) (mi_project_version i + 1) d'"
      by (rule project_at_committed [OF mutation_formal_commit [OF run cur]])
    show "requireFormalProjectionCapacity d (mi_project i) (mi_project_version i) (Some (m_id m)) 1
        (int (utf8_length (v_content (mutation_revision i)))) (m_scope_id m) = Inr ()"
      using guard m(2) by (simp add: parts)
  qed (use m x cur d' qm in \<open>simp_all add: parts\<close>)
qed

lemma capacity_guard_fresh:
  assumes fresh: "\<forall>k\<in>set (t_memories d). m_id k \<noteq> m_id m" and x: "m_id m \<noteq> []"
  shows "requireFormalProjectionCapacity (d\<lparr>t_memories := t_memories d @ [m]\<rparr>) pid ver (Some (m_id m)) n b sc =
     requireFormalProjectionCapacity d pid ver None n b sc"
proof -
  let ?d = "d\<lparr>t_memories := t_memories d @ [m]\<rparr>"
  have "filter (\<lambda>k. projectable pid k \<and> m_id k \<noteq> m_id m) (t_memories d) = filter (projectable pid) (t_memories d)"
    using fresh by (auto intro!: filter_cong)
  then have ms: "projected_memories ?d pid (m_id m) = projected_memories d pid []"
    by (simp add: projected_all projected_except [OF x])
  have "current_revisions ?d ms = current_revisions d ms" for ms
    by (simp add: current_revisions_def)
  then have "authority_for ?d ms ver sc = authority_for d ms ver sc" for ms
    by (simp add: authority_for_def snapshot_bytes_def)
  then have "readProjectionSnapshotAuthority ?d pid ver (Some sc) (Some (m_id m)) =
      readProjectionSnapshotAuthority d pid ver (Some sc) None"
    using ms by (simp add: read_authority)
  then show ?thesis by (simp add: requireFormalProjectionCapacity_def)
qed

lemma promotion_capacity:
  assumes inv: "heads_ok d" and x: "pi_memory i \<noteq> []" and cur: "promotion_guard i d"
    and run: "run_batch (promotion_statements i) d = Inr (d', ns)"
    and guard: "requireFormalProjectionCapacity d (pi_project i) (pi_project_version i) None 1
        (int (utf8_length (pi_content i))) (pi_scope_id i) = Inr ()"
  shows "checkProjectionSnapshotCapacity d' (pi_project i) (pi_project_version i + 1) = Inr True"
proof -
  obtain cs es ls where fresh: "\<forall>k\<in>set (t_memories d). m_id k \<noteq> pi_memory i"
    and vfresh: "\<forall>u\<in>set (t_revisions d). v_id u \<noteq> pi_revision i"
    and d': "d' = promotion_effect i cs es ls d"
    by (rule promotion_batch_commit [OF run cur])
  let ?m = "promotion_memory i"
  let ?d1 = "d\<lparr>t_memories := t_memories d @ [?m]\<rparr>"
  note parts = promotion_memory_def promotion_head_where_def promotion_head_set_def promotion_revision_def
  have cur': "project_at (pi_project i) (pi_project_version i) d"
    using cur by (simp add: promotion_guard_def)
  have ok1: "heads_ok ?d1"
    by (rule heads_ok_insert_memory [OF inv, of ?m]) (use fresh in \<open>simp_all add: parts\<close>)
  show ?thesis
  proof (rule correction_authority [OF ok1, where m = ?m and q = "promotion_head_where i"
        and f = "promotion_head_set i" and v = "promotion_revision i"])
    show "?m \<in> set (t_memories ?d1)" by simp
    show "projectable (pi_project i) (promotion_head_set i ?m)"
      by (simp add: projectable_def parts)
    show "current_of (promotion_head_set i ?m) (promotion_revision i)"
      by (simp add: current_of_def parts)
    show "project_at (pi_project i) (pi_project_version i + 1) d'"
      by (rule project_at_committed [OF promotion_formal_commit [OF run cur]])
    have g: "requireFormalProjectionCapacity ?d1 (pi_project i) (pi_project_version i) (Some (m_id ?m)) 1
        (int (utf8_length (pi_content i))) (pi_scope_id i) = Inr ()"
      using capacity_guard_fresh [of d ?m "pi_project i" "pi_project_version i" 1] fresh x guard
      by (simp add: parts)
    then show "requireFormalProjectionCapacity ?d1 (pi_project i) (pi_project_version i) (Some (m_id ?m)) 1
        (int (utf8_length (v_content (promotion_revision i)))) (m_scope_id ?m) = Inr ()"
      by (simp add: parts)
  qed (use x cur' vfresh d' in \<open>simp_all add: parts promotion_effect_def\<close>)
qed

section \<open>Invalidation\<close>





section \<open>Properties\<close>

text \<open>C20: The snapshot capacity check answers on every input: invalid or unsafe counts are refused
  with an exception, and valid ones are accepted exactly up to 16 MiB of content and
  2 * memories + scopes = 7461, which keeps the retried rebuild within its 45000 subrequests,
  below the platform limit of 50000.\<close>

theorem capacity_acceptance_boundary:
  "(case calculateProjectionRebuildSnapshotCapacity c of
      Inl e \<Rightarrow> \<not> capacity_valid c
    | Inr k \<Rightarrow> capacity_valid c \<and>
        (cap_accepted k \<longleftrightarrow> ci_bytes c \<le> 16777216 \<and> 2 * ci_memories c + ci_scopes c \<le> 7461) \<and>
        (if cap_accepted k then cap_subrequests k < 50000 else True))"
proof (cases "calculateProjectionRebuildSnapshotCapacity c")
  case (Inl e)
  then have "\<not> capacity_valid c" using calculate_Inr by (metis sum.distinct(1))
  with Inl show ?thesis by simp
next
  case (Inr k)
  then have v: "capacity_valid c" and k: "cap_accepted k \<longleftrightarrow> ci_bytes c \<le> max_snapshot_content_bytes \<and>
      capacity_subrequests c \<le> safe_subrequest_limit" "cap_subrequests k = capacity_subrequests c"
    by (auto simp: calculate_Inr)
  then have rv: "ci_revisions c = ci_memories c" by (simp add: capacity_valid_def)
  have "capacity_subrequests c = 230 + 6 * (2 * ci_memories c + ci_scopes c)"
    by (simp add: capacity_subrequests_def capacity_writes_def capacity_constants rv)
  with k v Inr show ?thesis by (auto simp: max_snapshot_content_bytes_def safe_subrequest_limit_def)
qed

text \<open>A correction or rollback that passed the coordinator's capacity guard leaves a project whose
  whole snapshot still fits: after its batch commits, the capacity check of the next project
  version succeeds.\<close>

theorem correction_keeps_projection_possible:
  assumes "formal_inv d" and "m \<in> set (t_memories d)" and "m_id m = mi_memory i"
    and "m_project m = mi_project i" and "mi_memory i \<noteq> []"
    and "mi_next_status i = None \<or> mi_next_status i = Some Active"
    and "project_at (mi_project i) (mi_project_version i) d"
    and "requireFormalProjectionCapacity d (mi_project i) (mi_project_version i) (Some (mi_memory i)) 1
        (int (utf8_length (mi_content i))) (m_scope_id m) = Inr ()"
    and "run_batch (mutation_batch i evs) d = Inr (d', ns)"
  shows "checkProjectionSnapshotCapacity d' (mi_project i) (mi_project_version i + 1) = Inr True"
  using correction_capacity [of d m i evs d' ns] assms by (simp add: formal_inv_split)

lemma demo_correction_guard:
  "requireFormalProjectionCapacity demo_db (mi_project demo_mutation) (mi_project_version demo_mutation)
     (Some (mi_memory demo_mutation)) 1 (int (utf8_length (mi_content demo_mutation)))
     (m_scope_id demo_memory) = Inr ()"
  by code_simp

lemma batch_counts_Some: "batch_counts ss d = Some ns \<longleftrightarrow> (\<exists>d'. run_batch ss d = Inr (d', ns))"
  by (auto simp: batch_counts_def split: sum.splits)

lemma correction_keeps_projection_possible_witness:
  "\<exists>d' ns. run_batch (mutation_batch demo_mutation [demo_mutation_evidence]) demo_db = Inr (d', ns) \<and>
     checkProjectionSnapshotCapacity d' (str ''p'') 2 = Inr True"
proof -
  obtain d' ns where run: "run_batch (mutation_batch demo_mutation [demo_mutation_evidence]) demo_db = Inr (d', ns)"
    using demo_mutation_counts by (auto simp: batch_counts_Some)
  have "checkProjectionSnapshotCapacity d' (mi_project demo_mutation) (mi_project_version demo_mutation + 1) = Inr True"
    by (rule correction_keeps_projection_possible [OF demo_inv _ _ _ _ _ _ demo_correction_guard run])
      (use demo_ready in \<open>simp_all add: demo_db_def demo_memory_def demo_mutation_def\<close>)
  with run show ?thesis by (auto simp: demo_mutation_def)
qed

text \<open>The same for a promotion: once the guard passed and the batch committed, the snapshot with
  the new memory fits.\<close>

theorem promotion_keeps_projection_possible:
  assumes "formal_inv d" and "pi_memory i \<noteq> []"
    and "project_at (pi_project i) (pi_project_version i) d"
    and "candidate_open (pi_project i) (pi_candidate i) (pi_candidate_version i) d"
    and "requireFormalProjectionCapacity d (pi_project i) (pi_project_version i) None 1
        (int (utf8_length (pi_content i))) (pi_scope_id i) = Inr ()"
    and "run_batch (promotion_statements i) d = Inr (d', ns)"
  shows "checkProjectionSnapshotCapacity d' (pi_project i) (pi_project_version i + 1) = Inr True"
  using promotion_capacity [of d i d' ns] assms by (simp add: formal_inv_split promotion_guard_def)

lemma demo_promotion_guard:
  "requireFormalProjectionCapacity demo_db (pi_project demo_promotion) (pi_project_version demo_promotion)
     None 1 (int (utf8_length (pi_content demo_promotion))) (pi_scope_id demo_promotion) = Inr ()"
  by code_simp

lemma promotion_keeps_projection_possible_witness:
  "\<exists>d' ns. run_batch (promotion_statements demo_promotion) demo_db = Inr (d', ns) \<and>
     checkProjectionSnapshotCapacity d' (str ''p'') 2 = Inr True"
proof -
  obtain d' ns where run: "run_batch (promotion_statements demo_promotion) demo_db = Inr (d', ns)"
    using demo_promotion_counts by (auto simp: batch_counts_Some)
  have "checkProjectionSnapshotCapacity d' (pi_project demo_promotion) (pi_project_version demo_promotion + 1)
      = Inr True"
    by (rule promotion_keeps_projection_possible [OF demo_inv _ _ _ demo_promotion_guard run])
      (use demo_ready in \<open>simp_all add: demo_promotion_def\<close>)
  with run show ?thesis by (auto simp: demo_promotion_def)
qed




end
