(* ===== verification/Canonical_Json.thy ===== *)
theory Canonical_Json
  imports Formal_Store
begin

text \<open>
  \<open>src/security/canonical-json.ts\<close>: the deterministic serialization that request digests
  are computed from. A \<open>json\<close> value is a tree, so the cycle and prototype checks of the
  code cannot fire on it; numbers are the integers the callers use. Keys are sorted by
  UTF-16 code units, JavaScript's string order.
\<close>

section \<open>Strings\<close>

definition hex_lower :: "nat \<Rightarrow> nat" where
  "hex_lower n = (if n < 10 then 48 + n else 87 + n)"

text \<open>One character inside \<open>JSON.stringify\<close>'s quotes; lone surrogates are escaped.\<close>

definition json_char :: "nat \<Rightarrow> ustring" where
  "json_char c =
     (if c = 34 then [92, 34] else if c = 92 then [92, 92]
      else if c = 8 then [92, 98] else if c = 12 then [92, 102]
      else if c = 10 then [92, 110] else if c = 13 then [92, 114]
      else if c = 9 then [92, 116]
      else if c < 32 \<or> (55296 \<le> c \<and> c < 57344)
        then [92, 117, hex_lower (c div 4096), hex_lower (c div 256 mod 16),
              hex_lower (c div 16 mod 16), hex_lower (c mod 16)]
      else [c])"

definition json_string :: "ustring \<Rightarrow> ustring" where
  "json_string s = 34 # concat (map json_char s) @ [34]"

fun join_with :: "nat \<Rightarrow> ustring list \<Rightarrow> ustring" where
  "join_with c [] = []"
| "join_with c [x] = x"
| "join_with c (x # xs) = x @ c # join_with c xs"

section \<open>Serialization\<close>

definition sort_entries :: "(ustring \<times> 'a) list \<Rightarrow> (ustring \<times> 'a) list" where
  "sort_entries es = sort_key (\<lambda>e. utf16 (fst e)) es"

fun serialize :: "json \<Rightarrow> ustring" where
  "serialize JNull = str ''null''"
| "serialize (JBool b) = (if b then str ''true'' else str ''false'')"
| "serialize (JNum n) = dec_int n"
| "serialize (JStr s) = json_string s"
| "serialize (JArr xs) = str ''['' @ join_with 44 (map serialize xs) @ str '']''"
| "serialize (JObj es) =
     123 # join_with 44 (map snd (sort_entries
       (map (\<lambda>(k, v). (k, json_string k @ 58 # serialize v)) es))) @ [125]"

definition canonicalJson :: "json \<Rightarrow> ustring" where
  "canonicalJson = serialize"


section \<open>The canonical form\<close>

text \<open>A value with the keys of every object in canonical order.\<close>

fun canonical :: "json \<Rightarrow> json" where
  "canonical (JArr xs) = JArr (map canonical xs)"
| "canonical (JObj es) = JObj (sort_entries (map (\<lambda>(k, v). (k, canonical v)) es))"
| "canonical j = j"

lemma insort_entries_map:
  assumes "\<And>e. fst (g e) = fst e"
  shows "insort_key (\<lambda>e. utf16 (fst e)) (g x) (map g xs) = map g (insort_key (\<lambda>e. utf16 (fst e)) x xs)"
  using assms by (induction xs) auto

lemma sort_entries_map:
  assumes "\<And>e. fst (g e) = fst e"
  shows "sort_entries (map g xs) = map g (sort_entries xs)"
  unfolding sort_entries_def using insort_entries_map [of g] assms
  by (induction xs) simp_all

lemma sort_entries_idem [simp]: "sort_entries (sort_entries xs) = sort_entries xs"
  unfolding sort_entries_def by (rule sort_key_id_if_sorted) simp

lemma set_sort_entries [simp]: "set (sort_entries xs) = set xs"
  by (simp add: sort_entries_def)

definition entry_text :: "ustring \<times> json \<Rightarrow> ustring" where
  "entry_text e = json_string (fst e) @ 58 # serialize (snd e)"

lemma serialize_JObj:
  "serialize (JObj es) = 123 # join_with 44 (map entry_text (sort_entries es)) @ [125]"
proof -
  let ?g = "\<lambda>(k, v). (k, json_string k @ 58 # serialize v)"
  have "insort_key (\<lambda>e. utf16 (fst e)) (?g x) (map ?g xs) =
      map ?g (insort_key (\<lambda>e. utf16 (fst e)) x xs)" for x xs
    by (induction xs) (auto split: prod.splits)
  then have "sort_entries (map ?g es) = map ?g (sort_entries es)"
    unfolding sort_entries_def by (induction es) simp_all
  moreover have "map snd (map ?g ys) = map entry_text ys" for ys
    by (auto simp: entry_text_def)
  ultimately show ?thesis by (simp del: map_map)
qed

declare serialize.simps(6) [simp del]
declare serialize_JObj [simp]

lemma serialize_canonical: "serialize (canonical j) = serialize j"
proof (induction j rule: canonical.induct)
  case (1 xs)
  then show ?case by (simp cong: map_cong)
next
  case (2 es)
  let ?g = "\<lambda>(k, v). (k, canonical v)"
  have ent: "entry_text (?g e) = entry_text e" if "e \<in> set es" for e
    using 2 that by (cases e) (auto simp: entry_text_def)
  have "sort_entries (map ?g es) = map ?g (sort_entries es)"
    by (rule sort_entries_map) (simp split: prod.splits)
  then have "map entry_text (sort_entries (map ?g es)) = map entry_text (sort_entries es)"
    using ent by simp
  then show ?case by simp
qed simp_all

section \<open>Reading back\<close>

definition lower_value :: "nat \<Rightarrow> nat" where
  "lower_value c = (if c < 58 then c - 48 else c - 87)"

lemma lower_value_hex: "n < 16 \<Longrightarrow> lower_value (hex_lower n) = n"
  by (auto simp: lower_value_def hex_lower_def)

definition unescape :: "nat \<Rightarrow> nat" where
  "unescape c = (if c = 98 then 8 else if c = 102 then 12 else if c = 110 then 10
     else if c = 114 then 13 else if c = 116 then 9 else c)"

text \<open>The characters of a string up to its closing quote, and the text after the quote.\<close>

fun read_string :: "ustring \<Rightarrow> (ustring \<times> ustring) option" where
  "read_string [] = None"
| "read_string (c # s) =
     (if c = 34 then Some ([], s)
      else if c \<noteq> 92 then map_option (apfst ((#) c)) (read_string s)
      else (case s of
              [] \<Rightarrow> None
            | d # t \<Rightarrow>
                if d \<noteq> 117 then map_option (apfst ((#) (unescape d))) (read_string t)
                else (case t of
                        w # x # y # z # r \<Rightarrow>
                          map_option (apfst ((#) (((lower_value w * 16 + lower_value x) * 16 +
                            lower_value y) * 16 + lower_value z))) (read_string r)
                      | _ \<Rightarrow> None)))"

lemma base16: "((c div 4096 * 16 + c div 256 mod 16) * 16 + c div 16 mod 16) * 16 + c mod 16 = (c::nat)"
proof -
  have e1: "c div 4096 = c div 256 div 16" and e2: "c div 256 = c div 16 div 16"
    by (simp_all add: div_mult2_eq [symmetric])
  have "c div 4096 * 16 + c div 256 mod 16 = c div 256"
    unfolding e1 by (rule div_mult_mod_eq)
  moreover have "c div 256 * 16 + c div 16 mod 16 = c div 16"
    unfolding e2 by (rule div_mult_mod_eq)
  ultimately show ?thesis by (simp only: div_mult_mod_eq)
qed

lemma read_json_char: "read_string (json_char c @ s) = map_option (apfst ((#) c)) (read_string s)"
proof -
  consider "c \<in> {34, 92, 8, 12, 10, 13, 9}"
    | "c \<notin> {34, 92, 8, 12, 10, 13, 9}" "c < 32 \<or> (55296 \<le> c \<and> c < 57344)"
    | "c \<notin> {34, 92, 8, 12, 10, 13, 9}" "\<not> (c < 32 \<or> (55296 \<le> c \<and> c < 57344))"
    by blast
  then show ?thesis
  proof cases
    case 1
    then show ?thesis
      by (elim insertE emptyE) (simp_all add: json_char_def unescape_def)
  next
    case 2
    have "c div 4096 < 16" using 2(2) by (auto simp: less_mult_imp_div_less)
    moreover have "c div 256 mod 16 < 16" "c div 16 mod 16 < 16" "c mod 16 < 16" by simp_all
    moreover have "json_char c = [92, 117, hex_lower (c div 4096), hex_lower (c div 256 mod 16),
        hex_lower (c div 16 mod 16), hex_lower (c mod 16)]"
      using 2 by (simp add: json_char_def)
    ultimately have "read_string (json_char c @ s) = map_option (apfst ((#)
        (((c div 4096 * 16 + c div 256 mod 16) * 16 + c div 16 mod 16) * 16 + c mod 16))) (read_string s)"
      by (simp add: lower_value_hex del: mult_Suc_right)
    then show ?thesis by (simp only: base16)
  next
    case 3
    then have "json_char c = [c]" by (simp add: json_char_def)
    with 3(1) show ?thesis by simp
  qed
qed

lemma read_json_string: "read_string (concat (map json_char k) @ 34 # r) = Some (k, r)"
  by (induction k) (simp_all add: read_json_char)

lemma json_string_prefix:
  assumes "json_string k @ r = json_string k' @ r'"
  shows "k = k' \<and> r = r'"
proof -
  have "concat (map json_char k) @ 34 # r = concat (map json_char k') @ 34 # r'"
    using assms by (simp add: json_string_def)
  from arg_cong [OF this, of read_string] show ?thesis
    by (simp only: read_json_string option.inject prod.inject)
qed

text \<open>Where a serialized value can end.\<close>

definition delimited :: "ustring \<Rightarrow> bool" where
  "delimited r \<longleftrightarrow> r = [] \<or> hd r \<in> {44, 93, 125}"

lemma dec_int_hd: "\<exists>c r. dec_int n = c # r \<and> (c = 45 \<or> (48 \<le> c \<and> c \<le> 57))"
proof (cases "n < 0")
  case False
  obtain c r where "dec (nat n) = c # r" by (cases "dec (nat n)") auto
  moreover from this have "48 \<le> c \<and> c \<le> 57" using dec_digits [of c "nat n"] by simp
  ultimately show ?thesis using False by (simp add: dec_int_def)
qed (simp add: dec_int_def)

lemma serialize_hd: "\<exists>c r. serialize j = c # r \<and> c \<notin> {44, 93, 125}"
proof (cases j)
  case (JNum n)
  then show ?thesis using dec_int_hd [of n] by auto
qed (auto simp: json_string_def)

text \<open>A number ends where a character that is no digit follows.\<close>

lemma digits_prefix:
  assumes "xs @ r = ys @ s" and "delimited r" and "delimited s"
    and "\<forall>c\<in>set xs. c \<notin> {44, 93, 125}" and "\<forall>c\<in>set ys. c \<notin> {44, 93, 125}"
  shows "xs = ys \<and> r = s"
  using assms
proof (induction xs arbitrary: ys)
  case Nil
  then show ?case by (cases ys) (auto simp: delimited_def)
next
  case (Cons x xs)
  then show ?case by (cases ys) (auto simp: delimited_def)
qed

lemma dec_int_no_delim: "c \<in> set (dec_int n) \<Longrightarrow> c \<notin> {44, 93, 125}"
  by (auto simp: dec_int_def dest!: dec_digits split: if_splits)

text \<open>Equal texts of two lists, given that each element can be read back.\<close>

lemma join_prefix:
  assumes "join_with 44 (map t xs) @ e # r = join_with 44 (map t ys) @ e # s" and "e \<in> {93, 125}"
    and elem: "\<And>x y r s. x \<in> set xs \<Longrightarrow> y \<in> set ys \<Longrightarrow> t x @ r = t y @ s \<Longrightarrow> delimited r \<Longrightarrow>
      delimited s \<Longrightarrow> f x = f y \<and> r = s"
    and hd: "\<And>z. \<exists>c r. t z = c # r \<and> c \<notin> {44, 93, 125}"
  shows "map f xs = map f ys \<and> r = s"
  using assms(1) elem
proof (induction xs arbitrary: ys)
  case Nil
  show ?case
  proof (cases ys)
    case (Cons y zs)
    obtain c u where "t y = c # u" "c \<notin> {44, 93, 125}" using hd by blast
    with Nil(1) Cons assms(2) show ?thesis by (cases zs) auto
  qed (use Nil in simp)
next
  case (Cons x xs)
  obtain c u where tx: "t x = c # u" "c \<notin> {44, 93, 125}" using hd by blast
  show ?case
  proof (cases ys)
    case Nil
    with Cons.prems(1) tx assms(2) show ?thesis by (cases xs) auto
  next
    case ys: (Cons y zs)
    define rx where "rx = (if xs = [] then e # r else 44 # join_with 44 (map t xs) @ e # r)"
    define ry where "ry = (if zs = [] then e # s else 44 # join_with 44 (map t zs) @ e # s)"
    have split: "join_with 44 (map t (z # zz)) @ e # w =
        t z @ (if zz = [] then e # w else 44 # join_with 44 (map t zz) @ e # w)" for z zz w
      by (cases zz) auto
    have "t x @ rx = t y @ ry"
      using Cons.prems(1) unfolding ys rx_def ry_def split .
    moreover have "delimited rx" "delimited ry"
      using assms(2) by (auto simp: rx_def ry_def delimited_def)
    ultimately have xy: "f x = f y" "rx = ry"
      using Cons.prems(2) [of x y rx ry] by (auto simp: ys)
    show ?thesis
    proof (cases "xs = [] \<or> zs = []")
      case True
      with xy(2) assms(2) have "xs = [] \<and> zs = [] \<and> r = s"
        by (auto simp: rx_def ry_def split: if_splits)
      with xy(1) show ?thesis by (simp add: ys)
    next
      case False
      with xy(2) have "join_with 44 (map t xs) @ e # r = join_with 44 (map t zs) @ e # s"
        by (simp add: rx_def ry_def)
      then have "map f xs = map f zs \<and> r = s"
        by (rule Cons.IH) (rule Cons.prems(2), auto simp: ys)
      with xy(1) show ?thesis by (simp add: ys)
    qed
  qed
qed


lemma sort_entries_canonical:
  "sort_entries (map (\<lambda>(k, v). (k, canonical v)) es) = map (\<lambda>(k, v). (k, canonical v)) (sort_entries es)"
  by (rule sort_entries_map) (simp split: prod.splits)

lemma serialize_prefix:
  "serialize a @ r = serialize b @ s \<Longrightarrow> delimited r \<Longrightarrow> delimited s \<Longrightarrow>
     canonical a = canonical b \<and> r = s"
proof (induction a arbitrary: b r s)
  case JNull
  show ?case
  proof (cases b)
    case (JNum m)
    with JNull dec_int_hd [of m] show ?thesis by auto
  qed (use JNull in \<open>auto simp: json_string_def split: if_splits\<close>)
next
  case (JBool x)
  show ?case
  proof (cases b)
    case (JNum m)
    with JBool dec_int_hd [of m] show ?thesis by (auto split: if_splits)
  qed (use JBool in \<open>auto simp: json_string_def split: if_splits\<close>)
next
  case (JNum n)
  show ?case
  proof (cases b)
    case b: (JNum m)
    have "dec_int n = dec_int m \<and> r = s"
      by (rule digits_prefix) (use JNum b dec_int_no_delim in auto)
    with b show ?thesis by simp
  next
    case (JBool x)
    with JNum dec_int_hd [of n] show ?thesis by (auto split: if_splits)
  qed (use JNum dec_int_hd [of n] in \<open>auto simp: json_string_def\<close>)
next
  case (JStr k)
  show ?case
  proof (cases b)
    case b: (JStr k')
    with JStr(1) have "json_string k @ r = json_string k' @ s" by simp
    from json_string_prefix [OF this] b show ?thesis by simp
  next
    case (JNum m)
    with JStr dec_int_hd [of m] show ?thesis by (auto simp: json_string_def)
  qed (use JStr in \<open>auto simp: json_string_def split: if_splits\<close>)
next
  case (JArr xs)
  show ?case
  proof (cases b)
    case b: (JArr ys)
    have "map canonical xs = map canonical ys \<and> r = s"
    proof (rule join_prefix [where t = serialize and e = 93])
      show "join_with 44 (map serialize xs) @ 93 # r = join_with 44 (map serialize ys) @ 93 # s"
        using JArr.prems(1) b by simp
      show "\<exists>c r. serialize z = c # r \<and> c \<notin> {44, 93, 125}" for z by (rule serialize_hd)
    next
      fix x y r s
      assume "x \<in> set xs" "serialize x @ r = serialize y @ s" "delimited r" "delimited s"
      then show "canonical x = canonical y \<and> r = s" by (rule JArr.IH)
    qed simp
    with b show ?thesis by simp
  next
    case (JNum m)
    with JArr.prems dec_int_hd [of m] show ?thesis by auto
  qed (use JArr.prems(1) in \<open>simp_all add: json_string_def split: if_splits\<close>)
next
  case (JObj es)
  show ?case
  proof (cases b)
    case b: (JObj fs)
    let ?f = "\<lambda>(k, v). (k, canonical v)"
    have "map ?f (sort_entries es) = map ?f (sort_entries fs) \<and> r = s"
    proof (rule join_prefix [where t = entry_text and e = 125])
      show "join_with 44 (map entry_text (sort_entries es)) @ 125 # r =
          join_with 44 (map entry_text (sort_entries fs)) @ 125 # s"
        using JObj.prems(1) b by simp
      show "\<exists>c r. entry_text z = c # r \<and> c \<notin> {44, 93, 125}" for z
        by (simp add: entry_text_def json_string_def)
    next
      fix x y r s
      assume x: "x \<in> set (sort_entries es)" and eq: "entry_text x @ r = entry_text y @ s"
        and d: "delimited r" "delimited s"
      have k: "json_string (fst x) @ 58 # serialize (snd x) @ r = json_string (fst y) @ 58 # serialize (snd y) @ s"
        using eq by (simp add: entry_text_def)
      from json_string_prefix [OF k] have key: "fst x = fst y"
        and rest: "serialize (snd x) @ r = serialize (snd y) @ s"
        by simp_all
      have mem: "x \<in> set es" using x by simp
      have sub: "snd x \<in> Basic_BNFs.snds x" by (rule snds.intros)
      from JObj.IH [OF mem sub rest d] key show "?f x = ?f y \<and> r = s"
        by (cases x, cases y) simp
    qed simp
    then show ?thesis by (simp add: b sort_entries_canonical)
  next
    case (JNum m)
    with JObj.prems dec_int_hd [of m] show ?thesis by auto
  qed (use JObj.prems(1) in \<open>simp_all add: json_string_def split: if_splits\<close>)
qed

section \<open>Properties\<close>

text \<open>C24: The canonical text decides equality: two values have the same canonical text exactly when
  they are the same value up to the order of object keys, so a digest of the text neither
  depends on key order nor identifies different requests.\<close>

theorem canonical_json_decides_equality:
  "canonicalJson a = canonicalJson b \<longleftrightarrow> canonical a = canonical b"
proof
  assume "canonicalJson a = canonicalJson b"
  then show "canonical a = canonical b"
    using serialize_prefix [of a "[]" b "[]"] by (simp add: canonicalJson_def delimited_def)
next
  assume "canonical a = canonical b"
  then show "canonicalJson a = canonicalJson b"
    unfolding canonicalJson_def by (metis serialize_canonical)
qed

end
