(* ===== verification/Coordinator_Mutate.thy ===== *)
theory Coordinator_Mutate
  imports Repository_Context Projection_Guard Canonical_Json
begin

text \<open>
  The \<open>/mutate\<close> request of the project coordinator (\<open>ProjectCoordinator.fetch\<close> in
  \<open>workers/memory-orchestrator/index.ts\<close>): authorisation, repository context, idempotent
  replay, the checks and the plan of a correction, invalidation or rollback, and the reply
  after the batch. Every query of the handler reads the database at its own moment: \<open>view\<close>
  gives the state each read sees, so other requests may commit between any two of them.

  \<open>coord_lib\<close> holds what the handler calls outside its own logic: SHA-256, the UUID check
  of zod, \<open>JSON.parse\<close>, and the sensitive-content inspection of
  \<open>src/quality/sensitive-content.ts\<close>, whose regular expressions are not modelled; no
  property below depends on which texts it accepts.
\<close>

section \<open>Requests\<close>

record coord_lib =
  cl_time :: time_lib
  cl_sha256 :: "ustring \<Rightarrow> ustring"
  cl_uuid :: "ustring \<Rightarrow> bool"
  cl_accepts :: "ustring \<Rightarrow> bool"
  cl_accepts_value :: "json \<Rightarrow> bool"
  cl_json_parse :: "ustring \<Rightarrow> json option"

record evidence_item =
  xi_source_type :: ustring
  xi_locator :: ustring
  xi_commit :: "ustring option"
  xi_excerpt :: "ustring option"

record mutation_request =
  mr_operation :: change_operation
  mr_memory :: ustring
  mr_memory_version :: int
  mr_project_version :: int
  mr_project :: ustring
  mr_actor :: ustring
  mr_payload :: "(ustring \<times> json) list"
  mr_evidence :: "evidence_item list"
  mr_context :: "change_context option"
  mr_key :: ustring

definition len_in :: "nat \<Rightarrow> nat \<Rightarrow> ustring \<Rightarrow> bool" where
  "len_in lo hi s \<longleftrightarrow> lo \<le> js_length s \<and> js_length s \<le> hi"

definition hex_any :: "ustring \<Rightarrow> bool" where
  "hex_any s = list_all (\<lambda>c. (48 \<le> c \<and> c \<le> 57) \<or> (65 \<le> c \<and> c \<le> 70) \<or> (97 \<le> c \<and> c \<le> 102)) s"

definition mutationRepositoryContextSchema :: "change_context \<Rightarrow> bool" where
  "mutationRepositoryContextSchema c \<longleftrightarrow> len_in 1 2048 (cc_scope_id c) \<and>
     opt_all (\<lambda>s. 1 \<le> js_length s) (cc_repository c) \<and> opt_all (len_in 1 2048) (cc_ref c) \<and>
     opt_all (len_in 1 2048) (cc_session c) \<and> opt_all (len_in 1 2048) (cc_worktree c)"

definition evidence_item_ok :: "evidence_item \<Rightarrow> bool" where
  "evidence_item_ok x \<longleftrightarrow> len_in 1 64 (xi_source_type x) \<and> len_in 1 2048 (xi_locator x) \<and>
     opt_all (\<lambda>s. hex_any s \<and> 40 \<le> length s \<and> length s \<le> 64) (xi_commit x) \<and>
     opt_all (\<lambda>s. hex_any s \<and> length s = 64) (xi_excerpt x)"

text \<open>The numeric and length limits of \<open>mutationSchema\<close>; \<open>z.int()\<close> is the safe integers.\<close>

definition mutationSchema :: "coord_lib \<Rightarrow> mutation_request \<Rightarrow> bool" where
  "mutationSchema L r \<longleftrightarrow> cl_uuid L (mr_memory r) \<and>
     is_safe_integer (mr_memory_version r) \<and> 0 < mr_memory_version r \<and>
     is_safe_integer (mr_project_version r) \<and> 0 \<le> mr_project_version r \<and>
     mr_project r \<noteq> [] \<and> mr_actor r \<noteq> [] \<and>
     list_all evidence_item_ok (mr_evidence r) \<and>
     1 \<le> length (mr_evidence r) \<and> length (mr_evidence r) \<le> 50 \<and>
     opt_all mutationRepositoryContextSchema (mr_context r) \<and> len_in 8 256 (mr_key r)"

definition schema_error :: thrown where
  "schema_error = Other (str ''ZodError'')"

text \<open>The request without its repository context, as the digest covers it.\<close>

definition opt_field :: "string \<Rightarrow> ustring option \<Rightarrow> (ustring \<times> json) list" where
  "opt_field k v = (case v of None \<Rightarrow> [] | Some s \<Rightarrow> [(str k, JStr s)])"

definition item_json :: "evidence_item \<Rightarrow> json" where
  "item_json x = JObj ([(str ''source_type'', JStr (xi_source_type x)),
     (str ''locator'', JStr (xi_locator x))] @ opt_field ''commit_sha'' (xi_commit x) @
     opt_field ''excerpt_hash'' (xi_excerpt x))"

definition client_mutation :: "mutation_request \<Rightarrow> json" where
  "client_mutation r = JObj
     [(str ''operation'', JStr (operation_name (mr_operation r))),
      (str ''target_memory_id'', JStr (mr_memory r)),
      (str ''expected_memory_version'', JNum (mr_memory_version r)),
      (str ''expected_project_version'', JNum (mr_project_version r)),
      (str ''project_id'', JStr (mr_project r)),
      (str ''actor_principal_id'', JStr (mr_actor r)),
      (str ''payload'', JObj (mr_payload r)),
      (str ''evidence'', JArr (map item_json (mr_evidence r))),
      (str ''idempotency_key'', JStr (mr_key r))]"

definition mutation_digest :: "coord_lib \<Rightarrow> mutation_request \<Rightarrow> ustring" where
  "mutation_digest L r = cl_sha256 L (canonicalJson (client_mutation r))"

section \<open>Authorisation and context\<close>

definition projectUnavailable :: thrown where
  "projectUnavailable = edge PROJECT_UNAVAILABLE ''The project is unavailable.''"

definition synthetic_ref :: "ustring \<Rightarrow> bool" where
  "synthetic_ref s \<longleftrightarrow> take 17 s = str ''system.synthetic.''"

definition project_live :: "ustring \<Rightarrow> db \<Rightarrow> bool" where
  "project_live pid d \<longleftrightarrow> (\<exists>p\<in>set (t_projects d). p_id p = pid \<and>
     (\<not> synthetic_ref (p_ref p) \<or>
      (\<exists>y\<in>set (t_registry d). y_project y = p_id p \<and> y_fenced_at y = None)))"

definition requireProjectMaintainer :: "db \<Rightarrow> ustring \<Rightarrow> ustring \<Rightarrow> thrown + unit" where
  "requireProjectMaintainer d pid who =
     require (maintainer_grant pid who d \<and> project_live pid d) projectUnavailable"

definition sameMutationRepositoryContext :: "change_context \<Rightarrow> change_context \<Rightarrow> bool" where
  "sameMutationRepositoryContext trusted supplied \<longleftrightarrow>
     cc_scope trusted = cc_scope supplied \<and> cc_scope_id trusted = cc_scope_id supplied \<and>
     cc_repository trusted = cc_repository supplied \<and> cc_ref trusted = cc_ref supplied \<and>
     cc_session trusted = cc_session supplied \<and> cc_worktree trusted = cc_worktree supplied"

datatype read_point = AtGrant | AtContext | AtReplay | AtCurrent | AtRollback | AtCapacity | AtEvidence

type_synonym view = "read_point \<Rightarrow> db"

definition mutation_gate :: "view \<Rightarrow> mutation_request \<Rightarrow> thrown + change_context" where
  "mutation_gate view r =
     bind_res (requireProjectMaintainer (view AtGrant) (mr_project r) (mr_actor r)) (\<lambda>_.
     case resolveMemoryChangeRepositoryContext (view AtContext) (mr_project r) (mr_memory r) of
       None \<Rightarrow> Inl (edge VALIDATION_FAILED ''The target memory repository context is invalid.'')
     | Some c \<Rightarrow>
         (case mr_context r of
            None \<Rightarrow> Inr c
          | Some s \<Rightarrow>
              if sameMutationRepositoryContext c s then Inr c
              else Inl (edge VALIDATION_FAILED ''The target memory repository context is invalid.'')))"

section \<open>The current memory\<close>

record current_memory =
  cu_project_version :: int
  cu_head :: "ustring option"
  cu_memory_version :: int
  cu_content :: ustring
  cu_from :: "ustring option"
  cu_until :: "ustring option"

definition read_current :: "db \<Rightarrow> ustring \<Rightarrow> ustring \<Rightarrow> current_memory option" where
  "read_current d pid mid =
     (case find (\<lambda>p. p_id p = pid) (t_projects d) of
        None \<Rightarrow> None
      | Some p \<Rightarrow>
          (case memory_row d pid mid of
             None \<Rightarrow> None
           | Some m \<Rightarrow>
               map_option (\<lambda>v. \<lparr>cu_project_version = p_version p, cu_head = p_head p,
                   cu_memory_version = m_version m, cu_content = v_content v, cu_from = v_from v,
                   cu_until = v_until v\<rparr>)
                 (find (\<lambda>v. m_revision m = Some (v_id v)) (t_revisions d))))"

definition tombstone_text :: ustring where
  "tombstone_text = str ''Memory invalidated.''"

record resolved_revision =
  rr_content :: ustring
  rr_from :: "ustring option"
  rr_until :: "ustring option"

fun safe_version :: "json option \<Rightarrow> int option" where
  "safe_version (Some (JNum n)) = (if is_safe_integer n \<and> 1 \<le> n then Some n else None)"
| "safe_version _ = None"

definition resolveMutationRevision ::
  "db \<Rightarrow> mutation_request \<Rightarrow> current_memory \<Rightarrow> thrown + resolved_revision" where
  "resolveMutationRevision d r cu =
     (case mr_operation r of
        Correct \<Rightarrow>
          (case map_of (mr_payload r) (str ''content'') of
             Some (JStr content) \<Rightarrow>
               if js_trim content = []
               then Inl (edge VALIDATION_FAILED ''A correction requires content.'')
               else Inr \<lparr>rr_content = content, rr_from = cu_from cu, rr_until = cu_until cu\<rparr>
           | _ \<Rightarrow> Inl (edge VALIDATION_FAILED ''A correction requires content.''))
      | Invalidate \<Rightarrow> Inr \<lparr>rr_content = tombstone_text, rr_from = cu_from cu, rr_until = cu_until cu\<rparr>
      | Rollback \<Rightarrow>
          (case safe_version (map_of (mr_payload r) (str ''memory_version'')) of
             None \<Rightarrow> Inl (edge VALIDATION_FAILED ''A rollback requires a memory version.'')
           | Some n \<Rightarrow>
               (case find (\<lambda>v. v_project v = mr_project r \<and> v_memory v = mr_memory r \<and>
                       v_version v = n) (t_revisions d) of
                  None \<Rightarrow> Inl (edge RESOURCE_UNAVAILABLE ''The rollback version is unavailable.'')
                | Some v \<Rightarrow> Inr \<lparr>rr_content = v_content v, rr_from = v_from v,
                                 rr_until = v_until v\<rparr>)))"

section \<open>Evidence\<close>

definition mutationEvidenceConflict :: thrown where
  "mutationEvidenceConflict = edge VALIDATION_FAILED
     ''The submitted evidence conflicts with existing immutable provenance.''"

text \<open>\<open>encodeURIComponent\<close> throws a \<open>URIError\<close> on a lone surrogate.\<close>

definition encoded :: "ustring \<Rightarrow> thrown + ustring" where
  "encoded s = (case encodeURIComponent s of None \<Rightarrow> Inl (Other (str ''URI malformed''))
     | Some t \<Rightarrow> Inr t)"

definition namespaceMutationEvidenceLocator ::
  "ustring \<Rightarrow> ustring \<Rightarrow> change_context \<Rightarrow> thrown + ustring" where
  "namespaceMutationEvidenceLocator locator pid c =
     bind_res (case cc_repository c of
         None \<Rightarrow> bind_res (encoded pid) (\<lambda>t. Inr (str ''project:'' @ t))
       | Some repo \<Rightarrow> bind_res (encoded repo) (\<lambda>t. Inr (str ''repository:'' @ t)))
       (\<lambda>owner. bind_res (encoded (cc_scope_id c)) (\<lambda>sid.
          Inr (owner @ str '':scope:'' @ scope_name (cc_scope c) @ 58 # sid @ 58 # locator)))"

definition evidence_record ::
  "coord_lib \<Rightarrow> ustring \<Rightarrow> change_context \<Rightarrow> evidence_item \<Rightarrow> thrown + mutation_evidence" where
  "evidence_record L pid c x =
     bind_res (namespaceMutationEvidenceLocator (xi_locator x) pid c) (\<lambda>locator.
       let excerpt = (case xi_excerpt x of None \<Rightarrow> cl_sha256 L locator | Some h \<Rightarrow> h)
       in Inr \<lparr>me_id = cl_sha256 L (pid @ 10 # xi_source_type x @ 10 # locator @ 10 # excerpt),
               me_source_type = xi_source_type x, me_locator = locator, me_commit = xi_commit x,
               me_excerpt = excerpt, me_repository = cc_repository c, me_ref = cc_ref c,
               me_authority = (if cc_repository c = None then None else Some AgentSupplied)\<rparr>)"

definition tuple_key :: "mutation_evidence \<Rightarrow> ustring" where
  "tuple_key e = canonicalJson (JArr [JStr (me_source_type e), JStr (me_locator e), JStr (me_excerpt e)])"

definition as_stored :: "mutation_evidence \<Rightarrow> stored_provenance" where
  "as_stored e = \<lparr>sp_commit = me_commit e, sp_repository = me_repository e, sp_ref = me_ref e,
     sp_path = None, sp_authority = me_authority e, sp_sensitivity = Clear\<rparr>"

text \<open>The loop over the submitted evidence; the map keeps insertion order.\<close>

fun collect_evidence ::
  "coord_lib \<Rightarrow> ustring \<Rightarrow> change_context \<Rightarrow> mutation_evidence list \<Rightarrow> evidence_item list \<Rightarrow>
     thrown + mutation_evidence list" where
  "collect_evidence L pid c acc [] = Inr acc"
| "collect_evidence L pid c acc (x # xs) =
     bind_res (evidence_record L pid c x) (\<lambda>e.
       case find (\<lambda>f. tuple_key f = tuple_key e) acc of
         Some f \<Rightarrow>
           if \<not> sameMutationEvidenceProvenance e (as_stored f) then Inl mutationEvidenceConflict
           else collect_evidence L pid c acc xs
       | None \<Rightarrow> collect_evidence L pid c (acc @ [e]) xs)"

definition stored_of :: "evidence_row \<Rightarrow> stored_provenance" where
  "stored_of e = \<lparr>sp_commit = e_commit e, sp_repository = e_repository e, sp_ref = e_ref e,
     sp_path = e_path e, sp_authority = e_authority e, sp_sensitivity = e_sensitivity e\<rparr>"

definition evidence_preflight :: "db \<Rightarrow> ustring \<Rightarrow> mutation_evidence list \<Rightarrow> thrown + unit" where
  "evidence_preflight d pid es =
     require (list_all (\<lambda>e.
         case find (\<lambda>f. e_project f = pid \<and> e_source_type f = me_source_type e \<and>
                e_locator f = me_locator e \<and> e_excerpt f = me_excerpt e) (t_evidence d) of
           None \<Rightarrow> True
         | Some f \<Rightarrow> sameMutationEvidenceProvenance e (stored_of f)) es)
       mutationEvidenceConflict"

section \<open>Preparing the batch\<close>

record ambient =
  am_now :: int
  am_revision :: ustring
  am_decision :: ustring
  am_memory :: ustring

definition audit_text :: "ustring option \<Rightarrow> ustring \<Rightarrow> int \<Rightarrow> ustring" where
  "audit_text head digest ver = (case head of None \<Rightarrow> [] | Some h \<Rightarrow> h) @ 10 # digest @ 10 # dec_int ver"

definition mutation_plan_input ::
  "coord_lib \<Rightarrow> ambient \<Rightarrow> mutation_request \<Rightarrow> current_memory \<Rightarrow> resolved_revision \<Rightarrow> mutation_input" where
  "mutation_plan_input L am r cu rv =
     \<lparr>mi_operation = mr_operation r, mi_project = mr_project r,
      mi_project_version = mr_project_version r, mi_memory = mr_memory r,
      mi_memory_version = mr_memory_version r, mi_revision = am_revision am, mi_actor = mr_actor r,
      mi_digest = mutation_digest L r, mi_content = rr_content rv,
      mi_sha256 = cl_sha256 L (rr_content rv), mi_from = rr_from rv, mi_until = rr_until rv,
      mi_now = am_now am, mi_key = Some (mr_key r),
      mi_next_status = Some (if mr_operation r = Invalidate then Invalidated else Active),
      mi_prev_hash = cu_head cu,
      mi_hash = Some (cl_sha256 L (audit_text (cu_head cu) (mutation_digest L r)
        (mr_project_version r + 1)))\<rparr>"

definition mutation_capacity :: "db \<Rightarrow> mutation_request \<Rightarrow> change_context \<Rightarrow> ustring \<Rightarrow> thrown + unit" where
  "mutation_capacity d r c content =
     (if mr_operation r = Invalidate
      then requireFormalProjectionInvalidationCapacity d (mr_project r) (mr_project_version r)
             (mr_memory r) (cc_scope_id c)
      else requireFormalProjectionCapacity d (mr_project r) (mr_project_version r)
             (Some (mr_memory r)) 1 (int (utf8_length content)) (cc_scope_id c))"

definition prepareMutation ::
  "coord_lib \<Rightarrow> view \<Rightarrow> ambient \<Rightarrow> mutation_request \<Rightarrow> change_context \<Rightarrow> thrown + mutation_job" where
  "prepareMutation L view am r c =
     (case read_current (view AtCurrent) (mr_project r) (mr_memory r) of
        None \<Rightarrow> Inl staleVersion
      | Some cu \<Rightarrow>
          if cu_project_version cu \<noteq> mr_project_version r \<or> cu_memory_version cu \<noteq> mr_memory_version r
          then Inl staleVersion
          else
            bind_res (if mr_operation r \<noteq> Invalidate
                then requireFormalProjectionScopeKey (mr_project r) (mr_project_version r + 1) (cc_scope_id c)
                else Inr ()) (\<lambda>_.
            bind_res (resolveMutationRevision (view AtRollback) r cu) (\<lambda>rv.
            bind_res (require (cl_accepts L (rr_content rv))
                (edge VALIDATION_FAILED ''The submitted data cannot be persisted safely.'')) (\<lambda>_.
            bind_res (mutation_capacity (view AtCapacity) r c (rr_content rv)) (\<lambda>_.
            bind_res (buildMemoryMutationPlan (cl_time L) (mutation_plan_input L am r cu rv)) (\<lambda>plan.
            bind_res (collect_evidence L (mr_project r) c [] (mr_evidence r)) (\<lambda>es.
            bind_res (evidence_preflight (view AtEvidence) (mr_project r) es) (\<lambda>_.
              Inr (mutation_plan_input L am r cu rv, es)))))))))"

text \<open>A replay also asks for the projection workflow of the stored response to be ensured.\<close>

datatype prepared = Replay json | Job mutation_job

definition requestMutation ::
  "coord_lib \<Rightarrow> view \<Rightarrow> ambient \<Rightarrow> mutation_request \<Rightarrow> thrown + prepared" where
  "requestMutation L view am r =
     bind_res (require (mutationSchema L r) schema_error) (\<lambda>_.
     bind_res (mutation_gate view r) (\<lambda>c.
     bind_res (resolveIdempotency
         (find_idem (mr_project r) (mr_actor r) (str ''memory_'' @ operation_name (mr_operation r))
           (mr_key r) (view AtReplay)) (mutation_digest L r)) (\<lambda>stored.
       case stored of
         Some response \<Rightarrow> Inr (Replay response)
       | None \<Rightarrow> bind_res (prepareMutation L view am r c) (\<lambda>job. Inr (Job job)))))"

section \<open>Committing the batch\<close>

fun translateCoordinatorDatabaseError :: "abort \<Rightarrow> string \<Rightarrow> thrown" where
  "translateCoordinatorDatabaseError MaintainerGrantRequired stale = projectUnavailable"
| "translateCoordinatorDatabaseError CleanupFenced stale = projectUnavailable"
| "translateCoordinatorDatabaseError StaleCandidateHead stale = edge VERSION_CONFLICT stale"
| "translateCoordinatorDatabaseError StaleMemoryHead stale = edge VERSION_CONFLICT stale"
| "translateCoordinatorDatabaseError StaleProjectHead stale = edge VERSION_CONFLICT stale"
| "translateCoordinatorDatabaseError EvidenceIdentityImmutable stale = mutationEvidenceConflict"
| "translateCoordinatorDatabaseError EvidenceContextImmutable stale = mutationEvidenceConflict"
| "translateCoordinatorDatabaseError ClearEvidenceRequired stale = mutationEvidenceConflict"
| "translateCoordinatorDatabaseError _ stale = Other (str ''D1_ERROR'')"

definition link_counts :: "mutation_job \<Rightarrow> nat list \<Rightarrow> nat list" where
  "link_counts j ns = take (length (snd j)) (drop (2 + length (snd j)) ns)"

definition commitMutation :: "mutation_job \<Rightarrow> db \<Rightarrow> (thrown + json) \<times> db" where
  "commitMutation j d =
     (case run_batch (mutation_batch (fst j) (snd j)) d of
        Inl a \<Rightarrow> (Inl (translateCoordinatorDatabaseError a ''The expected version is stale.''), d)
      | Inr (d', ns) \<Rightarrow>
          if last ns \<noteq> 1 then (Inl staleVersion, d')
          else if list_ex (\<lambda>n. n \<noteq> 1) (link_counts j ns) then (Inl mutationEvidenceConflict, d')
          else (Inr (mutation_response (fst j)), d'))"

text \<open>The whole request: its reads at the moments of \<open>view\<close>, its batch on \<open>d\<close>.\<close>

definition mutate ::
  "coord_lib \<Rightarrow> view \<Rightarrow> ambient \<Rightarrow> mutation_request \<Rightarrow> db \<Rightarrow> (thrown + json) \<times> db" where
  "mutate L view am r d =
     (case requestMutation L view am r of
        Inl e \<Rightarrow> (Inl e, d)
      | Inr (Replay response) \<Rightarrow> (Inr response, d)
      | Inr (Job j) \<Rightarrow> commitMutation j d)"

section \<open>HTTP replies\<close>

fun error_status :: "thrown \<Rightarrow> nat" where
  "error_status (Edge e) =
     (if err_code e = VERSION_CONFLICT \<or> err_code e = IDEMPOTENCY_CONFLICT then 409
      else if err_code e = PROJECT_UNAVAILABLE then 404
      else if err_code e = VALIDATION_FAILED then 400
      else 500)"
| "error_status (Other m) = 500"

datatype http_reply = HttpNotFound | HttpJson nat json | HttpError nat error_body

fun http_of :: "ustring \<Rightarrow> thrown + json \<Rightarrow> http_reply" where
  "http_of requestId (Inr j) = HttpJson 200 j"
| "http_of requestId (Inl e) = HttpError (error_status e) (errorBody e requestId)"

end
