(* ===== verification/Candidate_Provenance.thy ===== *)
theory Candidate_Provenance
  imports Formal_Store Scope_Ids
begin

text \<open>
  \<open>requireCandidatePromotionProvenance\<close> of \<open>workers/memory-orchestrator/index.ts\<close>: before a
  candidate becomes formal memory of a scope, the session it came from and the evidence it
  cites must place it in that scope. The loops over the evidence stop at the first record
  that throws, as the code's do.
\<close>

record candidate_session =
  cs_session :: ustring
  cs_repository :: "ustring option"
  cs_ref :: "ustring option"
  cs_worktree :: "ustring option"

record candidate_evidence =
  ce_id :: ustring
  ce_repository :: "ustring option"
  ce_ref :: "ustring option"
  ce_path :: "ustring option"
  ce_authority :: "repository_authority option"

record provenance_input =
  vi_scope :: memory_scope
  vi_scope_id :: ustring
  vi_target :: "ustring option"
  vi_session :: "candidate_session option"
  vi_evidence :: "candidate_evidence list"

definition scopeProvenanceConflict :: "memory_scope \<Rightarrow> thrown" where
  "scopeProvenanceConflict sc = Edge
     \<lparr>err_code = VALIDATION_FAILED,
      err_message = str ''The candidate provenance conflicts with the requested '' @ scope_name sc @
        str '' scope.'',
      err_retryable = False, err_request_id = None, err_retry_after_ms = None\<rparr>"

definition incomplete_context :: thrown where
  "incomplete_context = edge VALIDATION_FAILED
     ''The candidate evidence has an incomplete repository context.''"

text \<open>The evidence loop; \<open>trusted\<close> is \<open>hasTrustedRepositoryContext\<close>.\<close>

fun evidence_in_scope ::
  "memory_scope \<Rightarrow> ustring \<Rightarrow> bool \<Rightarrow> candidate_evidence list \<Rightarrow> thrown + bool" where
  "evidence_in_scope sc target trusted [] = Inr trusted"
| "evidence_in_scope sc target trusted (e # es) =
     (if ce_repository e = None \<and> (ce_ref e \<noteq> None \<or> ce_path e \<noteq> None \<or> ce_authority e \<noteq> None)
        then Inl incomplete_context
      else if ce_repository e \<noteq> None \<and> ce_authority e = None
        then Inl incomplete_context
      else if ce_repository e \<noteq> None \<and> ce_repository e \<noteq> Some target
        then Inl (scopeProvenanceConflict sc)
      else evidence_in_scope sc target (trusted \<or> ce_repository e = Some target) es)"

text \<open>The second loop of a ref scope; \<open>exact\<close> is \<open>hasExactRef\<close>.\<close>

fun evidence_on_ref :: "ustring \<Rightarrow> ustring \<Rightarrow> bool \<Rightarrow> candidate_evidence list \<Rightarrow> thrown + bool" where
  "evidence_on_ref target ref exact [] = Inr exact"
| "evidence_on_ref target ref exact (e # es) =
     (if ce_repository e = Some target \<and> ce_ref e \<noteq> None
      then (if ce_ref e \<noteq> Some ref then Inl (scopeProvenanceConflict ScopeRef)
            else evidence_on_ref target ref True es)
      else evidence_on_ref target ref exact es)"

definition session_on_ref :: "ustring \<Rightarrow> ustring \<Rightarrow> candidate_session option \<Rightarrow> thrown + bool" where
  "session_on_ref target ref so =
     (case so of
        None \<Rightarrow> Inr False
      | Some s \<Rightarrow>
          if cs_repository s = Some target \<and> cs_ref s \<noteq> None
          then (if cs_ref s \<noteq> Some ref then Inl (scopeProvenanceConflict ScopeRef) else Inr True)
          else Inr False)"

definition ref_provenance :: "provenance_input \<Rightarrow> ustring \<Rightarrow> thrown + ustring option" where
  "ref_provenance i target =
     (case parseRefScopeId (vi_scope_id i) of
        None \<Rightarrow> Inl (scopeProvenanceConflict ScopeRef)
      | Some (repo, ref) \<Rightarrow>
          if repo \<noteq> target then Inl (scopeProvenanceConflict ScopeRef)
          else bind_res (session_on_ref target ref (vi_session i))
            (\<lambda>exact0. bind_res (evidence_on_ref target ref exact0 (vi_evidence i))
              (\<lambda>exact. if \<not> exact
                 then Inl (edge VALIDATION_FAILED
                        ''Ref-scoped approval requires exact trusted ref provenance.'')
                 else Inr (Some target))))"

definition requireCandidatePromotionProvenance :: "provenance_input \<Rightarrow> thrown + ustring option" where
  "requireCandidatePromotionProvenance i =
     (if vi_evidence i = []
        then Inl (edge VALIDATION_FAILED ''Approval requires at least one clear evidence record.'')
      else if vi_scope i = ScopeProject then Inr None
      else case vi_target i of
        None \<Rightarrow> Inl (edge VALIDATION_FAILED
                 ''The formal memory scope has no trusted repository ownership.'')
      | Some target \<Rightarrow>
          if (case vi_session i of None \<Rightarrow> False
              | Some s \<Rightarrow> cs_repository s \<noteq> None \<and> cs_repository s \<noteq> Some target)
            then Inl (scopeProvenanceConflict (vi_scope i))
          else bind_res
            (evidence_in_scope (vi_scope i) target
               (case vi_session i of None \<Rightarrow> False | Some s \<Rightarrow> cs_repository s = Some target)
               (vi_evidence i))
            (\<lambda>trusted.
              if \<not> trusted
                then Inl (edge VALIDATION_FAILED
                       ''Repository-scoped approval requires trusted repository provenance.'')
              else (case vi_scope i of
                  ScopeRef \<Rightarrow> ref_provenance i target
                | ScopeSession \<Rightarrow>
                    (case vi_session i of
                       None \<Rightarrow> Inl (scopeProvenanceConflict ScopeSession)
                     | Some s \<Rightarrow>
                         if cs_session s \<noteq> vi_scope_id i \<or> cs_repository s \<noteq> Some target
                         then Inl (scopeProvenanceConflict ScopeSession) else Inr (Some target))
                | ScopeWorktree \<Rightarrow>
                    (case (parseWorktreeScopeId (vi_scope_id i), vi_session i) of
                       (Some (ses, wt), Some s) \<Rightarrow>
                         if cs_session s \<noteq> ses \<or> cs_worktree s \<noteq> Some wt \<or> cs_repository s \<noteq> Some target
                         then Inl (scopeProvenanceConflict ScopeWorktree) else Inr (Some target)
                     | _ \<Rightarrow> Inl (scopeProvenanceConflict ScopeWorktree))
                | _ \<Rightarrow> Inr (Some target))))"

section \<open>Lemmas\<close>

lemma evidence_in_scope_Inr:
  "evidence_in_scope sc target t es = Inr t' \<longleftrightarrow>
     (\<forall>e\<in>set es. (ce_repository e = None \<and> ce_ref e = None \<and> ce_path e = None \<and> ce_authority e = None) \<or>
        (ce_repository e = Some target \<and> ce_authority e \<noteq> None)) \<and>
     (t' \<longleftrightarrow> t \<or> (\<exists>e\<in>set es. ce_repository e = Some target))"
  by (induction es arbitrary: t) auto

lemma evidence_on_ref_Inr:
  "evidence_on_ref target ref x es = Inr x' \<longleftrightarrow>
     (\<forall>e\<in>set es. ce_repository e = Some target \<longrightarrow> ce_ref e = None \<or> ce_ref e = Some ref) \<and>
     (x' \<longleftrightarrow> x \<or> (\<exists>e\<in>set es. ce_repository e = Some target \<and> ce_ref e = Some ref))"
  by (induction es arbitrary: x) auto

lemma session_on_ref_Inr:
  "session_on_ref target ref so = Inr x \<longleftrightarrow>
     (\<forall>s. so = Some s \<and> cs_repository s = Some target \<longrightarrow> cs_ref s = None \<or> cs_ref s = Some ref) \<and>
     (x \<longleftrightarrow> (\<exists>s. so = Some s \<and> cs_repository s = Some target \<and> cs_ref s = Some ref))"
  by (cases so) (auto simp: session_on_ref_def)

lemma if_not_Inl_Inr: "(if \<not> b then Inl x else Inr y) = Inr z \<longleftrightarrow> b \<and> y = z"
  by simp

text \<open>What a placement in a scope means, stated on the records.\<close>

definition placed_in :: "provenance_input \<Rightarrow> ustring \<Rightarrow> bool" where
  "placed_in i target \<longleftrightarrow>
     (\<forall>s. vi_session i = Some s \<longrightarrow> cs_repository s = None \<or> cs_repository s = Some target) \<and>
     (\<forall>e\<in>set (vi_evidence i).
        (ce_repository e = None \<and> ce_ref e = None \<and> ce_path e = None \<and> ce_authority e = None) \<or>
        (ce_repository e = Some target \<and> ce_authority e \<noteq> None)) \<and>
     ((\<exists>s. vi_session i = Some s \<and> cs_repository s = Some target) \<or>
      (\<exists>e\<in>set (vi_evidence i). ce_repository e = Some target))"

definition placed_on_ref :: "provenance_input \<Rightarrow> ustring \<Rightarrow> ustring \<Rightarrow> bool" where
  "placed_on_ref i target ref \<longleftrightarrow>
     (\<forall>s. vi_session i = Some s \<and> cs_repository s = Some target \<longrightarrow> cs_ref s = None \<or> cs_ref s = Some ref) \<and>
     (\<forall>e\<in>set (vi_evidence i). ce_repository e = Some target \<longrightarrow> ce_ref e = None \<or> ce_ref e = Some ref) \<and>
     ((\<exists>s. vi_session i = Some s \<and> cs_repository s = Some target \<and> cs_ref s = Some ref) \<or>
      (\<exists>e\<in>set (vi_evidence i). ce_repository e = Some target \<and> ce_ref e = Some ref))"

lemma ref_provenance_Inr:
  "ref_provenance i target = Inr r \<longleftrightarrow>
     r = Some target \<and> (\<exists>ref. createRefScopeId target ref = Inr (vi_scope_id i) \<and> placed_on_ref i target ref)"
proof (cases "parseRefScopeId (vi_scope_id i)")
  case None
  then have "\<not> (\<exists>ref. createRefScopeId target ref = Inr (vi_scope_id i))"
    by (simp flip: parse_ref_iff)
  with None show ?thesis by (simp add: ref_provenance_def)
next
  case (Some rf)
  obtain repo ref where rf: "parseRefScopeId (vi_scope_id i) = Some (repo, ref)" using Some by (cases rf) auto
  then have uniq: "createRefScopeId target ref' = Inr (vi_scope_id i) \<longleftrightarrow> repo = target \<and> ref' = ref" for ref'
    by (auto simp flip: parse_ref_iff)
  show ?thesis
  proof (cases "repo = target")
    case True
    then have "ref_provenance i target = Inr r \<longleftrightarrow>
        (\<exists>x0. session_on_ref target ref (vi_session i) = Inr x0 \<and>
          (\<exists>x. evidence_on_ref target ref x0 (vi_evidence i) = Inr x \<and> x \<and> Some target = r))"
      by (simp only: ref_provenance_def rf option.case prod.case bind_res_Inr_iff if_not_Inl_Inr
          not_True_eq_False if_False simp_thms)
    also have "\<dots> \<longleftrightarrow> r = Some target \<and> placed_on_ref i target ref"
      unfolding session_on_ref_Inr evidence_on_ref_Inr placed_on_ref_def by blast
    finally show ?thesis using True uniq by auto
  qed (simp add: ref_provenance_def rf uniq)
qed


section \<open>Properties\<close>

text \<open>What the narrower scopes ask of the session.\<close>

fun scope_session_ok :: "provenance_input \<Rightarrow> ustring \<Rightarrow> bool" where
  "scope_session_ok i target \<longleftrightarrow>
     (case vi_scope i of
        ScopeRef \<Rightarrow> (\<exists>ref. createRefScopeId target ref = Inr (vi_scope_id i) \<and> placed_on_ref i target ref)
      | ScopeSession \<Rightarrow> (\<exists>s. vi_session i = Some s \<and> cs_session s = vi_scope_id i \<and>
          cs_repository s = Some target)
      | ScopeWorktree \<Rightarrow> (\<exists>s w. vi_session i = Some s \<and> cs_worktree s = Some w \<and>
          cs_repository s = Some target \<and> createWorktreeScopeId (cs_session s) w = Inr (vi_scope_id i))
      | _ \<Rightarrow> True)"

lemma worktree_branch:
  "(case (parseWorktreeScopeId sid, so) of
      (Some (ses, wt), Some s) \<Rightarrow>
        if cs_session s \<noteq> ses \<or> cs_worktree s \<noteq> Some wt \<or> cs_repository s \<noteq> Some target
        then Inl e else Inr (Some target)
    | _ \<Rightarrow> Inl e) = Inr r \<longleftrightarrow>
   r = Some target \<and> (\<exists>s w. so = Some s \<and> cs_worktree s = Some w \<and> cs_repository s = Some target \<and>
      createWorktreeScopeId (cs_session s) w = Inr sid)"
proof (cases "parseWorktreeScopeId sid")
  case None
  then have "\<not> (\<exists>n w. createWorktreeScopeId n w = Inr sid)" by (simp flip: parse_worktree_iff)
  with None show ?thesis by auto
next
  case (Some sw)
  obtain ses wt where sw: "parseWorktreeScopeId sid = Some (ses, wt)" using Some by (cases sw) auto
  then have "createWorktreeScopeId n w = Inr sid \<longleftrightarrow> n = ses \<and> w = wt" for n w
    by (auto simp flip: parse_worktree_iff)
  with sw show ?thesis by (cases so) auto
qed

lemma promotion_provenance_iff:
  "requireCandidatePromotionProvenance i = Inr r \<longleftrightarrow>
     vi_evidence i \<noteq> [] \<and>
     (if vi_scope i = ScopeProject then r = None
      else \<exists>target. vi_target i = Some target \<and> r = Some target \<and> placed_in i target \<and>
        scope_session_ok i target)"
proof (cases "vi_evidence i = [] \<or> vi_scope i = ScopeProject \<or> vi_target i = None")
  case True
  then show ?thesis by (auto simp: requireCandidatePromotionProvenance_def)
next
  case False
  then obtain target where t: "vi_target i = Some target" and ne: "vi_evidence i \<noteq> []"
    and sc: "vi_scope i \<noteq> ScopeProject"
    by auto
  define t0 where "t0 = (case vi_session i of None \<Rightarrow> False | Some s \<Rightarrow> cs_repository s = Some target)"
  define foreign where "foreign = (case vi_session i of None \<Rightarrow> False
      | Some s \<Rightarrow> cs_repository s \<noteq> None \<and> cs_repository s \<noteq> Some target)"
  define tail where "tail = (case vi_scope i of
                  ScopeRef \<Rightarrow> ref_provenance i target
                | ScopeSession \<Rightarrow>
                    (case vi_session i of
                       None \<Rightarrow> Inl (scopeProvenanceConflict ScopeSession)
                     | Some s \<Rightarrow>
                         if cs_session s \<noteq> vi_scope_id i \<or> cs_repository s \<noteq> Some target
                         then Inl (scopeProvenanceConflict ScopeSession) else Inr (Some target))
                | ScopeWorktree \<Rightarrow>
                    (case (parseWorktreeScopeId (vi_scope_id i), vi_session i) of
                       (Some (ses, wt), Some s) \<Rightarrow>
                         if cs_session s \<noteq> ses \<or> cs_worktree s \<noteq> Some wt \<or> cs_repository s \<noteq> Some target
                         then Inl (scopeProvenanceConflict ScopeWorktree) else Inr (Some target)
                     | _ \<Rightarrow> Inl (scopeProvenanceConflict ScopeWorktree))
                | _ \<Rightarrow> Inr (Some target))"
  have tail: "tail = Inr r \<longleftrightarrow> r = Some target \<and> scope_session_ok i target"
  proof (cases "vi_scope i")
    case ScopeWorktree
    show ?thesis
      unfolding tail_def ScopeWorktree memory_scope.case worktree_branch scope_session_ok.simps ..
  qed (use sc in \<open>auto simp: tail_def ref_provenance_Inr split: option.splits if_splits\<close>)
  have "requireCandidatePromotionProvenance i =
      (if foreign then Inl (scopeProvenanceConflict (vi_scope i))
       else bind_res (evidence_in_scope (vi_scope i) target t0 (vi_evidence i))
         (\<lambda>tr. if \<not> tr then Inl (edge VALIDATION_FAILED
                    ''Repository-scoped approval requires trusted repository provenance.'') else tail))"
    unfolding requireCandidatePromotionProvenance_def t0_def foreign_def tail_def
    by (simp only: t option.case ne sc if_False)
  then have "requireCandidatePromotionProvenance i = Inr r \<longleftrightarrow> \<not> foreign \<and>
      (\<exists>tr. evidence_in_scope (vi_scope i) target t0 (vi_evidence i) = Inr tr \<and> tr \<and> tail = Inr r)"
    by (cases foreign; cases "evidence_in_scope (vi_scope i) target t0 (vi_evidence i)") auto
  also have "\<dots> \<longleftrightarrow> placed_in i target \<and> tail = Inr r"
    unfolding evidence_in_scope_Inr placed_in_def t0_def foreign_def by (cases "vi_session i") auto
  finally show ?thesis using ne sc t tail by auto
qed

text \<open>C19: The provenance gate of a promotion accepts exactly the candidates that belong where they
  ask to go: there is clear evidence; project memory names no repository; for any narrower
  scope the session and every cited record stay in the scope's own repository or outside all
  repositories, at least one of them is in it, and a ref, session or worktree scope is matched
  exactly. Whatever it accepts, the repository it returns is the scope's owner.\<close>

theorem promotion_provenance_exact:
  "requireCandidatePromotionProvenance i = Inr r \<longleftrightarrow>
     vi_evidence i \<noteq> [] \<and>
     (if vi_scope i = ScopeProject then r = None
      else \<exists>target. vi_target i = Some target \<and> r = Some target \<and> placed_in i target \<and>
        scope_session_ok i target)"
  by (rule promotion_provenance_iff)

end
