(* ===== verification/Coordinator_Review.thy ===== *)
theory Coordinator_Review
  imports Coordinator_Mutate Candidate_Provenance Promotion_Plan
begin

text \<open>
  The \<open>/candidate-review\<close> request of the project coordinator (\<open>reviewCandidate\<close> in
  \<open>workers/memory-orchestrator/index.ts\<close>) and the dispatch of \<open>ProjectCoordinator.fetch\<close>:
  a maintainer approves a candidate into formal memory, rejects it, or asks for changes. As
  in \<open>Coordinator_Mutate\<close>, every query reads the state that \<open>view\<close> gives it.
\<close>

section \<open>Requests\<close>

record review_edits =
  ed_content :: "ustring option"
  ed_kind :: "memory_kind option"
  ed_class :: "memory_class option"
  ed_scope :: "memory_scope option"
  ed_scope_id :: "ustring option"
  ed_from :: "ustring option option"
  ed_until :: "ustring option option"

record review_request_input =
  cq_candidate :: ustring
  cq_version :: int
  cq_decision :: review_verdict
  cq_reason :: ustring
  cq_edits :: "review_edits option"
  cq_key :: ustring
  cq_project :: ustring
  cq_actor :: ustring

text \<open>\<open>candidateIdentifierSchema\<close> of \<open>src/contracts/candidate-id.ts\<close>.\<close>

definition hex_lower_text :: "nat \<Rightarrow> ustring \<Rightarrow> bool" where
  "hex_lower_text n s \<longleftrightarrow> length s = n \<and>
     list_all (\<lambda>c. (48 \<le> c \<and> c \<le> 57) \<or> (97 \<le> c \<and> c \<le> 102)) s"

definition path_absent_prefix :: ustring where
  "path_absent_prefix = str ''github-path-absent-observation:''"

definition path_absent_identifier :: "ustring \<Rightarrow> bool" where
  "path_absent_identifier s \<longleftrightarrow> length s = 225 \<and> take 31 s = path_absent_prefix \<and>
     hex_lower_text 64 (take 64 (drop 31 s)) \<and> s ! 95 = 58 \<and>
     hex_lower_text 64 (take 64 (drop 96 s)) \<and> s ! 160 = 58 \<and>
     hex_lower_text 64 (drop 161 s)"

definition isCandidateIdentifier :: "coord_lib \<Rightarrow> ustring \<Rightarrow> bool" where
  "isCandidateIdentifier L s \<longleftrightarrow> cl_uuid L s \<or> path_absent_identifier s"

definition edits_ok :: "coord_lib \<Rightarrow> review_edits \<Rightarrow> bool" where
  "edits_ok L e \<longleftrightarrow> opt_all (len_in 1 65536) (ed_content e) \<and>
     opt_all (len_in 1 2048) (ed_scope_id e) \<and>
     opt_all (opt_all (iso_ok (cl_time L))) (ed_from e) \<and>
     opt_all (opt_all (iso_ok (cl_time L))) (ed_until e)"

definition candidateReviewSchema :: "coord_lib \<Rightarrow> review_request_input \<Rightarrow> bool" where
  "candidateReviewSchema L r \<longleftrightarrow> isCandidateIdentifier L (cq_candidate r) \<and>
     is_safe_integer (cq_version r) \<and> 0 < cq_version r \<and> len_in 1 4096 (cq_reason r) \<and>
     opt_all (edits_ok L) (cq_edits r) \<and> len_in 8 256 (cq_key r) \<and>
     cq_project r \<noteq> [] \<and> cq_actor r \<noteq> []"

fun verdict_name :: "review_verdict \<Rightarrow> ustring" where
  "verdict_name Approve = str ''approve''"
| "verdict_name Reject = str ''reject''"
| "verdict_name AskChanges = str ''request_changes''"

definition nullable_field :: "string \<Rightarrow> ustring option option \<Rightarrow> (ustring \<times> json) list" where
  "nullable_field k v = (case v of None \<Rightarrow> [] | Some x \<Rightarrow> [(str k, json_opt x)])"

definition edits_json :: "review_edits \<Rightarrow> json" where
  "edits_json e = JObj (opt_field ''content'' (ed_content e) @
     opt_field ''kind'' (map_option kind_name (ed_kind e)) @
     opt_field ''memory_class'' (map_option class_name (ed_class e)) @
     opt_field ''scope'' (map_option scope_name (ed_scope e)) @
     opt_field ''scope_id'' (ed_scope_id e) @
     nullable_field ''valid_from'' (ed_from e) @ nullable_field ''valid_until'' (ed_until e))"

definition edits_or_null :: "review_edits option \<Rightarrow> json" where
  "edits_or_null e = (case e of None \<Rightarrow> JNull | Some x \<Rightarrow> edits_json x)"

definition review_json :: "review_request_input \<Rightarrow> json" where
  "review_json r = JObj
     [(str ''candidate_id'', JStr (cq_candidate r)),
      (str ''expected_candidate_version'', JNum (cq_version r)),
      (str ''decision'', JStr (verdict_name (cq_decision r))),
      (str ''reason'', JStr (cq_reason r)), (str ''edits'', edits_or_null (cq_edits r)),
      (str ''idempotency_key'', JStr (cq_key r)), (str ''project_id'', JStr (cq_project r)),
      (str ''actor_principal_id'', JStr (cq_actor r))]"

definition review_digest :: "coord_lib \<Rightarrow> review_request_input \<Rightarrow> ustring" where
  "review_digest L r = cl_sha256 L (canonicalJson (review_json r))"

section \<open>The current candidate\<close>

record review_current =
  rc_project_version :: int
  rc_head :: "ustring option"
  rc_candidate :: observation
  rc_session :: "session_row option"
  rc_request :: "ustring option"

text \<open>The candidate joined with its project, session and review request.\<close>

definition read_candidate :: "db \<Rightarrow> ustring \<Rightarrow> ustring \<Rightarrow> review_current option" where
  "read_candidate d pid cid =
     (case find (\<lambda>p. p_id p = pid) (t_projects d) of
        None \<Rightarrow> None
      | Some p \<Rightarrow>
          map_option (\<lambda>c. \<lparr>rc_project_version = p_version p, rc_head = p_head p, rc_candidate = c,
              rc_session = find (\<lambda>n. s_project n = pid \<and> c_session c = Some (s_id n)) (t_sessions d),
              rc_request = map_option r_id
                (find (\<lambda>r. r_project r = pid \<and> r_candidate r = Some cid) (t_requests d))\<rparr>)
            (find (\<lambda>c. c_project c = pid \<and> c_id c = cid) (t_observations d)))"

definition staleCandidate :: thrown where
  "staleCandidate = edge VERSION_CONFLICT ''The candidate version is stale.''"

section \<open>Cited evidence\<close>

text \<open>\<open>candidateReviewEvidenceSchema\<close> on the parsed analysis.\<close>

fun json_text :: "json \<Rightarrow> ustring option" where
  "json_text (JStr s) = Some s"
| "json_text _ = None"

fun json_texts :: "json list \<Rightarrow> ustring list option" where
  "json_texts [] = Some []"
| "json_texts (j # js) =
     (case json_text j of
        None \<Rightarrow> None
      | Some s \<Rightarrow> map_option ((#) s) (json_texts js))"

definition candidateReviewEvidenceSchema :: "json \<Rightarrow> ustring list option" where
  "candidateReviewEvidenceSchema j =
     (case j of
        JObj fs \<Rightarrow>
          (if map_of fs (str ''persistent_value'') \<noteq> Some (JBool True) then None
           else case map_of fs (str ''evidence_source_ids'') of
             Some (JArr js) \<Rightarrow>
               (case json_texts js of
                  None \<Rightarrow> None
                | Some ids \<Rightarrow>
                    if list_all (len_in 1 512) ids \<and> 1 \<le> length ids \<and> length ids \<le> 50 \<and>
                       length (js_unique ids) = length ids
                    then Some ids else None)
           | _ \<Rightarrow> None)
      | _ \<Rightarrow> None)"

definition edits_complete :: "review_edits \<Rightarrow> bool" where
  "edits_complete e \<longleftrightarrow> ed_content e \<noteq> None \<and> ed_kind e \<noteq> None \<and> ed_class e \<noteq> None \<and>
     ed_scope e \<noteq> None \<and> ed_scope_id e \<noteq> None"

definition requireCandidateCitedEvidenceIds ::
  "coord_lib \<Rightarrow> ustring option \<Rightarrow> review_edits option \<Rightarrow> thrown + ustring list option" where
  "requireCandidateCitedEvidenceIds L analysis edits =
     (case analysis of
        None \<Rightarrow>
          (if (case edits of None \<Rightarrow> False | Some e \<Rightarrow> edits_complete e) then Inr None
           else Inl (edge VALIDATION_FAILED ''Deferred analysis approval requires complete maintainer edits.''))
      | Some text \<Rightarrow>
          (case Option.bind (cl_json_parse L text) candidateReviewEvidenceSchema of
             Some ids \<Rightarrow> Inr (Some ids)
           | None \<Rightarrow> Inl (edge VALIDATION_FAILED ''Approval requires a validated evidence citation set.'')))"

text \<open>The clear evidence of the candidate, restricted to the cited records, first 51 by identifier.\<close>

definition candidate_clear_evidence ::
  "db \<Rightarrow> ustring \<Rightarrow> ustring \<Rightarrow> ustring list option \<Rightarrow> evidence_row list" where
  "candidate_clear_evidence d pid cid cited =
     take 51 (sort_key e_id (filter (\<lambda>e. e_project e = pid \<and>
         (pid, cid, e_id e) \<in> set (t_candidate_evidence d) \<and> e_sensitivity e = Clear \<and>
         opt_all (\<lambda>ids. e_id e \<in> set ids) cited) (t_evidence d)))"

definition evidence_unavailable :: thrown where
  "evidence_unavailable = edge VALIDATION_FAILED ''The candidate cited evidence is unavailable.''"

fun select_evidence :: "evidence_row list \<Rightarrow> ustring list \<Rightarrow> thrown + evidence_row list" where
  "select_evidence rows [] = Inr []"
| "select_evidence rows (i # is) =
     (case find (\<lambda>e. e_id e = i) rows of
        None \<Rightarrow> Inl evidence_unavailable
      | Some e \<Rightarrow> bind_res (select_evidence rows is) (\<lambda>es. Inr (e # es)))"

definition cited_evidence :: "evidence_row list \<Rightarrow> ustring list option \<Rightarrow> thrown + evidence_row list" where
  "cited_evidence rows cited =
     (let selected = (case cited of None \<Rightarrow> map e_id rows | Some ids \<Rightarrow> ids)
      in if length selected = 0 \<or> 50 < length selected \<or>
            length (js_unique (map e_id rows)) \<noteq> length selected
         then Inl evidence_unavailable
         else select_evidence rows selected)"

section \<open>Preparing the plan\<close>

definition first_some :: "'a option \<Rightarrow> 'a option \<Rightarrow> 'a option" where
  "first_some x y = (case x of None \<Rightarrow> y | Some a \<Rightarrow> Some a)"

definition edit_of :: "(review_edits \<Rightarrow> 'a option) \<Rightarrow> review_edits option \<Rightarrow> 'a option" where
  "edit_of f e = Option.bind e f"

definition parse_kind :: "ustring \<Rightarrow> memory_kind option" where
  "parse_kind s = find (\<lambda>k. kind_name k = s) memory_kinds"

definition parse_class :: "ustring \<Rightarrow> memory_class option" where
  "parse_class s = find (\<lambda>k. class_name k = s) [Semantic, Procedural, Episodic]"

definition parse_scope :: "ustring \<Rightarrow> memory_scope option" where
  "parse_scope s = find (\<lambda>k. scope_name k = s) memory_scopes"

record approval_fields =
  af_content :: ustring
  af_kind :: memory_kind
  af_class :: memory_class
  af_scope :: memory_scope
  af_scope_id :: ustring
  af_from :: "ustring option"
  af_until :: "ustring option"

definition approval_fields_of ::
  "coord_lib \<Rightarrow> review_edits option \<Rightarrow> observation \<Rightarrow> thrown + approval_fields" where
  "approval_fields_of L e c =
     (case (first_some (edit_of ed_content e) (first_some (c_reviewed_content c) (c_content c)),
            first_some (edit_of ed_kind e) (Option.bind (c_kind c) parse_kind),
            first_some (edit_of ed_class e) (Option.bind (c_class c) parse_class),
            first_some (edit_of ed_scope e) (Option.bind (c_scope c) parse_scope),
            first_some (edit_of ed_scope_id e) (c_scope_id c)) of
        (Some content, Some k, Some cl, Some sc, Some sid) \<Rightarrow>
          if cl_accepts L content \<and> js_trim sid \<noteq> []
          then Inr \<lparr>af_content = content, af_kind = k, af_class = cl, af_scope = sc, af_scope_id = sid,
                 af_from = first_some (Option.bind e (\<lambda>x. Option.bind (ed_from x) id)) (c_from c),
                 af_until = first_some (Option.bind e (\<lambda>x. Option.bind (ed_until x) id)) (c_until c)\<rparr>
          else Inl (edge VALIDATION_FAILED
                 ''Approval requires safe content and a complete taxonomy proposal.'')
      | _ \<Rightarrow> Inl (edge VALIDATION_FAILED
                ''Approval requires safe content and a complete taxonomy proposal.''))"

definition provenance_of ::
  "approval_fields \<Rightarrow> ownership \<Rightarrow> review_current \<Rightarrow> evidence_row list \<Rightarrow> provenance_input" where
  "provenance_of af ow rc es =
     \<lparr>vi_scope = af_scope af, vi_scope_id = af_scope_id af, vi_target = own_repository ow,
      vi_session = map_option (\<lambda>sid.
          \<lparr>cs_session = sid,
           cs_repository = Option.bind (rc_session rc) s_repository,
           cs_ref = Option.bind (rc_session rc) s_ref,
           cs_worktree = Option.bind (rc_session rc) s_worktree\<rparr>) (c_session (rc_candidate rc)),
      vi_evidence = map (\<lambda>e. \<lparr>ce_id = e_id e, ce_repository = e_repository e, ce_ref = e_ref e,
          ce_path = e_path e, ce_authority = e_authority e\<rparr>) es\<rparr>"

definition promotion_evidence_of :: "evidence_row \<Rightarrow> promotion_evidence" where
  "promotion_evidence_of e =
     \<lparr>pe_id = e_id e, pe_source_type = e_source_type e, pe_locator = e_locator e,
      pe_excerpt = e_excerpt e, pe_commit = e_commit e, pe_repository = e_repository e,
      pe_ref = e_ref e, pe_path = e_path e, pe_authority = e_authority e\<rparr>"

definition approval_input ::
  "coord_lib \<Rightarrow> ambient \<Rightarrow> review_request_input \<Rightarrow> review_current \<Rightarrow> ustring \<Rightarrow> approval_fields \<Rightarrow>
     ustring option \<Rightarrow> evidence_row list \<Rightarrow> promotion_input" where
  "approval_input L am r rc request af repo es =
     \<lparr>pi_project = cq_project r, pi_project_version = rc_project_version rc,
      pi_candidate = cq_candidate r, pi_candidate_version = cq_version r, pi_request = request,
      pi_decision = am_decision am, pi_memory = am_memory am, pi_revision = am_revision am,
      pi_actor = cq_actor r, pi_digest = review_digest L r, pi_key = cq_key r,
      pi_reason = cq_reason r, pi_content = af_content af,
      pi_sha256 = cl_sha256 L (af_content af), pi_kind = af_kind af, pi_class = af_class af,
      pi_scope = af_scope af, pi_scope_id = af_scope_id af, pi_repository = repo,
      pi_from = af_from af, pi_until = af_until af, pi_evidence = map promotion_evidence_of es,
      pi_prev_hash = rc_head rc,
      pi_hash = cl_sha256 L (audit_text (rc_head rc) (review_digest L r) (rc_project_version rc + 1)),
      pi_now = am_now am\<rparr>"

definition prepareApproval ::
  "coord_lib \<Rightarrow> view \<Rightarrow> ambient \<Rightarrow> review_request_input \<Rightarrow> review_current \<Rightarrow> ustring \<Rightarrow>
     thrown + promotion_input" where
  "prepareApproval L view am r rc request =
     bind_res (approval_fields_of L (cq_edits r) (rc_candidate rc)) (\<lambda>af.
     bind_res (requireFormalProjectionScopeKey (cq_project r) (rc_project_version rc + 1)
         (af_scope_id af)) (\<lambda>_.
     case resolveScopeRepositoryOwnership (view AtContext) (cq_project r) (af_scope af) (af_scope_id af) of
       None \<Rightarrow> Inl (edge VALIDATION_FAILED ''The formal memory scope does not belong to the project.'')
     | Some ow \<Rightarrow>
         bind_res (requireCandidateCitedEvidenceIds L (c_analysis (rc_candidate rc)) (cq_edits r)) (\<lambda>cited.
         bind_res (cited_evidence
             (candidate_clear_evidence (view AtEvidence) (cq_project r) (cq_candidate r) cited) cited) (\<lambda>es.
         bind_res (requireCandidatePromotionProvenance (provenance_of af ow rc es)) (\<lambda>repo.
         bind_res (require (isValidValidityInterval (cl_time L) (af_from af) (af_until af))
             (edge VALIDATION_FAILED ''The memory validity interval is invalid.'')) (\<lambda>_.
         bind_res (requireFormalProjectionCapacity (view AtCapacity) (cq_project r)
             (rc_project_version rc) None 1 (int (utf8_length (af_content af))) (af_scope_id af)) (\<lambda>_.
         bind_res (buildCandidatePromotionPlan (cl_time L)
             (approval_input L am r rc request af repo es)) (\<lambda>plan.
           Inr (approval_input L am r rc request af repo es)))))))))"

definition decision_input ::
  "coord_lib \<Rightarrow> ambient \<Rightarrow> review_request_input \<Rightarrow> review_current \<Rightarrow> ustring \<Rightarrow> review_outcome \<Rightarrow>
     review_input" where
  "decision_input L am r rc request outcome =
     \<lparr>ri_project = cq_project r, ri_project_version = rc_project_version rc,
      ri_candidate = cq_candidate r, ri_candidate_version = cq_version r, ri_request = request,
      ri_decision = am_decision am, ri_actor = cq_actor r, ri_digest = review_digest L r,
      ri_key = cq_key r, ri_outcome = outcome, ri_reason = cq_reason r,
      ri_edits = map_option edits_json (cq_edits r),
      ri_content = (if cq_decision r = AskChanges then edit_of ed_content (cq_edits r) else None),
      ri_prev_hash = rc_head rc,
      ri_hash = cl_sha256 L (audit_text (rc_head rc) (review_digest L r) (rc_project_version rc + 1)),
      ri_now = am_now am\<rparr>"

datatype prepared_review = ReviewReplay json | ReviewJob review_input | PromoteJob promotion_input

definition prepareReview ::
  "coord_lib \<Rightarrow> view \<Rightarrow> ambient \<Rightarrow> review_request_input \<Rightarrow> thrown + prepared_review" where
  "prepareReview L view am r =
     (case read_candidate (view AtCurrent) (cq_project r) (cq_candidate r) of
        None \<Rightarrow> Inl staleCandidate
      | Some rc \<Rightarrow>
          if c_version (rc_candidate rc) \<noteq> cq_version r \<or> \<not> reviewable (c_status (rc_candidate rc))
          then Inl staleCandidate
          else case rc_request rc of
            None \<Rightarrow> Inl (edge VALIDATION_FAILED ''The candidate has no pending review request.'')
          | Some request \<Rightarrow>
              (case cq_decision r of
                 Approve \<Rightarrow> map_sum id PromoteJob (prepareApproval L view am r rc request)
               | Reject \<Rightarrow> Inr (ReviewJob (decision_input L am r rc request RejectCandidate))
               | AskChanges \<Rightarrow>
                   Inr (ReviewJob (decision_input L am r rc request RequestCandidateChanges))))"

definition requestReview ::
  "coord_lib \<Rightarrow> view \<Rightarrow> ambient \<Rightarrow> review_request_input \<Rightarrow> thrown + prepared_review" where
  "requestReview L view am r =
     bind_res (require (candidateReviewSchema L r) schema_error) (\<lambda>_.
     bind_res (requireProjectMaintainer (view AtGrant) (cq_project r) (cq_actor r)) (\<lambda>_.
     bind_res (resolveIdempotency
         (find_idem (cq_project r) (cq_actor r) (str ''candidate_review'') (cq_key r) (view AtReplay))
         (review_digest L r)) (\<lambda>stored.
       case stored of
         Some response \<Rightarrow> Inr (ReviewReplay response)
       | None \<Rightarrow>
           bind_res (require (cl_accepts_value L (JObj [(str ''reason'', JStr (cq_reason r)),
               (str ''edits'', edits_or_null (cq_edits r))]))
             (edge VALIDATION_FAILED ''The candidate review data cannot be persisted safely.''))
             (\<lambda>_. prepareReview L view am r))))"

section \<open>Committing the plan\<close>

definition commitReview :: "stmt list \<Rightarrow> json \<Rightarrow> db \<Rightarrow> (thrown + json) \<times> db" where
  "commitReview ss response d =
     (case run_batch ss d of
        Inl a \<Rightarrow> (Inl (translateCoordinatorDatabaseError a ''The candidate version is stale.''), d)
      | Inr (d', ns) \<Rightarrow>
          if last ns \<noteq> 1 then (Inl staleCandidate, d') else (Inr response, d'))"

definition reviewCandidate ::
  "coord_lib \<Rightarrow> view \<Rightarrow> ambient \<Rightarrow> review_request_input \<Rightarrow> db \<Rightarrow> (thrown + json) \<times> db" where
  "reviewCandidate L view am r d =
     (case requestReview L view am r of
        Inl e \<Rightarrow> (Inl e, d)
      | Inr (ReviewReplay response) \<Rightarrow> (Inr response, d)
      | Inr (ReviewJob i) \<Rightarrow>
          commitReview (cp_statements (buildCandidateReviewPlan i)) (cp_response (buildCandidateReviewPlan i)) d
      | Inr (PromoteJob i) \<Rightarrow> commitReview (promotion_statements i) (promotion_response i) d)"

section \<open>Dispatch\<close>

datatype coordinator_body = MutateBody mutation_request | ReviewBody review_request_input

text \<open>The path decides which schema reads the body; a body of the other shape fails it.\<close>

definition coordinator_fetch ::
  "coord_lib \<Rightarrow> view \<Rightarrow> ambient \<Rightarrow> ustring \<Rightarrow> ustring \<Rightarrow> ustring \<Rightarrow> coordinator_body \<Rightarrow> db \<Rightarrow>
     http_reply \<times> db" where
  "coordinator_fetch L view am requestId http_method path body d =
     (if http_method \<noteq> str ''POST'' \<or> (path \<noteq> str ''/mutate'' \<and> path \<noteq> str ''/candidate-review'')
      then (HttpNotFound, d)
      else case (path = str ''/candidate-review'', body) of
        (True, ReviewBody r) \<Rightarrow> apfst (http_of requestId) (reviewCandidate L view am r d)
      | (False, MutateBody r) \<Rightarrow> apfst (http_of requestId) (mutate L view am r d)
      | _ \<Rightarrow> (http_of requestId (Inl schema_error), d))"

end
