(* ===== verification/Evidence_Links.thy ===== *)
theory Evidence_Links
  imports Coordinator_Mutate
begin

text \<open>
  Why the coordinator's last check of a mutation batch, one link per evidence record, never
  fires on a committed batch: the compare-and-abort insert leaves exactly one row with the
  record's tuple and provenance, and the link statement selects that row.
\<close>

definition evidence_tuple :: "evidence_row \<Rightarrow> ustring \<times> ustring \<times> ustring \<times> ustring" where
  "evidence_tuple e = (e_project e, e_source_type e, e_locator e, e_excerpt e)"

text \<open>The unique key of the evidence table.\<close>

definition tuples_unique :: "db \<Rightarrow> bool" where
  "tuples_unique d \<longleftrightarrow> distinct (map evidence_tuple (t_evidence d))"

lemma same_tuple_iff: "same_tuple e f \<longleftrightarrow> evidence_tuple e = evidence_tuple f"
  by (auto simp: same_tuple_def evidence_tuple_def)

lemma upsert_keeps_tuples:
  assumes "tuples_unique d" and "upsert_evidence e d = Inr (d', n)"
  shows "tuples_unique d'"
  using assms by (auto simp: upsert_evidence_def tuples_unique_def find_None_iff_ball same_tuple_iff
      split: if_splits option.splits)

text \<open>The row of a record: its tuple with exactly its provenance.\<close>

definition has_row :: "ustring \<Rightarrow> mutation_evidence \<Rightarrow> db \<Rightarrow> bool" where
  "has_row pid ev d \<longleftrightarrow> (\<exists>f\<in>set (t_evidence d). link_selects pid ev f)"

lemma upsert_has_row:
  assumes "upsert_evidence (evidence_of pid now ev) d = Inr (d', n)"
  shows "has_row pid ev d'"
  using upsert_evidence_frame [OF assms]
  by (auto simp: has_row_def link_selects_def evidence_of_def same_tuple_def)

lemma evidence_statements_rows:
  assumes "run_batch (map (evidence_statement pid ver now) evs) d = Inr (d', ns)"
    and "project_at pid ver d" and "tuples_unique d"
  shows "tuples_unique d' \<and> (\<forall>ev\<in>set evs. has_row pid ev d') \<and>
     (\<forall>ev. has_row pid ev d \<longrightarrow> has_row pid ev d')"
  using assms
proof (induction evs arbitrary: d ns)
  case Nil
  then show ?case by simp
next
  case (Cons ev evs)
  obtain d1 n ms where s: "evidence_statement pid ver now ev d = Inr (d1, n)"
    and r: "run_batch (map (evidence_statement pid ver now) evs) d1 = Inr (d', ms)"
    using Cons.prems(1) by (auto simp: run_batch_Cons_Inr simp del: run_batch.simps)
  have u: "upsert_evidence (evidence_of pid now ev) d = Inr (d1, n)"
    using s Cons.prems(2) by (simp add: evidence_statement_def guarded_def)
  obtain es where d1: "d1 = d\<lparr>t_evidence := t_evidence d @ es\<rparr>"
    using upsert_evidence_frame [OF u] by auto
  have "project_at pid ver d1" using Cons.prems(2) by (simp add: d1)
  from Cons.IH [OF r this upsert_keeps_tuples [OF Cons.prems(3) u]]
  have ih: "tuples_unique d'" "\<forall>ev\<in>set evs. has_row pid ev d'"
    "\<And>ev. has_row pid ev d1 \<Longrightarrow> has_row pid ev d'"
    by auto
  have "has_row pid x d \<Longrightarrow> has_row pid x d1" for x
    by (auto simp: has_row_def d1)
  then show ?case using ih upsert_has_row [OF u] by auto
qed

lemma link_selects_one:
  assumes "tuples_unique d" and "has_row pid ev d"
  shows "length (filter (link_selects pid ev) (t_evidence d)) = 1"
proof -
  obtain f where f: "f \<in> set (t_evidence d)" "link_selects pid ev f"
    using assms(2) by (auto simp: has_row_def)
  have "count_where (link_selects pid ev) (t_evidence d) = 1"
    using assms(1) f unfolding tuples_unique_def
    by (intro count_where_unique [of evidence_tuple _ f]) (auto simp: link_selects_def evidence_tuple_def)
  then show ?thesis by (simp add: count_where_def)
qed

lemma link_statements_counts:
  assumes "run_batch (map (link_statement pid ver rid) evs) d = Inr (d', ns)"
    and "project_at pid ver d" and "tuples_unique d" and "\<forall>ev\<in>set evs. has_row pid ev d"
  shows "ns = replicate (length evs) 1"
  using assms
proof (induction evs arbitrary: d ns)
  case Nil
  then show ?case by simp
next
  case (Cons ev evs)
  obtain d1 n ms where s: "link_statement pid ver rid ev d = Inr (d1, n)"
    and r: "run_batch (map (link_statement pid ver rid) evs) d1 = Inr (d', ms)" and ns: "ns = n # ms"
    using Cons.prems(1) by (auto simp: run_batch_Cons_Inr simp del: run_batch.simps)
  have i: "insert_links pid rid (filter (link_selects pid ev) (t_evidence d)) d = Inr (d1, n)"
    using s Cons.prems(2) by (simp add: link_statement_def guarded_def)
  obtain ls where d1: "d1 = d\<lparr>t_links := t_links d @ ls\<rparr>"
    and n: "n = length (filter (link_selects pid ev) (t_evidence d))"
    using insert_links_frame [OF i] by auto
  have "n = 1" using n link_selects_one [OF Cons.prems(3), of pid ev] Cons.prems(4) by simp
  moreover have "ms = replicate (length evs) 1"
    by (rule Cons.IH [OF r]) (use Cons.prems d1 in \<open>auto simp: tuples_unique_def has_row_def\<close>)
  ultimately show ?case by (simp add: ns)
qed

lemma guarded_frame:
  assumes "guarded c s d = Inr (d', n)" and "\<And>d'. s d = Inr (d', n) \<Longrightarrow> f d' = f d"
  shows "f d' = f d"
  using assms by (auto simp: guarded_def split: if_splits)

text \<open>The link counts the coordinator reads are all 1.\<close>

lemma link_counts_one:
  assumes run: "run_batch (mutation_batch (fst j) (snd j)) d = Inr (d', ns)"
    and cur: "project_at (mi_project (fst j)) (mi_project_version (fst j)) d"
    and uniq: "tuples_unique d"
  shows "link_counts j ns = replicate (length (snd j)) 1"
proof -
  obtain i evs where j: "j = (i, evs)" by (cases j)
  let ?pid = "mi_project i" and ?ver = "mi_project_version i"
  let ?ev = "map (evidence_statement ?pid ?ver (mi_now i)) evs"
  let ?ln = "map (link_statement ?pid ?ver (mi_revision i)) evs"
  have cur: "project_at ?pid ?ver d" using cur by (simp add: j)
  obtain d1 n1 d2 ks d3 n3 d4 ls rest where
      s1: "guarded (mutation_guard i) (insert_audit (mutation_audit i)) d = Inr (d1, n1)"
    and s2: "run_batch ?ev d1 = Inr (d2, ks)"
    and s3: "guarded (mutation_guard i) (insert_revision (mutation_revision i)) d2 = Inr (d3, n3)"
    and s4: "run_batch ?ln d3 = Inr (d4, ls)"
    and ns: "ns = n1 # ks @ n3 # ls @ rest"
    using run unfolding j fst_conv snd_conv mutation_batch_order
    by (auto simp: run_batch_Cons_Inr run_batch_append_Inr mutation_statements_def
        simp del: run_batch.simps)
  have a: "t_evidence d1 = t_evidence d" "project_at ?pid ?ver d1"
    using s1 cur by (auto simp: guarded_def insert_audit_Inr split: if_splits)
  have "tuples_unique d1" using uniq a(1) by (simp add: tuples_unique_def)
  from evidence_statements_rows [OF s2 a(2) this]
  have u2: "tuples_unique d2" "\<forall>ev\<in>set evs. has_row ?pid ev d2" by auto
  obtain es where d2: "d2 = d1\<lparr>t_evidence := t_evidence d1 @ es\<rparr>" and len: "length ks = length evs"
    using evidence_statements_run [OF s2] by auto
  have cur2: "project_at ?pid ?ver d2" using a(2) by (simp add: d2)
  have b: "t_evidence d3 = t_evidence d2" "project_at ?pid ?ver d3"
    using s3 cur2 by (auto simp: guarded_def insert_revision_Inr split: if_splits)
  have "ls = replicate (length evs) 1"
    by (rule link_statements_counts [OF s4 b(2)])
      (use u2 b(1) in \<open>simp_all add: tuples_unique_def has_row_def\<close>)
  then show ?thesis using len by (simp add: link_counts_def ns j)
qed

text \<open>What a commit answers, and what it leaves.\<close>

lemma commitMutation_cases:
  assumes inv: "distinct (map p_id (t_projects d))" and uniq: "tuples_unique d"
    and c: "commitMutation j d = (res, d')"
  obtains e where "res = Inl e" "d' = d"
  | ns where "res = Inr (mutation_response (fst j))"
      "project_at (mi_project (fst j)) (mi_project_version (fst j)) d"
      "run_batch (mutation_batch (fst j) (snd j)) d = Inr (d', ns)"
proof (cases "run_batch (mutation_batch (fst j) (snd j)) d")
  case (Inl a)
  with c that(1) show ?thesis by (auto simp: commitMutation_def)
next
  case (Inr r)
  obtain d1 ns where r: "r = (d1, ns)" by (cases r)
  have run: "run_batch (mutation_batch (fst j) (snd j)) d = Inr (d1, ns)" using Inr r by simp
  note iff = mut.last_count_iff [OF inv run]
  show ?thesis
  proof (cases "project_at (mi_project (fst j)) (mi_project_version (fst j)) d")
    case True
    have "\<not> list_ex (\<lambda>n. n \<noteq> 1) (link_counts j ns)"
      by (simp add: link_counts_one [OF run True uniq] list_ex_iff)
    with c run True iff that(2) show ?thesis by (auto simp: commitMutation_def)
  next
    case False
    then have "d1 = d" using mutation_batch_idle [OF False] run by simp
    with c run False iff that(1) show ?thesis by (auto simp: commitMutation_def)
  qed
qed

end
