(* ===== verification/Formal_Properties.thy ===== *)
theory Formal_Properties
  imports Formal_Demo
begin

text \<open>
  The properties of the formal write protocol: what every reachable state of the
  coordinators' interleavings satisfies, and what each plan does when it commits.
\<close>

section \<open>Hash-linked history\<close>

text \<open>Each event names the hash of the one before it; the last hash is the project head.\<close>

fun hash_linked :: "ustring option \<Rightarrow> audit_event list \<Rightarrow> ustring option \<Rightarrow> bool" where
  "hash_linked prev [] last_hash \<longleftrightarrow> prev = last_hash"
| "hash_linked prev (a # as) last_hash \<longleftrightarrow>
     a_prev a = prev \<and> hash_linked (Some (a_hash a)) as last_hash"

lemma hash_linked_snoc:
  "hash_linked p (as @ [a]) h \<longleftrightarrow> hash_linked p as (a_prev a) \<and> h = Some (a_hash a)"
  by (induction as arbitrary: p) auto

lemma audit_chain_linked: "audit_chain as ver h \<Longrightarrow> hash_linked None (rev as) h"
  by (induction as arbitrary: ver h) (auto simp: hash_linked_snoc)

lemma version_of_row:
  "version_of pid d = Some v \<Longrightarrow>
     \<exists>p\<in>set (t_projects d). p_id p = pid \<and> p_version p = v \<and> head_of pid d = p_head p"
  by (auto simp: version_of_def head_of_def intro: bexI dest: find_SomeD)

lemma formal_inv_chain:
  assumes "formal_inv d" and "version_of pid d = Some v"
  shows "audit_chain (rev (project_audits pid d)) v (head_of pid d)"
  using assms version_of_row [OF assms(2)] by (auto simp: formal_inv_def)

lemma revision_chain_versions:
  "revision_chain us n \<Longrightarrow> map v_version (rev us) = map int [1..<Suc (length us)]"
proof (induction us arbitrary: n)
  case (Cons u us)
  then have "v_version u = int (length (u # us))"
    using revision_chain_length by fastforce
  moreover have "map v_version (rev us) = map int [1..<Suc (length us)]"
    using Cons.prems by (intro Cons.IH) auto
  moreover have "[1..<Suc (length (u # us))] = [1..<Suc (length us)] @ [length (u # us)]"
    by simp
  ultimately show ?case
    by (simp only: rev.simps map_append list.map append_Cons append_Nil)
qed simp

section \<open>Runs of the system\<close>

lemma sys_step_history:
  assumes "sys_step s t" and "sys_ok s"
  shows "(\<exists>as vs. t_audits (sys_db t) = t_audits (sys_db s) @ as \<and>
            t_revisions (sys_db t) = t_revisions (sys_db s) @ vs) \<and>
     (\<forall>q v. version_of q (sys_db s) = Some v \<longrightarrow>
        (\<exists>w. version_of q (sys_db t) = Some w \<and> v \<le> w))"
  using assms
proof cases
  case (commit op)
  have inv: "formal_inv (sys_db s)" and snd: "op_sound (sys_db s) op"
    using assms commit by (auto simp: sys_ok_def)
  note rdy = op_sound_ready [OF inv snd]
  obtain as vs where "t_audits (sys_db t) = t_audits (sys_db s) @ as"
      "t_revisions (sys_db t) = t_revisions (sys_db s) @ vs"
    using fop.append_only [OF rdy] commit by auto
  with commit fop.version_monotone [OF formal_inv_ids [OF inv] rdy] show ?thesis by fastforce
next
  case (outside d')
  with outside_frame [OF outside(2)] show ?thesis by (auto simp: version_of_def)
qed simp_all

lemma sys_run_history:
  "sys_run s t \<Longrightarrow> sys_ok s \<Longrightarrow>
     (\<exists>as vs. t_audits (sys_db t) = t_audits (sys_db s) @ as \<and>
        t_revisions (sys_db t) = t_revisions (sys_db s) @ vs) \<and>
     (\<forall>q v. version_of q (sys_db s) = Some v \<longrightarrow>
        (\<exists>w. version_of q (sys_db t) = Some w \<and> v \<le> w))"
proof (induction rule: sys_run.induct)
  case (sys_refl s)
  then show ?case by auto
next
  case (sys_trans s t u)
  note ih = sys_trans.IH [OF sys_trans.prems]
  note st = sys_step_history [OF sys_trans.hyps(2) sys_ok_run [OF sys_trans.hyps(1) sys_trans.prems]]
  obtain as vs as' vs' where
      "t_audits (sys_db t) = t_audits (sys_db s) @ as" "t_revisions (sys_db t) = t_revisions (sys_db s) @ vs"
      "t_audits (sys_db u) = t_audits (sys_db t) @ as'" "t_revisions (sys_db u) = t_revisions (sys_db t) @ vs'"
    using ih st by blast
  then have "\<exists>as vs. t_audits (sys_db u) = t_audits (sys_db s) @ as \<and>
        t_revisions (sys_db u) = t_revisions (sys_db s) @ vs"
    by (intro exI [of _ "as @ as'"] exI [of _ "vs @ vs'"]) simp
  moreover have "\<exists>w. version_of q (sys_db u) = Some w \<and> v \<le> w"
    if "version_of q (sys_db s) = Some v" for q v
    using that ih st by (meson order_trans)
  ultimately show ?case by blast
qed

lemma sys_run_append: "sys_run s t \<Longrightarrow> sys_run r s \<Longrightarrow> sys_run r t"
  by (induction rule: sys_run.induct) (auto intro: sys_trans)

lemma reach_ok: "formal_inv d0 \<Longrightarrow> sys_run (fresh_sys d0) s \<Longrightarrow> sys_ok s"
  using sys_ok_run fresh_sys_ok by blast

text \<open>A run of the demonstration database: two plans prepared at version 1, one committed.\<close>

definition demo_prepared :: sys where
  "demo_prepared = \<lparr>sys_db = demo_db, sys_ops = [OpReview demo_review, OpMutate demo_job]\<rparr>"

definition demo_committed :: sys where
  "demo_committed =
     \<lparr>sys_db = after_batch (op_batch (OpMutate demo_job)) demo_db, sys_ops = [OpReview demo_review]\<rparr>"

lemma demo_prepared_run: "sys_run (fresh_sys demo_db) demo_prepared"
proof -
  have r: "op_ready (OpReview demo_review) demo_db"
    "project_at (op_project (OpReview demo_review)) (op_version (OpReview demo_review)) demo_db"
    "project_at (op_project (OpMutate demo_job)) (op_version (OpMutate demo_job)) demo_db"
    by code_simp+
  have "sys_step (fresh_sys demo_db) (fresh_sys demo_db\<lparr>sys_ops := [OpMutate demo_job]\<rparr>)"
    using sys_step.prepare [of "OpMutate demo_job" "fresh_sys demo_db"] r by (simp add: fresh_sys_def)
  moreover have "sys_step (fresh_sys demo_db\<lparr>sys_ops := [OpMutate demo_job]\<rparr>) demo_prepared"
    using sys_step.prepare [of "OpReview demo_review" "fresh_sys demo_db\<lparr>sys_ops := [OpMutate demo_job]\<rparr>"] r
    by (simp add: fresh_sys_def demo_prepared_def)
  ultimately show ?thesis by (meson sys_refl sys_trans)
qed

lemma demo_committed_run: "sys_run (fresh_sys demo_db) demo_committed"
proof -
  have "sys_step demo_prepared demo_committed"
    using sys_step.commit [of "OpMutate demo_job" demo_prepared]
    by (simp add: demo_prepared_def demo_committed_def)
  with demo_prepared_run show ?thesis by (rule sys_trans)
qed

lemma demo_committed_version: "version_of (str ''p'') (sys_db demo_committed) = Some 2"
  by code_simp

section \<open>Reachable states\<close>

text \<open>C1: In every state the coordinators can reach, whatever plans were prepared, committed in
  another order, lost or overtaken, the version of a project is the number of its audit events,
  the events carry the sequence numbers 1 to that version, and each names the hash of the one
  before it, up to the hash the project row holds.\<close>

theorem reachable_audit_history:
  assumes "formal_inv d0" and "sys_run (fresh_sys d0) s"
    and "version_of pid (sys_db s) = Some v"
  shows "v = int (length (project_audits pid (sys_db s))) \<and>
     map a_sequence (project_audits pid (sys_db s)) = map int [1..<Suc (nat v)] \<and>
     hash_linked None (project_audits pid (sys_db s)) (head_of pid (sys_db s))"
proof -
  have "formal_inv (sys_db s)" using reach_ok [OF assms(1,2)] by (simp add: sys_ok_def)
  from formal_inv_chain [OF this assms(3)]
  have c: "audit_chain (rev (project_audits pid (sys_db s))) v (head_of pid (sys_db s))" .
  show ?thesis
    using audit_chain_length [OF c] audit_chain_sequences [OF c] audit_chain_linked [OF c] by simp
qed

lemma reachable_audit_history_witness:
  "map a_sequence (project_audits (str ''p'') (sys_db demo_committed)) = map int [1..<Suc (nat 2)]"
  using reachable_audit_history [OF demo_inv demo_committed_run demo_committed_version] by blast

text \<open>C2: In every reachable state the revisions of a memory are numbered from 1 without gaps, its
  current version is their number, and its current-revision pointer is the newest one.\<close>

theorem reachable_memory_heads:
  assumes "formal_inv d0" and "sys_run (fresh_sys d0) s" and "m \<in> set (t_memories (sys_db s))"
  shows "m_version m = int (length (memory_revisions (m_project m) (m_id m) (sys_db s))) \<and>
     map v_version (memory_revisions (m_project m) (m_id m) (sys_db s)) =
       map int [1..<Suc (nat (m_version m))] \<and>
     (0 < m_version m \<longrightarrow>
        m_revision m = Some (v_id (last (memory_revisions (m_project m) (m_id m) (sys_db s)))))"
proof -
  let ?vs = "memory_revisions (m_project m) (m_id m) (sys_db s)"
  have h: "head_matches m ?vs"
    using reach_ok [OF assms(1,2)] assms(3) by (simp add: sys_ok_def formal_inv_def)
  then have c: "revision_chain (rev ?vs) (m_version m)" by (simp add: head_matches_def)
  then have len: "m_version m = int (length ?vs)"
    using revision_chain_length by fastforce
  have "map v_version ?vs = map int [1..<Suc (nat (m_version m))]"
    using revision_chain_versions [OF c] unfolding len by simp
  moreover have "0 < m_version m \<longrightarrow> m_revision m = Some (v_id (last ?vs))"
    using h len by (cases "?vs" rule: rev_cases) (auto simp: head_matches_def)
  ultimately show ?thesis using len by simp
qed

lemma reachable_memory_heads_witness:
  "m_version demo_memory = int (length (memory_revisions (str ''p'') (str ''m'') demo_db))"
  using reachable_memory_heads [OF demo_inv demo_prepared_run, of demo_memory]
  by (simp add: demo_prepared_def demo_db_def demo_memory_def)

text \<open>History is append-only: along every run audit events and revisions are only added, after
  the ones already there, and no project's version goes back.\<close>

theorem history_append_only:
  assumes "formal_inv d0" and "sys_run (fresh_sys d0) s" and "sys_run s t"
  shows "(\<exists>as. t_audits (sys_db t) = t_audits (sys_db s) @ as) \<and>
     (\<exists>vs. t_revisions (sys_db t) = t_revisions (sys_db s) @ vs) \<and>
     (\<forall>pid v. version_of pid (sys_db s) = Some v \<longrightarrow>
        (\<exists>w. version_of pid (sys_db t) = Some w \<and> v \<le> w))"
  using sys_run_history [OF assms(3) reach_ok [OF assms(1,2)]] by blast

lemma history_append_only_witness:
  "\<exists>as. t_audits (sys_db demo_committed) = t_audits demo_db @ as"
  using history_append_only [OF demo_inv sys_refl demo_committed_run]
  by (auto simp: fresh_sys_def)

text \<open>The row count the coordinator checks after a batch is exact: in a reachable state, a batch
  of a plan in flight that does not abort has changed one row in its last statement if and only
  if it committed, and then it appended exactly its audit event and advanced exactly its own
  project by one; otherwise the database is unchanged.\<close>

theorem batch_result_is_exact:
  assumes "formal_inv d0" and "sys_run (fresh_sys d0) s" and "op \<in> set (sys_ops s)"
    and "run_batch (op_batch op) (sys_db s) = Inr (d', ns)"
  shows "if last ns = 1
     then t_audits d' = t_audits (sys_db s) @ [op_audit op] \<and>
       version_of (op_project op) (sys_db s) = Some (op_version op) \<and>
       version_of (op_project op) d' = Some (op_version op + 1) \<and>
       (\<forall>pid. pid \<noteq> op_project op \<longrightarrow> version_of pid d' = version_of pid (sys_db s))
     else d' = sys_db s"
proof -
  have inv: "formal_inv (sys_db s)" and snd: "op_sound (sys_db s) op"
    using reach_ok [OF assms(1,2)] assms(3) by (auto simp: sys_ok_def)
  note dist = formal_inv_ids [OF inv] and rdy = op_sound_ready [OF inv snd]
  note iff = fop.last_count_iff [OF dist assms(4) rdy]
  show ?thesis
  proof (cases "project_at (op_project op) (op_version op) (sys_db s)")
    case True
    note c = fop.commit [OF True rdy [OF True] assms(4)]
    show ?thesis
      using iff True formal_commitD(2) [OF c] version_of_commit(1) [OF dist c]
        version_of_project_at [OF dist] by simp
  next
    case False
    with fop.idle [OF False] assms(4) iff show ?thesis by simp
  qed
qed

lemma batch_result_is_exact_witness:
  "\<exists>d' ns. run_batch (op_batch (OpMutate demo_job)) demo_db = Inr (d', ns) \<and>
     t_audits d' = t_audits demo_db @ [mutation_audit demo_mutation]"
proof -
  have "batch_counts (op_batch (OpMutate demo_job)) demo_db = Some [1, 1, 1, 1, 1, 1, 1, 1]"
    using demo_mutation_counts by (simp add: demo_job_def)
  then obtain d' where "run_batch (op_batch (OpMutate demo_job)) demo_db = Inr (d', [1, 1, 1, 1, 1, 1, 1, 1])"
    by (auto simp: batch_counts_def split: sum.splits)
  with batch_result_is_exact [OF demo_inv demo_prepared_run, of "OpMutate demo_job"] show ?thesis
    by (fastforce simp: demo_prepared_def demo_job_def)
qed

text \<open>At most one plan commits per project version: once a plan in flight has changed the
  database, any other plan built for the same project version, of whatever kind, writes nothing
  when it runs, at once or after any further steps of the system.\<close>

theorem one_commit_per_project_version:
  assumes "formal_inv d0" and "sys_run (fresh_sys d0) s" and "op \<in> set (sys_ops s)"
    and "after_batch (op_batch op) (sys_db s) \<noteq> sys_db s"
    and "sys_run (s\<lparr>sys_db := after_batch (op_batch op) (sys_db s),
                    sys_ops := remove1 op (sys_ops s)\<rparr>) t"
    and "op_project op' = op_project op" and "op_version op' = op_version op"
  shows "after_batch (op_batch op') (sys_db t) = sys_db t"
proof -
  let ?c = "s\<lparr>sys_db := after_batch (op_batch op) (sys_db s), sys_ops := remove1 op (sys_ops s)\<rparr>"
  have ok: "sys_ok s" by (rule reach_ok [OF assms(1,2)])
  then have inv: "formal_inv (sys_db s)" and snd: "op_sound (sys_db s) op"
    using assms(3) by (auto simp: sys_ok_def)
  have okc: "sys_ok ?c" by (rule sys_ok_step [OF sys_step.commit [OF assms(3)] ok])
  have c: "formal_commit (op_project op) (op_version op) (op_audit op) (sys_db s) (sys_db ?c)"
    using assms(4) fop.effect_cases [of op "sys_db s"] op_sound_ready [OF inv snd] by auto
  have "version_of (op_project op) (sys_db ?c) = Some (op_version op + 1)"
    using version_of_commit(1) [OF formal_inv_ids [OF inv] c] by simp
  then obtain w where w: "version_of (op_project op) (sys_db t) = Some w" "op_version op + 1 \<le> w"
    using sys_run_history [OF assms(5) okc] by blast
  have "distinct (map p_id (t_projects (sys_db t)))"
    using sys_ok_run [OF assms(5) okc] by (simp add: sys_ok_def formal_inv_ids)
  from version_of_project_at [OF this] w assms(6,7)
  have "\<not> project_at (op_project op') (op_version op') (sys_db t)" by simp
  then show ?thesis by (rule fop.stale_writes_nothing)
qed

lemma one_commit_per_project_version_witness:
  "after_batch (op_batch (OpReview demo_review)) (sys_db demo_committed) = sys_db demo_committed"
proof -
  have "version_of (str ''p'') (after_batch (op_batch (OpMutate demo_job)) demo_db) = Some 2"
    using demo_committed_version by (simp add: demo_committed_def)
  moreover have "version_of (str ''p'') demo_db = Some 1" by code_simp
  ultimately have ne: "after_batch (op_batch (OpMutate demo_job)) demo_db \<noteq> demo_db" by auto
  have eq: "demo_prepared\<lparr>sys_db := after_batch (op_batch (OpMutate demo_job)) (sys_db demo_prepared),
      sys_ops := remove1 (OpMutate demo_job) (sys_ops demo_prepared)\<rparr> = demo_committed"
    by (simp add: demo_prepared_def demo_committed_def)
  show ?thesis
    by (rule one_commit_per_project_version [OF demo_inv demo_prepared_run, of "OpMutate demo_job"])
      (use ne eq in \<open>simp_all add: demo_prepared_def sys_refl demo_job_def demo_mutation_def
         demo_review_def\<close>)
qed

end
