(* ===== verification/Formal_Frames.thy ===== *)
theory Formal_Frames
  imports Formal_Properties Projection_Guard
begin

text \<open>
  What a run of the system leaves alone: the memories and revisions of a project change
  only with its version, and the place of a memory (project, scope, scope identifier) never
  changes. With them a check made at one moment of a request still holds when its batch
  commits at the version it expected.
\<close>

definition memories_of :: "ustring \<Rightarrow> db \<Rightarrow> memory list" where
  "memories_of pid d = filter (\<lambda>m. m_project m = pid) (t_memories d)"

definition revisions_of :: "ustring \<Rightarrow> db \<Rightarrow> revision list" where
  "revisions_of pid d = filter (\<lambda>v. v_project v = pid) (t_revisions d)"

definition place :: "memory \<Rightarrow> ustring \<times> ustring \<times> memory_scope \<times> ustring" where
  "place m = (m_id m, m_project m, m_scope m, m_scope_id m)"

lemma op_frames_rows:
  assumes cur: "project_at (op_project op) (op_version op) d" and rdy: "op_ready op d"
    and run: "run_batch (op_batch op) d = Inr (d', ns)"
  shows "(pid \<noteq> op_project op \<longrightarrow> memories_of pid d' = memories_of pid d \<and>
            revisions_of pid d' = revisions_of pid d) \<and>
     (\<exists>ps. map place (t_memories d') = map place (t_memories d) @ ps)"
proof (cases op)
  case (OpMutate j)
  let ?q = "mutation_head_where (fst j)" and ?f = "mutation_head_set (fst j)"
  have "t_memories d' = update_where ?q ?f (t_memories d)"
    and "t_revisions d' = t_revisions d @ [mutation_revision (fst j)]"
    using run cur unfolding OpMutate by (auto elim!: mutation_batch_commit)
  moreover have "map place (update_where ?q ?f (t_memories d)) = map place (t_memories d)"
    by (rule map_update_where) (simp add: place_def mutation_head_set_def)
  moreover have "pid \<noteq> op_project op \<Longrightarrow>
      memories_of pid d' = memories_of pid d \<and> revisions_of pid d' = revisions_of pid d"
    using calculation(1,2) unfolding memories_of_def revisions_of_def OpMutate
    by (auto simp: mutation_revision_def mutation_head_where_def mutation_head_set_def
        intro!: filter_update_where_frame)
  ultimately show ?thesis by simp
next
  case (OpReview i)
  have g: "review_guard i d"
    using cur rdy by (simp add: OpReview review_guard_def review_ready_def)
  have "t_memories d' = t_memories d \<and> t_revisions d' = t_revisions d"
    using run g unfolding OpReview by (auto elim!: review_batch_commit)
  then show ?thesis by (simp add: memories_of_def revisions_of_def)
next
  case (OpPromote i)
  let ?q = "promotion_head_where i" and ?f = "promotion_head_set i"
  have g: "promotion_guard i d"
    using cur rdy by (simp add: OpPromote promotion_guard_def promotion_ready_def)
  have m: "t_memories d' = update_where ?q ?f (t_memories d @ [promotion_memory i])"
    and "t_revisions d' = t_revisions d @ [promotion_revision i]"
    using run g unfolding OpPromote by (auto simp: promotion_effect_def elim!: promotion_batch_commit)
  moreover have "map place (update_where ?q ?f xs) = map place xs" for xs
    by (rule map_update_where) (simp add: place_def promotion_head_set_def)
  moreover have "pid \<noteq> op_project op \<Longrightarrow> memories_of pid d' = memories_of pid d"
  proof -
    assume other: "pid \<noteq> op_project op"
    have "filter (\<lambda>m. m_project m = pid) (update_where ?q ?f (t_memories d @ [promotion_memory i])) =
        filter (\<lambda>m. m_project m = pid) (t_memories d @ [promotion_memory i])"
      by (rule filter_update_where_frame)
        (use other in \<open>auto simp: OpPromote promotion_head_where_def promotion_head_set_def\<close>)
    with other show ?thesis by (simp add: memories_of_def m OpPromote promotion_memory_def)
  qed
  moreover have "pid \<noteq> op_project op \<Longrightarrow> revisions_of pid d' = revisions_of pid d"
    using calculation(2) by (simp add: revisions_of_def OpPromote promotion_revision_def)
  ultimately show ?thesis by simp
qed

lemma sys_step_rows:
  assumes "sys_step s t" and "sys_ok s"
  shows "(version_of pid (sys_db t) = version_of pid (sys_db s) \<longrightarrow>
            memories_of pid (sys_db t) = memories_of pid (sys_db s) \<and>
            revisions_of pid (sys_db t) = revisions_of pid (sys_db s)) \<and>
     (\<exists>ps. map place (t_memories (sys_db t)) = map place (t_memories (sys_db s)) @ ps)"
  using assms
proof cases
  case (commit op)
  let ?d = "sys_db s" and ?d' = "after_batch (op_batch op) (sys_db s)"
  have inv: "formal_inv ?d" and snd: "op_sound ?d op"
    using assms commit by (auto simp: sys_ok_def)
  note dist = formal_inv_ids [OF inv] and rdy = op_sound_ready [OF inv snd]
  show ?thesis
  proof (cases "?d' = ?d")
    case False
    then have cur: "project_at (op_project op) (op_version op) ?d"
      and c: "formal_commit (op_project op) (op_version op) (op_audit op) ?d ?d'"
      using fop.effect_cases [of op ?d] rdy by blast+
    obtain ns where run: "run_batch (op_batch op) ?d = Inr (?d', ns)"
      using False by (auto simp: after_batch_def split: sum.splits)
    have "version_of (op_project op) ?d' \<noteq> version_of (op_project op) ?d"
      using version_of_commit(1) [OF dist c, of "op_project op"] cur version_of_project_at [OF dist]
      by simp
    with op_frames_rows [OF cur rdy [OF cur] run, of pid] commit show ?thesis by auto
  qed (use commit in simp)
next
  case (outside d')
  with outside_frame [OF outside(2)] show ?thesis by (simp add: memories_of_def revisions_of_def)
qed simp_all

lemma sys_run_rows:
  "sys_run s t \<Longrightarrow> sys_ok s \<Longrightarrow> version_of pid (sys_db s) = Some v \<Longrightarrow>
     version_of pid (sys_db t) = Some v \<Longrightarrow>
     memories_of pid (sys_db t) = memories_of pid (sys_db s) \<and>
     revisions_of pid (sys_db t) = revisions_of pid (sys_db s)"
proof (induction rule: sys_run.induct)
  case (sys_trans s t u)
  have ok: "sys_ok t" by (rule sys_ok_run [OF sys_trans.hyps(1) sys_trans.prems(1)])
  obtain w where w: "version_of pid (sys_db t) = Some w" "v \<le> w"
    using sys_run_history [OF sys_trans.hyps(1) sys_trans.prems(1)] sys_trans.prems(2) by blast
  have "w \<le> v"
    using sys_step_history [OF sys_trans.hyps(2) ok] w(1) sys_trans.prems(3) by fastforce
  with w have eq: "version_of pid (sys_db t) = Some v" by simp
  with sys_trans.IH [OF sys_trans.prems(1,2) eq] sys_step_rows [OF sys_trans.hyps(2) ok, of pid]
    sys_trans.prems(3) show ?case by simp
qed simp

lemma sys_run_places:
  "sys_run s t \<Longrightarrow> sys_ok s \<Longrightarrow>
     \<exists>ps. map place (t_memories (sys_db t)) = map place (t_memories (sys_db s)) @ ps"
proof (induction rule: sys_run.induct)
  case (sys_trans s t u)
  obtain ps where "map place (t_memories (sys_db t)) = map place (t_memories (sys_db s)) @ ps"
    using sys_trans by blast
  moreover obtain qs where "map place (t_memories (sys_db u)) = map place (t_memories (sys_db t)) @ qs"
    using sys_step_rows [OF sys_trans.hyps(2) sys_ok_run [OF sys_trans.hyps(1) sys_trans.prems]] by blast
  ultimately show ?case by simp
qed simp

text \<open>The capacity guard reads only the rows of its project.\<close>

lemma projected_memories_of:
  "projected_memories d pid x = filter (\<lambda>m. m_revision m \<noteq> None \<and>
     (m_status m = Active \<or> m_status m = Contested) \<and> (x = [] \<or> m_id m \<noteq> x)) (memories_of pid d)"
  by (simp add: projected_memories_def memories_of_def conj_ac)

lemma current_revisions_of:
  assumes "revisions_of pid d = revisions_of pid d'" and "\<forall>m\<in>set ms. m_project m = pid"
  shows "current_revisions d ms = current_revisions d' ms"
proof -
  have "filter (current_of m) (t_revisions e) = filter (current_of m) (revisions_of pid e)"
    if "m_project m = pid" for m e
    using that by (auto simp: revisions_of_def current_of_def intro!: filter_cong)
  then show ?thesis
    unfolding current_revisions_def
    by (intro arg_cong [where f = concat] map_cong refl) (use assms in simp)
qed

lemma capacity_guard_frame:
  assumes m: "memories_of pid d = memories_of pid d'" and v: "revisions_of pid d = revisions_of pid d'"
    and p: "project_at pid ver d" "project_at pid ver d'"
  shows "requireFormalProjectionCapacity d pid ver ex n b sc =
     requireFormalProjectionCapacity d' pid ver ex n b sc"
proof -
  have pm: "projected_memories d pid x = projected_memories d' pid x" for x
    by (simp add: projected_memories_of m)
  have "current_revisions d (projected_memories d' pid x) = current_revisions d' (projected_memories d' pid x)" for x
    by (rule current_revisions_of [OF v]) (simp add: projected_memories_def)
  then have "authority_for d (projected_memories d pid x) ver s =
      authority_for d' (projected_memories d' pid x) ver s" for x s
    by (simp add: authority_for_def snapshot_bytes_def pm)
  then have "readProjectionSnapshotAuthority d pid ver s y = readProjectionSnapshotAuthority d' pid ver s y" for s y
    by (simp add: read_authority p)
  then show ?thesis by (simp add: requireFormalProjectionCapacity_def)
qed

text \<open>A guard passed at one state of a run holds at any later state of the same project version.\<close>

lemma capacity_guard_at:
  assumes ok: "sys_ok s" and run: "sys_run s t" and at_t: "project_at pid ver (sys_db t)"
    and g: "requireFormalProjectionCapacity (sys_db s) pid ver ex n b sc = Inr ()"
  shows "requireFormalProjectionCapacity (sys_db t) pid ver ex n b sc = Inr ()"
proof -
  have ids: "distinct (map p_id (t_projects (sys_db s)))" "distinct (map p_id (t_projects (sys_db t)))"
    using ok sys_ok_run [OF run ok] formal_inv_ids by (auto simp: sys_ok_def)
  from g have at_s: "project_at pid ver (sys_db s)"
    using read_authority by (auto simp: requireFormalProjectionCapacity_def split: option.splits if_splits)
  have "version_of pid (sys_db s) = Some ver" "version_of pid (sys_db t) = Some ver"
    using at_s at_t version_of_project_at ids by auto
  then have rows: "memories_of pid (sys_db t) = memories_of pid (sys_db s)"
    "revisions_of pid (sys_db t) = revisions_of pid (sys_db s)"
    using sys_run_rows [OF run ok] by auto
  show ?thesis using g capacity_guard_frame [OF rows at_t at_s] by simp
qed

end
