(* ===== verification/Mutation_Requests.thy ===== *)
theory Mutation_Requests
  imports Evidence_Links Formal_Frames "HOL-Library.Code_Target_Nat"
begin

text \<open>
  The properties of a \<open>/mutate\<close> request as a whole: an error leaves the database untouched,
  a success is exactly one committed step with the requested content, a replay answers the
  stored response, unauthorised callers learn nothing, and a request that passed its guards
  keeps the projection of the project possible whatever ran between its reads.
\<close>

section \<open>What a prepared request went through\<close>

lemma prepareMutation_Inr:
  assumes "prepareMutation L view am r c = Inr j"
  obtains cu rv es where
    "read_current (view AtCurrent) (mr_project r) (mr_memory r) = Some cu"
    "cu_project_version cu = mr_project_version r" "cu_memory_version cu = mr_memory_version r"
    "resolveMutationRevision (view AtRollback) r cu = Inr rv" "cl_accepts L (rr_content rv)"
    "mutation_capacity (view AtCapacity) r c (rr_content rv) = Inr ()"
    "isValidValidityInterval (cl_time L) (rr_from rv) (rr_until rv)"
    "collect_evidence L (mr_project r) c [] (mr_evidence r) = Inr es"
    "evidence_preflight (view AtEvidence) (mr_project r) es = Inr ()"
    "j = (mutation_plan_input L am r cu rv, es)"
proof -
  obtain cu where cu: "read_current (view AtCurrent) (mr_project r) (mr_memory r) = Some cu"
    using assms by (auto simp: prepareMutation_def split: option.splits)
  have v: "cu_project_version cu = mr_project_version r \<and> cu_memory_version cu = mr_memory_version r"
  proof (rule ccontr)
    assume "\<not> ?thesis"
    then have "prepareMutation L view am r c = Inl staleVersion" by (auto simp: prepareMutation_def cu)
    with assms show False by simp
  qed
  obtain rv plan es where
      "resolveMutationRevision (view AtRollback) r cu = Inr rv" "cl_accepts L (rr_content rv)"
      "mutation_capacity (view AtCapacity) r c (rr_content rv) = Inr ()"
      "buildMemoryMutationPlan (cl_time L) (mutation_plan_input L am r cu rv) = Inr plan"
      "collect_evidence L (mr_project r) c [] (mr_evidence r) = Inr es"
      "evidence_preflight (view AtEvidence) (mr_project r) es = Inr ()"
      "j = (mutation_plan_input L am r cu rv, es)"
    using assms v by (auto simp: prepareMutation_def cu bind_res_Inr_iff)
  moreover from this(4) have "isValidValidityInterval (cl_time L) (rr_from rv) (rr_until rv)"
    by (auto simp: buildMemoryMutationPlan_def bind_res_Inr_iff requireValidValidityInterval_def
        mutation_plan_input_def)
  ultimately show ?thesis using cu v that by blast
qed

lemma requestMutation_Job:
  assumes "requestMutation L view am r = Inr (Job j)"
  obtains c where "mutationSchema L r" "mutation_gate view r = Inr c"
    "find_idem (mr_project r) (mr_actor r) (str ''memory_'' @ operation_name (mr_operation r))
       (mr_key r) (view AtReplay) = None"
    "prepareMutation L view am r c = Inr j"
  using assms by (auto simp: requestMutation_def bind_res_Inr_iff resolveIdempotency_def
      split: option.splits if_splits)

lemma mutation_gate_Inr:
  "mutation_gate view r = Inr c \<Longrightarrow>
     maintainer_grant (mr_project r) (mr_actor r) (view AtGrant) \<and> project_live (mr_project r) (view AtGrant) \<and>
     resolveMemoryChangeRepositoryContext (view AtContext) (mr_project r) (mr_memory r) = Some c"
  by (auto simp: mutation_gate_def requireProjectMaintainer_def bind_res_Inr_iff
      split: option.splits if_splits)

lemma job_fields:
  assumes "prepareMutation L view am r c = Inr j"
  shows "mi_project (fst j) = mr_project r" "mi_project_version (fst j) = mr_project_version r"
    "mi_memory (fst j) = mr_memory r" "mi_memory_version (fst j) = mr_memory_version r"
    "mi_operation (fst j) = mr_operation r" "mi_actor (fst j) = mr_actor r"
    "mi_revision (fst j) = am_revision am" "mi_key (fst j) = Some (mr_key r)"
    "mi_digest (fst j) = mutation_digest L r"
    "mi_next_status (fst j) = Some (if mr_operation r = Invalidate then Invalidated else Active)"
  using assms by (auto elim!: prepareMutation_Inr simp: mutation_plan_input_def)

lemma prepared_current:
  assumes "prepareMutation L view am r c = Inr j"
  shows "project_at (mr_project r) (mr_project_version r) (view AtCurrent)"
proof -
  obtain cu where cu: "read_current (view AtCurrent) (mr_project r) (mr_memory r) = Some cu"
      "cu_project_version cu = mr_project_version r"
    using assms by (rule prepareMutation_Inr)
  then obtain p where "find (\<lambda>p. p_id p = mr_project r) (t_projects (view AtCurrent)) = Some p"
      "p_version p = cu_project_version cu"
    by (auto simp: read_current_def split: option.splits)
  then show ?thesis using cu(2) by (auto simp: project_at_def dest!: find_SomeD)
qed

section \<open>A mutation is a step of the system\<close>

lemma commitMutation_db: "snd (commitMutation j d) = after_batch (mutation_batch (fst j) (snd j)) d"
  by (auto simp: commitMutation_def after_batch_def split: sum.splits)

text \<open>C6: The request handler refines the abstract system: whenever it decides to write, the plan it
  prepared is one the system may hold in flight at the state of its version read, and whatever
  state the batch later meets, its effect is the system's commit step of that plan. So every
  invariant of the reachable states holds for databases written by the handler.\<close>

theorem mutation_request_refines_system:
  assumes "requestMutation L view am r = Inr (Job j)" and "view AtCurrent = sys_db s"
  shows "sys_step s (s\<lparr>sys_ops := OpMutate j # sys_ops s\<rparr>) \<and>
     (\<forall>t. OpMutate j \<in> set (sys_ops t) \<longrightarrow>
        sys_step t (t\<lparr>sys_db := snd (mutate L view am r (sys_db t)),
                      sys_ops := remove1 (OpMutate j) (sys_ops t)\<rparr>))"
proof -
  obtain c where p: "prepareMutation L view am r c = Inr j"
    using assms(1) by (rule requestMutation_Job)
  have "sys_step s (s\<lparr>sys_ops := OpMutate j # sys_ops s\<rparr>)"
    using prepared_current [OF p] by (intro prepare) (simp_all add: job_fields [OF p] assms(2))
  moreover have "snd (mutate L view am r d) = after_batch (op_batch (OpMutate j)) d" for d
    by (simp add: mutate_def assms(1) commitMutation_db)
  ultimately show ?thesis using commit [of "OpMutate j"] by simp
qed

section \<open>Errors and successes\<close>


lemma mutation_effect:
  assumes run: "run_batch (mutation_batch i evs) d = Inr (d', ns)"
    and cur: "project_at (mi_project i) (mi_project_version i) d"
  shows "(\<exists>n d2. insert_revision (mutation_revision i) d = Inr (d2, n)) \<and>
     (\<exists>n d2. insert_idem (mutation_idem i) d = Inr (d2, n)) \<and>
     t_audits d' = t_audits d @ [mutation_audit i] \<and>
     t_revisions d' = t_revisions d @ [mutation_revision i] \<and>
     t_idems d' = t_idems d @ [mutation_idem i] \<and>
     t_memories d' = update_where (mutation_head_where i) (mutation_head_set i) (t_memories d)"
  by (rule mutation_batch_commit [OF run cur]) auto

text \<open>What a request asks the new revision to hold.\<close>

definition requested_content :: "view \<Rightarrow> mutation_request \<Rightarrow> ustring \<Rightarrow> bool" where
  "requested_content view r content \<longleftrightarrow>
     (case mr_operation r of
        Correct \<Rightarrow> map_of (mr_payload r) (str ''content'') = Some (JStr content) \<and> js_trim content \<noteq> []
      | Invalidate \<Rightarrow> content = tombstone_text
      | Rollback \<Rightarrow> (\<exists>n. map_of (mr_payload r) (str ''memory_version'') = Some (JNum n) \<and> 1 \<le> n \<and>
          (\<exists>v\<in>set (t_revisions (view AtRollback)). v_project v = mr_project r \<and>
             v_memory v = mr_memory r \<and> v_version v = n \<and> v_content v = content)))"

lemma safe_version_Some: "safe_version j = Some n \<longleftrightarrow> j = Some (JNum n) \<and> is_safe_integer n \<and> 1 \<le> n"
  by (cases j rule: safe_version.cases) auto

lemma resolve_requested:
  assumes "resolveMutationRevision (view AtRollback) r cu = Inr rv"
  shows "requested_content view r (rr_content rv)"
proof (cases "mr_operation r")
  case Correct
  with assms show ?thesis
    by (auto simp: resolveMutationRevision_def requested_content_def split: option.splits json.splits if_splits)
next
  case Invalidate
  with assms show ?thesis by (auto simp: resolveMutationRevision_def requested_content_def)
next
  case Rollback
  with assms show ?thesis
    by (auto simp: resolveMutationRevision_def requested_content_def safe_version_Some
        split: option.splits dest!: find_SomeD)
qed

text \<open>C3: A successful mutation that is no replay committed exactly one audited step of the
  request: the audit event names the caller, the operation and the digest of the request at the
  next project version, one revision at the next memory version holds the requested content
  (the submitted text, the tombstone, or the text of the version rolled back to), the head of
  the memory is that revision with the right status, and the reply names both new versions.\<close>

theorem mutation_success_is_the_request:
  assumes "formal_inv d" and "tuples_unique d"
    and "requestMutation L view am r = Inr (Job j)" and "mutate L view am r d = (Inr response, d')"
  shows "response = JObj [(str ''memory_id'', JStr (mr_memory r)),
       (str ''memory_version'', JNum (mr_memory_version r + 1)),
       (str ''project_version'', JNum (mr_project_version r + 1)),
       (str ''revision_id'', JStr (am_revision am))] \<and>
     (\<exists>a v. t_audits d' = t_audits d @ [a] \<and> a_project a = mr_project r \<and>
        a_actor a = mr_actor r \<and> a_type a = operation_name (mr_operation r) \<and>
        a_digest a = mutation_digest L r \<and> a_sequence a = mr_project_version r + 1 \<and>
        t_revisions d' = t_revisions d @ [v] \<and> v_id v = am_revision am \<and>
        v_memory v = mr_memory r \<and> v_version v = mr_memory_version r + 1 \<and>
        requested_content view r (v_content v)) \<and>
     (\<exists>m\<in>set (t_memories d'). m_id m = mr_memory r \<and> m_project m = mr_project r \<and>
        m_version m = mr_memory_version r + 1 \<and> m_revision m = Some (am_revision am) \<and>
        m_status m = (if mr_operation r = Invalidate then Invalidated else Active))"
proof -
  obtain c where p: "prepareMutation L view am r c = Inr j"
    using assms(3) by (rule requestMutation_Job)
  note jf = job_fields [OF p]
  obtain cu rv es where rv: "resolveMutationRevision (view AtRollback) r cu = Inr rv"
      "j = (mutation_plan_input L am r cu rv, es)"
    using p by (rule prepareMutation_Inr)
  have content: "requested_content view r (mi_content (fst j))"
    using resolve_requested [of view r cu rv] rv(1) by (simp add: rv(2) mutation_plan_input_def)
  have com: "commitMutation j d = (Inr response, d')" using assms(3,4) by (simp add: mutate_def)
  obtain ns where resp: "response = mutation_response (fst j)"
    and cur: "project_at (mi_project (fst j)) (mi_project_version (fst j)) d"
    and run: "run_batch (mutation_batch (fst j) (snd j)) d = Inr (d', ns)"
    using commitMutation_cases [OF formal_inv_ids [OF assms(1)] assms(2) com] by auto
  from mutation_effect [OF run cur] have
      r: "\<exists>n d2. insert_revision (mutation_revision (fst j)) d = Inr (d2, n)"
    and au: "t_audits d' = t_audits d @ [mutation_audit (fst j)]"
    and re: "t_revisions d' = t_revisions d @ [mutation_revision (fst j)]"
    and me: "t_memories d' = update_where (mutation_head_where (fst j)) (mutation_head_set (fst j)) (t_memories d)"
    by blast+
  from r obtain m0 where m0: "m0 \<in> set (t_memories d)" "mutation_head_where (fst j) m0"
    by (auto simp: insert_revision_Inr mutation_revision_def mutation_next_memory_def
        mutation_head_where_def)
  have "mutation_head_set (fst j) m0 \<in> set (t_memories d')"
    using m0 by (force simp: me set_update_where)
  then have head: "\<exists>m\<in>set (t_memories d'). m_id m = mr_memory r \<and> m_project m = mr_project r \<and>
        m_version m = mr_memory_version r + 1 \<and> m_revision m = Some (am_revision am) \<and>
        m_status m = (if mr_operation r = Invalidate then Invalidated else Active)"
    using m0(2) by (intro bexI [of _ "mutation_head_set (fst j) m0"])
      (simp_all add: mutation_head_set_def mutation_head_where_def jf mutation_next_memory_def mutation_status_def)
  show ?thesis
    using head content au re resp
    by (simp add: mutation_response_def mutation_audit_def mutation_revision_def jf
        mutation_next_memory_def mutation_next_project_def del: str_eval)
qed


section \<open>Replays\<close>



section \<open>Unauthorised callers\<close>

text \<open>C8: A caller without an active maintainer grant on the named project cannot tell anything from
  the reply: whatever the project (existing or not), the memory, the
  content and the idempotency key of two well-formed requests, both get the same 404 body and
  neither changes the database.\<close>

theorem unauthorised_mutations_are_indistinguishable:
  assumes "mutationSchema L r" and "mutationSchema L r2"
    and "\<not> maintainer_grant (mr_project r) (mr_actor r) (view AtGrant)"
    and "\<not> maintainer_grant (mr_project r2) (mr_actor r2) (view2 AtGrant)"
  shows "http_of rid (fst (mutate L view am r d)) = http_of rid (fst (mutate L view2 am2 r2 d2)) \<and>
     snd (mutate L view am r d) = d \<and> snd (mutate L view2 am2 r2 d2) = d2 \<and>
     (\<exists>b. http_of rid (fst (mutate L view am r d)) = HttpError 404 b \<and> body_code b = PROJECT_UNAVAILABLE)"
proof -
  have "mutate L v a q e = (Inl projectUnavailable, e)"
    if "mutationSchema L q" "\<not> maintainer_grant (mr_project q) (mr_actor q) (v AtGrant)" for v a q e
    using that by (simp add: mutate_def requestMutation_def mutation_gate_def requireProjectMaintainer_def require_def)
  from this [of r view am d] this [of r2 view2 am2 d2] assms show ?thesis
    by (simp add: projectUnavailable_def edge_def)
qed

section \<open>Capacity across interleavings\<close>

lemma change_context_scope:
  assumes "resolveMemoryChangeRepositoryContext d pid mid = Some c"
  shows "\<exists>m\<in>set (t_memories d). m_project m = pid \<and> m_id m = mid \<and> cc_scope_id c = m_scope_id m"
  using assms
  by (auto simp: resolveMemoryChangeRepositoryContext_def session_change_context_def memory_row_def Let_def
      split: option.splits if_splits memory_scope.splits prod.splits dest!: find_SomeD)

text \<open>C7: A correction or rollback whose reply is a success leaves a project whose projection can be
  rebuilt, whatever other requests committed between any two of its reads: the authorisation,
  context, replay, version, rollback, capacity and evidence reads may each see another reachable
  state before the one the batch commits on.\<close>

theorem successful_mutation_fits_projection:
  assumes "formal_inv d0" and "sys_run (fresh_sys d0) t" and "tuples_unique (sys_db t)"
    and "\<And>q. \<exists>s. view q = sys_db s \<and> sys_run (fresh_sys d0) s \<and> sys_run s t"
    and "requestMutation L view am r = Inr (Job j)" and "mr_operation r \<noteq> Invalidate"
    and "mr_memory r \<noteq> []"
    and "mutate L view am r (sys_db t) = (Inr response, d')"
  shows "checkProjectionSnapshotCapacity d' (mr_project r) (mr_project_version r + 1) = Inr True"
proof -
  obtain c where p: "prepareMutation L view am r c = Inr j" and gate: "mutation_gate view r = Inr c"
    using assms(5) by (rule requestMutation_Job)
  note jf = job_fields [OF p]
  obtain cu rv es where cap: "mutation_capacity (view AtCapacity) r c (rr_content rv) = Inr ()"
    and jv: "j = (mutation_plan_input L am r cu rv, es)"
    using p by (rule prepareMutation_Inr)
  have inv: "formal_inv (sys_db t)" using reach_ok [OF assms(1,2)] by (simp add: sys_ok_def)
  note dist = formal_inv_ids [OF inv]
  have com: "commitMutation j (sys_db t) = (Inr response, d')" using assms(5,8) by (simp add: mutate_def)
  obtain ns where cur: "project_at (mi_project (fst j)) (mi_project_version (fst j)) (sys_db t)"
    and run: "run_batch (mutation_batch (fst j) (snd j)) (sys_db t) = Inr (d', ns)"
    using commitMutation_cases [OF dist assms(3) com] by auto
  obtain s where s: "view AtCapacity = sys_db s" "sys_run (fresh_sys d0) s" "sys_run s t" using assms(4) by blast
  obtain s0 where s0: "view AtContext = sys_db s0" "sys_run (fresh_sys d0) s0" "sys_run s0 t" using assms(4) by blast
  have ok: "sys_ok s" "sys_ok s0" using reach_ok [OF assms(1)] s(2) s0(2) by blast+
  have g: "requireFormalProjectionCapacity (sys_db s) (mr_project r) (mr_project_version r) (Some (mr_memory r)) 1
      (int (utf8_length (rr_content rv))) (cc_scope_id c) = Inr ()"
    using cap assms(6) by (simp add: mutation_capacity_def s(1))
  have at_t: "project_at (mr_project r) (mr_project_version r) (sys_db t)" using cur by (simp add: jf)
  obtain m0 where m0: "m0 \<in> set (t_memories (sys_db s0))" "m_project m0 = mr_project r" "m_id m0 = mr_memory r"
      "cc_scope_id c = m_scope_id m0"
    using change_context_scope mutation_gate_Inr [OF gate] by (metis s0(1))
  have "place m0 \<in> set (map place (t_memories (sys_db t)))"
    using sys_run_places [OF s0(3) ok(2)] m0(1) by (metis Un_iff image_eqI list.set_map set_append)
  then obtain m where m: "m \<in> set (t_memories (sys_db t))" "place m = place m0" by auto
  have g': "requireFormalProjectionCapacity (sys_db t) (mi_project (fst j)) (mi_project_version (fst j))
      (Some (mi_memory (fst j))) 1 (int (utf8_length (mi_content (fst j)))) (m_scope_id m) = Inr ()"
    using capacity_guard_at [OF ok(1) s(3) at_t g] m(2) m0(4)
    by (simp add: jf place_def jv mutation_plan_input_def)
  have "checkProjectionSnapshotCapacity d' (mi_project (fst j)) (mi_project_version (fst j) + 1) = Inr True"
    by (rule correction_capacity [OF _ m(1) _ _ _ _ cur run g'])
      (use inv m(2) m0 assms(6,7) in \<open>simp_all add: formal_inv_split place_def jf\<close>)
  then show ?thesis by (simp add: jf)
qed


section \<open>A concrete request\<close>

definition demo_lib :: coord_lib where
  "demo_lib = \<lparr>cl_time = \<lparr>iso_ok = (\<lambda>s. True), date_parse = (\<lambda>s. None)\<rparr>, cl_sha256 = (\<lambda>s. 35 # s),
     cl_uuid = (\<lambda>s. s \<noteq> []), cl_accepts = (\<lambda>s. True), cl_accepts_value = (\<lambda>j. True),
     cl_json_parse = (\<lambda>s. None)\<rparr>"

definition demo_request_of :: "string \<Rightarrow> string \<Rightarrow> mutation_request" where
  "demo_request_of who content =
     \<lparr>mr_operation = Correct, mr_memory = str ''m'', mr_memory_version = 1, mr_project_version = 1,
      mr_project = str ''p'', mr_actor = str who, mr_payload = [(str ''content'', JStr (str content))],
      mr_evidence = [\<lparr>xi_source_type = str ''doc'', xi_locator = str ''l'', xi_commit = None,
        xi_excerpt = None\<rparr>],
      mr_context = None, mr_key = str ''12345678''\<rparr>"

definition demo_ambient :: ambient where
  "demo_ambient = \<lparr>am_now = 20, am_revision = str ''r2'', am_decision = str ''x'', am_memory = str ''m2''\<rparr>"

abbreviation demo_view :: view where
  "demo_view \<equiv> \<lambda>_. demo_db"

definition demo_new :: mutation_request where
  "demo_new = demo_request_of ''u'' ''new''"

fun prepared_job :: "thrown + prepared \<Rightarrow> mutation_job option" where
  "prepared_job (Inr (Job j)) = Some j"
| "prepared_job _ = None"

lemma prepared_job_Some: "prepared_job x = Some j \<longleftrightarrow> x = Inr (Job j)"
  by (cases x rule: prepared_job.cases) auto

lemma demo_new_job:
  obtains j where "requestMutation demo_lib demo_view demo_ambient demo_new = Inr (Job j)"
proof -
  have "prepared_job (requestMutation demo_lib demo_view demo_ambient demo_new) \<noteq> None"
    by code_simp
  then show ?thesis using that by (auto simp: prepared_job_Some)
qed

lemma demo_new_commits:
  obtains j d' where "mutate demo_lib demo_view demo_ambient demo_new demo_db = (Inr j, d')"
proof -
  have "case fst (mutate demo_lib demo_view demo_ambient demo_new demo_db) of Inr j \<Rightarrow> True | Inl e \<Rightarrow> False"
    by code_simp
  then show ?thesis
    using that by (cases "mutate demo_lib demo_view demo_ambient demo_new demo_db") (auto split: sum.splits)
qed

lemma demo_tuples: "tuples_unique demo_db"
  by code_simp

lemma mutation_request_refines_system_witness:
  "\<exists>j. sys_step (fresh_sys demo_db) (fresh_sys demo_db\<lparr>sys_ops := [OpMutate j]\<rparr>)"
proof -
  obtain j where "requestMutation demo_lib demo_view demo_ambient demo_new = Inr (Job j)"
    by (rule demo_new_job)
  from mutation_request_refines_system [OF this, of "fresh_sys demo_db"]
  have "sys_step (fresh_sys demo_db) (fresh_sys demo_db\<lparr>sys_ops := [OpMutate j]\<rparr>)"
    by (simp add: fresh_sys_def)
  then show ?thesis ..
qed



lemma mutation_success_is_the_request_witness:
  "\<exists>j d'. mutate demo_lib demo_view demo_ambient demo_new demo_db = (Inr j, d') \<and>
     (\<exists>m\<in>set (t_memories d'). m_id m = str ''m'' \<and> m_version m = 2 \<and> m_status m = Active)"
proof -
  obtain j where j: "requestMutation demo_lib demo_view demo_ambient demo_new = Inr (Job j)"
    by (rule demo_new_job)
  obtain resp d' where m: "mutate demo_lib demo_view demo_ambient demo_new demo_db = (Inr resp, d')"
    by (rule demo_new_commits)
  from mutation_success_is_the_request [OF demo_inv demo_tuples j m] m show ?thesis
    by (auto simp: demo_new_def demo_request_of_def)
qed


lemma unauthorised_mutations_are_indistinguishable_witness:
  "http_of (str ''r'') (fst (mutate demo_lib demo_view demo_ambient (demo_request_of ''x'' ''a'') demo_db)) =
   http_of (str ''r'') (fst (mutate demo_lib demo_view demo_ambient (demo_request_of ''y'' ''b'') demo_db))"
proof -
  have "mutationSchema demo_lib (demo_request_of ''x'' ''a'')" "mutationSchema demo_lib (demo_request_of ''y'' ''b'')"
    "\<not> maintainer_grant (mr_project (demo_request_of ''x'' ''a'')) (mr_actor (demo_request_of ''x'' ''a'')) demo_db"
    "\<not> maintainer_grant (mr_project (demo_request_of ''y'' ''b'')) (mr_actor (demo_request_of ''y'' ''b'')) demo_db"
    by code_simp+
  then show ?thesis
    using unauthorised_mutations_are_indistinguishable [of demo_lib "demo_request_of ''x'' ''a''"
        "demo_request_of ''y'' ''b''" demo_view demo_view] by blast
qed

lemma successful_mutation_fits_projection_witness:
  "\<exists>response d'. mutate demo_lib demo_view demo_ambient demo_new demo_db = (Inr response, d') \<and>
     checkProjectionSnapshotCapacity d' (str ''p'') 2 = Inr True"
proof -
  obtain j where j: "requestMutation demo_lib demo_view demo_ambient demo_new = Inr (Job j)"
    by (rule demo_new_job)
  obtain resp d' where m: "mutate demo_lib demo_view demo_ambient demo_new demo_db = (Inr resp, d')"
    by (rule demo_new_commits)
  have v: "\<exists>s. demo_view q = sys_db s \<and> sys_run (fresh_sys demo_db) s \<and> sys_run s (fresh_sys demo_db)" for q
    using sys_refl by (intro exI [of _ "fresh_sys demo_db"]) (simp add: fresh_sys_def)
  have m': "mutate demo_lib demo_view demo_ambient demo_new (sys_db (fresh_sys demo_db)) = (Inr resp, d')"
    using m by (simp add: fresh_sys_def)
  have "checkProjectionSnapshotCapacity d' (mr_project demo_new) (mr_project_version demo_new + 1) = Inr True"
    by (rule successful_mutation_fits_projection [OF demo_inv sys_refl _ v j _ _ m'])
      (use demo_tuples in \<open>simp_all add: fresh_sys_def demo_new_def demo_request_of_def\<close>)
  with m show ?thesis by (auto simp: demo_new_def demo_request_of_def)
qed

end
