(* ===== verification/Review_Requests.thy ===== *)
theory Review_Requests
  imports Coordinator_Review Mutation_Requests "HOL-Library.Code_Target_Nat"
begin

text \<open>
  The properties of a candidate review as a whole: the handler refines the abstract system,
  an error leaves the database untouched, an approval admits only safe, cited and owned
  content, and a success is exactly the decision asked for: the approved candidate becomes
  one active memory and can never be reviewed again.
\<close>

section \<open>What a prepared review went through\<close>

fun job_op :: "prepared_review \<Rightarrow> formal_op option" where
  "job_op (ReviewReplay j) = None"
| "job_op (ReviewJob i) = Some (OpReview i)"
| "job_op (PromoteJob i) = Some (OpPromote i)"

fun op_response :: "formal_op \<Rightarrow> json" where
  "op_response (OpMutate j) = mutation_response (fst j)"
| "op_response (OpReview i) = review_response i"
| "op_response (OpPromote i) = promotion_response i"

lemma reviewCandidate_job:
  assumes "requestReview L view am r = Inr p" and "job_op p = Some op"
  shows "reviewCandidate L view am r d = commitReview (op_batch op) (op_response op) d"
  using assms by (cases p) (auto simp: reviewCandidate_def buildCandidateReviewPlan_def)

lemma commitReview_db: "snd (commitReview ss j d) = after_batch ss d"
  by (auto simp: commitReview_def after_batch_def split: sum.splits)

lemma requestReview_job:
  assumes "requestReview L view am r = Inr p" and "job_op p = Some op"
  shows "candidateReviewSchema L r" "maintainer_grant (cq_project r) (cq_actor r) (view AtGrant)"
    "prepareReview L view am r = Inr p"
proof -
  have "\<not> (\<exists>j. p = ReviewReplay j)" using assms(2) by auto
  then show "candidateReviewSchema L r" "maintainer_grant (cq_project r) (cq_actor r) (view AtGrant)"
    "prepareReview L view am r = Inr p"
    using assms(1) by (auto simp: requestReview_def bind_res_Inr_iff requireProjectMaintainer_def
        split: option.splits)
qed

lemma prepareReview_Inr:
  assumes "prepareReview L view am r = Inr p"
  obtains rc request where
    "read_candidate (view AtCurrent) (cq_project r) (cq_candidate r) = Some rc"
    "c_version (rc_candidate rc) = cq_version r" "reviewable (c_status (rc_candidate rc))"
    "rc_request rc = Some request"
    "case cq_decision r of
       Approve \<Rightarrow> (\<exists>i. p = PromoteJob i \<and> prepareApproval L view am r rc request = Inr i)
     | Reject \<Rightarrow> p = ReviewJob (decision_input L am r rc request RejectCandidate)
     | AskChanges \<Rightarrow> p = ReviewJob (decision_input L am r rc request RequestCandidateChanges)"
proof -
  obtain rc where rc: "read_candidate (view AtCurrent) (cq_project r) (cq_candidate r) = Some rc"
    using assms by (auto simp: prepareReview_def split: option.splits)
  have v: "c_version (rc_candidate rc) = cq_version r \<and> reviewable (c_status (rc_candidate rc))"
  proof (rule ccontr)
    assume "\<not> ?thesis"
    then have "prepareReview L view am r = Inl staleCandidate" by (auto simp: prepareReview_def rc)
    with assms show False by simp
  qed
  obtain request where rq: "rc_request rc = Some request"
    using assms v by (auto simp: prepareReview_def rc split: option.splits)
  have "case cq_decision r of
       Approve \<Rightarrow> (\<exists>i. p = PromoteJob i \<and> prepareApproval L view am r rc request = Inr i)
     | Reject \<Rightarrow> p = ReviewJob (decision_input L am r rc request RejectCandidate)
     | AskChanges \<Rightarrow> p = ReviewJob (decision_input L am r rc request RequestCandidateChanges)"
    using assms v by (auto simp: prepareReview_def rc rq map_sum_def split: review_verdict.splits sum.splits)
  with rc v rq that show ?thesis by blast
qed

lemma read_candidate_Some:
  assumes "read_candidate d pid cid = Some rc"
  shows "project_at pid (rc_project_version rc) d" "rc_candidate rc \<in> set (t_observations d)"
    "c_project (rc_candidate rc) = pid" "c_id (rc_candidate rc) = cid"
  using assms by (auto simp: read_candidate_def project_at_def split: option.splits dest!: find_SomeD)

lemma prepareApproval_Inr:
  assumes "prepareApproval L view am r rc request = Inr i"
  obtains af ow cited es repo where
    "approval_fields_of L (cq_edits r) (rc_candidate rc) = Inr af"
    "resolveScopeRepositoryOwnership (view AtContext) (cq_project r) (af_scope af) (af_scope_id af) = Some ow"
    "requireCandidateCitedEvidenceIds L (c_analysis (rc_candidate rc)) (cq_edits r) = Inr cited"
    "cited_evidence (candidate_clear_evidence (view AtEvidence) (cq_project r) (cq_candidate r) cited) cited = Inr es"
    "requireCandidatePromotionProvenance (provenance_of af ow rc es) = Inr repo"
    "isValidValidityInterval (cl_time L) (af_from af) (af_until af)"
    "requireFormalProjectionCapacity (view AtCapacity) (cq_project r) (rc_project_version rc) None 1
       (int (utf8_length (af_content af))) (af_scope_id af) = Inr ()"
    "i = approval_input L am r rc request af repo es"
proof -
  obtain af where af: "approval_fields_of L (cq_edits r) (rc_candidate rc) = Inr af"
    using assms by (auto simp: prepareApproval_def bind_res_Inr_iff)
  obtain ow where ow: "resolveScopeRepositoryOwnership (view AtContext) (cq_project r) (af_scope af) (af_scope_id af) = Some ow"
    using assms by (auto simp: prepareApproval_def bind_res_Inr_iff af split: option.splits)
  show ?thesis
    using assms that [OF af ow]
    by (auto simp: prepareApproval_def bind_res_Inr_iff af ow)
qed

text \<open>Every job was prepared for a version at which its candidate was open.\<close>

lemma prepared_job:
  assumes "prepareReview L view am r = Inr p" and "job_op p = Some op"
  shows "op_project op = cq_project r" "project_at (op_project op) (op_version op) (view AtCurrent)"
    "op_ready op (view AtCurrent)"
proof -
  obtain rc request where rc: "read_candidate (view AtCurrent) (cq_project r) (cq_candidate r) = Some rc"
      "c_version (rc_candidate rc) = cq_version r" "reviewable (c_status (rc_candidate rc))"
    and job: "case cq_decision r of
       Approve \<Rightarrow> (\<exists>i. p = PromoteJob i \<and> prepareApproval L view am r rc request = Inr i)
     | Reject \<Rightarrow> p = ReviewJob (decision_input L am r rc request RejectCandidate)
     | AskChanges \<Rightarrow> p = ReviewJob (decision_input L am r rc request RequestCandidateChanges)"
    using assms(1) by (rule prepareReview_Inr)
  note row = read_candidate_Some [OF rc(1)]
  have op: "candidate_open (cq_project r) (cq_candidate r) (cq_version r) (view AtCurrent)"
    using row rc(2,3) by (auto simp: candidate_open_def)
  have pro: "\<exists>af repo es. i = approval_input L am r rc request af repo es"
    if "prepareApproval L view am r rc request = Inr i" for i
    using that by (rule prepareApproval_Inr) blast
  have "op_project op = cq_project r \<and> op_version op = rc_project_version rc \<and> op_ready op (view AtCurrent)"
    using job assms(2) op
    by (auto split: review_verdict.splits dest!: pro
        simp: decision_input_def approval_input_def review_ready_def promotion_ready_def)
  with row(1) show "op_project op = cq_project r" "project_at (op_project op) (op_version op) (view AtCurrent)"
    "op_ready op (view AtCurrent)" by simp_all
qed

section \<open>Properties\<close>

text \<open>C18: A candidate review refines the abstract system: the plan it prepares, a promotion for an
  approval and a decision otherwise, is one the system may hold in flight at the state of its
  candidate read, and its effect on any later state is the system's commit step of that plan.\<close>

theorem review_request_refines_system:
  assumes "requestReview L view am r = Inr p" and "job_op p = Some op" and "view AtCurrent = sys_db s"
  shows "sys_step s (s\<lparr>sys_ops := op # sys_ops s\<rparr>) \<and>
     (\<forall>t. op \<in> set (sys_ops t) \<longrightarrow>
        sys_step t (t\<lparr>sys_db := snd (reviewCandidate L view am r (sys_db t)),
                      sys_ops := remove1 op (sys_ops t)\<rparr>))"
proof -
  note p = requestReview_job(3) [OF assms(1,2)]
  have "sys_step s (s\<lparr>sys_ops := op # sys_ops s\<rparr>)"
    using prepared_job [OF p assms(2)] assms(3) by (intro prepare) simp_all
  moreover have "snd (reviewCandidate L view am r d) = after_batch (op_batch op) d" for d
    by (simp add: reviewCandidate_job [OF assms(1,2)] commitReview_db)
  ultimately show ?thesis using commit [of op] by simp
qed

lemma commitReview_cases:
  assumes ok: "sys_ok t" and fl: "op \<in> set (sys_ops t)"
    and c: "commitReview (op_batch op) (op_response op) (sys_db t) = (res, d')"
  obtains e where "res = Inl e" "d' = sys_db t"
  | ns where "res = Inr (op_response op)" "project_at (op_project op) (op_version op) (sys_db t)"
      "op_ready op (sys_db t)" "run_batch (op_batch op) (sys_db t) = Inr (d', ns)"
proof (cases "run_batch (op_batch op) (sys_db t)")
  case (Inl a)
  with c that(1) show ?thesis by (auto simp: commitReview_def)
next
  case (Inr x)
  have inv: "formal_inv (sys_db t)" and snd: "op_sound (sys_db t) op" using ok fl by (auto simp: sys_ok_def)
  note dist = formal_inv_ids [OF inv] and rdy = op_sound_ready [OF inv snd]
  obtain d1 ns where run: "run_batch (op_batch op) (sys_db t) = Inr (d1, ns)" using Inr by (cases x) simp
  note iff = fop.last_count_iff [OF dist run rdy]
  show ?thesis
  proof (cases "project_at (op_project op) (op_version op) (sys_db t)")
    case True
    with c run iff that(2) rdy show ?thesis by (auto simp: commitReview_def)
  next
    case False
    then have "d1 = sys_db t" using fop.idle [OF False] run by simp
    with c run False iff that(1) show ?thesis by (auto simp: commitReview_def)
  qed
qed



section \<open>Admission of an approval\<close>

lemma select_evidence_Inr:
  "select_evidence rows ids = Inr es \<Longrightarrow>
     map e_id es = ids \<and> (\<forall>e\<in>set es. e \<in> set rows)"
  by (induction ids arbitrary: es)
    (auto simp: bind_res_Inr_iff split: option.splits dest!: find_SomeD)

lemma cited_evidence_Inr:
  assumes "cited_evidence rows cited = Inr es"
  shows "es \<noteq> []" "length es \<le> 50" "\<forall>e\<in>set es. e \<in> set rows"
    "cited = Some ids \<Longrightarrow> map e_id es = ids"
proof -
  have sel: "select_evidence rows (case cited of None \<Rightarrow> map e_id rows | Some ids \<Rightarrow> ids) = Inr es"
    and len: "length (case cited of None \<Rightarrow> map e_id rows | Some ids \<Rightarrow> ids) \<noteq> 0"
      "length (case cited of None \<Rightarrow> map e_id rows | Some ids \<Rightarrow> ids) \<le> 50"
    using assms by (simp_all add: cited_evidence_def Let_def split: if_splits)
  note m = select_evidence_Inr [OF sel]
  then have "length es = length (case cited of None \<Rightarrow> map e_id rows | Some ids \<Rightarrow> ids)"
    by (metis length_map)
  with m len show "es \<noteq> []" "length es \<le> 50" "\<forall>e\<in>set es. e \<in> set rows"
    "cited = Some ids \<Longrightarrow> map e_id es = ids" by auto
qed

lemma approval_fields_safe: "approval_fields_of L e c = Inr af \<Longrightarrow>
    cl_accepts L (af_content af) \<and> js_trim (af_scope_id af) \<noteq> []"
  by (auto simp: approval_fields_of_def split: option.splits if_splits)

text \<open>The text an approval publishes: the maintainer's edit, else the reviewed text, else the
  submitted one.\<close>

lemma approval_fields_content: "approval_fields_of L e c = Inr af \<Longrightarrow>
    first_some (edit_of ed_content e) (first_some (c_reviewed_content c) (c_content c)) = Some (af_content af)"
  by (auto simp: approval_fields_of_def split: option.splits if_splits)

text \<open>C10: What an approval admits into formal memory: only a maintainer's request, about text that
  passed the content inspection, with between 1 and 50 evidence records that are all clear and
  attached to that candidate, exactly the cited ones where the analysis cites, and only into a
  scope whose owner is the repository the provenance gate returned (none for project scope).\<close>

theorem approval_admission:
  assumes "requestReview L view am r = Inr (PromoteJob i)"
  shows "maintainer_grant (cq_project r) (cq_actor r) (view AtGrant) \<and> cq_decision r = Approve \<and>
     cl_accepts L (pi_content i) \<and> pi_evidence i \<noteq> [] \<and> length (pi_evidence i) \<le> 50 \<and>
     (\<forall>p\<in>set (pi_evidence i). \<exists>e\<in>set (t_evidence (view AtEvidence)).
        p = promotion_evidence_of e \<and> e_project e = cq_project r \<and> e_sensitivity e = Clear \<and>
        (cq_project r, cq_candidate r, e_id e) \<in> set (t_candidate_evidence (view AtEvidence))) \<and>
     (\<exists>rc. read_candidate (view AtCurrent) (cq_project r) (cq_candidate r) = Some rc \<and>
        (\<forall>raw ids. c_analysis (rc_candidate rc) = Some raw \<and>
           Option.bind (cl_json_parse L raw) candidateReviewEvidenceSchema = Some ids \<longrightarrow>
           map pe_id (pi_evidence i) = ids)) \<and>
     (\<exists>ow. resolveScopeRepositoryOwnership (view AtContext) (cq_project r) (pi_scope i) (pi_scope_id i) = Some ow \<and>
        (if pi_scope i = ScopeProject then pi_repository i = None
         else pi_repository i = own_repository ow \<and> pi_repository i \<noteq> None))"
proof -
  note q = requestReview_job(2,3) [OF assms job_op.simps(3)]
  obtain rc request where rc: "read_candidate (view AtCurrent) (cq_project r) (cq_candidate r) = Some rc"
    and "case cq_decision r of
       Approve \<Rightarrow> (\<exists>i'. PromoteJob i = PromoteJob i' \<and> prepareApproval L view am r rc request = Inr i')
     | Reject \<Rightarrow> PromoteJob i = ReviewJob (decision_input L am r rc request RejectCandidate)
     | AskChanges \<Rightarrow> PromoteJob i = ReviewJob (decision_input L am r rc request RequestCandidateChanges)"
    using q(2) by (rule prepareReview_Inr)
  then have dec: "cq_decision r = Approve" and pa: "prepareApproval L view am r rc request = Inr i"
    by (auto split: review_verdict.splits)
  obtain af ow cited es repo where af: "approval_fields_of L (cq_edits r) (rc_candidate rc) = Inr af"
    and ow: "resolveScopeRepositoryOwnership (view AtContext) (cq_project r) (af_scope af) (af_scope_id af) = Some ow"
    and cited: "requireCandidateCitedEvidenceIds L (c_analysis (rc_candidate rc)) (cq_edits r) = Inr cited"
    and es: "cited_evidence (candidate_clear_evidence (view AtEvidence) (cq_project r) (cq_candidate r) cited) cited = Inr es"
    and repo: "requireCandidatePromotionProvenance (provenance_of af ow rc es) = Inr repo"
    and i: "i = approval_input L am r rc request af repo es"
    using pa by (rule prepareApproval_Inr)
  have fields: "pi_content i = af_content af" "pi_evidence i = map promotion_evidence_of es"
    "pi_scope i = af_scope af" "pi_scope_id i = af_scope_id af" "pi_repository i = repo"
    by (simp_all add: i approval_input_def)
  note ce = cited_evidence_Inr [OF es]
  have rows: "e \<in> set (t_evidence (view AtEvidence)) \<and> e_project e = cq_project r \<and> e_sensitivity e = Clear \<and>
      (cq_project r, cq_candidate r, e_id e) \<in> set (t_candidate_evidence (view AtEvidence))"
    if "e \<in> set es" for e
    using ce(3) that by (auto simp: candidate_clear_evidence_def dest!: in_set_takeD)
  have ids: "map pe_id (pi_evidence i) = ids" if "c_analysis (rc_candidate rc) = Some raw"
      "Option.bind (cl_json_parse L raw) candidateReviewEvidenceSchema = Some ids" for raw ids
  proof -
    have "cited = Some ids" using cited that by (simp add: requireCandidateCitedEvidenceIds_def)
    then have "map e_id es = ids" by (rule ce(4))
    then show ?thesis by (simp add: fields promotion_evidence_of_def comp_def)
  qed
  have own: "if af_scope af = ScopeProject then repo = None else repo = own_repository ow \<and> repo \<noteq> None"
    using repo by (auto simp: promotion_provenance_iff provenance_of_def split: if_splits)
  show ?thesis
    using q(1) dec approval_fields_safe [OF af] ce(1,2) rows rc ids own ow by (auto simp: fields)
qed


section \<open>What a committed review leaves\<close>

text \<open>A candidate that was promoted stays so: no batch and no outside write reopens it.\<close>

lemma op_observations:
  assumes cur: "project_at (op_project op) (op_version op) d" and rdy: "op_ready op d"
    and run: "run_batch (op_batch op) d = Inr (d', ns)"
  obtains q f where "t_observations d' = update_where q f (t_observations d)"
    "\<And>c. q c \<Longrightarrow> reviewable (c_status c)" "\<And>c. c_id (f c) = c_id c"
proof (cases op)
  case (OpMutate j)
  have "t_observations d' = update_where (\<lambda>c. False) id (t_observations d)"
    using run cur unfolding OpMutate by (auto elim!: mutation_batch_commit simp: update_where_none)
  then show ?thesis by (rule that) auto
next
  case (OpReview i)
  have g: "review_guard i d"
    using cur rdy by (simp add: OpReview review_guard_def review_ready_def)
  have "t_observations d' = update_where (candidate_where (ri_project i) (ri_candidate i) (ri_candidate_version i))
      (review_candidate_set i) (t_observations d)"
    using run g unfolding OpReview by (auto elim!: review_batch_commit)
  then show ?thesis by (rule that) (auto simp: candidate_where_def review_candidate_set_def)
next
  case (OpPromote i)
  have g: "promotion_guard i d"
    using cur rdy by (simp add: OpPromote promotion_guard_def promotion_ready_def)
  have "t_observations d' = update_where (candidate_where (pi_project i) (pi_candidate i) (pi_candidate_version i))
      (promotion_candidate_set i) (t_observations d)"
    using run g unfolding OpPromote by (auto simp: promotion_effect_def elim!: promotion_batch_commit)
  then show ?thesis by (rule that) (auto simp: candidate_where_def promotion_candidate_set_def)
qed

definition settled :: "ustring \<Rightarrow> db \<Rightarrow> bool" where
  "settled cid d \<longleftrightarrow> distinct (map c_id (t_observations d)) \<and>
     (\<exists>c\<in>set (t_observations d). c_id c = cid \<and> c_status c = Promoted)"

lemma settled_update:
  assumes "settled cid d" and "t_observations d' = update_where q f (t_observations d)"
    and "\<And>c. q c \<Longrightarrow> c_status c \<noteq> Promoted" and "\<And>c. c_id (f c) = c_id c"
  shows "settled cid d'"
proof -
  obtain c where c: "c \<in> set (t_observations d)" "c_id c = cid" "c_status c = Promoted"
    using assms(1) by (auto simp: settled_def)
  then have "c \<in> set (t_observations d')"
    using assms(2,3) by (force simp: set_update_where)
  moreover have "map c_id (t_observations d') = map c_id (t_observations d)"
    unfolding assms(2) by (rule map_update_where) (rule assms(4))
  ultimately show ?thesis using assms(1) c by (auto simp: settled_def)
qed

lemma settled_cong: "t_observations d' = t_observations d \<Longrightarrow> settled cid d' = settled cid d"
  by (simp add: settled_def)

lemma settled_step:
  assumes "sys_step s t" and "sys_ok s" and "settled cid (sys_db s)"
  shows "settled cid (sys_db t)"
  using assms(1)
proof cases
  case (commit op)
  let ?d = "sys_db s" and ?d' = "after_batch (op_batch op) (sys_db s)"
  have inv: "formal_inv ?d" and snd: "op_sound ?d op"
    using assms commit by (auto simp: sys_ok_def)
  note rdy = op_sound_ready [OF inv snd]
  show ?thesis
  proof (cases "?d' = ?d")
    case False
    then have cur: "project_at (op_project op) (op_version op) ?d" using fop.effect_cases [of op ?d] rdy by blast
    obtain ns where run: "run_batch (op_batch op) ?d = Inr (?d', ns)"
      using False by (auto simp: after_batch_def split: sum.splits)
    obtain q f where "t_observations ?d' = update_where q f (t_observations ?d)"
      "\<And>c. q c \<Longrightarrow> reviewable (c_status c)" "\<And>c. c_id (f c) = c_id c"
      using op_observations [OF cur rdy [OF cur] run] by blast
    from settled_update [OF assms(3) this(1) _ this(3)] this(2) commit show ?thesis
      by (force simp: reviewable_def)
  qed (use commit assms in simp)
next
  case (outside d')
  show ?thesis using outside(2)
  proof cases
    case (intake c)
    then show ?thesis using assms(3) outside by (auto simp: settled_def)
  next
    case (analysis q f n)
    then have obs: "t_observations d' = update_where q f (t_observations (sys_db s))"
      by (simp add: update_candidates_Inr)
    have "settled cid d'" by (rule settled_update [OF assms(3) obs]) (use analysis in auto)
    then show ?thesis using outside by simp
  qed (use assms(3) outside in \<open>simp_all add: settled_def\<close>)
qed (use assms in simp_all)

lemma settled_run: "sys_run s t \<Longrightarrow> sys_ok s \<Longrightarrow> settled cid (sys_db s) \<Longrightarrow> settled cid (sys_db t)"
proof (induction rule: sys_run.induct)
  case (sys_trans s t u)
  then show ?case using settled_step sys_ok_run by blast
qed

lemma settled_closed: "settled cid d \<Longrightarrow> \<not> candidate_open pid cid ver d"
proof
  assume st: "settled cid d" and "candidate_open pid cid ver d"
  then obtain c b where "c \<in> set (t_observations d)" "c_id c = cid" "reviewable (c_status c)"
      "b \<in> set (t_observations d)" "c_id b = cid" "c_status b = Promoted"
    by (auto simp: settled_def candidate_open_def)
  moreover from this have "b = c" using st distinct_map_unique [of c_id "t_observations d" b c]
    by (simp add: settled_def)
  ultimately show False by (simp add: reviewable_def)
qed

lemma promotion_run_effect:
  assumes "promotion_guard i d" and "run_batch (promotion_statements i) d = Inr (d', ns)"
  shows "\<forall>k\<in>set (t_memories d). m_id k \<noteq> pi_memory i"
    "\<exists>cs es ls. d' = promotion_effect i cs es ls d"
  by (rule promotion_batch_commit [OF assms(2,1)], blast)+

text \<open>C9: A successful approval turns the candidate into exactly one formal memory: an active head at
  version 1 in the requested scope, whose only revision holds the approved text and names the
  candidate as its source; the reply names them. The candidate is promoted, and in no state
  reachable from there is it open for review again, at any version.\<close>

theorem approved_candidate_becomes_memory:
  assumes "formal_inv d0" and "sys_run (fresh_sys d0) t" and "distinct (map c_id (t_observations (sys_db t)))"
    and "requestReview L view am r = Inr (PromoteJob i)" and "OpPromote i \<in> set (sys_ops t)"
    and "reviewCandidate L view am r (sys_db t) = (Inr response, d')"
  shows "response = promotion_response i \<and>
     (\<exists>m\<in>set (t_memories d'). m_id m = pi_memory i \<and> m_project m = cq_project r \<and> m_status m = Active \<and>
        m_version m = 1 \<and> m_scope m = pi_scope i \<and> m_scope_id m = pi_scope_id i \<and>
        m_revision m = Some (pi_revision i)) \<and>
     (\<exists>v. t_revisions d' = t_revisions (sys_db t) @ [v] \<and> v_id v = pi_revision i \<and>
        v_memory v = pi_memory i \<and> v_content v = pi_content i \<and> v_source v = Some (cq_candidate r)) \<and>
     (\<forall>u. sys_run (t\<lparr>sys_db := d', sys_ops := remove1 (OpPromote i) (sys_ops t)\<rparr>) u \<longrightarrow>
        (\<forall>pid ver. \<not> candidate_open pid (cq_candidate r) ver (sys_db u)))"
proof -
  note q = requestReview_job(3) [OF assms(4) job_op.simps(3)]
  have ids: "pi_project i = cq_project r \<and> pi_candidate i = cq_candidate r"
    using q by (auto elim!: prepareReview_Inr prepareApproval_Inr split: review_verdict.splits
        simp: approval_input_def)
  have ok: "sys_ok t" by (rule reach_ok [OF assms(1,2)])
  have com: "commitReview (op_batch (OpPromote i)) (op_response (OpPromote i)) (sys_db t) = (Inr response, d')"
    using assms(6) reviewCandidate_job [OF assms(4) job_op.simps(3)] by simp
  obtain ns where resp: "response = promotion_response i"
    and cur: "project_at (op_project (OpPromote i)) (op_version (OpPromote i)) (sys_db t)"
    and rdy: "op_ready (OpPromote i) (sys_db t)"
    and run: "run_batch (op_batch (OpPromote i)) (sys_db t) = Inr (d', ns)"
    using commitReview_cases [OF ok assms(5) com] by auto
  have g: "promotion_guard i (sys_db t)"
    using cur rdy by (simp add: promotion_guard_def promotion_ready_def)
  from run have run': "run_batch (promotion_statements i) (sys_db t) = Inr (d', ns)" by simp
  note fx = promotion_run_effect [OF g run']
  then obtain cs es ls where d': "d' = promotion_effect i cs es ls (sys_db t)" by blast
  have "promotion_head_set i (promotion_memory i) \<in> set (t_memories d')"
    by (simp add: d' promotion_effect_def promotion_head_where_def promotion_memory_def)
  then have mem: "\<exists>m\<in>set (t_memories d'). m_id m = pi_memory i \<and> m_project m = cq_project r \<and> m_status m = Active \<and>
        m_version m = 1 \<and> m_scope m = pi_scope i \<and> m_scope_id m = pi_scope_id i \<and>
        m_revision m = Some (pi_revision i)"
    by (rule bexI [rotated]) (simp add: promotion_head_set_def promotion_memory_def ids)
  have rev: "\<exists>v. t_revisions d' = t_revisions (sys_db t) @ [v] \<and> v_id v = pi_revision i \<and>
        v_memory v = pi_memory i \<and> v_content v = pi_content i \<and> v_source v = Some (cq_candidate r)"
    by (simp add: d' promotion_effect_def promotion_revision_def ids)
  obtain c where c: "c \<in> set (t_observations (sys_db t))"
      "candidate_where (pi_project i) (pi_candidate i) (pi_candidate_version i) c"
    using g by (auto simp: promotion_guard_def candidate_open_iff_where)
  let ?w = "update_where (candidate_where (pi_project i) (pi_candidate i) (pi_candidate_version i))
      (promotion_candidate_set i)"
  have obs: "t_observations d' = ?w (t_observations (sys_db t))"
    by (simp add: d' promotion_effect_def)
  have "map c_id (?w xs) = map c_id xs" for xs
    by (rule map_update_where) (simp add: promotion_candidate_set_def)
  moreover have "promotion_candidate_set i c \<in> set (t_observations d')"
    using c by (force simp: obs set_update_where)
  ultimately have st: "settled (cq_candidate r) d'"
    using assms(3) c(2) unfolding settled_def
    by (intro conjI bexI [of _ "promotion_candidate_set i c"])
      (simp_all add: obs, simp_all add: promotion_candidate_set_def candidate_where_def ids)
  let ?t' = "t\<lparr>sys_db := d', sys_ops := remove1 (OpPromote i) (sys_ops t)\<rparr>"
  have "d' = after_batch (op_batch (OpPromote i)) (sys_db t)" using run by (simp add: after_batch_def)
  then have "sys_ok ?t'" using sys_ok_step [OF commit [OF assms(5)] ok] by simp
  then have "\<not> candidate_open pid (cq_candidate r) ver (sys_db u)" if "sys_run ?t' u" for u pid ver
    using settled_closed settled_run [OF that] st by simp
  with mem rev resp show ?thesis by blast
qed


lemma review_run_effect:
  assumes "review_guard i d" and "run_batch (review_statements i) d = Inr (d', ns)"
  shows "t_memories d' = t_memories d \<and> t_revisions d' = t_revisions d \<and> t_contexts d' = t_contexts d \<and>
     t_observations d' = update_where (candidate_where (ri_project i) (ri_candidate i) (ri_candidate_version i))
       (review_candidate_set i) (t_observations d)"
  by (rule review_batch_commit [OF assms(2,1)]) simp

text \<open>C16: A successful rejection or request for changes touches no formal memory: memories, revisions
  and repository contexts are as before. The candidate moves to the next version; a rejection
  closes it, a request for changes leaves it open for a further review at that version, with the
  maintainer's text as its reviewed content when one was given.\<close>

theorem review_decision_effect:
  assumes "formal_inv d0" and "sys_run (fresh_sys d0) t" and "distinct (map c_id (t_observations (sys_db t)))"
    and "requestReview L view am r = Inr (ReviewJob i)" and "OpReview i \<in> set (sys_ops t)"
    and "reviewCandidate L view am r (sys_db t) = (Inr response, d')"
  shows "response = review_response i \<and> t_memories d' = t_memories (sys_db t) \<and>
     t_revisions d' = t_revisions (sys_db t) \<and> t_contexts d' = t_contexts (sys_db t) \<and>
     (\<exists>c\<in>set (t_observations d'). c_project c = cq_project r \<and> c_id c = cq_candidate r \<and>
        c_version c = cq_version r + 1 \<and>
        c_status c = (if cq_decision r = AskChanges then RequestChanges else Rejected) \<and>
        (\<forall>x. cq_decision r = AskChanges \<and> edit_of ed_content (cq_edits r) = Some x \<longrightarrow>
           c_reviewed_content c = Some x)) \<and>
     (candidate_open (cq_project r) (cq_candidate r) (cq_version r + 1) d' \<longleftrightarrow> cq_decision r = AskChanges)"
proof -
  note q = requestReview_job(3) [OF assms(4) job_op.simps(2)]
  obtain rc request where dec: "i = decision_input L am r rc request RejectCandidate \<and> cq_decision r = Reject \<or>
      i = decision_input L am r rc request RequestCandidateChanges \<and> cq_decision r = AskChanges"
    using q by (rule prepareReview_Inr) (auto split: review_verdict.splits)
  have ids: "ri_project i = cq_project r" "ri_candidate i = cq_candidate r" "ri_candidate_version i = cq_version r"
    and out: "outcome_status (ri_outcome i) = (if cq_decision r = AskChanges then RequestChanges else Rejected)"
    and edit: "cq_decision r = AskChanges \<Longrightarrow> ri_content i = edit_of ed_content (cq_edits r)"
    using dec by (auto simp: decision_input_def)
  have com: "commitReview (op_batch (OpReview i)) (op_response (OpReview i)) (sys_db t) = (Inr response, d')"
    using assms(6) reviewCandidate_job [OF assms(4) job_op.simps(2)] by simp
  obtain ns where resp: "response = review_response i"
    and cur: "project_at (op_project (OpReview i)) (op_version (OpReview i)) (sys_db t)"
    and rdy: "op_ready (OpReview i) (sys_db t)"
    and run: "run_batch (op_batch (OpReview i)) (sys_db t) = Inr (d', ns)"
    using commitReview_cases [OF reach_ok [OF assms(1,2)] assms(5) com] by auto
  have g: "review_guard i (sys_db t)" using cur rdy by (simp add: review_guard_def review_ready_def)
  from run have run': "run_batch (review_statements i) (sys_db t) = Inr (d', ns)" by simp
  note fx = review_run_effect [OF g run']
  let ?q = "candidate_where (ri_project i) (ri_candidate i) (ri_candidate_version i)"
  obtain c where c: "c \<in> set (t_observations (sys_db t))" "?q c"
    using g by (auto simp: review_guard_def candidate_open_iff_where)
  have mem: "review_candidate_set i c \<in> set (t_observations d')"
    using c fx by (force simp: set_update_where)
  have ids': "map c_id (update_where ?q (review_candidate_set i) xs) = map c_id xs" for xs
    by (rule map_update_where) (simp add: review_candidate_set_def)
  have dist: "distinct (map c_id (t_observations d'))" using assms(3) fx ids' by simp
  have only: "b = review_candidate_set i c" if "b \<in> set (t_observations d')" "c_id b = cq_candidate r" for b
    using distinct_map_unique [OF dist that(1) mem] that(2) c(2)
    by (simp add: review_candidate_set_def candidate_where_def ids)
  have row: "c_project (review_candidate_set i c) = cq_project r" "c_id (review_candidate_set i c) = cq_candidate r"
      "c_version (review_candidate_set i c) = cq_version r + 1"
      "c_status (review_candidate_set i c) = (if cq_decision r = AskChanges then RequestChanges else Rejected)"
    using c(2) by (simp_all add: review_candidate_set_def candidate_where_def ids out)
  have "candidate_open (cq_project r) (cq_candidate r) (cq_version r + 1) d' \<longleftrightarrow> cq_decision r = AskChanges"
  proof
    assume "candidate_open (cq_project r) (cq_candidate r) (cq_version r + 1) d'"
    then obtain b where "b \<in> set (t_observations d')" "c_id b = cq_candidate r" "reviewable (c_status b)"
      by (auto simp: candidate_open_def)
    with only [of b] row(4) show "cq_decision r = AskChanges" by (simp add: reviewable_def split: if_splits)
  next
    assume "cq_decision r = AskChanges"
    with mem row show "candidate_open (cq_project r) (cq_candidate r) (cq_version r + 1) d'"
      unfolding candidate_open_def reviewable_def by (intro bexI [of _ "review_candidate_set i c"]) simp_all
  qed
  moreover have "\<exists>b\<in>set (t_observations d'). c_project b = cq_project r \<and> c_id b = cq_candidate r \<and>
        c_version b = cq_version r + 1 \<and>
        c_status b = (if cq_decision r = AskChanges then RequestChanges else Rejected) \<and>
        (\<forall>x. cq_decision r = AskChanges \<and> edit_of ed_content (cq_edits r) = Some x \<longrightarrow>
           c_reviewed_content b = Some x)"
    using mem row edit by (intro bexI [of _ "review_candidate_set i c"])
      (simp_all add: review_candidate_set_def)
  ultimately show ?thesis using fx resp by blast
qed

text \<open>A successful approval leaves a project whose projection can be rebuilt, whatever other
  requests committed between any two of its reads.\<close>

theorem approved_memory_fits_projection:
  assumes "formal_inv d0" and "sys_run (fresh_sys d0) t" and "am_memory am \<noteq> []"
    and "\<And>q. \<exists>s. view q = sys_db s \<and> sys_run (fresh_sys d0) s \<and> sys_run s t"
    and "requestReview L view am r = Inr (PromoteJob i)" and "OpPromote i \<in> set (sys_ops t)"
    and "reviewCandidate L view am r (sys_db t) = (Inr response, d')"
  shows "checkProjectionSnapshotCapacity d' (pi_project i) (pi_project_version i + 1) = Inr True"
proof -
  note q = requestReview_job(3) [OF assms(5) job_op.simps(3)]
  obtain rc request where pa: "prepareApproval L view am r rc request = Inr i"
    using q by (rule prepareReview_Inr) (auto split: review_verdict.splits)
  obtain af repo es where cap: "requireFormalProjectionCapacity (view AtCapacity) (cq_project r) (rc_project_version rc) None 1
       (int (utf8_length (af_content af))) (af_scope_id af) = Inr ()"
    and i: "i = approval_input L am r rc request af repo es"
    using pa by (rule prepareApproval_Inr)
  note ok = reach_ok [OF assms(1,2)]
  have inv: "formal_inv (sys_db t)" using ok by (simp add: sys_ok_def)
  have com: "commitReview (op_batch (OpPromote i)) (op_response (OpPromote i)) (sys_db t) = (Inr response, d')"
    using assms(7) reviewCandidate_job [OF assms(5) job_op.simps(3)] by simp
  obtain ns where cur: "project_at (pi_project i) (pi_project_version i) (sys_db t)"
    and rdy: "promotion_ready i (sys_db t)"
    and run: "run_batch (promotion_statements i) (sys_db t) = Inr (d', ns)"
    using commitReview_cases [OF ok assms(6) com] by auto
  obtain s where s: "view AtCapacity = sys_db s" "sys_run (fresh_sys d0) s" "sys_run s t" using assms(4) by blast
  have oks: "sys_ok s" by (rule reach_ok [OF assms(1) s(2)])
  have g: "requireFormalProjectionCapacity (sys_db s) (pi_project i) (pi_project_version i) None 1
       (int (utf8_length (pi_content i))) (pi_scope_id i) = Inr ()"
    using cap by (simp add: s(1) i approval_input_def)
  have "requireFormalProjectionCapacity (sys_db t) (pi_project i) (pi_project_version i) None 1
       (int (utf8_length (pi_content i))) (pi_scope_id i) = Inr ()"
    using capacity_guard_at [OF oks s(3) cur g] .
  moreover have "promotion_guard i (sys_db t)"
    using cur rdy by (simp add: promotion_guard_def promotion_ready_def)
  ultimately show ?thesis
    using promotion_capacity [of "sys_db t" i d' ns] inv run assms(3)
    by (simp add: formal_inv_split i approval_input_def)
qed


section \<open>Concrete reviews\<close>

definition demo_evidence_row :: evidence_row where
  "demo_evidence_row =
     \<lparr>e_id = str ''e'', e_project = str ''p'', e_source_type = str ''document'', e_locator = str ''l'',
      e_repository = None, e_commit = None, e_excerpt = str ''x'', e_sensitivity = Clear,
      e_recorded_at = 10, e_ref = None, e_path = None, e_authority = None\<rparr>"

definition demo_review_db :: db where
  "demo_review_db = demo_db\<lparr>t_evidence := [demo_evidence_row]\<rparr>"

abbreviation review_view :: view where
  "review_view \<equiv> \<lambda>_. demo_review_db"

definition demo_review_of :: "review_verdict \<Rightarrow> review_request_input" where
  "demo_review_of v =
     \<lparr>cq_candidate = str ''c'', cq_version = 1, cq_decision = v, cq_reason = str ''ok'',
      cq_edits = Some \<lparr>ed_content = Some (str ''text''), ed_kind = Some Fact, ed_class = Some Semantic,
        ed_scope = Some ScopeProject, ed_scope_id = Some (str ''p''), ed_from = None, ed_until = None\<rparr>,
      cq_key = str ''12345678'', cq_project = str ''p'', cq_actor = str ''u''\<rparr>"

fun promote_job :: "thrown + prepared_review \<Rightarrow> promotion_input option" where
  "promote_job (Inr (PromoteJob i)) = Some i"
| "promote_job _ = None"

lemma promote_job_Some: "promote_job x = Some i \<longleftrightarrow> x = Inr (PromoteJob i)"
  by (cases x rule: promote_job.cases) auto

fun review_job :: "thrown + prepared_review \<Rightarrow> review_input option" where
  "review_job (Inr (ReviewJob i)) = Some i"
| "review_job _ = None"

lemma review_job_Some: "review_job x = Some i \<longleftrightarrow> x = Inr (ReviewJob i)"
  by (cases x rule: review_job.cases) auto

lemma demo_approval_job:
  obtains i where "requestReview demo_lib review_view demo_ambient (demo_review_of Approve) = Inr (PromoteJob i)"
proof -
  have "promote_job (requestReview demo_lib review_view demo_ambient (demo_review_of Approve)) \<noteq> None"
    by code_simp
  then show ?thesis using that by (auto simp: promote_job_Some)
qed

lemma demo_changes_job:
  obtains i where "requestReview demo_lib review_view demo_ambient (demo_review_of AskChanges) = Inr (ReviewJob i)"
proof -
  have "review_job (requestReview demo_lib review_view demo_ambient (demo_review_of AskChanges)) \<noteq> None"
    by code_simp
  then show ?thesis using that by (auto simp: review_job_Some)
qed

lemma demo_review_commits:
  assumes "v = Approve \<or> v = AskChanges"
  obtains j d' where "reviewCandidate demo_lib review_view demo_ambient (demo_review_of v) demo_review_db = (Inr j, d')"
proof -
  have "case fst (reviewCandidate demo_lib review_view demo_ambient (demo_review_of Approve) demo_review_db) of
      Inr j \<Rightarrow> True | Inl e \<Rightarrow> False"
    and "case fst (reviewCandidate demo_lib review_view demo_ambient (demo_review_of AskChanges) demo_review_db) of
      Inr j \<Rightarrow> True | Inl e \<Rightarrow> False"
    by code_simp+
  then show ?thesis
    using that assms by (cases "reviewCandidate demo_lib review_view demo_ambient (demo_review_of v) demo_review_db")
      (auto split: sum.splits)
qed

lemma demo_review_inv: "formal_inv demo_review_db"
  by code_simp

lemma demo_review_ids: "distinct (map c_id (t_observations demo_review_db))"
  by code_simp

text \<open>The state with one plan in flight, and the run that leads to it.\<close>

definition in_flight :: "formal_op \<Rightarrow> sys" where
  "in_flight op = \<lparr>sys_db = demo_review_db, sys_ops = [op]\<rparr>"

lemma in_flight_run:
  assumes "requestReview demo_lib review_view demo_ambient r = Inr p" and "job_op p = Some op"
  shows "sys_run (fresh_sys demo_review_db) (in_flight op)"
proof -
  note q = requestReview_job(3) [OF assms]
  have "sys_step (fresh_sys demo_review_db) (in_flight op)"
    using prepare [of op "fresh_sys demo_review_db"] prepared_job [OF q assms(2)]
    by (simp add: fresh_sys_def in_flight_def)
  with sys_refl show ?thesis by (rule sys_trans)
qed

lemma review_request_refines_system_witness:
  "\<exists>op. sys_step (fresh_sys demo_review_db) (fresh_sys demo_review_db\<lparr>sys_ops := [op]\<rparr>)"
proof -
  obtain i where i: "requestReview demo_lib review_view demo_ambient (demo_review_of Approve) = Inr (PromoteJob i)"
    by (rule demo_approval_job)
  from review_request_refines_system [OF i job_op.simps(3), of "fresh_sys demo_review_db"]
  have "sys_step (fresh_sys demo_review_db) (fresh_sys demo_review_db\<lparr>sys_ops := [OpPromote i]\<rparr>)"
    by (simp add: fresh_sys_def)
  then show ?thesis ..
qed


lemma approval_admission_witness:
  "\<exists>i. requestReview demo_lib review_view demo_ambient (demo_review_of Approve) = Inr (PromoteJob i) \<and>
     length (pi_evidence i) \<le> 50 \<and> pi_evidence i \<noteq> []"
proof -
  obtain i where i: "requestReview demo_lib review_view demo_ambient (demo_review_of Approve) = Inr (PromoteJob i)"
    by (rule demo_approval_job)
  with approval_admission [OF i] show ?thesis by blast
qed

lemma approved_candidate_becomes_memory_witness:
  "\<exists>response d'. reviewCandidate demo_lib review_view demo_ambient (demo_review_of Approve) demo_review_db =
       (Inr response, d') \<and> (\<exists>m\<in>set (t_memories d'). m_version m = 1 \<and> m_status m = Active)"
proof -
  obtain i where i: "requestReview demo_lib review_view demo_ambient (demo_review_of Approve) = Inr (PromoteJob i)"
    by (rule demo_approval_job)
  obtain resp d' where m: "reviewCandidate demo_lib review_view demo_ambient (demo_review_of Approve) demo_review_db
      = (Inr resp, d')"
    by (rule demo_review_commits [of Approve]) simp
  have "\<exists>m\<in>set (t_memories d'). m_version m = 1 \<and> m_status m = Active"
    using approved_candidate_becomes_memory [OF demo_review_inv in_flight_run [OF i job_op.simps(3)] _ i, of resp d']
      demo_review_ids m by (auto simp: in_flight_def)
  with m show ?thesis by blast
qed

lemma review_decision_effect_witness:
  "\<exists>response d'. reviewCandidate demo_lib review_view demo_ambient (demo_review_of AskChanges) demo_review_db =
       (Inr response, d') \<and> candidate_open (str ''p'') (str ''c'') 2 d'"
proof -
  obtain i where i: "requestReview demo_lib review_view demo_ambient (demo_review_of AskChanges) = Inr (ReviewJob i)"
    by (rule demo_changes_job)
  obtain resp d' where m: "reviewCandidate demo_lib review_view demo_ambient (demo_review_of AskChanges) demo_review_db
      = (Inr resp, d')"
    by (rule demo_review_commits [of AskChanges]) simp
  have "candidate_open (str ''p'') (str ''c'') 2 d'"
    using review_decision_effect [OF demo_review_inv in_flight_run [OF i job_op.simps(2)] _ i, of resp d']
      demo_review_ids m by (auto simp: in_flight_def demo_review_of_def)
  with m show ?thesis by blast
qed

lemma approved_memory_fits_projection_witness:
  "\<exists>response d'. reviewCandidate demo_lib review_view demo_ambient (demo_review_of Approve) demo_review_db =
       (Inr response, d') \<and> (\<exists>pid ver. checkProjectionSnapshotCapacity d' pid ver = Inr True)"
proof -
  obtain i where i: "requestReview demo_lib review_view demo_ambient (demo_review_of Approve) = Inr (PromoteJob i)"
    by (rule demo_approval_job)
  obtain resp d' where m: "reviewCandidate demo_lib review_view demo_ambient (demo_review_of Approve) demo_review_db
      = (Inr resp, d')"
    by (rule demo_review_commits [of Approve]) simp
  note run = in_flight_run [OF i job_op.simps(3)]
  have v: "\<exists>s. review_view q = sys_db s \<and> sys_run (fresh_sys demo_review_db) s \<and> sys_run s (in_flight (OpPromote i))" for q
    using run sys_refl by (intro exI [of _ "fresh_sys demo_review_db"]) (simp add: fresh_sys_def)
  have "checkProjectionSnapshotCapacity d' (pi_project i) (pi_project_version i + 1) = Inr True"
    by (rule approved_memory_fits_projection [OF demo_review_inv run _ v i])
      (use m in \<open>simp_all add: in_flight_def demo_ambient_def\<close>)
  with m show ?thesis by blast
qed

end
