(* ===== verification/Base64_Url.thy ===== *)
theory Base64_Url
  imports Contracts
begin

text \<open>
  \<open>src/security/crypto.ts\<close>: base64url without padding over \<open>btoa\<close> and \<open>atob\<close>, and the
  comparison that does not stop at the first difference. Bytes are natural numbers below 256.
\<close>

unbundle bit_operations_syntax

definition bytes :: "nat list \<Rightarrow> bool" where
  "bytes bs = list_all (\<lambda>b. b < 256) bs"

section \<open>Base64url\<close>

text \<open>The alphabet of \<open>btoa\<close> with \<open>-\<close> and \<open>_\<close> for \<open>+\<close> and \<open>/\<close>.\<close>

definition sextet_char :: "nat \<Rightarrow> nat" where
  "sextet_char n = (if n < 26 then 65 + n else if n < 52 then 71 + n else if n < 62 then n - 4
     else if n = 62 then 45 else 95)"

definition sextet_value :: "nat \<Rightarrow> nat option" where
  "sextet_value c = (if 65 \<le> c \<and> c \<le> 90 then Some (c - 65)
     else if 97 \<le> c \<and> c \<le> 122 then Some (c - 71)
     else if 48 \<le> c \<and> c \<le> 57 then Some (c + 4)
     else if c = 45 then Some 62 else if c = 95 then Some 63 else None)"

fun sextets :: "nat list \<Rightarrow> nat list" where
  "sextets [] = []"
| "sextets [a] = [a div 4, a mod 4 * 16]"
| "sextets [a, b] = [a div 4, a mod 4 * 16 + b div 16, b mod 16 * 4]"
| "sextets (a # b # c # bs) =
     [a div 4, a mod 4 * 16 + b div 16, b mod 16 * 4 + c div 64, c mod 64] @ sextets bs"

definition encodeBase64Url :: "nat list \<Rightarrow> ustring" where
  "encodeBase64Url bs = map sextet_char (sextets bs)"

text \<open>\<open>atob\<close> drops the bits of a last group that do not fill a byte; one sextet alone is an error.\<close>

fun octets :: "nat list \<Rightarrow> nat list option" where
  "octets [] = Some []"
| "octets [v] = None"
| "octets [v, w] = Some [v * 4 + w div 16]"
| "octets [v, w, x] = Some [v * 4 + w div 16, w mod 16 * 16 + x div 4]"
| "octets (v # w # x # y # vs) =
     map_option (\<lambda>bs. (v * 4 + w div 16) # (w mod 16 * 16 + x div 4) # (x mod 4 * 64 + y) # bs) (octets vs)"

fun all_some :: "'a option list \<Rightarrow> 'a list option" where
  "all_some [] = Some []"
| "all_some (x # xs) =
     (case x of None \<Rightarrow> None | Some a \<Rightarrow> map_option ((#) a) (all_some xs))"

definition decodeBase64Url :: "ustring \<Rightarrow> nat list option" where
  "decodeBase64Url s =
     (if s = [] then None else Option.bind (all_some (map sextet_value s)) octets)"

section \<open>Comparison\<close>

fun difference_of :: "nat list \<Rightarrow> nat list \<Rightarrow> nat \<Rightarrow> nat" where
  "difference_of [] rs acc = acc"
| "difference_of (l # ls) [] acc = difference_of ls [] (acc OR (l XOR 0))"
| "difference_of (l # ls) (r # rs) acc = difference_of ls rs (acc OR (l XOR r))"

definition constantTimeEqual :: "nat list \<Rightarrow> nat list \<Rightarrow> bool" where
  "constantTimeEqual left right =
     (if length left \<noteq> length right then False else difference_of left right 0 = 0)"

section \<open>Lemmas\<close>

lemma sextet_value_char: "n < 64 \<Longrightarrow> sextet_value (sextet_char n) = Some n"
  by (auto simp: sextet_value_def sextet_char_def)

lemma sextets_small: "bytes bs \<Longrightarrow> list_all (\<lambda>n. n < 64) (sextets bs)"
  by (induction bs rule: sextets.induct) (auto simp: bytes_def)

lemma octets_sextets: "bytes bs \<Longrightarrow> octets (sextets bs) = Some bs"
  by (induction bs rule: sextets.induct) (auto simp: bytes_def)

lemma all_some_map: "(\<And>x. x \<in> set xs \<Longrightarrow> f (g x) = Some x) \<Longrightarrow> all_some (map f (map g xs)) = Some xs"
  by (induction xs) auto

lemma sextets_empty: "sextets bs = [] \<longleftrightarrow> bs = []"
  by (cases bs rule: sextets.cases) auto

lemma decode_encode_base64:
  assumes "bytes bs" and "bs \<noteq> []"
  shows "decodeBase64Url (encodeBase64Url bs) = Some bs"
proof -
  have "all_some (map sextet_value (map sextet_char (sextets bs))) = Some (sextets bs)"
    using sextets_small [OF assms(1)] by (intro all_some_map) (auto simp: list_all_iff sextet_value_char)
  then show ?thesis
    using assms by (simp add: decodeBase64Url_def encodeBase64Url_def octets_sextets sextets_empty del: map_map)
qed

text \<open>The encoding holds letters, digits, \<open>-\<close> and \<open>_\<close> only.\<close>

lemma encode_base64_alphabet: "bytes bs \<Longrightarrow> c \<in> set (encodeBase64Url bs) \<Longrightarrow>
    c \<noteq> 46 \<and> sextet_value c \<noteq> None"
proof -
  assume b: "bytes bs" and "c \<in> set (encodeBase64Url bs)"
  then obtain n where n: "n \<in> set (sextets bs)" "c = sextet_char n" by (auto simp: encodeBase64Url_def)
  then have "sextet_value c = Some n"
    using sextets_small [OF b] sextet_value_char by (simp add: list_all_iff)
  then show ?thesis by (auto simp: sextet_value_def)
qed

lemma nat_or_eq_0: "(a OR b = (0::nat)) \<longleftrightarrow> a = 0 \<and> b = 0"
  by (auto simp: bit_eq_iff bit_or_iff)

lemma nat_xor_eq_0: "(a XOR b = (0::nat)) \<longleftrightarrow> a = b"
  by (auto simp: bit_eq_iff bit_xor_iff)

lemma difference_of_0:
  "length ls = length rs \<Longrightarrow> difference_of ls rs acc = 0 \<longleftrightarrow> acc = 0 \<and> ls = rs"
  by (induction ls rs acc rule: difference_of.induct) (auto simp: nat_or_eq_0 nat_xor_eq_0)

lemma constant_time_equal: "constantTimeEqual l r \<longleftrightarrow> l = r"
  by (auto simp: constantTimeEqual_def difference_of_0)

end
