(* ===== verification/Page_Token.thy ===== *)
theory Page_Token
  imports Base64_Url Canonical_Json Uri_Codec
begin

text \<open>
  \<open>src/security/page-token.ts\<close>: signed pagination cursors. \<open>page_lib\<close> holds the platform
  functions: HMAC-SHA256, \<open>JSON.parse\<close> after \<open>TextDecoder\<close>, and the canonical-timestamp check
  (\<open>Date.parse\<close> and \<open>toISOString\<close>). Any failure of the reader is the one \<open>PAGE_TOKEN_INVALID\<close>.
\<close>

record page_lib =
  pl_hmac :: "nat list \<Rightarrow> nat list \<Rightarrow> nat list"
  pl_parse :: "nat list \<Rightarrow> json option"
  pl_canonical_time :: "ustring \<Rightarrow> bool"

record page_payload =
  pg_project :: ustring
  pg_digest :: ustring
  pg_snapshot :: int
  pg_sort_key :: ustring
  pg_valid_at :: ustring
  pg_expires :: int

record page_context =
  px_project :: ustring
  px_digest :: ustring
  px_now :: int

text \<open>\<open>JSON.stringify\<close>: keys in insertion order.\<close>

fun stringify :: "json \<Rightarrow> ustring" where
  "stringify JNull = str ''null''"
| "stringify (JBool b) = (if b then str ''true'' else str ''false'')"
| "stringify (JNum n) = dec_int n"
| "stringify (JStr s) = json_string s"
| "stringify (JArr xs) = 91 # join_with 44 (map stringify xs) @ [93]"
| "stringify (JObj es) =
     123 # join_with 44 (map (\<lambda>(k, v). json_string k @ 58 # stringify v) es) @ [125]"

definition page_json :: "page_payload \<Rightarrow> json" where
  "page_json g = JObj [(str ''v'', JNum 2), (str ''p'', JStr (pg_project g)),
     (str ''q'', JStr (pg_digest g)), (str ''s'', JNum (pg_snapshot g)),
     (str ''c'', JStr (pg_sort_key g)), (str ''t'', JStr (pg_valid_at g)),
     (str ''e'', JNum (pg_expires g))]"

text \<open>\<open>TextEncoder\<close>; a lone surrogate becomes U+FFFD.\<close>

definition encode_text :: "ustring \<Rightarrow> nat list" where
  "encode_text s = concat (map (\<lambda>c. if surrogate c then [239, 191, 189] else utf8 c) s)"

definition page_body :: "page_payload \<Rightarrow> nat list" where
  "page_body g = encode_text (stringify (page_json g))"

definition createPageToken :: "page_lib \<Rightarrow> page_payload \<Rightarrow> nat list \<Rightarrow> thrown + ustring" where
  "createPageToken P g key =
     bind_res (require (32 \<le> length key) (Other (str ''HMAC keys must be at least 32 bytes.''))) (\<lambda>_.
     bind_res (require (pl_canonical_time P (pg_valid_at g))
         (Other (str ''The page validity timestamp must be a canonical ISO timestamp.''))) (\<lambda>_.
       Inr (encodeBase64Url (page_body g) @ 46 # encodeBase64Url (pl_hmac P key (page_body g)))))"

definition page_token_invalid :: thrown where
  "page_token_invalid = edge PAGE_TOKEN_INVALID ''The page token is invalid or expired.''"

text \<open>The checks on the parsed body.\<close>

definition page_of_json :: "page_lib \<Rightarrow> page_context \<Rightarrow> json \<Rightarrow> page_payload option" where
  "page_of_json P x j =
     (case j of
        JObj fs \<Rightarrow>
          (case (map_of fs (str ''v''), map_of fs (str ''p''), map_of fs (str ''q''), map_of fs (str ''s''),
                 map_of fs (str ''c''), map_of fs (str ''t''), map_of fs (str ''e'')) of
             (Some (JNum v), Some (JStr p), Some (JStr q), Some (JNum sv), Some (JStr c), Some (JStr t),
              Some (JNum e)) \<Rightarrow>
               if v \<noteq> 2 \<or> p \<noteq> px_project x \<or> q \<noteq> px_digest x \<or> \<not> is_safe_integer sv \<or> sv < 0 \<or>
                  \<not> pl_canonical_time P t \<or> \<not> is_safe_integer e \<or> e < px_now x
               then None
               else Some \<lparr>pg_project = p, pg_digest = q, pg_snapshot = sv, pg_sort_key = c,
                      pg_valid_at = t, pg_expires = e\<rparr>
           | _ \<Rightarrow> None)
      | _ \<Rightarrow> None)"

definition readPageToken :: "page_lib \<Rightarrow> ustring \<Rightarrow> nat list \<Rightarrow> page_context \<Rightarrow> thrown + page_payload" where
  "readPageToken P token key x =
     (if length key < 32 then Inl page_token_invalid
      else case split_on 46 token of
        [a, b] \<Rightarrow>
          (case (decodeBase64Url a, decodeBase64Url b) of
             (Some body, Some supplied) \<Rightarrow>
               if \<not> constantTimeEqual supplied (pl_hmac P key body) then Inl page_token_invalid
               else (case Option.bind (pl_parse P body) (page_of_json P x) of
                  None \<Rightarrow> Inl page_token_invalid
                | Some g \<Rightarrow> Inr g)
           | _ \<Rightarrow> Inl page_token_invalid)
      | _ \<Rightarrow> Inl page_token_invalid)"

section \<open>Lemmas\<close>

text \<open>What HMAC-SHA256 promises here: 32 bytes.\<close>

definition hmac_ok :: "page_lib \<Rightarrow> bool" where
  "hmac_ok P \<longleftrightarrow> (\<forall>k b. bytes (pl_hmac P k b) \<and> pl_hmac P k b \<noteq> [])"

lemma utf8_bytes: "c < 1114112 \<Longrightarrow> bytes (utf8 c)"
  by (auto simp: bytes_def utf8_def)

lemma encode_text_bytes: "list_all (\<lambda>c. c < 1114112) s \<Longrightarrow> bytes (encode_text s)"
  using utf8_bytes by (induction s) (auto simp: encode_text_def bytes_def)

lemma page_body_nonempty: "page_body g \<noteq> []"
  by (simp add: page_body_def page_json_def encode_text_def surrogate_def utf8_def)

lemma read_signed:
  assumes "hmac_ok P" and "32 \<le> length key" and "bytes body" and "body \<noteq> []"
  shows "readPageToken P (encodeBase64Url body @ 46 # encodeBase64Url (pl_hmac P key body)) key x =
     (case Option.bind (pl_parse P body) (page_of_json P x) of
        None \<Rightarrow> Inl page_token_invalid | Some g \<Rightarrow> Inr g)"
proof -
  let ?s = "pl_hmac P key body"
  have s: "bytes ?s" "?s \<noteq> []" using assms(1) by (auto simp: hmac_ok_def)
  have "46 \<notin> set (encodeBase64Url body)" "46 \<notin> set (encodeBase64Url ?s)"
    using encode_base64_alphabet assms(3) s(1) by blast+
  then have "split_on 46 (encodeBase64Url body @ 46 # encodeBase64Url ?s) =
      [encodeBase64Url body, encodeBase64Url ?s]"
    by (simp add: split_on_append split_on_none)
  then show ?thesis
    using assms s by (simp add: readPageToken_def decode_encode_base64 constant_time_equal)
qed

lemma page_of_own_json:
  "page_of_json P x (page_json g) =
     (if pg_project g = px_project x \<and> pg_digest g = px_digest x \<and> is_safe_integer (pg_snapshot g) \<and>
         0 \<le> pg_snapshot g \<and> pl_canonical_time P (pg_valid_at g) \<and> is_safe_integer (pg_expires g) \<and>
         px_now x \<le> pg_expires g
      then Some g else None)"
  by (auto simp: page_of_json_def page_json_def)

section \<open>Properties\<close>

text \<open>C28: A page token reads back as exactly the payload it was made from, in the same project and
  query, until it expires, and as \<open>PAGE_TOKEN_INVALID\<close> in any other project, for any other query
  or after its expiry. The hypotheses on the library are that HMAC yields bytes and that
  \<open>JSON.parse\<close> inverts \<open>JSON.stringify\<close> on this payload.\<close>

theorem page_token_roundtrip:
  assumes "hmac_ok P" and "createPageToken P g key = Inr token" and "bytes (page_body g)"
    and "pl_parse P (page_body g) = Some (page_json g)"
    and "is_safe_integer (pg_snapshot g)" and "0 \<le> pg_snapshot g" and "is_safe_integer (pg_expires g)"
  shows "readPageToken P token key x =
     (if pg_project g = px_project x \<and> pg_digest g = px_digest x \<and> px_now x \<le> pg_expires g
      then Inr g else Inl page_token_invalid)"
proof -
  have c: "32 \<le> length key" "pl_canonical_time P (pg_valid_at g)"
    "token = encodeBase64Url (page_body g) @ 46 # encodeBase64Url (pl_hmac P key (page_body g))"
    using assms(2) by (auto simp: createPageToken_def bind_res_Inr_iff)
  show ?thesis
    unfolding c(3) read_signed [OF assms(1) c(1) assms(3) page_body_nonempty]
    using assms(4-7) c(2) by (simp add: page_of_own_json)
qed

text \<open>C29: Whatever text a client sends as a page token, if it is accepted then it carries the HMAC of
  its own body under the server's key, and the accepted payload names the caller's project and
  query, a valid snapshot version and an expiry that has not passed. Every other text yields the
  same \<open>PAGE_TOKEN_INVALID\<close>; nothing else is ever thrown.\<close>

theorem page_token_fails_closed:
  "case readPageToken P token key x of
     Inl e \<Rightarrow> e = page_token_invalid
   | Inr g \<Rightarrow>
       (\<exists>a b body. split_on 46 token = [a, b] \<and> decodeBase64Url a = Some body \<and>
          decodeBase64Url b = Some (pl_hmac P key body) \<and>
          Option.bind (pl_parse P body) (page_of_json P x) = Some g) \<and>
       32 \<le> length key \<and> pg_project g = px_project x \<and> pg_digest g = px_digest x \<and>
       0 \<le> pg_snapshot g \<and> px_now x \<le> pg_expires g"
proof (cases "readPageToken P token key x")
  case (Inl e)
  then show ?thesis
    by (auto simp: readPageToken_def split: if_splits list.splits option.splits)
next
  case (Inr g)
  then obtain a b body where ab: "split_on 46 token = [a, b]" "decodeBase64Url a = Some body"
      "decodeBase64Url b = Some (pl_hmac P key body)" "32 \<le> length key"
      "Option.bind (pl_parse P body) (page_of_json P x) = Some g"
    by (auto simp: readPageToken_def constant_time_equal split: if_splits list.splits option.splits)
  then obtain j where "page_of_json P x j = Some g" by (auto simp: bind_eq_Some_conv)
  then have "pg_project g = px_project x \<and> pg_digest g = px_digest x \<and> 0 \<le> pg_snapshot g \<and>
      px_now x \<le> pg_expires g"
    by (auto simp: page_of_json_def split: json.splits option.splits if_splits)
  with ab Inr show ?thesis by auto
qed

definition demo_page :: page_payload where
  "demo_page = \<lparr>pg_project = str ''p'', pg_digest = str ''q'', pg_snapshot = 3, pg_sort_key = str ''k'',
     pg_valid_at = str ''t'', pg_expires = 100\<rparr>"

definition demo_page_lib :: page_lib where
  "demo_page_lib = \<lparr>pl_hmac = (\<lambda>k b. [7, fold (+) b 0 mod 256]),
     pl_parse = (\<lambda>b. if b = page_body demo_page then Some (page_json demo_page) else None),
     pl_canonical_time = (\<lambda>t. True)\<rparr>"

lemma page_token_roundtrip_witness:
  "\<exists>token. createPageToken demo_page_lib demo_page (replicate 32 1) = Inr token \<and>
     readPageToken demo_page_lib token (replicate 32 1)
       \<lparr>px_project = str ''p'', px_digest = str ''q'', px_now = 100\<rparr> = Inr demo_page \<and>
     readPageToken demo_page_lib token (replicate 32 1)
       \<lparr>px_project = str ''p'', px_digest = str ''q'', px_now = 101\<rparr> = Inl page_token_invalid"
proof -
  have h: "hmac_ok demo_page_lib" by (simp add: hmac_ok_def demo_page_lib_def bytes_def)
  obtain token where t: "createPageToken demo_page_lib demo_page (replicate 32 1) = Inr token"
    by (simp add: createPageToken_def demo_page_lib_def require_def)
  have "list_all (\<lambda>c. c < 1114112) (stringify (page_json demo_page))"
    by (simp add: page_json_def demo_page_def json_string_def json_char_def dec_int_def dec.simps)
  then have b: "bytes (page_body demo_page)" by (simp add: page_body_def encode_text_bytes)
  have "readPageToken demo_page_lib token (replicate 32 1) x =
     (if pg_project demo_page = px_project x \<and> pg_digest demo_page = px_digest x \<and> px_now x \<le> pg_expires demo_page
      then Inr demo_page else Inl page_token_invalid)" for x
    by (rule page_token_roundtrip [OF h t b])
      (simp_all add: demo_page_lib_def demo_page_def is_safe_integer_def max_safe_def)
  with t show ?thesis by (auto simp: demo_page_def)
qed

end
