(* ===== verification/Access_Control.thy ===== *)
theory Access_Control
  imports Formal_Demo Base64_Url Uri_Codec "HOL-Library.Sublist" "HOL-Library.Code_Target_Nat"
begin

text \<open>
  \<open>src/security/auth.ts\<close>: authentication of project principals, the role checks, the
  hierarchical access predicate of memories and repositories, and the origin allowlist.
  \<open>acl\<close> adds to the authority database the two tables only this part reads.
\<close>

section \<open>State\<close>

record principal_row =
  n_id :: ustring
  n_digest :: ustring
  n_revoked_at :: "int option"

record grant_context =
  gc_project :: ustring
  gc_grant :: ustring
  gc_repository :: ustring

record acl =
  ac_db :: db
  ac_principals :: "principal_row list"
  ac_contexts :: "grant_context list"

record authenticated =
  au_principal :: ustring
  au_project :: ustring
  au_role :: project_role

fun roleRank :: "project_role \<Rightarrow> int" where
  "roleRank Reader = 0"
| "roleRank Writer = 1"
| "roleRank Maintainer = 2"

section \<open>Authentication\<close>

text \<open>\<open>hmac\<close> is HMAC-SHA256 on the UTF-8 bytes of the pepper and the token.\<close>

definition bearer_prefix :: ustring where
  "bearer_prefix = str ''Bearer ''"

definition unauthenticated :: "string \<Rightarrow> thrown" where
  "unauthenticated m = edge UNAUTHENTICATED m"

definition text_bytes :: "ustring \<Rightarrow> nat list" where
  "text_bytes s = concat (map (\<lambda>c. if surrogate c then [239, 191, 189] else utf8 c) s)"

definition tokenDigest :: "(nat list \<Rightarrow> nat list \<Rightarrow> nat list) \<Rightarrow> ustring \<Rightarrow> ustring \<Rightarrow> ustring" where
  "tokenDigest hmac pepper token = encodeBase64Url (hmac (text_bytes pepper) (text_bytes token))"

text \<open>The joined rows, strongest role first; ties keep the table order.\<close>

definition principal_grants :: "acl \<Rightarrow> ustring \<Rightarrow> grant list" where
  "principal_grants a digest =
     sort_key (\<lambda>g. - roleRank (g_role g))
       (concat (map (\<lambda>n. filter (\<lambda>g. g_principal g = n_id n \<and> g_revoked_at g = None) (t_grants (ac_db a)))
         (filter (\<lambda>n. n_digest n = digest \<and> n_revoked_at n = None) (ac_principals a))))"

definition authenticateProjectBearer ::
  "(nat list \<Rightarrow> nat list \<Rightarrow> nat list) \<Rightarrow> ustring \<Rightarrow> ustring option \<Rightarrow> acl \<Rightarrow> thrown + authenticated" where
  "authenticateProjectBearer hmac pepper authorization a =
     (case authorization of
        None \<Rightarrow> Inl (unauthenticated ''A bearer token is required.'')
      | Some h \<Rightarrow>
          if take (length bearer_prefix) h \<noteq> bearer_prefix
          then Inl (unauthenticated ''A bearer token is required.'')
          else
            let token = drop (length bearer_prefix) h
            in if js_length token < 32 \<or> 4096 < js_length token \<or> js_length pepper < 32
               then Inl (unauthenticated ''The bearer token is invalid.'')
               else (case principal_grants a (tokenDigest hmac pepper token) of
                  [] \<Rightarrow> Inl (unauthenticated ''The bearer token is invalid.'')
                | g # gs \<Rightarrow> Inr \<lparr>au_principal = g_principal g, au_project = g_project g, au_role = g_role g\<rparr>))"

section \<open>Project roles\<close>

definition project_unavailable :: thrown where
  "project_unavailable = edge PROJECT_UNAVAILABLE ''The project is unavailable.''"

definition requireProjectRole :: "acl \<Rightarrow> authenticated \<Rightarrow> project_role \<Rightarrow> thrown + unit" where
  "requireProjectRole a u required =
     require (\<exists>g\<in>set (t_grants (ac_db a)). g_project g = au_project u \<and> g_principal g = au_principal u \<and>
         g_revoked_at g = None \<and> g_scope_kind g = ScopeProject \<and> g_scope_id g = au_project u \<and>
         roleRank required \<le> roleRank (g_role g))
       project_unavailable"

definition requireRole :: "authenticated \<Rightarrow> project_role \<Rightarrow> thrown + unit" where
  "requireRole u required =
     require (roleRank required \<le> roleRank (au_role u)) project_unavailable"

section \<open>Memory and repository access\<close>

text \<open>The grant is project-wide.\<close>

definition project_grant :: "grant \<Rightarrow> bool" where
  "project_grant g \<longleftrightarrow> g_scope_kind g = ScopeProject \<and> g_scope_id g = g_project g"

definition grant_repository :: "acl \<Rightarrow> grant \<Rightarrow> ustring \<Rightarrow> bool" where
  "grant_repository a g repo \<longleftrightarrow> (\<exists>x\<in>set (ac_contexts a).
     gc_project x = g_project g \<and> gc_grant x = g_id g \<and> gc_repository x = repo)"

definition grant_has_context :: "acl \<Rightarrow> grant \<Rightarrow> bool" where
  "grant_has_context a g \<longleftrightarrow>
     (\<exists>x\<in>set (ac_contexts a). gc_project x = g_project g \<and> gc_grant x = g_id g)"

definition leaf_scope :: "memory_scope \<Rightarrow> bool" where
  "leaf_scope s \<longleftrightarrow> s = ScopeRef \<or> s = ScopeWorktree \<or> s = ScopeSession"

definition hierarchicalMemoryAccessPredicate :: "acl \<Rightarrow> grant \<Rightarrow> memory \<Rightarrow> bool" where
  "hierarchicalMemoryAccessPredicate a g m \<longleftrightarrow>
     m_project m = g_project g \<and>
     ((m_scope m = ScopeProject \<and> m_scope_id m = m_project m \<and>
         (project_grant g \<or> grant_has_context a g)) \<or>
      (m_scope m \<noteq> ScopeProject \<and>
         (\<exists>x\<in>set (t_contexts (ac_db a)).
            x_project x = m_project m \<and> x_memory x = m_id m \<and>
            (x_project x, x_repository x) \<in> set (t_repositories (ac_db a)) \<and>
            (project_grant g \<or>
             (grant_repository a g (x_repository x) \<and>
                (g_scope_kind g = ScopeRepository \<or>
                 (leaf_scope (g_scope_kind g) \<and>
                    (m_scope m = ScopeRepository \<or>
                     (m_scope m = g_scope_kind g \<and> m_scope_id m = g_scope_id g)))))))))"

definition active_grant :: "acl \<Rightarrow> authenticated \<Rightarrow> project_role \<Rightarrow> grant \<Rightarrow> bool" where
  "active_grant a u required g \<longleftrightarrow> g \<in> set (t_grants (ac_db a)) \<and> g_project g = au_project u \<and>
     g_principal g = au_principal u \<and> g_revoked_at g = None \<and> roleRank required \<le> roleRank (g_role g)"

definition hasMemoryRole :: "acl \<Rightarrow> authenticated \<Rightarrow> project_role \<Rightarrow> ustring \<Rightarrow> bool" where
  "hasMemoryRole a u required mid \<longleftrightarrow>
     (\<exists>g\<in>set (t_grants (ac_db a)). active_grant a u required g \<and>
        (\<exists>m\<in>set (t_memories (ac_db a)). m_project m = g_project g \<and> m_id m = mid \<and>
           hierarchicalMemoryAccessPredicate a g m))"

definition requireMemoryRole :: "acl \<Rightarrow> authenticated \<Rightarrow> project_role \<Rightarrow> ustring \<Rightarrow> thrown + unit" where
  "requireMemoryRole a u required mid = require (hasMemoryRole a u required mid) project_unavailable"

definition hasRepositoryRole :: "acl \<Rightarrow> authenticated \<Rightarrow> project_role \<Rightarrow> ustring \<Rightarrow> bool" where
  "hasRepositoryRole a u required repo \<longleftrightarrow>
     (\<exists>g\<in>set (t_grants (ac_db a)). active_grant a u required g \<and>
        (g_project g, repo) \<in> set (t_repositories (ac_db a)) \<and>
        (project_grant g \<or> grant_repository a g repo))"

definition requireRepositoryRole :: "acl \<Rightarrow> authenticated \<Rightarrow> project_role \<Rightarrow> ustring \<Rightarrow> thrown + unit" where
  "requireRepositoryRole a u required repo = require (hasRepositoryRole a u required repo) project_unavailable"

section \<open>Origins\<close>

definition validateOrigin :: "ustring option \<Rightarrow> ustring \<Rightarrow> thrown + unit" where
  "validateOrigin origin allowed =
     (case origin of
        None \<Rightarrow> Inr ()
      | Some v \<Rightarrow>
          require (v \<in> set (filter (\<lambda>s. s \<noteq> []) (map js_trim (split_on 44 allowed))))
            (unauthenticated ''The request origin is not allowed.''))"

section \<open>The scope tree\<close>

text \<open>
  The reference: the place of a grant or a memory in the tree project, repository, leaf. A
  leaf is a ref, worktree or session of its repository.
\<close>

datatype tree_step = RepositoryStep ustring | LeafStep memory_scope ustring

fun scope_path :: "memory_scope \<Rightarrow> ustring \<Rightarrow> ustring \<Rightarrow> tree_step list" where
  "scope_path ScopeProject sid repo = []"
| "scope_path ScopeRepository sid repo = [RepositoryStep repo]"
| "scope_path s sid repo = [RepositoryStep repo, LeafStep s sid]"

definition comparable :: "tree_step list \<Rightarrow> tree_step list \<Rightarrow> bool" where
  "comparable p q \<longleftrightarrow> prefix p q \<or> prefix q p"

text \<open>
  What the triggers of migrations 0006 and 0009 keep: project scopes name their project and
  have no repository context, every other grant and memory has exactly one, in a registered
  repository.
\<close>

definition acl_ok :: "acl \<Rightarrow> bool" where
  "acl_ok a \<longleftrightarrow>
     (\<forall>g\<in>set (t_grants (ac_db a)).
        if g_scope_kind g = ScopeProject then g_scope_id g = g_project g \<and> \<not> grant_has_context a g
        else (\<exists>repo. \<forall>r. grant_repository a g r \<longleftrightarrow> r = repo)) \<and>
     (\<forall>m\<in>set (t_memories (ac_db a)).
        if m_scope m = ScopeProject then m_scope_id m = m_project m
        else (\<exists>x\<in>set (t_contexts (ac_db a)). x_project x = m_project m \<and> x_memory x = m_id m)) \<and>
     (\<forall>x\<in>set (t_contexts (ac_db a)). (x_project x, x_repository x) \<in> set (t_repositories (ac_db a)) \<and>
        (\<forall>y\<in>set (t_contexts (ac_db a)). x_project y = x_project x \<and> x_memory y = x_memory x \<longrightarrow>
           x_repository y = x_repository x))"

definition memory_repository :: "acl \<Rightarrow> memory \<Rightarrow> ustring" where
  "memory_repository a m = (case find (\<lambda>x. x_project x = m_project m \<and> x_memory x = m_id m)
       (t_contexts (ac_db a)) of None \<Rightarrow> [] | Some x \<Rightarrow> x_repository x)"

definition grant_home :: "acl \<Rightarrow> grant \<Rightarrow> ustring" where
  "grant_home a g = (case find (\<lambda>x. gc_project x = g_project g \<and> gc_grant x = g_id g) (ac_contexts a) of
     None \<Rightarrow> [] | Some x \<Rightarrow> gc_repository x)"

definition memory_path :: "acl \<Rightarrow> memory \<Rightarrow> tree_step list" where
  "memory_path a m = scope_path (m_scope m) (m_scope_id m) (memory_repository a m)"

definition grant_path :: "acl \<Rightarrow> grant \<Rightarrow> tree_step list" where
  "grant_path a g = scope_path (g_scope_kind g) (g_scope_id g) (grant_home a g)"

lemma acl_ok_grant:
  assumes "acl_ok a" and "g \<in> set (t_grants (ac_db a))"
  shows "g_scope_kind g = ScopeProject \<Longrightarrow> g_scope_id g = g_project g \<and> \<not> grant_has_context a g"
    and "g_scope_kind g \<noteq> ScopeProject \<Longrightarrow> \<exists>repo. \<forall>r. grant_repository a g r \<longleftrightarrow> r = repo"
  using assms unfolding acl_ok_def by meson+

lemma acl_ok_memory:
  assumes "acl_ok a" and "m \<in> set (t_memories (ac_db a))"
  shows "m_scope m = ScopeProject \<Longrightarrow> m_scope_id m = m_project m"
    and "m_scope m \<noteq> ScopeProject \<Longrightarrow>
      \<exists>x\<in>set (t_contexts (ac_db a)). x_project x = m_project m \<and> x_memory x = m_id m"
  using assms unfolding acl_ok_def by meson+

lemma grant_home_unique:
  assumes "\<forall>r. grant_repository a g r \<longleftrightarrow> r = repo"
  shows "grant_home a g = repo" "grant_has_context a g"
proof -
  have "grant_repository a g repo" using assms by simp
  then show h: "grant_has_context a g" by (auto simp: grant_repository_def grant_has_context_def)
  then obtain x where x: "find (\<lambda>x. gc_project x = g_project g \<and> gc_grant x = g_id g) (ac_contexts a) = Some x"
    by (cases "find (\<lambda>x. gc_project x = g_project g \<and> gc_grant x = g_id g) (ac_contexts a)")
      (auto simp: grant_has_context_def find_None_iff_ball)
  then have "grant_repository a g (gc_repository x)"
    by (auto simp: grant_repository_def dest: find_SomeD)
  then show "grant_home a g = repo" using assms x by (simp add: grant_home_def)
qed

lemma memory_repository_unique:
  assumes "acl_ok a" and "m \<in> set (t_memories (ac_db a))" and "m_scope m \<noteq> ScopeProject"
  shows "(\<exists>x\<in>set (t_contexts (ac_db a)). x_project x = m_project m \<and> x_memory x = m_id m \<and>
      (x_project x, x_repository x) \<in> set (t_repositories (ac_db a)) \<and> P (x_repository x)) \<longleftrightarrow>
    P (memory_repository a m)"
proof -
  obtain x where x: "find (\<lambda>x. x_project x = m_project m \<and> x_memory x = m_id m) (t_contexts (ac_db a)) = Some x"
    using acl_ok_memory(2) [OF assms]
    by (cases "find (\<lambda>x. x_project x = m_project m \<and> x_memory x = m_id m) (t_contexts (ac_db a))")
      (auto simp: find_None_iff_ball)
  then have mr: "memory_repository a m = x_repository x" by (simp add: memory_repository_def)
  have xx: "x \<in> set (t_contexts (ac_db a))" "x_project x = m_project m" "x_memory x = m_id m"
    using find_SomeD [OF x] by auto
  have same: "x_repository y = x_repository x"
    if "y \<in> set (t_contexts (ac_db a))" "x_project y = m_project m" "x_memory y = m_id m" for y
    using assms(1) that xx unfolding acl_ok_def by metis
  have reg: "(x_project x, x_repository x) \<in> set (t_repositories (ac_db a))"
    using assms(1) xx(1) unfolding acl_ok_def by blast
  show ?thesis unfolding mr
  proof
    assume "P (x_repository x)"
    with xx reg show "\<exists>x\<in>set (t_contexts (ac_db a)). x_project x = m_project m \<and> x_memory x = m_id m \<and>
      (x_project x, x_repository x) \<in> set (t_repositories (ac_db a)) \<and> P (x_repository x)" by blast
  qed (use same in auto)
qed

text \<open>The access predicate is comparability in the tree.\<close>

lemma access_comparable:
  assumes ok: "acl_ok a" and g: "g \<in> set (t_grants (ac_db a))" and m: "m \<in> set (t_memories (ac_db a))"
  shows "hierarchicalMemoryAccessPredicate a g m \<longleftrightarrow>
     m_project m = g_project g \<and> comparable (grant_path a g) (memory_path a m)"
proof (cases "m_scope m = ScopeProject")
  case True
  then have "m_scope_id m = m_project m" by (rule acl_ok_memory(1) [OF ok m])
  moreover have "project_grant g \<or> grant_has_context a g"
  proof (cases "g_scope_kind g = ScopeProject")
    case True
    then show ?thesis using acl_ok_grant(1) [OF ok g] by (simp add: project_grant_def)
  next
    case False
    then obtain repo where "\<forall>r. grant_repository a g r \<longleftrightarrow> r = repo" using acl_ok_grant(2) [OF ok g] by blast
    from grant_home_unique(2) [OF this] show ?thesis ..
  qed
  ultimately show ?thesis
    using True by (simp add: hierarchicalMemoryAccessPredicate_def comparable_def memory_path_def)
next
  case False
  note mr = memory_repository_unique [OF ok m False, of "\<lambda>r. project_grant g \<or>
      (grant_repository a g r \<and> (g_scope_kind g = ScopeRepository \<or>
        (leaf_scope (g_scope_kind g) \<and> (m_scope m = ScopeRepository \<or>
           (m_scope m = g_scope_kind g \<and> m_scope_id m = g_scope_id g)))))"]
  have eq: "hierarchicalMemoryAccessPredicate a g m \<longleftrightarrow> m_project m = g_project g \<and>
      (project_grant g \<or>
        (grant_repository a g (memory_repository a m) \<and> (g_scope_kind g = ScopeRepository \<or>
          (leaf_scope (g_scope_kind g) \<and> (m_scope m = ScopeRepository \<or>
             (m_scope m = g_scope_kind g \<and> m_scope_id m = g_scope_id g))))))"
    unfolding hierarchicalMemoryAccessPredicate_def mr [symmetric] using False by blast
  show ?thesis
  proof (cases "g_scope_kind g = ScopeProject")
    case True
    then have "project_grant g" using acl_ok_grant(1) [OF ok g] by (simp add: project_grant_def)
    with eq True show ?thesis by (simp add: comparable_def grant_path_def)
  next
    case gk: False
    then obtain repo where "\<forall>r. grant_repository a g r \<longleftrightarrow> r = repo" using acl_ok_grant(2) [OF ok g] by blast
    with grant_home_unique(1) [OF this] have gr: "grant_repository a g r \<longleftrightarrow> r = grant_home a g" for r by simp
    have "\<not> project_grant g" using gk by (simp add: project_grant_def)
    show ?thesis
      unfolding eq gr comparable_def grant_path_def memory_path_def leaf_scope_def
      using gk False \<open>\<not> project_grant g\<close>
      by (cases "g_scope_kind g"; cases "m_scope m") auto
  qed
qed

section \<open>Properties\<close>

text \<open>C26: The nested SQL condition that decides who may read a memory is comparability in the scope
  tree: a principal has a role on a memory exactly when one of its active grants of that project,
  with at least the required role, lies above, at or below the memory's scope. So a grant on a
  ref, worktree or session reaches the project's and its own repository's memories and its own,
  and never those of a sibling scope or another repository; and it has a role on a repository
  exactly when such a grant is comparable with the repository.\<close>

theorem access_is_scope_tree_comparability:
  assumes "acl_ok a"
  shows "(hasMemoryRole a u required mid \<longleftrightarrow>
       (\<exists>g m. active_grant a u required g \<and> m \<in> set (t_memories (ac_db a)) \<and> m_id m = mid \<and>
          m_project m = au_project u \<and> comparable (grant_path a g) (memory_path a m))) \<and>
     (hasRepositoryRole a u required repo \<longleftrightarrow>
       (\<exists>g. active_grant a u required g \<and> (au_project u, repo) \<in> set (t_repositories (ac_db a)) \<and>
          comparable (grant_path a g) [RepositoryStep repo]))"
proof
  show "hasMemoryRole a u required mid \<longleftrightarrow>
       (\<exists>g m. active_grant a u required g \<and> m \<in> set (t_memories (ac_db a)) \<and> m_id m = mid \<and>
          m_project m = au_project u \<and> comparable (grant_path a g) (memory_path a m))"
  proof -
    have "hierarchicalMemoryAccessPredicate a g m \<longleftrightarrow>
        m_project m = g_project g \<and> comparable (grant_path a g) (memory_path a m)"
      if "g \<in> set (t_grants (ac_db a))" "m \<in> set (t_memories (ac_db a))" for g m
      by (rule access_comparable [OF assms that])
    then show ?thesis unfolding hasMemoryRole_def
      by (intro iffI; elim bexE exE conjE) (auto simp: active_grant_def intro!: bexI exI)
  qed
  have "project_grant g \<or> grant_repository a g repo \<longleftrightarrow> comparable (grant_path a g) [RepositoryStep repo]"
    if g: "g \<in> set (t_grants (ac_db a))" for g
  proof (cases "g_scope_kind g = ScopeProject")
    case True
    then show ?thesis using acl_ok_grant(1) [OF assms g] by (simp add: project_grant_def comparable_def grant_path_def)
  next
    case False
    then obtain r0 where "\<forall>r. grant_repository a g r \<longleftrightarrow> r = r0" using acl_ok_grant(2) [OF assms g] by blast
    with grant_home_unique(1) [OF this] False show ?thesis
      by (cases "g_scope_kind g") (auto simp: comparable_def grant_path_def project_grant_def)
  qed
  then show "hasRepositoryRole a u required repo \<longleftrightarrow>
       (\<exists>g. active_grant a u required g \<and> (au_project u, repo) \<in> set (t_repositories (ac_db a)) \<and>
          comparable (grant_path a g) [RepositoryStep repo])"
    unfolding hasRepositoryRole_def by (auto simp: active_grant_def)
qed

text \<open>C27: Authentication succeeds exactly with a bearer token whose digest belongs to a principal
  that is not revoked and holds a grant that is not revoked; the identity it yields is that
  principal's with its strongest active role. Every other header, a missing one included, gives
  \<open>UNAUTHENTICATED\<close>, so a revocation takes effect at the next request.\<close>

theorem authentication_exact:
  "case authenticateProjectBearer hmac pepper authorization a of
     Inr u \<Rightarrow> (\<exists>token n g. authorization = Some (bearer_prefix @ token) \<and> 32 \<le> js_length token \<and>
         js_length token \<le> 4096 \<and> n \<in> set (ac_principals a) \<and> n_revoked_at n = None \<and>
         n_digest n = tokenDigest hmac pepper token \<and> active_grant a u (au_role u) g \<and>
         n_id n = au_principal u \<and> g_role g = au_role u \<and>
         (\<forall>g2\<in>set (t_grants (ac_db a)). g_principal g2 = au_principal u \<and> g_revoked_at g2 = None \<longrightarrow>
            roleRank (g_role g2) \<le> roleRank (au_role u)))
   | Inl e \<Rightarrow> thrown_code e = UNAUTHENTICATED \<and>
       (\<forall>token n g. authorization = Some (bearer_prefix @ token) \<and> 32 \<le> js_length token \<and>
          js_length token \<le> 4096 \<and> 32 \<le> js_length pepper \<and> n \<in> set (ac_principals a) \<and>
          n_digest n = tokenDigest hmac pepper token \<and> n_revoked_at n = None \<longrightarrow>
          g \<in> set (t_grants (ac_db a)) \<and> g_principal g = n_id n \<longrightarrow> g_revoked_at g \<noteq> None)"
proof (cases "authorization")
  case None
  then show ?thesis by (simp add: authenticateProjectBearer_def unauthenticated_def)
next
  case (Some h)
  show ?thesis
  proof (cases "take (length bearer_prefix) h = bearer_prefix")
    case False
    then have "h \<noteq> bearer_prefix @ token" for token by auto
    with Some False show ?thesis by (simp add: authenticateProjectBearer_def unauthenticated_def)
  next
    case True
    define token where "token = drop (length bearer_prefix) h"
    have h: "h = bearer_prefix @ token"
      using True append_take_drop_id [of "length bearer_prefix" h] by (simp add: token_def)
    let ?gs = "principal_grants a (tokenDigest hmac pepper token)"
    have mem: "g \<in> set ?gs \<longleftrightarrow> (\<exists>n\<in>set (ac_principals a). n_digest n = tokenDigest hmac pepper token \<and>
        n_revoked_at n = None \<and> g \<in> set (t_grants (ac_db a)) \<and> g_principal g = n_id n \<and> g_revoked_at g = None)" for g
      by (auto simp: principal_grants_def)
    show ?thesis
    proof (cases "32 \<le> js_length token \<and> js_length token \<le> 4096 \<and> 32 \<le> js_length pepper")
      case False
      then have "authenticateProjectBearer hmac pepper authorization a =
          Inl (unauthenticated ''The bearer token is invalid.'')"
        using Some True by (auto simp: authenticateProjectBearer_def Let_def simp flip: token_def)
      with False Some h show ?thesis by (auto simp: unauthenticated_def)
    next
      case len: True
      show ?thesis
      proof (cases ?gs)
        case Nil
        then have "authenticateProjectBearer hmac pepper authorization a =
            Inl (unauthenticated ''The bearer token is invalid.'')"
          using Some True len by (simp add: authenticateProjectBearer_def Let_def flip: token_def)
        moreover have "g_revoked_at g \<noteq> None"
          if "n \<in> set (ac_principals a)" "n_digest n = tokenDigest hmac pepper token" "n_revoked_at n = None"
            "g \<in> set (t_grants (ac_db a))" "g_principal g = n_id n" for n g
          using mem [of g] Nil that by auto
        ultimately show ?thesis using Some h by (auto simp: unauthenticated_def)
      next
        case (Cons g gs)
        then have res: "authenticateProjectBearer hmac pepper authorization a =
            Inr \<lparr>au_principal = g_principal g, au_project = g_project g, au_role = g_role g\<rparr>"
          using Some True len by (simp add: authenticateProjectBearer_def Let_def flip: token_def)
        have "sorted (map (\<lambda>g. - roleRank (g_role g)) ?gs)"
          by (simp add: principal_grants_def)
        then have strong: "\<forall>g2\<in>set ?gs. roleRank (g_role g2) \<le> roleRank (g_role g)"
          using Cons by auto
        obtain n where n: "n \<in> set (ac_principals a)" "n_digest n = tokenDigest hmac pepper token"
            "n_revoked_at n = None" "g \<in> set (t_grants (ac_db a))" "g_principal g = n_id n" "g_revoked_at g = None"
          using mem [of g] Cons by auto
        have "roleRank (g_role g2) \<le> roleRank (g_role g)"
          if "g2 \<in> set (t_grants (ac_db a))" "g_principal g2 = g_principal g" "g_revoked_at g2 = None" for g2
          using strong mem [of g2] n that by auto
        with n len res Some h show ?thesis
          by (auto simp: active_grant_def intro!: exI [of _ n] exI [of _ g])
      qed
    qed
  qed
qed


section \<open>A concrete principal\<close>

text \<open>A reader bound to one session of repository \<open>repo\<close>; memories on it, on a sibling, on the project.\<close>

definition demo_session_memory :: "string \<Rightarrow> string \<Rightarrow> memory" where
  "demo_session_memory mid sid = demo_memory\<lparr>m_id := str mid, m_scope := ScopeSession, m_scope_id := str sid\<rparr>"

definition demo_acl :: acl where
  "demo_acl =
     \<lparr>ac_db = demo_db\<lparr>t_memories := [demo_memory, demo_session_memory ''a'' ''s'', demo_session_memory ''b'' ''t''],
        t_contexts := [\<lparr>x_project = str ''p'', x_memory = str ''a'', x_repository = str ''repo'', x_created_at = 1\<rparr>,
          \<lparr>x_project = str ''p'', x_memory = str ''b'', x_repository = str ''repo'', x_created_at = 1\<rparr>],
        t_grants := [\<lparr>g_id = str ''g'', g_project = str ''p'', g_principal = str ''u'', g_role = Reader,
          g_scope_kind = ScopeSession, g_scope_id = str ''s'', g_revoked_at = None\<rparr>]\<rparr>,
      ac_principals = [\<lparr>n_id = str ''u'', n_digest = str ''AQ'', n_revoked_at = None\<rparr>],
      ac_contexts = [\<lparr>gc_project = str ''p'', gc_grant = str ''g'', gc_repository = str ''repo''\<rparr>]\<rparr>"

definition demo_user :: authenticated where
  "demo_user = \<lparr>au_principal = str ''u'', au_project = str ''p'', au_role = Reader\<rparr>"

lemma demo_acl_ok: "acl_ok demo_acl"
  by (simp add: acl_ok_def demo_acl_def demo_db_def demo_memory_def demo_session_memory_def
      grant_repository_def) (rule exI [of _ "str ''repo''"], auto)

lemma access_is_scope_tree_comparability_witness:
  "hasMemoryRole demo_acl demo_user Reader (str ''a'') \<and> hasMemoryRole demo_acl demo_user Reader (str ''m'') \<and>
   \<not> hasMemoryRole demo_acl demo_user Reader (str ''b'') \<and>
   (\<exists>g m. active_grant demo_acl demo_user Reader g \<and> m_id m = str ''a'' \<and>
      comparable (grant_path demo_acl g) (memory_path demo_acl m))"
proof -
  have "hasMemoryRole demo_acl demo_user Reader (str ''a'')" "hasMemoryRole demo_acl demo_user Reader (str ''m'')"
    "\<not> hasMemoryRole demo_acl demo_user Reader (str ''b'')"
    by code_simp+
  with access_is_scope_tree_comparability [OF demo_acl_ok, of demo_user Reader "str ''a''" "[]"] show ?thesis by blast
qed

definition demo_token :: ustring where
  "demo_token = replicate 32 65"

lemma authentication_exact_witness:
  "authenticateProjectBearer (\<lambda>k b. [1]) demo_token (Some (bearer_prefix @ demo_token)) demo_acl = Inr demo_user \<and>
   (\<exists>n\<in>set (ac_principals demo_acl). n_revoked_at n = None \<and> n_id n = str ''u'')"
proof -
  have "authenticateProjectBearer (\<lambda>k b. [1]) demo_token (Some (bearer_prefix @ demo_token)) demo_acl = Inr demo_user"
    by code_simp
  with authentication_exact [where hmac = "\<lambda>k b. [1]" and pepper = demo_token and
      authorization = "Some (bearer_prefix @ demo_token)" and a = demo_acl]
  show ?thesis by (auto simp: demo_user_def)
qed

end
