(* ===== verification/Sync_Ledger.thy ===== *)
theory Sync_Ledger
  imports Contracts Canonical_Json
begin

text \<open>
  The D1 tables of the GitHub sync Workflows (\<open>migrations/0019\<close>, \<open>0021\<close>): credential
  lanes, their release receipts, dispatches, dispatch items and materialization receipts, with
  every statement \<open>src/github/sync-workflow.ts\<close> runs on them. A statement gives the new
  state and its row count, or the error of the constraint or trigger that aborts it.

  A stored timestamp is the instant (in milliseconds) that its canonical text names; the texts of
  the years 0 to 9999 order as their instants do. \<open>sl_iso\<close> is \<open>Date.prototype.toISOString\<close>.
\<close>

section \<open>Rows\<close>

record sync_lib =
  sl_sha256 :: "ustring \<Rightarrow> ustring"
  sl_iso :: "int \<Rightarrow> ustring"

datatype holder_kind = DispatchHolder | RefHolder

fun holder_name :: "holder_kind \<Rightarrow> ustring" where
  "holder_name DispatchHolder = str ''dispatch''"
| "holder_name RefHolder = str ''ref''"

text \<open>The four holder columns are null together.\<close>

record lane_holder =
  lh_kind :: holder_kind
  lh_id :: ustring
  lh_claim :: ustring
  lh_until :: int

record lane_row =
  ln_version :: ustring
  ln_holder :: "lane_holder option"
  ln_epoch :: int
  ln_available :: int
  ln_updated :: int

record lane_token =
  tk_version :: ustring
  tk_holder :: lane_holder
  tk_epoch :: int

record release_receipt =
  rr_id :: ustring
  rr_token :: lane_token
  rr_released :: int
  rr_available :: int

datatype dispatch_status = DMaterialized | DDispatching | DComplete | DFailed

record dispatch_identity =
  di_id :: ustring
  di_version :: ustring
  di_instance :: ustring
  di_scheduled :: int
  di_date :: ustring
  di_created :: int

record dispatch_row =
  dp_identity :: dispatch_identity
  dp_status :: dispatch_status
  dp_count :: int
  dp_completed :: "int option"
  dp_error :: "ustring option"

datatype item_status = IPending | IRunning | IComplete | IFailed

record item_row =
  it_id :: ustring
  it_dispatch :: ustring
  it_project :: ustring
  it_repository :: ustring
  it_ref :: ustring
  it_scheduled :: int
  it_full :: bool
  it_configuration :: int
  it_cursor_version :: int
  it_head_manifest :: "ustring option"
  it_head_version :: int
  it_repository_updated :: ustring
  it_cursor_status :: ustring
  it_cursor_updated :: ustring
  it_instance :: ustring
  it_created :: int
  it_status :: item_status
  it_count :: int
  it_overflow :: int
  it_run :: "ustring option"
  it_completed :: "int option"
  it_error :: "ustring option"

record materialization_receipt =
  mx_id :: ustring
  mx_dispatch :: ustring
  mx_count :: int
  mx_completed :: int

text \<open>\<open>sy_clock\<close> is the database's own clock, \<open>strftime('now')\<close>.\<close>

record sync_db =
  sy_lanes :: "lane_row list"
  sy_releases :: "release_receipt list"
  sy_dispatches :: "dispatch_row list"
  sy_items :: "item_row list"
  sy_receipts :: "materialization_receipt list"
  sy_clock :: int

section \<open>Column checks\<close>

definition iso24 :: "int \<Rightarrow> bool" where
  "iso24 t \<longleftrightarrow> -62167219200000 \<le> t \<and> t \<le> 253402300799999"

definition hex_lower :: "ustring \<Rightarrow> bool" where
  "hex_lower s = list_all (\<lambda>c. (48 \<le> c \<and> c \<le> 57) \<or> (97 \<le> c \<and> c \<le> 102)) s"

definition hex64 :: "ustring \<Rightarrow> bool" where
  "hex64 s \<longleftrightarrow> length s = 64 \<and> hex_lower s"

text \<open>\<open>length(x) BETWEEN 1 AND 128 AND trim(x) = x AND instr(x, char(0)) = 0\<close>.\<close>

definition short_text :: "ustring \<Rightarrow> bool" where
  "short_text s \<longleftrightarrow> 1 \<le> length s \<and> length s \<le> 128 \<and> hd s \<noteq> 32 \<and> last s \<noteq> 32 \<and> 0 \<notin> set s"

definition check_failed :: thrown where
  "check_failed = Other (str ''CHECK constraint failed'')"

definition unique_failed :: thrown where
  "unique_failed = Other (str ''UNIQUE constraint failed'')"

definition aborted :: "string \<Rightarrow> thrown" where
  "aborted m = Other (str m)"

section \<open>Credential lanes\<close>

definition lane_of :: "sync_db \<Rightarrow> ustring \<Rightarrow> lane_row option" where
  "lane_of s v = find (\<lambda>r. ln_version r = v) (sy_lanes s)"

definition set_lane :: "ustring \<Rightarrow> (lane_row \<Rightarrow> lane_row) \<Rightarrow> sync_db \<Rightarrow> sync_db" where
  "set_lane v f s = s\<lparr>sy_lanes := update_where (\<lambda>r. ln_version r = v) f (sy_lanes s)\<rparr>"

definition ensure_lane :: "ustring \<Rightarrow> int \<Rightarrow> sync_db \<Rightarrow> thrown + sync_db \<times> nat" where
  "ensure_lane v now s =
     (if \<not> short_text v \<or> \<not> iso24 now then Inl check_failed
      else if lane_of s v \<noteq> None then Inr (s, 0)
      else Inr (s\<lparr>sy_lanes := sy_lanes s @ [\<lparr>ln_version = v, ln_holder = None, ln_epoch = 0,
                 ln_available = now, ln_updated = now\<rparr>]\<rparr>, 1))"

definition same_claim :: "holder_kind \<Rightarrow> ustring \<Rightarrow> ustring \<Rightarrow> lane_holder \<Rightarrow> bool" where
  "same_claim k i c h \<longleftrightarrow> lh_kind h = k \<and> lh_id h = i \<and> lh_claim h = c"

text \<open>The lane is free at \<open>now\<close>: no holder, or an expired lease.\<close>

definition lane_free :: "int \<Rightarrow> lane_row \<Rightarrow> bool" where
  "lane_free now r \<longleftrightarrow> opt_all (\<lambda>h. lh_until h \<le> now) (ln_holder r)"

definition acquire_matches :: "lane_token \<Rightarrow> int \<Rightarrow> lane_row \<Rightarrow> bool" where
  "acquire_matches t now r \<longleftrightarrow> ln_epoch r = tk_epoch t - 1 \<and> ln_epoch r < 9007199254740990 \<and>
     ln_available r \<le> now \<and>
     (lane_free now r \<or>
      opt_all (same_claim (lh_kind (tk_holder t)) (lh_id (tk_holder t)) (lh_claim (tk_holder t)))
        (ln_holder r))"

text \<open>The update that moves the lane to the token's holder and epoch.\<close>

definition acquire_lane :: "lane_token \<Rightarrow> int \<Rightarrow> sync_db \<Rightarrow> thrown + sync_db \<times> nat" where
  "acquire_lane t now s =
     (case lane_of s (tk_version t) of
        None \<Rightarrow> Inr (s, 0)
      | Some r \<Rightarrow>
          if \<not> acquire_matches t now r then Inr (s, 0)
          else if \<not> hex64 (lh_claim (tk_holder t)) \<or> \<not> iso24 (lh_until (tk_holder t)) \<or> \<not> iso24 now
          then Inl check_failed
          else Inr (set_lane (tk_version t)
                 (\<lambda>r. r\<lparr>ln_holder := Some (tk_holder t), ln_epoch := tk_epoch t, ln_updated := now\<rparr>) s, 1))"

text \<open>The lane row carries exactly the token.\<close>

definition carries :: "lane_token \<Rightarrow> lane_row \<Rightarrow> bool" where
  "carries t r \<longleftrightarrow> ln_holder r = Some (tk_holder t) \<and> ln_epoch r = tk_epoch t"

definition held :: "sync_db \<Rightarrow> lane_token \<Rightarrow> bool" where
  "held s t = (case lane_of s (tk_version t) of None \<Rightarrow> False | Some r \<Rightarrow> carries t r)"

definition token_text :: "sync_lib \<Rightarrow> lane_token \<Rightarrow> ustring" where
  "token_text L t = join_with 10 [str ''github.credential.lane.release'', tk_version t,
     holder_name (lh_kind (tk_holder t)), lh_id (tk_holder t), lh_claim (tk_holder t),
     dec_int (tk_epoch t), sl_iso L (lh_until (tk_holder t))]"

definition githubCredentialLaneReleaseReceiptId :: "sync_lib \<Rightarrow> lane_token \<Rightarrow> ustring" where
  "githubCredentialLaneReleaseReceiptId L t = sl_sha256 L (token_text L t)"

definition release_receipt_ok :: "release_receipt \<Rightarrow> bool" where
  "release_receipt_ok q \<longleftrightarrow> short_text (lh_id (tk_holder (rr_token q))) \<and>
     hex64 (lh_claim (tk_holder (rr_token q))) \<and> 0 < tk_epoch (rr_token q) \<and>
     tk_epoch (rr_token q) < 9007199254740991 \<and> iso24 (lh_until (tk_holder (rr_token q))) \<and>
     iso24 (rr_released q) \<and> iso24 (rr_available q) \<and> rr_released q < rr_available q"

definition insert_release :: "release_receipt \<Rightarrow> sync_db \<Rightarrow> thrown + sync_db" where
  "insert_release q s =
     (if \<not> held s (rr_token q) then Inr s
      else if \<not> release_receipt_ok q then Inl check_failed
      else if \<exists>p\<in>set (sy_releases s). rr_id p = rr_id q then Inr s
      else if \<exists>p\<in>set (sy_releases s). tk_version (rr_token p) = tk_version (rr_token q) \<and>
                tk_epoch (rr_token p) = tk_epoch (rr_token q)
      then Inl unique_failed
      else Inr (s\<lparr>sy_releases := sy_releases s @ [q]\<rparr>))"

definition clear_lane :: "lane_token \<Rightarrow> int \<Rightarrow> int \<Rightarrow> sync_db \<Rightarrow> thrown + sync_db" where
  "clear_lane t now available s =
     (if \<not> held s t then Inr s
      else if \<not> iso24 now \<or> \<not> iso24 available then Inl check_failed
      else Inr (set_lane (tk_version t)
             (\<lambda>r. r\<lparr>ln_holder := None, ln_available := available, ln_updated := now\<rparr>) s))"

text \<open>The two statements of a release run as one batch.\<close>

definition release_lane :: "release_receipt \<Rightarrow> sync_db \<Rightarrow> thrown + sync_db \<times> nat" where
  "release_lane q s =
     bind_res (insert_release q s) (\<lambda>s.
     bind_res (clear_lane (rr_token q) (rr_released q) (rr_available q) s) (\<lambda>s. Inr (s, 0)))"

definition released :: "sync_db \<Rightarrow> ustring \<Rightarrow> lane_token \<Rightarrow> bool" where
  "released s i t \<longleftrightarrow> (\<exists>q\<in>set (sy_releases s). rr_id q = i \<and> rr_token q = t)"

section \<open>Dispatches\<close>

definition dispatch_of :: "sync_db \<Rightarrow> ustring \<Rightarrow> dispatch_row option" where
  "dispatch_of s d = find (\<lambda>r. di_id (dp_identity r) = d) (sy_dispatches s)"

definition set_dispatch :: "ustring \<Rightarrow> (dispatch_row \<Rightarrow> dispatch_row) \<Rightarrow> sync_db \<Rightarrow> sync_db" where
  "set_dispatch d f s =
     s\<lparr>sy_dispatches := update_where (\<lambda>r. di_id (dp_identity r) = d) f (sy_dispatches s)\<rparr>"

definition dispatch_identity_ok :: "sync_lib \<Rightarrow> dispatch_identity \<Rightarrow> bool" where
  "dispatch_identity_ok L i \<longleftrightarrow> hex64 (di_id i) \<and> short_text (di_version i) \<and>
     take 4 (di_instance i) = str ''ghd-'' \<and> hex64 (drop 4 (di_instance i)) \<and>
     iso24 (di_scheduled i) \<and> di_date i = take 10 (sl_iso L (di_scheduled i)) \<and> iso24 (di_created i)"

definition insert_dispatch :: "sync_lib \<Rightarrow> dispatch_identity \<Rightarrow> sync_db \<Rightarrow> thrown + sync_db \<times> nat" where
  "insert_dispatch L i s =
     (if \<not> dispatch_identity_ok L i then Inl check_failed
      else if dispatch_of s (di_id i) \<noteq> None then Inr (s, 0)
      else if \<exists>r\<in>set (sy_dispatches s). di_instance (dp_identity r) = di_instance i \<or>
                (di_version (dp_identity r) = di_version i \<and> di_scheduled (dp_identity r) = di_scheduled i)
      then Inl unique_failed
      else Inr (s\<lparr>sy_dispatches := sy_dispatches s @ [\<lparr>dp_identity = i, dp_status = DMaterialized,
                 dp_count = 0, dp_completed = None, dp_error = None\<rparr>]\<rparr>, 1))"

text \<open>Trigger \<open>github_sync_dispatches_transition_guard\<close> and the status check of the table.\<close>

fun dispatch_transition :: "dispatch_status \<Rightarrow> dispatch_status \<Rightarrow> bool" where
  "dispatch_transition DMaterialized n \<longleftrightarrow> n = DDispatching \<or> n = DFailed"
| "dispatch_transition DDispatching n \<longleftrightarrow> n = DComplete \<or> n = DFailed"
| "dispatch_transition DComplete n \<longleftrightarrow> False"
| "dispatch_transition DFailed n \<longleftrightarrow> False"

fun dispatch_columns_ok :: "dispatch_status \<Rightarrow> int option \<Rightarrow> ustring option \<Rightarrow> bool" where
  "dispatch_columns_ok DComplete c e \<longleftrightarrow> c \<noteq> None \<and> opt_all iso24 c \<and> e = None"
| "dispatch_columns_ok DFailed c e \<longleftrightarrow> c \<noteq> None \<and> opt_all iso24 c \<and> e \<noteq> None"
| "dispatch_columns_ok _ c e \<longleftrightarrow> c = None \<and> e = None"

definition open_dispatch :: "dispatch_row \<Rightarrow> bool" where
  "open_dispatch r \<longleftrightarrow> dp_status r = DMaterialized \<or> dp_status r = DDispatching"

definition update_dispatch_status ::
  "ustring \<Rightarrow> dispatch_status \<Rightarrow> int option \<Rightarrow> ustring option \<Rightarrow> sync_db \<Rightarrow> thrown + sync_db \<times> nat" where
  "update_dispatch_status d n c e s =
     (case dispatch_of s d of
        None \<Rightarrow> Inr (s, 0)
      | Some r \<Rightarrow>
          if \<not> open_dispatch r then Inr (s, 0)
          else if \<not> dispatch_transition (dp_status r) n
          then Inl (aborted ''GitHub sync dispatch transition is invalid'')
          else if \<not> dispatch_columns_ok n c e then Inl check_failed
          else Inr (set_dispatch d (\<lambda>r. r\<lparr>dp_status := n, dp_completed := c, dp_error := e\<rparr>) s, 1))"

definition items_of :: "sync_db \<Rightarrow> ustring \<Rightarrow> item_row list" where
  "items_of s d = filter (\<lambda>x. it_dispatch x = d) (sy_items s)"

definition item_total :: "sync_db \<Rightarrow> ustring \<Rightarrow> int" where
  "item_total s d = int (length (items_of s d))"

definition dispatched :: "dispatch_row \<Rightarrow> bool" where
  "dispatched r \<longleftrightarrow> dp_status r = DDispatching \<or> dp_status r = DComplete"

definition insert_materialization :: "materialization_receipt \<Rightarrow> sync_db \<Rightarrow> thrown + sync_db" where
  "insert_materialization q s =
     (case dispatch_of s (mx_dispatch q) of
        None \<Rightarrow> Inr s
      | Some r \<Rightarrow>
          if \<not> dispatched r \<or> item_total s (mx_dispatch q) \<noteq> mx_count q then Inr s
          else if \<not> (0 \<le> mx_count q \<and> mx_count q < 9007199254740991) \<or> \<not> iso24 (mx_completed q)
          then Inl check_failed
          else if \<exists>p\<in>set (sy_receipts s). mx_id p = mx_id q then Inr s
          else if \<exists>p\<in>set (sy_receipts s). mx_dispatch p = mx_dispatch q then Inl unique_failed
          else Inr (s\<lparr>sy_receipts := sy_receipts s @ [q]\<rparr>))"

text \<open>\<open>materialized\<close> becomes \<open>dispatching\<close>, then the receipt; one batch.\<close>

definition start_dispatching :: "ustring \<Rightarrow> sync_db \<Rightarrow> sync_db" where
  "start_dispatching d s =
     (case dispatch_of s d of
        None \<Rightarrow> s
      | Some r \<Rightarrow> if dp_status r = DMaterialized then set_dispatch d (\<lambda>r. r\<lparr>dp_status := DDispatching\<rparr>) s else s)"

definition materialize :: "materialization_receipt \<Rightarrow> sync_db \<Rightarrow> thrown + sync_db \<times> nat" where
  "materialize q s =
     bind_res (insert_materialization q (start_dispatching (mx_dispatch q) s)) (\<lambda>s. Inr (s, 0))"

section \<open>Request counters\<close>

definition live :: "sync_db \<Rightarrow> lane_token \<Rightarrow> bool" where
  "live s t \<longleftrightarrow> held s t \<and> sy_clock s < lh_until (tk_holder t)"

definition item_of :: "sync_db \<Rightarrow> ustring \<Rightarrow> item_row option" where
  "item_of s i = find (\<lambda>x. it_id x = i) (sy_items s)"

definition set_item :: "ustring \<Rightarrow> (item_row \<Rightarrow> item_row) \<Rightarrow> sync_db \<Rightarrow> sync_db" where
  "set_item i f s = s\<lparr>sy_items := update_where (\<lambda>x. it_id x = i) f (sy_items s)\<rparr>"

text \<open>Trigger \<open>github_sync_dispatches_request_count_guard\<close> and the 0 to 900 check.\<close>

definition reserve_dispatch ::
  "ustring \<Rightarrow> lane_token \<Rightarrow> int \<Rightarrow> int \<Rightarrow> int \<Rightarrow> sync_db \<Rightarrow> thrown + sync_db \<times> nat" where
  "reserve_dispatch d t amount current limit s =
     (case dispatch_of s d of
        None \<Rightarrow> Inr (s, 0)
      | Some r \<Rightarrow>
          if \<not> (dp_status r = DMaterialized \<and> dp_count r = current \<and> dp_count r < limit \<and> live s t)
          then Inr (s, 0)
          else if amount \<le> 0 \<or> 100 < amount
          then Inl (aborted ''GitHub sync dispatch request count update is invalid'')
          else if 900 < dp_count r + amount then Inl check_failed
          else Inr (set_dispatch d (\<lambda>r. r\<lparr>dp_count := dp_count r + amount\<rparr>) s, 1))"

definition reserve_item ::
  "ustring \<Rightarrow> lane_token \<Rightarrow> int \<Rightarrow> int \<Rightarrow> int \<Rightarrow> sync_db \<Rightarrow> thrown + sync_db \<times> nat" where
  "reserve_item i t amount current limit s =
     (case item_of s i of
        None \<Rightarrow> Inr (s, 0)
      | Some x \<Rightarrow>
          if \<not> (it_status x = IRunning \<and> it_count x = current \<and> it_count x < limit \<and>
                it_overflow x = 0 \<and> live s t)
          then Inr (s, 0)
          else if amount \<le> 0 \<or> 100 < amount
          then Inl (aborted ''GitHub sync dispatch item request count update is invalid'')
          else if 2005 < it_count x + amount then Inl check_failed
          else Inr (set_item i (\<lambda>x. x\<lparr>it_count := it_count x + amount\<rparr>) s, 1))"

definition reserve_overflow ::
  "ustring \<Rightarrow> lane_token \<Rightarrow> int \<Rightarrow> int \<Rightarrow> int \<Rightarrow> sync_db \<Rightarrow> thrown + sync_db \<times> nat" where
  "reserve_overflow i t amount current limit s =
     (case item_of s i of
        None \<Rightarrow> Inr (s, 0)
      | Some x \<Rightarrow>
          if \<not> (it_status x = IRunning \<and> it_overflow x = current \<and> it_overflow x < limit \<and>
                it_count x = 2005 \<and> live s t)
          then Inr (s, 0)
          else if amount \<le> 0 \<or> 8 < amount
          then Inl (aborted ''GitHub sync dispatch item request overflow update is invalid'')
          else if 8 < it_overflow x + amount then Inl check_failed
          else Inr (set_item i (\<lambda>x. x\<lparr>it_overflow := it_overflow x + amount\<rparr>) s, 1))"

section \<open>Lookup after update\<close>

lemma find_updated_rows:
  assumes "\<And>x. p (f x) = p x"
  shows "find p (update_where q f xs) =
    (case find p xs of None \<Rightarrow> None | Some x \<Rightarrow> Some (if q x then f x else x))"
  by (induction xs) (auto simp: assms)

lemma find_append_cases: "find p (xs @ ys) = (case find p xs of None \<Rightarrow> find p ys | Some x \<Rightarrow> Some x)"
  by (induction xs) auto

lemma lane_of_version: "lane_of s v = Some r \<Longrightarrow> ln_version r = v"
  by (auto simp: lane_of_def dest: find_SomeD)

lemma dispatch_of_id: "dispatch_of s d = Some r \<Longrightarrow> di_id (dp_identity r) = d"
  by (auto simp: dispatch_of_def dest: find_SomeD)

lemma item_of_id: "item_of s i = Some x \<Longrightarrow> it_id x = i"
  by (auto simp: item_of_def dest: find_SomeD)

lemma lane_of_set_lane:
  assumes "\<And>r. ln_version (f r) = ln_version r"
  shows "lane_of (set_lane v f s) w =
    (case lane_of s w of None \<Rightarrow> None | Some r \<Rightarrow> Some (if w = v then f r else r))"
  by (auto simp: lane_of_def set_lane_def find_updated_rows assms split: option.splits dest: find_SomeD)

lemma dispatch_of_set_dispatch:
  assumes "\<And>r. di_id (dp_identity (f r)) = di_id (dp_identity r)"
  shows "dispatch_of (set_dispatch d f s) e =
    (case dispatch_of s e of None \<Rightarrow> None | Some r \<Rightarrow> Some (if e = d then f r else r))"
  by (auto simp: dispatch_of_def set_dispatch_def find_updated_rows assms split: option.splits dest: find_SomeD)

lemma item_of_set_item:
  assumes "\<And>x. it_id (f x) = it_id x"
  shows "item_of (set_item i f s) j =
    (case item_of s j of None \<Rightarrow> None | Some x \<Rightarrow> Some (if j = i then f x else x))"
  by (auto simp: item_of_def set_item_def find_updated_rows assms split: option.splits dest: find_SomeD)

lemma set_frames [simp]:
  "sy_lanes (set_dispatch d g s) = sy_lanes s" "sy_lanes (set_item i h s) = sy_lanes s"
  "sy_releases (set_lane v f s) = sy_releases s" "sy_releases (set_dispatch d g s) = sy_releases s"
  "sy_releases (set_item i h s) = sy_releases s"
  "sy_dispatches (set_lane v f s) = sy_dispatches s" "sy_dispatches (set_item i h s) = sy_dispatches s"
  "sy_items (set_lane v f s) = sy_items s" "sy_items (set_dispatch d g s) = sy_items s"
  "sy_receipts (set_lane v f s) = sy_receipts s" "sy_receipts (set_dispatch d g s) = sy_receipts s"
  "sy_receipts (set_item i h s) = sy_receipts s"
  "sy_clock (set_lane v f s) = sy_clock s" "sy_clock (set_dispatch d g s) = sy_clock s"
  "sy_clock (set_item i h s) = sy_clock s"
  by (simp_all add: set_lane_def set_dispatch_def set_item_def)

end
