(* ===== verification/Json_Lines.thy ===== *)
theory Json_Lines
  imports Canonical_Json
begin

text \<open>
  Texts joined by newlines, the form in which the code hashes lists of values, and the JSON texts
  among them, which hold no newline.
\<close>

definition line :: "ustring \<Rightarrow> bool" where
  "line s \<longleftrightarrow> 10 \<notin> set s"

lemma split_on_join: "\<forall>z\<in>set zs. c \<notin> set z \<Longrightarrow> zs \<noteq> [] \<Longrightarrow> split_on c (join_with c zs) = zs"
  by (induction c zs rule: join_with.induct) (simp_all add: split_on_none split_on_append)

lemma join_lines_inj:
  assumes "join_with 10 xs = join_with 10 ys" "\<forall>x\<in>set xs. line x" "\<forall>y\<in>set ys. line y"
    "length xs = length ys"
  shows "xs = ys"
proof (cases "xs = []")
  case False
  with assms(4) have "ys \<noteq> []" by auto
  have "split_on 10 (join_with 10 xs) = xs" "split_on 10 (join_with 10 ys) = ys"
    using assms(2,3) False \<open>ys \<noteq> []\<close> by (simp_all add: line_def split_on_join)
  with assms(1) show ?thesis by metis
qed (use assms(4) in auto)

lemma json_string_line: "line (json_string s)"
proof -
  have "10 \<notin> set (json_char c)" for c
    by (auto simp: json_char_def hex_lower_def)
  then show ?thesis by (auto simp: line_def json_string_def)
qed

lemma join_with_notin: "c \<noteq> d \<Longrightarrow> \<forall>x\<in>set xs. d \<notin> set x \<Longrightarrow> d \<notin> set (join_with c xs)"
  by (induction c xs rule: join_with.induct) auto

lemma flat_serialize_line:
  assumes "\<forall>j\<in>set js. j = JNull \<or> (\<exists>n. j = JNum n) \<or> (\<exists>s. j = JStr s)"
  shows "line (serialize (JArr js))"
proof -
  have "10 \<notin> set (serialize j)" if "j \<in> set js" for j
    using assms that json_string_line dec_int_chars [of 10] by (fastforce simp: line_def)
  then show ?thesis by (simp add: line_def join_with_notin)
qed

lemma serialize_array_inj:
  assumes "serialize (JArr xs) = serialize (JArr ys)"
    "\<forall>j\<in>set xs \<union> set ys. j = JNull \<or> (\<exists>n. j = JNum n) \<or> (\<exists>s. j = JStr s)"
  shows "xs = ys"
proof -
  have "canonical (JArr xs) = canonical (JArr ys)"
    using serialize_prefix [of "JArr xs" "[]" "JArr ys" "[]"] assms(1) by (simp add: delimited_def)
  then have "map canonical xs = map canonical ys" by simp
  moreover have "map canonical zs = zs"
    if "\<forall>j\<in>set zs. j = JNull \<or> (\<exists>n. j = JNum n) \<or> (\<exists>s. j = JStr s)" for zs
    using that by (induction zs) auto
  ultimately show ?thesis using assms(2) by simp
qed

end
