(* ===== verification/Fenced_Lease.thy ===== *)
theory Fenced_Lease
  imports Main
begin

text \<open>
  What a fenced lease promises: a holder keeps it until its lease ends, and whoever holds it later
  has a higher rank. The credential lane of the sync Workflows and the purge claims of tree
  manifests are its instances.
\<close>

locale fenced_lease =
  fixes step :: "'s \<Rightarrow> 's \<Rightarrow> bool"
    and inv :: "'s \<Rightarrow> bool"
    and holds :: "'s \<Rightarrow> 't \<Rightarrow> bool"
    and ended :: "'s \<Rightarrow> 't \<Rightarrow> bool"
    and lane :: "'t \<Rightarrow> 'l"
    and rank :: "'t \<Rightarrow> int"
  assumes inv_step: "step s s' \<Longrightarrow> inv s \<Longrightarrow> inv s'"
    and holds_step: "step s s' \<Longrightarrow> inv s \<Longrightarrow> holds s t \<Longrightarrow> holds s' t \<or> ended s' t"
    and ended_step: "step s s' \<Longrightarrow> inv s \<Longrightarrow> ended s t \<Longrightarrow> ended s' t"
    and holds_unique: "holds s t \<Longrightarrow> holds s u \<Longrightarrow> lane t = lane u \<Longrightarrow> t = u"
    and ended_later: "ended s t \<Longrightarrow> holds s u \<Longrightarrow> lane t = lane u \<Longrightarrow> rank t < rank u"
begin

lemma inv_run: "step\<^sup>*\<^sup>* s s' \<Longrightarrow> inv s \<Longrightarrow> inv s'"
  by (induction rule: rtranclp_induct) (auto intro: inv_step)

lemma ended_run: "step\<^sup>*\<^sup>* s s' \<Longrightarrow> inv s \<Longrightarrow> ended s t \<Longrightarrow> ended s' t"
proof (induction rule: rtranclp_induct)
  case (step y z)
  then show ?case by (auto intro: ended_step dest: inv_run)
qed

lemma holds_run: "step\<^sup>*\<^sup>* s s' \<Longrightarrow> inv s \<Longrightarrow> holds s t \<Longrightarrow> holds s' t \<or> ended s' t"
proof (induction rule: rtranclp_induct)
  case (step y z)
  then have "inv y" by (auto dest: inv_run)
  with step show ?case by (auto intro: ended_step dest: holds_step)
qed simp

text \<open>A later holder is the same one, or comes after the end of the earlier lease with a higher rank.\<close>

lemma exclusion:
  assumes "step\<^sup>*\<^sup>* s s'" "inv s" "holds s t" "holds s' u" "lane t = lane u"
  shows "t = u \<or> (ended s' t \<and> rank t < rank u)"
  using holds_run [OF assms(1,2,3)] assms(4,5) holds_unique [of s' t u] ended_later [of s' t u] by blast

lemma same_rank_same_holder:
  assumes "step\<^sup>*\<^sup>* s s'" "inv s" "holds s t" "holds s' u" "lane t = lane u" "rank t = rank u"
  shows "t = u"
  using exclusion [OF assms(1-5)] assms(6) by auto

end

end
