(* ===== verification/Sync_System.thy ===== *)
theory Sync_System
  imports Sync_Ledger Json_Lines Fenced_Lease
begin

text \<open>
  The GitHub sync ledger as a system: one step is one statement (or one batch) of any Workflow,
  or time passing.
\<close>

section \<open>What each statement does\<close>

lemma ensure_lane_cases:
  assumes "ensure_lane v now s = Inr (s', n)"
  shows "s' = s \<and> lane_of s v \<noteq> None \<or>
    short_text v \<and> iso24 now \<and> lane_of s v = None \<and> s' = s\<lparr>sy_lanes := sy_lanes s @ [\<lparr>ln_version = v,
      ln_holder = None, ln_epoch = 0, ln_available = now, ln_updated = now\<rparr>]\<rparr>"
  using assms by (auto simp: ensure_lane_def split: if_splits)

definition grant_lane :: "lane_token \<Rightarrow> int \<Rightarrow> lane_row \<Rightarrow> lane_row" where
  "grant_lane t now r = r\<lparr>ln_holder := Some (tk_holder t), ln_epoch := tk_epoch t, ln_updated := now\<rparr>"

lemma acquire_lane_cases:
  assumes "acquire_lane t now s = Inr (s', n)"
  shows "s' = s \<and> n = 0 \<and> opt_all (\<lambda>r. \<not> acquire_matches t now r) (lane_of s (tk_version t)) \<or>
    n = 1 \<and> (\<exists>r. lane_of s (tk_version t) = Some r \<and> acquire_matches t now r \<and>
       hex64 (lh_claim (tk_holder t)) \<and> iso24 (lh_until (tk_holder t)) \<and>
       s' = set_lane (tk_version t) (grant_lane t now) s)"
  using assms by (auto simp: acquire_lane_def grant_lane_def [abs_def] split: option.splits if_splits)

definition clear_holder :: "release_receipt \<Rightarrow> lane_row \<Rightarrow> lane_row" where
  "clear_holder q r = r\<lparr>ln_holder := None, ln_available := rr_available q, ln_updated := rr_released q\<rparr>"

lemma held_frame: "sy_lanes s' = sy_lanes s \<Longrightarrow> held s' t = held s t"
  by (simp add: held_def lane_of_def)

lemma insert_release_cases:
  assumes "insert_release q s = Inr s'"
  shows "s' = s \<and> (held s (rr_token q) \<longrightarrow> (\<exists>p\<in>set (sy_releases s). rr_id p = rr_id q)) \<or>
    s' = s\<lparr>sy_releases := sy_releases s @ [q]\<rparr> \<and> held s (rr_token q) \<and> release_receipt_ok q \<and>
      \<not> (\<exists>p\<in>set (sy_releases s). tk_version (rr_token p) = tk_version (rr_token q) \<and>
            tk_epoch (rr_token p) = tk_epoch (rr_token q))"
  using assms by (auto simp: insert_release_def split: if_splits)

lemma clear_lane_cases:
  assumes "clear_lane (rr_token q) (rr_released q) (rr_available q) s = Inr s'"
  shows "s' = s \<and> \<not> held s (rr_token q) \<or>
    held s (rr_token q) \<and> s' = set_lane (tk_version (rr_token q)) (clear_holder q) s"
  using assms by (auto simp: clear_lane_def clear_holder_def [abs_def] split: if_splits)

text \<open>A release that commits changes nothing, or frees the lane of its token next to a receipt.\<close>

lemma release_lane_cases:
  assumes "release_lane q s = Inr (s', n)"
  shows "s' = s \<and> \<not> held s (rr_token q) \<or>
    held s (rr_token q) \<and> sy_lanes s' = sy_lanes (set_lane (tk_version (rr_token q)) (clear_holder q) s) \<and>
    (sy_releases s' = sy_releases s \<and> (\<exists>p\<in>set (sy_releases s). rr_id p = rr_id q) \<or>
     sy_releases s' = sy_releases s @ [q] \<and> release_receipt_ok q) \<and>
    sy_dispatches s' = sy_dispatches s \<and> sy_items s' = sy_items s \<and> sy_receipts s' = sy_receipts s \<and>
    sy_clock s' = sy_clock s"
proof -
  obtain a where a: "insert_release q s = Inr a" and
      c: "clear_lane (rr_token q) (rr_released q) (rr_available q) a = Inr s'"
    using assms by (auto simp: release_lane_def bind_res_Inr_iff)
  from insert_release_cases [OF a] have "sy_lanes a = sy_lanes s" by auto
  then have "held a (rr_token q) = held s (rr_token q)" by (rule held_frame)
  with insert_release_cases [OF a] clear_lane_cases [OF c] show ?thesis
    by (elim disjE conjE) (simp_all add: set_lane_def)
qed

lemma insert_dispatch_cases:
  assumes "insert_dispatch L i s = Inr (s', n)"
  shows "s' = s \<and> dispatch_of s (di_id i) \<noteq> None \<or>
    dispatch_identity_ok L i \<and> dispatch_of s (di_id i) = None \<and>
    s' = s\<lparr>sy_dispatches := sy_dispatches s @ [\<lparr>dp_identity = i, dp_status = DMaterialized,
        dp_count = 0, dp_completed = None, dp_error = None\<rparr>]\<rparr>"
  using assms by (auto simp: insert_dispatch_def split: if_splits)

lemma update_dispatch_status_cases:
  assumes "update_dispatch_status d m c e s = Inr (s', n)"
  shows "s' = s \<and> n = 0 \<and> opt_all (\<lambda>r. \<not> open_dispatch r) (dispatch_of s d) \<or>
    n = 1 \<and> (\<exists>r. dispatch_of s d = Some r \<and> dispatch_transition (dp_status r) m \<and> dispatch_columns_ok m c e \<and>
       s' = set_dispatch d (\<lambda>r. r\<lparr>dp_status := m, dp_completed := c, dp_error := e\<rparr>) s)"
  using assms by (auto simp: update_dispatch_status_def split: option.splits if_splits)

lemma start_dispatching_cases:
  "start_dispatching d s = s \<and> opt_all (\<lambda>r. dp_status r \<noteq> DMaterialized) (dispatch_of s d) \<or>
   (\<exists>r. dispatch_of s d = Some r \<and> dp_status r = DMaterialized \<and>
      start_dispatching d s = set_dispatch d (\<lambda>r. r\<lparr>dp_status := DDispatching\<rparr>) s)"
  by (auto simp: start_dispatching_def split: option.splits)

lemma insert_materialization_cases:
  assumes "insert_materialization q s = Inr s'"
  shows "s' = s \<or> (\<exists>r. dispatch_of s (mx_dispatch q) = Some r \<and> dispatched r \<and>
      item_total s (mx_dispatch q) = mx_count q \<and>
      \<not> (\<exists>p\<in>set (sy_receipts s). mx_id p = mx_id q \<or> mx_dispatch p = mx_dispatch q) \<and>
      s' = s\<lparr>sy_receipts := sy_receipts s @ [q]\<rparr>)"
  using assms by (auto simp: insert_materialization_def split: option.splits if_splits)

lemma materialize_cases:
  assumes "materialize q s = Inr (s', n)"
  shows "insert_materialization q (start_dispatching (mx_dispatch q) s) = Inr s'"
  using assms by (auto simp: materialize_def bind_res_Inr_iff)

lemma reserve_dispatch_cases:
  assumes "reserve_dispatch d t a c l s = Inr (s', n)"
  shows "s' = s \<and> n = 0 \<or> n = 1 \<and> (\<exists>r. dispatch_of s d = Some r \<and> dp_status r = DMaterialized \<and>
     dp_count r = c \<and> c < l \<and> live s t \<and> 0 < a \<and> a \<le> 100 \<and> dp_count r + a \<le> 900 \<and>
     s' = set_dispatch d (\<lambda>r. r\<lparr>dp_count := dp_count r + a\<rparr>) s)"
  using assms by (auto simp: reserve_dispatch_def split: option.splits if_splits)

lemma reserve_item_cases:
  assumes "reserve_item i t a c l s = Inr (s', n)"
  shows "s' = s \<and> n = 0 \<or> n = 1 \<and> (\<exists>x. item_of s i = Some x \<and> it_status x = IRunning \<and>
     it_count x = c \<and> c < l \<and> it_overflow x = 0 \<and> live s t \<and> 0 < a \<and> a \<le> 100 \<and>
     it_count x + a \<le> 2005 \<and> s' = set_item i (\<lambda>x. x\<lparr>it_count := it_count x + a\<rparr>) s)"
  using assms by (auto simp: reserve_item_def split: option.splits if_splits)

lemma reserve_overflow_cases:
  assumes "reserve_overflow i t a c l s = Inr (s', n)"
  shows "s' = s \<and> n = 0 \<or> n = 1 \<and> (\<exists>x. item_of s i = Some x \<and> it_status x = IRunning \<and>
     it_overflow x = c \<and> c < l \<and> it_count x = 2005 \<and> live s t \<and> 0 < a \<and> a \<le> 8 \<and>
     it_overflow x + a \<le> 8 \<and> s' = set_item i (\<lambda>x. x\<lparr>it_overflow := it_overflow x + a\<rparr>) s)"
  using assms by (auto simp: reserve_overflow_def split: option.splits if_splits)

section \<open>Steps\<close>

text \<open>
  Items are inserted pending, with no requests spent, and only while their dispatch is
  \<open>materialized\<close> (the guard of \<open>DISPATCH_ITEM_GUARD_CTES\<close>); their status moves as the
  item triggers allow.
\<close>

definition fresh_item :: "sync_db \<Rightarrow> item_row \<Rightarrow> bool" where
  "fresh_item s x \<longleftrightarrow> hex64 (it_id x) \<and> item_of s (it_id x) = None \<and> it_status x = IPending \<and> it_count x = 0 \<and>
     it_overflow x = 0 \<and> it_run x = None \<and> it_completed x = None \<and> it_error x = None \<and>
     (case dispatch_of s (it_dispatch x) of None \<Rightarrow> False | Some r \<Rightarrow> dp_status r = DMaterialized)"

fun item_transition :: "item_status \<Rightarrow> item_status \<Rightarrow> bool" where
  "item_transition IPending n \<longleftrightarrow> n = IRunning \<or> n = IFailed"
| "item_transition IRunning n \<longleftrightarrow> n = IComplete \<or> n = IFailed"
| "item_transition IComplete n \<longleftrightarrow> False"
| "item_transition IFailed n \<longleftrightarrow> False"

definition move_item ::
  "item_status \<Rightarrow> ustring option \<Rightarrow> int option \<Rightarrow> ustring option \<Rightarrow> item_row \<Rightarrow> item_row" where
  "move_item n run c e x = x\<lparr>it_status := n, it_run := run, it_completed := c, it_error := e\<rparr>"

text \<open>
  A Workflow claims a lane with a clock that is not ahead of the database's, and only after it
  read the row of that epoch and found it free: the guard of \<open>tryAcquireGitHubCredentialLane\<close>.
\<close>

definition read_free :: "lane_token \<Rightarrow> int \<Rightarrow> sync_db \<Rightarrow> bool" where
  "read_free t now s \<longleftrightarrow> opt_all (\<lambda>r. ln_epoch r = tk_epoch t - 1 \<longrightarrow> lane_free now r) (lane_of s (tk_version t))"

inductive sync_step :: "sync_lib \<Rightarrow> sync_db \<Rightarrow> sync_db \<Rightarrow> bool" for L where
  ensure: "ensure_lane v now s = Inr (s', n) \<Longrightarrow> sync_step L s s'"
| acquire: "acquire_lane t now s = Inr (s', n) \<Longrightarrow> now \<le> sy_clock s \<Longrightarrow> read_free t now s \<Longrightarrow>
    line (tk_version t) \<Longrightarrow> line (lh_id (tk_holder t)) \<Longrightarrow> sync_step L s s'"
| release: "release_lane q s = Inr (s', n) \<Longrightarrow>
    rr_id q = githubCredentialLaneReleaseReceiptId L (rr_token q) \<Longrightarrow> sync_step L s s'"
| establish: "insert_dispatch L i s = Inr (s', n) \<Longrightarrow> sync_step L s s'"
| status: "update_dispatch_status d m c e s = Inr (s', n) \<Longrightarrow> sync_step L s s'"
| materialized: "materialize x s = Inr (s', n) \<Longrightarrow> sync_step L s s'"
| dispatch_requests: "reserve_dispatch d t a c l s = Inr (s', n) \<Longrightarrow> sync_step L s s'"
| item_requests: "reserve_item i t a c l s = Inr (s', n) \<Longrightarrow> sync_step L s s'"
| overflow_requests: "reserve_overflow i t a c l s = Inr (s', n) \<Longrightarrow> sync_step L s s'"
| new_item: "fresh_item s x \<Longrightarrow> sync_step L s (s\<lparr>sy_items := sy_items s @ [x]\<rparr>)"
| item_status: "item_of s i = Some x \<Longrightarrow> item_transition (it_status x) m \<Longrightarrow>
    sync_step L s (set_item i (move_item m run c e) s)"
| tick: "sy_clock s \<le> now \<Longrightarrow> sync_step L s (s\<lparr>sy_clock := now\<rparr>)"

definition empty_ledger :: "int \<Rightarrow> sync_db" where
  "empty_ledger now = \<lparr>sy_lanes = [], sy_releases = [], sy_dispatches = [], sy_items = [],
     sy_receipts = [], sy_clock = now\<rparr>"

end
