(* ===== verification/Lane_Fencing.thy ===== *)
theory Lane_Fencing
  imports Sync_System
begin

text \<open>
  The credential lane is a fenced lease: an epoch names one holder, and a lane changes hands
  only after its release is recorded or its lease has run out. Digests of distinct tokens are
  taken not to collide (\<open>lane_lib_ok\<close>).
\<close>

section \<open>Release digests\<close>

definition token_lines :: "lane_token \<Rightarrow> bool" where
  "token_lines t \<longleftrightarrow> line (tk_version t) \<and> line (lh_id (tk_holder t)) \<and> line (lh_claim (tk_holder t))"

definition lane_lib_ok :: "sync_lib \<Rightarrow> bool" where
  "lane_lib_ok L \<longleftrightarrow> inj_on (sl_sha256 L) (token_text L ` {t. token_lines t}) \<and>
     inj (sl_iso L) \<and> (\<forall>t. line (sl_iso L t))"

lemma holder_name_inj: "holder_name k = holder_name j \<Longrightarrow> k = j"
  by (cases k; cases j) simp_all

lemma token_text_inj:
  assumes "lane_lib_ok L" "token_lines t" "token_lines u" "token_text L t = token_text L u"
  shows "t = u"
proof -
  have lines: "line (holder_name k)" "line (dec_int e)" "line (sl_iso L i)"
      "line (str ''github.credential.lane.release'')" for k e i
    using assms(1) dec_int_chars [of 10 e] by (cases k; auto simp: line_def lane_lib_ok_def)+
  have "[str ''github.credential.lane.release'', tk_version t, holder_name (lh_kind (tk_holder t)),
        lh_id (tk_holder t), lh_claim (tk_holder t), dec_int (tk_epoch t), sl_iso L (lh_until (tk_holder t))] =
      [str ''github.credential.lane.release'', tk_version u, holder_name (lh_kind (tk_holder u)),
        lh_id (tk_holder u), lh_claim (tk_holder u), dec_int (tk_epoch u), sl_iso L (lh_until (tk_holder u))]"
    using assms(2,3,4) by (intro join_lines_inj) (simp_all add: token_text_def token_lines_def lines del: str_eval)
  then show ?thesis
    using assms(1) by (auto simp: lane_lib_ok_def inj_eq dest: holder_name_inj intro!: lane_token.equality lane_holder.equality)
qed

lemma receipt_id_inj:
  assumes "lane_lib_ok L" "token_lines t" "token_lines u"
    "githubCredentialLaneReleaseReceiptId L t = githubCredentialLaneReleaseReceiptId L u"
  shows "t = u"
proof -
  have "token_text L t = token_text L u"
    using assms by (auto simp: lane_lib_ok_def githubCredentialLaneReleaseReceiptId_def inj_on_def)
  with assms show ?thesis by (auto dest: token_text_inj)
qed

section \<open>The invariant\<close>

definition holder_lines :: "lane_row \<Rightarrow> bool" where
  "holder_lines r \<longleftrightarrow> opt_all (\<lambda>h. line (ln_version r) \<and> line (lh_id h) \<and> line (lh_claim h)) (ln_holder r)"

definition receipt_exact :: "sync_lib \<Rightarrow> release_receipt \<Rightarrow> bool" where
  "receipt_exact L q \<longleftrightarrow> rr_id q = githubCredentialLaneReleaseReceiptId L (rr_token q) \<and> token_lines (rr_token q)"

definition lane_inv :: "sync_lib \<Rightarrow> sync_db \<Rightarrow> bool" where
  "lane_inv L s \<longleftrightarrow> lane_lib_ok L \<and> (\<forall>r\<in>set (sy_lanes s). holder_lines r) \<and>
     (\<forall>q\<in>set (sy_releases s). receipt_exact L q)"

text \<open>The lease of \<open>t\<close> is over: the lane is past its epoch, and it was released or has expired.\<close>

definition ended :: "sync_lib \<Rightarrow> sync_db \<Rightarrow> lane_token \<Rightarrow> bool" where
  "ended L s t \<longleftrightarrow>
     (case lane_of s (tk_version t) of
        None \<Rightarrow> False
      | Some r \<Rightarrow> tk_epoch t < ln_epoch r \<or> (tk_epoch t = ln_epoch r \<and> ln_holder r = None)) \<and>
     (released s (githubCredentialLaneReleaseReceiptId L t) t \<or> lh_until (tk_holder t) \<le> sy_clock s)"

lemma held_lines: "lane_inv L s \<Longrightarrow> held s t \<Longrightarrow> token_lines t"
  by (auto simp: lane_inv_def held_def carries_def holder_lines_def token_lines_def lane_of_def
      split: option.splits dest!: find_SomeD)

lemma hex64_line: "hex64 s \<Longrightarrow> line s"
  by (auto simp: hex64_def hex_lower_def line_def list_all_iff)

lemma set_lane_rows:
  "r \<in> set (sy_lanes (set_lane v f s)) \<Longrightarrow> r \<in> set (sy_lanes s) \<or>
     (\<exists>r0\<in>set (sy_lanes s). ln_version r0 = v \<and> r = f r0)"
  by (auto simp: set_lane_def set_update_where split: if_splits)

lemma grant_simps [simp]:
  "ln_version (grant_lane t now r) = ln_version r" "ln_epoch (grant_lane t now r) = tk_epoch t"
  "ln_holder (grant_lane t now r) = Some (tk_holder t)"
  by (simp_all add: grant_lane_def)

lemma clear_holder_simps [simp]:
  "ln_version (clear_holder q r) = ln_version r" "ln_epoch (clear_holder q r) = ln_epoch r"
  "ln_holder (clear_holder q r) = None" "ln_available (clear_holder q r) = rr_available q"
  by (simp_all add: clear_holder_def)

text \<open>Statements that keep the lanes they find, the receipts and the order of time keep the leases.\<close>

definition keeps_lanes :: "sync_db \<Rightarrow> sync_db \<Rightarrow> bool" where
  "keeps_lanes s s' \<longleftrightarrow> (\<forall>v r. lane_of s v = Some r \<longrightarrow> lane_of s' v = Some r) \<and>
     (\<forall>r\<in>set (sy_lanes s'). r \<in> set (sy_lanes s) \<or> ln_holder r = None) \<and>
     sy_releases s' = sy_releases s \<and> sy_clock s \<le> sy_clock s'"

lemma keeps_lanes_frame:
  assumes "sy_lanes s' = sy_lanes s" "sy_releases s' = sy_releases s" "sy_clock s \<le> sy_clock s'"
  shows "keeps_lanes s s'"
  using assms by (simp add: keeps_lanes_def lane_of_def)

lemma keeps_lanes_ensure: "ensure_lane v now s = Inr (s', n) \<Longrightarrow> keeps_lanes s s'"
  by (drule ensure_lane_cases) (auto simp: keeps_lanes_def lane_of_def find_append_cases)

lemma start_dispatching_frame [simp]:
  "sy_lanes (start_dispatching d s) = sy_lanes s" "sy_releases (start_dispatching d s) = sy_releases s"
  "sy_clock (start_dispatching d s) = sy_clock s" "sy_items (start_dispatching d s) = sy_items s"
  "sy_receipts (start_dispatching d s) = sy_receipts s"
  by (auto simp: start_dispatching_def split: option.splits)

text \<open>Every step but a grant and a release keeps the lanes.\<close>

lemma step_lane_cases:
  assumes "sync_step L s s'"
  obtains (keep) "keeps_lanes s s'"
  | (grant) t now r where "lane_of s (tk_version t) = Some r" "ln_epoch r = tk_epoch t - 1"
      "lane_free now r" "ln_available r \<le> now" "now \<le> sy_clock s" "token_lines t"
      "s' = set_lane (tk_version t) (grant_lane t now) s"
  | (free) q where "held s (rr_token q)" "rr_id q = githubCredentialLaneReleaseReceiptId L (rr_token q)"
      "sy_lanes s' = sy_lanes (set_lane (tk_version (rr_token q)) (clear_holder q) s)"
      "sy_releases s' = sy_releases s \<and> (\<exists>p\<in>set (sy_releases s). rr_id p = rr_id q) \<or>
       sy_releases s' = sy_releases s @ [q] \<and> release_receipt_ok q" "sy_clock s' = sy_clock s"
  using assms
proof cases
  case (ensure v now n)
  then show thesis by (intro keep keeps_lanes_ensure)
next
  case (acquire t now n)
  show thesis
  proof (cases "s' = s")
    case True
    then show thesis by (intro keep keeps_lanes_frame) auto
  next
    case False
    with acquire_lane_cases [OF acquire(1)] obtain r where r: "lane_of s (tk_version t) = Some r"
      "acquire_matches t now r" "hex64 (lh_claim (tk_holder t))" "s' = set_lane (tk_version t) (grant_lane t now) s"
      by auto
    with acquire show thesis
      by (intro grant [of t r now]) (auto simp: acquire_matches_def read_free_def token_lines_def hex64_line)
  qed
next
  case (release q n)
  with release_lane_cases [OF release(1)] show thesis
    by (metis free keep keeps_lanes_frame order_refl)
next
  case (materialized x n)
  from insert_materialization_cases [OF materialize_cases [OF materialized(1)]]
  show thesis by (intro keep keeps_lanes_frame) auto
qed (auto intro!: keep keeps_lanes_frame dest: keeps_lanes_ensure insert_dispatch_cases
    update_dispatch_status_cases reserve_dispatch_cases reserve_item_cases reserve_overflow_cases)

lemma lane_inv_step:
  assumes "sync_step L s s'" "lane_inv L s"
  shows "lane_inv L s'"
  using assms(1)
proof (cases rule: step_lane_cases)
  case keep
  with assms(2) show ?thesis by (auto simp: lane_inv_def keeps_lanes_def holder_lines_def)
next
  case (grant t now r)
  with assms(2) show ?thesis
    by (auto simp: lane_inv_def holder_lines_def token_lines_def dest!: set_lane_rows)
next
  case (free q)
  have "token_lines (rr_token q)" using held_lines [OF assms(2) free(1)] .
  with free assms(2) show ?thesis
    by (auto simp: lane_inv_def holder_lines_def receipt_exact_def dest!: set_lane_rows)
qed

lemma held_keeps: "keeps_lanes s s' \<Longrightarrow> held s t \<Longrightarrow> held s' t"
  by (auto simp: keeps_lanes_def held_def split: option.splits)

lemma ended_keeps: "keeps_lanes s s' \<Longrightarrow> ended L s t \<Longrightarrow> ended L s' t"
  by (auto simp: keeps_lanes_def ended_def released_def split: option.splits)

lemma lane_of_lanes: "sy_lanes a = sy_lanes b \<Longrightarrow> lane_of a v = lane_of b v"
  by (simp add: lane_of_def)

lemma held_lease_step:
  assumes "sync_step L s s'" "lane_inv L s" "held s t"
  shows "held s' t \<or> ended L s' t"
  using assms(1)
proof (cases rule: step_lane_cases)
  case keep
  with assms(3) show ?thesis by (auto dest: held_keeps)
next
  case (grant u now r)
  with assms(3) show ?thesis
    by (auto simp: held_def ended_def lane_of_set_lane carries_def lane_free_def split: option.splits)
next
  case (free q)
  show ?thesis
  proof (cases "tk_version (rr_token q) = tk_version t")
    case True
    with free(1) assms(3) have t: "rr_token q = t"
      by (auto simp: held_def carries_def split: option.splits intro!: lane_token.equality)
    have "rr_token p = t" if "p \<in> set (sy_releases s)" "rr_id p = rr_id q" for p
      using that free(2) assms(2) held_lines [OF assms(2,3)]
      by (intro receipt_id_inj [of L]) (auto simp: t lane_inv_def receipt_exact_def)
    then have "released s' (githubCredentialLaneReleaseReceiptId L t) t"
      using free(2,4) by (auto simp: released_def t)
    then show ?thesis
      using assms(3) by (auto simp: ended_def lane_of_lanes [OF free(3)] lane_of_set_lane t held_def
          carries_def split: option.splits)
  next
    case False
    with assms(3) show ?thesis
      by (auto simp: held_def lane_of_lanes [OF free(3)] lane_of_set_lane split: option.splits)
  qed
qed

lemma ended_lease_step:
  assumes "sync_step L s s'" "lane_inv L s" "ended L s t"
  shows "ended L s' t"
  using assms(1)
proof (cases rule: step_lane_cases)
  case keep
  with assms(3) show ?thesis by (auto dest: ended_keeps)
next
  case (grant u now r)
  with assms(3) show ?thesis
    by (auto simp: ended_def lane_of_set_lane released_def split: option.splits if_splits)
next
  case (free q)
  have "released s' i t" if "released s i t" for i using that free(4) by (auto simp: released_def)
  with assms(3) free(5) show ?thesis
    by (auto simp: ended_def lane_of_lanes [OF free(3)] lane_of_set_lane split: option.splits)
qed

lemma held_unique: "held s t \<Longrightarrow> held s u \<Longrightarrow> tk_version t = tk_version u \<Longrightarrow> t = u"
  by (auto simp: held_def carries_def split: option.splits intro!: lane_token.equality)

lemma ended_later: "ended L s t \<Longrightarrow> held s u \<Longrightarrow> tk_version t = tk_version u \<Longrightarrow> tk_epoch t < tk_epoch u"
  by (auto simp: held_def ended_def carries_def split: option.splits)

interpretation lane_lease: fenced_lease "sync_step L" "lane_inv L" held "ended L" tk_version tk_epoch for L
  by unfold_locales (fact lane_inv_step held_lease_step ended_lease_step held_unique ended_later)+

lemma lane_inv_empty: "lane_lib_ok L \<Longrightarrow> lane_inv L (empty_ledger now)"
  by (simp add: lane_inv_def empty_ledger_def)

end
