(* ===== verification/D1_Net.thy ===== *)
theory D1_Net
  imports Contracts
begin

text \<open>
  A call to D1 from a Worker or a Workflow: other writers may run before it, and it may fail unsent
  or lose its reply after the database \<open>'d\<close> applied it. The calls of an operation are numbered.
\<close>

section \<open>D1 calls\<close>

datatype fate = Delivered | NotSent | ReplyLost

record 'd net =
  nt_before :: "nat \<Rightarrow> 'd \<Rightarrow> 'd"
  nt_fate :: "nat \<Rightarrow> fate"

definition network_error :: thrown where
  "network_error = Other (str ''Network connection lost.'')"

definition d1_run ::
  "'d net \<Rightarrow> nat \<Rightarrow> ('d \<Rightarrow> thrown + 'd \<times> 'a) \<Rightarrow> 'd \<Rightarrow> 'd \<times> (thrown + 'a)" where
  "d1_run N i st db =
     (let db = nt_before N i db
      in if nt_fate N i = NotSent then (db, Inl network_error)
         else (case st db of
             Inl e \<Rightarrow> (db, Inl e)
           | Inr (db, a) \<Rightarrow> (db, if nt_fate N i = ReplyLost then Inl network_error else Inr a)))"

definition d1_read :: "'d net \<Rightarrow> nat \<Rightarrow> ('d \<Rightarrow> 'a) \<Rightarrow> 'd \<Rightarrow> 'd \<times> (thrown + 'a)" where
  "d1_read N i q db = d1_run N i (\<lambda>s. Inr (s, q s)) db"

fun then_do :: "'d \<times> (thrown + 'a) \<Rightarrow> ('d \<Rightarrow> 'a \<Rightarrow> 'd \<times> (thrown + 'b)) \<Rightarrow>
    'd \<times> (thrown + 'b)" where
  "then_do (db, Inl e) k = (db, Inl e)"
| "then_do (db, Inr a) k = k db a"

fun try_catch :: "'d \<times> (thrown + 'a) \<Rightarrow> ('d \<Rightarrow> 'a \<Rightarrow> 'r) \<Rightarrow> ('d \<Rightarrow> thrown \<Rightarrow> 'r) \<Rightarrow> 'r" where
  "try_catch (db, Inr a) k h = k db a"
| "try_catch (db, Inl e) k h = h db e"

section \<open>Runs against other writers\<close>

text \<open>The other writers make steps of \<open>R\<close>.\<close>

definition others_step :: "('d \<Rightarrow> 'd \<Rightarrow> bool) \<Rightarrow> 'd net \<Rightarrow> bool" where
  "others_step R N \<longleftrightarrow> (\<forall>i s. R\<^sup>*\<^sup>* s (nt_before N i s))"

lemma d1_run_Inr: "d1_run N i st s = (s', Inr a) \<Longrightarrow> st (nt_before N i s) = Inr (s', a)"
  by (auto simp: d1_run_def Let_def split: if_splits sum.splits)

lemma d1_run_reaches:
  assumes "others_step R N" "d1_run N i st s = (s', r)" "\<And>t t' a. st t = Inr (t', a) \<Longrightarrow> R\<^sup>*\<^sup>* t t'"
  shows "R\<^sup>*\<^sup>* s s'"
proof -
  have b: "R\<^sup>*\<^sup>* s (nt_before N i s)" using assms(1) by (simp add: others_step_def)
  show ?thesis
  proof (cases "nt_fate N i = NotSent")
    case True
    then show ?thesis using assms(2) b by (simp add: d1_run_def Let_def)
  next
    case False
    then show ?thesis
      using assms(2) b rtranclp_trans [OF b assms(3)]
      by (cases "st (nt_before N i s)") (auto simp: d1_run_def Let_def)
  qed
qed

lemma d1_read_Inr:
  assumes "d1_read N i q s = (s', Inr a)"
  shows "s' = nt_before N i s" "a = q s'"
  using d1_run_Inr [OF assms [unfolded d1_read_def]] by auto

lemma d1_read_reaches: "others_step R N \<Longrightarrow> d1_read N i q s = (s', r) \<Longrightarrow> R\<^sup>*\<^sup>* s s'"
  unfolding d1_read_def by (erule d1_run_reaches, assumption) simp

lemma then_do_Inr:
  assumes "then_do x k = (s', Inr b)"
  obtains t a where "x = (t, Inr a)" "k t a = (s', Inr b)"
  using assms by (cases x rule: prod.exhaust, cases "snd x") auto

lemma then_do_reaches:
  assumes "then_do x k = (s', r)" "R\<^sup>*\<^sup>* s (fst x)" "\<And>t a. x = (t, Inr a) \<Longrightarrow> R\<^sup>*\<^sup>* t (fst (k t a))"
  shows "R\<^sup>*\<^sup>* s s'"
proof (cases x)
  case (Pair t v)
  show ?thesis
  proof (cases v)
    case (Inl e)
    then show ?thesis using assms(1,2) Pair by simp
  next
    case (Inr a)
    with assms Pair have "R\<^sup>*\<^sup>* t s'" by (metis fst_conv then_do.simps(2))
    with assms(2) Pair show ?thesis by (auto intro: rtranclp_trans)
  qed
qed

text \<open>The same on the state of an operation, for operations built of many calls.\<close>

lemma d1_run_fst:
  "others_step R N \<Longrightarrow> (\<And>t t' a. st t = Inr (t', a) \<Longrightarrow> R\<^sup>*\<^sup>* t t') \<Longrightarrow> R\<^sup>*\<^sup>* s (fst (d1_run N i st s))"
  using d1_run_reaches [of R N i st s "fst (d1_run N i st s)" "snd (d1_run N i st s)"] by simp

lemma d1_read_fst: "others_step R N \<Longrightarrow> R\<^sup>*\<^sup>* s (fst (d1_read N i q s))"
  using d1_read_reaches [of R N i q s "fst (d1_read N i q s)" "snd (d1_read N i q s)"] by simp

lemma then_do_fst:
  assumes "R\<^sup>*\<^sup>* s (fst x)" "\<And>t a. R\<^sup>*\<^sup>* t (fst (k t a))"
  shows "R\<^sup>*\<^sup>* s (fst (then_do x k))"
  using then_do_reaches [of x k "fst (then_do x k)" "snd (then_do x k)" R s] assms by simp

lemma try_catch_fst:
  assumes "R\<^sup>*\<^sup>* s (fst x)" "\<And>t a. R\<^sup>*\<^sup>* t (fst (k t a))" "\<And>t e. R\<^sup>*\<^sup>* t (fst (h t e))"
  shows "R\<^sup>*\<^sup>* s (fst (try_catch x k h))"
proof (cases x)
  case (Pair t v)
  then show ?thesis using assms(1) assms(2) [of t] assms(3) [of t] by (cases v) (auto intro: rtranclp_trans)
qed

section \<open>Undisturbed runs\<close>

definition undisturbed :: "'d net \<Rightarrow> bool" where
  "undisturbed N \<longleftrightarrow> (\<forall>i s. nt_before N i s = s) \<and> (\<forall>i. nt_fate N i = Delivered)"

lemma undisturbed_run:
  "undisturbed N \<Longrightarrow> d1_run N i st s = (case st s of Inl e \<Rightarrow> (s, Inl e) | Inr (t, a) \<Rightarrow> (t, Inr a))"
  by (simp add: undisturbed_def d1_run_def Let_def split: sum.split prod.split)

lemma undisturbed_read: "undisturbed N \<Longrightarrow> d1_read N i q s = (s, Inr (q s))"
  by (simp add: d1_read_def undisturbed_run)

end
