(* ===== verification/Credential_Lane.thy ===== *)
theory Credential_Lane
  imports Lane_Fencing D1_Net
begin

text \<open>
  Claiming and releasing a credential lane (\<open>tryAcquireGitHubCredentialLane\<close>,
  \<open>releaseGitHubCredentialLane\<close> in \<open>src/github/sync-workflow.ts\<close>). Every D1 call is an
  access of its own: other Workflows may run before it, and it may fail unsent or lose its reply
  after the database applied it.
\<close>

section \<open>Claiming\<close>

text \<open>\<open>lc_now\<close> is \<open>None\<close> for a clock value that is not finite.\<close>

record lane_claim =
  lc_version :: ustring
  lc_kind :: holder_kind
  lc_id :: ustring
  lc_claim :: ustring
  lc_now :: "int option"
  lc_lease :: int

datatype claim_result = Acquired lane_token | Busy int "int option"

definition GITHUB_CREDENTIAL_LANE_LEASE_MS :: int where
  "GITHUB_CREDENTIAL_LANE_LEASE_MS = 14 * 60 * 1000"

definition GITHUB_CREDENTIAL_LANE_INTERVAL_MS :: int where
  "GITHUB_CREDENTIAL_LANE_INTERVAL_MS = 80"

definition credentialLaneClaimId :: "sync_lib \<Rightarrow> ustring \<Rightarrow> holder_kind \<Rightarrow> ustring \<Rightarrow> ustring" where
  "credentialLaneClaimId L v k i =
     sl_sha256 L (join_with 10 [str ''github.credential.lane.claim'', v, holder_name k, i])"

definition lane_timing_invalid :: thrown where
  "lane_timing_invalid = Other (str ''The GitHub credential lane timing is invalid.'')"

definition lane_disappeared :: thrown where
  "lane_disappeared = Other (str ''The GitHub credential lane disappeared.'')"

text \<open>\<open>Date.prototype.toISOString\<close> refuses instants outside the range of \<open>Date\<close>.\<close>

definition js_date :: "int \<Rightarrow> thrown + int" where
  "js_date t = (if \<bar>t\<bar> \<le> 8640000000000000 then Inr t else Inl (Other (str ''Invalid time value'')))"

definition own_row :: "lane_claim \<Rightarrow> lane_row \<Rightarrow> bool" where
  "own_row c r \<longleftrightarrow> (case ln_holder r of None \<Rightarrow> False
     | Some h \<Rightarrow> same_claim (lc_kind c) (lc_id c) (lc_claim c) h)"

definition lease_until :: "lane_row \<Rightarrow> int option" where
  "lease_until r = map_option lh_until (ln_holder r)"

definition unexpired :: "int \<Rightarrow> lane_row \<Rightarrow> bool" where
  "unexpired now r \<longleftrightarrow> (case lease_until r of None \<Rightarrow> False | Some u \<Rightarrow> now < u)"

definition claim_token :: "lane_claim \<Rightarrow> int \<Rightarrow> int \<Rightarrow> lane_token" where
  "claim_token c e u = \<lparr>tk_version = lc_version c, tk_holder = \<lparr>lh_kind = lc_kind c, lh_id = lc_id c,
     lh_claim = lc_claim c, lh_until = u\<rparr>, tk_epoch = e\<rparr>"

definition row_token :: "lane_claim \<Rightarrow> lane_row \<Rightarrow> claim_result" where
  "row_token c r = (case lease_until r of None \<Rightarrow> Busy (ln_available r) None
     | Some u \<Rightarrow> Acquired (claim_token c (ln_epoch r) u))"

definition busy :: "lane_row \<Rightarrow> claim_result" where
  "busy r = Busy (ln_available r) (lease_until r)"

text \<open>The insert of the lane row; when it fails, the row may still be there.\<close>

definition ensureLane :: "sync_db net \<Rightarrow> lane_claim \<Rightarrow> int \<Rightarrow> sync_db \<Rightarrow> sync_db \<times> (thrown + unit)" where
  "ensureLane N c now db =
     try_catch (d1_run N 0 (ensure_lane (lc_version c) now) db)
       (\<lambda>db n. (db, Inr ()))
       (\<lambda>db e. then_do (d1_read N 1 (\<lambda>s. lane_of s (lc_version c)) db)
          (\<lambda>db r. (db, if r = None then Inl e else Inr ())))"

text \<open>The reply after the update: its row count and the row it left.\<close>

definition claimOutcome :: "lane_claim \<Rightarrow> int \<Rightarrow> int \<Rightarrow> nat \<Rightarrow> lane_row \<Rightarrow> claim_result" where
  "claimOutcome c now u changes r =
     (if changes = 1 \<and> own_row c r \<and> lease_until r = Some u \<and> is_safe_integer (ln_epoch r) \<and> 0 < ln_epoch r
      then row_token c r
      else if own_row c r \<and> unexpired now r then row_token c r
      else busy r)"

definition updateLane :: "sync_db net \<Rightarrow> lane_claim \<Rightarrow> int \<Rightarrow> int \<Rightarrow> lane_row \<Rightarrow> sync_db \<Rightarrow>
    sync_db \<times> (thrown + claim_result)" where
  "updateLane N c now u before db =
     (let t = claim_token c (ln_epoch before + 1) u
      in try_catch (d1_run N 3 (acquire_lane t now) db)
           (\<lambda>db changes. then_do (d1_read N 5 (\<lambda>s. lane_of s (lc_version c)) db)
              (\<lambda>db row. (db, case row of None \<Rightarrow> Inl lane_disappeared
                 | Some r \<Rightarrow> Inr (claimOutcome c now u changes r))))
           (\<lambda>db e. try_catch (d1_read N 4 (\<lambda>s. lane_of s (lc_version c)) db)
              (\<lambda>db row. (db, case row of None \<Rightarrow> Inl e
                 | Some r \<Rightarrow> if carries t r then Inr (Acquired t) else Inl e))
              (\<lambda>db _. (db, Inl e))))"

definition tryAcquireGitHubCredentialLane ::
  "sync_db net \<Rightarrow> lane_claim \<Rightarrow> sync_db \<Rightarrow> sync_db \<times> (thrown + claim_result)" where
  "tryAcquireGitHubCredentialLane N c db =
     (case lc_now c of
        None \<Rightarrow> (db, Inl lane_timing_invalid)
      | Some now \<Rightarrow>
          if \<not> is_safe_integer (lc_lease c) \<or> lc_lease c < 1000 then (db, Inl lane_timing_invalid)
          else then_do (db, bind_res (js_date now) (\<lambda>_. js_date (now + lc_lease c))) (\<lambda>db u.
            then_do (ensureLane N c now db) (\<lambda>db _.
            then_do (d1_read N 2 (\<lambda>s. lane_of s (lc_version c)) db) (\<lambda>db row.
              case row of
                None \<Rightarrow> (db, Inl lane_disappeared)
              | Some before \<Rightarrow>
                  if own_row c before \<and> unexpired now before then (db, Inr (row_token c before))
                  else if now < ln_available before \<or> unexpired now before then (db, Inr (busy before))
                  else updateLane N c now u before db))))"

section \<open>Releasing\<close>

definition lane_lost :: thrown where
  "lane_lost = Other (str ''The GitHub credential lane lease was lost.'')"

definition release_time_invalid :: thrown where
  "release_time_invalid = Other (str ''The GitHub credential lane release time is invalid.'')"

definition hasExactGitHubCredentialLaneReleaseReceipt ::
  "sync_db net \<Rightarrow> nat \<Rightarrow> ustring \<Rightarrow> lane_token \<Rightarrow> sync_db \<Rightarrow> sync_db \<times> bool" where
  "hasExactGitHubCredentialLaneReleaseReceipt N i rid t db =
     try_catch (d1_read N i (\<lambda>s. released s rid t) db) (\<lambda>db b. (db, b)) (\<lambda>db _. (db, False))"

definition releaseGitHubCredentialLane ::
  "sync_lib \<Rightarrow> sync_db net \<Rightarrow> lane_token \<Rightarrow> int option \<Rightarrow> sync_db \<Rightarrow> sync_db \<times> (thrown + unit)" where
  "releaseGitHubCredentialLane L N t nowMs db =
     (case nowMs of
        None \<Rightarrow> (db, Inl release_time_invalid)
      | Some now \<Rightarrow>
          then_do (db, bind_res (js_date now) (\<lambda>_. js_date (now + GITHUB_CREDENTIAL_LANE_INTERVAL_MS))) (\<lambda>db available.
            let rid = githubCredentialLaneReleaseReceiptId L t;
                q = \<lparr>rr_id = rid, rr_token = t, rr_released = now, rr_available = available\<rparr>
            in try_catch (d1_run N 0 (release_lane q) db)
                 (\<lambda>db _. case hasExactGitHubCredentialLaneReleaseReceipt N 1 rid t db of
                    (db, b) \<Rightarrow> (db, if b then Inr () else Inl lane_lost))
                 (\<lambda>db e. case hasExactGitHubCredentialLaneReleaseReceipt N 1 rid t db of
                    (db, b) \<Rightarrow> (db, if b then Inr () else Inl e))))"

section \<open>Runs of the system\<close>

definition others_ok :: "sync_lib \<Rightarrow> sync_db net \<Rightarrow> bool" where
  "others_ok L N \<longleftrightarrow> (\<forall>i s. (sync_step L)\<^sup>*\<^sup>* s (nt_before N i s))"

lemma d1_run_steps:
  assumes "others_ok L N" "\<And>s s' a. st s = Inr (s', a) \<Longrightarrow> (sync_step L)\<^sup>*\<^sup>* s s'" "d1_run N i st db = (db', r)"
  shows "(sync_step L)\<^sup>*\<^sup>* db db'"
proof -
  have pre: "(sync_step L)\<^sup>*\<^sup>* db (nt_before N i db)" using assms(1) by (simp add: others_ok_def)
  from assms(3) have "db' = nt_before N i db \<or> (\<exists>a. st (nt_before N i db) = Inr (db', a))"
    by (auto simp: d1_run_def Let_def split: if_splits sum.splits)
  with pre assms(2) show ?thesis by (auto intro: rtranclp_trans)
qed

lemma d1_read_steps:
  assumes "others_ok L N" "d1_read N i q db = (db', r)"
  shows "(sync_step L)\<^sup>*\<^sup>* db db'" and "r = Inr a \<Longrightarrow> a = q db'"
  using assms unfolding d1_read_def others_ok_def
  by (auto simp: d1_run_def Let_def split: if_splits)

text \<open>A row found free stays free while its epoch lasts.\<close>

lemma epoch_step:
  assumes "sync_step L s s'" "lane_of s v = Some r"
  shows "\<exists>r'. lane_of s' v = Some r' \<and> (ln_epoch r < ln_epoch r' \<or>
    ln_epoch r' = ln_epoch r \<and> (ln_holder r' = ln_holder r \<or> ln_holder r' = None))"
  using assms(1)
proof (cases rule: step_lane_cases)
  case (grant t now q)
  with assms(2) show ?thesis by (auto simp: lane_of_set_lane)
next
  case (free q)
  with assms(2) show ?thesis by (auto simp: lane_of_lanes [OF free(3)] lane_of_set_lane)
qed (use assms(2) in \<open>auto simp: keeps_lanes_def\<close>)

lemma epoch_run:
  assumes "(sync_step L)\<^sup>*\<^sup>* s s'" "lane_of s v = Some r"
  shows "\<exists>r'. lane_of s' v = Some r' \<and> (ln_epoch r < ln_epoch r' \<or>
    ln_epoch r' = ln_epoch r \<and> (ln_holder r' = ln_holder r \<or> ln_holder r' = None))"
  using assms(1)
proof (induction rule: rtranclp_induct)
  case (step y z)
  then obtain q where "lane_of y v = Some q" and q: "ln_epoch r < ln_epoch q \<or>
      ln_epoch q = ln_epoch r \<and> (ln_holder q = ln_holder r \<or> ln_holder q = None)" by blast
  with epoch_step [OF step(2)] show ?case by fastforce
qed (use assms(2) in auto)

lemma clock_run: "(sync_step L)\<^sup>*\<^sup>* s s' \<Longrightarrow> sy_clock s \<le> sy_clock s'"
proof (induction rule: rtranclp_induct)
  case (step y z)
  from step(2) have "sy_clock y \<le> sy_clock z"
    by (cases rule: step_lane_cases) (auto simp: keeps_lanes_def)
  with step show ?case by simp
qed simp

lemma ensureLane_steps:
  assumes "others_ok L N" "ensureLane N c now db = (db', r)"
  shows "(sync_step L)\<^sup>*\<^sup>* db db'"
proof -
  obtain d1 r1 where d1: "d1_run N 0 (ensure_lane (lc_version c) now) db = (d1, r1)" by fastforce
  obtain d2 r2 where d2: "d1_read N 1 (\<lambda>s. lane_of s (lc_version c)) d1 = (d2, r2)" by fastforce
  have "(sync_step L)\<^sup>*\<^sup>* db d1"
    by (rule d1_run_steps [OF assms(1) _ d1]) (auto intro: sync_step.ensure)
  moreover have "(sync_step L)\<^sup>*\<^sup>* d1 d2" by (rule d1_read_steps [OF assms(1) d2])
  moreover have "db' = d1 \<or> db' = d2"
    using assms(2) d1 d2 by (cases r1; cases r2) (auto simp: ensureLane_def)
  ultimately show ?thesis by (auto intro: rtranclp_trans)
qed

definition claim_lines :: "lane_claim \<Rightarrow> bool" where
  "claim_lines c \<longleftrightarrow> line (lc_version c) \<and> line (lc_id c)"

lemma claim_token_simps [simp]:
  "tk_version (claim_token c e u) = lc_version c" "tk_epoch (claim_token c e u) = e"
  "lh_until (tk_holder (claim_token c e u)) = u" "lh_id (tk_holder (claim_token c e u)) = lc_id c"
  "lh_claim (tk_holder (claim_token c e u)) = lc_claim c" "lh_kind (tk_holder (claim_token c e u)) = lc_kind c"
  by (simp_all add: claim_token_def)

lemma lane_free_unexpired: "lane_free now r \<longleftrightarrow> \<not> unexpired now r"
  by (auto simp: lane_free_def unexpired_def lease_until_def split: option.splits)

text \<open>The update of a claim is a step of the system wherever its reads left it.\<close>

lemma claim_update_step:
  assumes run: "(sync_step L)\<^sup>*\<^sup>* a s" and before: "lane_of a (lc_version c) = Some before" "\<not> unexpired now before"
    and clock: "now \<le> sy_clock a" and lines: "claim_lines c"
    and up: "acquire_lane (claim_token c (ln_epoch before + 1) u) now s = Inr (s', n)"
  shows "sync_step L s s'"
proof -
  have "read_free (claim_token c (ln_epoch before + 1) u) now s"
    using epoch_run [OF run before(1)] before(2)
    by (auto simp: read_free_def lane_free_unexpired [symmetric] lane_free_def)
  then show ?thesis
    using sync_step.acquire [OF up] clock clock_run [OF run] lines by (auto simp: claim_lines_def)
qed

text \<open>What an \<open>Acquired\<close> reply witnesses: at some moment of the call the lane carried the token, unexpired.\<close>

definition witnessed :: "sync_lib \<Rightarrow> sync_db \<Rightarrow> sync_db \<Rightarrow> int \<Rightarrow> claim_result \<Rightarrow> bool" where
  "witnessed L a b now r = (\<forall>t. r = Acquired t \<longrightarrow>
     (\<exists>m. (sync_step L)\<^sup>*\<^sup>* a m \<and> (sync_step L)\<^sup>*\<^sup>* m b \<and> held m t \<and> now < lh_until (tk_holder t)))"

lemma row_token_held:
  assumes "lane_of s (lc_version c) = Some r" "own_row c r" "row_token c r = Acquired t"
  shows "held s t" "lease_until r = Some (lh_until (tk_holder t))" "tk_version t = lc_version c"
    "ln_epoch r = tk_epoch t"
  using assms by (auto simp: row_token_def held_def carries_def claim_token_def own_row_def lease_until_def
      same_claim_def split: option.splits)

lemma witnessed_here:
  assumes "lane_of b (lc_version c) = Some r" "own_row c r" "now < u" "lease_until r = Some u"
    "(sync_step L)\<^sup>*\<^sup>* a b"
  shows "witnessed L a b now (row_token c r)"
  using assms row_token_held [OF assms(1,2)] by (fastforce simp: witnessed_def)

lemma busy_witnessed [simp]: "witnessed L a b now (busy r)"
  by (simp add: witnessed_def busy_def)

lemma claimOutcome_witnessed:
  assumes "lane_of b (lc_version c) = Some r" "now < u" "(sync_step L)\<^sup>*\<^sup>* a b"
  shows "witnessed L a b now (claimOutcome c now u n r)"
  using assms by (auto simp: claimOutcome_def unexpired_def split: option.splits intro: witnessed_here)

lemma updateLane_run:
  assumes net: "others_ok L N" and before: "lane_of db (lc_version c) = Some before" "\<not> unexpired now before"
    and clock: "now \<le> sy_clock db" and lines: "claim_lines c" and u: "now < u"
    and run: "updateLane N c now u before db = (db', r)"
  shows "(sync_step L)\<^sup>*\<^sup>* db db'" and "r = Inr res \<Longrightarrow> witnessed L db db' now res"
proof -
  define t where "t = claim_token c (ln_epoch before + 1) u"
  let ?q = "\<lambda>s. lane_of s (lc_version c)"
  obtain d1 r1 where d1: "d1_run N 3 (acquire_lane t now) db = (d1, r1)" by fastforce
  obtain d2 r2 where d2: "d1_read N 5 ?q d1 = (d2, r2)" by fastforce
  obtain d3 r3 where d3: "d1_read N 4 ?q d1 = (d3, r3)" by fastforce
  have pre: "(sync_step L)\<^sup>*\<^sup>* db (nt_before N 3 db)" using net by (simp add: others_ok_def)
  have "(sync_step L)\<^sup>*\<^sup>* db d1"
  proof (cases "d1 = nt_before N 3 db")
    case False
    with d1 obtain n where "acquire_lane t now (nt_before N 3 db) = Inr (d1, n)"
      by (auto simp: d1_run_def Let_def split: if_splits sum.splits)
    from claim_update_step [OF pre before clock lines this [unfolded t_def]] pre show ?thesis
      by (rule rtranclp.rtrancl_into_rtrancl [rotated])
  qed (use pre in simp)
  with d1_read_steps(1) [OF net d2] d1_read_steps(1) [OF net d3]
  have steps: "(sync_step L)\<^sup>*\<^sup>* db d2" "(sync_step L)\<^sup>*\<^sup>* db d3" "(sync_step L)\<^sup>*\<^sup>* db d1"
    by (auto intro: rtranclp_trans)
  have db': "db' = d2 \<or> db' = d3"
    using run by (cases r1; cases r2; cases r3) (auto simp: updateLane_def Let_def t_def [symmetric] d1 d2 d3)
  with steps show "(sync_step L)\<^sup>*\<^sup>* db db'" by auto
  show "witnessed L db db' now res" if res: "r = Inr res"
  proof (cases r1)
    case (Inr n)
    with run res obtain q where q: "r2 = Inr (Some q)" "db' = d2" "res = claimOutcome c now u n q"
      by (cases r2) (auto simp: updateLane_def Let_def t_def [symmetric] d1 d2 d3 split: option.splits)
    with d1_read_steps(2) [OF net d2] have "?q db' = Some q" by simp
    from claimOutcome_witnessed [OF this u] steps q show ?thesis by auto
  next
    case (Inl e)
    with run res obtain q where q: "r3 = Inr (Some q)" "db' = d3" "res = Acquired t" "carries t q"
      by (cases r3) (auto simp: updateLane_def Let_def t_def [symmetric] d1 d2 d3 split: option.splits if_splits)
    with d1_read_steps(2) [OF net d3] have "?q db' = Some q" by simp
    with q have "held db' t" by (simp add: held_def t_def)
    moreover have "now < lh_until (tk_holder t)" using u by (simp add: t_def)
    ultimately show ?thesis
      using steps q by (auto simp: witnessed_def)
  qed
qed

lemma witnessed_mono:
  assumes "(sync_step L)\<^sup>*\<^sup>* a b" "witnessed L b d now r"
  shows "witnessed L a d now r"
  unfolding witnessed_def
proof (intro allI impI)
  fix t
  assume "r = Acquired t"
  with assms(2) obtain m where m: "(sync_step L)\<^sup>*\<^sup>* b m" "(sync_step L)\<^sup>*\<^sup>* m d" "held m t"
      "now < lh_until (tk_holder t)" by (auto simp: witnessed_def)
  with assms(1) show "\<exists>m. (sync_step L)\<^sup>*\<^sup>* a m \<and> (sync_step L)\<^sup>*\<^sup>* m d \<and> held m t \<and> now < lh_until (tk_holder t)"
    by (meson rtranclp_trans)
qed

text \<open>A whole claim: a run of the system, and a witness for every token it gives out.\<close>

lemma tryAcquire_run:
  assumes net: "others_ok L N" and lines: "claim_lines c"
    and clock: "opt_all (\<lambda>now. now \<le> sy_clock db) (lc_now c)"
    and run: "tryAcquireGitHubCredentialLane N c db = (db', r)"
  shows "(sync_step L)\<^sup>*\<^sup>* db db'"
    and "r = Inr res \<Longrightarrow> \<exists>now. lc_now c = Some now \<and> witnessed L db db' now res"
proof -
  have "(sync_step L)\<^sup>*\<^sup>* db db' \<and>
      (\<forall>res. r = Inr res \<longrightarrow> (\<exists>now. lc_now c = Some now \<and> witnessed L db db' now res))"
  proof (cases "\<exists>now. lc_now c = Some now \<and> is_safe_integer (lc_lease c) \<and> 1000 \<le> lc_lease c \<and>
      js_date now = Inr now \<and> js_date (now + lc_lease c) = Inr (now + lc_lease c)")
    case False
    with run show ?thesis
      by (auto simp: tryAcquireGitHubCredentialLane_def js_date_def split: option.splits if_splits)
  next
    case True
    then obtain now where now: "lc_now c = Some now" and ok: "is_safe_integer (lc_lease c)" "1000 \<le> lc_lease c"
      "js_date now = Inr now" "js_date (now + lc_lease c) = Inr (now + lc_lease c)" "\<not> lc_lease c < 1000"
      by fastforce
    let ?q = "\<lambda>s. lane_of s (lc_version c)"
    obtain d1 r1 where d1: "ensureLane N c now db = (d1, r1)" by fastforce
    obtain d2 r2 where d2: "d1_read N 2 ?q d1 = (d2, r2)" by fastforce
    have s1: "(sync_step L)\<^sup>*\<^sup>* db d1" by (rule ensureLane_steps [OF net d1])
    with d1_read_steps(1) [OF net d2] have s2: "(sync_step L)\<^sup>*\<^sup>* db d2" by (auto intro: rtranclp_trans)
    show ?thesis
    proof (cases "\<exists>b. r1 = Inr () \<and> r2 = Inr (Some b)")
      case False
      with run s1 s2 show ?thesis
        by (cases r1; cases r2)
          (auto simp: tryAcquireGitHubCredentialLane_def now ok d1 d2 split: option.splits)
    next
      case True
      then obtain b where b: "r1 = Inr ()" "r2 = Inr (Some b)" by blast
      with d1_read_steps(2) [OF net d2] have row: "?q d2 = Some b" by simp
      consider (own) "own_row c b" "unexpired now b" "db' = d2" "r = Inr (row_token c b)"
        | (busy) "db' = d2" "r = Inr (busy b)"
        | (update) "\<not> unexpired now b" "updateLane N c now (now + lc_lease c) b d2 = (db', r)"
        using run by (auto simp: tryAcquireGitHubCredentialLane_def now ok d1 d2 b split: if_splits)
      then show ?thesis
      proof cases
        case own
        with row s2 show ?thesis
          by (auto simp: now unexpired_def split: option.splits intro: witnessed_here)
      next
        case busy
        with s2 show ?thesis by (auto simp: now)
      next
        case update
        have "now \<le> sy_clock d2" using clock now clock_run [OF s2] by simp
        note u = updateLane_run [OF net row update(1) this lines _ update(2)]
        have "now < now + lc_lease c" using ok(2) by simp
        with u s2 show ?thesis by (auto simp: now intro: rtranclp_trans witnessed_mono)
      qed
    qed
  qed
  then show "(sync_step L)\<^sup>*\<^sup>* db db'"
    and "r = Inr res \<Longrightarrow> \<exists>now. lc_now c = Some now \<and> witnessed L db db' now res" by auto
qed

end
