(* ===== verification/Sync_Scheduling.thy ===== *)
theory Sync_Scheduling
  imports Sync_Ledger "HOL-Library.Word"
begin

unbundle bit_operations_syntax

text \<open>
  \<open>src/github/sync-scheduling.ts\<close>: the schedule slots and their identities, the waiting
  time of a lane attempt (a 32-bit FNV hash, kept on machine words), and the batches of a
  Workflow fan-out. Clock values are integers; \<open>None\<close> is a value that is not finite.
\<close>

section \<open>Slots and identities\<close>

definition GITHUB_SYNC_SLOT_MS :: int where
  "GITHUB_SYNC_SLOT_MS = 6 * 60 * 60 * 1000"

definition canonicalGitHubSyncSlot :: "int option \<Rightarrow> thrown + int" where
  "canonicalGitHubSyncSlot t =
     (case t of
        None \<Rightarrow> Inl (Other (str ''The GitHub sync schedule time is invalid.''))
      | Some t \<Rightarrow> if t < 0 then Inl (Other (str ''The GitHub sync schedule time is invalid.''))
          else Inr (t div GITHUB_SYNC_SLOT_MS * GITHUB_SYNC_SLOT_MS))"

definition iso_text :: "sync_lib \<Rightarrow> int \<Rightarrow> thrown + ustring" where
  "iso_text L t = (if \<bar>t\<bar> \<le> 8640000000000000 then Inr (sl_iso L t)
     else Inl (Other (str ''Invalid time value'')))"

record workflow_identity =
  wi_id :: ustring
  wi_instance :: ustring
  wi_scheduled :: ustring
  wi_date :: ustring

definition githubDispatchIdentity :: "sync_lib \<Rightarrow> ustring \<Rightarrow> int option \<Rightarrow> thrown + workflow_identity" where
  "githubDispatchIdentity L v t =
     bind_res (canonicalGitHubSyncSlot t) (\<lambda>slot.
     bind_res (iso_text L slot) (\<lambda>scheduled.
       let d = sl_sha256 L (join_with 10 [str ''github.sync.dispatch'', v, scheduled])
       in Inr \<lparr>wi_id = d, wi_instance = str ''ghd-'' @ d, wi_scheduled = scheduled, wi_date = take 10 scheduled\<rparr>))"

definition githubRetentionIdentity :: "sync_lib \<Rightarrow> int option \<Rightarrow> thrown + workflow_identity" where
  "githubRetentionIdentity L t =
     bind_res (canonicalGitHubSyncSlot t) (\<lambda>slot.
     bind_res (iso_text L slot) (\<lambda>scheduled.
       let d = sl_sha256 L (join_with 10 [str ''github.sync.retention'', scheduled])
       in Inr \<lparr>wi_id = d, wi_instance = str ''ghc-'' @ d, wi_scheduled = scheduled, wi_date = take 10 scheduled\<rparr>))"

definition githubRefWorkflowIdentity ::
  "sync_lib \<Rightarrow> ustring \<Rightarrow> ustring \<Rightarrow> ustring \<Rightarrow> ustring \<Rightarrow> ustring \<Rightarrow> bool \<Rightarrow> ustring \<times> ustring" where
  "githubRefWorkflowIdentity L dispatch project repository ref scheduled full =
     (let i = sl_sha256 L (join_with 10 [str ''github.sync.dispatch.item'', dispatch, project, repository, ref,
                scheduled, if full then str ''full'' else str ''incremental''])
      in (i, str ''ghr-'' @ i))"

section \<open>Waiting for a lane\<close>

text \<open>\<open>hash ^= code\<close> and \<open>Math.imul\<close>; both keep 32 bits.\<close>

fun fnv :: "32 word \<Rightarrow> ustring \<Rightarrow> 32 word" where
  "fnv h [] = h"
| "fnv h (c # cs) = fnv ((h XOR word_of_nat c) * 16777619) cs"

definition lane_wait :: "ustring \<Rightarrow> nat \<Rightarrow> nat" where
  "lane_wait owner attempt =
     min 30000 (250 * 2 ^ min attempt 7) + unat (fnv 2166136261 owner) mod 401"

definition deterministicLaneWaitMs :: "ustring \<Rightarrow> int \<Rightarrow> thrown + nat" where
  "deterministicLaneWaitMs owner attempt =
     (if \<not> is_safe_integer attempt \<or> attempt < 0
      then Inl (Other (str ''The GitHub credential lane attempt is invalid.''))
      else Inr (lane_wait owner (nat attempt)))"

lemma lane_wait_bounds: "250 \<le> lane_wait owner attempt" "lane_wait owner attempt \<le> 30400"
proof -
  have "250 * 2 ^ min attempt 7 \<ge> (250::nat)" by simp
  then have "250 \<le> min 30000 (250 * 2 ^ min attempt 7 :: nat)" by simp
  then show "250 \<le> lane_wait owner attempt" unfolding lane_wait_def by linarith
  have "unat (fnv 2166136261 owner) mod 401 \<le> 400" using mod_less_divisor [of 401] by (simp add: less_Suc_eq_le [symmetric])
  then show "lane_wait owner attempt \<le> 30400" by (simp add: lane_wait_def min_def)
qed

section \<open>Batches\<close>

text \<open>The loop of \<open>chunkWorkflowBatch\<close>; \<open>k\<close> is the offset.\<close>

function batches_from :: "'a list \<Rightarrow> nat \<Rightarrow> nat \<Rightarrow> 'a list list" where
  "batches_from xs n k =
     (if k < length xs \<and> 0 < n then take n (drop k xs) # batches_from xs n (k + n) else [])"
  by pat_completeness auto

termination
  by (relation "measure (\<lambda>(xs, n, k). length xs - k)") auto

declare batches_from.simps [simp del]

definition batch_size_invalid :: thrown where
  "batch_size_invalid = Other (str ''The Workflow batch size must be between one and 100.'')"

definition chunkWorkflowBatch :: "'a list \<Rightarrow> int \<Rightarrow> thrown + 'a list list" where
  "chunkWorkflowBatch xs n =
     (if n < 1 \<or> 100 < n then Inl batch_size_invalid else Inr (batches_from xs (nat n) 0))"

lemma concat_batches: "0 < n \<Longrightarrow> concat (batches_from xs n k) = drop k xs"
proof (induction xs n k rule: batches_from.induct)
  case (1 xs n k)
  then show ?case
    using append_take_drop_id [of n "drop k xs"]
    by (subst batches_from.simps) (simp add: add.commute)
qed

lemma batch_lengths:
  "b \<in> set (batches_from xs n k) \<Longrightarrow> 0 < length b \<and> length b \<le> n"
proof (induction xs n k rule: batches_from.induct)
  case (1 xs n k)
  then show ?case by (subst (asm) batches_from.simps) (auto split: if_splits)
qed

lemma ceil_step:
  assumes "0 < (n::nat)" "0 < m"
  shows "(m + n - 1) div n = Suc ((m - n + n - 1) div n)"
proof (cases "m \<le> n")
  case True
  then have "(m + n - 1) div n = 1" using assms by (intro div_nat_eqI) auto
  with True assms show ?thesis by simp
next
  case False
  then have "m + n - 1 = (m - n + n - 1) + n" by simp
  then show ?thesis using div_add_self2 [of n "m - n + n - 1"] assms(1) by (simp only: Suc_eq_plus1)
qed

lemma batch_count:
  "0 < n \<Longrightarrow> length (batches_from xs n k) = (length xs - k + n - 1) div n"
proof (induction xs n k rule: batches_from.induct)
  case (1 xs n k)
  show ?case
  proof (cases "k < length xs")
    case True
    then show ?thesis
      using 1 ceil_step [of n "length xs - k"] by (subst batches_from.simps) simp
  next
    case False
    then show ?thesis using 1(2) by (subst batches_from.simps) simp
  qed
qed

text \<open>Every batch but the last is full.\<close>

lemma batches_full:
  "i + 1 < length (batches_from xs n k) \<Longrightarrow> length (batches_from xs n k ! i) = n"
proof (induction xs n k arbitrary: i rule: batches_from.induct)
  case (1 xs n k)
  from 1(2) have k: "k < length xs \<and> 0 < n" by (subst (asm) batches_from.simps) (auto split: if_splits)
  with 1(2) have tl: "i < length (batches_from xs n (k + n))"
    by (subst (asm) batches_from.simps) simp
  then have "batches_from xs n (k + n) \<noteq> []" by auto
  then have "k + n < length xs" by (subst (asm) batches_from.simps) (auto split: if_splits)
  with 1 k tl show ?case
    by (subst batches_from.simps) (cases i; simp)
qed

text \<open>The batches of a fan-out are the items, in order, cut into full batches and one rest:
  nothing is lost or repeated, no batch is empty or above the size, and there are as many as the
  admission estimate counts. The loop ends for every list.\<close>

theorem fanout_batches_partition:
  assumes "chunkWorkflowBatch xs n = Inr bs"
  shows "concat bs = xs \<and> (\<forall>b\<in>set bs. 0 < length b \<and> length b \<le> nat n) \<and>
    (\<forall>i. i + 1 < length bs \<longrightarrow> length (bs ! i) = nat n) \<and>
    length bs = (length xs + nat n - 1) div nat n"
proof -
  from assms have n: "0 < nat n" and bs: "bs = batches_from xs (nat n) 0"
    by (auto simp: chunkWorkflowBatch_def split: if_splits)
  show ?thesis
    unfolding bs using concat_batches [OF n, of xs 0] batch_count [OF n, of xs 0]
    by (simp add: batches_full) (blast dest: batch_lengths)
qed

lemma fanout_batches_partition_witness:
  "\<exists>bs. chunkWorkflowBatch [0..<251::nat] 100 = Inr bs \<and> concat bs = [0..<251] \<and> length bs = 3"
proof -
  obtain bs where bs: "chunkWorkflowBatch [0..<251::nat] 100 = Inr bs"
    by (simp add: chunkWorkflowBatch_def)
  from fanout_batches_partition [OF bs] bs show ?thesis by auto
qed

text \<open>A lane attempt waits between 250 and 30400 milliseconds, whatever the owner and the
  attempt, and an attempt number that is not a safe natural number is refused.\<close>

theorem lane_wait_bounded:
  "case deterministicLaneWaitMs owner attempt of
     Inr ms \<Rightarrow> is_safe_integer attempt \<and> 0 \<le> attempt \<and> 250 \<le> ms \<and> ms \<le> 30400
   | Inl e \<Rightarrow> \<not> is_safe_integer attempt \<or> attempt < 0"
  using lane_wait_bounds by (simp add: deterministicLaneWaitMs_def)

text \<open>Every instant of a six-hour slot has that slot.\<close>

lemma slot_bounds:
  assumes "canonicalGitHubSyncSlot (Some t) = Inr slot"
  shows "slot \<le> t \<and> t < slot + GITHUB_SYNC_SLOT_MS \<and> slot mod GITHUB_SYNC_SLOT_MS = 0 \<and> 0 \<le> slot"
  using assms by (auto simp: canonicalGitHubSyncSlot_def GITHUB_SYNC_SLOT_MS_def split: if_splits)

end
