(* ===== verification/Lane_Claims.thy ===== *)
theory Lane_Claims
  imports Credential_Lane Sync_Scheduling "HOL-Library.Code_Target_Nat"
begin

text \<open>
  What the credential lane guarantees its Workflows: exclusive epochs, release by receipt,
  progress on a free lane, and a bounded wait (\<open>acquireCredentialLane\<close> in
  \<open>workers/github-sync/workflow-runtime.ts\<close>).
\<close>

section \<open>The waiting loop\<close>

definition partial_sync :: thrown where
  "partial_sync = Other (str ''GITHUB_PARTIAL_SYNC'')"

text \<open>A durable step: its body runs again when it threw, \<open>n\<close> more times.\<close>

fun step_do :: "nat \<Rightarrow> (nat \<Rightarrow> sync_db \<Rightarrow> sync_db \<times> (thrown + 'a)) \<Rightarrow> sync_db \<Rightarrow> sync_db \<times> (thrown + 'a)" where
  "step_do 0 f db = f 0 db"
| "step_do (Suc n) f db = try_catch (f (Suc n) db) (\<lambda>db a. (db, Inr a)) (\<lambda>db e. step_do n f db)"

definition STEP_RETRY_LIMIT :: nat where
  "STEP_RETRY_LIMIT = 2"

text \<open>The pause after a busy reply; \<open>u\<close> is the lease the lane is under, if any.\<close>

definition lane_pause :: "ustring \<Rightarrow> nat \<Rightarrow> int \<Rightarrow> int \<Rightarrow> int \<Rightarrow> int option \<Rightarrow> int" where
  "lane_pause owner attempt now deadline available u =
     (let boundary = max available (case u of None \<Rightarrow> now | Some u \<Rightarrow> u);
          delay = min (int (lane_wait owner attempt)) (max 1 (boundary - now))
      in max 1 (min delay (deadline - now)))"

text \<open>
  \<open>N a r\<close> is the network of retry \<open>r\<close> of attempt \<open>a\<close>, \<open>clk a\<close> the clock read before
  it. The result carries the pauses taken.
\<close>

fun lane_attempts ::
  "(nat \<Rightarrow> nat \<Rightarrow> sync_db net) \<Rightarrow> (nat \<Rightarrow> int) \<Rightarrow> lane_claim \<Rightarrow> int \<Rightarrow> nat \<Rightarrow> nat \<Rightarrow> sync_db \<Rightarrow>
     sync_db \<times> int list \<times> (thrown + lane_token)" where
  "lane_attempts N clk c deadline 0 attempt db = (db, [], Inl partial_sync)"
| "lane_attempts N clk c deadline (Suc n) attempt db =
     try_catch (step_do STEP_RETRY_LIMIT
         (\<lambda>r. tryAcquireGitHubCredentialLane (N attempt r) (c\<lparr>lc_now := Some (clk attempt)\<rparr>)) db)
       (\<lambda>db reply. case reply of
          Acquired t \<Rightarrow> (db, [], Inr t)
        | Busy available u \<Rightarrow>
            if deadline \<le> clk attempt then (db, [], Inl partial_sync)
            else (case lane_attempts N clk c deadline n (attempt + 1) db of
                (db, ps, r) \<Rightarrow> (db, lane_pause (lc_id c) attempt (clk attempt) deadline available u # ps, r)))
       (\<lambda>db e. (db, [], Inl e))"

definition acquireCredentialLane ::
  "sync_lib \<Rightarrow> (nat \<Rightarrow> nat \<Rightarrow> sync_db net) \<Rightarrow> (nat \<Rightarrow> int) \<Rightarrow> ustring \<Rightarrow> holder_kind \<Rightarrow> ustring \<Rightarrow> int \<Rightarrow> int option \<Rightarrow>
     sync_db \<Rightarrow> sync_db \<times> int list \<times> (thrown + lane_token)" where
  "acquireCredentialLane L N clk version kind holder deadline maxAttempts db =
     (let n = (case maxAttempts of None \<Rightarrow> 1024 | Some n \<Rightarrow> n)
      in if \<not> is_safe_integer n \<or> n < 1 \<or> 1024 < n
         then (db, [], Inl (Other (str ''The GitHub credential lane attempt limit is invalid.'')))
         else lane_attempts N clk
           \<lparr>lc_version = version, lc_kind = kind, lc_id = holder,
            lc_claim = credentialLaneClaimId L version kind holder, lc_now = None,
            lc_lease = GITHUB_CREDENTIAL_LANE_LEASE_MS\<rparr> deadline (nat n) 0 db)"

section \<open>Exclusion\<close>

definition reachable_ledger :: "sync_lib \<Rightarrow> sync_db \<Rightarrow> bool" where
  "reachable_ledger L s \<longleftrightarrow> (\<exists>now. (sync_step L)\<^sup>*\<^sup>* (empty_ledger now) s)"

lemma reachable_lane_inv: "lane_lib_ok L \<Longrightarrow> reachable_ledger L s \<Longrightarrow> lane_inv L s"
  by (auto simp: reachable_ledger_def intro: lane_lease.inv_run lane_inv_empty)

definition clock_ok :: "lane_claim \<Rightarrow> sync_db \<Rightarrow> bool" where
  "clock_ok c s \<longleftrightarrow> claim_lines c \<and> opt_all (\<lambda>now. now \<le> sy_clock s) (lc_now c)"

lemma acquired_witness:
  assumes "others_ok L N" "clock_ok c s" "tryAcquireGitHubCredentialLane N c s = (s', Inr (Acquired t))"
  obtains m where "(sync_step L)\<^sup>*\<^sup>* s m" "(sync_step L)\<^sup>*\<^sup>* m s'" "held m t"
  using tryAcquire_run(2) [OF assms(1) _ _ assms(3)] assms(2) that
  by (auto simp: clock_ok_def witnessed_def)

text \<open>C30: Two claims of one credential lane never hold it together, whatever other Workflows do
  before, between and during the two calls and whatever D1 replies are lost: a token given out later
  is the same token, or it has a higher epoch and the first lease was released under its own
  receipt or had run out on the database's clock.\<close>

theorem lane_claims_exclude_each_other:
  assumes "lane_lib_ok L" "reachable_ledger L s" "others_ok L N1" "others_ok L N2"
    and "clock_ok c1 s" "tryAcquireGitHubCredentialLane N1 c1 s = (s1, Inr (Acquired t))"
    and "(sync_step L)\<^sup>*\<^sup>* s1 s2"
    and "clock_ok c2 s2" "tryAcquireGitHubCredentialLane N2 c2 s2 = (s3, Inr (Acquired u))"
    and "tk_version t = tk_version u"
  shows "t = u \<or> (tk_epoch t < tk_epoch u \<and>
    (released s3 (githubCredentialLaneReleaseReceiptId L t) t \<or> lh_until (tk_holder t) \<le> sy_clock s3))"
proof -
  obtain m1 where m1: "(sync_step L)\<^sup>*\<^sup>* s m1" "(sync_step L)\<^sup>*\<^sup>* m1 s1" "held m1 t"
    by (rule acquired_witness [OF assms(3,5,6)])
  obtain m2 where m2: "(sync_step L)\<^sup>*\<^sup>* s2 m2" "(sync_step L)\<^sup>*\<^sup>* m2 s3" "held m2 u"
    by (rule acquired_witness [OF assms(4,8,9)])
  have run: "(sync_step L)\<^sup>*\<^sup>* m1 m2" using m1(2) assms(7) m2(1) by (auto intro: rtranclp_trans)
  have inv: "lane_inv L m1"
    using lane_lease.inv_run [OF m1(1)] reachable_lane_inv [OF assms(1,2)] by blast
  have inv2: "lane_inv L m2" using lane_lease.inv_run [OF run inv] .
  have "t = u \<or> (ended L m2 t \<and> tk_epoch t < tk_epoch u)"
    by (rule lane_lease.exclusion [OF run inv m1(3) m2(3) assms(10)])
  then show ?thesis
    using lane_lease.ended_run [OF m2(2) inv2] by (auto simp: ended_def)
qed

section \<open>Release\<close>

text \<open>A receipt means the lease is over.\<close>

definition receipts_final :: "sync_lib \<Rightarrow> sync_db \<Rightarrow> bool" where
  "receipts_final L s \<longleftrightarrow> (\<forall>q\<in>set (sy_releases s). ended L s (rr_token q))"

lemma receipts_final_step:
  assumes "sync_step L s s'" "lane_inv L s" "receipts_final L s"
  shows "receipts_final L s'"
proof -
  have old: "ended L s' (rr_token q)" if "q \<in> set (sy_releases s)" for q
    using assms that by (auto simp: receipts_final_def intro: ended_lease_step)
  show ?thesis
    using assms(1)
  proof (cases rule: step_lane_cases)
    case (free q)
    have "\<not> held s' (rr_token q)"
      by (auto simp: held_def lane_of_lanes [OF free(3)] lane_of_set_lane carries_def split: option.splits)
    then have "ended L s' (rr_token q)" using held_lease_step [OF assms(1,2) free(1)] by simp
    with old free(4) show ?thesis by (auto simp: receipts_final_def)
  qed (use old in \<open>auto simp: receipts_final_def keeps_lanes_def\<close>)
qed

lemma reachable_receipts_final:
  assumes "lane_lib_ok L" "reachable_ledger L s"
  shows "receipts_final L s"
proof -
  obtain now where "(sync_step L)\<^sup>*\<^sup>* (empty_ledger now) s" using assms(2) by (auto simp: reachable_ledger_def)
  then show ?thesis
  proof (induction rule: rtranclp_induct)
    case base
    then show ?case by (simp add: receipts_final_def empty_ledger_def)
  next
    case (step y z)
    have "lane_inv L y" using lane_lease.inv_run [OF step(1)] assms(1) lane_inv_empty by blast
    with step show ?case by (auto intro: receipts_final_step)
  qed
qed

lemma released_not_held:
  assumes "receipts_final L s" "released s i t"
  shows "\<not> held s t"
  using assms by (fastforce simp: receipts_final_def released_def dest: ended_later)

lemma release_run:
  assumes net: "others_ok L N" and run: "releaseGitHubCredentialLane L N t nowMs s = (s', r)"
  shows "(sync_step L)\<^sup>*\<^sup>* s s' \<and>
    (r = Inr () \<longrightarrow> released s' (githubCredentialLaneReleaseReceiptId L t) t)"
proof (cases "\<exists>now. nowMs = Some now \<and> js_date now = Inr now \<and> js_date (now + GITHUB_CREDENTIAL_LANE_INTERVAL_MS) =
    Inr (now + GITHUB_CREDENTIAL_LANE_INTERVAL_MS)")
  case False
  with run show ?thesis
    by (auto simp: releaseGitHubCredentialLane_def js_date_def split: option.splits if_splits)
next
  case True
  then obtain now where now: "nowMs = Some now" "js_date now = Inr now"
    "js_date (now + GITHUB_CREDENTIAL_LANE_INTERVAL_MS) = Inr (now + GITHUB_CREDENTIAL_LANE_INTERVAL_MS)" by blast
  define rid where "rid = githubCredentialLaneReleaseReceiptId L t"
  define q where "q = \<lparr>rr_id = rid, rr_token = t, rr_released = now,
      rr_available = now + GITHUB_CREDENTIAL_LANE_INTERVAL_MS\<rparr>"
  obtain d1 r1 where d1: "d1_run N 0 (release_lane q) s = (d1, r1)" by fastforce
  obtain d2 r2 where d2: "d1_read N 1 (\<lambda>s. released s rid t) d1 = (d2, r2)" by fastforce
  have "(sync_step L)\<^sup>*\<^sup>* s d1"
    by (rule d1_run_steps [OF net _ d1], rule r_into_rtranclp, erule sync_step.release)
      (simp add: q_def rid_def)
  with d1_read_steps(1) [OF net d2] have steps: "(sync_step L)\<^sup>*\<^sup>* s d2" by (auto intro: rtranclp_trans)
  have "s' = d2 \<and> (r = Inr () \<longrightarrow> r2 = Inr True)"
    using run by (cases r1; cases r2)
      (auto simp: releaseGitHubCredentialLane_def now Let_def rid_def [symmetric] q_def [symmetric] d1
        hasExactGitHubCredentialLaneReleaseReceipt_def d2 simp del: One_nat_def split: if_splits)
  with steps d1_read_steps(2) [OF net d2, of True] show ?thesis by (auto simp: rid_def)
qed

text \<open>When a release returns, the lane no longer carries the token and its receipt is stored, so
  the release can be repeated and the token can never be used again, even if the reply of the
  first batch was lost; a release that fails leaves only states other Workflows could leave.\<close>

theorem release_ends_the_lease:
  assumes "lane_lib_ok L" "reachable_ledger L s" "others_ok L N"
    and "releaseGitHubCredentialLane L N t nowMs s = (s', r)"
  shows "reachable_ledger L s' \<and> (r = Inr () \<longrightarrow>
    released s' (githubCredentialLaneReleaseReceiptId L t) t \<and> \<not> held s' t \<and> ended L s' t)"
proof -
  note rel = release_run [OF assms(3,4)]
  then have reach: "reachable_ledger L s'"
    using assms(2) by (auto simp: reachable_ledger_def intro: rtranclp_trans)
  then have final: "receipts_final L s'" by (rule reachable_receipts_final [OF assms(1)])
  show ?thesis
    using rel reach final released_not_held [OF final]
    by (auto simp: receipts_final_def released_def)
qed

section \<open>Progress\<close>

text \<open>No other Workflow runs and every reply arrives.\<close>

definition quiet :: "sync_db net" where
  "quiet = \<lparr>nt_before = (\<lambda>i s. s), nt_fate = (\<lambda>i. Delivered)\<rparr>"

lemma quiet_run [simp]:
  "d1_run quiet i st s = (case st s of Inl e \<Rightarrow> (s, Inl e) | Inr (s', a) \<Rightarrow> (s', Inr a))"
  "d1_read quiet i q s = (s, Inr (q s))"
  by (simp_all add: d1_read_def d1_run_def quiet_def split: sum.split)

lemma quiet_others_ok [simp]: "others_ok L quiet"
  by (simp add: others_ok_def quiet_def)

definition claim_ok :: "lane_claim \<Rightarrow> int \<Rightarrow> bool" where
  "claim_ok c now \<longleftrightarrow> lc_now c = Some now \<and> is_safe_integer (lc_lease c) \<and> 1000 \<le> lc_lease c \<and>
     short_text (lc_version c) \<and> hex64 (lc_claim c) \<and> iso24 now \<and> iso24 (now + lc_lease c)"

definition next_epoch :: "sync_db \<Rightarrow> ustring \<Rightarrow> int" where
  "next_epoch s v = (case lane_of s v of None \<Rightarrow> 1 | Some r \<Rightarrow> ln_epoch r + 1)"

definition claimable :: "sync_db \<Rightarrow> ustring \<Rightarrow> int \<Rightarrow> bool" where
  "claimable s v now \<longleftrightarrow> opt_all (\<lambda>r. lane_free now r \<and> ln_available r \<le> now \<and> 0 \<le> ln_epoch r \<and>
     ln_epoch r < 9007199254740990) (lane_of s v)"

lemma iso24_js_date: "iso24 t \<Longrightarrow> js_date t = Inr t"
  by (auto simp: iso24_def js_date_def abs_le_iff)

lemma ensured:
  assumes "short_text v" "iso24 now" "claimable s v now"
  obtains s' n r where "ensure_lane v now s = Inr (s', n)" "lane_of s' v = Some r" "lane_free now r"
    "ln_available r \<le> now" "0 \<le> ln_epoch r" "ln_epoch r < 9007199254740990" "ln_epoch r + 1 = next_epoch s v"
proof (cases "lane_of s v")
  case None
  with assms that show thesis
    by (fastforce simp: ensure_lane_def next_epoch_def lane_of_def find_append_cases lane_free_def)
next
  case (Some r)
  with assms that show thesis by (auto simp: ensure_lane_def next_epoch_def claimable_def)
qed

text \<open>A lane that is free and past its pause is given to the next claim, with the epoch after
  the last one and the full lease.\<close>

theorem free_lane_is_granted:
  assumes "claim_ok c now" "claimable s (lc_version c) now"
  shows "case tryAcquireGitHubCredentialLane quiet c s of (s', r) \<Rightarrow>
    r = Inr (Acquired (claim_token c (next_epoch s (lc_version c)) (now + lc_lease c))) \<and>
    held s' (claim_token c (next_epoch s (lc_version c)) (now + lc_lease c))"
proof -
  from assms(1) have c: "lc_now c = Some now" "is_safe_integer (lc_lease c)" "\<not> lc_lease c < 1000"
    "short_text (lc_version c)" "hex64 (lc_claim c)" "iso24 now" "iso24 (now + lc_lease c)" "now < now + lc_lease c"
    by (auto simp: claim_ok_def)
  obtain s1 n r where e: "ensure_lane (lc_version c) now s = Inr (s1, n)" "lane_of s1 (lc_version c) = Some r"
    "lane_free now r" "ln_available r \<le> now" "0 \<le> ln_epoch r" "ln_epoch r < 9007199254740990"
    "ln_epoch r + 1 = next_epoch s (lc_version c)"
    by (rule ensured [OF c(4,6) assms(2)])
  define t where "t = claim_token c (next_epoch s (lc_version c)) (now + lc_lease c)"
  have "acquire_matches t now r" using e by (simp add: acquire_matches_def t_def)
  then have up: "acquire_lane t now s1 = Inr (set_lane (lc_version c) (grant_lane t now) s1, 1)"
    using e c by (simp add: acquire_lane_def t_def grant_lane_def [abs_def])
  have row: "lane_of (set_lane (lc_version c) (grant_lane t now) s1) (lc_version c) = Some (grant_lane t now r)"
    using e by (simp add: lane_of_set_lane)
  have "claimOutcome c now (now + lc_lease c) 1 (grant_lane t now r) = Acquired t"
    using e by (simp add: claimOutcome_def own_row_def same_claim_def lease_until_def row_token_def t_def
        is_safe_integer_def max_safe_def)
  with e c up row have "tryAcquireGitHubCredentialLane quiet c s =
      (set_lane (lc_version c) (grant_lane t now) s1, Inr (Acquired t))"
    by (simp add: tryAcquireGitHubCredentialLane_def iso24_js_date ensureLane_def updateLane_def t_def [symmetric]
        lane_free_unexpired Let_def del: One_nat_def)
  with row e(7) show ?thesis by (simp add: held_def carries_def t_def)
qed

section \<open>Bounded waiting\<close>

definition pause_ok :: "int \<Rightarrow> bool" where
  "pause_ok p \<longleftrightarrow> 1 \<le> p \<and> p \<le> 30400"

lemma lane_pause_ok: "pause_ok (lane_pause owner attempt now deadline available u)"
  using lane_wait_bounds [of owner attempt] by (auto simp: pause_ok_def lane_pause_def Let_def split: option.splits)

lemma lane_pause_deadline: "now < deadline \<Longrightarrow> now + lane_pause owner attempt now deadline available u \<le> deadline"
  by (auto simp: lane_pause_def Let_def split: option.splits)

lemma lane_attempts_bounds:
  assumes "lane_attempts N clk c deadline n attempt db = (db', ps, r)"
  shows "length ps \<le> n \<and> list_all pause_ok ps \<and>
    (\<forall>i<length ps. clk (attempt + i) + ps ! i \<le> deadline)"
  using assms
proof (induction n arbitrary: attempt db db' ps r)
  case (Suc n)
  obtain d y where d: "step_do STEP_RETRY_LIMIT
      (\<lambda>r. tryAcquireGitHubCredentialLane (N attempt r) (c\<lparr>lc_now := Some (clk attempt)\<rparr>)) db = (d, y)" by fastforce
  show ?case
  proof (cases "\<exists>a u. y = Inr (Busy a u) \<and> clk attempt < deadline")
    case False
    with Suc.prems d show ?thesis by (cases y) (auto split: claim_result.splits if_splits)
  next
    case True
    then obtain a u where y: "y = Inr (Busy a u)" "clk attempt < deadline" by blast
    obtain d' qs r' where rest: "lane_attempts N clk c deadline n (attempt + 1) d = (d', qs, r')"
      by (cases "lane_attempts N clk c deadline n (attempt + 1) d")
    have ps: "ps = lane_pause (lc_id c) attempt (clk attempt) deadline a u # qs"
      using Suc.prems d y rest by simp
    note ih = Suc.IH [OF rest]
    have "clk (attempt + i) + ps ! i \<le> deadline" if "i < length ps" for i
      using that ih lane_pause_deadline [OF y(2)] by (cases i) (auto simp: ps)
    with ih ps lane_pause_ok show ?thesis by simp
  qed
qed simp

text \<open>Waiting for a credential lane ends: after at most the attempt limit, with pauses of one
  millisecond to 30.4 seconds of which none runs past the deadline, it returns a token or throws.\<close>

theorem lane_wait_terminates:
  "case acquireCredentialLane L N clk version kind holder deadline maxAttempts db of (db', ps, r) \<Rightarrow>
     length ps \<le> 1024 \<and> list_all (\<lambda>p. 1 \<le> p \<and> p \<le> 30400) ps \<and>
     list_all (\<lambda>(i, p). clk i + p \<le> deadline) (zip [0..<length ps] ps)"
proof (cases "acquireCredentialLane L N clk version kind holder deadline maxAttempts db")
  case (fields db' ps r)
  show ?thesis
  proof (cases "ps = []")
    case False
    define n where "n = (case maxAttempts of None \<Rightarrow> 1024 | Some n \<Rightarrow> n)"
    from fields False have "\<not> 1024 < n" and "\<exists>c. lane_attempts N clk c deadline (nat n) 0 db = (db', ps, r)"
      unfolding acquireCredentialLane_def Let_def n_def [symmetric] by (auto split: if_splits)
    then obtain c where n: "nat n \<le> 1024" and run: "lane_attempts N clk c deadline (nat n) 0 db = (db', ps, r)"
      by auto
    from lane_attempts_bounds [OF run] n have "length ps \<le> 1024" "list_all pause_ok ps"
      "\<forall>i<length ps. clk i + ps ! i \<le> deadline" by auto
    then show ?thesis by (auto simp: fields pause_ok_def list_all_length)
  qed (simp add: fields)
qed

section \<open>A concrete lane\<close>

definition demo_sync_lib :: sync_lib where
  "demo_sync_lib = \<lparr>sl_sha256 = (\<lambda>s. s), sl_iso = dec_int\<rparr>"

lemma demo_sync_lib_ok: "lane_lib_ok demo_sync_lib"
  using dec_int_chars by (fastforce simp: lane_lib_ok_def demo_sync_lib_def inj_on_def line_def)

definition demo_claim :: "nat \<Rightarrow> int \<Rightarrow> lane_claim" where
  "demo_claim i now = \<lparr>lc_version = str ''v'', lc_kind = DispatchHolder, lc_id = [i],
     lc_claim = replicate 64 i, lc_now = Some now, lc_lease = 1000\<rparr>"

definition demo_ledger1 :: sync_db where
  "demo_ledger1 = fst (tryAcquireGitHubCredentialLane quiet (demo_claim 97 1000) (empty_ledger 1000))"

definition demo_ledger2 :: sync_db where
  "demo_ledger2 = demo_ledger1\<lparr>sy_clock := 5000\<rparr>"

definition demo_ledger3 :: sync_db where
  "demo_ledger3 = fst (tryAcquireGitHubCredentialLane quiet (demo_claim 98 5000) demo_ledger2)"

lemma demo_ledger_simps:
  "tryAcquireGitHubCredentialLane quiet (demo_claim 97 1000) (empty_ledger 1000) =
     (demo_ledger1, Inr (Acquired (claim_token (demo_claim 97 1000) 1 2000)))"
  "tryAcquireGitHubCredentialLane quiet (demo_claim 98 5000) demo_ledger2 =
     (demo_ledger3, Inr (Acquired (claim_token (demo_claim 98 5000) 2 6000)))"
  "sy_clock demo_ledger1 = 1000"
  by code_simp+

lemma demo_claim_ok: "now \<le> sy_clock s \<Longrightarrow> i \<noteq> 10 \<Longrightarrow> clock_ok (demo_claim i now) s"
  by (simp add: clock_ok_def demo_claim_def claim_lines_def line_def)

lemma demo_reachable: "reachable_ledger L (empty_ledger now)"
  by (auto simp: reachable_ledger_def)

lemma lane_claims_exclude_each_other_witness:
  "\<exists>t u. snd (tryAcquireGitHubCredentialLane quiet (demo_claim 97 1000) (empty_ledger 1000)) = Inr (Acquired t) \<and>
     snd (tryAcquireGitHubCredentialLane quiet (demo_claim 98 5000) demo_ledger2) = Inr (Acquired u) \<and>
     tk_epoch t < tk_epoch u \<and> lh_until (tk_holder t) \<le> sy_clock demo_ledger3"
proof -
  let ?t = "claim_token (demo_claim 97 1000) 1 2000" and ?u = "claim_token (demo_claim 98 5000) 2 6000"
  have tick: "(sync_step demo_sync_lib)\<^sup>*\<^sup>* demo_ledger1 demo_ledger2"
    unfolding demo_ledger2_def by (intro r_into_rtranclp sync_step.tick) (simp add: demo_ledger_simps)
  have "clock_ok (demo_claim 97 1000) (empty_ledger 1000)" "clock_ok (demo_claim 98 5000) demo_ledger2"
    by (simp_all add: demo_claim_ok empty_ledger_def demo_ledger2_def)
  from lane_claims_exclude_each_other [OF demo_sync_lib_ok demo_reachable quiet_others_ok quiet_others_ok
      this(1) demo_ledger_simps(1) tick this(2) demo_ledger_simps(2)]
  have "?t = ?u \<or> tk_epoch ?t < tk_epoch ?u" by (auto simp: demo_claim_def)
  moreover have "sy_clock demo_ledger3 = 5000" by code_simp
  ultimately show ?thesis by (simp add: demo_ledger_simps claim_token_def)
qed

lemma release_ends_the_lease_witness:
  "\<exists>s'. releaseGitHubCredentialLane demo_sync_lib quiet (claim_token (demo_claim 97 1000) 1 2000) (Some 1500) demo_ledger1 =
      (s', Inr ()) \<and> held demo_ledger1 (claim_token (demo_claim 97 1000) 1 2000) \<and>
      \<not> held s' (claim_token (demo_claim 97 1000) 1 2000)"
proof -
  let ?t = "claim_token (demo_claim 97 1000) 1 2000"
  let ?r = "releaseGitHubCredentialLane demo_sync_lib quiet ?t (Some 1500) demo_ledger1"
  have reach: "reachable_ledger demo_sync_lib demo_ledger1"
    using tryAcquire_run(1) [OF quiet_others_ok _ _ demo_ledger_simps(1), of demo_sync_lib]
      demo_claim_ok [of 1000 "empty_ledger 1000" 97]
    by (auto simp: reachable_ledger_def clock_ok_def empty_ledger_def)
  have r: "?r = (fst ?r, Inr ())" by code_simp
  from release_ends_the_lease [OF demo_sync_lib_ok reach quiet_others_ok r]
  have "\<not> held (fst ?r) ?t" by simp
  moreover have "held demo_ledger1 ?t" by code_simp
  ultimately show ?thesis using r by blast
qed

lemma free_lane_is_granted_witness:
  "snd (tryAcquireGitHubCredentialLane quiet (demo_claim 98 5000) demo_ledger2) =
     Inr (Acquired (claim_token (demo_claim 98 5000) 2 6000))"
proof -
  have "claim_ok (demo_claim 98 5000) 5000" "claimable demo_ledger2 (lc_version (demo_claim 98 5000)) 5000"
    by code_simp+
  moreover have "next_epoch demo_ledger2 (lc_version (demo_claim 98 5000)) = 2" "lc_lease (demo_claim 98 5000) = 1000"
    by code_simp+
  ultimately show ?thesis
    using free_lane_is_granted [of "demo_claim 98 5000" 5000 demo_ledger2] by auto
qed

end
