(* ===== verification/Request_Budget.thy ===== *)
theory Request_Budget
  imports Lane_Claims
begin

text \<open>
  The GitHub request budget of a dispatch or of a ref run (\<open>reserveGitHubWorkflowRequest\<close> in
  \<open>src/github/sync-workflow.ts\<close> and the pacer of \<open>workflow-runtime.ts\<close> that draws on
  it). Blocks are reserved by the holder of the credential lane; a ref run has an overflow
  segment of its own.
\<close>

section \<open>Reading the counter\<close>

datatype budget = DispatchBudget ustring | ItemBudget ustring

fun readGitHubWorkflowRequestCount :: "budget \<Rightarrow> lane_token \<Rightarrow> sync_db \<Rightarrow> int option" where
  "readGitHubWorkflowRequestCount (DispatchBudget d) t s =
     (case dispatch_of s d of
        None \<Rightarrow> None
      | Some r \<Rightarrow> if dp_status r = DMaterialized \<and> live s t then Some (dp_count r) else None)"
| "readGitHubWorkflowRequestCount (ItemBudget i) t s =
     (case item_of s i of
        None \<Rightarrow> None
      | Some x \<Rightarrow> if it_status x = IRunning \<and> live s t then Some (it_count x + it_overflow x) else None)"

section \<open>Reserving a block\<close>

definition PRIMARY_LIMIT :: int where
  "PRIMARY_LIMIT = 2005"

definition OVERFLOW_LIMIT :: int where
  "OVERFLOW_LIMIT = 8"

definition budget_invalid :: thrown where
  "budget_invalid = Other (str ''The GitHub Workflow request budget is invalid.'')"

definition budget_unavailable :: thrown where
  "budget_unavailable = Other (str ''The GitHub Workflow request budget holder is unavailable.'')"

definition segment_invalid :: thrown where
  "segment_invalid = Other (str ''The GitHub Workflow request budget segment is invalid.'')"

definition budget_changed :: thrown where
  "budget_changed = Other (str ''The GitHub Workflow request budget changed unexpectedly.'')"

fun budget_limit_ok :: "budget \<Rightarrow> int \<Rightarrow> bool" where
  "budget_limit_ok (DispatchBudget d) m \<longleftrightarrow> True"
| "budget_limit_ok (ItemBudget i) m \<longleftrightarrow> m \<le> PRIMARY_LIMIT + OVERFLOW_LIMIT"

text \<open>The segment of a counter value: whether it is the overflow, what it holds, and its limit.\<close>

fun segment :: "budget \<Rightarrow> int \<Rightarrow> int \<Rightarrow> bool \<times> int \<times> int" where
  "segment (DispatchBudget d) m current = (False, current, m)"
| "segment (ItemBudget i) m current =
     (if PRIMARY_LIMIT \<le> current
      then (True, current - PRIMARY_LIMIT, min (m - PRIMARY_LIMIT) OVERFLOW_LIMIT)
      else (False, current, min m PRIMARY_LIMIT))"

fun reserve_statement ::
  "budget \<Rightarrow> bool \<Rightarrow> lane_token \<Rightarrow> int \<Rightarrow> int \<Rightarrow> int \<Rightarrow> sync_db \<Rightarrow> thrown + sync_db \<times> nat" where
  "reserve_statement (DispatchBudget d) overflow t amount current limit s =
     reserve_dispatch d t amount current limit s"
| "reserve_statement (ItemBudget i) overflow t amount current limit s =
     (if overflow then reserve_overflow i t amount current limit s else reserve_item i t amount current limit s)"

definition reserveGitHubWorkflowRequest ::
  "sync_db net \<Rightarrow> budget \<Rightarrow> lane_token \<Rightarrow> int \<Rightarrow> int \<Rightarrow> sync_db \<Rightarrow> sync_db \<times> (thrown + int option)" where
  "reserveGitHubWorkflowRequest N b t m block db =
     (if \<not> is_safe_integer m \<or> m < 1 \<or> \<not> is_safe_integer block \<or> block < 1 \<or> 100 < block \<or>
         \<not> budget_limit_ok b m
      then (db, Inl budget_invalid)
      else then_do (d1_read N 0 (readGitHubWorkflowRequestCount b t) db) (\<lambda>db count.
        case count of
          None \<Rightarrow> (db, Inl budget_unavailable)
        | Some current \<Rightarrow>
            if m \<le> current then (db, Inr None)
            else (case segment b m current of (overflow, used, limit) \<Rightarrow>
              let reserved = min (min block (m - current)) (limit - used)
              in if reserved < 1 then (db, Inl segment_invalid)
                 else try_catch (d1_run N 1 (reserve_statement b overflow t reserved used limit) db)
                   (\<lambda>db n. then_do (d1_read N 3 (readGitHubWorkflowRequestCount b t) db) (\<lambda>db after.
                      (db, if after = Some (current + reserved) then Inr (Some reserved)
                           else if (case after of None \<Rightarrow> False | Some a \<Rightarrow> m \<le> a) then Inr None
                           else Inl budget_changed)))
                   (\<lambda>db e. then_do (d1_read N 2 (readGitHubWorkflowRequestCount b t) db) (\<lambda>db recovered.
                      (db, if recovered = Some (current + reserved) then Inr (Some reserved) else Inl e))))))"

definition reserveGitHubDispatchRequest ::
  "sync_db net \<Rightarrow> ustring \<Rightarrow> lane_token \<Rightarrow> int \<Rightarrow> sync_db \<Rightarrow> sync_db \<times> (thrown + int option)" where
  "reserveGitHubDispatchRequest N d t m db = reserveGitHubWorkflowRequest N (DispatchBudget d) t m 100 db"

definition reserveGitHubRefRequest ::
  "sync_db net \<Rightarrow> ustring \<Rightarrow> lane_token \<Rightarrow> int \<Rightarrow> sync_db \<Rightarrow> sync_db \<times> (thrown + int option)" where
  "reserveGitHubRefRequest N i t m db = reserveGitHubWorkflowRequest N (ItemBudget i) t m 100 db"

section \<open>The pacer\<close>



section \<open>Exact spending\<close>





lemma reserve_statement_step:
  "reserve_statement b overflow t amount used limit s = Inr (s', n) \<Longrightarrow> sync_step L s s'"
  by (cases b) (auto split: if_splits intro: sync_step.dispatch_requests sync_step.item_requests
      sync_step.overflow_requests)



lemma segment_bounds:
  assumes "segment b m current = (overflow, used, limit)" "current < m" "budget_limit_ok b m"
  shows "limit - used \<le> m - current"
  using assms by (cases b) (auto split: if_splits)




section \<open>Requests let through\<close>



section \<open>A concrete budget\<close>







end
