(* ===== verification/Dispatch_Ledger.thy ===== *)
theory Dispatch_Ledger
  imports Request_Budget
begin

text \<open>
  The ledger of dispatches (\<open>establishGitHubDispatch\<close>,
  \<open>completeGitHubDispatchMaterialization\<close>, \<open>markGitHubDispatchStatus\<close> in
  \<open>src/github/sync-workflow.ts\<close>): an identity that never changes, a status that only moves
  forward, and an item set that is frozen by its receipt.
\<close>

section \<open>Operations\<close>

definition readExactGitHubDispatch :: "dispatch_identity \<Rightarrow> sync_db \<Rightarrow> dispatch_status option" where
  "readExactGitHubDispatch i s =
     (case dispatch_of s (di_id i) of
        None \<Rightarrow> None
      | Some r \<Rightarrow> if dp_identity r = i then Some (dp_status r) else None)"

definition dispatch_conflict :: thrown where
  "dispatch_conflict = Other (str ''The GitHub sync dispatch identity conflicts with stored state.'')"

definition establishGitHubDispatch ::
  "sync_lib \<Rightarrow> sync_db net \<Rightarrow> dispatch_identity \<Rightarrow> sync_db \<Rightarrow> sync_db \<times> (thrown + dispatch_status)" where
  "establishGitHubDispatch L N i db =
     try_catch (d1_run N 0 (insert_dispatch L i) db)
       (\<lambda>db n. then_do (d1_read N 2 (readExactGitHubDispatch i) db) (\<lambda>db exact.
          (db, case exact of None \<Rightarrow> Inl dispatch_conflict | Some st \<Rightarrow> Inr st)))
       (\<lambda>db e. then_do (d1_read N 1 (readExactGitHubDispatch i) db) (\<lambda>db exact.
          (db, case exact of None \<Rightarrow> Inl e | Some st \<Rightarrow> Inr st)))"

definition materialization_id :: "sync_lib \<Rightarrow> ustring \<Rightarrow> int \<Rightarrow> int \<Rightarrow> ustring" where
  "materialization_id L d n at = sl_sha256 L (join_with 10 [str ''github.sync.dispatch.materialization'', d,
     dec_int n, sl_iso L at])"

definition receipt_current :: "sync_db \<Rightarrow> materialization_receipt \<Rightarrow> bool" where
  "receipt_current s q \<longleftrightarrow> (case dispatch_of s (mx_dispatch q) of None \<Rightarrow> False
     | Some r \<Rightarrow> dispatched r \<and> item_total s (mx_dispatch q) = mx_count q)"

definition hasExactGitHubDispatchMaterialization :: "materialization_receipt \<Rightarrow> sync_db \<Rightarrow> bool" where
  "hasExactGitHubDispatchMaterialization q s \<longleftrightarrow> q \<in> set (sy_receipts s) \<and> receipt_current s q"

definition hasGitHubDispatchMaterializationReceipt :: "ustring \<Rightarrow> sync_db \<Rightarrow> bool" where
  "hasGitHubDispatchMaterializationReceipt d s \<longleftrightarrow>
     (\<exists>q\<in>set (sy_receipts s). mx_dispatch q = d \<and> receipt_current s q)"

definition item_count_invalid :: thrown where
  "item_count_invalid = Other (str ''The GitHub dispatch item count is invalid.'')"

definition materialization_missing :: thrown where
  "materialization_missing = Other (str ''The GitHub dispatch materialization was not committed.'')"

definition completeGitHubDispatchMaterialization ::
  "sync_lib \<Rightarrow> sync_db net \<Rightarrow> ustring \<Rightarrow> int \<Rightarrow> int \<Rightarrow> sync_db \<Rightarrow> sync_db \<times> (thrown + unit)" where
  "completeGitHubDispatchMaterialization L N d n at db =
     (if \<not> is_safe_integer n \<or> n < 0 then (db, Inl item_count_invalid)
      else
        let q = \<lparr>mx_id = materialization_id L d n at, mx_dispatch = d, mx_count = n, mx_completed = at\<rparr>
        in try_catch (d1_run N 0 (materialize q) db)
          (\<lambda>db _. then_do (d1_read N 2 (hasExactGitHubDispatchMaterialization q) db) (\<lambda>db b.
             (db, if b then Inr () else Inl materialization_missing)))
          (\<lambda>db e. then_do (d1_read N 1 (hasExactGitHubDispatchMaterialization q) db) (\<lambda>db b.
             (db, if b then Inr () else Inl e))))"

definition hasCompatibleGitHubDispatchStatus ::
  "ustring \<Rightarrow> dispatch_status \<Rightarrow> ustring option \<Rightarrow> sync_db \<Rightarrow> bool" where
  "hasCompatibleGitHubDispatchStatus d st e s \<longleftrightarrow>
     (case dispatch_of s d of
        None \<Rightarrow> False
      | Some r \<Rightarrow> (st = DDispatching \<and> dp_status r = DComplete) \<or> (dp_status r = st \<and> dp_error r = e))"

definition status_conflict :: thrown where
  "status_conflict = Other (str ''The GitHub sync dispatch status conflicts with stored state.'')"

text \<open>The compatible-status query answers \<open>false\<close> when it fails.\<close>

definition compatible_read ::
  "sync_db net \<Rightarrow> nat \<Rightarrow> ustring \<Rightarrow> dispatch_status \<Rightarrow> ustring option \<Rightarrow> sync_db \<Rightarrow> sync_db \<times> bool" where
  "compatible_read N i d st e db =
     try_catch (d1_read N i (hasCompatibleGitHubDispatchStatus d st e) db) (\<lambda>db b. (db, b)) (\<lambda>db _. (db, False))"

definition markGitHubDispatchStatus ::
  "sync_db net \<Rightarrow> ustring \<Rightarrow> dispatch_status \<Rightarrow> ustring option \<Rightarrow> int \<Rightarrow> sync_db \<Rightarrow> sync_db \<times> (thrown + unit)" where
  "markGitHubDispatchStatus N d st e at db =
     (let completed = (if st = DComplete \<or> st = DFailed then Some at else None)
      in try_catch (d1_run N 0 (update_dispatch_status d st completed e) db)
        (\<lambda>db changes. if changes = 1 then (db, Inr ())
           else (case compatible_read N 2 d st e db of (db, b) \<Rightarrow> (db, if b then Inr () else Inl status_conflict)))
        (\<lambda>db x. case compatible_read N 1 d st e db of (db, b) \<Rightarrow> (db, if b then Inr () else Inl x)))"

section \<open>A dispatch moves forward\<close>

definition status_before :: "dispatch_status \<Rightarrow> dispatch_status \<Rightarrow> bool" where
  "status_before a b \<longleftrightarrow> a = b \<or> a = DMaterialized \<or> (a = DDispatching \<and> (b = DComplete \<or> b = DFailed))"

definition advances :: "dispatch_row \<Rightarrow> dispatch_row \<Rightarrow> bool" where
  "advances r r' \<longleftrightarrow> dp_identity r' = dp_identity r \<and> dp_count r \<le> dp_count r' \<and>
     status_before (dp_status r) (dp_status r') \<and> (open_dispatch r \<or> r' = r) \<and>
     (dp_status r \<noteq> DMaterialized \<longrightarrow> dp_count r' = dp_count r)"

lemma advances_refl [simp]: "advances r r"
  by (simp add: advances_def status_before_def)

lemma advances_trans: "advances a b \<Longrightarrow> advances b c \<Longrightarrow> advances a c"
  by (auto simp: advances_def status_before_def open_dispatch_def)

lemma dispatch_kept: "sy_dispatches s' = sy_dispatches s \<Longrightarrow> dispatch_of s' d = dispatch_of s d"
  by (simp add: dispatch_of_def)

lemma start_dispatching_advances:
  assumes "dispatch_of s d = Some r"
  shows "\<exists>r'. dispatch_of (start_dispatching e s) d = Some r' \<and> advances r r'"
  using assms start_dispatching_cases [of e s]
  by (auto simp: dispatch_of_set_dispatch advances_def status_before_def open_dispatch_def)

lemma dispatch_step:
  assumes "sync_step L s s'" "dispatch_of s d = Some r"
  shows "\<exists>r'. dispatch_of s' d = Some r' \<and> advances r r'"
  using assms(1)
proof cases
  case (ensure v now n)
  have "sy_dispatches s' = sy_dispatches s" using ensure_lane_cases [OF ensure(1)] by (elim disjE conjE) simp_all
  then have "dispatch_of s' d = Some r" using assms(2) dispatch_kept by metis
  then show ?thesis by simp
next
  case (acquire t now n)
  have "sy_dispatches s' = sy_dispatches s" using acquire_lane_cases [OF acquire(1)] by auto
  then have "dispatch_of s' d = Some r" using assms(2) dispatch_kept by metis
  then show ?thesis by simp
next
  case (release q n)
  have "sy_dispatches s' = sy_dispatches s" using release_lane_cases [OF release(1)] by auto
  then have "dispatch_of s' d = Some r" using assms(2) dispatch_kept by metis
  then show ?thesis by simp
next
  case (establish i n)
  with assms(2) show ?thesis by (auto dest!: insert_dispatch_cases simp: dispatch_of_def find_append_cases)
next
  case (status e m c x n)
  with assms(2) show ?thesis
    by (cases "dp_status r") (auto dest!: update_dispatch_status_cases
      simp: dispatch_of_set_dispatch advances_def status_before_def open_dispatch_def)
next
  case (materialized q n)
  from insert_materialization_cases [OF materialize_cases [OF materialized(1)]]
  have "sy_dispatches s' = sy_dispatches (start_dispatching (mx_dispatch q) s)" by auto
  with start_dispatching_advances [OF assms(2)] show ?thesis by (metis dispatch_kept)
next
  case (dispatch_requests e t a c l n)
  with assms(2) show ?thesis
    by (auto dest!: reserve_dispatch_cases simp: dispatch_of_set_dispatch advances_def status_before_def open_dispatch_def)
next
  case (item_requests i t a c l n)
  have "sy_dispatches s' = sy_dispatches s" using reserve_item_cases [OF item_requests(1)] by auto
  then have "dispatch_of s' d = Some r" using assms(2) dispatch_kept by metis
  then show ?thesis by simp
next
  case (overflow_requests i t a c l n)
  have "sy_dispatches s' = sy_dispatches s" using reserve_overflow_cases [OF overflow_requests(1)] by auto
  then have "dispatch_of s' d = Some r" using assms(2) dispatch_kept by metis
  then show ?thesis by simp
qed (use assms(2) in \<open>auto simp: dispatch_of_def set_item_def\<close>)

lemma dispatch_run:
  assumes "(sync_step L)\<^sup>*\<^sup>* s s'" "dispatch_of s d = Some r"
  shows "\<exists>r'. dispatch_of s' d = Some r' \<and> advances r r'"
  using assms(1)
proof (induction rule: rtranclp_induct)
  case (step y z)
  then show ?case by (blast intro: advances_trans dest: dispatch_step)
qed (use assms(2) in simp)

section \<open>The items of a dispatch are frozen by its receipt\<close>

lemma items_kept: "sy_items s' = sy_items s \<Longrightarrow> items_of s' d = items_of s d"
  by (simp add: items_of_def)

lemma items_step:
  assumes "sync_step L s s'" "dispatch_of s d = Some r" "dp_status r \<noteq> DMaterialized"
  shows "map it_id (items_of s' d) = map it_id (items_of s d)"
proof -
  have same: "map it_id (items_of s' d) = map it_id (items_of s d)" if "sy_items s' = sy_items s"
    using that by (simp add: items_of_def)
  have upd: "map it_id (filter (\<lambda>x. it_dispatch x = d) (update_where p f xs)) =
      map it_id (filter (\<lambda>x. it_dispatch x = d) xs)"
    if "\<And>x. it_id (f x) = it_id x \<and> it_dispatch (f x) = it_dispatch x" for p f xs
    using that by (induction xs) auto
  show ?thesis
    using assms(1)
  proof cases
    case (materialized q n)
    from insert_materialization_cases [OF materialize_cases [OF materialized(1)]]
    have "sy_items s' = sy_items s" by auto
    then show ?thesis by (rule same)
  next
    case (new_item x)
    with assms(2,3) show ?thesis by (auto simp: fresh_item_def items_of_def split: option.splits)
  next
    case (item_requests i t a c l n)
    then show ?thesis by (auto dest!: reserve_item_cases simp: items_of_def set_item_def upd)
  next
    case (overflow_requests i t a c l n)
    then show ?thesis by (auto dest!: reserve_overflow_cases simp: items_of_def set_item_def upd)
  next
    case (item_status i x m run c e)
    then show ?thesis by (simp add: items_of_def set_item_def upd move_item_def)
  next
    case (tick now)
    then show ?thesis by (simp add: items_of_def)
  qed (auto intro!: same dest: ensure_lane_cases acquire_lane_cases release_lane_cases insert_dispatch_cases
      update_dispatch_status_cases reserve_dispatch_cases)
qed

definition receipts_ok :: "sync_db \<Rightarrow> bool" where
  "receipts_ok s \<longleftrightarrow> (\<forall>q\<in>set (sy_receipts s). case dispatch_of s (mx_dispatch q) of None \<Rightarrow> False
     | Some r \<Rightarrow> dp_status r \<noteq> DMaterialized \<and> item_total s (mx_dispatch q) = mx_count q)"

lemma receipts_grow:
  assumes "sync_step L s s'"
  shows "sy_receipts s' = sy_receipts s \<or> (\<exists>q r. sy_receipts s' = sy_receipts s @ [q] \<and>
    dispatch_of s' (mx_dispatch q) = Some r \<and> dispatched r \<and> item_total s' (mx_dispatch q) = mx_count q)"
  using assms
proof cases
  case (materialized q n)
  from insert_materialization_cases [OF materialize_cases [OF materialized(1)]]
  show ?thesis by (auto simp: dispatch_of_def item_total_def items_of_def)
qed (auto dest!: ensure_lane_cases acquire_lane_cases release_lane_cases insert_dispatch_cases
    update_dispatch_status_cases reserve_dispatch_cases reserve_item_cases reserve_overflow_cases)

lemma receipts_ok_step:
  assumes "sync_step L s s'" "receipts_ok s"
  shows "receipts_ok s'"
proof -
  have old: "\<exists>r. dispatch_of s' (mx_dispatch q) = Some r \<and> dp_status r \<noteq> DMaterialized \<and>
      item_total s' (mx_dispatch q) = mx_count q" if q: "q \<in> set (sy_receipts s)" for q
  proof -
    from assms(2) q obtain r where r: "dispatch_of s (mx_dispatch q) = Some r" "dp_status r \<noteq> DMaterialized"
      "item_total s (mx_dispatch q) = mx_count q" by (fastforce simp: receipts_ok_def split: option.splits)
    have "length (items_of s' (mx_dispatch q)) = length (items_of s (mx_dispatch q))"
      using items_step [OF assms(1) r(1,2)] by (metis length_map)
    with dispatch_step [OF assms(1) r(1)] r show ?thesis
      by (auto simp: advances_def status_before_def item_total_def)
  qed
  with receipts_grow [OF assms(1)] show ?thesis
    by (fastforce simp: receipts_ok_def dispatched_def)
qed

lemma reachable_receipts_ok: "reachable_ledger L s \<Longrightarrow> receipts_ok s"
proof -
  have "(sync_step L)\<^sup>*\<^sup>* (empty_ledger now) s \<Longrightarrow> receipts_ok s" for now
  proof (induction rule: rtranclp_induct)
    case base
    then show ?case by (simp add: receipts_ok_def empty_ledger_def)
  next
    case (step y z)
    then show ?case by (blast intro: receipts_ok_step)
  qed
  then show "reachable_ledger L s \<Longrightarrow> receipts_ok s" by (auto simp: reachable_ledger_def)
qed

lemma receipts_kept: "(sync_step L)\<^sup>*\<^sup>* s s' \<Longrightarrow> set (sy_receipts s) \<subseteq> set (sy_receipts s')"
proof (induction rule: rtranclp_induct)
  case (step y z)
  from receipts_grow [OF step(2)] step(3) show ?case by auto
qed simp

lemma items_run:
  assumes "(sync_step L)\<^sup>*\<^sup>* s s'" "dispatch_of s d = Some r" "dp_status r \<noteq> DMaterialized"
  shows "map it_id (items_of s' d) = map it_id (items_of s d)"
  using assms(1)
proof (induction rule: rtranclp_induct)
  case (step y z)
  from dispatch_run [OF step(1) assms(2)] assms(3) obtain r' where "dispatch_of y d = Some r'" "dp_status r' \<noteq> DMaterialized"
    by (auto simp: advances_def status_before_def)
  from items_step [OF step(2) this] step(3) show ?case by simp
qed simp

text \<open>Once the materialization receipt of a dispatch is stored, its set of items is final: whatever
  the Workflows do later, the receipt stays, the dispatch never returns to \<open>materialized\<close>, and
  the dispatch has exactly the same items, as many as the receipt says, so a replayed fan-out
  starts the same ref runs.\<close>

theorem materialized_items_are_final:
  assumes "reachable_ledger L s" "q \<in> set (sy_receipts s)" "(sync_step L)\<^sup>*\<^sup>* s s'"
  shows "q \<in> set (sy_receipts s') \<and>
    map it_id (items_of s' (mx_dispatch q)) = map it_id (items_of s (mx_dispatch q)) \<and>
    item_total s' (mx_dispatch q) = mx_count q \<and>
    (\<exists>r. dispatch_of s' (mx_dispatch q) = Some r \<and> dp_status r \<noteq> DMaterialized)"
proof -
  from reachable_receipts_ok [OF assms(1)] assms(2) obtain r where r: "dispatch_of s (mx_dispatch q) = Some r"
    "dp_status r \<noteq> DMaterialized" "item_total s (mx_dispatch q) = mx_count q"
    by (fastforce simp: receipts_ok_def split: option.splits)
  note ids = items_run [OF assms(3) r(1,2)]
  have "length (items_of s' (mx_dispatch q)) = length (items_of s (mx_dispatch q))"
    using ids by (metis length_map)
  with ids r receipts_kept [OF assms(3)] assms(2) dispatch_run [OF assms(3) r(1)] show ?thesis
    by (auto simp: item_total_def advances_def status_before_def)
qed

text \<open>A dispatch only moves forward: its identity never changes, its status goes from
  materialized over dispatching to complete or failed and then stays, its request count never
  falls, and a row in a final status is never written again.\<close>

theorem dispatch_only_moves_forward:
  assumes "(sync_step L)\<^sup>*\<^sup>* s s'" "dispatch_of s d = Some r"
  shows "\<exists>r'. dispatch_of s' d = Some r' \<and> dp_identity r' = dp_identity r \<and> dp_count r \<le> dp_count r' \<and>
    status_before (dp_status r) (dp_status r') \<and> (open_dispatch r \<or> r' = r)"
  using dispatch_run [OF assms] by (auto simp: advances_def)

section \<open>Establishing and closing a dispatch\<close>

lemma establish_run:
  assumes net: "others_ok L N" and run: "establishGitHubDispatch L N i s = (s', r)"
  shows "(sync_step L)\<^sup>*\<^sup>* s s' \<and> (\<forall>st. r = Inr st \<longrightarrow> readExactGitHubDispatch i s' = Some st)"
proof -
  obtain d0 r0 where d0: "d1_run N 0 (insert_dispatch L i) s = (d0, r0)" by fastforce
  obtain d1 r1 where d1: "d1_read N 1 (readExactGitHubDispatch i) d0 = (d1, r1)" by fastforce
  obtain d2 r2 where d2: "d1_read N 2 (readExactGitHubDispatch i) d0 = (d2, r2)" by fastforce
  have "(sync_step L)\<^sup>*\<^sup>* s d0"
    by (rule d1_run_steps [OF net _ d0], rule r_into_rtranclp, erule sync_step.establish)
  with d1_read_steps(1) [OF net d1] d1_read_steps(1) [OF net d2]
  have steps: "(sync_step L)\<^sup>*\<^sup>* s d1" "(sync_step L)\<^sup>*\<^sup>* s d2" by (auto intro: rtranclp_trans)
  have "(s' = d1 \<and> (\<forall>st. r = Inr st \<longrightarrow> r1 = Inr (Some st))) \<or> (s' = d2 \<and> (\<forall>st. r = Inr st \<longrightarrow> r2 = Inr (Some st)))"
    using run by (cases r0; cases r1; cases r2)
      (auto simp: establishGitHubDispatch_def d0 d1 d2 simp del: One_nat_def split: option.splits)
  with steps d1_read_steps(2) [OF net d1] d1_read_steps(2) [OF net d2] show ?thesis by fastforce
qed

text \<open>A dispatch identifier stands for one dispatch: two Workflows that both established it agree on
  the credential version, the instance, the slot and the creation time, whatever ran between
  them, and the second sees a status at or after the first one's.\<close>

theorem dispatch_identity_is_unique:
  assumes "others_ok L N1" "others_ok L N2"
    and "establishGitHubDispatch L N1 i s = (s1, Inr a)" "(sync_step L)\<^sup>*\<^sup>* s1 s2"
    and "establishGitHubDispatch L N2 j s2 = (s3, Inr b)" "di_id i = di_id j"
  shows "i = j \<and> status_before a b"
proof -
  from establish_run [OF assms(1,3)] obtain r where r: "dispatch_of s1 (di_id i) = Some r" "dp_identity r = i"
    "dp_status r = a" by (auto simp: readExactGitHubDispatch_def split: option.splits if_splits)
  from establish_run [OF assms(2,5)] obtain q where q: "(sync_step L)\<^sup>*\<^sup>* s2 s3" "dispatch_of s3 (di_id j) = Some q"
    "dp_identity q = j" "dp_status q = b" by (auto simp: readExactGitHubDispatch_def split: option.splits if_splits)
  from dispatch_run [OF rtranclp_trans [OF assms(4) q(1)] r(1)] obtain r' where
    "dispatch_of s3 (di_id i) = Some r'" "advances r r'" by blast
  moreover from this q(2) assms(6) have "r' = q" by simp
  ultimately show ?thesis using r(2,3) q(3,4) by (simp add: advances_def)
qed

lemma compatible_read_run:
  assumes "others_ok L N" "compatible_read N i d st e s = (s', b)"
  shows "(sync_step L)\<^sup>*\<^sup>* s s' \<and> (b \<longrightarrow> hasCompatibleGitHubDispatchStatus d st e s')"
proof -
  obtain d1 r1 where d1: "d1_read N i (hasCompatibleGitHubDispatchStatus d st e) s = (d1, r1)" by fastforce
  with assms(2) d1_read_steps(1) [OF assms(1) d1] d1_read_steps(2) [OF assms(1) d1, of True] show ?thesis
    by (cases r1) (auto simp: compatible_read_def)
qed

lemma mark_run:
  assumes net: "others_ok L N" and run: "markGitHubDispatchStatus N d st e at s = (s', r)"
  shows "(sync_step L)\<^sup>*\<^sup>* s s' \<and> (r = Inr () \<longrightarrow> hasCompatibleGitHubDispatchStatus d st e s')"
proof -
  define c where "c = (if st = DComplete \<or> st = DFailed then Some at else None)"
  obtain d0 r0 where d0: "d1_run N 0 (update_dispatch_status d st c e) s = (d0, r0)" by fastforce
  obtain d1 b1 where d1: "compatible_read N 1 d st e d0 = (d1, b1)" by fastforce
  obtain d2 b2 where d2: "compatible_read N 2 d st e d0 = (d2, b2)" by fastforce
  have s0: "(sync_step L)\<^sup>*\<^sup>* s d0"
    by (rule d1_run_steps [OF net _ d0], rule r_into_rtranclp, erule sync_step.status)
  have changed: "hasCompatibleGitHubDispatchStatus d st e d0" if "r0 = Inr 1"
  proof -
    from d0 that have "update_dispatch_status d st c e (nt_before N 0 s) = Inr (d0, 1)"
      by (auto simp: d1_run_def Let_def split: if_splits sum.splits)
    from update_dispatch_status_cases [OF this] show ?thesis
      by (auto simp: hasCompatibleGitHubDispatchStatus_def dispatch_of_set_dispatch)
  qed
  note c1 = compatible_read_run [OF net d1] and c2 = compatible_read_run [OF net d2]
  have "(s' = d0 \<and> r0 = Inr 1) \<or> (s' = d1 \<and> (r = Inr () \<longrightarrow> b1)) \<or> (s' = d2 \<and> (r = Inr () \<longrightarrow> b2))"
    using run by (cases r0)
      (auto simp: markGitHubDispatchStatus_def c_def [symmetric] d0 d1 d2 simp del: One_nat_def split: if_splits)
  with s0 c1 c2 changed show ?thesis by (auto intro: rtranclp_trans)
qed

text \<open>A final status is final: after a successful close, no later call can report the dispatch
  closed in another way or with another error code, and repeating the close succeeds only with
  the same outcome.\<close>

theorem final_status_is_final:
  assumes "others_ok L N1" "others_ok L N2" "st = DComplete \<or> st = DFailed"
    and "markGitHubDispatchStatus N1 d st e at1 s = (s1, Inr ())" "(sync_step L)\<^sup>*\<^sup>* s1 s2"
    and "markGitHubDispatchStatus N2 d st2 e2 at2 s2 = (s3, Inr ())"
  shows "(st2 = st \<and> e2 = e) \<or> (st2 = DDispatching \<and> st = DComplete)"
proof -
  from mark_run [OF assms(1,4)] assms(3) obtain r where r: "dispatch_of s1 d = Some r" "dp_status r = st" "dp_error r = e"
    by (auto simp: hasCompatibleGitHubDispatchStatus_def split: option.splits)
  from mark_run [OF assms(2,6)] have m: "(sync_step L)\<^sup>*\<^sup>* s2 s3" "hasCompatibleGitHubDispatchStatus d st2 e2 s3" by auto
  from dispatch_run [OF rtranclp_trans [OF assms(5) m(1)] r(1)] r assms(3)
  have "dispatch_of s3 d = Some r" by (auto simp: advances_def open_dispatch_def)
  with m(2) r show ?thesis by (auto simp: hasCompatibleGitHubDispatchStatus_def)
qed

section \<open>A concrete dispatch\<close>

definition demo_identity :: dispatch_identity where
  "demo_identity = \<lparr>di_id = replicate 64 97, di_version = str ''v'', di_instance = str ''ghd-'' @ replicate 64 97,
     di_scheduled = 0, di_date = dec_int 0, di_created = 0\<rparr>"

definition demo_dispatched :: sync_db where
  "demo_dispatched = fst (establishGitHubDispatch demo_sync_lib quiet demo_identity (empty_ledger 1000))"

definition demo_materialized :: sync_db where
  "demo_materialized = fst (completeGitHubDispatchMaterialization demo_sync_lib quiet (replicate 64 97) 0 0 demo_dispatched)"

definition demo_closed :: sync_db where
  "demo_closed = fst (markGitHubDispatchStatus quiet (replicate 64 97) DComplete None 5 demo_materialized)"

lemma demo_dispatch_runs:
  "establishGitHubDispatch demo_sync_lib quiet demo_identity (empty_ledger 1000) = (demo_dispatched, Inr DMaterialized)"
  "completeGitHubDispatchMaterialization demo_sync_lib quiet (replicate 64 97) 0 0 demo_dispatched =
     (demo_materialized, Inr ())"
  "markGitHubDispatchStatus quiet (replicate 64 97) DComplete None 5 demo_materialized = (demo_closed, Inr ())"
  "markGitHubDispatchStatus quiet (replicate 64 97) DDispatching None 6 demo_closed = (demo_closed, Inr ())"
  "establishGitHubDispatch demo_sync_lib quiet demo_identity demo_closed = (demo_closed, Inr DComplete)"
  by code_simp+

lemma quiet_runs:
  "insert_dispatch L i s = Inr (s', n) \<Longrightarrow> (sync_step L)\<^sup>*\<^sup>* s s'"
  "materialize q s = Inr (s', n) \<Longrightarrow> (sync_step L)\<^sup>*\<^sup>* s s'"
  by (auto intro: sync_step.establish sync_step.materialized)

lemma demo_dispatch_steps:
  "(sync_step demo_sync_lib)\<^sup>*\<^sup>* (empty_ledger 1000) demo_dispatched"
  "(sync_step demo_sync_lib)\<^sup>*\<^sup>* demo_dispatched demo_materialized"
  "(sync_step demo_sync_lib)\<^sup>*\<^sup>* demo_materialized demo_closed"
proof -
  show "(sync_step demo_sync_lib)\<^sup>*\<^sup>* (empty_ledger 1000) demo_dispatched"
    using establish_run [OF quiet_others_ok demo_dispatch_runs(1)] by simp
  have "materialize (hd (sy_receipts demo_materialized)) demo_dispatched = Inr (demo_materialized, 0)" by code_simp
  then show "(sync_step demo_sync_lib)\<^sup>*\<^sup>* demo_dispatched demo_materialized" by (rule quiet_runs)
  show "(sync_step demo_sync_lib)\<^sup>*\<^sup>* demo_materialized demo_closed"
    using mark_run [OF quiet_others_ok demo_dispatch_runs(3)] by simp
qed

lemma materialized_items_are_final_witness:
  "\<exists>q. q \<in> set (sy_receipts demo_materialized) \<and> q \<in> set (sy_receipts demo_closed) \<and>
     item_total demo_closed (mx_dispatch q) = mx_count q"
proof -
  have "reachable_ledger demo_sync_lib demo_materialized"
    using demo_dispatch_steps by (auto simp: reachable_ledger_def intro: rtranclp_trans)
  moreover have "hd (sy_receipts demo_materialized) \<in> set (sy_receipts demo_materialized)" by code_simp
  ultimately show ?thesis
    using materialized_items_are_final [OF _ _ demo_dispatch_steps(3)] by blast
qed

lemma dispatch_only_moves_forward_witness:
  "\<exists>r r'. dispatch_of demo_dispatched (replicate 64 97) = Some r \<and> dp_status r = DMaterialized \<and>
     dispatch_of demo_closed (replicate 64 97) = Some r' \<and> dp_status r' = DComplete \<and> dp_identity r' = dp_identity r"
proof -
  have run: "(sync_step demo_sync_lib)\<^sup>*\<^sup>* demo_dispatched demo_closed"
    using demo_dispatch_steps(2,3) by (rule rtranclp_trans)
  have d: "dispatch_of demo_dispatched (replicate 64 97) = Some (hd (sy_dispatches demo_dispatched))"
    "dp_status (hd (sy_dispatches demo_dispatched)) = DMaterialized"
    "map_option dp_status (dispatch_of demo_closed (replicate 64 97)) = Some DComplete" by code_simp+
  from dispatch_only_moves_forward [OF run d(1)] d show ?thesis by auto
qed

lemma dispatch_identity_is_unique_witness:
  "status_before DMaterialized DComplete \<and> snd (establishGitHubDispatch demo_sync_lib quiet demo_identity demo_closed) = Inr DComplete"
  using dispatch_identity_is_unique [OF quiet_others_ok quiet_others_ok demo_dispatch_runs(1)
      rtranclp_trans [OF demo_dispatch_steps(2,3)] demo_dispatch_runs(5) refl] by (simp add: demo_dispatch_runs)

lemma final_status_is_final_witness:
  "snd (markGitHubDispatchStatus quiet (replicate 64 97) DComplete None 5 demo_materialized) = Inr () \<and>
   snd (markGitHubDispatchStatus quiet (replicate 64 97) DDispatching None 6 demo_closed) = Inr () \<and>
   (DDispatching = DComplete \<or> DDispatching = DDispatching)"
  using final_status_is_final [OF quiet_others_ok quiet_others_ok _ demo_dispatch_runs(3) rtranclp.rtrancl_refl
      demo_dispatch_runs(4)] by (simp add: demo_dispatch_runs)

end
