(* ===== verification/Search_Text.thy ===== *)
theory Search_Text
  imports Contracts "HOL-Library.Code_Target_Nat"
begin

text \<open>
  Text in search: the chunks of a memory (\<open>src/search/chunking.ts\<close>), the token estimate and
  the truncation to a token budget (\<open>src/search/pipeline.ts\<close>), and the lexical query
  (\<open>src/search/lexical.ts\<close>).
\<close>

section \<open>Chunks\<close>

definition utf8ByteLength :: "nat \<Rightarrow> nat" where
  "utf8ByteLength c = (if c \<le> 127 then 1 else if c \<le> 2047 then 2 else if c \<le> 65535 then 3 else 4)"

definition MAX_MEMORY_CHUNK_ESTIMATED_TOKENS :: nat where
  "MAX_MEMORY_CHUNK_ESTIMATED_TOKENS = 4000"

fun chunk_loop :: "ustring \<Rightarrow> nat \<Rightarrow> ustring \<Rightarrow> ustring list" where
  "chunk_loop chunk tokens [] = (if chunk \<noteq> [] then [chunk] else [])"
| "chunk_loop chunk tokens (c # cs) =
     (if chunk \<noteq> [] \<and> MAX_MEMORY_CHUNK_ESTIMATED_TOKENS < tokens + utf8ByteLength c
      then chunk # chunk_loop [c] (utf8ByteLength c) cs
      else chunk_loop (chunk @ [c]) (tokens + utf8ByteLength c) cs)"

definition chunkMemoryContent :: "ustring \<Rightarrow> thrown + ustring list" where
  "chunkMemoryContent content =
     (if content = [] then Inl (Other (str ''Memory content cannot be empty.''))
      else Inr (chunk_loop [] 0 content))"

definition digit :: "nat \<Rightarrow> bool" where
  "digit c \<longleftrightarrow> 48 \<le> c \<and> c \<le> 57"

text \<open>\<open>/^chunk-(0|[1-9][0-9]*)$/\<close>.\<close>

definition chunk_index :: "ustring \<Rightarrow> nat option" where
  "chunk_index s =
     (if take 6 s = str ''chunk-'' then
        (let ds = drop 6 s
         in if ds \<noteq> [] \<and> list_all digit ds \<and> (ds = [48] \<or> hd ds \<noteq> 48) then Some (undec ds) else None)
      else None)"

definition selectAuthoritativeMemoryChunk :: "ustring \<Rightarrow> ustring \<Rightarrow> thrown + ustring" where
  "selectAuthoritativeMemoryChunk content chunkId =
     (case chunk_index chunkId of
        None \<Rightarrow> Inl (Other (str ''The recalled chunk ID is not a canonical memory chunk identifier.''))
      | Some i \<Rightarrow>
          if \<not> is_safe_integer (int i)
          then Inl (Other (str ''The recalled chunk ID is not a canonical memory chunk identifier.''))
          else bind_res (chunkMemoryContent content) (\<lambda>chunks.
            if i < length chunks then Inr (chunks ! i)
            else Inl (Other (str ''The recalled chunk ID does not exist in the authoritative memory content.''))))"

text \<open>The identifier the index gives chunk \<open>i\<close>.\<close>

definition chunk_id :: "nat \<Rightarrow> ustring" where
  "chunk_id i = str ''chunk-'' @ dec i"

definition chunk_tokens :: "ustring \<Rightarrow> nat" where
  "chunk_tokens s = sum_list (map utf8ByteLength s)"

lemma utf8ByteLength_bounds: "1 \<le> utf8ByteLength c" "utf8ByteLength c \<le> 4"
  by (simp_all add: utf8ByteLength_def)

lemma concat_chunk_loop: "concat (chunk_loop chunk tokens cs) = chunk @ cs"
  by (induction chunk tokens cs rule: chunk_loop.induct) auto

lemma chunk_tokens_snoc [simp]: "chunk_tokens (s @ [c]) = chunk_tokens s + utf8ByteLength c"
  "chunk_tokens [c] = utf8ByteLength c" "chunk_tokens [] = 0"
  by (simp_all add: chunk_tokens_def)

lemma chunk_loop_sizes:
  assumes "chunk_tokens chunk \<le> MAX_MEMORY_CHUNK_ESTIMATED_TOKENS"
    "b \<in> set (chunk_loop chunk (chunk_tokens chunk) cs)"
  shows "b \<noteq> [] \<and> chunk_tokens b \<le> MAX_MEMORY_CHUNK_ESTIMATED_TOKENS"
  using assms
proof (induction cs arbitrary: chunk)
  case Nil
  then show ?case by (auto split: if_splits)
next
  case (Cons c cs)
  have c: "chunk_tokens [c] \<le> MAX_MEMORY_CHUNK_ESTIMATED_TOKENS"
    using utf8ByteLength_bounds(2) [of c] by (simp add: MAX_MEMORY_CHUNK_ESTIMATED_TOKENS_def)
  show ?case
  proof (cases "chunk \<noteq> [] \<and> MAX_MEMORY_CHUNK_ESTIMATED_TOKENS < chunk_tokens chunk + utf8ByteLength c")
    case True
    then have "b = chunk \<or> b \<in> set (chunk_loop [c] (chunk_tokens [c]) cs)" using Cons.prems(2) by simp
    then show ?thesis using Cons.IH [OF c] Cons.prems(1) True by blast
  next
    case False
    then have "b \<in> set (chunk_loop (chunk @ [c]) (chunk_tokens (chunk @ [c])) cs)"
      using Cons.prems(2) by (simp split: if_splits)
    moreover have "chunk_tokens (chunk @ [c]) \<le> MAX_MEMORY_CHUNK_ESTIMATED_TOKENS"
      using False c by (cases "chunk = []") auto
    ultimately show ?thesis by (rule Cons.IH [rotated])
  qed
qed

lemma dec_leading: "dec i = [48] \<or> hd (dec i) \<noteq> 48"
proof (induction i rule: dec.induct)
  case (1 n)
  show ?case
  proof (cases "n < 10")
    case True
    then show ?thesis by (cases "n = 0") (subst dec.simps, simp)+
  next
    case False
    then have "dec (n div 10) \<noteq> dec 0" by simp
    then have "dec (n div 10) \<noteq> [48]" by (simp add: dec.simps [of 0])
    with 1 False show ?thesis by (subst dec.simps) simp
  qed
qed

lemma chunk_index_id: "chunk_index (chunk_id i) = Some i"
proof -
  have "list_all digit (dec i)" using dec_digits [of _ i] by (auto simp: list_all_iff digit_def)
  then show ?thesis using dec_leading [of i]
    by (simp add: chunk_index_def chunk_id_def Let_def del: undec.simps)
qed

text \<open>The chunks of a memory are its content cut at code points: joined they are the content again,
  none is empty or above 4000 estimated tokens, and the identifier under which a chunk is indexed
  selects exactly that chunk from the authoritative content, so a recalled excerpt is always text
  of the stored memory.\<close>

theorem memory_chunks_partition:
  assumes "chunkMemoryContent content = Inr chunks" "length chunks \<le> 9007199254740991"
  shows "concat chunks = content \<and>
    (\<forall>b\<in>set chunks. b \<noteq> [] \<and> chunk_tokens b \<le> MAX_MEMORY_CHUNK_ESTIMATED_TOKENS) \<and>
    (\<forall>i<length chunks. selectAuthoritativeMemoryChunk content (chunk_id i) = Inr (chunks ! i))"
proof -
  from assms(1) have c: "content \<noteq> []" "chunks = chunk_loop [] 0 content"
    by (auto simp: chunkMemoryContent_def split: if_splits)
  have "selectAuthoritativeMemoryChunk content (chunk_id i) = Inr (chunks ! i)" if "i < length chunks" for i
    using that assms by (simp add: selectAuthoritativeMemoryChunk_def chunk_index_id is_safe_integer_def max_safe_def)
  moreover have "b \<noteq> [] \<and> chunk_tokens b \<le> MAX_MEMORY_CHUNK_ESTIMATED_TOKENS" if "b \<in> set chunks" for b
    using chunk_loop_sizes [of "[]" b content] that c by simp
  ultimately show ?thesis using c by (simp add: concat_chunk_loop)
qed

section \<open>Token estimates\<close>

definition ceil4 :: "nat \<Rightarrow> nat" where
  "ceil4 n = (n + 3) div 4"

fun estimate_loop :: "nat \<Rightarrow> nat \<Rightarrow> ustring \<Rightarrow> nat" where
  "estimate_loop tokens run [] = tokens + ceil4 run"
| "estimate_loop tokens run (c # cs) =
     (if c \<le> 127 then estimate_loop tokens (run + 1) cs
      else estimate_loop (tokens + (ceil4 run + utf8ByteLength c)) 0 cs)"

definition estimateTokens :: "ustring \<Rightarrow> nat" where
  "estimateTokens s = max 1 (estimate_loop 0 0 s)"

text \<open>The binary search of \<open>truncateToTokenBudget\<close>.\<close>

function longest_fit :: "(nat \<Rightarrow> bool) \<Rightarrow> nat \<Rightarrow> nat \<Rightarrow> nat" where
  "longest_fit fits lower upper =
     (if lower < upper then
        (let midpoint = (lower + upper + 1) div 2
         in if fits midpoint then longest_fit fits midpoint upper else longest_fit fits lower (midpoint - 1))
      else lower)"
  by pat_completeness auto

termination
  by (relation "measure (\<lambda>(fits, lower, upper). upper - lower)") auto

declare longest_fit.simps [simp del]

definition truncateToTokenBudget :: "ustring \<Rightarrow> int \<Rightarrow> ustring" where
  "truncateToTokenBudget content budget =
     (if int (estimateTokens content) \<le> budget then content
      else take (longest_fit (\<lambda>n. int (estimateTokens (take n content)) \<le> budget) 0 (length content)) content)"

lemma ceil4_mono: "m \<le> n \<Longrightarrow> ceil4 m \<le> ceil4 n"
  by (simp add: ceil4_def div_le_mono)

lemma ceil4_add: "ceil4 (m + n) \<le> ceil4 m + ceil4 n"
  unfolding ceil4_def by presburger

lemma ceil4_0 [simp]: "ceil4 0 = 0"
  by (simp add: ceil4_def)

lemma estimate_loop_plus: "estimate_loop (t + u) r s = t + estimate_loop u r s"
  by (induction s arbitrary: u r) (simp_all add: add.assoc)

lemma estimate_loop_0: "estimate_loop t r s = t + estimate_loop 0 r s"
  using estimate_loop_plus [of t 0] by simp

lemma estimate_Cons:
  "estimate_loop 0 r (c # s) =
     (if c \<le> 127 then estimate_loop 0 (r + 1) s else ceil4 r + utf8ByteLength c + estimate_loop 0 0 s)"
  using estimate_loop_0 [of "ceil4 r + utf8ByteLength c" 0 s] by simp

lemma estimate_loop_start: "ceil4 r \<le> estimate_loop 0 r s"
proof (induction s arbitrary: r)
  case (Cons c s)
  have "ceil4 r \<le> ceil4 (r + 1)" by (rule ceil4_mono) simp
  with Cons [of "r + 1"] show ?case by (auto simp: estimate_Cons simp del: estimate_loop.simps)
qed simp

lemma estimate_loop_prefix: "estimate_loop 0 r s \<le> estimate_loop 0 r (s @ q)"
proof (induction s arbitrary: r)
  case Nil
  then show ?case using estimate_loop_start [of r q] by simp
next
  case (Cons c s)
  then show ?case by (simp add: estimate_Cons del: estimate_loop.simps)
qed

lemma estimate_prefix:
  assumes "m \<le> n"
  shows "estimateTokens (take m s) \<le> estimateTokens (take n s)"
proof -
  have "take n s = take m s @ take (n - m) (drop m s)"
    using assms take_add [of m "n - m" s] by simp
  then have "estimate_loop 0 0 (take m s) \<le> estimate_loop 0 0 (take n s)"
    using estimate_loop_prefix [of 0 "take m s" "take (n - m) (drop m s)"] by simp
  then show ?thesis by (simp add: estimateTokens_def max_def)
qed

lemma estimate_loop_shift: "estimate_loop 0 (a + b) s \<le> ceil4 a + estimate_loop 0 b s"
proof (induction s arbitrary: b)
  case Nil
  then show ?case using ceil4_add [of a b] by simp
next
  case (Cons c s)
  then show ?case using Cons [of "b + 1"] ceil4_add [of a b]
    by (auto simp: estimate_Cons add.assoc simp del: estimate_loop.simps)
qed

lemma estimate_loop_append: "estimate_loop 0 r (s @ q) \<le> estimate_loop 0 r s + estimate_loop 0 0 q"
proof (induction s arbitrary: r)
  case Nil
  then show ?case using estimate_loop_shift [of r 0 q] by simp
next
  case (Cons c s)
  then show ?case by (simp add: estimate_Cons del: estimate_loop.simps)
qed

text \<open>Joining texts never costs more than their parts.\<close>

lemma estimate_append: "estimateTokens (s @ q) \<le> estimateTokens s + estimateTokens q"
  using estimate_loop_append [of 0 s q] by (simp add: estimateTokens_def max_def)

section \<open>The longest prefix that fits\<close>

lemma longest_fit_max:
  assumes "\<forall>m n. m \<le> n \<longrightarrow> fits n \<longrightarrow> fits m" "lower \<le> upper" "lower = 0 \<or> fits lower"
  shows "longest_fit fits lower upper \<le> upper \<and>
    (longest_fit fits lower upper = 0 \<or> fits (longest_fit fits lower upper)) \<and>
    (\<forall>n. fits n \<and> n \<le> upper \<longrightarrow> n \<le> longest_fit fits lower upper)"
  using assms
proof (induction fits lower upper rule: longest_fit.induct)
  case (1 fits lower upper)
  define m where "m = (lower + upper + 1) div 2"
  show ?case
  proof (cases "lower < upper")
    case False
    then have "longest_fit fits lower upper = lower" by (subst longest_fit.simps) simp
    moreover have "lower = upper" using False 1(4) by simp
    ultimately show ?thesis using 1(5) by simp
  next
    case True
    then have m: "lower < m" "m \<le> upper" "lower \<le> m - 1" by (auto simp: m_def)
    show ?thesis
    proof (cases "fits m")
      case fit: True
      have "longest_fit fits lower upper = longest_fit fits m upper"
        using True fit by (subst longest_fit.simps) (simp add: m_def Let_def)
      moreover have "longest_fit fits m upper \<le> upper \<and>
        (longest_fit fits m upper = 0 \<or> fits (longest_fit fits m upper)) \<and>
        (\<forall>n. fits n \<and> n \<le> upper \<longrightarrow> n \<le> longest_fit fits m upper)"
        by (rule 1(1) [OF True m_def fit]) (use 1(3) m fit in auto)
      ultimately show ?thesis by simp
    next
      case no: False
      have eq: "longest_fit fits lower upper = longest_fit fits lower (m - 1)"
        using True no by (subst longest_fit.simps) (simp add: m_def Let_def)
      have ih: "longest_fit fits lower (m - 1) \<le> m - 1 \<and>
        (longest_fit fits lower (m - 1) = 0 \<or> fits (longest_fit fits lower (m - 1))) \<and>
        (\<forall>n. fits n \<and> n \<le> m - 1 \<longrightarrow> n \<le> longest_fit fits lower (m - 1))"
        by (rule 1(2) [OF True m_def no]) (use 1(3,5) m in auto)
      have "n \<le> m - 1" if "fits n" for n using 1(3) that no m(1) by (cases "m \<le> n") auto
      with ih m show ?thesis unfolding eq by fastforce
    qed
  qed
qed

text \<open>C37: Truncating to a token budget ends and gives the longest prefix whose estimate fits: it is within
  the budget, and one more code point would not be, unless the content fits whole.\<close>

theorem truncation_is_longest_prefix:
  assumes "1 \<le> budget"
  shows "\<exists>n\<le>length content. truncateToTokenBudget content budget = take n content \<and>
    int (estimateTokens (take n content)) \<le> budget \<and>
    (\<forall>k\<le>length content. int (estimateTokens (take k content)) \<le> budget \<longrightarrow> k \<le> n)"
proof (cases "int (estimateTokens content) \<le> budget")
  case True
  then show ?thesis by (intro exI [of _ "length content"]) (simp add: truncateToTokenBudget_def)
next
  case False
  let ?fits = "\<lambda>n. int (estimateTokens (take n content)) \<le> budget"
  let ?n = "longest_fit ?fits 0 (length content)"
  have "?fits m" if "m \<le> n" "?fits n" for m n
    using estimate_prefix [OF that(1), of content] that(2) by linarith
  then have "\<forall>m n. m \<le> n \<longrightarrow> ?fits n \<longrightarrow> ?fits m" by blast
  from longest_fit_max [OF this, of 0 "length content"]
  have n: "?n \<le> length content" "?n = 0 \<or> ?fits ?n" "\<forall>k. ?fits k \<and> k \<le> length content \<longrightarrow> k \<le> ?n"
    by simp_all
  have "?fits 0" using assms by (simp add: estimateTokens_def)
  with n(2) have "?fits ?n" by (cases "?n = 0") simp_all
  moreover have "truncateToTokenBudget content budget = take ?n content"
    using False by (simp add: truncateToTokenBudget_def)
  ultimately show ?thesis using n(1,3) by blast
qed

section \<open>Lexical queries\<close>

text \<open>
  Unicode tables are parameters: NFKC normalisation, lower-casing, and the class of
  \<open>[\p{L}\p{N}_]\<close>.
\<close>

record text_lib =
  tl_nfkc :: "ustring \<Rightarrow> ustring"
  tl_lower :: "ustring \<Rightarrow> ustring"
  tl_word :: "nat \<Rightarrow> bool"

text \<open>\<open>replace(/\s+/gu, " ")\<close>; \<open>b\<close> tells whether the run before was written.\<close>

fun collapse_spaces :: "bool \<Rightarrow> ustring \<Rightarrow> ustring" where
  "collapse_spaces b [] = []"
| "collapse_spaces b (c # cs) =
     (if js_space c then (if b then collapse_spaces True cs else 32 # collapse_spaces True cs)
      else c # collapse_spaces False cs)"

text \<open>The maximal runs of word characters, in order.\<close>

fun word_runs :: "(nat \<Rightarrow> bool) \<Rightarrow> ustring \<Rightarrow> ustring \<Rightarrow> ustring list" where
  "word_runs w run [] = (if run = [] then [] else [run])"
| "word_runs w run (c # cs) =
     (if w c then word_runs w (run @ [c]) cs
      else if run = [] then word_runs w [] cs
      else run # word_runs w [] cs)"

text \<open>\<open>slice(0, n)\<close> counts UTF-16 units and may cut a pair.\<close>

fun js_take :: "nat \<Rightarrow> ustring \<Rightarrow> ustring" where
  "js_take n [] = []"
| "js_take n (c # cs) =
     (if n = 0 then []
      else if c \<le> 65535 then c # js_take (n - 1) cs
      else if n = 1 then [55296 + (c - 65536) div 1024]
      else c # js_take (n - 2) cs)"

definition MAX_TOKENS :: nat where
  "MAX_TOKENS = 20"

definition MAX_TOKEN_LENGTH :: nat where
  "MAX_TOKEN_LENGTH = 128"

record lexical_query =
  lx_text :: ustring
  lx_tokens :: "ustring list"
  lx_fts :: "ustring option"

fun token_loop :: "ustring list \<Rightarrow> ustring list \<Rightarrow> ustring list" where
  "token_loop tokens [] = tokens"
| "token_loop tokens (m # ms) =
     (let t = js_take MAX_TOKEN_LENGTH m
      in if t \<in> set tokens then token_loop tokens ms
         else if length (tokens @ [t]) = MAX_TOKENS then tokens @ [t]
         else token_loop (tokens @ [t]) ms)"

definition quoteFtsToken :: "ustring \<Rightarrow> ustring" where
  "quoteFtsToken t = 34 # concat (map (\<lambda>c. if c = 34 then [34, 34] else [c]) t) @ [34]"

fun join_text :: "ustring \<Rightarrow> ustring list \<Rightarrow> ustring" where
  "join_text sep [] = []"
| "join_text sep [x] = x"
| "join_text sep (x # y # ys) = x @ sep @ join_text sep (y # ys)"

definition normalizeLexicalQuery :: "text_lib \<Rightarrow> ustring \<Rightarrow> lexical_query" where
  "normalizeLexicalQuery T q =
     (let normalized = tl_lower T (collapse_spaces False (js_trim (tl_nfkc T q)));
          tokens = token_loop [] (word_runs (tl_word T) [] normalized)
      in \<lparr>lx_text = normalized, lx_tokens = tokens,
          lx_fts = (if tokens = [] then None else Some (join_text (str '' AND '') (map quoteFtsToken tokens)))\<rparr>)"

lemma token_loop_bounds:
  "distinct tokens \<Longrightarrow> length tokens < MAX_TOKENS \<Longrightarrow>
   distinct (token_loop tokens ms) \<and> length (token_loop tokens ms) \<le> MAX_TOKENS"
  by (induction tokens ms rule: token_loop.induct) (auto simp: Let_def)

lemma lexical_tokens_bounded:
  "distinct (lx_tokens (normalizeLexicalQuery T q)) \<and> length (lx_tokens (normalizeLexicalQuery T q)) \<le> MAX_TOKENS"
  using token_loop_bounds [of "[]"] by (simp add: normalizeLexicalQuery_def Let_def MAX_TOKENS_def)

section \<open>Concrete texts\<close>

lemma truncation_is_longest_prefix_witness:
  "\<exists>n. truncateToTokenBudget (str ''abcdefghi'') 2 = take n (str ''abcdefghi'') \<and>
     int (estimateTokens (take n (str ''abcdefghi''))) \<le> 2"
  using truncation_is_longest_prefix [of 2 "str ''abcdefghi''"] by (metis one_le_numeral)

lemma memory_chunks_partition_witness:
  "\<exists>chunks. chunkMemoryContent (str ''memory'') = Inr chunks \<and> concat chunks = str ''memory'' \<and>
     selectAuthoritativeMemoryChunk (str ''memory'') (chunk_id 0) = Inr (chunks ! 0)"
proof -
  have c: "chunkMemoryContent (str ''memory'') = Inr [str ''memory'']" by code_simp
  from memory_chunks_partition [OF c] c show ?thesis by auto
qed

end
