(* ===== verification/Search_Ranking.thy ===== *)
theory Search_Ranking
  imports Complex_Main Search_Text "HOL-Library.Product_Lexorder" "HOL-Library.List_Lexorder" "HOL-Library.Multiset"
begin

text \<open>
  Fusion, deduplication and selection of search candidates (\<open>src/search/ranking.ts\<close>).
  Scores are the rationals that doubles denote; \<open>nl_round\<close> rounds the result of one
  operation and \<open>nl_sqrt\<close> is \<open>Math.sqrt\<close>. \<open>localeCompare\<close> compares collation keys
  (\<open>nl_collate\<close>).
\<close>

record num_lib =
  nl_round :: "rat \<Rightarrow> rat"
  nl_sqrt :: "rat \<Rightarrow> rat"
  nl_collate :: "ustring \<Rightarrow> nat list"
  nl_text :: text_lib

section \<open>Recall\<close>

datatype recall_channel = ExactChannel | LexicalChannel | SemanticChannel

record recall_hit =
  rh_project :: ustring
  rh_memory :: ustring
  rh_revision :: ustring
  rh_chunk :: ustring
  rh_generation :: ustring
  rh_source :: "rat option"
  rh_channel :: "recall_channel option"

record recall_set =
  rs_channel :: recall_channel
  rs_weight :: rat
  rs_hits :: "recall_hit list"

record fused_hit =
  fu_hit :: recall_hit
  fu_score :: rat
  fu_channels :: "recall_channel list"

definition identity_text :: "ustring \<Rightarrow> ustring \<Rightarrow> ustring \<Rightarrow> ustring \<Rightarrow> ustring" where
  "identity_text p m r c = p @ 0 # m @ 0 # r @ 0 # c"

definition recallIdentity :: "recall_hit \<Rightarrow> ustring" where
  "recallIdentity h = identity_text (rh_project h) (rh_memory h) (rh_revision h) (rh_chunk h)"

definition DEFAULT_RRF_CONSTANT :: rat where
  "DEFAULT_RRF_CONSTANT = 60"

text \<open>A map in insertion order.\<close>

definition add_fused :: "num_lib \<Rightarrow> recall_channel \<Rightarrow> rat \<Rightarrow> recall_hit \<Rightarrow> (ustring \<times> fused_hit) list \<Rightarrow>
    (ustring \<times> fused_hit) list" where
  "add_fused Q ch x h fused =
     (let key = recallIdentity h
      in if key \<in> set (map fst fused)
         then map (\<lambda>(k, f). if k = key
             then (k, f\<lparr>fu_score := nl_round Q (fu_score f + x),
               fu_channels := (if ch \<in> set (fu_channels f) then fu_channels f else fu_channels f @ [ch])\<rparr>)
             else (k, f)) fused
         else fused @ [(key, \<lparr>fu_hit = h, fu_score = x, fu_channels = [ch]\<rparr>)])"

fun fuse_hits :: "num_lib \<Rightarrow> ustring \<Rightarrow> rat \<Rightarrow> recall_channel \<Rightarrow> rat \<Rightarrow> nat \<Rightarrow> ustring list \<Rightarrow> recall_hit list \<Rightarrow>
    (ustring \<times> fused_hit) list \<Rightarrow> (ustring \<times> fused_hit) list" where
  "fuse_hits Q gen k ch w i seen [] fused = fused"
| "fuse_hits Q gen k ch w i seen (h # hs) fused =
     (if rh_generation h \<noteq> gen \<or> recallIdentity h \<in> set seen
      then fuse_hits Q gen k ch w (i + 1) seen hs fused
      else fuse_hits Q gen k ch w (i + 1) (recallIdentity h # seen) hs
             (add_fused Q ch (nl_round Q (w / nl_round Q (k + of_nat i + 1))) h fused))"

fun fuse_sets :: "num_lib \<Rightarrow> ustring \<Rightarrow> rat \<Rightarrow> recall_set list \<Rightarrow> (ustring \<times> fused_hit) list \<Rightarrow>
    thrown + (ustring \<times> fused_hit) list" where
  "fuse_sets Q gen k [] fused = Inr fused"
| "fuse_sets Q gen k (s # ss) fused =
     (if rs_weight s \<le> 0 then Inl (Other (str ''recall weights must be positive.''))
      else fuse_sets Q gen k ss (fuse_hits Q gen k (rs_channel s) (rs_weight s) 0 [] (rs_hits s) fused))"

definition fused_key :: "num_lib \<Rightarrow> fused_hit \<Rightarrow> rat \<times> nat list \<times> nat list \<times> nat list" where
  "fused_key Q f = (- fu_score f, nl_collate Q (rh_memory (fu_hit f)), nl_collate Q (rh_revision (fu_hit f)),
     nl_collate Q (rh_chunk (fu_hit f)))"

definition fuseReciprocalRanks :: "num_lib \<Rightarrow> recall_set list \<Rightarrow> ustring \<Rightarrow> rat \<Rightarrow> thrown + fused_hit list" where
  "fuseReciprocalRanks Q sets gen k =
     (if k < 1 then Inl (Other (str ''rrfConstant must be at least 1.''))
      else bind_res (fuse_sets Q gen k sets []) (\<lambda>fused. Inr (sort_key (fused_key Q) (map snd fused))))"

section \<open>Candidates\<close>

text \<open>A candidate without its chunk and embedding is what a result shows of it.\<close>

record public_candidate =
  ca_project :: ustring
  ca_memory :: ustring
  ca_revision :: ustring
  ca_version :: int
  ca_chunk :: ustring
  ca_sha :: ustring
  ca_kind :: memory_kind
  ca_class :: memory_class
  ca_scope :: memory_scope
  ca_scope_id :: ustring
  ca_status :: memory_status
  ca_from :: "ustring option"
  ca_until :: "ustring option"
  ca_evidence :: "ustring list"
  ca_score :: rat
  ca_generation :: ustring

record candidate = public_candidate +
  ca_content :: ustring
  ca_embedding :: "rat list option"

definition candidateIdentity :: "candidate \<Rightarrow> ustring" where
  "candidateIdentity c = identity_text (ca_project c) (ca_memory c) (ca_revision c) (ca_chunk c)"

definition candidate_key :: "num_lib \<Rightarrow> candidate \<Rightarrow> rat \<times> int \<times> nat list" where
  "candidate_key Q c = (- ca_score c, - ca_version c, nl_collate Q (ca_memory c))"

definition better_version :: "candidate \<Rightarrow> candidate \<Rightarrow> bool" where
  "better_version c e \<longleftrightarrow> ca_version e < ca_version c \<or> (ca_version c = ca_version e \<and> ca_score e < ca_score c)"

text \<open>The map by memory; a better candidate takes the place of the one it replaces.\<close>

fun by_memory :: "candidate list \<Rightarrow> candidate list \<Rightarrow> candidate list" where
  "by_memory kept [] = kept"
| "by_memory kept (c # cs) =
     (if ca_memory c \<in> set (map ca_memory kept)
      then by_memory (map (\<lambda>e. if ca_memory e = ca_memory c \<and> better_version c e then c else e) kept) cs
      else by_memory (kept @ [c]) cs)"

definition deduplicateCandidates :: "num_lib \<Rightarrow> candidate list \<Rightarrow> candidate list" where
  "deduplicateCandidates Q cs = sort_key (candidate_key Q) (by_memory [] cs)"

section \<open>Similarity\<close>

fun dot_norms :: "num_lib \<Rightarrow> rat list \<Rightarrow> rat list \<Rightarrow> rat \<times> rat \<times> rat \<Rightarrow> rat \<times> rat \<times> rat" where
  "dot_norms Q (x # xs) (y # ys) (d, l, r) = dot_norms Q xs ys
     (nl_round Q (d + nl_round Q (x * y)), nl_round Q (l + nl_round Q (x * x)), nl_round Q (r + nl_round Q (y * y)))"
| "dot_norms Q _ _ acc = acc"

definition cosineSimilarity :: "num_lib \<Rightarrow> rat list \<Rightarrow> rat list \<Rightarrow> rat" where
  "cosineSimilarity Q xs ys =
     (case dot_norms Q xs ys (0, 0, 0) of (d, l, r) \<Rightarrow>
        if l = 0 \<or> r = 0 then 0
        else max (-1) (min 1 (nl_round Q (d / nl_sqrt Q (nl_round Q (l * r))))))"

definition tokenSet :: "text_lib \<Rightarrow> ustring \<Rightarrow> ustring list" where
  "tokenSet T s = js_unique (word_runs (tl_word T) [] (tl_lower T (tl_nfkc T s)))"

definition lexicalSimilarity :: "num_lib \<Rightarrow> ustring \<Rightarrow> ustring \<Rightarrow> rat" where
  "lexicalSimilarity Q left right =
     (let a = tokenSet (nl_text Q) left; b = tokenSet (nl_text Q) right;
          i = length (filter (\<lambda>t. t \<in> set b) a)
      in if a = [] \<or> b = [] then 0 else nl_round Q (of_nat i / of_nat (length a + length b - i)))"

definition candidateSimilarity :: "num_lib \<Rightarrow> candidate \<Rightarrow> candidate \<Rightarrow> rat" where
  "candidateSimilarity Q a b =
     (case (ca_embedding a, ca_embedding b) of
        (Some x, Some y) \<Rightarrow> if x \<noteq> [] \<and> length x = length y then cosineSimilarity Q x y
          else lexicalSimilarity Q (ca_content a) (ca_content b)
      | _ \<Rightarrow> lexicalSimilarity Q (ca_content a) (ca_content b))"

section \<open>Maximal marginal relevance\<close>

definition max_list :: "rat \<Rightarrow> rat list \<Rightarrow> rat" where
  "max_list x xs = foldl max x xs"

definition redundancy :: "num_lib \<Rightarrow> candidate list \<Rightarrow> candidate \<Rightarrow> rat" where
  "redundancy Q selected c =
     (case map (candidateSimilarity Q c) selected of [] \<Rightarrow> 0 | x # xs \<Rightarrow> max_list x xs)"

definition mmr_score :: "num_lib \<Rightarrow> rat \<Rightarrow> rat \<Rightarrow> candidate list \<Rightarrow> candidate \<Rightarrow> rat" where
  "mmr_score Q lambda peak selected c =
     (let relevance = (if peak = 0 then 0 else nl_round Q (ca_score c / peak))
      in nl_round Q (nl_round Q (lambda * relevance) -
           nl_round Q (nl_round Q (1 - lambda) * redundancy Q selected c)))"

text \<open>One pass over the rest: \<open>best\<close> is the index and the score of the best so far.\<close>

function mmr_best :: "num_lib \<Rightarrow> (candidate \<Rightarrow> rat) \<Rightarrow> candidate list \<Rightarrow> nat \<Rightarrow> nat \<times> rat \<Rightarrow> nat" where
  "mmr_best Q score rest i best =
     (if i < length rest then
        (let x = score (rest ! i)
         in if snd best < x \<or> (x = snd best \<and>
               nl_collate Q (ca_memory (rest ! i)) < nl_collate Q (ca_memory (rest ! fst best)))
            then mmr_best Q score rest (i + 1) (i, x)
            else mmr_best Q score rest (i + 1) best)
      else fst best)"
  by pat_completeness auto

termination
  by (relation "measure (\<lambda>(Q, score, rest, i, best). length rest - i)") auto

declare mmr_best.simps [simp del]

text \<open>The first candidate always beats the initial score of minus infinity.\<close>

definition mmr_choice :: "num_lib \<Rightarrow> (candidate \<Rightarrow> rat) \<Rightarrow> candidate list \<Rightarrow> nat" where
  "mmr_choice Q score rest = mmr_best Q score rest 1 (0, score (rest ! 0))"

lemma mmr_best_bound: "fst best < length rest \<Longrightarrow> mmr_best Q score rest i best < length rest"
proof (induction Q score rest i best rule: mmr_best.induct)
  case (1 Q score rest i best)
  then show ?case by (subst mmr_best.simps) (auto simp: Let_def)
qed

lemma mmr_choice_bound: "rest \<noteq> [] \<Longrightarrow> mmr_choice Q score rest < length rest"
  by (simp add: mmr_choice_def mmr_best_bound)

lemma remove_shorter: "rest \<noteq> [] \<Longrightarrow>
    mmr_choice Q score rest + (length rest - Suc (mmr_choice Q score rest)) < length rest"
  using mmr_choice_bound [of rest Q score] by simp

function mmr_loop :: "num_lib \<Rightarrow> rat \<Rightarrow> rat \<Rightarrow> nat \<Rightarrow> candidate list \<Rightarrow> candidate list \<Rightarrow> candidate list" where
  "mmr_loop Q lambda peak limit selected rest =
     (if length selected < limit \<and> rest \<noteq> [] then
        (let i = mmr_choice Q (mmr_score Q lambda peak selected) rest
         in mmr_loop Q lambda peak limit (selected @ [rest ! i]) (take i rest @ drop (Suc i) rest))
      else selected)"
  by pat_completeness auto

termination
  by (relation "measure (\<lambda>(Q, lambda, peak, limit, selected, rest). length rest)")
    (auto simp: min_absorb2 less_imp_le mmr_choice_bound remove_shorter)

declare mmr_loop.simps [simp del]

definition selectWithMmr :: "num_lib \<Rightarrow> candidate list \<Rightarrow> int \<Rightarrow> rat \<Rightarrow> thrown + candidate list" where
  "selectWithMmr Q cs limit lambda =
     (if lambda < 0 \<or> 1 < lambda then Inl (Other (str ''MMR lambda must be between 0 and 1.''))
      else
        let rest = sort_key (candidate_key Q) cs
        in Inr (mmr_loop Q lambda (max_list 0 (map ca_score rest)) (nat (max 0 (min limit (int (length cs))))) [] rest))"

section \<open>What fusion keeps\<close>

definition fused_ok :: "ustring \<Rightarrow> recall_hit set \<Rightarrow> (ustring \<times> fused_hit) list \<Rightarrow> bool" where
  "fused_ok gen H fused \<longleftrightarrow> distinct (map fst fused) \<and>
     (\<forall>(k, f)\<in>set fused. k = recallIdentity (fu_hit f) \<and> rh_generation (fu_hit f) = gen \<and> fu_hit f \<in> H)"

lemma add_fused_ok:
  assumes "fused_ok gen H fused" "rh_generation h = gen" "h \<in> H"
  shows "fused_ok gen H (add_fused Q ch x h fused)"
proof (cases "recallIdentity h \<in> set (map fst fused)")
  case True
  have "map fst (add_fused Q ch x h fused) = map fst fused"
    using True by (auto simp: add_fused_def Let_def intro!: map_cong)
  moreover have "k = recallIdentity (fu_hit f) \<and> rh_generation (fu_hit f) = gen \<and> fu_hit f \<in> H"
    if "(k, f) \<in> set (add_fused Q ch x h fused)" for k f
    using that True assms(1) by (auto simp: add_fused_def Let_def fused_ok_def split: if_splits)
  ultimately show ?thesis using assms(1) by (auto simp: fused_ok_def)
next
  case False
  with assms show ?thesis by (auto simp: add_fused_def Let_def fused_ok_def)
qed

lemma fuse_hits_ok:
  assumes "fused_ok gen H fused" "set hs \<subseteq> H"
  shows "fused_ok gen H (fuse_hits Q gen k ch w i seen hs fused)"
  using assms
  by (induction Q gen k ch w i seen hs fused rule: fuse_hits.induct) (simp_all add: add_fused_ok)

lemma fuse_sets_ok:
  assumes "fuse_sets Q gen k sets fused = Inr out" "fused_ok gen H fused"
    "\<Union> (set ` rs_hits ` set sets) \<subseteq> H"
  shows "fused_ok gen H out"
  using assms
proof (induction sets arbitrary: fused)
  case (Cons s sets)
  have "fused_ok gen H (fuse_hits Q gen k (rs_channel s) (rs_weight s) 0 [] (rs_hits s) fused)"
    using Cons.prems by (intro fuse_hits_ok) auto
  with Cons show ?case by (auto split: if_splits)
qed simp

lemma fused_hits_recalled:
  assumes "fuseReciprocalRanks Q sets gen k = Inr fused" "f \<in> set fused"
  shows "rh_generation (fu_hit f) = gen \<and> (\<exists>s\<in>set sets. fu_hit f \<in> set (rs_hits s))"
proof -
  obtain out where out: "fuse_sets Q gen k sets [] = Inr out" "fused = sort_key (fused_key Q) (map snd out)"
    using assms(1) by (auto simp: fuseReciprocalRanks_def bind_res_Inr_iff split: if_splits)
  have "fused_ok gen (\<Union> (set ` rs_hits ` set sets)) out"
    by (rule fuse_sets_ok [OF out(1)]) (auto simp: fused_ok_def)
  with assms(2) out(2) show ?thesis by (auto simp: fused_ok_def)
qed

section \<open>What deduplication keeps\<close>

lemma by_memory_props:
  assumes "distinct (map ca_memory kept)"
  shows "distinct (map ca_memory (by_memory kept cs)) \<and> set (by_memory kept cs) \<subseteq> set kept \<union> set cs"
  using assms
proof (induction cs arbitrary: kept)
  case (Cons c cs)
  let ?r = "map (\<lambda>e. if ca_memory e = ca_memory c \<and> better_version c e then c else e) kept"
  have r: "map ca_memory ?r = map ca_memory kept" by simp
  show ?case
  proof (cases "ca_memory c \<in> set (map ca_memory kept)")
    case True
    have "distinct (map ca_memory ?r)" unfolding r by (rule Cons.prems)
    from Cons.IH [OF this] True show ?thesis by (auto split: if_splits)
  next
    case False
    then have "distinct (map ca_memory (kept @ [c]))" using Cons.prems by auto
    from Cons.IH [OF this] False show ?thesis by auto
  qed
qed simp

lemma deduplicated:
  "distinct (map ca_memory (deduplicateCandidates Q cs))" "set (deduplicateCandidates Q cs) \<subseteq> set cs"
proof -
  have "mset (map ca_memory (deduplicateCandidates Q cs)) = mset (map ca_memory (by_memory [] cs))"
    by (simp add: deduplicateCandidates_def)
  then show "distinct (map ca_memory (deduplicateCandidates Q cs))"
    using by_memory_props [of "[]" cs] mset_eq_imp_distinct_iff by fastforce
  show "set (deduplicateCandidates Q cs) \<subseteq> set cs"
    using by_memory_props [of "[]" cs] by (simp add: deduplicateCandidates_def)
qed

section \<open>What selection keeps\<close>

lemma mmr_loop_props:
  assumes "length selected \<le> limit"
  shows "length (mmr_loop Q lambda peak limit selected rest) = min limit (length selected + length rest) \<and>
    mset (mmr_loop Q lambda peak limit selected rest) \<subseteq># mset selected + mset rest"
  using assms
proof (induction Q lambda peak limit selected rest rule: mmr_loop.induct)
  case (1 Q lambda peak limit selected rest)
  show ?case
  proof (cases "length selected < limit \<and> rest \<noteq> []")
    case True
    define i where "i = mmr_choice Q (mmr_score Q lambda peak selected) rest"
    have i: "i < length rest" using True by (simp add: i_def mmr_choice_bound)
    define r where "r = take i rest @ drop (Suc i) rest"
    have eq: "mmr_loop Q lambda peak limit selected rest = mmr_loop Q lambda peak limit (selected @ [rest ! i]) r"
      using True by (subst mmr_loop.simps) (simp add: i_def r_def Let_def)
    have rest: "mset rest = mset r + {#rest ! i#}"
      using i by (subst id_take_nth_drop [OF i]) (simp add: r_def)
    then have "size (mset rest) = size (mset r) + 1" by simp
    then have len: "length rest = Suc (length r)" by simp
    have "length (selected @ [rest ! i]) \<le> limit" using True by simp
    note ih = 1(1) [OF True i_def this, folded r_def]
    have "length (mmr_loop Q lambda peak limit selected rest) = min limit (length selected + length rest)"
      using ih by (simp add: eq len)
    moreover have "mset (selected @ [rest ! i]) + mset r = mset selected + mset rest"
      by (simp add: rest)
    moreover from ih have "mset (mmr_loop Q lambda peak limit selected rest) \<subseteq># mset (selected @ [rest ! i]) + mset r"
      unfolding eq by blast
    ultimately show ?thesis by metis
  next
    case False
    then have "mmr_loop Q lambda peak limit selected rest = selected" by (subst mmr_loop.simps) auto
    with False 1(2) show ?thesis by auto
  qed
qed

lemma selected_props:
  assumes "selectWithMmr Q cs limit lambda = Inr out"
  shows "mset out \<subseteq># mset cs" "int (length out) = max 0 (min limit (int (length cs)))"
proof -
  from assms have out: "out = mmr_loop Q lambda (max_list 0 (map ca_score (sort_key (candidate_key Q) cs)))
      (nat (max 0 (min limit (int (length cs))))) [] (sort_key (candidate_key Q) cs)"
    by (auto simp: selectWithMmr_def Let_def split: if_splits)
  from mmr_loop_props [of "[]" "nat (max 0 (min limit (int (length cs))))" Q lambda _ "sort_key (candidate_key Q) cs"]
  show "mset out \<subseteq># mset cs" "int (length out) = max 0 (min limit (int (length cs)))"
    unfolding out by (auto simp: min_def max_def)
qed

end
