(* ===== verification/Search_Filters.thy ===== *)
theory Search_Filters
  imports Search_Ranking
begin

text \<open>
  The hard filters of a search (\<open>src/search/planning.ts\<close>) and the checks on values that go into
  the vector index (\<open>src/search/vector-metadata.ts\<close>). \<open>se_iso\<close> is \<open>toISOString\<close>.
\<close>

record search_lib =
  se_num :: num_lib
  se_time :: time_lib
  se_iso :: "int \<Rightarrow> ustring"
  se_sha256 :: "ustring \<Rightarrow> ustring"

definition type_error :: "string \<Rightarrow> thrown" where
  "type_error m = Other (str m)"

section \<open>Indexed values\<close>

definition text_bytes_length :: "ustring \<Rightarrow> nat" where
  "text_bytes_length s = chunk_tokens s"

definition requireVectorizeIndexedString :: "ustring \<Rightarrow> thrown + ustring" where
  "requireVectorizeIndexedString v =
     (if 64 < text_bytes_length v then Inl (type_error ''must not exceed 64 UTF-8 bytes.'') else Inr v)"

definition control :: "nat \<Rightarrow> bool" where
  "control c \<longleftrightarrow> c \<le> 31 \<or> c = 127"

definition asIndexGeneration :: "ustring \<Rightarrow> thrown + ustring" where
  "asIndexGeneration v =
     (if v = [] \<or> js_trim v = [] \<or> 256 < js_length v \<or> list_ex control v
      then Inl (type_error ''index generation must be a non-empty opaque identifier.'') else Inr v)"

text \<open>\<open>/^\\d{4}-\\d{2}-\\d{2}T/i\<close>.\<close>

definition date_prefix :: "ustring \<Rightarrow> bool" where
  "date_prefix s \<longleftrightarrow> 11 \<le> length s \<and> list_all digit (take 4 s) \<and> s ! 4 = 45 \<and>
     list_all digit (take 2 (drop 5 s)) \<and> s ! 7 = 45 \<and> list_all digit (take 2 (drop 8 s)) \<and>
     (s ! 10 = 84 \<or> s ! 10 = 116)"

definition isTimestamp :: "search_lib \<Rightarrow> ustring \<Rightarrow> bool" where
  "isTimestamp Q s \<longleftrightarrow> date_prefix s \<and> date_parse (se_time Q) s \<noteq> None"

definition requireVectorTimestamp :: "search_lib \<Rightarrow> ustring \<Rightarrow> thrown + int" where
  "requireVectorTimestamp Q s =
     (case date_parse (se_time Q) s of
        None \<Rightarrow> Inl (type_error ''must be an ISO-8601 timestamp.'')
      | Some t \<Rightarrow> if date_prefix s \<and> is_safe_integer t then Inr t
          else Inl (type_error ''must be an ISO-8601 timestamp.''))"

definition requireScopeId :: "ustring \<Rightarrow> thrown + ustring" where
  "requireScopeId v =
     (if v = [] \<or> 2048 < js_length v \<or> js_trim v \<noteq> v \<or> list_ex control v
      then Inl (type_error ''The memory scope ID is invalid.'') else Inr v)"

text \<open>\<open>scope_json\<close> is the JSON text of the domain, the scope and the identifier.\<close>

definition deriveVectorScopeKey :: "search_lib \<Rightarrow> (ustring list \<Rightarrow> ustring) \<Rightarrow> memory_scope \<Rightarrow> ustring \<Rightarrow> thrown + ustring" where
  "deriveVectorScopeKey Q json scope i =
     bind_res (requireScopeId i) (\<lambda>i.
       Inr (se_sha256 Q (json [str ''edgemneme.vector.scope'', scope_name scope, i])))"

section \<open>Planning\<close>

record filter_input =
  fi_project :: ustring
  fi_repositories :: "ustring list option"
  fi_statuses :: "memory_status list option"
  fi_kinds :: "memory_kind list option"
  fi_classes :: "memory_class list option"
  fi_scope :: "(memory_scope \<times> ustring list) option"
  fi_valid_at :: "ustring option"
  fi_generation :: "ustring option"

record filter_plan =
  fp_project :: ustring
  fp_repositories :: "ustring list option"
  fp_statuses :: "memory_status list"
  fp_kinds :: "memory_kind list option"
  fp_classes :: "memory_class list option"
  fp_scope :: "(memory_scope \<times> ustring list) option"
  fp_valid_at :: ustring
  fp_generation :: ustring

fun kind_text :: "memory_kind \<Rightarrow> ustring" where
  "kind_text Decision = str ''decision''"
| "kind_text Fact = str ''fact''"
| "kind_text Convention = str ''convention''"
| "kind_text Procedure = str ''procedure''"
| "kind_text Learning = str ''learning''"
| "kind_text Incident = str ''incident''"
| "kind_text Reference = str ''reference''"
| "kind_text Feedback = str ''feedback''"

fun class_text :: "memory_class \<Rightarrow> ustring" where
  "class_text Semantic = str ''semantic''"
| "class_text Procedural = str ''procedural''"
| "class_text Episodic = str ''episodic''"

fun status_text :: "memory_status \<Rightarrow> ustring" where
  "status_text Active = str ''active''"
| "status_text Contested = str ''contested''"
| "status_text Superseded = str ''superseded''"
| "status_text Invalidated = str ''invalidated''"
| "status_text Archived = str ''archived''"

definition MAX_FILTER_VALUES :: nat where
  "MAX_FILTER_VALUES = 50"

definition requireIdentifier :: "nat \<Rightarrow> ustring \<Rightarrow> thrown + ustring" where
  "requireIdentifier limit v =
     (let n = js_trim v
      in if n = [] \<or> limit < js_length n then Inl (type_error ''must be a non-empty identifier.'') else Inr n)"

definition normalizeIdentifiers :: "nat \<Rightarrow> ustring list \<Rightarrow> thrown + ustring list" where
  "normalizeIdentifiers limit vs =
     (if vs = [] \<or> MAX_FILTER_VALUES < length vs
      then Inl (type_error ''must contain between 1 and 50 identifiers.'')
      else bind_res (map_res (requireIdentifier limit) vs) (\<lambda>ns. Inr (js_sort (js_unique ns))))"

definition normalizeAuthorizedRepositoryIds :: "ustring list \<Rightarrow> thrown + ustring list" where
  "normalizeAuthorizedRepositoryIds vs =
     bind_res (map_res (\<lambda>v. bind_res (requireIdentifier 512 v) requireVectorizeIndexedString) vs)
       (\<lambda>ns. Inr (js_sort (js_unique ns)))"

text \<open>The values are of the enumeration already; they sort by their text.\<close>

definition normalizeEnumValues :: "('a \<Rightarrow> ustring) \<Rightarrow> 'a list \<Rightarrow> thrown + 'a list" where
  "normalizeEnumValues name vs =
     (if vs = [] \<or> MAX_FILTER_VALUES < length vs then Inl (type_error ''must contain between 1 and 50 values.'')
      else Inr (sort_key name (js_unique vs)))"

fun opt_res :: "('a \<Rightarrow> thrown + 'b) \<Rightarrow> 'a option \<Rightarrow> thrown + 'b option" where
  "opt_res f None = Inr None"
| "opt_res f (Some x) = bind_res (f x) (\<lambda>y. Inr (Some y))"

text \<open>\<open>now\<close> is the current time as text.\<close>

definition planHardFilters :: "search_lib \<Rightarrow> ustring \<Rightarrow> filter_input \<Rightarrow> thrown + filter_plan" where
  "planHardFilters Q now i =
     bind_res (bind_res (requireIdentifier 512 (fi_project i)) requireVectorizeIndexedString) (\<lambda>project.
     bind_res (opt_res normalizeAuthorizedRepositoryIds (fi_repositories i)) (\<lambda>repositories.
     bind_res (normalizeEnumValues status_text (case fi_statuses i of None \<Rightarrow> [Active] | Some s \<Rightarrow> s)) (\<lambda>statuses.
     bind_res (opt_res (normalizeEnumValues kind_text) (fi_kinds i)) (\<lambda>kinds.
     bind_res (opt_res (normalizeEnumValues class_text) (fi_classes i)) (\<lambda>classes.
       let validAt = (case fi_valid_at i of None \<Rightarrow> now | Some t \<Rightarrow> t)
       in bind_res (require (isTimestamp Q validAt) (type_error ''validAt must be an ISO-8601 timestamp.'')) (\<lambda>_.
          bind_res (opt_res (\<lambda>(s, ids). bind_res (normalizeIdentifiers 2048 ids) (\<lambda>ids. Inr (s, ids))) (fi_scope i)) (\<lambda>scope.
          bind_res (bind_res (requireVectorizeIndexedString (case fi_generation i of None \<Rightarrow> str ''unconfigured'' | Some g \<Rightarrow> g))
            asIndexGeneration) (\<lambda>generation.
          case date_parse (se_time Q) validAt of
            None \<Rightarrow> Inl (type_error ''Invalid time value'')
          | Some t \<Rightarrow> Inr \<lparr>fp_project = project, fp_repositories = repositories, fp_statuses = statuses,
              fp_kinds = kinds, fp_classes = classes, fp_scope = scope, fp_valid_at = se_iso Q t,
              fp_generation = generation\<rparr>))))))))"

text \<open>Whether an instant is known and in the given relation to the filter's.\<close>

definition time_rel :: "search_lib \<Rightarrow> (int \<Rightarrow> int \<Rightarrow> bool) \<Rightarrow> ustring \<Rightarrow> ustring \<Rightarrow> bool" where
  "time_rel Q rel a b = (case (date_parse (se_time Q) a, date_parse (se_time Q) b) of
     (Some x, Some y) \<Rightarrow> rel x y | _ \<Rightarrow> False)"

definition passesHardFilters :: "search_lib \<Rightarrow> filter_plan \<Rightarrow> candidate \<Rightarrow> bool" where
  "passesHardFilters Q p c \<longleftrightarrow>
     ca_project c = fp_project p \<and> ca_generation c = fp_generation p \<and> ca_status c \<in> set (fp_statuses p) \<and>
     opt_all (\<lambda>ks. ca_kind c \<in> set ks) (fp_kinds p) \<and> opt_all (\<lambda>ks. ca_class c \<in> set ks) (fp_classes p) \<and>
     opt_all (\<lambda>(s, ids). ca_scope c = s \<and> ca_scope_id c \<in> set ids) (fp_scope p) \<and>
     opt_all (\<lambda>t. isTimestamp Q t \<and> \<not> time_rel Q (>) t (fp_valid_at p)) (ca_from c) \<and>
     opt_all (\<lambda>t. isTimestamp Q t \<and> time_rel Q (>) t (fp_valid_at p)) (ca_until c)"

section \<open>What a plan holds\<close>

lemma requireIdentifier_Inr:
  "requireIdentifier l v = Inr n \<Longrightarrow> n \<noteq> [] \<and> js_trim n = n \<and> js_length n \<le> l"
  by (auto simp: requireIdentifier_def Let_def split: if_splits)

lemma requireIndexed_Inr:
  "requireVectorizeIndexedString v = Inr n \<Longrightarrow> n = v \<and> text_bytes_length n \<le> 64"
  by (auto simp: requireVectorizeIndexedString_def split: if_splits)

text \<open>\<open>[...new Set(xs)].sort()\<close>: in the order of strings, each once.\<close>

definition canonical_texts :: "ustring list \<Rightarrow> bool" where
  "canonical_texts xs \<longleftrightarrow> sorted (map utf16 xs) \<and> distinct xs"

lemma canonical_js_sort: "canonical_texts (js_sort (js_unique xs))"
  by (simp add: canonical_texts_def) (simp add: js_sort_def)

lemma length_js_unique_le: "length (js_unique xs) \<le> length xs"
  by (metis card_length distinct_card distinct_js_unique set_js_unique)

lemma js_sort_Nil [simp]: "js_sort (js_unique xs) = [] \<longleftrightarrow> xs = []"
  by (metis set_empty set_js_sort set_js_unique)

lemma normalizeIdentifiers_Inr:
  assumes "normalizeIdentifiers l vs = Inr ns"
  shows "canonical_texts ns \<and> ns \<noteq> [] \<and> length ns \<le> MAX_FILTER_VALUES \<and>
    list_all (\<lambda>x. x \<noteq> [] \<and> js_trim x = x \<and> js_length x \<le> l) ns"
proof -
  obtain ys where ys: "vs \<noteq> []" "length vs \<le> MAX_FILTER_VALUES" "map_res (requireIdentifier l) vs = Inr ys"
    "ns = js_sort (js_unique ys)"
    using assms by (auto simp: normalizeIdentifiers_def bind_res_Inr_iff split: if_splits)
  have len: "length ys = length vs" by (rule map_res_length [OF ys(3)])
  have "length ns \<le> length ys" by (simp add: ys(4) js_sort_def length_js_unique_le)
  moreover have "set ns = set ys" by (simp add: ys(4))
  moreover have "ys \<noteq> []" using ys(1) len by auto
  ultimately show ?thesis
    using ys len map_res_source [OF ys(3)]
    by (auto simp: canonical_js_sort list_all_iff dest: requireIdentifier_Inr)
qed

lemma normalizeRepositories_Inr:
  assumes "normalizeAuthorizedRepositoryIds vs = Inr ns"
  shows "canonical_texts ns \<and> list_all (\<lambda>r. r \<noteq> [] \<and> js_trim r = r \<and> text_bytes_length r \<le> 64) ns"
proof -
  obtain ys where ys: "map_res (\<lambda>v. bind_res (requireIdentifier 512 v) requireVectorizeIndexedString) vs = Inr ys"
    "ns = js_sort (js_unique ys)"
    using assms by (auto simp: normalizeAuthorizedRepositoryIds_def bind_res_Inr_iff)
  have "r \<noteq> [] \<and> js_trim r = r \<and> text_bytes_length r \<le> 64" if "r \<in> set ys" for r
    using map_res_source [OF ys(1) that]
    by (auto simp: bind_res_Inr_iff dest!: requireIdentifier_Inr requireIndexed_Inr)
  then show ?thesis by (auto simp: ys(2) canonical_js_sort list_all_iff)
qed

lemma normalizeEnumValues_Inr:
  "normalizeEnumValues name vs = Inr ns \<Longrightarrow> ns \<noteq> [] \<and> distinct ns \<and> set ns = set vs \<and> sorted (map name ns)"
proof -
  assume "normalizeEnumValues name vs = Inr ns"
  then have ns: "vs \<noteq> []" "ns = sort_key name (js_unique vs)"
    by (auto simp: normalizeEnumValues_def split: if_splits)
  then have "set ns = set vs" by simp
  moreover from this ns(1) have "ns \<noteq> []" by auto
  ultimately show ?thesis by (simp add: ns(2))
qed

lemma opt_res_Inr: "opt_res f x = Inr y \<Longrightarrow> (x = None \<and> y = None) \<or> (\<exists>a b. x = Some a \<and> y = Some b \<and> f a = Inr b)"
  by (cases x) (auto simp: bind_res_Inr_iff)

lemma planHardFilters_Inr:
  assumes "planHardFilters Q now i = Inr p"
  obtains project t where
    "requireIdentifier 512 (fi_project i) = Inr project" "requireVectorizeIndexedString project = Inr (fp_project p)"
    "opt_res normalizeAuthorizedRepositoryIds (fi_repositories i) = Inr (fp_repositories p)"
    "normalizeEnumValues status_text (case fi_statuses i of None \<Rightarrow> [Active] | Some s \<Rightarrow> s) = Inr (fp_statuses p)"
    "opt_res (normalizeEnumValues kind_text) (fi_kinds i) = Inr (fp_kinds p)"
    "opt_res (normalizeEnumValues class_text) (fi_classes i) = Inr (fp_classes p)"
    "opt_res (\<lambda>(s, ids). bind_res (normalizeIdentifiers 2048 ids) (\<lambda>ids. Inr (s, ids))) (fi_scope i) = Inr (fp_scope p)"
    "requireVectorizeIndexedString (case fi_generation i of None \<Rightarrow> str ''unconfigured'' | Some g \<Rightarrow> g) = Inr (fp_generation p)"
    "isTimestamp Q (case fi_valid_at i of None \<Rightarrow> now | Some t \<Rightarrow> t)"
    "date_parse (se_time Q) (case fi_valid_at i of None \<Rightarrow> now | Some t \<Rightarrow> t) = Some t" "fp_valid_at p = se_iso Q t"
proof -
  have gen: "g = g'" if "asIndexGeneration g = Inr g'" for g g'
    using that by (auto simp: asIndexGeneration_def split: if_splits)
  let ?v = "case fi_valid_at i of None \<Rightarrow> now | Some t \<Rightarrow> t"
  from assms obtain t where t: "date_parse (se_time Q) ?v = Some t"
    unfolding planHardFilters_def Let_def bind_res_Inr_iff
    by (cases "date_parse (se_time Q) ?v") auto
  show thesis
    using assms unfolding planHardFilters_def Let_def bind_res_Inr_iff t
    apply (elim exE conjE)
    apply (simp only: option.case sum.inject require_Inr)
    apply (drule gen)
    apply (rule that [OF _ _ _ _ _ _ _ _ _ t])
             apply auto
    done
qed

text \<open>C36: A filter plan is canonical: its lists are sorted, free of repeats and never empty where the
  filter is set (the repositories of the caller excepted), every identifier in them is trimmed and
  within its limit, and the values that reach the vector index fit its 64 bytes.\<close>

theorem filter_plan_is_canonical:
  assumes "planHardFilters Q now i = Inr p"
  shows "text_bytes_length (fp_project p) \<le> 64 \<and> text_bytes_length (fp_generation p) \<le> 64 \<and>
    opt_all (\<lambda>rs. canonical_texts rs \<and> list_all (\<lambda>r. r \<noteq> [] \<and> js_trim r = r \<and> text_bytes_length r \<le> 64) rs)
      (fp_repositories p) \<and>
    fp_statuses p \<noteq> [] \<and> distinct (fp_statuses p) \<and> opt_all (\<lambda>ks. ks \<noteq> [] \<and> distinct ks) (fp_kinds p) \<and>
    opt_all (\<lambda>ks. ks \<noteq> [] \<and> distinct ks) (fp_classes p) \<and>
    opt_all (\<lambda>(s, ids). canonical_texts ids \<and> ids \<noteq> [] \<and> length ids \<le> MAX_FILTER_VALUES \<and>
      list_all (\<lambda>x. x \<noteq> [] \<and> js_trim x = x \<and> js_length x \<le> 2048) ids) (fp_scope p)"
  using assms
  by (elim planHardFilters_Inr, intro conjI)
    (auto dest!: opt_res_Inr normalizeRepositories_Inr normalizeIdentifiers_Inr normalizeEnumValues_Inr
      requireIndexed_Inr simp: bind_res_Inr_iff)

text \<open>An instance: instants are known for two texts, hashing and rounding are the identity.\<close>

definition demo_search_lib :: search_lib where
  "demo_search_lib = \<lparr>
     se_num = \<lparr>nl_round = (\<lambda>x. x), nl_sqrt = (\<lambda>x. x), nl_collate = utf16,
       nl_text = \<lparr>tl_nfkc = (\<lambda>s. s), tl_lower = (\<lambda>s. s), tl_word = (\<lambda>c. 97 \<le> c \<and> c \<le> 122)\<rparr>\<rparr>,
     se_time = \<lparr>iso_ok = (\<lambda>s. s = str ''2026-01-01T00:00:00.000Z''),
       date_parse = (\<lambda>s. if s = str ''2026-01-01T00:00:00.000Z'' then Some 1767225600000 else None)\<rparr>,
     se_iso = (\<lambda>t. str ''2026-01-01T00:00:00.000Z''), se_sha256 = (\<lambda>s. s)\<rparr>"

definition demo_filter_input :: filter_input where
  "demo_filter_input = \<lparr>fi_project = str '' p1 '', fi_repositories = Some [str ''r2'', str ''r1'', str ''r2''],
     fi_statuses = None, fi_kinds = Some [Fact, Decision, Fact], fi_classes = None,
     fi_scope = Some (ScopeRepository, [str ''r1'']), fi_valid_at = None, fi_generation = Some (str ''g1'')\<rparr>"

definition demo_filter_plan :: filter_plan where
  "demo_filter_plan = \<lparr>fp_project = str ''p1'', fp_repositories = Some [str ''r1'', str ''r2''],
     fp_statuses = [Active], fp_kinds = Some [Decision, Fact], fp_classes = None,
     fp_scope = Some (ScopeRepository, [str ''r1'']), fp_valid_at = str ''2026-01-01T00:00:00.000Z'',
     fp_generation = str ''g1''\<rparr>"

lemma demo_filters: "planHardFilters demo_search_lib (str ''2026-01-01T00:00:00.000Z'') demo_filter_input = Inr demo_filter_plan"
  by code_simp

theorem filter_plan_is_canonical_witness:
  "opt_all canonical_texts (fp_repositories demo_filter_plan) \<and> text_bytes_length (fp_project demo_filter_plan) \<le> 64"
  using filter_plan_is_canonical [OF demo_filters] by (auto simp: opt_all_def split: option.splits)

end
