(* ===== verification/Search_Pipeline.thy ===== *)
theory Search_Pipeline
  imports Search_Filters "HOL-Library.AList" "HOL-Library.Sublist"
begin

text \<open>
  The search of a project (\<open>src/search/pipeline.ts\<close> and \<open>src/search/exact.ts\<close>). The recall
  providers, the validator of current heads, the reranker and the matches of the regular
  expressions are parameters (\<open>search_env\<close>); the pipeline trusts none of them with what its
  result promises. A number of the caller or of a model is \<open>Finite\<close> or not.
\<close>

section \<open>Exact references\<close>

datatype reference_type = MemoryIdReference | PathReference | ShaReference | SymbolReference

datatype reference_pattern = MEMORY_URI | EXPLICIT_ID | PREFIXED_MEMORY_ID | POSIX_PATH | COMMIT_SHA
  | CALLABLE_SYMBOL | SCOPED_SYMBOL

type_synonym exact_reference = "reference_type \<times> ustring"

fun reference_name :: "reference_type \<Rightarrow> ustring" where
  "reference_name MemoryIdReference = str ''memory_id''"
| "reference_name PathReference = str ''path''"
| "reference_name ShaReference = str ''sha''"
| "reference_name SymbolReference = str ''symbol''"

fun normalizeReference :: "text_lib \<Rightarrow> reference_type \<Rightarrow> ustring \<Rightarrow> ustring" where
  "normalizeReference T ShaReference v = tl_lower T v"
| "normalizeReference T PathReference v = rev (dropWhile (\<lambda>c. c = 46) (rev (tl_nfkc T v)))"
| "normalizeReference T _ v = tl_nfkc T v"

definition reference_key :: "exact_reference \<Rightarrow> ustring" where
  "reference_key r = reference_name (fst r) @ 58 # snd r"

text \<open>\<open>seen\<close> holds the keys of the output.\<close>

fun addMatches :: "text_lib \<Rightarrow> reference_type \<Rightarrow> ustring list \<Rightarrow> exact_reference list \<Rightarrow> exact_reference list" where
  "addMatches T ty [] out = out"
| "addMatches T ty (v # vs) out =
     (let r = (ty, normalizeReference T ty v)
      in addMatches T ty vs (if reference_key r \<in> set (map reference_key out) then out else out @ [r]))"

definition detectExactReferences :: "text_lib \<Rightarrow> (reference_pattern \<Rightarrow> ustring \<Rightarrow> ustring list) \<Rightarrow> ustring \<Rightarrow> exact_reference list" where
  "detectExactReferences T matches q =
     (let add = (\<lambda>ty p. addMatches T ty (matches p q))
      in add SymbolReference SCOPED_SYMBOL (add SymbolReference CALLABLE_SYMBOL (add ShaReference COMMIT_SHA
           (add PathReference POSIX_PATH (add MemoryIdReference PREFIXED_MEMORY_ID
             (add MemoryIdReference EXPLICIT_ID (add MemoryIdReference MEMORY_URI [])))))))"

lemma addMatches_distinct: "distinct (map reference_key out) \<Longrightarrow> distinct (map reference_key (addMatches T ty vs out))"
  by (induction vs arbitrary: out) (simp_all add: Let_def)

lemma detected_distinct: "distinct (map reference_key (detectExactReferences T matches q))"
  by (simp add: detectExactReferences_def Let_def addMatches_distinct)

section \<open>Interfaces\<close>

datatype js_number = Finite rat | NonFinite

record recall_input =
  ri_query :: ustring
  ri_lexical :: "ustring option"
  ri_exact :: "exact_reference list"
  ri_filters :: filter_plan
  ri_limit :: nat

record head_input =
  hi_project :: ustring
  hi_principal :: ustring
  hi_snapshot :: int
  hi_filters :: filter_plan
  hi_candidates :: "fused_hit list"

type_synonym provider = "recall_input \<Rightarrow> thrown + recall_hit list"

record search_env =
  en_lib :: search_lib
  en_matches :: "reference_pattern \<Rightarrow> ustring \<Rightarrow> ustring list"
  en_exact :: "provider option"
  en_lexical :: "provider option"
  en_semantic :: "provider option"
  en_validate :: "head_input \<Rightarrow> thrown + candidate list"
  en_rerank :: "ustring \<Rightarrow> candidate list \<Rightarrow> thrown + (candidate \<times> js_number) list"

record search_input =
  si_filters :: filter_input
  si_principal :: ustring
  si_snapshot :: js_number
  si_query :: ustring
  si_generation :: ustring
  si_limit :: "js_number option"
  si_relevance :: "js_number option"
  si_tokens :: "js_number option"
  si_now :: "ustring option"

datatype abstention_reason = NO_RECALL | NO_CURRENT_HEAD_MATCH | NO_EVIDENCE_BACKED_MATCH | LOW_RELEVANCE
  | CONTEXT_BUDGET_EXCEEDED

record result_memory = public_candidate +
  rm_excerpt :: ustring
  rm_truncated :: bool
  rm_relevance :: rat

record search_result =
  sr_snapshot :: js_number
  sr_generation :: ustring
  sr_abstained :: bool
  sr_reason :: "abstention_reason option"
  sr_memories :: "result_memory list"
  sr_pack :: ustring

section \<open>Limits\<close>

definition RECALL_LIMIT :: nat where "RECALL_LIMIT = 20"
definition RERANK_LIMIT :: nat where "RERANK_LIMIT = 20"
definition DEFAULT_RESULT_LIMIT :: int where "DEFAULT_RESULT_LIMIT = 5"
definition MAX_RESULT_LIMIT :: int where "MAX_RESULT_LIMIT = 10"
definition DEFAULT_CONTEXT_TOKENS :: int where "DEFAULT_CONTEXT_TOKENS = 2500"
definition MAX_CONTEXT_TOKENS :: int where "MAX_CONTEXT_TOKENS = 8000"

text \<open>\<open>Number.isSafeInteger\<close>.\<close>

definition safe_int :: "js_number \<Rightarrow> int option" where
  "safe_int n = (case n of
     Finite x \<Rightarrow> if of_int \<lfloor>x\<rfloor> = x \<and> is_safe_integer \<lfloor>x\<rfloor> then Some \<lfloor>x\<rfloor> else None
   | NonFinite \<Rightarrow> None)"

definition positive_limit :: "string \<Rightarrow> int \<Rightarrow> int \<Rightarrow> js_number option \<Rightarrow> thrown + int" where
  "positive_limit m dflt maximum v =
     (case v of
        None \<Rightarrow> Inr dflt
      | Some n \<Rightarrow> (case safe_int n of
          None \<Rightarrow> Inl (type_error m)
        | Some i \<Rightarrow> if i < 1 then Inl (type_error m) else Inr (min i maximum)))"

definition normalizeResultLimit :: "js_number option \<Rightarrow> thrown + int" where
  "normalizeResultLimit = positive_limit ''limit must be a positive integer.'' DEFAULT_RESULT_LIMIT MAX_RESULT_LIMIT"

definition normalizeTokenBudget :: "js_number option \<Rightarrow> thrown + int" where
  "normalizeTokenBudget =
     positive_limit ''maximumContextTokens must be a positive integer.'' DEFAULT_CONTEXT_TOKENS MAX_CONTEXT_TOKENS"

definition normalizeMinimumRelevance :: "num_lib \<Rightarrow> js_number option \<Rightarrow> thrown + rat" where
  "normalizeMinimumRelevance Q v =
     (case (case v of None \<Rightarrow> Finite (nl_round Q (35 / 100)) | Some n \<Rightarrow> n) of
        Finite x \<Rightarrow> if x < 0 \<or> 1 < x then Inl (type_error ''minimumRelevance must be between 0 and 1.'') else Inr x
      | NonFinite \<Rightarrow> Inl (type_error ''minimumRelevance must be between 0 and 1.''))"

definition requireSnapshotVersion :: "js_number \<Rightarrow> thrown + int" where
  "requireSnapshotVersion n =
     (case safe_int n of
        None \<Rightarrow> Inl (type_error ''snapshotVersion must be a nonnegative integer.'')
      | Some i \<Rightarrow> if i < 0 then Inl (type_error ''snapshotVersion must be a nonnegative integer.'') else Inr i)"

section \<open>The context pack\<close>

definition renderContextCitation :: "'a public_candidate_scheme \<Rightarrow> ustring" where
  "renderContextCitation c =
     str ''[memory:'' @ ca_memory c @ str ''] '' @ str ''[revision:'' @ ca_revision c @ str ''] '' @
     str ''[chunk:'' @ ca_chunk c @ str ''] '' @
     join_text (str '' '') (map (\<lambda>e. str ''[evidence:'' @ e @ str '']'') (ca_evidence c))"

definition renderContextEntry :: "result_memory \<Rightarrow> ustring" where
  "renderContextEntry m = renderContextCitation m @ str '' '' @ rm_excerpt m"

definition buildContextPack :: "result_memory list \<Rightarrow> ustring" where
  "buildContextPack ms = join_text [10, 10] (map renderContextEntry ms)"

definition withoutEmbedding :: "candidate \<Rightarrow> ustring \<Rightarrow> bool \<Rightarrow> rat \<Rightarrow> result_memory" where
  "withoutEmbedding c excerpt truncated relevance =
     public_candidate.extend (public_candidate.truncate c)
       \<lparr>rm_excerpt = excerpt, rm_truncated = truncated, rm_relevance = relevance\<rparr>"

definition fitMemoryToContextBudget :: "candidate \<Rightarrow> rat \<Rightarrow> int \<Rightarrow> (result_memory \<times> nat) option" where
  "fitMemoryToContextBudget c relevance budget =
     (let excerptBudget = budget - int (estimateTokens (renderContextCitation c @ str '' ''))
      in if excerptBudget < 1 then None
         else let excerpt = truncateToTokenBudget (ca_content c) excerptBudget
              in if excerpt = [] then None
                 else let m = withoutEmbedding c excerpt (excerpt \<noteq> ca_content c) relevance;
                          n = estimateTokens (renderContextEntry m)
                      in if int n \<le> budget then Some (m, n) else None)"

text \<open>The loop over the relevant candidates: \<open>ms\<close> are the memories so far and \<open>used\<close> the tokens.\<close>

fun fit_memories :: "int \<Rightarrow> int \<Rightarrow> result_memory list \<Rightarrow> int \<Rightarrow> (candidate \<times> rat) list \<Rightarrow> result_memory list" where
  "fit_memories limit budget ms used [] = ms"
| "fit_memories limit budget ms used ((c, x) # cs) =
     (if int (length ms) = limit then ms
      else
        let separator = (if ms = [] then 0 else int (estimateTokens [10, 10]))
        in case fitMemoryToContextBudget c x (budget - used - separator) of
             None \<Rightarrow> fit_memories limit budget ms used cs
           | Some (m, n) \<Rightarrow> fit_memories limit budget (ms @ [m]) (used + (separator + int n)) cs)"

section \<open>The search\<close>

definition recall_task :: "recall_channel \<Rightarrow> rat \<Rightarrow> provider option \<Rightarrow> bool \<Rightarrow> recall_input \<Rightarrow> thrown + recall_set list" where
  "recall_task ch weight p wanted i =
     (case p of
        Some recall \<Rightarrow> if wanted
          then bind_res (recall i) (\<lambda>hits. Inr [\<lparr>rs_channel = ch, rs_weight = weight, rs_hits = hits\<rparr>]) else Inr []
      | None \<Rightarrow> Inr [])"

text \<open>\<open>Promise.all\<close>; of several failures the first in the order of the tasks stands for all.\<close>

definition recall_all :: "search_env \<Rightarrow> recall_input \<Rightarrow> thrown + recall_set list" where
  "recall_all S i =
     bind_res (recall_task ExactChannel 4 (en_exact S) (ri_exact i \<noteq> []) i) (\<lambda>a.
     bind_res (recall_task LexicalChannel 1 (en_lexical S) (ri_lexical i \<noteq> None) i) (\<lambda>b.
     bind_res (recall_task SemanticChannel 1 (en_semantic S) (ri_query i \<noteq> []) i) (\<lambda>c. Inr (a @ b @ c))))"

definition current_candidates :: "search_lib \<Rightarrow> filter_plan \<Rightarrow> fused_hit list \<Rightarrow> candidate list \<Rightarrow> candidate list" where
  "current_candidates Q p fused cs =
     (let recalled = map_of (rev (map (\<lambda>f. (recallIdentity (fu_hit f), f)) fused))
      in concat (map (\<lambda>c. case recalled (candidateIdentity c) of
            None \<Rightarrow> [] | Some f \<Rightarrow> [c\<lparr>ca_score := fu_score f\<rparr>]) (filter (passesHardFilters Q p) cs)))"

type_synonym relevance_map = "(ustring \<times> (candidate \<times> rat)) list"

definition add_relevance :: "rat \<Rightarrow> candidate list \<Rightarrow> (candidate \<times> js_number) \<Rightarrow> relevance_map \<Rightarrow> relevance_map" where
  "add_relevance minimum diversified item m =
     (let identity = candidateIdentity (fst item)
      in case (map_of (rev (map (\<lambda>c. (candidateIdentity c, c)) diversified)) identity, snd item) of
           (Some c, Finite x) \<Rightarrow>
             if minimum \<le> x \<and> opt_all (\<lambda>e. snd e < x) (map_of m identity)
             then AList.update identity (c, x) m else m
         | _ \<Rightarrow> m)"

definition relevance_key :: "num_lib \<Rightarrow> candidate \<times> rat \<Rightarrow> rat \<times> rat \<times> nat list" where
  "relevance_key Q e = (- snd e, - ca_score (fst e), nl_collate Q (ca_memory (fst e)))"

definition relevant_candidates :: "num_lib \<Rightarrow> rat \<Rightarrow> candidate list \<Rightarrow> (candidate \<times> js_number) list \<Rightarrow> (candidate \<times> rat) list" where
  "relevant_candidates Q minimum diversified reranked =
     sort_key (relevance_key Q) (map snd (fold (add_relevance minimum diversified) reranked []))"

definition abstain :: "search_input \<Rightarrow> abstention_reason \<Rightarrow> search_result" where
  "abstain i why = \<lparr>sr_snapshot = si_snapshot i, sr_generation = si_generation i, sr_abstained = True,
     sr_reason = Some why, sr_memories = [], sr_pack = []\<rparr>"

definition search :: "search_env \<Rightarrow> ustring \<Rightarrow> search_input \<Rightarrow> thrown + search_result" where
  "search S clock i =
     (let Q = en_lib S; N = se_num Q; query = js_trim (tl_nfkc (nl_text N) (si_query i))
      in bind_res (requireIdentifier 512 (si_principal i)) (\<lambda>principal.
         bind_res (requireSnapshotVersion (si_snapshot i)) (\<lambda>snapshot.
         bind_res (normalizeResultLimit (si_limit i)) (\<lambda>limit.
         bind_res (normalizeTokenBudget (si_tokens i)) (\<lambda>budget.
         bind_res (normalizeMinimumRelevance N (si_relevance i)) (\<lambda>minimum.
         bind_res (planHardFilters Q clock ((si_filters i)\<lparr>fi_generation := Some (si_generation i),
           fi_valid_at := (case si_now i of None \<Rightarrow> fi_valid_at (si_filters i) | Some t \<Rightarrow> Some t)\<rparr>)) (\<lambda>filters.
         bind_res (recall_all S \<lparr>ri_query = query, ri_lexical = lx_fts (normalizeLexicalQuery (nl_text N) query),
           ri_exact = detectExactReferences (nl_text N) (en_matches S) query, ri_filters = filters,
           ri_limit = RECALL_LIMIT\<rparr>) (\<lambda>sets.
         bind_res (fuseReciprocalRanks N sets (si_generation i) DEFAULT_RRF_CONSTANT) (\<lambda>fused.
         if fused = [] then Inr (abstain i NO_RECALL)
         else bind_res (en_validate S \<lparr>hi_project = fp_project filters, hi_principal = principal,
           hi_snapshot = snapshot, hi_filters = filters, hi_candidates = fused\<rparr>) (\<lambda>authoritative.
         let current = current_candidates Q filters fused authoritative
         in if current = [] then Inr (abstain i NO_CURRENT_HEAD_MATCH)
         else let evidenceBacked = filter (\<lambda>c. ca_evidence c \<noteq> []) (deduplicateCandidates N current)
         in if evidenceBacked = [] then Inr (abstain i NO_EVIDENCE_BACKED_MATCH)
         else bind_res (selectWithMmr N evidenceBacked (int (min RERANK_LIMIT (length evidenceBacked)))
             (nl_round N (7 / 10))) (\<lambda>diversified.
         bind_res (en_rerank S query diversified) (\<lambda>reranked.
         let relevant = relevant_candidates N minimum diversified reranked
         in if relevant = [] then Inr (abstain i LOW_RELEVANCE)
         else let memories = fit_memories limit budget [] 0 relevant
         in if memories = [] then Inr (abstain i CONTEXT_BUDGET_EXCEEDED)
         else Inr \<lparr>sr_snapshot = si_snapshot i, sr_generation = si_generation i, sr_abstained = False,
           sr_reason = None, sr_memories = memories, sr_pack = buildContextPack memories\<rparr>))))))))))))"

section \<open>The budget\<close>

lemma public_parts [simp]:
  "ca_project (withoutEmbedding c e t x) = ca_project c" "ca_memory (withoutEmbedding c e t x) = ca_memory c"
  "ca_revision (withoutEmbedding c e t x) = ca_revision c" "ca_chunk (withoutEmbedding c e t x) = ca_chunk c"
  "ca_evidence (withoutEmbedding c e t x) = ca_evidence c" "ca_generation (withoutEmbedding c e t x) = ca_generation c"
  "public_candidate.truncate (withoutEmbedding c e t x) = public_candidate.truncate c"
  "rm_excerpt (withoutEmbedding c e t x) = e" "rm_truncated (withoutEmbedding c e t x) = t"
  "rm_relevance (withoutEmbedding c e t x) = x"
  by (simp_all add: withoutEmbedding_def public_candidate.defs)

lemma join_text_snoc: "xs \<noteq> [] \<Longrightarrow> join_text sep (xs @ [x]) = join_text sep xs @ sep @ x"
  by (induction sep xs rule: join_text.induct) auto

lemma pack_snoc: "ms \<noteq> [] \<Longrightarrow> buildContextPack (ms @ [m]) = buildContextPack ms @ [10, 10] @ renderContextEntry m"
  by (simp add: buildContextPack_def join_text_snoc)

text \<open>What a result shows of a candidate: a piece from the start of its chunk, and the rest unchanged.\<close>

definition shows_candidate :: "result_memory \<Rightarrow> candidate \<times> rat \<Rightarrow> bool" where
  "shows_candidate m e \<longleftrightarrow> public_candidate.truncate m = public_candidate.truncate (fst e) \<and>
     rm_excerpt m \<noteq> [] \<and> prefix (rm_excerpt m) (ca_content (fst e)) \<and>
     rm_truncated m = (rm_excerpt m \<noteq> ca_content (fst e)) \<and> rm_relevance m = snd e"

lemma truncate_prefix: "prefix (truncateToTokenBudget content b) content"
  by (simp add: truncateToTokenBudget_def take_is_prefix)

lemma fit_Some:
  assumes "fitMemoryToContextBudget c x b = Some (m, n)"
  shows "shows_candidate m (c, x)" "n = estimateTokens (renderContextEntry m)" "int n \<le> b"
  using assms truncate_prefix
  by (auto simp: fitMemoryToContextBudget_def Let_def shows_candidate_def split: if_splits)

lemma fit_memories_props:
  assumes "int (length ms) \<le> limit" "0 \<le> used" "used \<le> budget"
    "ms \<noteq> [] \<longrightarrow> int (estimateTokens (buildContextPack ms)) \<le> used"
  shows "\<exists>out sub. fit_memories limit budget ms used cs = ms @ out \<and> int (length (ms @ out)) \<le> limit \<and>
    (ms @ out \<noteq> [] \<longrightarrow> int (estimateTokens (buildContextPack (ms @ out))) \<le> budget) \<and>
    subseq sub cs \<and> list_all2 shows_candidate out sub"
  using assms
proof (induction limit budget ms used cs rule: fit_memories.induct)
  case (1 limit budget ms used)
  then show ?case by (intro exI [of _ "[]"]) auto
next
  case (2 limit budget ms used c x cs)
  define separator where "separator = (if ms = [] then 0 else int (estimateTokens [10, 10]))"
  show ?case
  proof (cases "int (length ms) = limit")
    case True
    with 2 show ?thesis by (intro exI [of _ "[]"]) auto
  next
    case False
    show ?thesis
    proof (cases "fitMemoryToContextBudget c x (budget - used - separator)")
      case None
      from 2(1) [OF False separator_def None 2(3-6)] obtain out sub where
        "fit_memories limit budget ms used cs = ms @ out" "int (length (ms @ out)) \<le> limit"
        "ms @ out \<noteq> [] \<longrightarrow> int (estimateTokens (buildContextPack (ms @ out))) \<le> budget"
        "subseq sub cs" "list_all2 shows_candidate out sub" by blast
      with None False show ?thesis
        by (intro exI [of _ out] exI [of _ sub]) (simp add: separator_def Let_def list_emb_Cons)
    next
      case (Some mn)
      obtain m n where mn: "mn = (m, n)" by (cases mn)
      note fit = fit_Some [OF Some [unfolded mn]]
      have len: "int (length (ms @ [m])) \<le> limit" using False 2(3) by simp
      have used: "0 \<le> used + (separator + int n)" "used + (separator + int n) \<le> budget"
        using fit(3) 2(4) by (simp_all add: separator_def)
      have "int (estimateTokens (buildContextPack (ms @ [m]))) \<le> used + (separator + int n)"
      proof (cases "ms = []")
        case True
        then show ?thesis using fit(2) 2(4) by (simp add: buildContextPack_def separator_def)
      next
        case False
        have "estimateTokens (buildContextPack (ms @ [m])) \<le>
          estimateTokens (buildContextPack ms) + (estimateTokens [10, 10] + n)"
          unfolding pack_snoc [OF False] fit(2)
          by (meson add_left_mono estimate_append le_trans)
        with False 2(6) show ?thesis by (simp add: separator_def)
      qed
      then have pack: "ms @ [m] \<noteq> [] \<longrightarrow> int (estimateTokens (buildContextPack (ms @ [m]))) \<le> used + (separator + int n)"
        by simp
      from 2(2) [OF False separator_def Some mn [symmetric] len used pack] obtain out sub where
        "fit_memories limit budget (ms @ [m]) (used + (separator + int n)) cs = (ms @ [m]) @ out"
        "int (length ((ms @ [m]) @ out)) \<le> limit"
        "(ms @ [m]) @ out \<noteq> [] \<longrightarrow> int (estimateTokens (buildContextPack ((ms @ [m]) @ out))) \<le> budget"
        "subseq sub cs" "list_all2 shows_candidate out sub" by blast
      with Some False fit(1) show ?thesis
        by (intro exI [of _ "m # out"] exI [of _ "(c, x) # sub"]) (simp add: separator_def Let_def mn)
    qed
  qed
qed

section \<open>Relevance\<close>

definition relevance_ok :: "rat \<Rightarrow> candidate list \<Rightarrow> relevance_map \<Rightarrow> bool" where
  "relevance_ok minimum diversified m \<longleftrightarrow> distinct (map fst m) \<and>
     (\<forall>(k, c, x)\<in>set m. c \<in> set diversified \<and> candidateIdentity c = k \<and> minimum \<le> x)"

lemma set_AList_update: "e \<in> set (AList.update k v al) \<Longrightarrow> e = (k, v) \<or> e \<in> set al"
  by (induction al) (auto split: if_splits)

lemma add_relevance_ok:
  assumes "relevance_ok minimum diversified m"
  shows "relevance_ok minimum diversified (add_relevance minimum diversified item m)"
proof -
  let ?k = "candidateIdentity (fst item)"
  have upd: "relevance_ok minimum diversified (AList.update ?k (c, x) m)"
    if "map_of (rev (map (\<lambda>c. (candidateIdentity c, c)) diversified)) ?k = Some c" "minimum \<le> x" for c x
  proof -
    have "c \<in> set diversified \<and> candidateIdentity c = ?k" using map_of_SomeD [OF that(1)] by auto
    with assms that(2) show ?thesis
      by (auto simp: relevance_ok_def distinct_update dest!: set_AList_update)
  qed
  show ?thesis
    using assms upd by (auto simp: add_relevance_def Let_def split: option.splits js_number.splits)
qed

lemma relevance_inj:
  assumes "relevance_ok minimum diversified m" "distinct (map ca_memory diversified)"
  shows "inj_on (\<lambda>e. ca_memory (fst (snd e))) (set m)"
proof (rule inj_onI)
  fix a b
  assume ab: "a \<in> set m" "b \<in> set m" "ca_memory (fst (snd a)) = ca_memory (fst (snd b))"
  from assms(1) ab have in_d: "fst (snd a) \<in> set diversified" "fst (snd b) \<in> set diversified"
    and key: "candidateIdentity (fst (snd a)) = fst a" "candidateIdentity (fst (snd b)) = fst b"
    by (auto simp: relevance_ok_def)
  have "fst (snd a) = fst (snd b)"
    using assms(2) in_d ab(3) by (simp add: distinct_map inj_on_def)
  with key have "fst a = fst b" by simp
  with assms(1) ab(1,2) show "a = b"
    by (auto simp: relevance_ok_def distinct_map inj_on_def)
qed

lemma relevant_props:
  assumes "distinct (map ca_memory diversified)"
  shows "distinct (map (ca_memory \<circ> fst) (relevant_candidates Q minimum diversified reranked))"
    "e \<in> set (relevant_candidates Q minimum diversified reranked) \<Longrightarrow> fst e \<in> set diversified \<and> minimum \<le> snd e"
    "sorted (map (\<lambda>e. - snd e) (relevant_candidates Q minimum diversified reranked))"
proof -
  let ?m = "fold (add_relevance minimum diversified) reranked []"
  have ok: "relevance_ok minimum diversified ?m"
    by (rule fold_invariant [where Q = "\<lambda>_. True"]) (simp_all add: add_relevance_ok relevance_ok_def [of _ _ "[]"])
  have "distinct (map (\<lambda>e. ca_memory (fst (snd e))) ?m)"
    using ok relevance_inj [OF ok assms] by (auto simp: distinct_map relevance_ok_def)
  then have "distinct (map (ca_memory \<circ> fst) (map snd ?m))" by (simp add: comp_def)
  moreover have "mset (map (ca_memory \<circ> fst) (relevant_candidates Q minimum diversified reranked)) =
      mset (map (ca_memory \<circ> fst) (map snd ?m))"
    by (simp only: relevant_candidates_def mset_map mset_sort)
  ultimately show "distinct (map (ca_memory \<circ> fst) (relevant_candidates Q minimum diversified reranked))"
    using mset_eq_imp_distinct_iff by blast
  show "e \<in> set (relevant_candidates Q minimum diversified reranked) \<Longrightarrow> fst e \<in> set diversified \<and> minimum \<le> snd e"
    using ok by (auto simp: relevant_candidates_def relevance_ok_def)
  have "sorted (map (relevance_key Q) (relevant_candidates Q minimum diversified reranked))"
    by (simp add: relevant_candidates_def)
  then show "sorted (map (\<lambda>e. - snd e) (relevant_candidates Q minimum diversified reranked))"
    unfolding sorted_map by (rule sorted_wrt_mono_rel [rotated]) (auto simp: relevance_key_def less_eq_prod_def)
qed

section \<open>What a search promises\<close>

lemma bind_res_InrE: "bind_res r f = Inr b \<Longrightarrow> (\<And>a. r = Inr a \<Longrightarrow> f a = Inr b \<Longrightarrow> P) \<Longrightarrow> P"
  by (cases r) auto

lemma abstain_simps [simp]: "sr_abstained (abstain i why)" "sr_memories (abstain i why) = []"
  "sr_pack (abstain i why) = []" "sr_reason (abstain i why) = Some why"
  by (simp_all add: abstain_def)

lemma unless_abstain:
  "(if b then Inr (abstain i why) else X) = Inr r \<Longrightarrow> sr_memories r \<noteq> [] \<Longrightarrow> (X = Inr r \<Longrightarrow> P) \<Longrightarrow> P"
  by (auto split: if_splits)

lemma search_limits:
  assumes "search S clock i = Inr r"
  obtains limit budget where "normalizeResultLimit (si_limit i) = Inr limit"
    "normalizeTokenBudget (si_tokens i) = Inr budget"
  using assms unfolding search_def Let_def by (elim bind_res_InrE)

text \<open>The filters a search plans.\<close>

definition search_filters :: "search_env \<Rightarrow> ustring \<Rightarrow> search_input \<Rightarrow> thrown + filter_plan" where
  "search_filters S clock i = planHardFilters (en_lib S) clock ((si_filters i)\<lparr>fi_generation := Some (si_generation i),
     fi_valid_at := (case si_now i of None \<Rightarrow> fi_valid_at (si_filters i) | Some t \<Rightarrow> Some t)\<rparr>)"

lemma search_found:
  assumes "search S clock i = Inr r" "sr_memories r \<noteq> []"
  obtains limit budget minimum p ri sets fused h auth k lambda diversified q reranked where
    "normalizeResultLimit (si_limit i) = Inr limit" "normalizeTokenBudget (si_tokens i) = Inr budget"
    "normalizeMinimumRelevance (se_num (en_lib S)) (si_relevance i) = Inr minimum"
    "search_filters S clock i = Inr p" "recall_all S ri = Inr sets" "ri_filters ri = p"
    "fuseReciprocalRanks (se_num (en_lib S)) sets (si_generation i) DEFAULT_RRF_CONSTANT = Inr fused"
    "en_validate S h = Inr auth" "hi_filters h = p" "hi_candidates h = fused"
    "hi_project h = fp_project p" "js_trim (si_principal i) = hi_principal h"
    "safe_int (si_snapshot i) = Some (hi_snapshot h)"
    "selectWithMmr (se_num (en_lib S)) (filter (\<lambda>c. ca_evidence c \<noteq> [])
       (deduplicateCandidates (se_num (en_lib S)) (current_candidates (en_lib S) p fused auth))) k lambda = Inr diversified"
    "en_rerank S q diversified = Inr reranked"
    "sr_memories r = fit_memories limit budget [] 0 (relevant_candidates (se_num (en_lib S)) minimum diversified reranked)"
    "\<not> sr_abstained r" "sr_reason r = None" "sr_pack r = buildContextPack (sr_memories r)"
proof -
  have pr: "js_trim v = n" if "requireIdentifier 512 v = Inr n" for v n
    using that by (auto simp: requireIdentifier_def Let_def split: if_splits)
  have sn: "safe_int n = Some v" if "requireSnapshotVersion n = Inr v" for n v
    using that by (auto simp: requireSnapshotVersion_def split: option.splits if_splits)
  show thesis
    using assms(1)
    unfolding search_def Let_def search_filters_def [symmetric]
    apply (elim bind_res_InrE unless_abstain [OF _ assms(2)])
    apply (drule pr, drule sn)
    by (rule that) (assumption | simp | auto)+
qed

lemma current_candidates_source:
  assumes "c \<in> set (current_candidates Q p fused cs)"
  obtains c0 f where "c0 \<in> set cs" "passesHardFilters Q p c0" "f \<in> set fused"
    "recallIdentity (fu_hit f) = candidateIdentity c0" "c = c0\<lparr>ca_score := fu_score f\<rparr>"
proof -
  from assms obtain c0 f where c0: "c0 \<in> set cs" "passesHardFilters Q p c0" "c = c0\<lparr>ca_score := fu_score f\<rparr>"
    and f: "map_of (rev (map (\<lambda>f. (recallIdentity (fu_hit f), f)) fused)) (candidateIdentity c0) = Some f"
    by (auto simp: current_candidates_def Let_def split: option.splits)
  from map_of_SomeD [OF f] c0 show thesis by (auto intro: that)
qed

lemma recall_task_source:
  assumes "recall_task ch w p b ri = Inr sets" "s \<in> set sets"
  shows "\<exists>recall. p = Some recall \<and> recall ri = Inr (rs_hits s)"
  using assms by (cases p) (auto simp: recall_task_def bind_res_Inr_iff split: if_splits)

lemma recall_all_source:
  assumes "recall_all S ri = Inr sets" "s \<in> set sets"
  shows "\<exists>recall. Some recall \<in> {en_exact S, en_lexical S, en_semantic S} \<and> recall ri = Inr (rs_hits s)"
proof -
  from assms obtain x ch w p b where "recall_task ch w p b ri = Inr x" "s \<in> set x"
    "p \<in> {en_exact S, en_lexical S, en_semantic S}"
    unfolding recall_all_def by (elim bind_res_InrE) auto
  with recall_task_source show ?thesis by metis
qed

lemma list_all2_sub_left: "list_all2 P xs ys \<Longrightarrow> x \<in> set xs \<Longrightarrow> \<exists>y\<in>set ys. P x y"
  by (induction rule: list_all2_induct) auto

lemma distinct_memories:
  assumes "mset cs \<subseteq># mset (filter P ds)" "distinct (map ca_memory ds)"
  shows "distinct (map ca_memory cs)"
proof -
  have "mset (map ca_memory cs) \<subseteq># mset (map ca_memory (filter P ds))"
    using image_mset_subseteq_mono [OF assms(1), of ca_memory] by simp
  then obtain C where "mset (map ca_memory (filter P ds)) = mset (map ca_memory cs) + C"
    by (auto simp: mset_subset_eq_exists_conv)
  moreover obtain zs where "C = mset zs" using ex_mset [of C] by blast
  ultimately have "mset (map ca_memory (filter P ds)) = mset (map ca_memory cs @ zs)" by simp
  from mset_eq_imp_distinct_iff [OF this] distinct_map_filter [OF assms(2)] show ?thesis by simp
qed

lemma limit_bounds:
  assumes "normalizeResultLimit v = Inr limit" "normalizeTokenBudget w = Inr budget"
  shows "1 \<le> limit" "limit \<le> MAX_RESULT_LIMIT" "1 \<le> budget" "budget \<le> MAX_CONTEXT_TOKENS"
  using assms
  by (auto simp: normalizeResultLimit_def normalizeTokenBudget_def positive_limit_def DEFAULT_RESULT_LIMIT_def
    DEFAULT_CONTEXT_TOKENS_def MAX_RESULT_LIMIT_def MAX_CONTEXT_TOKENS_def split: option.splits if_splits)

lemma shown_parts:
  assumes "list_all2 shows_candidate ms es"
  shows "map ca_memory ms = map (ca_memory \<circ> fst) es" "map (\<lambda>m. - rm_relevance m) ms = map (\<lambda>e. - snd e) es"
proof -
  have part: "ca_memory m = ca_memory (fst e)" if "shows_candidate m e" for m e
    using arg_cong [of "public_candidate.truncate m" "public_candidate.truncate (fst e)" ca_memory] that
    by (simp add: shows_candidate_def public_candidate.defs)
  show "map ca_memory ms = map (ca_memory \<circ> fst) es" "map (\<lambda>m. - rm_relevance m) ms = map (\<lambda>e. - snd e) es"
    using assms by (induction rule: list_all2_induct) (auto simp: part, simp add: shows_candidate_def)
qed

text \<open>The memories of a result, from the relevant candidates they show.\<close>

lemma result_memories:
  assumes "search S clock i = Inr r" "sr_memories r \<noteq> []"
  obtains limit budget minimum p ri sets fused h auth sub where
    "normalizeResultLimit (si_limit i) = Inr limit" "normalizeTokenBudget (si_tokens i) = Inr budget"
    "normalizeMinimumRelevance (se_num (en_lib S)) (si_relevance i) = Inr minimum"
    "search_filters S clock i = Inr p" "recall_all S ri = Inr sets" "ri_filters ri = p"
    "fuseReciprocalRanks (se_num (en_lib S)) sets (si_generation i) DEFAULT_RRF_CONSTANT = Inr fused"
    "en_validate S h = Inr auth" "hi_filters h = p" "hi_candidates h = fused" "hi_project h = fp_project p"
    "js_trim (si_principal i) = hi_principal h" "safe_int (si_snapshot i) = Some (hi_snapshot h)"
    "list_all2 shows_candidate (sr_memories r) sub" "distinct (map (ca_memory \<circ> fst) sub)"
    "sorted (map (\<lambda>e. - snd e) sub)"
    "\<And>e. e \<in> set sub \<Longrightarrow> minimum \<le> snd e \<and> ca_evidence (fst e) \<noteq> [] \<and>
       fst e \<in> set (current_candidates (en_lib S) p fused auth)"
    "int (length (sr_memories r)) \<le> limit" "int (estimateTokens (buildContextPack (sr_memories r))) \<le> budget"
proof (rule search_found [OF assms])
  fix limit budget minimum p ri sets fused h auth k lambda diversified q reranked
  let ?N = "se_num (en_lib S)"
  assume limit: "normalizeResultLimit (si_limit i) = Inr limit" and budget: "normalizeTokenBudget (si_tokens i) = Inr budget"
    and rest: "normalizeMinimumRelevance ?N (si_relevance i) = Inr minimum" "search_filters S clock i = Inr p"
      "recall_all S ri = Inr sets" "ri_filters ri = p"
      "fuseReciprocalRanks ?N sets (si_generation i) DEFAULT_RRF_CONSTANT = Inr fused"
      "en_validate S h = Inr auth" "hi_filters h = p" "hi_candidates h = fused" "hi_project h = fp_project p"
      "js_trim (si_principal i) = hi_principal h" "safe_int (si_snapshot i) = Some (hi_snapshot h)"
    and div: "selectWithMmr ?N (filter (\<lambda>c. ca_evidence c \<noteq> [])
       (deduplicateCandidates ?N (current_candidates (en_lib S) p fused auth))) k lambda = Inr diversified"
    and ms: "sr_memories r = fit_memories limit budget [] 0 (relevant_candidates ?N minimum diversified reranked)"
  let ?rel = "relevant_candidates ?N minimum diversified reranked"
  let ?ev = "filter (\<lambda>c. ca_evidence c \<noteq> []) (deduplicateCandidates ?N (current_candidates (en_lib S) p fused auth))"
  have pos: "0 \<le> limit" "0 \<le> budget"
    using limit budget
    by (auto simp: normalizeResultLimit_def normalizeTokenBudget_def positive_limit_def DEFAULT_RESULT_LIMIT_def
      DEFAULT_CONTEXT_TOKENS_def MAX_RESULT_LIMIT_def MAX_CONTEXT_TOKENS_def split: option.splits if_splits)
  from fit_memories_props [of "[]" limit 0 budget ?rel] pos obtain sub where
    sub: "int (length (sr_memories r)) \<le> limit" "subseq sub ?rel" "list_all2 shows_candidate (sr_memories r) sub"
      "int (estimateTokens (buildContextPack (sr_memories r))) \<le> budget"
    using assms(2) unfolding ms by auto
  have dis: "distinct (map ca_memory diversified)"
    using selected_props(1) [OF div] deduplicated(1) distinct_memories by blast
  obtain I where I: "sub = nths ?rel I" using sub(2) by (auto simp: subseq_conv_nths)
  show thesis
  proof (rule that [OF limit budget rest sub(3) _ _ _ sub(1,4)])
    show "distinct (map (ca_memory \<circ> fst) sub)"
      unfolding I nths_map [symmetric] by (rule distinct_nthsI) (rule relevant_props(1) [OF dis])
    show "sorted (map (\<lambda>e. - snd e) sub)"
      unfolding I nths_map [symmetric] by (rule sorted_nths) (rule relevant_props(3) [OF dis])
    fix e
    assume "e \<in> set sub"
    then have "e \<in> set ?rel" unfolding I by (rule in_set_nthsD)
    then have e: "fst e \<in> set diversified" "minimum \<le> snd e" using relevant_props(2) [OF dis] by auto
    have "set diversified \<subseteq> set ?ev" using selected_props(1) [OF div] by (metis set_mset_mono set_mset_mset)
    with e deduplicated(2) show "minimum \<le> snd e \<and> ca_evidence (fst e) \<noteq> [] \<and>
       fst e \<in> set (current_candidates (en_lib S) p fused auth)" by auto
  qed
qed

lemma search_grounded:
  assumes "search S clock i = Inr r" "m \<in> set (sr_memories r)"
  shows "\<exists>p ri recall hits h auth c f.
    search_filters S clock i = Inr p \<and>
    Some recall \<in> {en_exact S, en_lexical S, en_semantic S} \<and> ri_filters ri = p \<and> recall ri = Inr hits \<and>
    fu_hit f \<in> set hits \<and> rh_generation (fu_hit f) = si_generation i \<and>
    en_validate S h = Inr auth \<and> hi_filters h = p \<and> hi_project h = fp_project p \<and>
    hi_principal h = js_trim (si_principal i) \<and> safe_int (si_snapshot i) = Some (hi_snapshot h) \<and> f \<in> set (hi_candidates h) \<and>
    c \<in> set auth \<and> passesHardFilters (en_lib S) p c \<and> recallIdentity (fu_hit f) = candidateIdentity c \<and>
    ca_evidence c \<noteq> [] \<and> shows_candidate m (c\<lparr>ca_score := fu_score f\<rparr>, rm_relevance m) \<and>
    (\<exists>minimum. normalizeMinimumRelevance (se_num (en_lib S)) (si_relevance i) = Inr minimum \<and> minimum \<le> rm_relevance m)"
proof -
  have "sr_memories r \<noteq> []" using assms(2) by auto
  from assms(1) this show ?thesis
  proof (rule result_memories)
    fix limit budget minimum p ri sets fused h auth sub
    assume facts: "normalizeMinimumRelevance (se_num (en_lib S)) (si_relevance i) = Inr minimum"
        "search_filters S clock i = Inr p" "recall_all S ri = Inr sets" "ri_filters ri = p"
        "fuseReciprocalRanks (se_num (en_lib S)) sets (si_generation i) DEFAULT_RRF_CONSTANT = Inr fused"
        "en_validate S h = Inr auth" "hi_filters h = p" "hi_candidates h = fused" "hi_project h = fp_project p"
        "js_trim (si_principal i) = hi_principal h" "safe_int (si_snapshot i) = Some (hi_snapshot h)"
      and sub: "list_all2 shows_candidate (sr_memories r) sub"
        "\<And>e. e \<in> set sub \<Longrightarrow> minimum \<le> snd e \<and> ca_evidence (fst e) \<noteq> [] \<and>
           fst e \<in> set (current_candidates (en_lib S) p fused auth)"
    from list_all2_sub_left [OF sub(1) assms(2)] obtain e where e: "e \<in> set sub" "shows_candidate m e" by blast
    from sub(2) [OF e(1)] obtain c f where c: "c \<in> set auth" "passesHardFilters (en_lib S) p c" "f \<in> set fused"
      "recallIdentity (fu_hit f) = candidateIdentity c" "fst e = c\<lparr>ca_score := fu_score f\<rparr>"
      by (auto elim: current_candidates_source)
    have rel: "rm_relevance m = snd e" using e(2) by (simp add: shows_candidate_def)
    with e(2) c(5) have shown: "shows_candidate m (c\<lparr>ca_score := fu_score f\<rparr>, rm_relevance m)" by (cases e) simp
    have "ca_evidence c \<noteq> []" "minimum \<le> rm_relevance m" using sub(2) [OF e(1)] c(5) rel by auto
    moreover from fused_hits_recalled [OF facts(5) c(3)] obtain s where
      s: "rh_generation (fu_hit f) = si_generation i" "s \<in> set sets" "fu_hit f \<in> set (rs_hits s)" by blast
    moreover from recall_all_source [OF facts(3) s(2)] obtain recall where
      "Some recall \<in> {en_exact S, en_lexical S, en_semantic S}" "recall ri = Inr (rs_hits s)" by blast
    ultimately show ?thesis
      using facts c shown
      by (intro exI [of _ p] exI [of _ ri] exI [of _ recall] exI [of _ "rs_hits s"] exI [of _ h] exI [of _ auth]
        exI [of _ c] exI [of _ f] conjI exI [of _ minimum]) simp_all
  qed
qed

text \<open>C35: Every memory a search returns is grounded: some recall provider found it in the index generation
  of the request under the planned filters; the validator of current heads, asked for the caller's
  principal, project and snapshot, vouches for it; it passes the hard filters, carries evidence and
  reaches the minimum relevance; and its excerpt is a nonempty piece from the start of the
  authoritative chunk, marked when it was shortened. Nothing of it is taken from a recall hit or
  from the reranker.\<close>

theorem search_results_are_grounded:
  assumes "search S clock i = Inr r" "m \<in> set (sr_memories r)"
  shows "\<exists>p ri recall hits h auth c f.
    search_filters S clock i = Inr p \<and>
    Some recall \<in> {en_exact S, en_lexical S, en_semantic S} \<and> ri_filters ri = p \<and> recall ri = Inr hits \<and>
    fu_hit f \<in> set hits \<and> rh_generation (fu_hit f) = si_generation i \<and>
    en_validate S h = Inr auth \<and> hi_filters h = p \<and> hi_project h = fp_project p \<and>
    hi_principal h = js_trim (si_principal i) \<and> safe_int (si_snapshot i) = Some (hi_snapshot h) \<and> f \<in> set (hi_candidates h) \<and>
    c \<in> set auth \<and> passesHardFilters (en_lib S) p c \<and> recallIdentity (fu_hit f) = candidateIdentity c \<and>
    ca_evidence c \<noteq> [] \<and> shows_candidate m (c\<lparr>ca_score := fu_score f\<rparr>, rm_relevance m) \<and>
    (\<exists>minimum. normalizeMinimumRelevance (se_num (en_lib S)) (si_relevance i) = Inr minimum \<and> minimum \<le> rm_relevance m)"
  using assms by (rule search_grounded)

text \<open>Whatever the providers and models answer, a result stays within its limits: at most the caller's
  number of memories and never more than ten, each memory once, the most relevant first, and a
  context pack, made of exactly these memories, whose token estimate is within the caller's budget
  and never above 8000. A search without memories, and only such a search, abstains and says why.\<close>

theorem search_results_within_limits:
  assumes "search S clock i = Inr r"
  shows "(\<exists>limit budget. normalizeResultLimit (si_limit i) = Inr limit \<and> limit \<le> MAX_RESULT_LIMIT \<and>
      normalizeTokenBudget (si_tokens i) = Inr budget \<and> budget \<le> MAX_CONTEXT_TOKENS \<and>
      int (length (sr_memories r)) \<le> limit \<and> int (estimateTokens (sr_pack r)) \<le> budget) \<and>
    distinct (map ca_memory (sr_memories r)) \<and> sorted (map (\<lambda>m. - rm_relevance m) (sr_memories r)) \<and>
    sr_pack r = buildContextPack (sr_memories r) \<and>
    (sr_abstained r \<longleftrightarrow> sr_memories r = []) \<and> (sr_abstained r \<longleftrightarrow> sr_reason r \<noteq> None)"
proof (cases "sr_memories r = []")
  case True
  have "sr_abstained r \<and> sr_reason r \<noteq> None \<and> sr_pack r = []"
    using assms True unfolding search_def Let_def
    by (elim bind_res_InrE) (auto split: if_splits elim!: bind_res_InrE)
  moreover obtain limit budget where lb: "normalizeResultLimit (si_limit i) = Inr limit"
    "normalizeTokenBudget (si_tokens i) = Inr budget" by (rule search_limits [OF assms])
  ultimately show ?thesis
    using True limit_bounds [OF lb] by (auto simp: buildContextPack_def estimateTokens_def)
next
  case False
  have r: "\<not> sr_abstained r \<and> sr_reason r = None \<and> sr_pack r = buildContextPack (sr_memories r)"
    by (rule search_found [OF assms False]) simp
  from assms False show ?thesis
  proof (rule result_memories)
    fix limit budget sub
    assume lb: "normalizeResultLimit (si_limit i) = Inr limit" "normalizeTokenBudget (si_tokens i) = Inr budget"
      and sub: "list_all2 shows_candidate (sr_memories r) sub" "distinct (map (ca_memory \<circ> fst) sub)"
        "sorted (map (\<lambda>e. - snd e) sub)"
      and len: "int (length (sr_memories r)) \<le> limit" "int (estimateTokens (buildContextPack (sr_memories r))) \<le> budget"
    from shown_parts [OF sub(1)] sub(2,3) len r False limit_bounds [OF lb] lb show ?thesis by simp
  qed
qed

section \<open>A concrete search\<close>

definition demo_hit :: recall_hit where
  "demo_hit = \<lparr>rh_project = str ''p1'', rh_memory = str ''m1'', rh_revision = str ''v1'', rh_chunk = str ''chunk-0'',
     rh_generation = str ''g1'', rh_source = None, rh_channel = None\<rparr>"

definition demo_found :: candidate where
  "demo_found = \<lparr>ca_project = str ''p1'', ca_memory = str ''m1'', ca_revision = str ''v1'', ca_version = 1,
     ca_chunk = str ''chunk-0'', ca_sha = str ''s'', ca_kind = Fact, ca_class = Semantic, ca_scope = ScopeRepository,
     ca_scope_id = str ''r1'', ca_status = Active, ca_from = None, ca_until = None, ca_evidence = [str ''e1''],
     ca_score = 0, ca_generation = str ''g1'', ca_content = str ''use tabs'', ca_embedding = None\<rparr>"

definition demo_env :: search_env where
  "demo_env = \<lparr>en_lib = demo_search_lib, en_matches = (\<lambda>p q. []), en_exact = None,
     en_lexical = Some (\<lambda>i. Inr [demo_hit]), en_semantic = None, en_validate = (\<lambda>h. Inr [demo_found]),
     en_rerank = (\<lambda>q cs. Inr (map (\<lambda>c. (c, Finite 1)) cs))\<rparr>"

definition demo_search_input :: search_input where
  "demo_search_input = \<lparr>si_filters = demo_filter_input, si_principal = str ''u1'', si_snapshot = Finite 3,
     si_query = str '' tabs '', si_generation = str ''g1'', si_limit = Some (Finite 1), si_relevance = None,
     si_tokens = None, si_now = Some (str ''2026-01-01T00:00:00.000Z'')\<rparr>"

definition demo_shown :: result_memory where
  "demo_shown = withoutEmbedding (demo_found\<lparr>ca_score := 1 / 61\<rparr>) (str ''use tabs'') False 1"

definition demo_result :: search_result where
  "demo_result = \<lparr>sr_snapshot = Finite 3, sr_generation = str ''g1'', sr_abstained = False, sr_reason = None,
     sr_memories = [demo_shown], sr_pack = buildContextPack [demo_shown]\<rparr>"

lemma demo_search: "search demo_env [] demo_search_input = Inr demo_result"
  by code_simp

lemma demo_shown_in: "demo_shown \<in> set (sr_memories demo_result)"
  by (simp add: demo_result_def)

theorem search_results_are_grounded_witness:
  "\<exists>h auth c. en_validate demo_env h = Inr auth \<and> c \<in> set auth \<and> ca_evidence c \<noteq> [] \<and>
     prefix (rm_excerpt demo_shown) (ca_content c)"
proof -
  note found = search_results_are_grounded [OF demo_search demo_shown_in]
  have "\<exists>h auth c (f :: fused_hit). en_validate demo_env h = Inr auth \<and> c \<in> set auth \<and> ca_evidence c \<noteq> [] \<and>
      shows_candidate demo_shown (c\<lparr>ca_score := fu_score f\<rparr>, rm_relevance demo_shown)"
    using found by blast
  then show ?thesis by (auto simp: shows_candidate_def)
qed

theorem search_results_within_limits_witness:
  "length (sr_memories demo_result) \<le> 10 \<and> \<not> sr_abstained demo_result \<and>
     int (estimateTokens (sr_pack demo_result)) \<le> 8000"
  using search_results_within_limits [OF demo_search]
  by (auto simp: MAX_RESULT_LIMIT_def MAX_CONTEXT_TOKENS_def demo_result_def)

end
