(* ===== verification/Current_Head.thy ===== *)
theory Current_Head
  imports Search_Pipeline Access_Control
begin

text \<open>
  The validator of current heads (\<open>src/search/current-head.ts\<close>): the queries that read, under
  the caller's authority and the hard filters, the current revision of every recalled memory,
  and the checks on their rows. All queries of a search run in one D1 batch and so see one
  database. \<open>hd_julian\<close> is SQLite's \<open>julianday\<close>. The kind, class, scope and status of a row are
  values of their enumerations by the type of the tables.
\<close>

record head_lib =
  hd_search :: search_lib
  hd_julian :: "ustring \<Rightarrow> rat option"

definition head_error :: "string \<Rightarrow> thrown" where
  "head_error m = Other (str m)"

section \<open>Bindings\<close>

definition D1_MAX_BINDINGS_PER_QUERY :: int where "D1_MAX_BINDINGS_PER_QUERY = 100"
definition CURRENT_HEAD_AUTHORITY_BINDINGS :: int where "CURRENT_HEAD_AUTHORITY_BINDINGS = 3"
definition CURRENT_HEAD_PAIR_BINDINGS :: int where "CURRENT_HEAD_PAIR_BINDINGS = 2"

text \<open>The number of values a condition binds; a packed list (\<open>compactLists\<close>) is bound as one JSON text.\<close>

definition appendInFilter :: "bool \<Rightarrow> 'a list option \<Rightarrow> thrown + nat" where
  "appendInFilter packed values =
     (case values of
        None \<Rightarrow> Inr 0
      | Some vs \<Rightarrow> if vs = [] then Inl (head_error ''requires at least one filter value.'')
          else Inr (if packed then 1 else length vs))"

definition authoritativeFilters :: "bool \<Rightarrow> filter_plan \<Rightarrow> thrown + nat" where
  "authoritativeFilters packed p =
     bind_res (appendInFilter packed (Some (fp_statuses p))) (\<lambda>a.
     bind_res (appendInFilter packed (fp_kinds p)) (\<lambda>b.
     bind_res (appendInFilter packed (fp_classes p)) (\<lambda>c.
     bind_res (case fp_scope p of None \<Rightarrow> Inr 0
       | Some (s, ids) \<Rightarrow> bind_res (appendInFilter packed (Some ids)) (\<lambda>n. Inr (1 + n))) (\<lambda>d.
     Inr (a + b + c + d + 2)))))"

definition authoritativeRepositoryCeiling :: "bool \<Rightarrow> filter_plan \<Rightarrow> nat" where
  "authoritativeRepositoryCeiling packed p =
     (case fp_repositories p of
        None \<Rightarrow> 0
      | Some rs \<Rightarrow> if rs = [] then 0 else if packed then 1 else length rs)"

definition availablePairBindings :: "nat \<Rightarrow> nat \<Rightarrow> int" where
  "availablePairBindings hard repos =
     D1_MAX_BINDINGS_PER_QUERY - CURRENT_HEAD_AUTHORITY_BINDINGS - int hard - int repos"

text \<open>The form of the lists and the number of pairs of one query.\<close>

definition pairs_per_batch :: "filter_plan \<Rightarrow> thrown + bool \<times> nat" where
  "pairs_per_batch p =
     bind_res (authoritativeFilters False p) (\<lambda>plain.
     bind_res (if availablePairBindings plain (authoritativeRepositoryCeiling False p) < CURRENT_HEAD_PAIR_BINDINGS
         then bind_res (authoritativeFilters True p)
           (\<lambda>n. Inr (True, availablePairBindings n (authoritativeRepositoryCeiling True p)))
         else Inr (False, availablePairBindings plain (authoritativeRepositoryCeiling False p))) (\<lambda>(packed, available).
       let n = available div CURRENT_HEAD_PAIR_BINDINGS
       in if n < 1 then Inl (head_error ''The current-head filters exceed D1's binding limit.'')
          else Inr (packed, nat n)))"

fun chunkPairs :: "nat \<Rightarrow> 'a list \<Rightarrow> 'a list list" where
  "chunkPairs sz [] = []"
| "chunkPairs sz (x # xs) = (x # take (sz - 1) xs) # chunkPairs sz (drop (sz - 1) xs)"

section \<open>The queries\<close>

record head_row =
  hr_memory :: memory
  hr_revision :: revision
  hr_evidence :: "ustring option"

text \<open>The caller's active grants of the project at the snapshot's version.\<close>

definition head_grants :: "acl \<Rightarrow> head_input \<Rightarrow> grant list" where
  "head_grants a h =
     filter (\<lambda>g. g_project g = hi_project h \<and> g_principal g = hi_principal h \<and> g_revoked_at g = None \<and>
         list_ex (\<lambda>n. n_id n = g_principal g \<and> n_revoked_at n = None) (ac_principals a) \<and>
         list_ex (\<lambda>p. p_id p = hi_project h \<and> p_version p = hi_snapshot h) (t_projects (ac_db a)))
       (t_grants (ac_db a))"

definition repository_ceiling :: "acl \<Rightarrow> filter_plan \<Rightarrow> memory \<Rightarrow> bool" where
  "repository_ceiling a p m =
     (case fp_repositories p of
        None \<Rightarrow> True
      | Some rs \<Rightarrow> (m_scope m = ScopeProject \<and> m_scope_id m = m_project m) \<or>
          list_ex (\<lambda>x. x_project x = m_project m \<and> x_memory x = m_id m \<and> x_repository x \<in> set rs) (t_contexts (ac_db a)))"

definition julian_rel :: "head_lib \<Rightarrow> (rat \<Rightarrow> rat \<Rightarrow> bool) \<Rightarrow> ustring \<Rightarrow> ustring \<Rightarrow> bool" where
  "julian_rel L rel x y = (case (hd_julian L x, hd_julian L y) of (Some u, Some v) \<Rightarrow> rel u v | _ \<Rightarrow> False)"

definition filter_condition :: "head_lib \<Rightarrow> filter_plan \<Rightarrow> memory \<Rightarrow> revision \<Rightarrow> bool" where
  "filter_condition L p m v \<longleftrightarrow>
     m_status m \<in> set (fp_statuses p) \<and> opt_all (\<lambda>ks. m_kind m \<in> set ks) (fp_kinds p) \<and>
     opt_all (\<lambda>ks. m_class m \<in> set ks) (fp_classes p) \<and>
     opt_all (\<lambda>(s, ids). m_scope m = s \<and> m_scope_id m \<in> set ids) (fp_scope p) \<and>
     opt_all (\<lambda>t. julian_rel L (\<le>) t (fp_valid_at p)) (v_from v) \<and>
     opt_all (\<lambda>t. julian_rel L (>) t (fp_valid_at p)) (v_until v)"

definition selected_head :: "head_lib \<Rightarrow> acl \<Rightarrow> head_input \<Rightarrow> memory \<Rightarrow> revision \<Rightarrow> bool" where
  "selected_head L a h m v \<longleftrightarrow> m_project m = hi_project h \<and> v_project v = m_project m \<and> v_memory v = m_id m \<and>
     m_revision m = Some (v_id v) \<and> list_ex (\<lambda>g. hierarchicalMemoryAccessPredicate a g m) (head_grants a h) \<and>
     repository_ceiling a (hi_filters h) m \<and> filter_condition L (hi_filters h) m v"

definition clear_evidence :: "acl \<Rightarrow> revision \<Rightarrow> ustring list" where
  "clear_evidence a v =
     concat (map (\<lambda>l. if l_project l = v_project v \<and> l_revision l = v_id v
         then map e_id (filter (\<lambda>e. e_project e = l_project l \<and> e_id e = l_evidence l \<and> e_sensitivity e = Clear)
           (t_evidence (ac_db a))) else []) (t_links (ac_db a)))"

text \<open>\<open>group_concat\<close> over the joined rows: the evidence once for every grant that qualifies.\<close>

definition evidence_text :: "acl \<Rightarrow> head_input \<Rightarrow> memory \<Rightarrow> revision \<Rightarrow> ustring option" where
  "evidence_text a h m v =
     (let ids = concat (map (\<lambda>g. if hierarchicalMemoryAccessPredicate a g m then clear_evidence a v else []) (head_grants a h))
      in if ids = [] then None else Some (join_text [44] ids))"

definition head_query :: "head_lib \<Rightarrow> acl \<Rightarrow> head_input \<Rightarrow> (ustring \<times> ustring) list \<Rightarrow> head_row list" where
  "head_query L a h pairs =
     sort_key (\<lambda>r. (m_id (hr_memory r), v_id (hr_revision r)))
       (concat (map (\<lambda>m. concat (map (\<lambda>v. if selected_head L a h m v \<and> (m_id m, v_id v) \<in> set pairs
           then [\<lparr>hr_memory = m, hr_revision = v, hr_evidence = evidence_text a h m v\<rparr>] else [])
         (t_revisions (ac_db a)))) (t_memories (ac_db a))))"

definition snapshot_query :: "acl \<Rightarrow> head_input \<Rightarrow> int list" where
  "snapshot_query a h = take 1 (map (\<lambda>g. hi_snapshot h) (head_grants a h))"

definition confirmsAuthorizedSnapshot :: "int list \<Rightarrow> int \<Rightarrow> bool" where
  "confirmsAuthorizedSnapshot rows expected \<longleftrightarrow> rows = [expected]"

section \<open>Checks\<close>

definition pairKey :: "ustring \<Rightarrow> ustring \<Rightarrow> ustring" where
  "pairKey m r = m @ 0 # r"

definition row_key :: "head_row \<Rightarrow> ustring" where
  "row_key r = pairKey (m_id (hr_memory r)) (v_id (hr_revision r))"

definition deduplicateAndSortCurrentHeadRows :: "head_row list \<Rightarrow> bool \<Rightarrow> thrown + head_row list" where
  "deduplicateAndSortCurrentHeadRows rows globally =
     (if \<not> distinct (map row_key rows) then Inl (head_error ''A current-head pair was returned more than once.'')
      else Inr (if globally then sort_key (\<lambda>r. (utf16 (m_id (hr_memory r)), utf16 (v_id (hr_revision r)))) rows else rows))"

definition require_stored_identifier :: "ustring \<Rightarrow> thrown + ustring" where
  "require_stored_identifier v =
     (if js_trim v = [] \<or> 65536 < js_length v then Inl (head_error ''must be a non-empty string.'') else Inr v)"

definition requireFormalMemoryContent :: "ustring \<Rightarrow> thrown + ustring" where
  "requireFormalMemoryContent v =
     (if v = [] \<or> 0 \<in> set v then Inl (head_error ''The memory content must be a non-empty string without null bytes.'')
      else if 16384 < text_bytes_length v
      then Inl (head_error ''The memory content exceeds the 16 KiB formal-memory limit.'') else Inr v)"

definition validateAuthorityInput :: "head_input \<Rightarrow> thrown + unit" where
  "validateAuthorityInput h =
     bind_res (require_stored_identifier (hi_project h)) (\<lambda>_.
     bind_res (require_stored_identifier (hi_principal h)) (\<lambda>_.
     bind_res (require (is_safe_integer (hi_snapshot h) \<and> 0 \<le> hi_snapshot h)
       (head_error ''The snapshot version must be a nonnegative safe integer.'')) (\<lambda>_.
     bind_res (require (fp_project (hi_filters h) = hi_project h)
       (head_error ''The authority filter crossed its project boundary.'')) (\<lambda>_.
     check_all (\<lambda>f.
       bind_res (require (rh_project (fu_hit f) = hi_project h \<and> rh_generation (fu_hit f) = fp_generation (hi_filters h))
         (head_error ''A recall candidate crossed its project or generation boundary.'')) (\<lambda>_.
       bind_res (require_stored_identifier (rh_memory (fu_hit f))) (\<lambda>_.
       bind_res (require_stored_identifier (rh_revision (fu_hit f))) (\<lambda>_.
       bind_res (require_stored_identifier (rh_chunk (fu_hit f))) (\<lambda>_. Inr ()))))) (hi_candidates h)))))"

definition hit_key :: "fused_hit \<Rightarrow> ustring" where
  "hit_key f = pairKey (rh_memory (fu_hit f)) (rh_revision (fu_hit f))"

definition chunk_key :: "fused_hit \<Rightarrow> ustring" where
  "chunk_key f = hit_key f @ 0 # rh_chunk (fu_hit f)"

text \<open>Maps in insertion order.\<close>

definition add_candidate :: "fused_hit \<Rightarrow> (ustring \<times> fused_hit) list \<Rightarrow> (ustring \<times> fused_hit) list" where
  "add_candidate f m = (if opt_all (\<lambda>e. fu_score e < fu_score f) (map_of m (chunk_key f))
     then AList.update (chunk_key f) f m else m)"

definition uniqueCandidates :: "fused_hit list \<Rightarrow> fused_hit list" where
  "uniqueCandidates fs = map snd (fold add_candidate fs [])"

definition uniquePairs :: "fused_hit list \<Rightarrow> (ustring \<times> ustring) list" where
  "uniquePairs fs = map snd (fold (\<lambda>f. AList.update (hit_key f) (rh_memory (fu_hit f), rh_revision (fu_hit f))) fs [])"

definition isNullableTimestamp :: "search_lib \<Rightarrow> ustring option \<Rightarrow> bool" where
  "isNullableTimestamp Q v = opt_all (isTimestamp Q) v"

definition evidence_ids :: "ustring option \<Rightarrow> ustring list" where
  "evidence_ids t = js_sort (js_unique (filter (\<lambda>s. s \<noteq> [])
     (map js_trim (split_on 44 (case t of None \<Rightarrow> [] | Some s \<Rightarrow> s)))))"

text \<open>The checks of one row; the authoritative content is the result.\<close>

definition validateCurrentHeadRow :: "head_lib \<Rightarrow> head_row \<Rightarrow> thrown + ustring" where
  "validateCurrentHeadRow L r =
     bind_res (require (is_safe_integer (m_version (hr_memory r)) \<and> 1 \<le> m_version (hr_memory r))
       (head_error ''A current-head row contained an invalid memory version.'')) (\<lambda>_.
     bind_res (require (isNullableTimestamp (hd_search L) (v_from (hr_revision r)) \<and>
         isNullableTimestamp (hd_search L) (v_until (hr_revision r)))
       (head_error ''A current-head row contained an invalid validity timestamp.'')) (\<lambda>_.
     bind_res (requireFormalMemoryContent (v_content (hr_revision r))) (\<lambda>content.
     bind_res (require_stored_identifier (v_sha256 (hr_revision r))) (\<lambda>_.
     bind_res (require_stored_identifier (m_scope_id (hr_memory r))) (\<lambda>_. Inr content)))))"

definition head_candidate :: "head_input \<Rightarrow> head_row \<Rightarrow> fused_hit \<Rightarrow> ustring \<Rightarrow> candidate" where
  "head_candidate h r f chunk = (let m = hr_memory r; v = hr_revision r in
     \<lparr>ca_project = hi_project h, ca_memory = m_id m, ca_revision = v_id v, ca_version = m_version m,
      ca_chunk = rh_chunk (fu_hit f), ca_sha = v_sha256 v, ca_kind = m_kind m, ca_class = m_class m,
      ca_scope = m_scope m, ca_scope_id = m_scope_id m, ca_status = m_status m, ca_from = v_from v,
      ca_until = v_until v, ca_evidence = evidence_ids (hr_evidence r), ca_score = fu_score f,
      ca_generation = fp_generation (hi_filters h), ca_content = chunk, ca_embedding = None\<rparr>)"

definition row_candidates :: "head_lib \<Rightarrow> head_input \<Rightarrow> fused_hit list \<Rightarrow> head_row \<Rightarrow> thrown + candidate list" where
  "row_candidates L h fs r =
     bind_res (require (m_project (hr_memory r) = hi_project h)
       (head_error ''A current-head row crossed its project boundary.'')) (\<lambda>_.
     bind_res (require_stored_identifier (m_id (hr_memory r))) (\<lambda>_.
     bind_res (require_stored_identifier (v_id (hr_revision r))) (\<lambda>_.
       let matching = filter (\<lambda>f. hit_key f = row_key r) fs
       in bind_res (require (matching \<noteq> []) (head_error ''A current-head row did not match a recalled revision.'')) (\<lambda>_.
          bind_res (validateCurrentHeadRow L r) (\<lambda>content.
          map_res (\<lambda>f. bind_res (selectAuthoritativeMemoryChunk content (rh_chunk (fu_hit f)))
            (\<lambda>chunk. Inr (head_candidate h r f chunk))) matching)))))"

definition validateCurrentHeads :: "head_lib \<Rightarrow> head_row list \<Rightarrow> fused_hit list \<Rightarrow> head_input \<Rightarrow> thrown + candidate list" where
  "validateCurrentHeads L rows fs h = bind_res (map_res (row_candidates L h fs) rows) (\<lambda>cs. Inr (concat cs))"

text \<open>\<open>D1CurrentHeadValidator.validate\<close>.\<close>

definition validate_heads :: "head_lib \<Rightarrow> acl \<Rightarrow> head_input \<Rightarrow> thrown + candidate list" where
  "validate_heads L a h =
     bind_res (validateAuthorityInput h) (\<lambda>_.
     if hi_candidates h = [] then Inr []
     else let candidates = uniqueCandidates (hi_candidates h); pairs = uniquePairs candidates
     in bind_res (pairs_per_batch (hi_filters h)) (\<lambda>(packed, n).
        let results = map (head_query L a h) (chunkPairs n pairs)
        in if \<not> confirmsAuthorizedSnapshot (snapshot_query a h) (hi_snapshot h) then Inr []
           else bind_res (deduplicateAndSortCurrentHeadRows (concat results) (1 < length results)) (\<lambda>rows.
             validateCurrentHeads L rows candidates h)))"

section \<open>The reads\<close>

lemma concat_chunkPairs: "concat (chunkPairs n xs) = xs"
  by (induction n xs rule: chunkPairs.induct) simp_all

lemma chunkPairs_length: "1 \<le> n \<Longrightarrow> c \<in> set (chunkPairs n xs) \<Longrightarrow> length c \<le> n"
  by (induction n xs rule: chunkPairs.induct) auto

lemma set_head_query: "r \<in> set (head_query L a h pairs) \<longleftrightarrow>
    (\<exists>m\<in>set (t_memories (ac_db a)). \<exists>v\<in>set (t_revisions (ac_db a)). selected_head L a h m v \<and>
       (m_id m, v_id v) \<in> set pairs \<and> r = \<lparr>hr_memory = m, hr_revision = v, hr_evidence = evidence_text a h m v\<rparr>)"
  by (auto simp: head_query_def)

lemma set_batched_queries: "set (concat (map (head_query L a h) (chunkPairs n pairs))) = set (head_query L a h pairs)"
proof -
  have "set (concat (map (head_query L a h) chunks)) = set (head_query L a h (concat chunks))" for chunks
    unfolding set_eq_iff set_concat set_map UN_iff bex_simps set_head_query by blast
  from this [of "chunkPairs n pairs"] show ?thesis by (simp only: concat_chunkPairs)
qed

text \<open>The batches never run out of bindings, for the plans \<open>planHardFilters\<close> makes.\<close>

lemma availablePairBindings_eq: "availablePairBindings x y = 97 - int x - int y"
  by (simp add: availablePairBindings_def D1_MAX_BINDINGS_PER_QUERY_def CURRENT_HEAD_AUTHORITY_BINDINGS_def)

lemma pairs_per_batch_fits:
  assumes "pairs_per_batch p = Inr (packed, n)"
  obtains k where "authoritativeFilters packed p = Inr k" "1 \<le> n"
    "CURRENT_HEAD_AUTHORITY_BINDINGS + int k + int (authoritativeRepositoryCeiling packed p) +
       CURRENT_HEAD_PAIR_BINDINGS * int n \<le> D1_MAX_BINDINGS_PER_QUERY"
proof -
  have div2: "\<not> j div 2 < 1 \<Longrightarrow> 3 + (97 - j) + 2 * (j div 2) \<le> 100" for j :: int
    by presburger
  have arith: "1 \<le> n \<and> 3 + int k + int c + 2 * int n \<le> 100" if "n = nat ((97 - int k - int c) div 2)"
    "\<not> (97 - int k - int c) div 2 < 1" for k c :: nat
    using div2 [OF that(2)] that by (simp add: nat_le_iff)
  from assms obtain k where "authoritativeFilters packed p = Inr k"
    "n = nat ((97 - int k - int (authoritativeRepositoryCeiling packed p)) div 2)"
    "\<not> (97 - int k - int (authoritativeRepositoryCeiling packed p)) div 2 < 1"
    by (auto simp: pairs_per_batch_def bind_res_Inr_iff Let_def availablePairBindings_eq CURRENT_HEAD_PAIR_BINDINGS_def
      split: if_splits)
  with arith that show thesis
    by (simp add: CURRENT_HEAD_AUTHORITY_BINDINGS_def CURRENT_HEAD_PAIR_BINDINGS_def D1_MAX_BINDINGS_PER_QUERY_def)
qed

definition plan_lists_nonempty :: "filter_plan \<Rightarrow> bool" where
  "plan_lists_nonempty p \<longleftrightarrow> fp_statuses p \<noteq> [] \<and> opt_all (\<lambda>ks. ks \<noteq> []) (fp_kinds p) \<and>
     opt_all (\<lambda>ks. ks \<noteq> []) (fp_classes p) \<and> opt_all (\<lambda>(s, ids). ids \<noteq> []) (fp_scope p)"

lemma planned_lists_nonempty:
  assumes "planHardFilters Q now i = Inr p"
  shows "plan_lists_nonempty p"
  using assms
  by (elim planHardFilters_Inr) (auto simp: plan_lists_nonempty_def bind_res_Inr_iff
    dest!: opt_res_Inr normalizeIdentifiers_Inr normalizeEnumValues_Inr)

lemma appendInFilter_nonempty:
  "opt_all (\<lambda>vs. vs \<noteq> []) values \<Longrightarrow> \<exists>n. appendInFilter packed values = Inr n \<and> (packed \<longrightarrow> n \<le> 1)"
  by (cases "values") (auto simp: appendInFilter_def)

lemma authoritativeFilters_nonempty:
  assumes "plan_lists_nonempty p"
  shows "\<exists>n. authoritativeFilters packed p = Inr n \<and> (packed \<longrightarrow> n \<le> 7)"
proof -
  have "opt_all (\<lambda>vs. vs \<noteq> []) (Some (fp_statuses p))" using assms by (simp add: plan_lists_nonempty_def)
  from appendInFilter_nonempty [OF this] obtain a where a: "appendInFilter packed (Some (fp_statuses p)) = Inr a"
    "packed \<longrightarrow> a \<le> 1" by blast
  from assms appendInFilter_nonempty obtain b c where bc: "appendInFilter packed (fp_kinds p) = Inr b"
    "packed \<longrightarrow> b \<le> 1" "appendInFilter packed (fp_classes p) = Inr c" "packed \<longrightarrow> c \<le> 1"
    unfolding plan_lists_nonempty_def by metis
  obtain d where d: "(case fp_scope p of None \<Rightarrow> Inr 0
      | Some (s, ids) \<Rightarrow> bind_res (appendInFilter packed (Some ids)) (\<lambda>n. Inr (1 + n))) = Inr d" "packed \<longrightarrow> d \<le> 2"
  proof (cases "fp_scope p")
    case None
    then show ?thesis by (intro that [of 0]) simp_all
  next
    case (Some e)
    obtain s ids where e: "e = (s, ids)" by (cases e)
    then have "opt_all (\<lambda>vs. vs \<noteq> []) (Some ids)" using assms Some by (simp add: plan_lists_nonempty_def)
    from appendInFilter_nonempty [OF this] obtain n where "appendInFilter packed (Some ids) = Inr n" "packed \<longrightarrow> n \<le> 1"
      by blast
    with Some e show ?thesis by (intro that [of "1 + n"]) simp_all
  qed
  have "authoritativeFilters packed p = Inr (a + b + c + d + 2)"
    unfolding authoritativeFilters_def a(1) bc(1,3) d(1) bind_res.simps ..
  moreover have "packed \<longrightarrow> a + b + c + d + 2 \<le> 7" using a(2) bc(2,4) d(2) by (cases packed) simp_all
  ultimately show ?thesis by blast
qed

lemma pairs_per_batch_planned:
  assumes "plan_lists_nonempty p"
  shows "\<exists>packed n. pairs_per_batch p = Inr (packed, n)"
proof -
  from authoritativeFilters_nonempty [OF assms, of False] obtain j where j: "authoritativeFilters False p = Inr j" by auto
  from authoritativeFilters_nonempty [OF assms, of True] obtain k where k: "authoritativeFilters True p = Inr k" "k \<le> 7"
    by auto
  have c: "authoritativeRepositoryCeiling True p \<le> 1" by (simp add: authoritativeRepositoryCeiling_def split: option.split)
  show ?thesis
    using j k c by (auto simp: pairs_per_batch_def availablePairBindings_eq CURRENT_HEAD_PAIR_BINDINGS_def Let_def)
qed

section \<open>What validation keeps\<close>

lemma add_candidate_sub: "snd ` set (add_candidate f m) \<subseteq> insert f (snd ` set m)"
  by (auto simp: add_candidate_def dest!: set_AList_update split: if_splits)

lemma uniqueCandidates_sub: "set (uniqueCandidates fs) \<subseteq> set fs"
proof -
  have "snd ` set (fold add_candidate fs m) \<subseteq> snd ` set m \<union> set fs" for m
  proof (induction fs arbitrary: m)
    case (Cons f fs)
    from Cons [of "add_candidate f m"] add_candidate_sub [of f m] show ?case by (simp, blast)
  qed simp
  from this [of "[]"] show ?thesis by (simp add: uniqueCandidates_def)
qed

lemma pairKey_inj:
  assumes "pairKey m r = pairKey m' r'" "0 \<notin> set m" "0 \<notin> set m'"
  shows "m = m' \<and> r = r'"
  using split_at_first [of m 0 r m' r'] assms by (simp add: pairKey_def)

definition hit_pair :: "fused_hit \<Rightarrow> ustring \<times> ustring" where
  "hit_pair f = (rh_memory (fu_hit f), rh_revision (fu_hit f))"

lemma pairs_fold:
  defines "step \<equiv> \<lambda>f. AList.update (hit_key f) (hit_pair f)"
  shows "e \<in> set (fold step fs m) \<Longrightarrow> e \<in> set m \<or> (\<exists>f\<in>set fs. e = (hit_key f, hit_pair f))"
    and "fst ` set (fold step fs m) = fst ` set m \<union> hit_key ` set fs"
proof -
  show "e \<in> set (fold step fs m) \<Longrightarrow> e \<in> set m \<or> (\<exists>f\<in>set fs. e = (hit_key f, hit_pair f))"
    by (induction fs arbitrary: m) (fastforce simp: step_def dest!: set_AList_update)+
  show "fst ` set (fold step fs m) = fst ` set m \<union> hit_key ` set fs"
    by (induction fs arbitrary: m) (auto simp: step_def dom_update)
qed

lemma uniquePairs_eq: "uniquePairs fs = map snd (fold (\<lambda>f. AList.update (hit_key f) (hit_pair f)) fs [])"
  by (simp add: uniquePairs_def hit_pair_def)

lemma set_uniquePairs:
  assumes "\<forall>f\<in>set fs. 0 \<notin> set (rh_memory (fu_hit f))"
  shows "set (uniquePairs fs) = hit_pair ` set fs"
proof
  show "set (uniquePairs fs) \<subseteq> hit_pair ` set fs"
    using pairs_fold(1) [of _ fs "[]"] by (fastforce simp: uniquePairs_eq)
  show "hit_pair ` set fs \<subseteq> set (uniquePairs fs)"
  proof
    fix q
    assume "q \<in> hit_pair ` set fs"
    then obtain f where f: "f \<in> set fs" "q = hit_pair f" by blast
    let ?m = "fold (\<lambda>f. AList.update (hit_key f) (hit_pair f)) fs []"
    from f(1) pairs_fold(2) [of fs "[]"] have "hit_key f \<in> fst ` set ?m" by simp
    then obtain e where e: "e \<in> set ?m" "fst e = hit_key f" by auto
    from pairs_fold(1) [OF e(1)] obtain f' where f': "f' \<in> set fs" "e = (hit_key f', hit_pair f')" by auto
    with e(2) have "hit_key f' = hit_key f" by simp
    with pairKey_inj f f'(1) assms have "hit_pair f' = hit_pair f" unfolding hit_key_def hit_pair_def by blast
    with e(1) f' f(2) show "q \<in> set (uniquePairs fs)" by (force simp: uniquePairs_eq)
  qed
qed

lemma validateCurrentHeadRow_Inr: "validateCurrentHeadRow L r = Inr content \<Longrightarrow> content = v_content (hr_revision r)"
  by (auto simp: validateCurrentHeadRow_def requireFormalMemoryContent_def bind_res_Inr_iff split: if_splits)

lemma row_candidates_Inr:
  assumes "row_candidates L h fs r = Inr cs"
  shows "set cs = {head_candidate h r f chunk | f chunk. f \<in> set fs \<and> hit_key f = row_key r \<and>
    selectAuthoritativeMemoryChunk (v_content (hr_revision r)) (rh_chunk (fu_hit f)) = Inr chunk}"
proof -
  obtain content where c: "validateCurrentHeadRow L r = Inr content"
    "map_res (\<lambda>f. bind_res (selectAuthoritativeMemoryChunk content (rh_chunk (fu_hit f)))
       (\<lambda>chunk. Inr (head_candidate h r f chunk))) (filter (\<lambda>f. hit_key f = row_key r) fs) = Inr cs"
    using assms by (auto simp: row_candidates_def bind_res_Inr_iff Let_def)
  from map_res_set [OF c(2)] validateCurrentHeadRow_Inr [OF c(1)] show ?thesis
    by (auto simp: bind_res_Inr_iff)
qed

lemma snapshot_confirmed: "confirmsAuthorizedSnapshot (snapshot_query a h) (hi_snapshot h) \<longleftrightarrow> head_grants a h \<noteq> []"
  by (cases "head_grants a h") (simp_all add: snapshot_query_def confirmsAuthorizedSnapshot_def)

lemma sorted_rows_set: "deduplicateAndSortCurrentHeadRows rows globally = Inr rows' \<Longrightarrow> set rows' = set rows"
  by (auto simp: deduplicateAndSortCurrentHeadRows_def split: if_splits)

text \<open>The rows the queries select for the recalled pairs.\<close>

definition head_rows :: "head_lib \<Rightarrow> acl \<Rightarrow> head_input \<Rightarrow> head_row set" where
  "head_rows L a h = set (head_query L a h (uniquePairs (uniqueCandidates (hi_candidates h))))"

lemma validated_heads:
  assumes "validate_heads L a h = Inr cs"
  shows "set cs = {head_candidate h r f chunk | r f chunk. r \<in> head_rows L a h \<and>
    f \<in> set (uniqueCandidates (hi_candidates h)) \<and> hit_key f = row_key r \<and>
    selectAuthoritativeMemoryChunk (v_content (hr_revision r)) (rh_chunk (fu_hit f)) = Inr chunk}"
proof (cases "hi_candidates h = [] \<or> head_grants a h = []")
  case True
  have "cs = []"
    using assms True snapshot_confirmed [of a h]
    by (auto simp: validate_heads_def bind_res_Inr_iff Let_def split: if_splits)
  moreover have "head_rows L a h = {} \<or> uniqueCandidates (hi_candidates h) = []"
  proof (cases "head_grants a h = []")
    case no: True
    have "r \<notin> head_rows L a h" for r
      unfolding head_rows_def set_head_query selected_head_def using no by simp
    then show ?thesis by blast
  qed (use True in \<open>simp add: uniqueCandidates_def\<close>)
  ultimately show ?thesis by auto
next
  case False
  obtain n g rows where rows: "deduplicateAndSortCurrentHeadRows (concat (map (head_query L a h)
       (chunkPairs n (uniquePairs (uniqueCandidates (hi_candidates h)))))) g = Inr rows"
     "validateCurrentHeads L rows (uniqueCandidates (hi_candidates h)) h = Inr cs"
    using assms False snapshot_confirmed [of a h]
    by (auto simp: validate_heads_def bind_res_Inr_iff Let_def split: if_splits prod.splits)
  have r: "set rows = head_rows L a h"
    unfolding head_rows_def sorted_rows_set [OF rows(1)] set_batched_queries ..
  obtain css where css: "map_res (row_candidates L h (uniqueCandidates (hi_candidates h))) rows = Inr css"
    "cs = concat css" using rows(2) by (auto simp: validateCurrentHeads_def bind_res_Inr_iff)
  show ?thesis
  proof (intro set_eqI iffI)
    fix c
    assume "c \<in> set cs"
    then obtain x where x: "x \<in> set css" "c \<in> set x" using css(2) by auto
    from map_res_source [OF css(1) x(1)] r obtain rr where "rr \<in> head_rows L a h"
      "row_candidates L h (uniqueCandidates (hi_candidates h)) rr = Inr x" by blast
    with row_candidates_Inr x(2) show "c \<in> {head_candidate h r f chunk | r f chunk. r \<in> head_rows L a h \<and>
      f \<in> set (uniqueCandidates (hi_candidates h)) \<and> hit_key f = row_key r \<and>
      selectAuthoritativeMemoryChunk (v_content (hr_revision r)) (rh_chunk (fu_hit f)) = Inr chunk}" by blast
  next
    fix c
    assume "c \<in> {head_candidate h r f chunk | r f chunk. r \<in> head_rows L a h \<and>
      f \<in> set (uniqueCandidates (hi_candidates h)) \<and> hit_key f = row_key r \<and>
      selectAuthoritativeMemoryChunk (v_content (hr_revision r)) (rh_chunk (fu_hit f)) = Inr chunk}"
    then obtain rr f chunk where c: "c = head_candidate h rr f chunk" "rr \<in> set rows"
      "f \<in> set (uniqueCandidates (hi_candidates h))" "hit_key f = row_key rr"
      "selectAuthoritativeMemoryChunk (v_content (hr_revision rr)) (rh_chunk (fu_hit f)) = Inr chunk" using r by blast
    from map_res_Inr [OF css(1)] c(2) obtain x where x: "x \<in> set css"
      "row_candidates L h (uniqueCandidates (hi_candidates h)) rr = Inr x"
      by (auto dest: list_all2_sub_left)
    from row_candidates_Inr [OF x(2)] c have "c \<in> set x" by blast
    with x(1) css(2) show "c \<in> set cs" by auto
  qed
qed

section \<open>Properties of validation\<close>

text \<open>C34: The validator returns exactly the recalled current heads the caller may read: a candidate is in
  its result if and only if it was recalled, its memory's current revision is the recalled one, an
  active grant of the caller reaches the memory in the project at the requested version, the
  repository ceiling and the hard filters admit it, and its text is the recalled chunk of the stored
  revision. Neither the splitting of the pairs over several queries, nor their order, nor a second
  recall of the same chunk changes that set.\<close>

theorem validated_heads_are_exact:
  assumes "validate_heads L a h = Inr cs" "\<forall>f\<in>set (hi_candidates h). 0 \<notin> set (rh_memory (fu_hit f))"
  shows "c \<in> set cs \<longleftrightarrow> (\<exists>f m v chunk. f \<in> set (uniqueCandidates (hi_candidates h)) \<and>
    m \<in> set (t_memories (ac_db a)) \<and> v \<in> set (t_revisions (ac_db a)) \<and> selected_head L a h m v \<and>
    rh_memory (fu_hit f) = m_id m \<and> rh_revision (fu_hit f) = v_id v \<and>
    selectAuthoritativeMemoryChunk (v_content v) (rh_chunk (fu_hit f)) = Inr chunk \<and>
    c = head_candidate h \<lparr>hr_memory = m, hr_revision = v, hr_evidence = evidence_text a h m v\<rparr> f chunk)"
proof -
  let ?fs = "uniqueCandidates (hi_candidates h)"
  have nul: "\<forall>f\<in>set ?fs. 0 \<notin> set (rh_memory (fu_hit f))"
    using assms(2) uniqueCandidates_sub [of "hi_candidates h"] by blast
  have same: "hit_key f = pairKey (m_id m) (v_id v) \<longleftrightarrow> rh_memory (fu_hit f) = m_id m \<and> rh_revision (fu_hit f) = v_id v"
    if "f \<in> set ?fs" "(m_id m, v_id v) \<in> hit_pair ` set ?fs" for f and m :: memory and v :: revision
  proof -
    from that(2) nul have "0 \<notin> set (m_id m)" by (auto simp: hit_pair_def)
    with that(1) nul pairKey_inj show ?thesis unfolding hit_key_def by metis
  qed
  have row: "r \<in> head_rows L a h \<longleftrightarrow> (\<exists>m v. m \<in> set (t_memories (ac_db a)) \<and> v \<in> set (t_revisions (ac_db a)) \<and>
      selected_head L a h m v \<and> (m_id m, v_id v) \<in> hit_pair ` set ?fs \<and>
      r = \<lparr>hr_memory = m, hr_revision = v, hr_evidence = evidence_text a h m v\<rparr>)" for r
    unfolding head_rows_def set_head_query set_uniquePairs [OF nul] by blast
  show ?thesis
  proof
    assume "c \<in> set cs"
    then obtain r f chunk where c: "c = head_candidate h r f chunk" "r \<in> head_rows L a h" "f \<in> set ?fs"
      "hit_key f = row_key r" "selectAuthoritativeMemoryChunk (v_content (hr_revision r)) (rh_chunk (fu_hit f)) = Inr chunk"
      unfolding validated_heads [OF assms(1)] by blast
    from c(2) obtain m v where r: "m \<in> set (t_memories (ac_db a))" "v \<in> set (t_revisions (ac_db a))"
      "selected_head L a h m v" "(m_id m, v_id v) \<in> hit_pair ` set ?fs"
      "r = \<lparr>hr_memory = m, hr_revision = v, hr_evidence = evidence_text a h m v\<rparr>" unfolding row by blast
    have "rh_memory (fu_hit f) = m_id m \<and> rh_revision (fu_hit f) = v_id v"
      using same [OF c(3) r(4)] c(4) r(5) by (simp add: row_key_def)
    with c(1,3,5) r(1,2,3,5) show "\<exists>f m v chunk. f \<in> set ?fs \<and>
        m \<in> set (t_memories (ac_db a)) \<and> v \<in> set (t_revisions (ac_db a)) \<and> selected_head L a h m v \<and>
        rh_memory (fu_hit f) = m_id m \<and> rh_revision (fu_hit f) = v_id v \<and>
        selectAuthoritativeMemoryChunk (v_content v) (rh_chunk (fu_hit f)) = Inr chunk \<and>
        c = head_candidate h \<lparr>hr_memory = m, hr_revision = v, hr_evidence = evidence_text a h m v\<rparr> f chunk"
      by (intro exI [of _ f] exI [of _ m] exI [of _ v] exI [of _ chunk]) simp
  next
    assume "\<exists>f m v chunk. f \<in> set ?fs \<and>
        m \<in> set (t_memories (ac_db a)) \<and> v \<in> set (t_revisions (ac_db a)) \<and> selected_head L a h m v \<and>
        rh_memory (fu_hit f) = m_id m \<and> rh_revision (fu_hit f) = v_id v \<and>
        selectAuthoritativeMemoryChunk (v_content v) (rh_chunk (fu_hit f)) = Inr chunk \<and>
        c = head_candidate h \<lparr>hr_memory = m, hr_revision = v, hr_evidence = evidence_text a h m v\<rparr> f chunk"
    then obtain f m v chunk where c: "f \<in> set ?fs" "m \<in> set (t_memories (ac_db a))" "v \<in> set (t_revisions (ac_db a))"
      "selected_head L a h m v" "rh_memory (fu_hit f) = m_id m" "rh_revision (fu_hit f) = v_id v"
      "selectAuthoritativeMemoryChunk (v_content v) (rh_chunk (fu_hit f)) = Inr chunk"
      "c = head_candidate h \<lparr>hr_memory = m, hr_revision = v, hr_evidence = evidence_text a h m v\<rparr> f chunk" by blast
    let ?r = "\<lparr>hr_memory = m, hr_revision = v, hr_evidence = evidence_text a h m v\<rparr>"
    have p: "(m_id m, v_id v) \<in> hit_pair ` set ?fs" using c(1,5,6) by (force simp: hit_pair_def)
    with c(2-4) have "?r \<in> head_rows L a h" unfolding row by blast
    moreover have "hit_key f = row_key ?r" using c(5,6) by (simp add: hit_key_def row_key_def)
    ultimately show "c \<in> set cs" unfolding validated_heads [OF assms(1)] using c(1,7,8) by force
  qed
qed

text \<open>For every filter plan, the queries of the validator fit D1: the plan is never refused for its size,
  each query carries at least one pair, and the values it binds, the authority, the filters, the
  repository ceiling and the pairs together, are at most a hundred.\<close>

theorem head_queries_fit_binding_limit:
  assumes "planHardFilters Q now i = Inr p"
  shows "\<exists>packed n k. pairs_per_batch p = Inr (packed, n) \<and> 1 \<le> n \<and> authoritativeFilters packed p = Inr k \<and>
    CURRENT_HEAD_AUTHORITY_BINDINGS + int k + int (authoritativeRepositoryCeiling packed p) +
      CURRENT_HEAD_PAIR_BINDINGS * int n \<le> D1_MAX_BINDINGS_PER_QUERY \<and>
    list_all (\<lambda>pairs. length pairs \<le> n) (chunkPairs n (pairs :: (ustring \<times> ustring) list))"
proof -
  obtain packed n where n: "pairs_per_batch p = Inr (packed, n)"
    using pairs_per_batch_planned [OF planned_lists_nonempty [OF assms]] by blast
  from pairs_per_batch_fits [OF n] obtain k where "authoritativeFilters packed p = Inr k" "1 \<le> n"
    "CURRENT_HEAD_AUTHORITY_BINDINGS + int k + int (authoritativeRepositoryCeiling packed p) +
      CURRENT_HEAD_PAIR_BINDINGS * int n \<le> D1_MAX_BINDINGS_PER_QUERY" by blast
  moreover have "list_all (\<lambda>pairs. length pairs \<le> n) (chunkPairs n pairs)"
    using chunkPairs_length [OF \<open>1 \<le> n\<close>] by (auto simp: list_all_iff)
  ultimately show ?thesis using n by blast
qed

section \<open>The contract of a validator\<close>

text \<open>
  What the pipeline's client needs of a validator: every candidate it returns is vouched for,
  for the caller of the request.
\<close>

locale head_validator =
  fixes validate :: "head_input \<Rightarrow> thrown + candidate list"
    and vouched :: "head_input \<Rightarrow> candidate \<Rightarrow> bool"
  assumes vouches: "validate h = Inr cs \<Longrightarrow> c \<in> set cs \<Longrightarrow> vouched h c"
begin

lemma search_vouched:
  assumes "en_validate S = validate" "search S clock i = Inr r" "m \<in> set (sr_memories r)"
  shows "\<exists>h c (f :: fused_hit). vouched h c \<and> hi_principal h = js_trim (si_principal i) \<and>
    safe_int (si_snapshot i) = Some (hi_snapshot h) \<and> search_filters S clock i = Inr (hi_filters h) \<and>
    hi_project h = fp_project (hi_filters h) \<and> shows_candidate m (c\<lparr>ca_score := fu_score f\<rparr>, rm_relevance m)"
  using search_grounded [OF assms(2,3)] vouches unfolding assms(1) by metis

end

definition current_head :: "head_lib \<Rightarrow> acl \<Rightarrow> head_input \<Rightarrow> candidate \<Rightarrow> bool" where
  "current_head L a h c \<longleftrightarrow> (\<exists>m v chunk (f :: fused_hit). m \<in> set (t_memories (ac_db a)) \<and> v \<in> set (t_revisions (ac_db a)) \<and>
     selected_head L a h m v \<and> selectAuthoritativeMemoryChunk (v_content v) (rh_chunk (fu_hit f)) = Inr chunk \<and>
     c = head_candidate h \<lparr>hr_memory = m, hr_revision = v, hr_evidence = evidence_text a h m v\<rparr> f chunk)"

interpretation d1_head: head_validator "validate_heads L a" "current_head L a"
proof
  fix h cs c
  assume "validate_heads L a h = Inr cs" "c \<in> set cs"
  then obtain r f chunk where "c = head_candidate h r f chunk" "r \<in> head_rows L a h"
    "selectAuthoritativeMemoryChunk (v_content (hr_revision r)) (rh_chunk (fu_hit f)) = Inr chunk"
    using validated_heads [of L a h cs] by blast
  then show "current_head L a h c"
    unfolding current_head_def head_rows_def set_head_query by force
qed

lemma shown_part_eqs:
  assumes "shows_candidate x (c, s)"
  shows "ca_memory x = ca_memory c" "ca_revision x = ca_revision c" "ca_chunk x = ca_chunk c"
proof -
  have t: "public_candidate.truncate x = public_candidate.truncate c" using assms by (simp add: shows_candidate_def)
  from arg_cong [OF t, of ca_memory] arg_cong [OF t, of ca_revision] arg_cong [OF t, of ca_chunk]
  show "ca_memory x = ca_memory c" "ca_revision x = ca_revision c" "ca_chunk x = ca_chunk c"
    by (simp_all add: public_candidate.defs)
qed

lemma selected_head_role:
  assumes "selected_head L a h m v" "m \<in> set (t_memories (ac_db a))"
  shows "hasMemoryRole a \<lparr>au_principal = hi_principal h, au_project = hi_project h, au_role = Reader\<rparr> Reader (m_id m)"
    "\<exists>p\<in>set (t_projects (ac_db a)). p_id p = hi_project h \<and> p_version p = hi_snapshot h"
proof -
  from assms(1) obtain g where g: "g \<in> set (head_grants a h)" "hierarchicalMemoryAccessPredicate a g m"
    by (auto simp: selected_head_def list_ex_iff)
  have "roleRank Reader \<le> roleRank (g_role g)" by (cases "g_role g") simp_all
  with g assms show "hasMemoryRole a \<lparr>au_principal = hi_principal h, au_project = hi_project h, au_role = Reader\<rparr> Reader (m_id m)"
    by (auto simp: hasMemoryRole_def active_grant_def head_grants_def selected_head_def
      intro!: bexI [of _ g] bexI [of _ m])
  from g(1) show "\<exists>p\<in>set (t_projects (ac_db a)). p_id p = hi_project h \<and> p_version p = hi_snapshot h"
    by (auto simp: head_grants_def list_ex_iff)
qed

text \<open>C33: A search on the database reveals only what its caller may read now: every memory of a result is
  an existing memory whose current revision is the one cited, the caller has a role on it by the
  access predicate, the project is at the version of the request, its status, kind, class and scope
  are what the filters ask for, and the excerpt is the start of the cited chunk of the stored
  content. Recall providers and the reranker, whatever they answer, cannot make a search show
  anything else.\<close>

theorem search_reveals_only_readable_heads:
  assumes "en_validate S = validate_heads L a" "search S clock i = Inr r" "x \<in> set (sr_memories r)"
  shows "\<exists>m v p chunk. m \<in> set (t_memories (ac_db a)) \<and> v \<in> set (t_revisions (ac_db a)) \<and>
    search_filters S clock i = Inr p \<and> m_project m = fp_project p \<and> ca_memory x = m_id m \<and>
    m_revision m = Some (v_id v) \<and> ca_revision x = v_id v \<and>
    hasMemoryRole a \<lparr>au_principal = js_trim (si_principal i), au_project = fp_project p, au_role = Reader\<rparr> Reader (m_id m) \<and>
    (\<exists>q\<in>set (t_projects (ac_db a)). p_id q = fp_project p \<and> Some (p_version q) = safe_int (si_snapshot i)) \<and>
    repository_ceiling a p m \<and> filter_condition L p m v \<and>
    selectAuthoritativeMemoryChunk (v_content v) (ca_chunk x) = Inr chunk \<and> prefix (rm_excerpt x) chunk \<and>
    rm_excerpt x \<noteq> []"
proof -
  from d1_head.search_vouched [OF assms] obtain h c and f :: fused_hit where h: "current_head L a h c"
    "hi_principal h = js_trim (si_principal i)" "safe_int (si_snapshot i) = Some (hi_snapshot h)"
    "search_filters S clock i = Inr (hi_filters h)" "hi_project h = fp_project (hi_filters h)"
    "shows_candidate x (c\<lparr>ca_score := fu_score f\<rparr>, rm_relevance x)" by blast
  from h(1) obtain m v chunk and f' :: fused_hit where c: "m \<in> set (t_memories (ac_db a))" "v \<in> set (t_revisions (ac_db a))"
    "selected_head L a h m v" "selectAuthoritativeMemoryChunk (v_content v) (rh_chunk (fu_hit f')) = Inr chunk"
    "c = head_candidate h \<lparr>hr_memory = m, hr_revision = v, hr_evidence = evidence_text a h m v\<rparr> f' chunk"
    by (auto simp: current_head_def)
  have x: "ca_memory x = m_id m" "ca_revision x = v_id v" "ca_chunk x = rh_chunk (fu_hit f')"
    "prefix (rm_excerpt x) chunk" "rm_excerpt x \<noteq> []"
    using h(6) by (simp_all add: shown_part_eqs [OF h(6)]) (simp_all add: shows_candidate_def c(5) head_candidate_def Let_def)
  have sel: "m_project m = hi_project h" "m_revision m = Some (v_id v)" "repository_ceiling a (hi_filters h) m"
    "filter_condition L (hi_filters h) m v"
    using c(3) by (auto simp: selected_head_def)
  show ?thesis
    using c x sel h selected_head_role [OF c(3,1)]
    by (intro exI [of _ m] exI [of _ v] exI [of _ "hi_filters h"] exI [of _ chunk]) auto
qed

section \<open>A concrete project\<close>

definition head_demo_lib :: head_lib where
  "head_demo_lib = \<lparr>hd_search = demo_search_lib, hd_julian = (\<lambda>s. None)\<rparr>"

definition head_demo_acl :: acl where
  "head_demo_acl =
     \<lparr>ac_db = demo_db\<lparr>
        t_evidence := [\<lparr>e_id = str ''e1'', e_project = str ''p'', e_source_type = str ''document'', e_locator = str ''l'',
          e_repository = None, e_commit = None, e_excerpt = str ''x'', e_sensitivity = Clear, e_recorded_at = 10,
          e_ref = None, e_path = None, e_authority = None\<rparr>],
        t_links := [\<lparr>l_project = str ''p'', l_revision = str ''r1'', l_evidence = str ''e1''\<rparr>]\<rparr>,
      ac_principals = [\<lparr>n_id = str ''u'', n_digest = [], n_revoked_at = None\<rparr>], ac_contexts = []\<rparr>"

definition head_demo_hit :: recall_hit where
  "head_demo_hit = \<lparr>rh_project = str ''p'', rh_memory = str ''m'', rh_revision = str ''r1'', rh_chunk = str ''chunk-0'',
     rh_generation = str ''g1'', rh_source = None, rh_channel = None\<rparr>"

definition head_demo_input :: search_input where
  "head_demo_input = demo_search_input\<lparr>si_filters := demo_filter_input\<lparr>fi_project := str ''p'', fi_repositories := None,
     fi_kinds := None, fi_scope := None\<rparr>, si_principal := str ''u'', si_snapshot := Finite 1\<rparr>"

definition head_demo_env :: search_env where
  "head_demo_env = demo_env\<lparr>en_lexical := Some (\<lambda>i. Inr [head_demo_hit]),
     en_validate := validate_heads head_demo_lib head_demo_acl\<rparr>"

definition head_demo_plan :: filter_plan where
  "head_demo_plan = demo_filter_plan\<lparr>fp_project := str ''p'', fp_repositories := None, fp_kinds := None, fp_scope := None\<rparr>"

definition head_demo_request :: head_input where
  "head_demo_request = \<lparr>hi_project = str ''p'', hi_principal = str ''u'', hi_snapshot = 1, hi_filters = head_demo_plan,
     hi_candidates = [\<lparr>fu_hit = head_demo_hit, fu_score = 1 / 61, fu_channels = [LexicalChannel]\<rparr>]\<rparr>"

definition head_demo_memory :: result_memory where
  "head_demo_memory = \<lparr>ca_project = str ''p'', ca_memory = str ''m'', ca_revision = str ''r1'', ca_version = 1,
     ca_chunk = str ''chunk-0'', ca_sha = str ''s1'', ca_kind = Fact, ca_class = Semantic, ca_scope = ScopeProject,
     ca_scope_id = str ''p'', ca_status = Active, ca_from = None, ca_until = None, ca_evidence = [str ''e1''],
     ca_score = 1 / 61, ca_generation = str ''g1'', rm_excerpt = str ''one'', rm_truncated = False, rm_relevance = 1\<rparr>"

definition head_demo_result :: search_result where
  "head_demo_result = \<lparr>sr_snapshot = Finite 1, sr_generation = str ''g1'', sr_abstained = False, sr_reason = None,
     sr_memories = [head_demo_memory], sr_pack = buildContextPack [head_demo_memory]\<rparr>"

lemma head_demo_search: "search head_demo_env [] head_demo_input = Inr head_demo_result"
  by code_simp

definition head_demo_found :: candidate where
  "head_demo_found = head_candidate head_demo_request \<lparr>hr_memory = demo_memory, hr_revision = demo_revision,
     hr_evidence = Some (str ''e1'')\<rparr> \<lparr>fu_hit = head_demo_hit, fu_score = 1 / 61, fu_channels = [LexicalChannel]\<rparr> (str ''one'')"

lemma head_demo_validate: "validate_heads head_demo_lib head_demo_acl head_demo_request = Inr [head_demo_found]"
  by code_simp

theorem search_reveals_only_readable_heads_witness:
  "\<exists>m. m \<in> set (t_memories (ac_db head_demo_acl)) \<and> ca_memory head_demo_memory = m_id m \<and>
     hasMemoryRole head_demo_acl \<lparr>au_principal = str ''u'', au_project = str ''p'', au_role = Reader\<rparr> Reader (m_id m)"
proof -
  have env: "en_validate head_demo_env = validate_heads head_demo_lib head_demo_acl" by (simp add: head_demo_env_def)
  have mem: "head_demo_memory \<in> set (sr_memories head_demo_result)" by (simp add: head_demo_result_def)
  have plan: "search_filters head_demo_env [] head_demo_input = Inr head_demo_plan" by code_simp
  have ids: "fp_project head_demo_plan = str ''p''" "js_trim (si_principal head_demo_input) = str ''u''" by code_simp+
  from search_reveals_only_readable_heads [OF env head_demo_search mem] show ?thesis
    unfolding plan sum.inject ids by (metis ids(1))
qed

theorem validated_heads_are_exact_witness:
  "\<exists>m v. selected_head head_demo_lib head_demo_acl head_demo_request m v \<and> ca_memory head_demo_found = m_id m"
proof -
  have "\<forall>f\<in>set (hi_candidates head_demo_request). 0 \<notin> set (rh_memory (fu_hit f))"
    by (simp add: head_demo_request_def head_demo_hit_def)
  from validated_heads_are_exact [OF head_demo_validate this, of head_demo_found] obtain f m v chunk where
    "selected_head head_demo_lib head_demo_acl head_demo_request m v"
    "head_demo_found = head_candidate head_demo_request
       \<lparr>hr_memory = m, hr_revision = v, hr_evidence = evidence_text head_demo_acl head_demo_request m v\<rparr> f chunk"
    by auto
  moreover from this(2) have "ca_memory head_demo_found = m_id m"
    by (rule ssubst) (simp add: head_candidate_def Let_def)
  ultimately show ?thesis by blast
qed

theorem head_queries_fit_binding_limit_witness:
  "\<exists>packed n. pairs_per_batch demo_filter_plan = Inr (packed, n) \<and> 1 \<le> n"
  using head_queries_fit_binding_limit [OF demo_filters, of "[]"] by blast

end
