(* ===== verification/Tree_Store.thy ===== *)
theory Tree_Store
  imports D1_Net Json_Lines Uri_Codec
begin

text \<open>
  The tables of repository tree manifests (migration 0011): a manifest is the list of a commit's
  files, collected by the GitHub sync. The triggers of the migration decide every change of a row;
  \<open>tree_step\<close> is every change they allow, whoever makes it. Instants are epoch milliseconds.
  The \<open>CHECK\<close> that a time is in canonical form holds by construction.
\<close>

section \<open>Rows\<close>

datatype tree_authority = DefaultBranchTree | TrackedRefTree

datatype disposition = TextBlob | BinaryExcluded | GeneratedExcluded | SensitiveTombstone | PartialBlob

datatype sync_error_code = AuthorizationRequired | CredentialExpired | SsoRequired | ClassicPatBlocked
  | PermissionInsufficient | RepositoryUnavailable | GithubRateLimited | PartialSync | ReconciliationRequired

record tree_descriptor =
  td_id :: ustring
  td_project :: ustring
  td_repository :: ustring
  td_ref :: ustring
  td_observed :: ustring
  td_tree :: ustring
  td_authority :: tree_authority
  td_collection :: ustring
  td_created :: int

record tree_entry =
  te_digest :: ustring
  te_path :: "ustring option"
  te_sha :: ustring
  te_size :: int
  te_disposition :: disposition

datatype manifest_status = Staging | Complete | Failed | Purging | Purged

record manifest_row =
  mf_descriptor :: tree_descriptor
  mf_status :: manifest_status
  mf_count :: "nat option"
  mf_checksum :: "ustring option"
  mf_completed :: "int option"
  mf_failed :: "int option"
  mf_failure :: "sync_error_code option"
  mf_version :: nat
  mf_attempt :: nat
  mf_next :: "int option"
  mf_token :: "ustring option"
  mf_lease :: "int option"
  mf_purged :: "int option"

datatype lifecycle_type = FailedEvent | PurgeChunkEvent | PurgedEvent

record lifecycle_event =
  le_id :: ustring
  le_project :: ustring
  le_manifest :: ustring
  le_version :: nat
  le_type :: lifecycle_type
  le_failure :: "sync_error_code option"
  le_count :: "nat option"
  le_checksum :: "ustring option"
  le_chunk_count :: "nat option"
  le_chunk :: "ustring option"
  le_request :: ustring
  le_recorded :: "int option"

record sync_run =
  rn_project :: ustring
  rn_repository :: ustring
  rn_scheduled :: ustring
  rn_running :: bool
  rn_lease :: int

datatype retention_lane = StagingLane | FailedLane

record retention_cursor =
  kc_lane :: retention_lane
  kc_after :: "ustring \<times> ustring"
  kc_version :: nat

text \<open>
  \<open>tr_references\<close> are the manifests that a ref head or a delta names, \<open>tr_synthetic\<close> the
  projects of the synthetic canary, whose rows may be cleaned up (a project keeps its reference), \<open>tr_repositories\<close> the keys of
  \<open>repositories\<close>.
\<close>

record tree_db =
  tr_manifests :: "manifest_row list"
  tr_entries :: "(ustring \<times> ustring \<times> tree_entry) list"
  tr_events :: "lifecycle_event list"
  tr_references :: "(ustring \<times> ustring) list"
  tr_synthetic :: "ustring list"
  tr_repositories :: "(ustring \<times> ustring) list"
  tr_runs :: "sync_run list"
  tr_cursors :: "retention_cursor list"
  tr_clock :: int

definition manifest_key :: "manifest_row \<Rightarrow> ustring \<times> ustring" where
  "manifest_key r = (td_project (mf_descriptor r), td_id (mf_descriptor r))"

definition entries_of :: "tree_db \<Rightarrow> ustring \<times> ustring \<Rightarrow> tree_entry list" where
  "entries_of s k = map (\<lambda>(p, i, e). e) (filter (\<lambda>(p, i, e). (p, i) = k) (tr_entries s))"

definition manifest_at :: "tree_db \<Rightarrow> ustring \<times> ustring \<Rightarrow> manifest_row option" where
  "manifest_at s k = find (\<lambda>r. manifest_key r = k) (tr_manifests s)"

definition trigger_abort :: "string \<Rightarrow> thrown" where
  "trigger_abort m = Other (str m)"

section \<open>Checks\<close>

definition hex_char :: "nat \<Rightarrow> bool" where
  "hex_char c \<longleftrightarrow> hex_lower_char c \<or> (65 \<le> c \<and> c \<le> 70)"

definition sha_text :: "ustring \<Rightarrow> bool" where
  "sha_text s \<longleftrightarrow> 40 \<le> length s \<and> length s \<le> 128 \<and> list_all hex_char s"

definition safe_path :: "ustring \<Rightarrow> bool" where
  "safe_path p \<longleftrightarrow> p \<noteq> [] \<and> hd p \<noteq> 47 \<and> 0 \<notin> set p \<and> 92 \<notin> set p"

text \<open>The checks of \<open>github_tree_manifest_entries\<close>.\<close>

definition entry_check :: "tree_entry \<Rightarrow> bool" where
  "entry_check e \<longleftrightarrow> digest_text (te_digest e) \<and> opt_all safe_path (te_path e) \<and> sha_text (te_sha e) \<and> 0 \<le> te_size e \<and>
     (te_disposition e = SensitiveTombstone \<longrightarrow> te_path e = None)"

definition descriptor_check :: "tree_descriptor \<Rightarrow> bool" where
  "descriptor_check d \<longleftrightarrow> digest_text (td_id d) \<and>
     td_ref d \<noteq> [] \<and> hd (td_ref d) \<noteq> 32 \<and> last (td_ref d) \<noteq> 32 \<and> 0 \<notin> set (td_ref d) \<and>
     sha_text (td_observed d) \<and> sha_text (td_tree d) \<and> td_collection d \<noteq> [] \<and> 0 \<notin> set (td_collection d)"

text \<open>Which columns a status sets.\<close>

definition status_check :: "manifest_row \<Rightarrow> bool" where
  "status_check r \<longleftrightarrow>
     (case mf_status r of
        Staging \<Rightarrow> mf_count r = None \<and> mf_checksum r = None \<and> mf_completed r = None \<and> mf_failed r = None \<and>
          mf_failure r = None \<and> mf_version r = 0 \<and> mf_attempt r = 0 \<and> mf_next r = None \<and> mf_token r = None \<and>
          mf_lease r = None \<and> mf_purged r = None
      | Complete \<Rightarrow> mf_count r \<noteq> None \<and> mf_checksum r \<noteq> None \<and> mf_completed r \<noteq> None \<and> mf_failed r = None \<and>
          mf_failure r = None \<and> mf_version r = 0 \<and> mf_attempt r = 0 \<and> mf_next r = None \<and> mf_token r = None \<and>
          mf_lease r = None \<and> mf_purged r = None
      | Failed \<Rightarrow> mf_count r \<noteq> None \<and> mf_checksum r \<noteq> None \<and> mf_completed r = None \<and> mf_failed r \<noteq> None \<and>
          mf_failure r \<noteq> None \<and> mf_version r = 0 \<and> mf_attempt r = 0 \<and> mf_next r = None \<and> mf_token r = None \<and>
          mf_lease r = None \<and> mf_purged r = None
      | Purging \<Rightarrow> mf_count r \<noteq> None \<and> mf_checksum r \<noteq> None \<and> mf_completed r = None \<and> mf_failed r \<noteq> None \<and>
          mf_failure r \<noteq> None \<and> 1 \<le> mf_version r \<and> 1 \<le> mf_attempt r \<and> mf_next r \<noteq> None \<and> mf_token r \<noteq> None \<and>
          mf_lease r \<noteq> None \<and> mf_purged r = None
      | Purged \<Rightarrow> mf_count r \<noteq> None \<and> mf_checksum r \<noteq> None \<and> mf_completed r = None \<and> mf_failed r \<noteq> None \<and>
          mf_failure r \<noteq> None \<and> 2 \<le> mf_version r \<and> 1 \<le> mf_attempt r \<and> mf_next r = None \<and> mf_token r = None \<and>
          mf_lease r = None \<and> mf_purged r \<noteq> None)"

definition manifest_check :: "manifest_row \<Rightarrow> bool" where
  "manifest_check r \<longleftrightarrow> descriptor_check (mf_descriptor r) \<and> opt_all digest_text (mf_checksum r) \<and>
     opt_all digest_text (mf_token r) \<and> status_check r"

section \<open>Triggers\<close>

definition day_ms :: int where "day_ms = 24 * 60 * 60 * 1000"

definition minute_ms :: int where "minute_ms = 60 * 1000"

definition recent :: "tree_db \<Rightarrow> int \<Rightarrow> bool" where
  "recent s t \<longleftrightarrow> tr_clock s - 5 * minute_ms \<le> t \<and> t \<le> tr_clock s + 5 * minute_ms"

text \<open>A condition on columns that may be NULL: NULL makes it false.\<close>

definition known :: "('a \<Rightarrow> bool) \<Rightarrow> 'a option \<Rightarrow> bool" where
  "known P x = (case x of None \<Rightarrow> False | Some v \<Rightarrow> P v)"

definition same_failure :: "manifest_row \<Rightarrow> manifest_row \<Rightarrow> bool" where
  "same_failure old new \<longleftrightarrow> mf_count new = mf_count old \<and> mf_checksum new = mf_checksum old \<and>
     mf_failed new = mf_failed old \<and> mf_failure new = mf_failure old"

definition aged :: "tree_db \<Rightarrow> manifest_row \<Rightarrow> bool" where
  "aged s r \<longleftrightarrow> known (\<lambda>f. f + 30 * day_ms \<le> tr_clock s) (mf_failed r)"

definition unreferenced :: "tree_db \<Rightarrow> manifest_row \<Rightarrow> bool" where
  "unreferenced s r \<longleftrightarrow> manifest_key r \<notin> set (tr_references s)"

definition new_lease_ok :: "tree_db \<Rightarrow> manifest_row \<Rightarrow> manifest_row \<Rightarrow> bool" where
  "new_lease_ok s old new \<longleftrightarrow> mf_version new = mf_version old + 1 \<and> mf_attempt new = mf_attempt old + 1 \<and>
     mf_next new = mf_lease new \<and> aged s old \<and>
     known (\<lambda>l. tr_clock s < l \<and> l \<le> tr_clock s + 30 * minute_ms) (mf_lease new) \<and> unreferenced s old"

text \<open>The transitions of \<open>github_tree_manifests_state_transition_guard\<close>, one by one.\<close>

definition completes :: "tree_db \<Rightarrow> manifest_row \<Rightarrow> manifest_row \<Rightarrow> bool" where
  "completes s old new \<longleftrightarrow> mf_status old = Staging \<and> mf_status new = Complete \<and>
     mf_count new = Some (length (entries_of s (manifest_key old))) \<and>
     list_all (\<lambda>e. te_disposition e \<noteq> PartialBlob) (entries_of s (manifest_key old))"

definition fails :: "tree_db \<Rightarrow> manifest_row \<Rightarrow> manifest_row \<Rightarrow> bool" where
  "fails s old new \<longleftrightarrow> mf_status old = Staging \<and> mf_status new = Failed \<and>
     mf_count new = Some (length (entries_of s (manifest_key old))) \<and>
     known (\<lambda>f. td_created (mf_descriptor old) \<le> f \<and> recent s f) (mf_failed new)"

definition claims_purge :: "tree_db \<Rightarrow> manifest_row \<Rightarrow> manifest_row \<Rightarrow> bool" where
  "claims_purge s old new \<longleftrightarrow> mf_status old = Failed \<and> mf_status new = Purging \<and> same_failure old new \<and>
     new_lease_ok s old new"

definition reclaims_purge :: "tree_db \<Rightarrow> manifest_row \<Rightarrow> manifest_row \<Rightarrow> bool" where
  "reclaims_purge s old new \<longleftrightarrow> mf_status old = Purging \<and> mf_status new = Purging \<and> same_failure old new \<and>
     new_lease_ok s old new \<and> known (\<lambda>l. l \<le> tr_clock s) (mf_lease old) \<and> known (\<lambda>n. n \<le> tr_clock s) (mf_next old)"

definition defers_purge :: "tree_db \<Rightarrow> manifest_row \<Rightarrow> manifest_row \<Rightarrow> bool" where
  "defers_purge s old new \<longleftrightarrow> mf_status old = Purging \<and> mf_status new = Purging \<and> same_failure old new \<and>
     mf_version new = mf_version old \<and> mf_attempt new = mf_attempt old \<and> mf_token new = mf_token old \<and>
     mf_lease new = mf_lease old \<and>
     known (\<lambda>n. known (\<lambda>t. t < n) (mf_next old) \<and> tr_clock s < n \<and> n \<le> tr_clock s + 7 * day_ms) (mf_next new)"

definition purges :: "tree_db \<Rightarrow> manifest_row \<Rightarrow> manifest_row \<Rightarrow> bool" where
  "purges s old new \<longleftrightarrow> mf_status old = Purging \<and> mf_status new = Purged \<and> same_failure old new \<and>
     mf_version new = mf_version old + 1 \<and> mf_attempt new = mf_attempt old \<and>
     known (\<lambda>l. tr_clock s < l) (mf_lease old) \<and> aged s old \<and>
     known (\<lambda>t. known (\<lambda>f. f + 30 * day_ms \<le> t) (mf_failed old) \<and> recent s t) (mf_purged new) \<and>
     entries_of s (manifest_key old) = [] \<and> unreferenced s old"

definition transition_ok :: "tree_db \<Rightarrow> manifest_row \<Rightarrow> manifest_row \<Rightarrow> bool" where
  "transition_ok s old new \<longleftrightarrow> mf_descriptor new = mf_descriptor old \<and>
     (completes s old new \<or> fails s old new \<or> claims_purge s old new \<or> reclaims_purge s old new \<or>
      defers_purge s old new \<or> purges s old new)"

definition staging_at :: "tree_db \<Rightarrow> ustring \<times> ustring \<Rightarrow> bool" where
  "staging_at s k \<longleftrightarrow> list_ex (\<lambda>r. manifest_key r = k \<and> mf_status r = Staging) (tr_manifests s)"

text \<open>\<open>github_tree_manifest_entries_no_delete\<close>.\<close>

definition purge_chunk_recorded :: "tree_db \<Rightarrow> manifest_row \<Rightarrow> bool" where
  "purge_chunk_recorded s r \<longleftrightarrow> list_ex (\<lambda>v. (le_project v, le_manifest v) = manifest_key r \<and>
     le_type v = PurgeChunkEvent \<and> le_version v = mf_version r) (tr_events s)"

definition entry_deletable :: "tree_db \<Rightarrow> ustring \<times> ustring \<Rightarrow> bool" where
  "entry_deletable s k \<longleftrightarrow> fst k \<in> set (tr_synthetic s) \<or>
     list_ex (\<lambda>r. manifest_key r = k \<and> mf_status r = Purging \<and> mf_token r \<noteq> None \<and>
       known (\<lambda>l. tr_clock s < l) (mf_lease r) \<and> aged s r \<and> purge_chunk_recorded s r \<and> unreferenced s r) (tr_manifests s)"

section \<open>Statements\<close>

text \<open>Keys of \<open>github_tree_manifests\<close>: the identifier, and the collection of a ref.\<close>

definition manifest_conflict :: "tree_descriptor \<Rightarrow> manifest_row \<Rightarrow> bool" where
  "manifest_conflict d r \<longleftrightarrow> td_id (mf_descriptor r) = td_id d \<or>
     (td_project (mf_descriptor r) = td_project d \<and> td_repository (mf_descriptor r) = td_repository d \<and>
      td_ref (mf_descriptor r) = td_ref d \<and> td_collection (mf_descriptor r) = td_collection d)"

definition staging_row :: "tree_descriptor \<Rightarrow> manifest_row" where
  "staging_row d = \<lparr>mf_descriptor = d, mf_status = Staging, mf_count = None, mf_checksum = None, mf_completed = None,
     mf_failed = None, mf_failure = None, mf_version = 0, mf_attempt = 0, mf_next = None, mf_token = None,
     mf_lease = None, mf_purged = None\<rparr>"

definition check_failed :: thrown where
  "check_failed = Other (str ''CHECK constraint failed'')"

definition foreign_key_failed :: thrown where
  "foreign_key_failed = Other (str ''FOREIGN KEY constraint failed'')"

definition insert_manifest :: "tree_descriptor \<Rightarrow> tree_db \<Rightarrow> thrown + tree_db \<times> nat" where
  "insert_manifest d s =
     (if \<not> manifest_check (staging_row d) then Inl check_failed
      else if list_ex (manifest_conflict d) (tr_manifests s) then Inr (s, 0)
      else if (td_project d, td_repository d) \<notin> set (tr_repositories s) then Inl foreign_key_failed
      else Inr (s\<lparr>tr_manifests := tr_manifests s @ [staging_row d]\<rparr>, 1))"

definition add_entry :: "ustring \<times> ustring \<Rightarrow> tree_entry \<Rightarrow> tree_db \<Rightarrow> tree_db" where
  "add_entry k e s = (if te_digest e \<in> set (map te_digest (entries_of s k)) then s
     else s\<lparr>tr_entries := tr_entries s @ [(fst k, snd k, e)]\<rparr>)"

definition insert_entries :: "ustring \<times> ustring \<Rightarrow> tree_entry list \<Rightarrow> tree_db \<Rightarrow> thrown + tree_db \<times> unit" where
  "insert_entries k es s =
     (if es \<noteq> [] \<and> \<not> staging_at s k
      then Inl (trigger_abort ''GitHub tree manifest entries require a staging manifest'')
      else if \<not> list_all entry_check es then Inl check_failed
      else Inr (fold (add_entry k) es s, ()))"

definition update_manifests :: "(manifest_row \<Rightarrow> bool) \<Rightarrow> (manifest_row \<Rightarrow> manifest_row) \<Rightarrow> tree_db \<Rightarrow>
    thrown + tree_db \<times> nat" where
  "update_manifests w f s =
     (let hits = filter w (tr_manifests s)
      in if \<not> list_all (\<lambda>r. transition_ok s r (f r)) hits
         then Inl (trigger_abort ''GitHub tree manifest state transition is invalid'')
         else if \<not> list_all (\<lambda>r. manifest_check (f r)) hits then Inl check_failed
         else Inr (s\<lparr>tr_manifests := update_where w f (tr_manifests s)\<rparr>, length hits))"

text \<open>
  Lifecycle events: \<open>github_tree_manifest_lifecycle_insert_guard\<close> compares an event with the row of its
  manifest, and nothing updates an event.
\<close>

definition event_of_row :: "lifecycle_event \<Rightarrow> manifest_row \<Rightarrow> bool" where
  "event_of_row v r \<longleftrightarrow> manifest_key r = (le_project v, le_manifest v) \<and>
     mf_failure r \<noteq> None \<and> mf_failure r = le_failure v \<and> mf_count r \<noteq> None \<and> mf_count r = le_count v \<and>
     mf_checksum r \<noteq> None \<and> mf_checksum r = le_checksum v \<and> mf_version r = le_version v \<and>
     (case le_type v of
        FailedEvent \<Rightarrow> mf_status r = Failed \<and> le_recorded v = mf_failed r
      | PurgeChunkEvent \<Rightarrow> mf_status r = Purging
      | PurgedEvent \<Rightarrow> mf_status r = Purged \<and> le_recorded v = mf_purged r)"

definition event_guard :: "tree_db \<Rightarrow> lifecycle_event \<Rightarrow> bool" where
  "event_guard s v \<longleftrightarrow> known (recent s) (le_recorded v) \<and> list_ex (event_of_row v) (tr_manifests s)"

definition event_check :: "lifecycle_event \<Rightarrow> bool" where
  "event_check v \<longleftrightarrow> digest_text (le_id v) \<and> opt_all digest_text (le_checksum v) \<and> digest_text (le_request v) \<and>
     (if le_type v = PurgeChunkEvent
      then known (\<lambda>n. 1 \<le> n \<and> n \<le> 500) (le_chunk_count v) \<and> known digest_text (le_chunk v)
      else le_chunk_count v = None \<and> le_chunk v = None)"

definition insert_event :: "lifecycle_event \<Rightarrow> tree_db \<Rightarrow> thrown + tree_db \<times> nat" where
  "insert_event v s =
     (if \<not> event_guard s v then Inl (trigger_abort ''GitHub tree manifest lifecycle event is invalid'')
      else if \<not> event_check v then Inl check_failed
      else if le_id v \<in> set (map le_id (tr_events s)) then Inl (Other (str ''UNIQUE constraint failed''))
      else Inr (s\<lparr>tr_events := tr_events s @ [v]\<rparr>, 1))"

definition delete_entries :: "(ustring \<times> ustring \<times> tree_entry \<Rightarrow> bool) \<Rightarrow> tree_db \<Rightarrow> thrown + tree_db \<times> nat" where
  "delete_entries w s =
     (let hits = filter w (tr_entries s)
      in if list_all (\<lambda>(p, i, e). entry_deletable s (p, i)) hits
         then Inr (s\<lparr>tr_entries := filter (\<lambda>x. \<not> w x) (tr_entries s)\<rparr>, length hits)
         else Inl (trigger_abort ''GitHub tree manifest entries are immutable''))"

section \<open>Steps\<close>

inductive tree_step :: "tree_db \<Rightarrow> tree_db \<Rightarrow> bool" where
  manifest: "\<not> list_ex (manifest_conflict d) (tr_manifests s) \<Longrightarrow>
    tree_step s (s\<lparr>tr_manifests := tr_manifests s @ [staging_row d]\<rparr>)"
| entry: "staging_at s k \<Longrightarrow> te_digest e \<notin> set (map te_digest (entries_of s k)) \<Longrightarrow>
    tree_step s (s\<lparr>tr_entries := tr_entries s @ [(fst k, snd k, e)]\<rparr>)"
| transition: "update_manifests w f s = Inr (s', n) \<Longrightarrow> tree_step s s'"
| delete_entries: "\<forall>x\<in>set (tr_entries s). \<not> keep x \<longrightarrow> entry_deletable s (fst x, fst (snd x)) \<Longrightarrow>
    tree_step s (s\<lparr>tr_entries := filter keep (tr_entries s)\<rparr>)"
| cleanup: "\<forall>r\<in>set (tr_manifests s). \<not> keep r \<longrightarrow> fst (manifest_key r) \<in> set (tr_synthetic s) \<Longrightarrow>
    tree_step s (s\<lparr>tr_manifests := filter keep (tr_manifests s)\<rparr>)"
| event: "insert_event v s = Inr (s', n) \<Longrightarrow> tree_step s s'"
| cleanup_events: "\<forall>v\<in>set (tr_events s). \<not> keep v \<longrightarrow> le_project v \<in> set (tr_synthetic s) \<Longrightarrow>
    tree_step s (s\<lparr>tr_events := filter keep (tr_events s)\<rparr>)"
| refs: "tree_step s (s\<lparr>tr_references := ks\<rparr>)"
| repositories: "tree_step s (s\<lparr>tr_repositories := ks\<rparr>)"
| runs: "tree_step s (s\<lparr>tr_runs := rs\<rparr>)"
| cursors: "tree_step s (s\<lparr>tr_cursors := cs\<rparr>)"
| tick: "tr_clock s \<le> now \<Longrightarrow> tree_step s (s\<lparr>tr_clock := now\<rparr>)"

section \<open>What every step keeps\<close>

text \<open>Keys are unique, and a complete manifest counts its entries, none of them partial.\<close>

definition counted :: "tree_db \<Rightarrow> manifest_row \<Rightarrow> bool" where
  "counted s r \<longleftrightarrow> mf_count r = Some (length (entries_of s (manifest_key r))) \<and>
     list_all (\<lambda>e. te_disposition e \<noteq> PartialBlob) (entries_of s (manifest_key r))"

definition tree_inv :: "tree_db \<Rightarrow> bool" where
  "tree_inv s \<longleftrightarrow> distinct (map manifest_key (tr_manifests s)) \<and>
     distinct (map (\<lambda>(p, i, e). (p, i, te_digest e)) (tr_entries s)) \<and>
     (\<forall>r\<in>set (tr_manifests s). mf_status r = Complete \<longrightarrow> fst (manifest_key r) \<notin> set (tr_synthetic s) \<longrightarrow> counted s r)"

lemma key_unique: "tree_inv s \<Longrightarrow> r \<in> set (tr_manifests s) \<Longrightarrow> q \<in> set (tr_manifests s) \<Longrightarrow>
    manifest_key r = manifest_key q \<Longrightarrow> r = q"
  by (auto simp: tree_inv_def distinct_map dest: inj_onD)

lemma manifest_at_iff: "tree_inv s \<Longrightarrow> manifest_at s k = Some r \<longleftrightarrow> r \<in> set (tr_manifests s) \<and> manifest_key r = k"
proof
  assume "manifest_at s k = Some r"
  then show "r \<in> set (tr_manifests s) \<and> manifest_key r = k" by (auto simp: manifest_at_def find_Some_iff)
next
  assume inv: "tree_inv s" and r: "r \<in> set (tr_manifests s) \<and> manifest_key r = k"
  then obtain q where q: "manifest_at s k = Some q"
    by (cases "manifest_at s k") (auto simp: manifest_at_def find_None_iff)
  then have "q \<in> set (tr_manifests s) \<and> manifest_key q = k" by (auto simp: manifest_at_def find_Some_iff)
  with key_unique [OF inv] r q show "manifest_at s k = Some r" by metis
qed

lemma set_entries_of: "set (entries_of s k) = {e. (fst k, snd k, e) \<in> set (tr_entries s)}"
  by (cases k) (force simp: entries_of_def)

lemma entries_of_append: "entries_of (s\<lparr>tr_entries := tr_entries s @ [(p, i, e)]\<rparr>) k =
    (if (p, i) = k then entries_of s k @ [e] else entries_of s k)"
  by (simp add: entries_of_def)

lemma entries_of_kept:
  assumes "\<forall>x\<in>set (tr_entries s). (fst x, fst (snd x)) = k \<longrightarrow> keep x"
  shows "entries_of (s\<lparr>tr_entries := filter keep (tr_entries s)\<rparr>) k = entries_of s k"
proof -
  have "filter (\<lambda>(p, i, e). (p, i) = k) (filter keep xs) = filter (\<lambda>(p, i, e). (p, i) = k) xs"
    if "set xs \<subseteq> set (tr_entries s)" for xs
    using that assms by (induction xs) auto
  then show ?thesis by (simp add: entries_of_def)
qed

lemma entries_of_others [simp]:
  "entries_of (s\<lparr>tr_manifests := a\<rparr>) = entries_of s" "entries_of (s\<lparr>tr_events := b\<rparr>) = entries_of s"
  "entries_of (s\<lparr>tr_references := c\<rparr>) = entries_of s" "entries_of (s\<lparr>tr_clock := d\<rparr>) = entries_of s"
  "entries_of (s\<lparr>tr_repositories := ks\<rparr>) = entries_of s" "entries_of (s\<lparr>tr_runs := rs\<rparr>) = entries_of s"
  "entries_of (s\<lparr>tr_cursors := cs\<rparr>) = entries_of s"
  by (simp_all add: entries_of_def fun_eq_iff)

lemma insert_event_Inr:
  "insert_event v s = Inr (s', n) \<Longrightarrow> s' = s\<lparr>tr_events := tr_events s @ [v]\<rparr> \<and> n = 1 \<and> event_guard s v"
  by (auto simp: insert_event_def split: if_splits)

lemma update_manifests_Inr:
  assumes "update_manifests w f s = Inr (s', n)"
  shows "s' = s\<lparr>tr_manifests := update_where w f (tr_manifests s)\<rparr>" "n = length (filter w (tr_manifests s))"
    "r \<in> set (tr_manifests s) \<Longrightarrow> w r \<Longrightarrow> transition_ok s r (f r)"
  using assms by (auto simp: update_manifests_def Let_def list_all_iff split: if_splits)

lemma transition_key: "transition_ok s r q \<Longrightarrow> manifest_key q = manifest_key r"
  by (simp add: transition_ok_def manifest_key_def)

text \<open>A manifest of an ordinary project stays; once complete its row is final, once failed it never
  is complete or staging again.\<close>

definition failed_status :: "manifest_status \<Rightarrow> bool" where
  "failed_status m \<longleftrightarrow> m = Failed \<or> m = Purging \<or> m = Purged"

definition follows :: "manifest_row \<Rightarrow> manifest_row \<Rightarrow> bool" where
  "follows r q \<longleftrightarrow> mf_descriptor q = mf_descriptor r \<and> (mf_status r = Complete \<longrightarrow> q = r) \<and>
     (failed_status (mf_status r) \<longrightarrow> failed_status (mf_status q))"

lemma follows_refl [simp]: "follows r r"
  by (simp add: follows_def)

lemma follows_trans: "follows r q \<Longrightarrow> follows q p \<Longrightarrow> follows r p"
  by (auto simp: follows_def)

lemma follows_key: "follows r q \<Longrightarrow> manifest_key q = manifest_key r"
  by (simp add: follows_def manifest_key_def)

lemma transition_follows: "transition_ok s r q \<Longrightarrow> follows r q"
  by (auto simp: transition_ok_def follows_def failed_status_def completes_def fails_def claims_purge_def
    reclaims_purge_def defers_purge_def purges_def)

lemma step_synthetic: "tree_step s s' \<Longrightarrow> tr_synthetic s' = tr_synthetic s"
  by (induction rule: tree_step.induct) (auto dest: update_manifests_Inr dest!: insert_event_Inr)

lemma step_row:
  assumes "tree_step s s'" "r \<in> set (tr_manifests s)" "fst (manifest_key r) \<notin> set (tr_synthetic s)"
  shows "\<exists>q\<in>set (tr_manifests s'). follows r q"
  using assms
proof (induction rule: tree_step.induct)
  case (transition w f s s' n)
  note u = update_manifests_Inr [OF transition(1)]
  have "(if w r then f r else r) \<in> set (tr_manifests s')"
    using transition(2) by (simp add: u(1) update_where_def)
  moreover have "follows r (if w r then f r else r)"
    using transition_follows [OF u(3) [OF transition(2)]] by simp
  ultimately show ?case by blast
qed (auto intro: bexI [of _ r] dest!: insert_event_Inr)

lemma steps_synthetic: "tree_step\<^sup>*\<^sup>* s s' \<Longrightarrow> tr_synthetic s' = tr_synthetic s"
  by (induction rule: rtranclp_induct) (auto dest: step_synthetic)

lemma steps_row:
  assumes "tree_step\<^sup>*\<^sup>* s s'" "r \<in> set (tr_manifests s)" "fst (manifest_key r) \<notin> set (tr_synthetic s)"
  shows "\<exists>q\<in>set (tr_manifests s'). follows r q"
  using assms
proof (induction rule: rtranclp_induct)
  case (step t u)
  then obtain q where q: "q \<in> set (tr_manifests t)" "follows r q" by blast
  with step.prems step_row [OF step.hyps(2) q(1)] show ?case
    using follows_key [OF q(2)] steps_synthetic [OF step.hyps(1)] follows_trans by metis
qed (use follows_refl in blast)

lemma step_entry_new:
  assumes "tree_step s s'" "e \<in> set (entries_of s' k)"
  shows "e \<in> set (entries_of s k) \<or> staging_at s k"
  using assms
proof (induction rule: tree_step.induct)
  case (entry s j d)
  then show ?case by (cases j) (auto simp: entries_of_append split: if_splits)
next
  case (transition w f s s' n)
  then show ?case using update_manifests_Inr(1) [OF transition(1)] by simp
next
  case (delete_entries s keep)
  then show ?case by (simp add: set_entries_of)
qed (auto dest!: insert_event_Inr)

lemma step_entries:
  assumes "tree_step s s'" "\<not> staging_at s k" "\<not> entry_deletable s k"
  shows "entries_of s' k = entries_of s k"
  using assms
proof (induction rule: tree_step.induct)
  case (entry s j d)
  then show ?case by (cases j) (auto simp: entries_of_append)
next
  case (transition w f s s' n)
  then show ?case using update_manifests_Inr(1) [OF transition(1)] by simp
next
  case (delete_entries s keep)
  then show ?case by (intro entries_of_kept) auto
qed (auto dest!: insert_event_Inr)

lemma step_entry_kept:
  assumes "tree_step s s'" "e \<in> set (entries_of s k)" "\<not> entry_deletable s k"
  shows "e \<in> set (entries_of s' k)"
  using assms
proof (induction rule: tree_step.induct)
  case (entry s j d)
  then show ?case by (cases j) (auto simp: entries_of_append)
next
  case (transition w f s s' n)
  then show ?case using update_manifests_Inr(1) [OF transition(1)] by simp
next
  case (delete_entries s keep)
  then have "entries_of (s\<lparr>tr_entries := filter keep (tr_entries s)\<rparr>) k = entries_of s k"
    by (intro entries_of_kept) auto
  with delete_entries show ?case by simp
qed (auto dest!: insert_event_Inr)

section \<open>The invariant\<close>

lemma not_staging:
  assumes "tree_inv s" "r \<in> set (tr_manifests s)" "manifest_key r = k" "mf_status r \<noteq> Staging"
  shows "\<not> staging_at s k"
  using assms key_unique [OF assms(1)] by (fastforce simp: staging_at_def list_ex_iff)

lemma not_deletable:
  assumes "tree_inv s" "r \<in> set (tr_manifests s)" "manifest_key r = k" "mf_status r \<noteq> Purging"
    "fst k \<notin> set (tr_synthetic s)"
  shows "\<not> entry_deletable s k"
  using assms key_unique [OF assms(1)] by (fastforce simp: entry_deletable_def list_ex_iff)

lemma counted_step:
  assumes "tree_inv s" "tree_step s s'" "r \<in> set (tr_manifests s)" "mf_status r = Complete"
    "fst (manifest_key r) \<notin> set (tr_synthetic s)"
  shows "entries_of s' (manifest_key r) = entries_of s (manifest_key r)"
  by (rule step_entries [OF assms(2)])
    (use not_staging [OF assms(1,3)] not_deletable [OF assms(1,3) _ _ assms(5)] assms(4) in auto)

lemma keys_of_transition:
  assumes "\<And>r. r \<in> set rows \<Longrightarrow> w r \<Longrightarrow> manifest_key (f r) = manifest_key r"
  shows "map manifest_key (update_where w f rows) = map manifest_key rows"
  using assms by (auto simp: update_where_def)

lemma tree_inv_step:
  assumes "tree_step s s'" "tree_inv s"
  shows "tree_inv s'"
proof -
  have keys: "distinct (map manifest_key (tr_manifests s'))"
    using assms
  proof (induction rule: tree_step.induct)
    case (manifest d s)
    have "manifest_key (staging_row d) \<notin> manifest_key ` set (tr_manifests s)"
      using manifest(1) by (auto simp: manifest_key_def staging_row_def list_ex_iff manifest_conflict_def)
    with manifest(2) show ?case by (simp add: tree_inv_def)
  next
    case (transition w f s s' n)
    note u = update_manifests_Inr [OF transition(1)]
    have "map manifest_key (tr_manifests s') = map manifest_key (tr_manifests s)"
      using keys_of_transition [of "tr_manifests s" w f] transition_key u(3) by (auto simp: u(1))
    with transition(2) show ?case by (simp add: tree_inv_def)
  qed (auto simp: tree_inv_def distinct_map_filter dest!: insert_event_Inr)
  have entries: "distinct (map (\<lambda>(p, i, e). (p, i, te_digest e)) (tr_entries s'))"
    using assms
  proof (induction rule: tree_step.induct)
    case (entry s k e)
    then have "(fst k, snd k, te_digest e) \<notin> (\<lambda>(p, i, e). (p, i, te_digest e)) ` set (tr_entries s)"
      by (force simp: set_entries_of)
    with entry show ?case by (simp add: tree_inv_def)
  next
    case (transition w f s s' n)
    then show ?case using update_manifests_Inr(1) [OF transition(1)] by (simp add: tree_inv_def)
  qed (auto simp: tree_inv_def distinct_map_filter dest!: insert_event_Inr)
  have "counted s' q" if q: "q \<in> set (tr_manifests s')" "mf_status q = Complete" "fst (manifest_key q) \<notin> set (tr_synthetic s')" for q
  proof (cases "q \<in> set (tr_manifests s)")
    case True
    have "fst (manifest_key q) \<notin> set (tr_synthetic s)" using q(3) step_synthetic [OF assms(1)] by simp
    with counted_step [OF assms(2,1) True q(2)] assms(2) True q(2) show ?thesis
      by (simp add: counted_def tree_inv_def)
  next
    case False
    from assms(1) q(1,2) False show ?thesis
    proof (induction rule: tree_step.induct)
      case (transition w f s s' n)
      note u = update_manifests_Inr [OF transition(1)]
      from transition(2,4) obtain r where r: "r \<in> set (tr_manifests s)" "w r" "q = f r"
        by (auto simp: u(1) update_where_def split: if_splits)
      have t: "transition_ok s r q" using u(3) [OF r(1,2)] r(3) by simp
      then have "completes s r q"
        using transition(3) by (auto simp: transition_ok_def fails_def claims_purge_def reclaims_purge_def defers_purge_def purges_def)
      with transition_key [OF t] show ?case by (simp add: u(1) counted_def completes_def)
    qed (auto simp: staging_row_def dest!: insert_event_Inr)
  qed
  with keys entries show ?thesis by (simp add: tree_inv_def)
qed

lemma tree_inv_steps: "tree_step\<^sup>*\<^sup>* s s' \<Longrightarrow> tree_inv s \<Longrightarrow> tree_inv s'"
  by (induction rule: rtranclp_induct) (auto dest: tree_inv_step)

section \<open>Runs\<close>

text \<open>A complete manifest of an ordinary project is final: its row and its entries never change.\<close>

lemma complete_final:
  assumes "tree_step\<^sup>*\<^sup>* s s'" "tree_inv s" "r \<in> set (tr_manifests s)" "mf_status r = Complete"
    "fst (manifest_key r) \<notin> set (tr_synthetic s)"
  shows "r \<in> set (tr_manifests s') \<and> entries_of s' (manifest_key r) = entries_of s (manifest_key r)"
  using assms
proof (induction rule: rtranclp_induct)
  case (step t u)
  then have t: "r \<in> set (tr_manifests t)" "entries_of t (manifest_key r) = entries_of s (manifest_key r)"
    and inv: "tree_inv t" and syn: "fst (manifest_key r) \<notin> set (tr_synthetic t)"
    using tree_inv_steps steps_synthetic by (auto dest: steps_synthetic)
  from step_row [OF step.hyps(2) t(1) syn] step.prems(3) have "r \<in> set (tr_manifests u)"
    by (auto simp: follows_def)
  with counted_step [OF inv step.hyps(2) t(1) step.prems(3) syn] t(2) show ?case by simp
qed simp

text \<open>An entry seen at any time is still there while the manifest is staging.\<close>

lemma staging_keeps_entries:
  assumes "tree_step\<^sup>*\<^sup>* s s'" "tree_inv s" "fst k \<notin> set (tr_synthetic s)" "staging_at s' k" "e \<in> set (entries_of s k)"
  shows "e \<in> set (entries_of s' k)"
  using assms
proof (induction rule: converse_rtranclp_induct)
  case (step t u)
  have "tree_step\<^sup>*\<^sup>* t s'" using step.hyps by (rule converse_rtranclp_into_rtranclp)
  then have inv: "tree_inv s'" using step.prems(1) by (rule tree_inv_steps)
  have "\<not> entry_deletable t k"
  proof
    assume "entry_deletable t k"
    then obtain r where r: "r \<in> set (tr_manifests t)" "manifest_key r = k" "mf_status r = Purging"
      using step.prems(2) by (auto simp: entry_deletable_def list_ex_iff)
    have "tree_step\<^sup>*\<^sup>* t s'" using step.hyps by simp
    from steps_row [OF this r(1)] r(2) step.prems(2) obtain q where q: "q \<in> set (tr_manifests s')" "follows r q" by auto
    then have "failed_status (mf_status q)" using r(3) by (simp add: follows_def failed_status_def)
    moreover have "manifest_key q = k" using follows_key [OF q(2)] r(2) by simp
    ultimately show False using not_staging [OF inv q(1)] step.prems(3) by (auto simp: failed_status_def)
  qed
  from step_entry_kept [OF step.hyps(1) step.prems(4) this] step show ?case
    using tree_inv_step step_synthetic by metis
qed

end
