(* ===== verification/Tree_Manifest.thy ===== *)
theory Tree_Manifest
  imports Tree_Store "HOL-Library.Multiset"
begin

text \<open>
  Collecting a tree manifest (\<open>src/github/tree-manifest.ts\<close>): it is begun, its entries are
  stored in batches, and it is completed once the stored entries are the collected ones. Between
  two D1 calls other writers may make any change the triggers allow. \<open>gl_collate\<close> is the key
  by which \<open>localeCompare\<close> orders texts, \<open>gl_iso\<close> is \<open>Date.prototype.toISOString\<close>.
\<close>

record tree_lib =
  gl_sha256 :: "ustring \<Rightarrow> ustring"
  gl_collate :: "ustring \<Rightarrow> nat list"
  gl_iso :: "int \<Rightarrow> ustring"

fun code_text :: "sync_error_code \<Rightarrow> ustring" where
  "code_text AuthorizationRequired = str ''GITHUB_AUTHORIZATION_REQUIRED''"
| "code_text CredentialExpired = str ''GITHUB_CREDENTIAL_EXPIRED''"
| "code_text SsoRequired = str ''GITHUB_SSO_REQUIRED''"
| "code_text ClassicPatBlocked = str ''GITHUB_CLASSIC_PAT_BLOCKED''"
| "code_text PermissionInsufficient = str ''GITHUB_PERMISSION_INSUFFICIENT''"
| "code_text RepositoryUnavailable = str ''GITHUB_REPOSITORY_UNAVAILABLE''"
| "code_text GithubRateLimited = str ''GITHUB_RATE_LIMITED''"
| "code_text PartialSync = str ''GITHUB_PARTIAL_SYNC''"
| "code_text ReconciliationRequired = str ''GITHUB_RECONCILIATION_REQUIRED''"

definition sync_error :: "sync_error_code \<Rightarrow> thrown" where
  "sync_error c = Other (code_text c)"

definition reconciliationRequired :: thrown where
  "reconciliationRequired = sync_error ReconciliationRequired"

fun disposition_name :: "disposition \<Rightarrow> ustring" where
  "disposition_name TextBlob = str ''text''"
| "disposition_name BinaryExcluded = str ''binary_excluded''"
| "disposition_name GeneratedExcluded = str ''generated_excluded''"
| "disposition_name SensitiveTombstone = str ''sensitive_tombstone''"
| "disposition_name PartialBlob = str ''partial''"

section \<open>Descriptors\<close>

definition buildGitHubTreeManifestDescriptor :: "tree_lib \<Rightarrow> tree_descriptor \<Rightarrow> tree_descriptor" where
  "buildGitHubTreeManifestDescriptor L d =
     d\<lparr>td_id := gl_sha256 L (join_with 10 [str ''github.tree.manifest'', td_project d, td_repository d, td_ref d,
         td_observed d, td_tree d, td_collection d])\<rparr>"

definition descriptor_key :: "tree_descriptor \<Rightarrow> ustring \<times> ustring" where
  "descriptor_key d = (td_project d, td_id d)"

text \<open>All but the time of creation.\<close>

definition sameManifestIdentity :: "manifest_row \<Rightarrow> tree_descriptor \<Rightarrow> bool" where
  "sameManifestIdentity r d \<longleftrightarrow> mf_descriptor r = d\<lparr>td_created := td_created (mf_descriptor r)\<rparr>"

definition storedManifestFailure :: "manifest_row \<Rightarrow> thrown" where
  "storedManifestFailure r =
     (case mf_failure r of
        Some c \<Rightarrow> if mf_status r = Failed \<or> mf_status r = Purging \<or> mf_status r = Purged then sync_error c
          else reconciliationRequired
      | None \<Rightarrow> reconciliationRequired)"

section \<open>Entries\<close>

definition entry_valid :: "tree_entry \<Rightarrow> bool" where
  "entry_valid e \<longleftrightarrow> digest_text (te_digest e) \<and> sha_text (te_sha e) \<and> is_safe_integer (te_size e) \<and> 0 \<le> te_size e \<and>
     opt_all safe_path (te_path e) \<and> (te_disposition e = SensitiveTombstone \<longrightarrow> te_path e = None)"

fun adjacent_differ :: "'a list \<Rightarrow> bool" where
  "adjacent_differ (x # y # ys) \<longleftrightarrow> x \<noteq> y \<and> adjacent_differ (y # ys)"
| "adjacent_differ _ \<longleftrightarrow> True"

definition normalizeEntries :: "tree_lib \<Rightarrow> tree_entry list \<Rightarrow> thrown + tree_entry list" where
  "normalizeEntries L es =
     (let sorted = sort_key (\<lambda>e. gl_collate L (te_digest e)) es
      in if list_all entry_valid es \<and> adjacent_differ (map te_digest sorted) then Inr sorted
         else Inl reconciliationRequired)"

definition entry_json :: "tree_entry \<Rightarrow> json list" where
  "entry_json e = [JStr (te_digest e), json_opt (te_path e), JStr (te_sha e), JNum (te_size e),
     JStr (disposition_name (te_disposition e))]"

definition entry_row_text :: "tree_entry \<Rightarrow> ustring" where
  "entry_row_text e = serialize (JArr (entry_json e))"

definition entriesChecksum :: "tree_lib \<Rightarrow> tree_entry list \<Rightarrow> thrown + ustring" where
  "entriesChecksum L es = bind_res (normalizeEntries L es) (\<lambda>ns. Inr (gl_sha256 L (join_with 10 (map entry_row_text ns))))"

section \<open>Payloads\<close>

definition ENTRY_BATCH_SIZE :: nat where "ENTRY_BATCH_SIZE = 500"
definition ENTRY_BATCH_BYTES :: nat where "ENTRY_BATCH_BYTES = 256 * 1024"
definition ENTRY_PAGE_SIZE :: nat where "ENTRY_PAGE_SIZE = 500"

text \<open>A payload is the JSON array of the rows of a batch.\<close>

definition payload_text :: "tree_entry list \<Rightarrow> ustring" where
  "payload_text es = str ''['' @ join_with 44 (map entry_row_text es) @ str '']''"

text \<open>\<open>rows\<close> is the open batch and \<open>bytes\<close> its size.\<close>

fun payload_loop :: "tree_entry list \<Rightarrow> nat \<Rightarrow> tree_entry list \<Rightarrow> thrown + tree_entry list list" where
  "payload_loop rows bytes [] = Inr (if rows = [] then [] else [rows])"
| "payload_loop rows bytes (e # es) =
     (let rowBytes = utf8_length (entry_row_text e); delimiter = (if rows = [] then 0 else 1)
      in if ENTRY_BATCH_BYTES < rowBytes + 2 then Inl reconciliationRequired
         else if rows \<noteq> [] \<and> (ENTRY_BATCH_SIZE \<le> length rows \<or> ENTRY_BATCH_BYTES < bytes + delimiter + rowBytes)
         then bind_res (payload_loop [e] (2 + rowBytes) es) (\<lambda>ps. Inr (rows # ps))
         else payload_loop (rows @ [e]) (bytes + (delimiter + rowBytes)) es)"

definition buildEntryPayloads :: "tree_entry list \<Rightarrow> thrown + tree_entry list list" where
  "buildEntryPayloads es = payload_loop [] 2 es"

section \<open>Reading\<close>

definition entry_page :: "ustring \<times> ustring \<Rightarrow> ustring \<Rightarrow> tree_db \<Rightarrow> tree_entry list" where
  "entry_page k after s = take ENTRY_PAGE_SIZE (sort_key te_digest (filter (\<lambda>e. after < te_digest e) (entries_of s k)))"

text \<open>
  The loop of \<open>readManifestEntries\<close>; call \<open>i\<close> reads the next page. The number of pages is
  not bounded by the code while another writer adds entries, so the loop has fuel.
\<close>

definition pages_exhausted :: thrown where
  "pages_exhausted = Other (str ''fuel'')"

fun read_pages :: "tree_db net \<Rightarrow> ustring \<times> ustring \<Rightarrow> nat \<Rightarrow> nat \<Rightarrow> ustring \<Rightarrow> tree_entry list \<Rightarrow> tree_db \<Rightarrow>
    tree_db \<times> (thrown + tree_entry list)" where
  "read_pages N k i 0 after acc db = (db, Inl pages_exhausted)"
| "read_pages N k i (Suc fuel) after acc db =
     then_do (d1_read N i (entry_page k after) db) (\<lambda>db rows.
       if length rows < ENTRY_PAGE_SIZE then (db, Inr (acc @ rows))
       else if utf16 (te_digest (last rows)) \<le> utf16 after then (db, Inl reconciliationRequired)
       else read_pages N k (Suc i) fuel (te_digest (last rows)) (acc @ rows) db)"

definition readManifestEntries :: "tree_lib \<Rightarrow> tree_db net \<Rightarrow> nat \<Rightarrow> nat \<Rightarrow> tree_descriptor \<Rightarrow> tree_db \<Rightarrow>
    tree_db \<times> (thrown + tree_entry list)" where
  "readManifestEntries L N i fuel d db =
     then_do (read_pages N (descriptor_key d) i fuel [] [] db) (\<lambda>db es. (db, normalizeEntries L es))"

definition readManifest :: "tree_db net \<Rightarrow> nat \<Rightarrow> tree_descriptor \<Rightarrow> tree_db \<Rightarrow> tree_db \<times> (thrown + manifest_row option)" where
  "readManifest N i d db = d1_read N i (\<lambda>s. manifest_at s (descriptor_key d)) db"

text \<open>The row of the descriptor's manifest.\<close>

definition read_own :: "tree_db net \<Rightarrow> nat \<Rightarrow> tree_descriptor \<Rightarrow> tree_db \<Rightarrow> tree_db \<times> (thrown + manifest_row)" where
  "read_own N i d db = then_do (readManifest N i d db) (\<lambda>db row. (db, case row of
     None \<Rightarrow> Inl reconciliationRequired
   | Some r \<Rightarrow> if sameManifestIdentity r d then Inr r else Inl reconciliationRequired))"

definition verifyCompletedManifest :: "tree_lib \<Rightarrow> tree_db net \<Rightarrow> nat \<Rightarrow> nat \<Rightarrow> tree_descriptor \<Rightarrow> tree_entry list \<Rightarrow>
    manifest_row \<Rightarrow> tree_db \<Rightarrow> tree_db \<times> (thrown + unit)" where
  "verifyCompletedManifest L N i fuel d expected r db =
     then_do (readManifestEntries L N i fuel d db) (\<lambda>db stored. (db,
       bind_res (entriesChecksum L expected) (\<lambda>expectedChecksum.
       if mf_status r \<noteq> Complete \<or> mf_count r \<noteq> Some (length expected) \<or> mf_checksum r \<noteq> Some expectedChecksum \<or>
          length stored \<noteq> length expected then Inl reconciliationRequired
       else bind_res (entriesChecksum L stored) (\<lambda>c.
         require (c = expectedChecksum) reconciliationRequired))))"

section \<open>Operations\<close>

definition beginGitHubTreeManifest :: "tree_db net \<Rightarrow> tree_descriptor \<Rightarrow> tree_db \<Rightarrow> tree_db \<times> (thrown + manifest_status)" where
  "beginGitHubTreeManifest N d db =
     then_do (d1_run N 0 (insert_manifest d) db) (\<lambda>db _.
     then_do (read_own N 1 d db) (\<lambda>db r.
       (db, if mf_status r = Staging \<or> mf_status r = Complete then Inr (mf_status r) else Inl (storedManifestFailure r))))"

fun insert_payloads :: "tree_db net \<Rightarrow> ustring \<times> ustring \<Rightarrow> nat \<Rightarrow> tree_entry list list \<Rightarrow> tree_db \<Rightarrow>
    tree_db \<times> (thrown + unit)" where
  "insert_payloads N k i [] db = (db, Inr ())"
| "insert_payloads N k i (p # ps) db =
     then_do (d1_run N i (insert_entries k p) db) (\<lambda>db _. insert_payloads N k (Suc i) ps db)"

definition persistGitHubTreeManifestEntries :: "tree_lib \<Rightarrow> tree_db net \<Rightarrow> nat \<Rightarrow> tree_descriptor \<Rightarrow> tree_entry list \<Rightarrow>
    tree_db \<Rightarrow> tree_db \<times> (thrown + unit)" where
  "persistGitHubTreeManifestEntries L N fuel d es db =
     then_do (db, normalizeEntries L es) (\<lambda>db normalized.
     then_do (read_own N 0 d db) (\<lambda>db r.
       if mf_status r = Complete then verifyCompletedManifest L N 1 fuel d normalized r db
       else if mf_status r \<noteq> Staging then (db, Inl (storedManifestFailure r))
       else then_do (db, buildEntryPayloads normalized) (\<lambda>db ps. insert_payloads N (descriptor_key d) 1 ps db)))"

definition complete_update :: "tree_descriptor \<Rightarrow> nat \<Rightarrow> ustring \<Rightarrow> int \<Rightarrow> tree_db \<Rightarrow> thrown + tree_db \<times> nat" where
  "complete_update d n checksum completedAt =
     update_manifests (\<lambda>r. manifest_key r = descriptor_key d \<and> mf_status r = Staging)
       (\<lambda>r. r\<lparr>mf_status := Complete, mf_count := Some n, mf_checksum := Some checksum, mf_completed := Some completedAt\<rparr>)"

text \<open>
  The part of \<open>completeGitHubTreeManifest\<close> for a manifest that is staging: calls 1 to \<open>fuel\<close> read
  pages, \<open>fuel + 1\<close> updates, and if another writer was first its outcome is verified.
\<close>

definition complete_staging :: "tree_lib \<Rightarrow> tree_db net \<Rightarrow> nat \<Rightarrow> tree_descriptor \<Rightarrow> tree_entry list \<Rightarrow> ustring \<Rightarrow> int \<Rightarrow>
    tree_db \<Rightarrow> tree_db \<times> (thrown + nat \<times> ustring)" where
  "complete_staging L N fuel d normalized expectedChecksum completedAt db =
     then_do (readManifestEntries L N 1 fuel d db) (\<lambda>db stored.
     then_do (db, if length stored \<noteq> length normalized then Inl reconciliationRequired
       else bind_res (entriesChecksum L stored) (\<lambda>c. require (c = expectedChecksum) reconciliationRequired)) (\<lambda>db _.
     then_do (d1_run N (fuel + 1) (complete_update d (length normalized) expectedChecksum completedAt) db) (\<lambda>db changes.
       if changes = 1 then (db, Inr (length normalized, expectedChecksum))
       else then_do (readManifest N (fuel + 2) d db) (\<lambda>db row.
         case row of
           None \<Rightarrow> (db, Inl reconciliationRequired)
         | Some completed \<Rightarrow> then_do (verifyCompletedManifest L N (fuel + 3) fuel d normalized completed db)
             (\<lambda>db _. (db, Inr (length normalized, expectedChecksum)))))))"

definition completeGitHubTreeManifest :: "tree_lib \<Rightarrow> tree_db net \<Rightarrow> nat \<Rightarrow> tree_descriptor \<Rightarrow> tree_entry list \<Rightarrow> int \<Rightarrow>
    tree_db \<Rightarrow> tree_db \<times> (thrown + nat \<times> ustring)" where
  "completeGitHubTreeManifest L N fuel d es completedAt db =
     then_do (db, normalizeEntries L es) (\<lambda>db normalized.
     if list_ex (\<lambda>e. te_disposition e = PartialBlob) normalized then (db, Inl (sync_error PartialSync))
     else then_do (db, entriesChecksum L normalized) (\<lambda>db expectedChecksum.
     then_do (read_own N 0 d db) (\<lambda>db r.
       if mf_status r = Complete
       then then_do (verifyCompletedManifest L N 1 fuel d normalized r db)
         (\<lambda>db _. (db, Inr (length normalized, expectedChecksum)))
       else if mf_status r \<noteq> Staging then (db, Inl (storedManifestFailure r))
       else complete_staging L N fuel d normalized expectedChecksum completedAt db)))"

section \<open>Normal forms\<close>

text \<open>Distinct hexadecimal texts are different to \<open>localeCompare\<close>.\<close>

definition collation_ok :: "tree_lib \<Rightarrow> bool" where
  "collation_ok L \<longleftrightarrow> inj_on (gl_collate L) {s. digest_text s}"

lemma adjacent_sorted_distinct:
  assumes "sorted (map c ys)" "adjacent_differ ys" "inj_on c (set ys)"
  shows "distinct ys"
  using assms
proof (induction ys rule: induct_list012)
  case (3 x y zs)
  have d: "distinct (y # zs)"
    by (rule 3(2)) (use 3(3,4) inj_on_subset [OF 3(5)] in auto)
  have "x \<notin> set (y # zs)"
  proof
    assume x: "x \<in> set (y # zs)"
    then have "c y \<le> c x" using 3(3) by auto
    moreover have "c x \<le> c y" using 3(3) by simp
    ultimately have "c x = c y" by simp
    then have "x = y" by (rule inj_onD [OF 3(5)]) (use x in simp_all)
    then show False using 3(4) by simp
  qed
  with d show ?case by simp
qed auto

lemma normalizeEntries_Inr:
  assumes "normalizeEntries L es = Inr ns"
  shows "mset ns = mset es" "list_all entry_valid ns" "normalizeEntries L ns = Inr ns"
    "entriesChecksum L ns = Inr (gl_sha256 L (join_with 10 (map entry_row_text ns)))"
    "collation_ok L \<Longrightarrow> distinct (map te_digest ns)"
proof -
  have ns: "ns = sort_key (\<lambda>e. gl_collate L (te_digest e)) es" "list_all entry_valid es" "adjacent_differ (map te_digest ns)"
    using assms by (auto simp: normalizeEntries_def Let_def split: if_splits)
  show m: "mset ns = mset es" by (simp add: ns(1))
  then show v: "list_all entry_valid ns" using ns(2) by (simp add: ns(1) list_all_iff)
  have s: "sorted (map (\<lambda>e. gl_collate L (te_digest e)) ns)" by (simp add: ns(1))
  show n: "normalizeEntries L ns = Inr ns"
    using v ns(3) sort_key_id_if_sorted [OF s] by (simp add: normalizeEntries_def)
  show "entriesChecksum L ns = Inr (gl_sha256 L (join_with 10 (map entry_row_text ns)))"
    by (simp add: entriesChecksum_def n)
  show "distinct (map te_digest ns)" if "collation_ok L"
  proof (rule adjacent_sorted_distinct [where c = "gl_collate L"])
    show "sorted (map (gl_collate L) (map te_digest ns))" using s by (simp add: comp_def)
    show "inj_on (gl_collate L) (set (map te_digest ns))"
      using that v by (auto simp: collation_ok_def list_all_iff entry_valid_def intro!: inj_on_subset [of _ "{s. digest_text s}"])
  qed (rule ns(3))
qed

lemma disposition_name_inj: "disposition_name a = disposition_name b \<Longrightarrow> a = b"
  by (cases a; cases b) simp_all

lemma entry_json_flat: "\<forall>j\<in>set (entry_json e). j = JNull \<or> (\<exists>n. j = JNum n) \<or> (\<exists>s. j = JStr s)"
  by (auto simp: entry_json_def json_opt_def split: option.splits)

lemma entry_row_text_line: "line (entry_row_text e)"
  unfolding entry_row_text_def by (rule flat_serialize_line [OF entry_json_flat])

lemma entry_row_text_inj: "entry_row_text a = entry_row_text b \<Longrightarrow> a = b"
proof -
  assume "entry_row_text a = entry_row_text b"
  then have "entry_json a = entry_json b"
    using serialize_array_inj [of "entry_json a" "entry_json b"] entry_json_flat [of a] entry_json_flat [of b]
    by (auto simp: entry_row_text_def)
  then show "a = b"
    using disposition_name_inj by (auto simp: entry_json_def json_opt_def split: option.splits)
qed

lemma checksum_texts_inj:
  assumes "join_with 10 (map entry_row_text xs) = join_with 10 (map entry_row_text ys)" "length xs = length ys"
  shows "xs = ys"
proof -
  have "map entry_row_text xs = map entry_row_text ys"
    by (rule join_lines_inj [OF assms(1)]) (use assms(2) entry_row_text_line in auto)
  then show ?thesis using map_injective [of entry_row_text xs ys] entry_row_text_inj by (auto simp: inj_def)
qed

section \<open>What reading sees\<close>

lemma read_pages_reaches:
  "others_step tree_step N \<Longrightarrow> read_pages N k i fuel after acc s = (s', r) \<Longrightarrow> tree_step\<^sup>*\<^sup>* s s'"
proof (induction fuel arbitrary: i after acc s)
  case (Suc fuel)
  obtain t v where v: "d1_read N i (entry_page k after) s = (t, v)" by (cases "d1_read N i (entry_page k after) s")
  then have "tree_step\<^sup>*\<^sup>* s t" by (rule d1_read_reaches [OF Suc.prems(1)])
  with Suc.IH [OF Suc.prems(1)] Suc.prems(2) v show ?case
    by (cases v) (auto intro: rtranclp_trans split: if_splits)
qed simp

lemma read_pages_seen:
  assumes "others_step tree_step N" "read_pages N k i fuel after acc s = (s', Inr es)" "e \<in> set es"
  shows "e \<in> set acc \<or> (\<exists>t. tree_step\<^sup>*\<^sup>* s t \<and> tree_step\<^sup>*\<^sup>* t s' \<and> e \<in> set (entries_of t k))"
  using assms(2,3)
proof (induction fuel arbitrary: i after acc s)
  case (Suc fuel)
  obtain t rows where t: "d1_read N i (entry_page k after) s = (t, Inr rows)"
    "(if length rows < ENTRY_PAGE_SIZE then (t, Inr (acc @ rows))
      else if utf16 (te_digest (last rows)) \<le> utf16 after then (t, Inl reconciliationRequired)
      else read_pages N k (Suc i) fuel (te_digest (last rows)) (acc @ rows) t) = (s', Inr es)"
    using Suc.prems(1) by (auto elim: then_do_Inr)
  have st: "tree_step\<^sup>*\<^sup>* s t" by (rule d1_read_reaches [OF assms(1) t(1)])
  have rows: "set rows \<subseteq> set (entries_of t k)"
    using d1_read_Inr(2) [OF t(1)] by (auto simp: entry_page_def dest: in_set_takeD)
  show ?case
  proof (cases "length rows < ENTRY_PAGE_SIZE")
    case True
    then have "es = acc @ rows" "s' = t" using t(2) by auto
    with st rows Suc.prems(2) show ?thesis by auto
  next
    case False
    then have rest: "read_pages N k (Suc i) fuel (te_digest (last rows)) (acc @ rows) t = (s', Inr es)"
      using t(2) by (auto split: if_splits)
    have ts: "tree_step\<^sup>*\<^sup>* t s'" by (rule read_pages_reaches [OF assms(1) rest])
    from Suc.IH [OF rest Suc.prems(2)] rows st ts show ?thesis
      by (auto intro: rtranclp_trans)
  qed
qed simp

lemma readManifestEntries_Inr:
  assumes "others_step tree_step N" "readManifestEntries L N i fuel d s = (s', Inr ns)"
  shows "tree_step\<^sup>*\<^sup>* s s'" "\<exists>es. normalizeEntries L es = Inr ns"
    "e \<in> set ns \<Longrightarrow> \<exists>t. tree_step\<^sup>*\<^sup>* s t \<and> tree_step\<^sup>*\<^sup>* t s' \<and> e \<in> set (entries_of t (descriptor_key d))"
proof -
  obtain es where es: "read_pages N (descriptor_key d) i fuel [] [] s = (s', Inr es)" "normalizeEntries L es = Inr ns"
    using assms(2) unfolding readManifestEntries_def by (auto elim!: then_do_Inr)
  show "tree_step\<^sup>*\<^sup>* s s'" by (rule read_pages_reaches [OF assms(1) es(1)])
  show "\<exists>es. normalizeEntries L es = Inr ns" using es(2) by blast
  assume "e \<in> set ns"
  then have "e \<in> set es" using normalizeEntries_Inr(1) [OF es(2)] by (metis set_mset_mset)
  from read_pages_seen [OF assms(1) es(1) this]
  show "\<exists>t. tree_step\<^sup>*\<^sup>* s t \<and> tree_step\<^sup>*\<^sup>* t s' \<and> e \<in> set (entries_of t (descriptor_key d))" by simp
qed

lemma read_own_Inr:
  assumes "others_step tree_step N" "read_own N i d s = (s', Inr r)"
  shows "tree_step\<^sup>*\<^sup>* s s'" "manifest_at s' (descriptor_key d) = Some r" "sameManifestIdentity r d"
proof -
  have *: "d1_read N i (\<lambda>s. manifest_at s (descriptor_key d)) s = (s', Inr (Some r)) \<and> sameManifestIdentity r d"
    using assms(2) unfolding read_own_def readManifest_def
    by (auto elim!: then_do_Inr split: option.splits if_splits)
  then show "sameManifestIdentity r d" by simp
  show "tree_step\<^sup>*\<^sup>* s s'" using d1_read_reaches [OF assms(1)] * by blast
  show "manifest_at s' (descriptor_key d) = Some r" using d1_read_Inr(2) * by metis
qed

section \<open>Completion\<close>

definition holds_manifest :: "tree_db \<Rightarrow> ustring \<times> ustring \<Rightarrow> tree_entry list \<Rightarrow> bool" where
  "holds_manifest s k es \<longleftrightarrow>
     list_ex (\<lambda>r. manifest_key r = k \<and> mf_status r = Complete \<and> mf_count r = Some (length es)) (tr_manifests s) \<and>
     mset (entries_of s k) = mset es"

definition checksum_text :: "tree_lib \<Rightarrow> tree_entry list \<Rightarrow> ustring" where
  "checksum_text L es = join_with 10 (map entry_row_text (sort_key (\<lambda>e. gl_collate L (te_digest e)) es))"

definition no_collision :: "tree_lib \<Rightarrow> ustring \<Rightarrow> bool" where
  "no_collision L t \<longleftrightarrow> (\<forall>x. gl_sha256 L x = gl_sha256 L t \<longrightarrow> x = t)"

text \<open>SHA-256 is given in lower-case hexadecimal.\<close>

definition hash_ok :: "tree_lib \<Rightarrow> bool" where
  "hash_ok L \<longleftrightarrow> (\<forall>x. digest_text (gl_sha256 L x))"

lemma completed_check:
  assumes "manifest_check (staging_row d)" "hash_ok L"
  shows "manifest_check ((staging_row d)\<lparr>mf_status := Complete, mf_count := Some n, mf_checksum := Some (gl_sha256 L x),
    mf_completed := Some at\<rparr>)"
  using assms by (simp add: manifest_check_def status_check_def staging_row_def hash_ok_def)

lemma checksum_text_normalized:
  assumes "normalizeEntries L es = Inr ns"
  shows "checksum_text L es = join_with 10 (map entry_row_text ns)"
  using assms by (auto simp: normalizeEntries_def checksum_text_def Let_def split: if_splits)

lemma same_checksum_same_entries:
  assumes "normalizeEntries L es = Inr ns" "normalizeEntries L fs = Inr stored" "no_collision L (checksum_text L es)"
    "entriesChecksum L stored = entriesChecksum L ns" "length stored = length ns"
  shows "stored = ns"
proof -
  have "gl_sha256 L (join_with 10 (map entry_row_text stored)) = gl_sha256 L (join_with 10 (map entry_row_text ns))"
    using assms(4) normalizeEntries_Inr(4) [OF assms(1)] normalizeEntries_Inr(4) [OF assms(2)] by simp
  then have "join_with 10 (map entry_row_text stored) = join_with 10 (map entry_row_text ns)"
    using assms(3) checksum_text_normalized [OF assms(1)] by (simp add: no_collision_def)
  then show ?thesis by (rule checksum_texts_inj [OF _ assms(5)])
qed

lemma all_and_no_more:
  assumes "set ns \<subseteq> set E" "distinct (map te_digest ns)" "length E = length ns"
  shows "mset E = mset ns"
proof -
  have d: "distinct ns" using assms(2) by (simp add: distinct_map)
  have "card (set E) \<le> card (set ns)" using card_length [of E] distinct_card [OF d] assms(3) by simp
  then have e: "set E = set ns" using assms(1) card_seteq [of "set E" "set ns"] by auto
  then have "distinct E" using assms(3) distinct_card [OF d] by (simp add: card_distinct)
  with d e show ?thesis by (simp add: set_eq_iff_mset_eq_distinct)
qed

lemma holds_manifest_final:
  assumes "tree_step\<^sup>*\<^sup>* s s'" "tree_inv s" "fst k \<notin> set (tr_synthetic s)" "holds_manifest s k es"
  shows "holds_manifest s' k es"
proof -
  obtain r where r: "r \<in> set (tr_manifests s)" "manifest_key r = k" "mf_status r = Complete" "mf_count r = Some (length es)"
    using assms(4) by (auto simp: holds_manifest_def list_ex_iff)
  from complete_final [OF assms(1,2) r(1,3)] r assms(3,4) show ?thesis
    by (auto simp: holds_manifest_def list_ex_iff)
qed

lemma verify_sound:
  assumes "others_step tree_step N" "tree_inv s" "td_project d \<notin> set (tr_synthetic s)" "collation_ok L"
    "normalizeEntries L es = Inr ns" "no_collision L (checksum_text L es)"
    "r \<in> set (tr_manifests s)" "manifest_key r = descriptor_key d"
    "verifyCompletedManifest L N i fuel d ns r s = (s', Inr ())"
  shows "tree_step\<^sup>*\<^sup>* s s'" "holds_manifest s' (descriptor_key d) ns"
proof -
  obtain stored where st: "readManifestEntries L N i fuel d s = (s', Inr stored)"
    "mf_status r = Complete" "mf_count r = Some (length ns)" "length stored = length ns"
    "entriesChecksum L stored = entriesChecksum L ns"
    using assms(9) normalizeEntries_Inr(4) [OF assms(5)] unfolding verifyCompletedManifest_def
    by (elim then_do_Inr) (auto simp: require_def elim!: bind_res.elims split: if_splits)
  note rd = readManifestEntries_Inr [OF assms(1) st(1)]
  show ss: "tree_step\<^sup>*\<^sup>* s s'" by (rule rd(1))
  obtain fs where "normalizeEntries L fs = Inr stored" using rd(2) by blast
  from same_checksum_same_entries [OF assms(5) this assms(6) st(5,4)] have same: "stored = ns" .
  have syn: "fst (manifest_key r) \<notin> set (tr_synthetic s)" using assms(3,8) by (simp add: descriptor_key_def)
  have "set ns \<subseteq> set (entries_of s (manifest_key r))"
  proof
    fix e assume "e \<in> set ns"
    then obtain t where t: "tree_step\<^sup>*\<^sup>* s t" "e \<in> set (entries_of t (descriptor_key d))" using rd(3) same by blast
    from complete_final [OF t(1) assms(2,7) st(2) syn] t(2) assms(8) show "e \<in> set (entries_of s (manifest_key r))" by simp
  qed
  moreover have "length (entries_of s (manifest_key r)) = length ns"
    using assms(2,7) st(2,3) syn by (auto simp: tree_inv_def counted_def)
  ultimately have "mset (entries_of s (manifest_key r)) = mset ns"
    by (intro all_and_no_more normalizeEntries_Inr(5) [OF assms(5,4)]) auto
  then have "holds_manifest s (descriptor_key d) ns"
    using assms(7,8) st(2,3) by (auto simp: holds_manifest_def list_ex_iff)
  then show "holds_manifest s' (descriptor_key d) ns"
    using holds_manifest_final [OF ss assms(2)] assms(3) by (simp add: descriptor_key_def)
qed

lemma update_completes:
  assumes "complete_update d n c at s = Inr (s', 1)"
  shows "staging_at s (descriptor_key d)" "tree_step s s'" "length (entries_of s (descriptor_key d)) = n"
    "entries_of s' (descriptor_key d) = entries_of s (descriptor_key d)"
    "list_ex (\<lambda>r. manifest_key r = descriptor_key d \<and> mf_status r = Complete \<and> mf_count r = Some n) (tr_manifests s')"
proof -
  let ?w = "\<lambda>r. manifest_key r = descriptor_key d \<and> mf_status r = Staging"
  let ?f = "\<lambda>r. r\<lparr>mf_status := Complete, mf_count := Some n, mf_checksum := Some c, mf_completed := Some at\<rparr>"
  have up: "update_manifests ?w ?f s = Inr (s', 1)" using assms by (simp add: complete_update_def)
  note u = update_manifests_Inr [OF up]
  show "tree_step s s'" by (rule tree_step.transition [OF up])
  from u(2) have "filter ?w (tr_manifests s) \<noteq> []" by auto
  then obtain r where r: "r \<in> set (tr_manifests s)" "manifest_key r = descriptor_key d" "mf_status r = Staging"
    by (auto simp: filter_empty_conv)
  then show "staging_at s (descriptor_key d)" by (auto simp: staging_at_def list_ex_iff)
  from u(3) [of r] r show "length (entries_of s (descriptor_key d)) = n"
    by (auto simp: transition_ok_def completes_def fails_def claims_purge_def reclaims_purge_def defers_purge_def purges_def)
  show "entries_of s' (descriptor_key d) = entries_of s (descriptor_key d)" by (simp add: u(1))
  have "?f r \<in> set (tr_manifests s')" using r by (auto simp: u(1) update_where_def)
  with r(2) show "list_ex (\<lambda>r. manifest_key r = descriptor_key d \<and> mf_status r = Complete \<and> mf_count r = Some n) (tr_manifests s')"
    by (auto simp: list_ex_iff manifest_key_def intro!: bexI [of _ "?f r"])
qed

lemma staging_sound:
  assumes "others_step tree_step N" "tree_inv s" "td_project d \<notin> set (tr_synthetic s)" "collation_ok L"
    "normalizeEntries L es = Inr ns" "no_collision L (checksum_text L es)"
    "readManifestEntries L N i fuel d s = (t, Inr stored)" "length stored = length ns"
    "entriesChecksum L stored = entriesChecksum L ns"
    "d1_run N j (complete_update d (length ns) c at) t = (s', Inr 1)"
  shows "tree_step\<^sup>*\<^sup>* s s'" "holds_manifest s' (descriptor_key d) ns"
proof -
  let ?k = "descriptor_key d" and ?u = "nt_before N j t"
  note rd = readManifestEntries_Inr [OF assms(1,7)]
  have tu: "tree_step\<^sup>*\<^sup>* t ?u" using assms(1) by (simp add: others_step_def)
  have su: "tree_step\<^sup>*\<^sup>* s ?u" using rd(1) tu by (rule rtranclp_trans)
  have up: "complete_update d (length ns) c at ?u = Inr (s', 1)" by (rule d1_run_Inr [OF assms(10)])
  note u = update_completes [OF up]
  show "tree_step\<^sup>*\<^sup>* s s'" using su u(2) by (rule rtranclp.rtrancl_into_rtrancl)
  obtain fs where "normalizeEntries L fs = Inr stored" using rd(2) by blast
  from same_checksum_same_entries [OF assms(5) this assms(6,9,8)] have same: "stored = ns" .
  have "set ns \<subseteq> set (entries_of ?u ?k)"
  proof
    fix e assume "e \<in> set ns"
    then obtain v where v: "tree_step\<^sup>*\<^sup>* s v" "tree_step\<^sup>*\<^sup>* v t" "e \<in> set (entries_of v ?k)" using rd(3) same by blast
    have "fst ?k \<notin> set (tr_synthetic v)" using assms(3) steps_synthetic [OF v(1)] by (simp add: descriptor_key_def)
    from staging_keeps_entries [OF rtranclp_trans [OF v(2) tu] tree_inv_steps [OF v(1) assms(2)] this u(1) v(3)]
    show "e \<in> set (entries_of ?u ?k)" .
  qed
  then have "mset (entries_of ?u ?k) = mset ns"
    by (rule all_and_no_more [OF _ normalizeEntries_Inr(5) [OF assms(5,4)] u(3)])
  with u(4,5) show "holds_manifest s' ?k ns" by (simp add: holds_manifest_def)
qed

lemma staging_holds:
  assumes "others_step tree_step N" "tree_inv s" "td_project d \<notin> set (tr_synthetic s)" "collation_ok L"
    "normalizeEntries L es = Inr ns" "no_collision L (checksum_text L es)" "entriesChecksum L ns = Inr chk"
    "complete_staging L N fuel d ns chk at s = (s', Inr (n, c))"
  shows "tree_step\<^sup>*\<^sup>* s s' \<and> n = length ns \<and> holds_manifest s' (descriptor_key d) ns"
proof -
  obtain t stored where st: "readManifestEntries L N 1 fuel d s = (t, Inr stored)" "length stored = length ns"
      "entriesChecksum L stored = entriesChecksum L ns"
    and rest: "then_do (d1_run N (fuel + 1) (complete_update d (length ns) chk at) t) (\<lambda>db changes.
       if changes = 1 then (db, Inr (length ns, chk))
       else then_do (readManifest N (fuel + 2) d db) (\<lambda>db row.
         case row of
           None \<Rightarrow> (db, Inl reconciliationRequired)
         | Some completed \<Rightarrow> then_do (verifyCompletedManifest L N (fuel + 3) fuel d ns completed db)
             (\<lambda>db _. (db, Inr (length ns, chk))))) = (s', Inr (n, c))"
    using assms(7,8) unfolding complete_staging_def
    by (elim then_do_Inr) (auto simp: require_def elim!: bind_res.elims split: if_splits)
  obtain u changes where u: "d1_run N (fuel + 1) (complete_update d (length ns) chk at) t = (u, Inr changes)"
    using rest by (elim then_do_Inr)
  show ?thesis
  proof (cases "changes = 1")
    case True
    with rest u have "u = s'" "n = length ns" by auto
    with staging_sound [OF assms(1-6) st] u True show ?thesis by simp
  next
    case False
    with rest u obtain v row where v: "readManifest N (fuel + 2) d u = (v, Inr (Some row))"
      "verifyCompletedManifest L N (fuel + 3) fuel d ns row v = (s', Inr ())" "n = length ns"
      by (auto elim!: then_do_Inr split: option.splits)
    have tu: "tree_step\<^sup>*\<^sup>* t u"
      by (rule d1_run_reaches [OF assms(1) u]) (auto simp: complete_update_def intro: tree_step.transition)
    have uv: "tree_step\<^sup>*\<^sup>* u v" "manifest_at v (descriptor_key d) = Some row"
      using v(1) d1_read_reaches [OF assms(1)] d1_read_Inr(2) unfolding readManifest_def by (blast, metis)
    have sv: "tree_step\<^sup>*\<^sup>* s v"
      using readManifestEntries_Inr(1) [OF assms(1) st(1)] tu uv(1) by (blast intro: rtranclp_trans)
    have inv: "tree_inv v" by (rule tree_inv_steps [OF sv assms(2)])
    have row: "row \<in> set (tr_manifests v)" "manifest_key row = descriptor_key d"
      using uv(2) manifest_at_iff [OF inv] by auto
    have "td_project d \<notin> set (tr_synthetic v)" using assms(3) steps_synthetic [OF sv] by simp
    from verify_sound [OF assms(1) inv this assms(4,5,6) row v(2)] sv v(3) show ?thesis
      by (auto intro: rtranclp_trans)
  qed
qed

lemma completed_holds:
  assumes "others_step tree_step N" "tree_inv s" "td_project d \<notin> set (tr_synthetic s)" "collation_ok L"
    "no_collision L (checksum_text L es)" "completeGitHubTreeManifest L N fuel d es at s = (s', Inr (n, c))"
  shows "tree_step\<^sup>*\<^sup>* s s' \<and> n = length es \<and> holds_manifest s' (descriptor_key d) es"
proof -
  obtain ns where ns: "normalizeEntries L es = Inr ns" using assms(6) unfolding completeGitHubTreeManifest_def
    by (auto elim!: then_do_Inr)
  obtain chk where chk: "entriesChecksum L ns = Inr chk" using normalizeEntries_Inr(4) [OF ns] by blast
  have m: "mset ns = mset es" by (rule normalizeEntries_Inr(1) [OF ns])
  then have len: "length ns = length es" by (metis size_mset)
  obtain t r where r: "read_own N 0 d s = (t, Inr r)"
    and rest: "(if mf_status r = Complete then then_do (verifyCompletedManifest L N 1 fuel d ns r t)
         (\<lambda>db _. (db, Inr (length ns, chk)))
      else if mf_status r \<noteq> Staging then (t, Inl (storedManifestFailure r))
      else complete_staging L N fuel d ns chk at t) = (s', Inr (n, c))"
    using assms(6) ns chk unfolding completeGitHubTreeManifest_def by (auto elim!: then_do_Inr split: if_splits)
  note own = read_own_Inr [OF assms(1) r]
  have inv: "tree_inv t" by (rule tree_inv_steps [OF own(1) assms(2)])
  have syn: "td_project d \<notin> set (tr_synthetic t)" using assms(3) steps_synthetic [OF own(1)] by simp
  have "tree_step\<^sup>*\<^sup>* t s' \<and> n = length ns \<and> holds_manifest s' (descriptor_key d) ns"
  proof (cases "mf_status r = Complete")
    case True
    with rest have v: "verifyCompletedManifest L N 1 fuel d ns r t = (s', Inr ())" "n = length ns"
      by (auto elim!: then_do_Inr)
    have "r \<in> set (tr_manifests t)" "manifest_key r = descriptor_key d"
      using own(2) manifest_at_iff [OF inv] by auto
    from verify_sound [OF assms(1) inv syn assms(4) ns assms(5) this v(1)] v(2) show ?thesis by simp
  next
    case False
    with rest have "complete_staging L N fuel d ns chk at t = (s', Inr (n, c))" by (auto split: if_splits)
    from staging_holds [OF assms(1) inv syn assms(4) ns assms(5) chk this] show ?thesis .
  qed
  with own(1) m len show ?thesis by (auto simp: holds_manifest_def intro: rtranclp_trans)
qed

text \<open>C38: Once completing a tree manifest succeeds, the manifest holds exactly the entries the caller collected,
  with their count, and stays so for ever, whatever other writers do between the code's D1 calls and
  afterwards (manifests of the synthetic canary, which the janitor deletes, aside).\<close>

theorem completed_manifest_is_exact:
  assumes "others_step tree_step N" "tree_inv s" "td_project d \<notin> set (tr_synthetic s)" "collation_ok L"
    "no_collision L (checksum_text L es)" "completeGitHubTreeManifest L N fuel d es at s = (s', Inr (n, c))"
    "tree_step\<^sup>*\<^sup>* s' t"
  shows "n = length es \<and> holds_manifest t (descriptor_key d) es"
proof -
  note c = completed_holds [OF assms(1-6)]
  have "fst (descriptor_key d) \<notin> set (tr_synthetic s')"
    using assms(3) c steps_synthetic [of s s'] by (simp add: descriptor_key_def)
  with holds_manifest_final [OF assms(7)] tree_inv_steps [OF _ assms(2)] c show ?thesis by blast
qed

section \<open>Batches\<close>

text \<open>The size of a payload; the loop keeps it in \<open>bytes\<close>.\<close>

definition payload_bytes :: "tree_entry list \<Rightarrow> nat" where
  "payload_bytes rows = (if rows = [] then 2 else utf8_length (payload_text rows))"

lemma join_with_snoc: "join_with c (xs @ [x]) = (if xs = [] then x else join_with c xs @ c # x)"
  by (induction c xs rule: join_with.induct) auto

lemma payload_bytes_snoc:
  "payload_bytes (rows @ [e]) = payload_bytes rows + (if rows = [] then 0 else 1) + utf8_length (entry_row_text e)"
  by (simp add: payload_bytes_def payload_text_def join_with_snoc utf8_def)

lemma payload_loop_spec:
  assumes "length rows \<le> ENTRY_BATCH_SIZE" "payload_bytes rows \<le> ENTRY_BATCH_BYTES"
  shows "case payload_loop rows (payload_bytes rows) es of
      Inl x \<Rightarrow> list_ex (\<lambda>e. ENTRY_BATCH_BYTES < utf8_length (entry_row_text e) + 2) es
    | Inr ps \<Rightarrow> concat ps = rows @ es \<and>
        list_all (\<lambda>p. p \<noteq> [] \<and> length p \<le> ENTRY_BATCH_SIZE \<and> utf8_length (payload_text p) \<le> ENTRY_BATCH_BYTES) ps"
  using assms
proof (induction es arbitrary: rows)
  case Nil
  then show ?case by (auto simp: payload_bytes_def)
next
  case (Cons e es)
  have two: "2 + utf8_length (entry_row_text e) = payload_bytes [e]"
    using payload_bytes_snoc [of "[]" e] by (simp add: payload_bytes_def)
  have next_bytes: "payload_bytes rows + ((if rows = [] then 0 else 1) + utf8_length (entry_row_text e)) = payload_bytes (rows @ [e])"
    by (simp add: payload_bytes_snoc)
  consider (large) "ENTRY_BATCH_BYTES < utf8_length (entry_row_text e) + 2"
    | (flush) "\<not> ENTRY_BATCH_BYTES < utf8_length (entry_row_text e) + 2"
        "rows \<noteq> [] \<and> (ENTRY_BATCH_SIZE \<le> length rows \<or> ENTRY_BATCH_BYTES < payload_bytes (rows @ [e]))"
    | (add) "\<not> ENTRY_BATCH_BYTES < utf8_length (entry_row_text e) + 2"
        "\<not> (rows \<noteq> [] \<and> (ENTRY_BATCH_SIZE \<le> length rows \<or> ENTRY_BATCH_BYTES < payload_bytes (rows @ [e])))"
    by blast
  then show ?case
  proof cases
    case large
    then show ?thesis by (simp add: Let_def)
  next
    case flush
    have eq: "payload_loop rows (payload_bytes rows) (e # es) =
        bind_res (payload_loop [e] (payload_bytes [e]) es) (\<lambda>ps. Inr (rows # ps))"
    proof -
      have "payload_bytes rows + (1 + utf8_length (entry_row_text e)) = payload_bytes (rows @ [e])"
        using next_bytes flush(2) by simp
      with flush two show ?thesis by (simp only: payload_loop.simps Let_def add.assoc if_True if_False simp_thms)
    qed
    have "length [e] \<le> ENTRY_BATCH_SIZE" "payload_bytes [e] \<le> ENTRY_BATCH_BYTES"
      using flush(1) two by (auto simp: ENTRY_BATCH_SIZE_def)
    from Cons.IH [OF this] flush(2) Cons.prems show ?thesis
      unfolding eq by (cases "payload_loop [e] (payload_bytes [e]) es") (auto simp: payload_bytes_def)
  next
    case add
    have eq: "payload_loop rows (payload_bytes rows) (e # es) = payload_loop (rows @ [e]) (payload_bytes (rows @ [e])) es"
      using add by (simp only: payload_loop.simps Let_def add.assoc next_bytes if_False)
    have "length (rows @ [e]) \<le> ENTRY_BATCH_SIZE" "payload_bytes (rows @ [e]) \<le> ENTRY_BATCH_BYTES"
      using add two by (auto simp: ENTRY_BATCH_SIZE_def)
    from Cons.IH [OF this] show ?thesis unfolding eq by (auto split: sum.splits)
  qed
qed

lemma payload_partition:
  "case buildEntryPayloads es of
      Inl x \<Rightarrow> list_ex (\<lambda>e. ENTRY_BATCH_BYTES < utf8_length (entry_row_text e) + 2) es
    | Inr ps \<Rightarrow> concat ps = es \<and>
        list_all (\<lambda>p. p \<noteq> [] \<and> length p \<le> ENTRY_BATCH_SIZE \<and> utf8_length (payload_text p) \<le> ENTRY_BATCH_BYTES) ps"
  using payload_loop_spec [of "[]" es]
  by (simp only: buildEntryPayloads_def payload_bytes_def append_Nil) (simp add: ENTRY_BATCH_BYTES_def)

text \<open>The payloads that store entries hold every entry once and in order, each within 500 rows and 256 KiB,
  unless a single row cannot fit one.\<close>

theorem entry_payloads_partition:
  "case buildEntryPayloads es of
      Inl x \<Rightarrow> list_ex (\<lambda>e. ENTRY_BATCH_BYTES < utf8_length (entry_row_text e) + 2) es
    | Inr ps \<Rightarrow> concat ps = es \<and>
        list_all (\<lambda>p. p \<noteq> [] \<and> length p \<le> ENTRY_BATCH_SIZE \<and> utf8_length (payload_text p) \<le> ENTRY_BATCH_BYTES) ps"
  by (rule payload_partition)

section \<open>A run\<close>

definition demo_tree_descriptor :: tree_descriptor where
  "demo_tree_descriptor = \<lparr>td_id = replicate 64 97, td_project = str ''p'', td_repository = str ''r'', td_ref = str ''main'',
     td_observed = replicate 40 97, td_tree = replicate 40 98, td_authority = DefaultBranchTree,
     td_collection = str ''c'', td_created = 1000\<rparr>"

definition demo_entry :: "nat \<Rightarrow> string \<Rightarrow> disposition \<Rightarrow> tree_entry" where
  "demo_entry c p k = \<lparr>te_digest = c # replicate 63 97, te_path = (if k = SensitiveTombstone then None else Some (str p)),
     te_sha = replicate 40 97, te_size = 12, te_disposition = k\<rparr>"

definition demo_entries :: "tree_entry list" where
  "demo_entries = [demo_entry 98 ''b.ts'' TextBlob, demo_entry 97 ''.env'' SensitiveTombstone]"

text \<open>A hash that tells the text of the entries from every other.\<close>

definition demo_tree_lib :: tree_lib where
  "demo_tree_lib = \<lparr>gl_sha256 = (\<lambda>s. replicate 64 (if s = join_with 10 (map entry_row_text (rev demo_entries)) then 97 else 98)),
     gl_collate = (\<lambda>s. s), gl_iso = dec_int\<rparr>"

text \<open>The clock runs between the calls.\<close>

definition ticking :: "tree_db net" where
  "ticking = \<lparr>nt_before = (\<lambda>i s. s\<lparr>tr_clock := tr_clock s + 5\<rparr>), nt_fate = (\<lambda>i. Delivered)\<rparr>"

text \<open>Begun, and its entries stored.\<close>

definition demo_tree_staged :: tree_db where
  "demo_tree_staged = \<lparr>tr_manifests = [staging_row demo_tree_descriptor],
     tr_entries = map (\<lambda>e. (str ''p'', replicate 64 97, e)) demo_entries, tr_events = [], tr_references = [],
     tr_synthetic = [], tr_repositories = [(str ''p'', str ''r'')], tr_runs = [], tr_cursors = [], tr_clock = 2000\<rparr>"

definition demo_tree_done :: "tree_db \<times> (thrown + nat \<times> ustring)" where
  "demo_tree_done = completeGitHubTreeManifest demo_tree_lib ticking 1 demo_tree_descriptor demo_entries 3000 demo_tree_staged"

lemma ticking_others: "others_step tree_step ticking"
  using tree_step.tick [of s "tr_clock s + 5" for s] by (auto simp: others_step_def ticking_def)

lemma demo_tree_inv: "tree_inv demo_tree_staged" "tr_synthetic demo_tree_staged = []"
  by (simp_all add: demo_tree_staged_def tree_inv_def staging_row_def demo_entries_def demo_entry_def)

lemma demo_normalized: "normalizeEntries demo_tree_lib demo_entries = Inr (rev demo_entries)"
  by (simp add: normalizeEntries_def demo_entries_def demo_entry_def demo_tree_lib_def entry_valid_def digest_text_def
    sha_text_def hex_lower_char_def hex_char_def is_safe_integer_def max_safe_def safe_path_def list_all_iff str_def)

lemma demo_tree_lib_ok: "collation_ok demo_tree_lib" "no_collision demo_tree_lib (checksum_text demo_tree_lib demo_entries)"
  unfolding checksum_text_normalized [OF demo_normalized]
  by (simp_all add: demo_tree_lib_def collation_ok_def no_collision_def)

lemma demo_hash: "hash_ok demo_tree_lib"
  by (simp add: hash_ok_def demo_tree_lib_def digest_text_def hex_lower_char_def list_all_iff)

lemma demo_descriptor: "manifest_check (staging_row demo_tree_descriptor)"
  by (simp add: manifest_check_def staging_row_def status_check_def descriptor_check_def demo_tree_descriptor_def digest_text_def
    sha_text_def hex_lower_char_def hex_char_def list_all_iff str_def)

lemma demo_entries_at: "entries_of demo_tree_staged (descriptor_key demo_tree_descriptor) = demo_entries"
  by (simp add: entries_of_def demo_tree_staged_def descriptor_key_def demo_tree_descriptor_def demo_entries_def)

lemma demo_page: "entry_page (descriptor_key demo_tree_descriptor) [] (demo_tree_staged\<lparr>tr_clock := c\<rparr>) = rev demo_entries"
  by (simp add: entry_page_def demo_entries_at) (simp add: demo_entries_def demo_entry_def ENTRY_PAGE_SIZE_def)

lemma demo_read: "readManifestEntries demo_tree_lib ticking 1 1 demo_tree_descriptor (demo_tree_staged\<lparr>tr_clock := c\<rparr>) =
    (demo_tree_staged\<lparr>tr_clock := c + 5\<rparr>, Inr (rev demo_entries))"
proof -
  have n: "normalizeEntries demo_tree_lib (rev demo_entries) = Inr (rev demo_entries)"
    by (rule normalizeEntries_Inr(3) [OF demo_normalized])
  have l: "length (rev demo_entries) < ENTRY_PAGE_SIZE" by (simp add: demo_entries_def ENTRY_PAGE_SIZE_def)
  then show ?thesis
    by (simp add: readManifestEntries_def d1_read_def d1_run_def ticking_def demo_page n Let_def)
qed

lemma demo_own: "read_own ticking 0 demo_tree_descriptor demo_tree_staged =
    (demo_tree_staged\<lparr>tr_clock := 2005\<rparr>, Inr (staging_row demo_tree_descriptor))"
  by (simp add: read_own_def readManifest_def d1_read_def d1_run_def ticking_def Let_def manifest_at_def demo_tree_staged_def
    manifest_key_def descriptor_key_def staging_row_def sameManifestIdentity_def)

lemma demo_update: "\<exists>t. d1_run ticking 2 (complete_update demo_tree_descriptor 2 (gl_sha256 demo_tree_lib x) 3000) (demo_tree_staged\<lparr>tr_clock := c\<rparr>) = (t, Inr 1)"
proof -
  let ?r = "staging_row demo_tree_descriptor"
  have "completes (demo_tree_staged\<lparr>tr_clock := c\<rparr>) ?r
      (?r\<lparr>mf_status := Complete, mf_count := Some 2, mf_checksum := Some (gl_sha256 demo_tree_lib x), mf_completed := Some 3000\<rparr>)" for c
    using demo_entries_at by (simp add: completes_def staging_row_def manifest_key_def descriptor_key_def demo_entries_def demo_entry_def)
  then have "transition_ok (demo_tree_staged\<lparr>tr_clock := c\<rparr>) ?r
      (?r\<lparr>mf_status := Complete, mf_count := Some 2, mf_checksum := Some (gl_sha256 demo_tree_lib x), mf_completed := Some 3000\<rparr>)" for c
    by (simp add: transition_ok_def)
  moreover have "filter (\<lambda>r. manifest_key r = descriptor_key demo_tree_descriptor \<and> mf_status r = Staging) (tr_manifests demo_tree_staged) = [?r]"
    by (simp add: demo_tree_staged_def staging_row_def manifest_key_def descriptor_key_def)
  ultimately show ?thesis
    using completed_check [OF demo_descriptor demo_hash]
    by (simp add: d1_run_def ticking_def Let_def complete_update_def update_manifests_def)
qed

lemma demo_tree_result: "\<exists>c. snd demo_tree_done = Inr (2, c)"
proof -
  obtain chk x where chk: "entriesChecksum demo_tree_lib (rev demo_entries) = Inr chk" "chk = gl_sha256 demo_tree_lib x"
    using normalizeEntries_Inr(4) [OF demo_normalized] by blast
  have n: "length (rev demo_entries) = 2" by (simp add: demo_entries_def)
  have demo_clock: "(2005::int) + 5 = 2010" by simp
  obtain t where t: "d1_run ticking 2 (complete_update demo_tree_descriptor 2 chk 3000) (demo_tree_staged\<lparr>tr_clock := 2010\<rparr>) = (t, Inr 1)"
    using demo_update chk(2) by blast
  have s: "complete_staging demo_tree_lib ticking 1 demo_tree_descriptor (rev demo_entries) chk 3000
      (demo_tree_staged\<lparr>tr_clock := 2005\<rparr>) = (t, Inr (2, chk))"
    by (simp only: complete_staging_def demo_read then_do.simps chk(1) n demo_clock t simp_thms if_True if_False bind_res.simps require_def one_add_one)
  have p: "\<not> list_ex (\<lambda>e. te_disposition e = PartialBlob) (rev demo_entries)"
    by (simp add: demo_entries_def demo_entry_def)
  have q: "mf_status (staging_row demo_tree_descriptor) = Staging" by (simp add: staging_row_def)
  show ?thesis
    by (simp only: demo_tree_done_def completeGitHubTreeManifest_def demo_normalized then_do.simps p if_False chk(1) demo_own
      q simp_thms s manifest_status.distinct snd_conv sum.inject prod.inject)
qed

theorem completed_manifest_is_exact_witness:
  "holds_manifest (fst demo_tree_done) (str ''p'', replicate 64 97) demo_entries"
proof -
  obtain c where "snd demo_tree_done = Inr (2, c)" using demo_tree_result by blast
  then have run: "completeGitHubTreeManifest demo_tree_lib ticking 1 demo_tree_descriptor demo_entries 3000 demo_tree_staged =
      (fst demo_tree_done, Inr (2, c))"
    by (metis demo_tree_done_def prod.collapse)
  have "td_project demo_tree_descriptor \<notin> set (tr_synthetic demo_tree_staged)" using demo_tree_inv by simp
  from completed_manifest_is_exact [OF ticking_others demo_tree_inv(1) this demo_tree_lib_ok run rtranclp.rtrancl_refl]
  show ?thesis by (simp add: descriptor_key_def demo_tree_descriptor_def)
qed

end
