(* ===== verification/Tree_Collection.thy ===== *)
theory Tree_Collection
  imports Tree_Manifest
begin

text \<open>
  Collecting a manifest without interference: the pages of \<open>readManifestEntries\<close> give every entry
  back, and beginning, persisting and completing a manifest succeeds.
\<close>

section \<open>Pages\<close>

lemma after_page:
  assumes "sorted (map f xs)" "distinct (map f xs)" "n \<le> length xs" "0 < n"
  shows "filter (\<lambda>x. f (last (take n xs)) < f x) xs = drop n xs"
proof -
  have l: "last (take n xs) = xs ! (n - 1)" using assms(3,4) by (subst last_conv_nth) auto
  have before: "\<not> f (xs ! (n - 1)) < f x" if x: "x \<in> set (take n xs)" for x
  proof -
    obtain j where "j < n" "x = xs ! j" using x assms(3) by (auto simp: in_set_conv_nth)
    then show ?thesis using sorted_nth_mono [OF assms(1), of j "n - 1"] assms(3) by (simp add: leD)
  qed
  have behind: "f (xs ! (n - 1)) < f x" if x: "x \<in> set (drop n xs)" for x
  proof -
    obtain j where "j < length (drop n xs)" "drop n xs ! j = x" using x by (auto simp only: in_set_conv_nth)
    then have j: "n + j < length xs" "x = xs ! (n + j)" using assms(3) by auto
    have "f (xs ! (n - 1)) \<le> f x" using sorted_nth_mono [OF assms(1), of "n - 1" "n + j"] j by simp
    moreover have "f (xs ! (n - 1)) \<noteq> f x"
      using nth_eq_iff_index_eq [OF assms(2), of "n - 1" "n + j"] j assms(4) by simp
    ultimately show ?thesis by simp
  qed
  have "filter (\<lambda>x. f (last (take n xs)) < f x) (take n xs @ drop n xs) = drop n xs"
    using before behind by (simp add: l filter_empty_conv filter_id_conv del: append_take_drop_id)
  then show ?thesis by simp
qed

lemma utf16_digest: "digest_text d \<Longrightarrow> utf16 d = d"
proof -
  have "list_all hex_lower_char d \<Longrightarrow> utf16 d = d" by (induction d) (auto simp: hex_lower_char_def)
  then show "digest_text d \<Longrightarrow> utf16 d = d" by (simp add: digest_text_def)
qed

lemma entry_page_sorted:
  "entry_page k after s = take ENTRY_PAGE_SIZE (filter (\<lambda>e. after < te_digest e) (sort_key te_digest (entries_of s k)))"
  by (simp add: entry_page_def filter_sort)

lemma read_pages_undisturbed:
  assumes "undisturbed N" "list_all (\<lambda>e. digest_text (te_digest e)) (entries_of s k)"
    "distinct (map te_digest (entries_of s k))" "utf16 after = after"
    "length (filter (\<lambda>e. after < te_digest e) (sort_key te_digest (entries_of s k))) div ENTRY_PAGE_SIZE < fuel"
  shows "read_pages N k i fuel after acc s =
    (s, Inr (acc @ filter (\<lambda>e. after < te_digest e) (sort_key te_digest (entries_of s k))))"
  using assms(4,5)
proof (induction fuel arbitrary: i after acc)
  case (Suc fuel)
  let ?S = "sort_key te_digest (entries_of s k)"
  define rest where "rest = filter (\<lambda>e. after < te_digest e) ?S"
  have page: "entry_page k after s = take ENTRY_PAGE_SIZE rest" by (simp add: entry_page_sorted rest_def)
  show ?case
  proof (cases "length rest < ENTRY_PAGE_SIZE")
    case True
    then show ?thesis by (simp add: undisturbed_read [OF assms(1)] page flip: rest_def)
  next
    case False
    let ?d = "te_digest (last (take ENTRY_PAGE_SIZE rest))"
    have size: "0 < ENTRY_PAGE_SIZE" by (simp add: ENTRY_PAGE_SIZE_def)
    have s: "sorted (map te_digest rest)" unfolding rest_def by (rule sorted_filter) simp
    have "distinct (map te_digest ?S)" using assms(3) by (metis distinct_map mset_sort set_sort mset_eq_imp_distinct_iff)
    then have d: "distinct (map te_digest rest)" unfolding rest_def by (rule distinct_map_filter)
    have "last (take ENTRY_PAGE_SIZE rest) \<in> set (take ENTRY_PAGE_SIZE rest)"
      using False size by (intro last_in_set) auto
    then have last: "last (take ENTRY_PAGE_SIZE rest) \<in> set rest" by (rule in_set_takeD)
    then have lt: "after < ?d" by (simp add: rest_def)
    have dd: "utf16 ?d = ?d" using last assms(2) by (intro utf16_digest) (auto simp: rest_def list_all_iff)
    have "filter (\<lambda>e. ?d < te_digest e) ?S = filter (\<lambda>e. ?d < te_digest e) rest"
      using lt by (auto simp: rest_def intro!: filter_cong dest: less_trans)
    then have drop: "filter (\<lambda>e. ?d < te_digest e) ?S = drop ENTRY_PAGE_SIZE rest"
      using after_page [OF s d, of ENTRY_PAGE_SIZE] False size by simp
    have "length (drop ENTRY_PAGE_SIZE rest) div ENTRY_PAGE_SIZE < fuel"
      using Suc.prems(2) False size by (simp add: le_div_geq flip: rest_def)
    with Suc.IH [OF dd] drop have "read_pages N k (Suc i) fuel ?d (acc @ take ENTRY_PAGE_SIZE rest) s =
        (s, Inr ((acc @ take ENTRY_PAGE_SIZE rest) @ drop ENTRY_PAGE_SIZE rest))" by simp
    with False lt dd Suc.prems(1) show ?thesis
      by (simp add: undisturbed_read [OF assms(1)] page flip: rest_def)
  qed
qed simp

section \<open>Normal forms of the same entries\<close>

lemma normalize_same_entries:
  assumes "collation_ok L" "normalizeEntries L ys = Inr ns" "mset xs = mset ys"
  shows "normalizeEntries L xs = Inr ns"
proof -
  let ?c = "\<lambda>e. gl_collate L (te_digest e)"
  have ns: "ns = sort_key ?c ys" "list_all entry_valid ys" "adjacent_differ (map te_digest ns)"
    using assms(2) by (auto simp: normalizeEntries_def Let_def split: if_splits)
  have set: "set xs = set ns" using assms(3) ns(1) by (metis mset_eq_setD set_sort)
  have valid: "list_all entry_valid ns" by (rule normalizeEntries_Inr(2) [OF assms(2)])
  have "inj_on te_digest (set xs)" using normalizeEntries_Inr(5) [OF assms(2,1)] set by (simp add: distinct_map)
  moreover have "inj_on (gl_collate L) (te_digest ` set xs)"
    using assms(1) valid set by (auto simp: collation_ok_def list_all_iff entry_valid_def intro: inj_on_subset)
  ultimately have "inj_on ?c (set xs)" by (auto simp: inj_on_def)
  then have "sort_key ?c xs = ns"
    by (intro sort_key_inj_key_eq) (simp_all add: ns(1) assms(3))
  moreover have "list_all entry_valid xs" using valid set by (simp add: list_all_iff)
  ultimately show ?thesis using ns(3) by (simp add: normalizeEntries_def)
qed

lemma readManifestEntries_undisturbed:
  assumes "undisturbed N" "collation_ok L" "normalizeEntries L es = Inr ns" "mset (entries_of s (descriptor_key d)) = mset es"
    "length es div ENTRY_PAGE_SIZE < fuel"
  shows "readManifestEntries L N i fuel d s = (s, Inr ns)"
proof -
  let ?E = "entries_of s (descriptor_key d)"
  have valid: "list_all entry_valid ns" and m: "mset ns = mset ?E"
    using normalizeEntries_Inr(1,2) [OF assms(3)] assms(4) by simp_all
  have set: "set ?E = set ns" using m by (metis set_mset_mset)
  have "distinct (map te_digest ns)" by (rule normalizeEntries_Inr(5) [OF assms(3,2)])
  then have dist: "distinct (map te_digest ?E)"
    using m mset_eq_imp_distinct_iff [of "map te_digest ns" "map te_digest ?E"] by simp
  have digests: "list_all (\<lambda>e. digest_text (te_digest e)) ?E" using valid set by (auto simp: list_all_iff entry_valid_def)
  have "[] < te_digest e" if "e \<in> set ?E" for e
    using digests that by (cases "te_digest e") (auto simp: list_all_iff digest_text_def)
  then have all: "filter (\<lambda>e. [] < te_digest e) (sort_key te_digest ?E) = sort_key te_digest ?E"
    by (simp add: filter_id_conv)
  have "length ?E = length es" using assms(4) by (metis size_mset)
  then have "read_pages N (descriptor_key d) i fuel [] [] s = (s, Inr (sort_key te_digest ?E))"
    using read_pages_undisturbed [OF assms(1) digests dist, of "[]"] all assms(5) by simp
  moreover have "normalizeEntries L (sort_key te_digest ?E) = Inr ns"
    by (rule normalize_same_entries [OF assms(2,3)]) (simp add: assms(4))
  ultimately show ?thesis by (simp add: readManifestEntries_def)
qed

section \<open>Operations\<close>

text \<open>A row is the one of key \<open>k\<close> when it is the only one.\<close>

definition only_row :: "tree_db \<Rightarrow> ustring \<times> ustring \<Rightarrow> manifest_row \<Rightarrow> bool" where
  "only_row s k r \<longleftrightarrow> filter (\<lambda>q. manifest_key q = k) (tr_manifests s) = [r]"

lemma only_row_at: "only_row s k r \<Longrightarrow> manifest_at s k = Some r \<and> manifest_key r = k"
proof -
  assume a: "only_row s k r"
  have *: "find P xs = (case filter P xs of [] \<Rightarrow> None | x # _ \<Rightarrow> Some x)" for P :: "manifest_row \<Rightarrow> bool" and xs
    by (induction xs) auto
  have "r \<in> set (filter (\<lambda>q. manifest_key q = k) (tr_manifests s))" using a by (simp add: only_row_def)
  then have "manifest_key r = k" by simp
  with a * show ?thesis by (simp add: manifest_at_def only_row_def)
qed

lemma begin_undisturbed:
  assumes "undisturbed N" "manifest_check (staging_row d)" "(td_project d, td_repository d) \<in> set (tr_repositories s)" "\<not> list_ex (manifest_conflict d) (tr_manifests s)"
  shows "\<exists>t. beginGitHubTreeManifest N d s = (t, Inr Staging) \<and> only_row t (descriptor_key d) (staging_row d) \<and>
    tr_entries t = tr_entries s"
proof -
  let ?t = "s\<lparr>tr_manifests := tr_manifests s @ [staging_row d]\<rparr>"
  have "filter (\<lambda>q. manifest_key q = descriptor_key d) (tr_manifests s) = []"
    using assms(4) by (auto simp: filter_empty_conv list_ex_iff manifest_key_def descriptor_key_def manifest_conflict_def)
  then have only: "only_row ?t (descriptor_key d) (staging_row d)"
    by (simp add: only_row_def manifest_key_def staging_row_def descriptor_key_def)
  have "beginGitHubTreeManifest N d s = (?t, Inr Staging)"
    using assms only_row_at [OF only]
    by (simp add: beginGitHubTreeManifest_def undisturbed_run insert_manifest_def read_own_def readManifest_def
      undisturbed_read sameManifestIdentity_def) (simp add: staging_row_def)
  with only show ?thesis by (intro exI [of _ ?t]) simp
qed

lemma add_entries:
  "tr_manifests (fold (add_entry k) es s) = tr_manifests s"
  "distinct (map te_digest (entries_of s k @ es)) \<Longrightarrow> entries_of (fold (add_entry k) es s) k = entries_of s k @ es"
proof -
  have "tr_manifests (add_entry k e s) = tr_manifests s" for e s by (simp add: add_entry_def)
  then show "tr_manifests (fold (add_entry k) es s) = tr_manifests s" by (induction es arbitrary: s) auto
  show "entries_of (fold (add_entry k) es s) k = entries_of s k @ es" if "distinct (map te_digest (entries_of s k @ es))"
    using that
  proof (induction es arbitrary: s)
    case (Cons e es)
    then have "entries_of (add_entry k e s) k = entries_of s k @ [e]"
      by (cases k) (simp add: add_entry_def entries_of_append)
    with Cons.IH [of "add_entry k e s"] Cons.prems show ?case by simp
  qed simp
qed

lemma insert_payloads_undisturbed:
  assumes "undisturbed N" "list_all entry_check (concat ps)" "staging_at s k"
  shows "insert_payloads N k i ps s = (fold (add_entry k) (concat ps) s, Inr ())"
  using assms(2,3)
proof (induction ps arbitrary: i s)
  case (Cons p ps)
  have "staging_at (fold (add_entry k) p s) k" using Cons.prems(2) by (simp add: staging_at_def add_entries(1))
  with Cons show ?case by (simp add: undisturbed_run [OF assms(1)] insert_entries_def)
qed simp

lemma persist_undisturbed:
  assumes "undisturbed N" "only_row s (descriptor_key d) (staging_row d)" "entries_of s (descriptor_key d) = []"
    "collation_ok L" "normalizeEntries L es = Inr ns"
    "list_all (\<lambda>e. utf8_length (entry_row_text e) + 2 \<le> ENTRY_BATCH_BYTES) es"
  shows "\<exists>t. persistGitHubTreeManifestEntries L N fuel d es s = (t, Inr ()) \<and>
    only_row t (descriptor_key d) (staging_row d) \<and> entries_of t (descriptor_key d) = ns"
proof -
  let ?k = "descriptor_key d"
  let ?t = "fold (add_entry ?k) ns s"
  have st: "mf_status (staging_row d) = Staging" by (simp add: staging_row_def)
  have "set es = set ns" using normalizeEntries_Inr(1) [OF assms(5)] by (metis set_mset_mset)
  then have "\<not> list_ex (\<lambda>e. ENTRY_BATCH_BYTES < utf8_length (entry_row_text e) + 2) ns"
    using assms(6) by (auto simp: list_all_iff list_ex_iff)
  then obtain ps where ps: "buildEntryPayloads ns = Inr ps" "concat ps = ns"
    using payload_partition [of ns] by (auto split: sum.splits)
  have "staging_row d \<in> set (filter (\<lambda>q. manifest_key q = ?k) (tr_manifests s))" using assms(2) by (simp add: only_row_def)
  then have staging: "staging_at s ?k" using st by (auto simp: staging_at_def list_ex_iff)
  have "list_all entry_check (concat ps)"
    using normalizeEntries_Inr(2) [OF assms(5)] ps(2) by (auto simp: list_all_iff entry_valid_def entry_check_def)
  note ins = insert_payloads_undisturbed [OF assms(1) this staging, of 1]
  have "persistGitHubTreeManifestEntries L N fuel d es s = (?t, Inr ())"
    using assms(5) only_row_at [OF assms(2)] ps ins st
    by (simp add: persistGitHubTreeManifestEntries_def read_own_def readManifest_def undisturbed_read [OF assms(1)]
      sameManifestIdentity_def staging_row_def)
  moreover have "only_row ?t ?k (staging_row d)" using assms(2) by (simp add: only_row_def add_entries(1))
  moreover have "entries_of ?t ?k = ns"
    using add_entries(2) [of s ?k ns] assms(3) normalizeEntries_Inr(5) [OF assms(5,4)] by simp
  ultimately show ?thesis by blast
qed

lemma complete_undisturbed:
  assumes "undisturbed N" "only_row s (descriptor_key d) (staging_row d)"
    "mset (entries_of s (descriptor_key d)) = mset es" "collation_ok L" "normalizeEntries L es = Inr ns"
    "list_all (\<lambda>e. te_disposition e \<noteq> PartialBlob) es" "length es div ENTRY_PAGE_SIZE < fuel"
    "manifest_check (staging_row d)" "hash_ok L"
  shows "\<exists>t. completeGitHubTreeManifest L N fuel d es at s = (t, Inr (length es, gl_sha256 L (checksum_text L es))) \<and>
    holds_manifest t (descriptor_key d) es"
proof -
  let ?k = "descriptor_key d" and ?c = "gl_sha256 L (checksum_text L es)"
  have st: "mf_status (staging_row d) = Staging" "mf_descriptor (staging_row d) = d" by (simp_all add: staging_row_def)
  have m: "mset ns = mset es" by (rule normalizeEntries_Inr(1) [OF assms(5)])
  then have len: "length ns = length es" and set: "set ns = set es" by (metis size_mset, metis set_mset_mset)
  have whole: "\<not> list_ex (\<lambda>e. te_disposition e = PartialBlob) ns"
    using assms(6) set by (auto simp: list_all_iff list_ex_iff)
  have chk: "entriesChecksum L ns = Inr ?c"
    using normalizeEntries_Inr(4) [OF assms(5)] checksum_text_normalized [OF assms(5)] by simp
  have reads: "readManifestEntries L N 1 fuel d s = (s, Inr ns)"
    by (rule readManifestEntries_undisturbed [OF assms(1,4,5,3,7)])
  let ?f = "\<lambda>r. r\<lparr>mf_status := Complete, mf_count := Some (length ns), mf_checksum := Some ?c, mf_completed := Some at\<rparr>"
  have hits: "filter (\<lambda>r. manifest_key r = ?k \<and> mf_status r = Staging) (tr_manifests s) = [staging_row d]"
  proof -
    have "filter (\<lambda>r. manifest_key r = ?k \<and> mf_status r = Staging) (tr_manifests s) =
        filter (\<lambda>r. mf_status r = Staging) (filter (\<lambda>r. manifest_key r = ?k) (tr_manifests s))" by (simp add: conj_commute)
    with assms(2) st show ?thesis by (simp add: only_row_def)
  qed
  have E: "length (entries_of s ?k) = length ns" "set (entries_of s ?k) = set es"
    using assms(3) len by (metis size_mset, metis set_mset_mset)
  have "completes s (staging_row d) (?f (staging_row d))"
    using only_row_at [OF assms(2)] E assms(6) st by (simp add: completes_def list_all_iff)
  then have "transition_ok s (staging_row d) (?f (staging_row d))" by (simp add: transition_ok_def)
  then obtain t where t: "complete_update d (length ns) ?c at s = Inr (t, 1)"
    using hits completed_check [OF assms(8,9)] by (simp add: complete_update_def update_manifests_def)
  have held: "holds_manifest t ?k es"
    using update_completes(4,5) [OF t] len assms(3) by (simp add: holds_manifest_def)
  have "complete_staging L N fuel d ns ?c at s = (t, Inr (length ns, ?c))"
    using reads chk t by (simp add: complete_staging_def undisturbed_run [OF assms(1)] require_def)
  with held show ?thesis
    using only_row_at [OF assms(2)] st whole chk len
    by (simp add: completeGitHubTreeManifest_def assms(5) read_own_def readManifest_def undisturbed_read [OF assms(1)]
      sameManifestIdentity_def)
qed

section \<open>Collecting a tree\<close>

text \<open>Without interference, collecting a new manifest of a known repository always succeeds: beginning makes it staging, persisting stores the
  entries, completing returns their number and checksum, and then the manifest holds exactly the entries. The number
  of pages read is bounded by the number of entries.\<close>

theorem undisturbed_collection_completes:
  assumes "undisturbed N" "\<not> list_ex (manifest_conflict d) (tr_manifests s)" "entries_of s (descriptor_key d) = []"
    "manifest_check (staging_row d)" "(td_project d, td_repository d) \<in> set (tr_repositories s)" "hash_ok L"
    "collation_ok L" "normalizeEntries L es = Inr ns" "list_all (\<lambda>e. te_disposition e \<noteq> PartialBlob) es"
    "list_all (\<lambda>e. utf8_length (entry_row_text e) + 2 \<le> ENTRY_BATCH_BYTES) es" "length es div ENTRY_PAGE_SIZE < fuel"
    "beginGitHubTreeManifest N d s = (s1, begun)"
    "persistGitHubTreeManifestEntries L N fuel d es s1 = (s2, persisted)"
    "completeGitHubTreeManifest L N fuel d es at s2 = (s3, completed)"
  shows "begun = Inr Staging \<and> persisted = Inr () \<and> completed = Inr (length es, gl_sha256 L (checksum_text L es)) \<and>
    holds_manifest s3 (descriptor_key d) es"
proof -
  have s1: "begun = Inr Staging" "only_row s1 (descriptor_key d) (staging_row d)" "tr_entries s1 = tr_entries s"
    using begin_undisturbed [OF assms(1,4,5,2)] assms(12) by auto
  have "entries_of s1 (descriptor_key d) = []" using s1(3) assms(3) by (simp add: entries_of_def)
  then have s2: "persisted = Inr ()" "only_row s2 (descriptor_key d) (staging_row d)" "entries_of s2 (descriptor_key d) = ns"
    using persist_undisturbed [OF assms(1) s1(2) _ assms(7,8,10), of fuel] assms(13) by auto
  have "mset (entries_of s2 (descriptor_key d)) = mset es" using s2(3) normalizeEntries_Inr(1) [OF assms(8)] by simp
  from complete_undisturbed [OF assms(1) s2(2) this assms(7,8,9,11,4,6), of at] assms(14) s1(1) s2(1) show ?thesis by auto
qed

section \<open>A run\<close>

definition still :: "tree_db net" where
  "still = \<lparr>nt_before = (\<lambda>i s. s), nt_fate = (\<lambda>i. Delivered)\<rparr>"

definition demo_tree_start :: tree_db where
  "demo_tree_start = \<lparr>tr_manifests = [], tr_entries = [], tr_events = [], tr_references = [], tr_synthetic = [],
     tr_repositories = [(str ''p'', str ''r'')], tr_runs = [], tr_cursors = [], tr_clock = 2000\<rparr>"

lemma demo_size: "dec_int 12 = [49, 50]"
  by code_simp

lemma demo_rows_fit: "list_all (\<lambda>e. utf8_length (entry_row_text e) + 2 \<le> ENTRY_BATCH_BYTES) demo_entries"
  by (simp add: demo_entries_def demo_entry_def entry_row_text_def entry_json_def ENTRY_BATCH_BYTES_def json_opt_def json_string_def
    json_char_def utf8_def utf8_length_def sum_list_replicate demo_size)

theorem undisturbed_collection_completes_witness:
  "holds_manifest (fst (completeGitHubTreeManifest demo_tree_lib still 1 demo_tree_descriptor demo_entries 3000
     (fst (persistGitHubTreeManifestEntries demo_tree_lib still 1 demo_tree_descriptor demo_entries
       (fst (beginGitHubTreeManifest still demo_tree_descriptor demo_tree_start))))))
     (descriptor_key demo_tree_descriptor) demo_entries"
proof -
  have s: "undisturbed still" by (simp add: undisturbed_def still_def)
  have c: "\<not> list_ex (manifest_conflict demo_tree_descriptor) (tr_manifests demo_tree_start)"
    "entries_of demo_tree_start (descriptor_key demo_tree_descriptor) = []"
    "(td_project demo_tree_descriptor, td_repository demo_tree_descriptor) \<in> set (tr_repositories demo_tree_start)"
    by (simp_all add: demo_tree_start_def entries_of_def demo_tree_descriptor_def)
  have e: "list_all (\<lambda>e. te_disposition e \<noteq> PartialBlob) demo_entries" "length demo_entries div ENTRY_PAGE_SIZE < 1"
    by (simp_all add: demo_entries_def demo_entry_def ENTRY_PAGE_SIZE_def)
  from undisturbed_collection_completes [OF s c(1,2) demo_descriptor c(3) demo_hash demo_tree_lib_ok(1) demo_normalized e(1) demo_rows_fit e(2)
      prod.collapse [symmetric] prod.collapse [symmetric] prod.collapse [symmetric]]
  show ?thesis by blast
qed

end
