(* ===== verification/Tree_Retention.thy ===== *)
theory Tree_Retention
  imports Tree_Manifest "HOL-Library.Product_Lexorder"
begin

text \<open>
  Retention of tree manifests (\<open>src/github/tree-manifest-retention.ts\<close> and \<open>tree-manifest-purge.ts\<close>): a
  staging manifest nobody works on is failed, a manifest that failed thirty days ago is claimed
  under a lease and its entries are deleted in chunks, each recorded as a lifecycle event. The
  pages of entries are read by the loop of \<open>Tree_Manifest\<close>, which the source repeats.
\<close>

section \<open>Failing a manifest\<close>

definition stored_checksum :: "tree_lib \<Rightarrow> tree_entry list \<Rightarrow> ustring" where
  "stored_checksum L es = gl_sha256 L (join_with 10 (map entry_row_text es))"

datatype failure_result = FailedNow | AlreadyFailed | IsComplete

definition same_descriptor :: "manifest_row \<Rightarrow> tree_descriptor \<Rightarrow> bool" where
  "same_descriptor r d \<longleftrightarrow> mf_descriptor r = d"

definition failed_event_id :: "tree_lib \<Rightarrow> tree_descriptor \<Rightarrow> ustring" where
  "failed_event_id L d = gl_sha256 L (join_with 10 [str ''github.tree.manifest.lifecycle'', td_project d, td_id d, str ''failed''])"

definition failed_request :: "tree_lib \<Rightarrow> tree_descriptor \<Rightarrow> sync_error_code \<Rightarrow> nat \<Rightarrow> ustring \<Rightarrow> ustring" where
  "failed_request L d code n checksum =
     gl_sha256 L (join_with 10 [td_project d, td_id d, code_text code, dec n, checksum])"

definition fail_update :: "tree_descriptor \<Rightarrow> sync_error_code \<Rightarrow> nat \<Rightarrow> ustring \<Rightarrow> tree_db \<Rightarrow> thrown + tree_db \<times> nat" where
  "fail_update d code n checksum s =
     update_manifests (\<lambda>r. manifest_key r = descriptor_key d \<and> mf_status r = Staging)
       (\<lambda>r. r\<lparr>mf_status := Failed, mf_count := Some n, mf_checksum := Some checksum, mf_failed := Some (tr_clock s),
          mf_failure := Some code\<rparr>) s"

text \<open>The event of a manifest's row.\<close>

definition row_event :: "ustring \<Rightarrow> lifecycle_type \<Rightarrow> ustring \<Rightarrow> int option \<Rightarrow> (nat \<times> ustring) option \<Rightarrow> manifest_row \<Rightarrow> lifecycle_event" where
  "row_event event_id kind request recorded chunk r =
     \<lparr>le_id = event_id, le_project = fst (manifest_key r), le_manifest = snd (manifest_key r), le_version = mf_version r,
      le_type = kind, le_failure = mf_failure r, le_count = mf_count r, le_checksum = mf_checksum r,
      le_chunk_count = map_option fst chunk, le_chunk = map_option snd chunk, le_request = request, le_recorded = recorded\<rparr>"

text \<open>\<open>INSERT ... SELECT\<close>: one event per selected row.\<close>

fun insert_selected :: "(manifest_row \<Rightarrow> lifecycle_event) \<Rightarrow> manifest_row list \<Rightarrow> tree_db \<Rightarrow> thrown + tree_db \<times> nat" where
  "insert_selected f [] s = Inr (s, 0)"
| "insert_selected f (r # rs) s =
     bind_res (insert_event (f r) s) (\<lambda>(s, _). bind_res (insert_selected f rs s) (\<lambda>(s, n). Inr (s, Suc n)))"

definition select_event :: "(manifest_row \<Rightarrow> bool) \<Rightarrow> (manifest_row \<Rightarrow> lifecycle_event) \<Rightarrow> tree_db \<Rightarrow> thrown + tree_db \<times> nat" where
  "select_event w f s = insert_selected f (filter w (tr_manifests s)) s"

definition fail_batch :: "tree_lib \<Rightarrow> tree_descriptor \<Rightarrow> sync_error_code \<Rightarrow> nat \<Rightarrow> ustring \<Rightarrow> tree_db \<Rightarrow> thrown + tree_db \<times> nat \<times> nat" where
  "fail_batch L d code n checksum s =
     bind_res (fail_update d code n checksum s) (\<lambda>(s, updated).
     bind_res (select_event (\<lambda>r. manifest_key r = descriptor_key d \<and> mf_status r = Failed)
       (\<lambda>r. row_event (failed_event_id L d) FailedEvent (failed_request L d code n checksum) (mf_failed r) None r) s)
       (\<lambda>(s, recorded). Inr (s, updated, recorded)))"

text \<open>Call 0 reads the manifest, 1 to \<open>fuel\<close> its entries, \<open>fuel + 1\<close> is the batch, then the manifest is read again.\<close>

definition failGitHubTreeManifest :: "tree_lib \<Rightarrow> tree_db net \<Rightarrow> nat \<Rightarrow> tree_descriptor \<Rightarrow> sync_error_code \<Rightarrow> tree_db \<Rightarrow>
    tree_db \<times> (thrown + failure_result)" where
  "failGitHubTreeManifest L N fuel d code db =
     then_do (readManifest N 0 d db) (\<lambda>db manifest.
     case manifest of
       None \<Rightarrow> (db, Inl reconciliationRequired)
     | Some r \<Rightarrow>
       if \<not> same_descriptor r d then (db, Inl reconciliationRequired)
       else if mf_status r = Complete then (db, Inr IsComplete)
       else if mf_status r \<noteq> Staging then
         (db, if mf_failure r = None then Inl reconciliationRequired else Inr AlreadyFailed)
       else then_do (read_pages N (descriptor_key d) 1 fuel [] [] db) (\<lambda>db es.
         try_catch (d1_run N (fuel + 1) (fail_batch L d code (length es) (stored_checksum L es)) db)
           (\<lambda>db (updated, recorded).
             if updated = 1 \<and> recorded = 1 then (db, Inr FailedNow)
             else then_do (readManifest N (fuel + 2) d db) (\<lambda>db current. (db, case current of
                 None \<Rightarrow> Inl reconciliationRequired
               | Some r \<Rightarrow> if mf_status r = Complete then Inr IsComplete
                   else if same_descriptor r d \<and> mf_status r \<noteq> Staging \<and> mf_failure r \<noteq> None then Inr AlreadyFailed
                   else Inl reconciliationRequired)))
           (\<lambda>db e. then_do (readManifest N (fuel + 2) d db) (\<lambda>db raced. (db, case raced of
               Some r \<Rightarrow> if same_descriptor r d \<and> (mf_status r = Failed \<or> mf_status r = Purging \<or> mf_status r = Purged)
                 then Inr AlreadyFailed else Inl reconciliationRequired
             | None \<Rightarrow> Inl reconciliationRequired)))))"

section \<open>Claims\<close>

record purge_claim =
  pc_key :: "ustring \<times> ustring"
  pc_token :: ustring
  pc_version :: nat
  pc_attempt :: nat

record retention_candidate =
  rt_row :: manifest_row
  rt_eligible :: bool

definition counter_ok :: "nat \<Rightarrow> bool" where
  "counter_ok n \<longleftrightarrow> int n < max_safe"

text \<open>The manifests that no ref head and no delta names.\<close>

definition claimable :: "tree_db \<Rightarrow> int \<Rightarrow> manifest_row \<Rightarrow> bool" where
  "claimable s cutoff r \<longleftrightarrow> known (\<lambda>f. f \<le> cutoff) (mf_failed r) \<and>
     (mf_next r = None \<or> known (\<lambda>n. n \<le> tr_clock s) (mf_next r)) \<and>
     (mf_status r = Failed \<or> known (\<lambda>l. l \<le> tr_clock s) (mf_lease r)) \<and>
     fst (manifest_key r) \<notin> set (tr_synthetic s) \<and> unreferenced s r"

definition claim_update :: "manifest_row \<Rightarrow> ustring \<Rightarrow> int \<Rightarrow> int \<Rightarrow> tree_db \<Rightarrow> thrown + tree_db \<times> nat" where
  "claim_update q token cutoff lease s =
     update_manifests (\<lambda>r. manifest_key r = manifest_key q \<and> mf_status r = mf_status q \<and> mf_version r = mf_version q \<and>
         mf_attempt r = mf_attempt q \<and> claimable s cutoff r)
       (\<lambda>r. r\<lparr>mf_status := Purging, mf_version := mf_version r + 1, mf_attempt := mf_attempt r + 1,
          mf_next := Some (tr_clock s + lease), mf_token := Some token, mf_lease := Some (tr_clock s + lease)\<rparr>) s"

definition purge_token :: "tree_lib \<Rightarrow> manifest_row \<Rightarrow> int \<Rightarrow> int \<Rightarrow> ustring" where
  "purge_token L q scheduledAt claimedAt =
     gl_sha256 L (join_with 10 [str ''github.tree.manifest.purge'', fst (manifest_key q), snd (manifest_key q),
       dec (mf_version q + 1), gl_iso L scheduledAt, gl_iso L claimedAt])"

definition claimFailedManifest :: "tree_lib \<Rightarrow> tree_db net \<Rightarrow> nat \<Rightarrow> retention_candidate \<Rightarrow> int \<Rightarrow> int \<Rightarrow> int \<Rightarrow> int \<Rightarrow> tree_db \<Rightarrow>
    tree_db \<times> (thrown + purge_claim option)" where
  "claimFailedManifest L N i candidate cutoffAt scheduledAt claimedAt lease db =
     (let q = rt_row candidate; token = purge_token L q scheduledAt claimedAt
      in if \<not> counter_ok (mf_version q) \<or> \<not> counter_ok (mf_attempt q) then (db, Inl reconciliationRequired)
         else then_do (d1_run N i (claim_update q token cutoffAt lease) db) (\<lambda>db changes.
           (db, Inr (if changes \<noteq> 1 then None
             else Some \<lparr>pc_key = manifest_key q, pc_token = token, pc_version = mf_version q + 1, pc_attempt = mf_attempt q + 1\<rparr>))))"

section \<open>Purging\<close>

definition DELETE_CHUNK_SIZE :: nat where "DELETE_CHUNK_SIZE = 500"
definition ERROR_BACKOFF_BASE_MILLISECONDS :: int where "ERROR_BACKOFF_BASE_MILLISECONDS = 12 * 60 * 60 * 1000"
definition ERROR_BACKOFF_MAX_MILLISECONDS :: int where "ERROR_BACKOFF_MAX_MILLISECONDS = 7 * 24 * 60 * 60 * 1000"

definition claim_row :: "purge_claim \<Rightarrow> manifest_row \<Rightarrow> bool" where
  "claim_row c r \<longleftrightarrow> manifest_key r = pc_key c \<and> mf_status r = Purging \<and> mf_token r = Some (pc_token c) \<and>
     mf_version r = pc_version c \<and> mf_attempt r = pc_attempt c"

definition backoff :: "nat \<Rightarrow> int" where
  "backoff attempt = min (ERROR_BACKOFF_BASE_MILLISECONDS * 2 ^ min (attempt - 1) 10) ERROR_BACKOFF_MAX_MILLISECONDS"

definition defer_update :: "purge_claim \<Rightarrow> tree_db \<Rightarrow> thrown + tree_db \<times> nat" where
  "defer_update c s = update_manifests (claim_row c) (\<lambda>r. r\<lparr>mf_next := Some (tr_clock s + backoff (pc_attempt c))\<rparr>) s"

definition deferFailedPurgeClaim :: "tree_db net \<Rightarrow> nat \<Rightarrow> purge_claim \<Rightarrow> tree_db \<Rightarrow> tree_db \<times> (thrown + unit)" where
  "deferFailedPurgeClaim N i c db = then_do (d1_run N i (defer_update c) db) (\<lambda>db _. (db, Inr ()))"

text \<open>The condition that every statement of a purge repeats: the claim, an open lease, and nothing refers to the manifest.\<close>

definition purgeable :: "tree_db \<Rightarrow> purge_claim \<Rightarrow> manifest_row \<Rightarrow> bool" where
  "purgeable s c r \<longleftrightarrow> claim_row c r \<and> known (\<lambda>l. tr_clock s < l) (mf_lease r) \<and> aged s r \<and>
     fst (manifest_key r) \<notin> set (tr_synthetic s) \<and> unreferenced s r"

definition purge_page :: "purge_claim \<Rightarrow> tree_db \<Rightarrow> ustring list" where
  "purge_page c s = (if list_ex (purgeable s c) (tr_manifests s)
     then take DELETE_CHUNK_SIZE (sort (map te_digest (entries_of s (pc_key c)))) else [])"

definition chunk_digest :: "tree_lib \<Rightarrow> ustring list \<Rightarrow> ustring" where
  "chunk_digest L ps = gl_sha256 L (join_with 10 ps)"

definition chunk_event_id :: "tree_lib \<Rightarrow> purge_claim \<Rightarrow> ustring list \<Rightarrow> ustring" where
  "chunk_event_id L c ps = gl_sha256 L (join_with 10 [str ''github.tree.manifest.lifecycle'', fst (pc_key c), snd (pc_key c),
     str ''purge_chunk'', dec (pc_version c), chunk_digest L ps])"

definition chunk_request :: "tree_lib \<Rightarrow> purge_claim \<Rightarrow> ustring list \<Rightarrow> ustring" where
  "chunk_request L c ps = gl_sha256 L (join_with 10 [fst (pc_key c), snd (pc_key c), dec (pc_version c), dec (pc_attempt c),
     dec (length ps), chunk_digest L ps])"

definition record_chunk :: "tree_lib \<Rightarrow> purge_claim \<Rightarrow> ustring list \<Rightarrow> tree_db \<Rightarrow> thrown + tree_db \<times> nat" where
  "record_chunk L c ps s =
     select_event (\<lambda>r. purgeable s c r \<and>
         length (filter (\<lambda>e. te_digest e \<in> set ps) (entries_of s (manifest_key r))) = length ps)
       (row_event (chunk_event_id L c ps) PurgeChunkEvent (chunk_request L c ps) (Some (tr_clock s))
         (Some (length ps, chunk_digest L ps))) s"

definition chunk_recorded :: "tree_lib \<Rightarrow> purge_claim \<Rightarrow> ustring list \<Rightarrow> tree_db \<Rightarrow> bool" where
  "chunk_recorded L c ps s \<longleftrightarrow> list_ex (\<lambda>v. (le_project v, le_manifest v) = pc_key c \<and> le_id v = chunk_event_id L c ps \<and>
     le_type v = PurgeChunkEvent \<and> le_version v = pc_version c \<and> le_chunk_count v = Some (length ps) \<and>
     le_chunk v = Some (chunk_digest L ps)) (tr_events s)"

definition delete_chunk :: "tree_lib \<Rightarrow> purge_claim \<Rightarrow> ustring list \<Rightarrow> tree_db \<Rightarrow> thrown + tree_db \<times> nat" where
  "delete_chunk L c ps s =
     delete_entries (\<lambda>(p, i, e). (p, i) = pc_key c \<and> te_digest e \<in> set ps \<and>
       list_ex (purgeable s c) (tr_manifests s) \<and> chunk_recorded L c ps s) s"

definition chunk_batch :: "tree_lib \<Rightarrow> purge_claim \<Rightarrow> ustring list \<Rightarrow> tree_db \<Rightarrow> thrown + tree_db \<times> nat \<times> nat" where
  "chunk_batch L c ps s =
     bind_res (record_chunk L c ps s) (\<lambda>(s, recorded).
     bind_res (delete_chunk L c ps s) (\<lambda>(s, deleted). Inr (s, recorded, deleted)))"

text \<open>Chunk \<open>j\<close> uses the calls \<open>i\<close> and \<open>i + 1\<close>.\<close>

fun purge_chunks :: "tree_lib \<Rightarrow> tree_db net \<Rightarrow> nat \<Rightarrow> purge_claim \<Rightarrow> nat \<Rightarrow> nat \<Rightarrow> tree_db \<Rightarrow> tree_db \<times> (thrown + nat)" where
  "purge_chunks L N i c 0 entriesDeleted db = (db, Inr entriesDeleted)"
| "purge_chunks L N i c (Suc chunks) entriesDeleted db =
     then_do (d1_read N i (purge_page c) db) (\<lambda>db ps.
     if ps = [] then (db, Inr entriesDeleted)
     else then_do (d1_run N (i + 1) (chunk_batch L c ps) db) (\<lambda>db (recorded, deleted).
       if recorded \<noteq> 1 \<or> deleted \<noteq> length ps then (db, Inl reconciliationRequired)
       else if deleted < DELETE_CHUNK_SIZE then (db, Inr (entriesDeleted + deleted))
       else purge_chunks L N (i + 2) c chunks (entriesDeleted + deleted) db))"

definition purged_event_id :: "tree_lib \<Rightarrow> purge_claim \<Rightarrow> ustring" where
  "purged_event_id L c = gl_sha256 L (join_with 10 [str ''github.tree.manifest.lifecycle'', fst (pc_key c), snd (pc_key c),
     str ''purged'', dec (pc_version c + 1)])"

definition purged_request :: "tree_lib \<Rightarrow> purge_claim \<Rightarrow> ustring" where
  "purged_request L c = gl_sha256 L (join_with 10 [fst (pc_key c), snd (pc_key c), dec (pc_version c + 1), dec (pc_attempt c)])"

definition purged_update :: "purge_claim \<Rightarrow> tree_db \<Rightarrow> thrown + tree_db \<times> nat" where
  "purged_update c s =
     update_manifests (\<lambda>r. purgeable s c r \<and> entries_of s (manifest_key r) = [])
       (\<lambda>r. r\<lparr>mf_status := Purged, mf_version := mf_version r + 1, mf_next := None, mf_token := None, mf_lease := None,
          mf_purged := Some (tr_clock s)\<rparr>) s"

definition purged_batch :: "tree_lib \<Rightarrow> purge_claim \<Rightarrow> tree_db \<Rightarrow> thrown + tree_db \<times> nat \<times> nat" where
  "purged_batch L c s =
     bind_res (purged_update c s) (\<lambda>(s, updated).
     bind_res (select_event (\<lambda>r. manifest_key r = pc_key c \<and> mf_status r = Purged \<and> mf_version r = pc_version c + 1 \<and>
         mf_attempt r = pc_attempt c \<and> purged_event_id L c \<notin> set (map le_id (tr_events s)))
       (\<lambda>r. row_event (purged_event_id L c) PurgedEvent (purged_request L c) (mf_purged r) None r) s)
       (\<lambda>(s, recorded). Inr (s, updated, recorded)))"

definition purgeClaimedManifestEntries :: "tree_lib \<Rightarrow> tree_db net \<Rightarrow> nat \<Rightarrow> purge_claim \<Rightarrow> nat \<Rightarrow> tree_db \<Rightarrow>
    tree_db \<times> (thrown + nat \<times> bool)" where
  "purgeClaimedManifestEntries L N i c maxChunks db =
     then_do (purge_chunks L N i c maxChunks 0 db) (\<lambda>db entriesDeleted.
     then_do (d1_run N (i + 2 * maxChunks) (purged_batch L c) db) (\<lambda>db (stateChanges, eventChanges).
       (db, if stateChanges \<noteq> eventChanges \<or> 1 < stateChanges then Inl reconciliationRequired
        else Inr (entriesDeleted, stateChanges = 1))))"

section \<open>Candidates\<close>

definition RETENTION_MAX_PER_STATE :: nat where "RETENTION_MAX_PER_STATE = 25"
definition RETENTION_PROJECT_QUOTA :: nat where "RETENTION_PROJECT_QUOTA = 2"
definition RETENTION_SCAN_MULTIPLIER :: nat where "RETENTION_SCAN_MULTIPLIER = 4"
definition RETENTION_MAX_SCAN_ROWS :: nat where "RETENTION_MAX_SCAN_ROWS = RETENTION_MAX_PER_STATE * RETENTION_SCAN_MULTIPLIER"
definition RETENTION_MAX_CHUNKS_PER_MANIFEST :: nat where "RETENTION_MAX_CHUNKS_PER_MANIFEST = 4"
definition RETENTION_PURGE_LEASE_MILLISECONDS :: int where "RETENTION_PURGE_LEASE_MILLISECONDS = 10 * 60 * 1000"
definition RETENTION_MAX_PURGE_LEASE_MILLISECONDS :: int where "RETENTION_MAX_PURGE_LEASE_MILLISECONDS = 30 * 60 * 1000"
definition FAILED_RETENTION_MILLISECONDS :: int where "FAILED_RETENTION_MILLISECONDS = 30 * 24 * 60 * 60 * 1000"

text \<open>A staging manifest is abandoned when it is old and no running sync of its collection holds a lease.\<close>

definition abandoned :: "tree_db \<Rightarrow> int \<Rightarrow> manifest_row \<Rightarrow> bool" where
  "abandoned s cutoff r \<longleftrightarrow> fst (manifest_key r) \<notin> set (tr_synthetic s) \<and> td_created (mf_descriptor r) \<le> cutoff \<and>
     \<not> list_ex (\<lambda>n. rn_project n = td_project (mf_descriptor r) \<and> rn_repository n = td_repository (mf_descriptor r) \<and>
       rn_scheduled n = td_collection (mf_descriptor r) \<and> rn_running n \<and> cutoff < rn_lease n) (tr_runs s)"

definition in_lane :: "retention_lane \<Rightarrow> manifest_row \<Rightarrow> bool" where
  "in_lane lane r \<longleftrightarrow> (case lane of StagingLane \<Rightarrow> mf_status r = Staging | FailedLane \<Rightarrow> mf_status r = Failed \<or> mf_status r = Purging)"

definition eligible :: "tree_db \<Rightarrow> retention_lane \<Rightarrow> int \<Rightarrow> manifest_row \<Rightarrow> bool" where
  "eligible s lane cutoff r \<longleftrightarrow> (case lane of StagingLane \<Rightarrow> abandoned s cutoff r | FailedLane \<Rightarrow> claimable s cutoff r)"

definition candidate_page :: "retention_lane \<Rightarrow> int \<Rightarrow> ustring \<times> ustring \<Rightarrow> (ustring \<times> ustring) option \<Rightarrow> nat \<Rightarrow> tree_db \<Rightarrow>
    retention_candidate list" where
  "candidate_page lane cutoff after upper limit s =
     take limit (map (\<lambda>r. \<lparr>rt_row = r, rt_eligible = eligible s lane cutoff r\<rparr>)
       (sort_key manifest_key (filter (\<lambda>r. in_lane lane r \<and> after < manifest_key r \<and> opt_all (\<lambda>u. manifest_key r \<le> u) upper)
         (tr_manifests s))))"

definition candidate_key :: "retention_candidate \<Rightarrow> ustring \<times> ustring" where
  "candidate_key c = manifest_key (rt_row c)"

definition readRetentionCandidatePage :: "tree_db net \<Rightarrow> nat \<Rightarrow> retention_lane \<Rightarrow> int \<Rightarrow> ustring \<times> ustring \<Rightarrow>
    (ustring \<times> ustring) option \<Rightarrow> nat \<Rightarrow> tree_db \<Rightarrow> tree_db \<times> (thrown + retention_candidate list)" where
  "readRetentionCandidatePage N i lane cutoff after upper limit db =
     then_do (d1_read N i (candidate_page lane cutoff after upper limit) db) (\<lambda>db page. (db,
       if limit < length page \<or> \<not> distinct (map (snd \<circ> candidate_key) page) then Inl reconciliationRequired else Inr page))"

definition readRetentionCursor :: "tree_db net \<Rightarrow> nat \<Rightarrow> retention_lane \<Rightarrow> tree_db \<Rightarrow> tree_db \<times> (thrown + retention_cursor)" where
  "readRetentionCursor N i lane db =
     then_do (d1_read N i (\<lambda>s. find (\<lambda>k. kc_lane k = lane) (tr_cursors s)) db) (\<lambda>db row. (db,
       case row of
         None \<Rightarrow> Inl reconciliationRequired
       | Some k \<Rightarrow> if \<not> counter_ok (kc_version k) \<or> (fst (kc_after k) = []) \<noteq> (snd (kc_after k) = []) \<or>
             (snd (kc_after k) \<noteq> [] \<and> \<not> digest_text (snd (kc_after k)))
           then Inl reconciliationRequired else Inr k))"

text \<open>The selection stops at \<open>maxCandidates\<close>; its second part is the last candidate looked at.\<close>

fun select_candidates :: "nat \<Rightarrow> retention_candidate list \<Rightarrow> retention_candidate option \<Rightarrow> retention_candidate list \<Rightarrow>
    retention_candidate list \<times> retention_candidate option" where
  "select_candidates maxCandidates picked looked [] = (picked, looked)"
| "select_candidates maxCandidates picked looked (c # cs) =
     (if \<not> rt_eligible c \<or>
         RETENTION_PROJECT_QUOTA \<le> length (filter (\<lambda>p. fst (candidate_key p) = fst (candidate_key c)) picked)
      then select_candidates maxCandidates picked (Some c) cs
      else if length picked + 1 = maxCandidates then (picked @ [c], Some c)
      else select_candidates maxCandidates (picked @ [c]) (Some c) cs)"

definition loadRetentionCandidates :: "tree_db net \<Rightarrow> nat \<Rightarrow> retention_lane \<Rightarrow> retention_cursor \<Rightarrow> int \<Rightarrow> nat \<Rightarrow> tree_db \<Rightarrow>
    tree_db \<times> (thrown + retention_candidate list \<times> retention_candidate option)" where
  "loadRetentionCandidates N i lane cursor cutoff maxCandidates db =
     (let scanLimit = min RETENTION_MAX_SCAN_ROWS (maxCandidates * RETENTION_SCAN_MULTIPLIER)
      in then_do (readRetentionCandidatePage N i lane cutoff (kc_after cursor) None scanLimit db) (\<lambda>db afterCursor.
      let remaining = scanLimit - length afterCursor
      in then_do (if 0 < remaining \<and> fst (kc_after cursor) \<noteq> []
          then readRetentionCandidatePage N (i + 1) lane cutoff ([], []) (Some (kc_after cursor)) remaining db
          else (db, Inr [])) (\<lambda>db wrapped.
        if scanLimit < length (afterCursor @ wrapped) then (db, Inl reconciliationRequired)
        else (db, Inr (select_candidates maxCandidates [] None (afterCursor @ wrapped))))))"

definition move_cursor :: "retention_cursor \<Rightarrow> ustring \<times> ustring \<Rightarrow> tree_db \<Rightarrow> thrown + tree_db \<times> nat" where
  "move_cursor k key s =
     (let w = (\<lambda>q. kc_lane q = kc_lane k \<and> kc_version q = kc_version k \<and> kc_after q = kc_after k)
      in Inr (s\<lparr>tr_cursors := update_where w (\<lambda>q. q\<lparr>kc_after := key, kc_version := kc_version q + 1\<rparr>) (tr_cursors s)\<rparr>,
        length (filter w (tr_cursors s))))"

definition advanceRetentionCursor :: "tree_db net \<Rightarrow> nat \<Rightarrow> retention_cursor \<Rightarrow> retention_candidate option \<Rightarrow> tree_db \<Rightarrow>
    tree_db \<times> (thrown + unit)" where
  "advanceRetentionCursor N i cursor candidate db =
     (case candidate of
        None \<Rightarrow> (db, Inr ())
      | Some c \<Rightarrow> then_do (d1_run N i (move_cursor cursor (candidate_key c)) db) (\<lambda>db changes.
          (db, require (changes = 0 \<or> changes = 1) reconciliationRequired)))"

section \<open>Maintenance\<close>

record retention_result =
  rz_failed_staging :: nat
  rz_claimed :: nat
  rz_entries_deleted :: nat
  rz_purged :: nat
  rz_errors :: nat

record retention_options =
  ro_max_per_state :: "int option"
  ro_max_chunks :: "int option"
  ro_lease :: "int option"

definition requireBoundedInteger :: "int \<Rightarrow> int \<Rightarrow> int \<Rightarrow> thrown + int" where
  "requireBoundedInteger value minimum maximum =
     (if is_safe_integer value \<and> minimum \<le> value \<and> value \<le> maximum then Inr value else Inl reconciliationRequired)"

definition option_or :: "'a option \<Rightarrow> 'a \<Rightarrow> 'a" where
  "option_or x d = (case x of None \<Rightarrow> d | Some v \<Rightarrow> v)"

text \<open>\<open>new Date(t).toISOString()\<close>.\<close>

definition iso_instant :: "int \<Rightarrow> thrown + int" where
  "iso_instant t = (if \<bar>t\<bar> \<le> 8640000000000000 then Inr t else Inl (Other (str ''RangeError'')))"

text \<open>
  Candidate \<open>j\<close> of a lane has its own calls: \<open>nets lane j\<close>; the scan of a lane uses \<open>nets lane 0\<close>.
\<close>

fun fail_candidates :: "tree_lib \<Rightarrow> (nat \<Rightarrow> tree_db net) \<Rightarrow> nat \<Rightarrow> nat \<Rightarrow> retention_candidate list \<Rightarrow> retention_result \<Rightarrow> tree_db \<Rightarrow>
    tree_db \<times> retention_result" where
  "fail_candidates L nets j fuel [] z db = (db, z)"
| "fail_candidates L nets j fuel (c # cs) z db =
     (let (db, z) = try_catch (failGitHubTreeManifest L (nets j) fuel (mf_descriptor (rt_row c)) ReconciliationRequired db)
        (\<lambda>db failure. (db, if failure = FailedNow then z\<lparr>rz_failed_staging := rz_failed_staging z + 1\<rparr> else z))
        (\<lambda>db e. (db, z\<lparr>rz_errors := rz_errors z + 1\<rparr>))
      in fail_candidates L nets (Suc j) fuel cs z db)"

text \<open>One candidate: call 0 claims, the next purge, and the last one defers a claim that failed.\<close>

definition purge_candidate :: "tree_lib \<Rightarrow> tree_db net \<Rightarrow> retention_candidate \<Rightarrow> int \<Rightarrow> int \<Rightarrow> int \<Rightarrow> int \<Rightarrow> nat \<Rightarrow>
    retention_result \<Rightarrow> tree_db \<Rightarrow> tree_db \<times> retention_result" where
  "purge_candidate L N c cutoffAt scheduledAt claimedAt lease maxChunks z db =
     try_catch (claimFailedManifest L N 0 c cutoffAt scheduledAt claimedAt lease db)
       (\<lambda>db claim. case claim of
          None \<Rightarrow> (db, z)
        | Some k \<Rightarrow>
            let z = z\<lparr>rz_claimed := rz_claimed z + 1\<rparr>
            in try_catch (purgeClaimedManifestEntries L N 1 k maxChunks db)
              (\<lambda>db (entriesDeleted, purged). (db, z\<lparr>rz_entries_deleted := rz_entries_deleted z + entriesDeleted,
                 rz_purged := rz_purged z + (if purged then 1 else 0)\<rparr>))
              (\<lambda>db e. (fst (deferFailedPurgeClaim N (2 * maxChunks + 2) k db), z\<lparr>rz_errors := rz_errors z + 1\<rparr>)))
       (\<lambda>db e. (db, z\<lparr>rz_errors := rz_errors z + 1\<rparr>))"

fun purge_candidates :: "tree_lib \<Rightarrow> (nat \<Rightarrow> tree_db net) \<Rightarrow> (nat \<Rightarrow> int) \<Rightarrow> nat \<Rightarrow> retention_candidate list \<Rightarrow> int \<Rightarrow> int \<Rightarrow> int \<Rightarrow>
    nat \<Rightarrow> retention_result \<Rightarrow> tree_db \<Rightarrow> tree_db \<times> retention_result" where
  "purge_candidates L nets wall j [] cutoffAt scheduledAt lease maxChunks z db = (db, z)"
| "purge_candidates L nets wall j (c # cs) cutoffAt scheduledAt lease maxChunks z db =
     (let (db, z) = purge_candidate L (nets j) c cutoffAt scheduledAt (wall j) lease maxChunks z db
      in purge_candidates L nets wall (Suc j) cs cutoffAt scheduledAt lease maxChunks z db)"

text \<open>Reading the cursor of a lane, its candidates, and moving the cursor on.\<close>

definition scan_lane :: "tree_db net \<Rightarrow> retention_lane \<Rightarrow> int \<Rightarrow> nat \<Rightarrow> tree_db \<Rightarrow> tree_db \<times> (thrown + retention_candidate list)" where
  "scan_lane N lane cutoff maxPerState db =
     then_do (readRetentionCursor N 0 lane db) (\<lambda>db cursor.
     then_do (loadRetentionCandidates N 1 lane cursor cutoff maxPerState db) (\<lambda>db (candidates, looked).
     then_do (advanceRetentionCursor N 3 cursor looked db) (\<lambda>db _. (db, Inr candidates))))"

definition maintainGitHubTreeManifestRetention :: "tree_lib \<Rightarrow> (retention_lane \<Rightarrow> nat \<Rightarrow> tree_db net) \<Rightarrow> (nat \<Rightarrow> int) \<Rightarrow> nat \<Rightarrow>
    int option \<Rightarrow> retention_options \<Rightarrow> tree_db \<Rightarrow> tree_db \<times> (thrown + retention_result)" where
  "maintainGitHubTreeManifestRetention L nets wall fuel scheduledTime opts db =
     (case scheduledTime of
        None \<Rightarrow> (db, Inl reconciliationRequired)
      | Some time \<Rightarrow>
     then_do (db, iso_instant time) (\<lambda>db scheduledAt.
     then_do (db, requireBoundedInteger (option_or (ro_max_per_state opts) (int RETENTION_MAX_PER_STATE)) 1 (int RETENTION_MAX_PER_STATE))
       (\<lambda>db maxPerState.
     then_do (db, requireBoundedInteger (option_or (ro_max_chunks opts) (int RETENTION_MAX_CHUNKS_PER_MANIFEST)) 1
         (int RETENTION_MAX_CHUNKS_PER_MANIFEST)) (\<lambda>db maxChunks.
     then_do (db, requireBoundedInteger (option_or (ro_lease opts) RETENTION_PURGE_LEASE_MILLISECONDS) 1
         RETENTION_MAX_PURGE_LEASE_MILLISECONDS) (\<lambda>db lease.
     then_do (scan_lane (nets StagingLane 0) StagingLane scheduledAt (nat maxPerState) db) (\<lambda>db candidates.
     case fail_candidates L (nets StagingLane) 1 fuel candidates
         \<lparr>rz_failed_staging = 0, rz_claimed = 0, rz_entries_deleted = 0, rz_purged = 0, rz_errors = 0\<rparr> db of (db, z) \<Rightarrow>
     then_do (db, iso_instant (time - FAILED_RETENTION_MILLISECONDS)) (\<lambda>db cutoffAt.
     then_do (scan_lane (nets FailedLane 0) FailedLane cutoffAt (nat maxPerState) db) (\<lambda>db candidates.
     case purge_candidates L (nets FailedLane) wall 1 candidates cutoffAt scheduledAt lease (nat maxChunks) z db of (db, z) \<Rightarrow>
       (db, Inr z)))))))))"

end
