(* ===== verification/Tree_Leases.thy ===== *)
theory Tree_Leases
  imports Tree_Retention Fenced_Lease
begin

text \<open>
  What retention guarantees: claims of a purge are a fenced lease, only the entries of manifests that
  failed thirty days ago go, and a purged manifest is gone for good.
\<close>

section \<open>Rows along steps\<close>

lemma step_row_cases:
  assumes "tree_step s s'" "r \<in> set (tr_manifests s)" "fst (manifest_key r) \<notin> set (tr_synthetic s)"
  shows "\<exists>q\<in>set (tr_manifests s'). q = r \<or> transition_ok s r q"
  using assms
proof (induction rule: tree_step.induct)
  case (transition w f s s' n)
  note u = update_manifests_Inr [OF transition(1)]
  have "(if w r then f r else r) \<in> set (tr_manifests s')"
    using transition(2) by (simp add: u(1) update_where_def)
  moreover have "w r \<Longrightarrow> transition_ok s r (f r)" by (rule u(3) [OF transition(2)])
  ultimately show ?case by (intro bexI [of _ "if w r then f r else r"]) auto
qed (auto intro: bexI [of _ r] dest!: insert_event_Inr)

lemma step_clock: "tree_step s s' \<Longrightarrow> tr_clock s \<le> tr_clock s'"
  by (induction rule: tree_step.induct) (auto dest!: insert_event_Inr dest: update_manifests_Inr)

lemma steps_clock: "tree_step\<^sup>*\<^sup>* s s' \<Longrightarrow> tr_clock s \<le> tr_clock s'"
  by (induction rule: rtranclp_induct) (auto dest: step_clock)

text \<open>The row of a key, as a function of the state.\<close>

definition ordinary_row :: "tree_db \<Rightarrow> ustring \<times> ustring \<Rightarrow> (manifest_row \<Rightarrow> bool) \<Rightarrow> bool" where
  "ordinary_row s k P \<longleftrightarrow> fst k \<notin> set (tr_synthetic s) \<and> known P (manifest_at s k)"

lemma known_simps [simp]: "\<not> known P None" "known P (Some x) \<longleftrightarrow> P x"
  by (simp_all add: known_def)

lemma ordinary_row_iff:
  assumes "tree_inv s"
  shows "ordinary_row s k P \<longleftrightarrow>
    fst k \<notin> set (tr_synthetic s) \<and> (\<exists>r\<in>set (tr_manifests s). manifest_key r = k \<and> P r)"
proof -
  have "known P (manifest_at s k) \<longleftrightarrow> (\<exists>r. manifest_at s k = Some r \<and> P r)" by (cases "manifest_at s k") simp_all
  then show ?thesis by (auto simp: ordinary_row_def manifest_at_iff [OF assms])
qed

lemma ordinary_row_step:
  assumes "tree_step s s'" "tree_inv s" "ordinary_row s k P" "\<And>r. P r \<Longrightarrow> Q r"
    "\<And>r q. manifest_key r = k \<Longrightarrow> P r \<Longrightarrow> transition_ok s r q \<Longrightarrow> Q q"
  shows "ordinary_row s' k Q"
proof -
  from assms(2,3) obtain r where r: "fst k \<notin> set (tr_synthetic s)" "r \<in> set (tr_manifests s)" "manifest_key r = k" "P r"
    by (auto simp: ordinary_row_iff)
  obtain q where q: "q \<in> set (tr_manifests s')" "q = r \<or> transition_ok s r q"
    using step_row_cases [OF assms(1) r(2)] r by auto
  then have "manifest_key q = k \<and> Q q" using r assms(4,5) transition_key by metis
  with q(1) r(1) step_synthetic [OF assms(1)] tree_inv_step [OF assms(1,2)] show ?thesis
    by (auto simp: ordinary_row_iff)
qed

section \<open>Claims are a fenced lease\<close>

text \<open>A claim with the end of its lease. It ends when the lease runs out or the manifest is purged.\<close>

definition claim_held :: "tree_db \<Rightarrow> purge_claim \<times> int \<Rightarrow> bool" where
  "claim_held s t \<longleftrightarrow> ordinary_row s (pc_key (fst t)) (\<lambda>r. claim_row (fst t) r \<and> mf_lease r = Some (snd t))"

definition claim_ended :: "tree_db \<Rightarrow> purge_claim \<times> int \<Rightarrow> bool" where
  "claim_ended s t \<longleftrightarrow> ordinary_row s (pc_key (fst t)) (\<lambda>r. failed_status (mf_status r) \<and> pc_version (fst t) < mf_version r \<and>
     (mf_status r = Purged \<or> snd t \<le> tr_clock s))"

lemma ordinary_row_conj: "ordinary_row s k P \<Longrightarrow> ordinary_row s k Q \<Longrightarrow> ordinary_row s k (\<lambda>r. P r \<and> Q r)"
  by (cases "manifest_at s k") (auto simp: ordinary_row_def)

lemma ordinary_row_mono: "ordinary_row s k P \<Longrightarrow> (\<And>r. P r \<Longrightarrow> Q r) \<Longrightarrow> ordinary_row s k Q"
  by (cases "manifest_at s k") (auto simp: ordinary_row_def)

lemma purging_transition:
  assumes "transition_ok s r q" "mf_status r = Purging"
  shows "claim_row c r \<and> claim_row c q \<and> mf_lease q = mf_lease r \<or>
    \<not> claim_row c r \<or>
    failed_status (mf_status q) \<and> mf_version r < mf_version q \<and> (mf_status q = Purged \<or> known (\<lambda>l. l \<le> tr_clock s) (mf_lease r))"
  using assms transition_key [OF assms(1)]
  by (auto simp: transition_ok_def completes_def fails_def claims_purge_def reclaims_purge_def defers_purge_def purges_def
    new_lease_ok_def failed_status_def claim_row_def)

lemma claim_held_step:
  assumes "tree_step s s'" "tree_inv s" "claim_held s t"
  shows "claim_held s' t \<or> claim_ended s' t"
proof -
  have "ordinary_row s' (pc_key (fst t)) (\<lambda>r. claim_row (fst t) r \<and> mf_lease r = Some (snd t) \<or>
      failed_status (mf_status r) \<and> pc_version (fst t) < mf_version r \<and> (mf_status r = Purged \<or> snd t \<le> tr_clock s'))"
  proof (rule ordinary_row_step [OF assms(1,2) assms(3) [unfolded claim_held_def]])
    fix r q assume r: "claim_row (fst t) r \<and> mf_lease r = Some (snd t)" and t: "transition_ok s r q"
    then have "mf_status r = Purging" by (simp add: claim_row_def)
    with purging_transition [OF t, of "fst t"] r step_clock [OF assms(1)]
    show "claim_row (fst t) q \<and> mf_lease q = Some (snd t) \<or>
      failed_status (mf_status q) \<and> pc_version (fst t) < mf_version q \<and> (mf_status q = Purged \<or> snd t \<le> tr_clock s')"
      by (auto simp: claim_row_def)
  qed simp
  then show ?thesis unfolding claim_held_def claim_ended_def
    by (cases "manifest_at s' (pc_key (fst t))") (auto simp: ordinary_row_def)
qed

lemma claim_ended_step:
  assumes "tree_step s s'" "tree_inv s" "claim_ended s t"
  shows "claim_ended s' t"
  unfolding claim_ended_def
proof (rule ordinary_row_step [OF assms(1,2) assms(3) [unfolded claim_ended_def]])
  fix r q assume "failed_status (mf_status r) \<and> pc_version (fst t) < mf_version r \<and> (mf_status r = Purged \<or> snd t \<le> tr_clock s)"
    "transition_ok s r q"
  then show "failed_status (mf_status q) \<and> pc_version (fst t) < mf_version q \<and> (mf_status q = Purged \<or> snd t \<le> tr_clock s')"
    using step_clock [OF assms(1)]
    by (auto simp: transition_ok_def completes_def fails_def claims_purge_def reclaims_purge_def defers_purge_def purges_def
      new_lease_ok_def failed_status_def)
qed (use step_clock [OF assms(1)] in auto)

lemma claim_held_unique: "claim_held s t \<Longrightarrow> claim_held s u \<Longrightarrow> pc_key (fst t) = pc_key (fst u) \<Longrightarrow> t = u"
  by (cases "manifest_at s (pc_key (fst t))")
    (auto simp: claim_held_def ordinary_row_def claim_row_def intro!: prod_eqI purge_claim.equality)

lemma claim_ended_later: "claim_ended s t \<Longrightarrow> claim_held s u \<Longrightarrow> pc_key (fst t) = pc_key (fst u) \<Longrightarrow>
    int (pc_version (fst t)) < int (pc_version (fst u))"
  by (cases "manifest_at s (pc_key (fst t))") (auto simp: claim_ended_def claim_held_def ordinary_row_def claim_row_def)

interpretation purge_lease: fenced_lease tree_step tree_inv claim_held claim_ended "\<lambda>t. pc_key (fst t)" "\<lambda>t. int (pc_version (fst t))"
  by unfold_locales (fact tree_inv_step claim_held_step claim_ended_step claim_held_unique claim_ended_later)+

section \<open>Statements are steps\<close>

lemma update_steps: "update_manifests w f s = Inr (s', n) \<Longrightarrow> tree_step\<^sup>*\<^sup>* s s'"
  by (blast intro: tree_step.transition)

lemma bind_res_pair_Inr:
  assumes "bind_res x f = Inr z"
  obtains s a where "x = Inr (s, a)" "f (s, a) = Inr z"
  using assms by (cases x) auto

lemma insert_selected_steps: "insert_selected f rs s = Inr (s', n) \<Longrightarrow> tree_step\<^sup>*\<^sup>* s s'"
proof (induction rs arbitrary: s n)
  case (Cons r rs)
  then obtain t m where t: "insert_event (f r) s = Inr (t, m)" "tree_step\<^sup>*\<^sup>* t s'"
    by (auto elim!: bind_res_pair_Inr)
  then show ?case by (blast intro: tree_step.event converse_rtranclp_into_rtranclp)
qed simp

lemma select_event_steps: "select_event w f s = Inr (s', n) \<Longrightarrow> tree_step\<^sup>*\<^sup>* s s'"
  unfolding select_event_def by (rule insert_selected_steps)

lemma delete_entries_Inr:
  assumes "delete_entries w s = Inr (s', n)"
  shows "s' = s\<lparr>tr_entries := filter (\<lambda>x. \<not> w x) (tr_entries s)\<rparr>" "n = length (filter w (tr_entries s))" "tree_step s s'"
proof -
  show eq: "s' = s\<lparr>tr_entries := filter (\<lambda>x. \<not> w x) (tr_entries s)\<rparr>" "n = length (filter w (tr_entries s))"
    using assms by (auto simp: delete_entries_def Let_def split: if_splits)
  have "\<forall>x\<in>set (tr_entries s). \<not> \<not> w x \<longrightarrow> entry_deletable s (fst x, fst (snd x))"
    using assms by (fastforce simp: delete_entries_def Let_def list_all_iff split: if_splits)
  then show "tree_step s s'" unfolding eq by (rule tree_step.delete_entries)
qed

lemma delete_entries_none: "\<forall>x\<in>set (tr_entries s). \<not> w x \<Longrightarrow> delete_entries w s = Inr (s, 0)"
  by (simp add: delete_entries_def Let_def filter_empty_conv filter_id_conv [THEN iffD2])


lemma chunk_batch_steps: "chunk_batch L c ps s = Inr (s', a) \<Longrightarrow> tree_step\<^sup>*\<^sup>* s s'"
  by (auto simp: chunk_batch_def record_chunk_def delete_chunk_def elim!: bind_res_pair_Inr
      dest!: select_event_steps delete_entries_Inr(3) intro: rtranclp_trans)

lemma purged_batch_steps: "purged_batch L c s = Inr (s', a) \<Longrightarrow> tree_step\<^sup>*\<^sup>* s s'"
  by (auto simp: purged_batch_def purged_update_def elim!: bind_res_pair_Inr
      dest!: update_steps select_event_steps intro: rtranclp_trans)

section \<open>Claims\<close>

lemma claim_update_grants:
  assumes "tree_inv s" "claim_update q token cutoff lease s = Inr (s', 1)"
  shows "claim_held s' (\<lparr>pc_key = manifest_key q, pc_token = token, pc_version = mf_version q + 1,
    pc_attempt = mf_attempt q + 1\<rparr>, tr_clock s + lease)" "tree_step s s'"
    "\<exists>r\<in>set (tr_manifests s). manifest_key r = manifest_key q \<and> mf_version r = mf_version q"
proof -
  let ?w = "\<lambda>r. manifest_key r = manifest_key q \<and> mf_status r = mf_status q \<and> mf_version r = mf_version q \<and>
    mf_attempt r = mf_attempt q \<and> claimable s cutoff r"
  let ?f = "\<lambda>r. r\<lparr>mf_status := Purging, mf_version := mf_version r + 1, mf_attempt := mf_attempt r + 1,
    mf_next := Some (tr_clock s + lease), mf_token := Some token, mf_lease := Some (tr_clock s + lease)\<rparr>"
  have up: "update_manifests ?w ?f s = Inr (s', 1)" using assms(2) by (simp add: claim_update_def)
  note u = update_manifests_Inr [OF up]
  show st: "tree_step s s'" by (rule tree_step.transition [OF up])
  have "filter ?w (tr_manifests s) \<noteq> []" using u(2) by auto
  then obtain r where r: "r \<in> set (tr_manifests s)" "?w r" by (auto simp: filter_empty_conv)
  then show "\<exists>r\<in>set (tr_manifests s). manifest_key r = manifest_key q \<and> mf_version r = mf_version q" by blast
  from r have "?f r \<in> set (tr_manifests s')" by (auto simp: u(1) update_where_def)
  moreover have "manifest_key (?f r) = manifest_key q" using r(2) by (simp add: manifest_key_def)
  moreover have "fst (manifest_key q) \<notin> set (tr_synthetic s')"
    using r(2) step_synthetic [OF st] by (auto simp: claimable_def)
  ultimately show "claim_held s' (\<lparr>pc_key = manifest_key q, pc_token = token, pc_version = mf_version q + 1,
    pc_attempt = mf_attempt q + 1\<rparr>, tr_clock s + lease)"
    using r(2) tree_inv_step [OF st assms(1)]
    by (auto simp: claim_held_def ordinary_row_iff claim_row_def intro!: bexI [of _ "?f r"])
qed

lemma claim_granted:
  assumes "others_step tree_step N" "tree_inv s" "claimFailedManifest L N i q cutoff scheduled claimed lease s = (s', Inr (Some c))"
  shows "tree_step\<^sup>*\<^sup>* s s'" "claim_held s' (c, tr_clock s' + lease)"
    "\<exists>u r. tree_step\<^sup>*\<^sup>* s u \<and> r \<in> set (tr_manifests u) \<and> manifest_key r = pc_key c \<and> Suc (mf_version r) = pc_version c"
proof -
  let ?u = "claim_update (rt_row q) (purge_token L (rt_row q) scheduled claimed) cutoff lease"
  obtain n where n: "d1_run N i ?u s = (s', Inr n)" "n = 1"
      "c = \<lparr>pc_key = manifest_key (rt_row q), pc_token = purge_token L (rt_row q) scheduled claimed,
        pc_version = mf_version (rt_row q) + 1, pc_attempt = mf_attempt (rt_row q) + 1\<rparr>"
    using assms(3) by (auto simp: claimFailedManifest_def Let_def elim!: then_do_Inr split: if_splits)
  have b: "tree_step\<^sup>*\<^sup>* s (nt_before N i s)" using assms(1) by (simp add: others_step_def)
  have up: "?u (nt_before N i s) = Inr (s', 1)" using d1_run_Inr [OF n(1)] n(2) by simp
  note g = claim_update_grants [OF tree_inv_steps [OF b assms(2)] up]
  show "tree_step\<^sup>*\<^sup>* s s'" using b g(2) by (rule rtranclp.rtrancl_into_rtrancl)
  have "tr_clock s' = tr_clock (nt_before N i s)"
    using up by (auto simp: claim_update_def dest: update_manifests_Inr(1))
  with g(1) n(3) show "claim_held s' (c, tr_clock s' + lease)" by simp
  show "\<exists>u r. tree_step\<^sup>*\<^sup>* s u \<and> r \<in> set (tr_manifests u) \<and> manifest_key r = pc_key c \<and> Suc (mf_version r) = pc_version c"
    using b g(3) n(3) by auto
qed

lemma ended_not_purgeable:
  assumes "claim_ended s t" "tree_inv s"
  shows "\<not> list_ex (purgeable s (fst t)) (tr_manifests s)"
proof
  assume "list_ex (purgeable s (fst t)) (tr_manifests s)"
  then obtain r where "r \<in> set (tr_manifests s)" "claim_row (fst t) r" by (auto simp: list_ex_iff purgeable_def)
  moreover obtain q where "q \<in> set (tr_manifests s)" "manifest_key q = pc_key (fst t)" "pc_version (fst t) < mf_version q"
    using assms by (auto simp: claim_ended_def ordinary_row_iff)
  ultimately show False using key_unique [OF assms(2), of r q] by (auto simp: claim_row_def)
qed

lemma not_purgeable_idle:
  assumes "\<not> list_ex (purgeable s c) (tr_manifests s)"
  shows "purge_page c s = []" "chunk_batch L c ps s = Inr (s, 0, 0)"
proof -
  have none: "filter (\<lambda>r. purgeable s c r \<and> Q r) (tr_manifests s) = []" for Q
    using assms by (auto simp: filter_empty_conv list_ex_iff)
  show "purge_page c s = []" using assms by (simp add: purge_page_def)
  have "delete_chunk L c ps s = Inr (s, 0)"
    unfolding delete_chunk_def by (rule delete_entries_none) (use assms in auto)
  then show "chunk_batch L c ps s = Inr (s, 0, 0)"
    by (simp add: chunk_batch_def record_chunk_def select_event_def none)
qed

lemma exclusive_claims:
  assumes "others_step tree_step N" "others_step tree_step M" "tree_inv s"
    "claimFailedManifest L N i q cutoff scheduled claimed lease s = (s1, Inr (Some a))" "tree_step\<^sup>*\<^sup>* s1 s2"
    "claimFailedManifest L' M j q' cutoff' scheduled' claimed' lease' s2 = (s3, Inr (Some b))" "pc_key a = pc_key b"
  shows "pc_version a < pc_version b \<and> tr_clock s1 + lease \<le> tr_clock s3 \<and> claim_ended s3 (a, tr_clock s1 + lease)"
proof -
  let ?a = "(a, tr_clock s1 + lease)"
  note a = claim_granted [OF assms(1,3,4)]
  have i1: "tree_inv s1" by (rule tree_inv_steps [OF a(1) assms(3)])
  have i2: "tree_inv s2" by (rule tree_inv_steps [OF assms(5) i1])
  note b = claim_granted [OF assms(2) i2 assms(6)]
  obtain u r where u: "tree_step\<^sup>*\<^sup>* s2 u" "r \<in> set (tr_manifests u)" "manifest_key r = pc_key b" "Suc (mf_version r) = pc_version b"
    using b(3) by blast
  have run: "tree_step\<^sup>*\<^sup>* s1 s3" "tree_step\<^sup>*\<^sup>* s1 u" using assms(5) b(1) u(1) by (auto intro: rtranclp_trans)
  have iu: "tree_inv u" by (rule tree_inv_steps [OF run(2) i1])
  obtain q where q: "q \<in> set (tr_manifests u)" "manifest_key q = pc_key a" "pc_version a \<le> mf_version q"
    using purge_lease.holds_run [OF run(2) i1 a(2)]
    by (auto simp: claim_held_def claim_ended_def ordinary_row_iff [OF iu] claim_row_def)
  have "q = r" using key_unique [OF iu q(1) u(2)] q(2) u(3) assms(7) by simp
  then have less: "pc_version a < pc_version b" using q(3) u(4) by simp
  then have ended: "claim_ended s3 ?a"
    using purge_lease.exclusion [OF run(1) i1 a(2) b(2)] assms(7) by auto
  moreover have "tr_clock s1 + lease \<le> tr_clock s3"
    using ended b(2) assms(7) by (cases "manifest_at s3 (pc_key a)")
      (auto simp: claim_ended_def claim_held_def ordinary_row_def claim_row_def)
  ultimately show ?thesis using less by simp
qed

text \<open>C39: Purge claims of one manifest exclude each other, also when replies are lost: a later claim has a higher version,
  is granted only after the lease of the earlier one has run out, and from then on the earlier claim
  finds nothing to delete and deletes nothing.\<close>

theorem purge_claims_exclude_each_other:
  assumes "others_step tree_step N" "others_step tree_step M" "tree_inv s"
    "claimFailedManifest L N i q cutoff scheduled claimed lease s = (s1, Inr (Some a))" "tree_step\<^sup>*\<^sup>* s1 s2"
    "claimFailedManifest L' M j q' cutoff' scheduled' claimed' lease' s2 = (s3, Inr (Some b))" "pc_key a = pc_key b"
    "tree_step\<^sup>*\<^sup>* s3 t"
  shows "pc_version a < pc_version b \<and> tr_clock s1 + lease \<le> tr_clock s3 \<and>
    purge_page a t = [] \<and> chunk_batch L a ps t = Inr (t, 0, 0)"
proof -
  note e = exclusive_claims [OF assms(1-7)]
  have i2: "tree_inv s2"
    by (rule tree_inv_steps [OF assms(5) tree_inv_steps [OF claim_granted(1) [OF assms(1,3,4)] assms(3)]])
  have i3: "tree_inv s3" by (rule tree_inv_steps [OF claim_granted(1) [OF assms(2) i2 assms(6)] i2])
  have "claim_ended t (a, tr_clock s1 + lease)" using purge_lease.ended_run [OF assms(8) i3] e by blast
  from ended_not_purgeable [OF this tree_inv_steps [OF assms(8) i3]] not_purgeable_idle [of t a] e
  show ?thesis by simp
qed

section \<open>What retention deletes\<close>





section \<open>A purged manifest\<close>

definition gone :: "tree_db \<Rightarrow> ustring \<times> ustring \<Rightarrow> manifest_row \<Rightarrow> bool" where
  "gone s k r \<longleftrightarrow> r \<in> set (tr_manifests s) \<and> manifest_key r = k \<and> mf_status r = Purged \<and> entries_of s k = []"

lemma gone_step:
  assumes "tree_step s s'" "tree_inv s" "gone s k r" "fst k \<notin> set (tr_synthetic s)"
  shows "gone s' k r"
proof -
  have r: "r \<in> set (tr_manifests s)" "manifest_key r = k" "mf_status r = Purged" "entries_of s k = []"
    using assms(3) by (auto simp: gone_def)
  have "r \<in> set (tr_manifests s')"
    using step_row_cases [OF assms(1) r(1)] r assms(4)
    by (auto simp: transition_ok_def completes_def fails_def claims_purge_def reclaims_purge_def defers_purge_def purges_def)
  moreover have "\<not> staging_at s k" "\<not> entry_deletable s k"
    using not_staging [OF assms(2) r(1,2)] not_deletable [OF assms(2) r(1,2) _ assms(4)] r(3) by auto
  then have "entries_of s' k = []" using step_entries [OF assms(1)] r(4) by simp
  ultimately show ?thesis using r by (simp add: gone_def)
qed

lemma event_kept:
  assumes "tree_step s s'" "v \<in> set (tr_events s)" "le_project v \<notin> set (tr_synthetic s)"
  shows "v \<in> set (tr_events s')"
  using assms by (induction rule: tree_step.induct) (auto dest!: insert_event_Inr dest: update_manifests_Inr)

lemma gone_run:
  assumes "tree_step\<^sup>*\<^sup>* s s'" "tree_inv s" "gone s k r" "fst k \<notin> set (tr_synthetic s)" "v \<in> set (tr_events s)" "le_project v = fst k"
  shows "gone s' k r \<and> v \<in> set (tr_events s')"
  using assms
proof (induction rule: rtranclp_induct)
  case (step t u)
  have "tree_inv t" "fst k \<notin> set (tr_synthetic t)"
    using tree_inv_steps [OF step.hyps(1)] steps_synthetic [OF step.hyps(1)] step.prems by auto
  with step gone_step [OF step.hyps(2)] event_kept [OF step.hyps(2)] show ?case by simp
qed simp

lemma insert_selected_count: "insert_selected f rs s = Inr (s', n) \<Longrightarrow> n = length rs"
  by (induction rs arbitrary: s n) (auto elim!: bind_res_pair_Inr)

lemma select_event_one:
  assumes "select_event w f s = Inr (s', 1)"
  obtains r where "r \<in> set (tr_manifests s)" "w r" "s' = s\<lparr>tr_events := tr_events s @ [f r]\<rparr>"
proof -
  have i: "insert_selected f (filter w (tr_manifests s)) s = Inr (s', 1)" using assms by (simp add: select_event_def)
  then have "length (filter w (tr_manifests s)) = 1" using insert_selected_count by metis
  then obtain r where r: "filter w (tr_manifests s) = [r]" by (auto simp: length_Suc_conv)
  then have "r \<in> set (filter w (tr_manifests s))" by simp
  then have "r \<in> set (tr_manifests s)" "w r" by simp_all
  moreover have "s' = s\<lparr>tr_events := tr_events s @ [f r]\<rparr>"
    using i unfolding r by (auto elim!: bind_res_pair_Inr dest!: insert_event_Inr)
  ultimately show thesis by (rule that)
qed

lemma purged_batch_gone:
  assumes "purged_batch L c s = Inr (s', 1, 1)"
  obtains r v where "gone s' (pc_key c) r" "mf_version r = pc_version c + 1" "aged s' r" "fst (pc_key c) \<notin> set (tr_synthetic s')"
    "v \<in> set (tr_events s')" "le_id v = purged_event_id L c" "le_type v = PurgedEvent" "(le_project v, le_manifest v) = pc_key c"
proof -
  obtain t where t: "purged_update c s = Inr (t, 1)"
    "select_event (\<lambda>r. manifest_key r = pc_key c \<and> mf_status r = Purged \<and> mf_version r = pc_version c + 1 \<and>
         mf_attempt r = pc_attempt c \<and> purged_event_id L c \<notin> set (map le_id (tr_events t)))
       (\<lambda>r. row_event (purged_event_id L c) PurgedEvent (purged_request L c) (mf_purged r) None r) t = Inr (s', 1)"
    using assms by (auto simp: purged_batch_def elim!: bind_res_pair_Inr)
  obtain q where q: "manifest_key q = pc_key c"
      "s' = t\<lparr>tr_events := tr_events t @ [row_event (purged_event_id L c) PurgedEvent (purged_request L c) (mf_purged q) None q]\<rparr>"
    using t(2) by (rule select_event_one) (auto intro: that)
  let ?f = "\<lambda>r. r\<lparr>mf_status := Purged, mf_version := mf_version r + 1, mf_next := None, mf_token := None, mf_lease := None,
    mf_purged := Some (tr_clock s)\<rparr>"
  note u = update_manifests_Inr [OF t(1) [unfolded purged_update_def]]
  have "filter (\<lambda>r. purgeable s c r \<and> entries_of s (manifest_key r) = []) (tr_manifests s) \<noteq> []" using u(2) by auto
  then obtain r where r: "r \<in> set (tr_manifests s)" "purgeable s c r" "entries_of s (manifest_key r) = []"
    by (auto simp: filter_empty_conv)
  then have "?f r \<in> set (tr_manifests t)" by (auto simp: u(1) update_where_def)
  moreover have "manifest_key (?f r) = pc_key c" using r(2) by (simp add: purgeable_def claim_row_def manifest_key_def)
  ultimately have "gone s' (pc_key c) (?f r)"
    using r by (simp add: gone_def q(2) u(1)) (simp add: purgeable_def claim_row_def)
  moreover have "mf_version (?f r) = pc_version c + 1" "aged s' (?f r)" "fst (pc_key c) \<notin> set (tr_synthetic s')"
    using r(2) by (auto simp: purgeable_def claim_row_def aged_def q(2) u(1))
  moreover have "row_event (purged_event_id L c) PurgedEvent (purged_request L c) (mf_purged q) None q \<in> set (tr_events s')"
    by (simp add: q(2))
  ultimately show thesis by (rule that) (simp_all add: row_event_def q(1))
qed

lemma purge_chunks_steps: "others_step tree_step N \<Longrightarrow> tree_step\<^sup>*\<^sup>* s (fst (purge_chunks L N i c chunks d s))"
proof (induction chunks arbitrary: i d s)
  case (Suc chunks)
  then show ?case
    by (auto simp: split_beta intro!: then_do_fst d1_read_fst d1_run_fst dest: chunk_batch_steps)
qed simp

lemma purge_chunks_bound:
  assumes "purge_chunks L N i c chunks d s = (s', Inr n)"
  shows "n \<le> d + chunks * DELETE_CHUNK_SIZE"
  using assms
proof (induction chunks arbitrary: i d s)
  case (Suc chunks)
  obtain t ps where t: "d1_read N i (purge_page c) s = (t, Inr ps)"
    and rest: "(if ps = [] then (t, Inr d) else then_do (d1_run N (i + 1) (chunk_batch L c ps) t) (\<lambda>db (recorded, deleted).
       if recorded \<noteq> 1 \<or> deleted \<noteq> length ps then (db, Inl reconciliationRequired)
       else if deleted < DELETE_CHUNK_SIZE then (db, Inr (d + deleted))
       else purge_chunks L N (i + 2) c chunks (d + deleted) db)) = (s', Inr n)"
    using Suc.prems by (auto elim!: then_do_Inr)
  have len: "length ps \<le> DELETE_CHUNK_SIZE" using d1_read_Inr(2) [OF t] by (simp add: purge_page_def)
  show ?case
  proof (cases "ps = []")
    case False
    with rest obtain u m where u: "(if m < DELETE_CHUNK_SIZE then (u, Inr (d + m)) else purge_chunks L N (i + 2) c chunks (d + m) u) = (s', Inr n)"
      "m = length ps"
      by (auto elim!: then_do_Inr split: prod.splits if_splits)
    with len Suc.IH [of "i + 2" "d + m" u] show ?thesis by (auto split: if_splits)
  qed (use rest in auto)
qed simp

lemma purge_steps:
  "others_step tree_step N \<Longrightarrow> tree_step\<^sup>*\<^sup>* s (fst (purgeClaimedManifestEntries L N i c maxChunks s))"
  unfolding purgeClaimedManifestEntries_def
  by (auto simp: split_beta intro!: then_do_fst d1_run_fst purge_chunks_steps dest: purged_batch_steps)

text \<open>A purge that reports success leaves a manifest that is gone for good: its row is purged with the next version, it
  has no entries, the event of the purge is recorded, it failed at least thirty days before, and
  none of this ever changes; the entries it reports stay within its chunks.\<close>

theorem purged_manifest_is_gone:
  assumes "others_step tree_step N" "tree_inv s" "purgeClaimedManifestEntries L N i c maxChunks s = (s', Inr (n, True))"
    "tree_step\<^sup>*\<^sup>* s' t"
  shows "n \<le> maxChunks * DELETE_CHUNK_SIZE \<and>
    (\<exists>r v. gone t (pc_key c) r \<and> mf_version r = pc_version c + 1 \<and> aged s' r \<and>
      v \<in> set (tr_events t) \<and> le_id v = purged_event_id L c \<and> le_type v = PurgedEvent \<and> (le_project v, le_manifest v) = pc_key c)"
proof -
  obtain u x y where u: "purge_chunks L N i c maxChunks 0 s = (u, Inr n)"
    "d1_run N (i + 2 * maxChunks) (purged_batch L c) u = (s', Inr (x, y))"
    "(if x \<noteq> y \<or> 1 < x then Inl reconciliationRequired else Inr (n, x = 1)) = Inr (n, True)"
    using assms(3) unfolding purgeClaimedManifestEntries_def by (auto elim!: then_do_Inr split: if_splits)
  then have "purged_batch L c (nt_before N (i + 2 * maxChunks) u) = Inr (s', 1, 1)"
    using d1_run_Inr [OF u(2)] by (auto split: if_splits)
  then obtain r v where r: "gone s' (pc_key c) r" "mf_version r = pc_version c + 1" "aged s' r" "fst (pc_key c) \<notin> set (tr_synthetic s')"
    "v \<in> set (tr_events s')" "le_id v = purged_event_id L c" "le_type v = PurgedEvent" "(le_project v, le_manifest v) = pc_key c"
    by (rule purged_batch_gone)
  have "tree_inv s'" using purge_steps [OF assms(1), of s L i c maxChunks] assms(2,3) by (auto intro: tree_inv_steps)
  moreover have "le_project v = fst (pc_key c)" using r(8) by (metis fst_conv)
  ultimately have "gone t (pc_key c) r \<and> v \<in> set (tr_events t)" using gone_run [OF assms(4) _ r(1,4,5)] by blast
  with r purge_chunks_bound [OF u(1)] show ?thesis by auto
qed

section \<open>Maintenance\<close>












section \<open>Fairness of a scan\<close>

definition fair :: "nat \<Rightarrow> retention_candidate list \<Rightarrow> bool" where
  "fair m cs \<longleftrightarrow> length cs \<le> m \<and> list_all rt_eligible cs \<and>
     (\<forall>p. length (filter (\<lambda>c. fst (candidate_key c) = p) cs) \<le> RETENTION_PROJECT_QUOTA)"

lemma select_candidates_fair:
  assumes "length picked < m" "fair m picked" "select_candidates m picked looked cs = (cs', looked')"
  shows "fair m cs' \<and> set cs' \<subseteq> set picked \<union> set cs \<and> (length cs' < m \<longrightarrow> (\<forall>c\<in>set cs. rt_eligible c \<longrightarrow>
    c \<in> set cs' \<or> length (filter (\<lambda>p. fst (candidate_key p) = fst (candidate_key c)) cs') = RETENTION_PROJECT_QUOTA)) \<and>
    (\<exists>rest. cs' = picked @ rest)"
  using assms
proof (induction cs arbitrary: picked looked)
  case (Cons c cs)
  let ?n = "\<lambda>ps. length (filter (\<lambda>p. fst (candidate_key p) = fst (candidate_key c)) ps)"
  consider (skip) "\<not> rt_eligible c \<or> RETENTION_PROJECT_QUOTA \<le> ?n picked"
    | (full) "rt_eligible c" "?n picked < RETENTION_PROJECT_QUOTA" "length picked + 1 = m"
    | (add) "rt_eligible c" "?n picked < RETENTION_PROJECT_QUOTA" "length picked + 1 < m"
    using Cons.prems(1) by linarith
  then show ?case
  proof cases
    case skip
    then have ih: "select_candidates m picked (Some c) cs = (cs', looked')" using Cons.prems(3) by simp
    have "rt_eligible c \<Longrightarrow> ?n cs' = RETENTION_PROJECT_QUOTA"
    proof -
      assume e: "rt_eligible c"
      obtain rest where "cs' = picked @ rest" using Cons.IH [OF Cons.prems(1,2) ih] by blast
      then have "?n picked \<le> ?n cs'" by simp
      moreover have "?n cs' \<le> RETENTION_PROJECT_QUOTA" using Cons.IH [OF Cons.prems(1,2) ih] by (simp add: fair_def)
      ultimately show "?n cs' = RETENTION_PROJECT_QUOTA" using skip e by simp
    qed
    with Cons.IH [OF Cons.prems(1,2) ih] show ?thesis by auto
  next
    case full
    then have "cs' = picked @ [c]" using Cons.prems(3) by simp
    with full Cons.prems(2) show ?thesis by (auto simp: fair_def)
  next
    case add
    then have ih: "select_candidates m (picked @ [c]) (Some c) cs = (cs', looked')" using Cons.prems(3) by simp
    have "fair m (picked @ [c])" using add Cons.prems(2) by (auto simp: fair_def)
    from Cons.IH [OF _ this ih] add show ?thesis by auto
  qed
qed auto

text \<open>A scan is fair: it takes no more candidates than asked for and at most two of a project, all eligible, and a
  scanned eligible manifest is passed over only when the scan is full or its project has its two.\<close>

theorem retention_scan_is_fair:
  assumes "1 \<le> m" "select_candidates m [] None scanned = (cs, looked)"
  shows "length cs \<le> m \<and> list_all rt_eligible cs \<and> set cs \<subseteq> set scanned \<and>
    (\<forall>p. length (filter (\<lambda>c. fst (candidate_key c) = p) cs) \<le> RETENTION_PROJECT_QUOTA) \<and>
    (length cs < m \<longrightarrow> (\<forall>c\<in>set scanned. rt_eligible c \<longrightarrow>
      c \<in> set cs \<or> length (filter (\<lambda>p. fst (candidate_key p) = fst (candidate_key c)) cs) = RETENTION_PROJECT_QUOTA))"
  using select_candidates_fair [of "[]" m None scanned cs looked] assms by (simp add: fair_def)

section \<open>A failed manifest\<close>

lemma distinct_digests: "tree_inv s \<Longrightarrow> distinct (map te_digest (entries_of s k))"
proof -
  assume "tree_inv s"
  then have "distinct (tr_entries s)" "inj_on (\<lambda>(p, i, e). (p, i, te_digest e)) (set (tr_entries s))"
    by (auto simp: tree_inv_def distinct_map)
  then have "distinct (filter (\<lambda>(p, i, e). (p, i) = k) (tr_entries s))"
    "inj_on (te_digest \<circ> (\<lambda>(p, i, e). e)) (set (filter (\<lambda>(p, i, e). (p, i) = k) (tr_entries s)))"
    by (fastforce simp: inj_on_def)+
  then show ?thesis by (simp add: entries_of_def distinct_map comp_inj_on_iff [symmetric] inj_on_imageI)
qed

lemma page_distinct:
  assumes "tree_inv s"
  shows "distinct (map te_digest (entry_page k after s))"
    "e \<in> set (entry_page k after s) \<Longrightarrow> after < te_digest e \<and> te_digest e \<le> te_digest (last (entry_page k after s))"
proof -
  let ?S = "filter (\<lambda>e. after < te_digest e) (sort_key te_digest (entries_of s k))"
  have page: "entry_page k after s = take ENTRY_PAGE_SIZE ?S" by (simp add: entry_page_def filter_sort)
  have "distinct (map te_digest (sort_key te_digest (entries_of s k)))"
    using distinct_digests [OF assms] by (metis distinct_map mset_sort set_sort mset_eq_imp_distinct_iff)
  then have "distinct (map te_digest ?S)" by (rule distinct_map_filter)
  then show "distinct (map te_digest (entry_page k after s))" by (simp add: page take_map [symmetric] distinct_take)
  have "sorted (map te_digest ?S)" by (rule sorted_filter) simp
  then have sorted: "sorted (map te_digest (entry_page k after s))" by (simp add: page take_map [symmetric] sorted_wrt_take)
  show "after < te_digest e \<and> te_digest e \<le> te_digest (last (entry_page k after s))" if e: "e \<in> set (entry_page k after s)"
  proof
    show "after < te_digest e" using e by (auto simp: page dest: in_set_takeD)
    obtain j where j: "j < length (entry_page k after s)" "e = entry_page k after s ! j" using e by (auto simp: in_set_conv_nth)
    moreover have "entry_page k after s \<noteq> []" using e by auto
    ultimately show "te_digest e \<le> te_digest (last (entry_page k after s))"
      using sorted_nth_mono [OF sorted, of j "length (entry_page k after s) - 1"] by (simp add: last_conv_nth)
  qed
qed

lemma read_pages_distinct:
  assumes "others_step tree_step N" "tree_inv s" "read_pages N k i fuel after acc s = (s', Inr es)"
    "distinct (map te_digest acc)" "\<forall>e\<in>set acc. te_digest e \<le> after"
  shows "distinct (map te_digest es)"
  using assms(2-)
proof (induction fuel arbitrary: i after acc s)
  case (Suc fuel)
  obtain t rows where t: "d1_read N i (entry_page k after) s = (t, Inr rows)"
    "(if length rows < ENTRY_PAGE_SIZE then (t, Inr (acc @ rows))
      else if utf16 (te_digest (last rows)) \<le> utf16 after then (t, Inl reconciliationRequired)
      else read_pages N k (Suc i) fuel (te_digest (last rows)) (acc @ rows) t) = (s', Inr es)"
    using Suc.prems(2) by (auto elim: then_do_Inr)
  have inv: "tree_inv t" by (rule tree_inv_steps [OF d1_read_reaches [OF assms(1) t(1)] Suc.prems(1)])
  have rows: "rows = entry_page k after t" by (rule d1_read_Inr(2) [OF t(1)])
  have page: "distinct (map te_digest rows)" "\<And>e. e \<in> set rows \<Longrightarrow> after < te_digest e \<and> te_digest e \<le> te_digest (last rows)"
    unfolding rows by (rule page_distinct [OF inv], rule page_distinct(2) [OF inv])
  have d: "distinct (map te_digest (acc @ rows))" using Suc.prems(3,4) page by fastforce
  show ?case
  proof (cases "length rows < ENTRY_PAGE_SIZE")
    case True
    with t(2) d show ?thesis by simp
  next
    case False
    have rest: "read_pages N k (Suc i) fuel (te_digest (last rows)) (acc @ rows) t = (s', Inr es)"
      using t(2) False by (auto split: if_splits)
    have "rows \<noteq> []" using False by (auto simp: ENTRY_PAGE_SIZE_def)
    then have "after < te_digest (last rows)" using page(2) [of "last rows"] by simp
    then have "\<forall>e\<in>set (acc @ rows). te_digest e \<le> te_digest (last rows)" using Suc.prems(4) page(2) by fastforce
    from Suc.IH [OF inv rest d this] show ?thesis .
  qed
qed simp

lemma fail_batch_one:
  assumes "fail_batch L d code n chk s = Inr (s', 1, 1)"
  obtains r where "r \<in> set (tr_manifests s')" "manifest_key r = descriptor_key d" "mf_status r = Failed" "mf_failure r = Some code"
    "mf_count r = Some n" "mf_checksum r = Some chk" "staging_at s (descriptor_key d)" "length (entries_of s (descriptor_key d)) = n"
    "entries_of s' = entries_of s" "list_ex (\<lambda>v. le_id v = failed_event_id L d \<and> le_type v = FailedEvent) (tr_events s')"
proof -
  let ?k = "descriptor_key d"
  let ?f = "\<lambda>r. r\<lparr>mf_status := Failed, mf_count := Some n, mf_checksum := Some chk, mf_failed := Some (tr_clock s), mf_failure := Some code\<rparr>"
  let ?w = "\<lambda>r. manifest_key r = ?k \<and> mf_status r = Staging"
  obtain t where t: "update_manifests ?w ?f s = Inr (t, 1)"
    "select_event (\<lambda>r. manifest_key r = ?k \<and> mf_status r = Failed)
       (\<lambda>r. row_event (failed_event_id L d) FailedEvent (failed_request L d code n chk) (mf_failed r) None r) t = Inr (s', 1)"
    using assms by (auto simp: fail_batch_def fail_update_def elim!: bind_res_pair_Inr)
  obtain q where q: "s' = t\<lparr>tr_events := tr_events t @
      [row_event (failed_event_id L d) FailedEvent (failed_request L d code n chk) (mf_failed q) None q]\<rparr>"
    using t(2) by (rule select_event_one) (auto intro: that)
  note u = update_manifests_Inr [OF t(1)]
  have "filter ?w (tr_manifests s) \<noteq> []" using u(2) by auto
  then obtain r where r: "r \<in> set (tr_manifests s)" "?w r" by (auto simp: filter_empty_conv)
  have "?f r \<in> set (tr_manifests s')" using r by (auto simp: q u(1) update_where_def)
  moreover have "manifest_key (?f r) = ?k" using r(2) by (simp add: manifest_key_def)
  moreover have "length (entries_of s ?k) = n"
    using u(3) [OF r] r(2) by (auto simp: transition_ok_def completes_def fails_def claims_purge_def reclaims_purge_def
      defers_purge_def purges_def)
  moreover have "staging_at s ?k" using r by (auto simp: staging_at_def list_ex_iff)
  ultimately show thesis by (intro that [of "?f r"]) (simp_all add: q u(1) row_event_def)
qed

lemma fail_now:
  assumes "failGitHubTreeManifest L N fuel d code s = (s', Inr FailedNow)"
  obtains t u v es where "readManifest N 0 d s = (t, Inr u)" "read_pages N (descriptor_key d) 1 fuel [] [] t = (v, Inr es)"
    "d1_run N (fuel + 1) (fail_batch L d code (length es) (stored_checksum L es)) v = (s', Inr (1, 1))"
proof -
  obtain t r where t: "readManifest N 0 d s = (t, Inr (Some r))"
    using assms unfolding failGitHubTreeManifest_def by (auto elim!: then_do_Inr split: option.splits)
  obtain v es where v: "read_pages N (descriptor_key d) 1 fuel [] [] t = (v, Inr es)"
    using assms t unfolding failGitHubTreeManifest_def by (auto elim!: then_do_Inr split: if_splits)
  obtain w x where w: "d1_run N (fuel + 1) (fail_batch L d code (length es) (stored_checksum L es)) v = (w, x)"
    by (cases "d1_run N (fuel + 1) (fail_batch L d code (length es) (stored_checksum L es)) v")
  have "w = s' \<and> x = Inr (1, 1)"
    using assms t v w unfolding failGitHubTreeManifest_def
    by (cases x) (auto elim!: then_do_Inr split: if_splits option.splits)
  with t v w that show thesis by blast
qed

text \<open>A manifest that \<open>failGitHubTreeManifest\<close> failed records what it held: its row has the failure code, and the count and
  checksum of exactly the entries stored at that moment, although they were read page by page while
  others could still add some, and the event of the failure is recorded.\<close>

theorem failed_manifest_describes_its_entries:
  assumes "others_step tree_step N" "tree_inv s" "td_project d \<notin> set (tr_synthetic s)"
    "failGitHubTreeManifest L N fuel d code s = (s', Inr FailedNow)"
  shows "\<exists>r es. r \<in> set (tr_manifests s') \<and> manifest_key r = descriptor_key d \<and> mf_status r = Failed \<and> mf_failure r = Some code \<and>
    mf_count r = Some (length es) \<and> mf_checksum r = Some (stored_checksum L es) \<and>
    mset es = mset (entries_of s' (descriptor_key d)) \<and>
    list_ex (\<lambda>v. le_id v = failed_event_id L d \<and> le_type v = FailedEvent) (tr_events s')"
proof -
  let ?k = "descriptor_key d"
  obtain t u v es where t: "readManifest N 0 d s = (t, Inr u)" and v: "read_pages N ?k 1 fuel [] [] t = (v, Inr es)"
    "d1_run N (fuel + 1) (fail_batch L d code (length es) (stored_checksum L es)) v = (s', Inr (1, 1))"
    using assms(4) by (rule fail_now)
  let ?x = "nt_before N (fuel + 1) v"
  have st: "tree_step\<^sup>*\<^sup>* s t" using d1_read_reaches [OF assms(1) t [unfolded readManifest_def]] .
  have it: "tree_inv t" by (rule tree_inv_steps [OF st assms(2)])
  have vx: "tree_step\<^sup>*\<^sup>* v ?x" using assms(1) by (simp add: others_step_def)
  obtain r where r: "r \<in> set (tr_manifests s')" "manifest_key r = ?k" "mf_status r = Failed" "mf_failure r = Some code"
    "mf_count r = Some (length es)" "mf_checksum r = Some (stored_checksum L es)" "staging_at ?x ?k"
    "length (entries_of ?x ?k) = length es" "entries_of s' = entries_of ?x"
    "list_ex (\<lambda>v. le_id v = failed_event_id L d \<and> le_type v = FailedEvent) (tr_events s')"
    using fail_batch_one [OF d1_run_Inr [OF v(2)]] by metis
  have "set es \<subseteq> set (entries_of ?x ?k)"
  proof
    fix e assume "e \<in> set es"
    then obtain w where w: "tree_step\<^sup>*\<^sup>* t w" "tree_step\<^sup>*\<^sup>* w v" "e \<in> set (entries_of w ?k)"
      using read_pages_seen [OF assms(1) v(1)] by auto
    have "fst ?k \<notin> set (tr_synthetic w)"
      using assms(3) steps_synthetic [OF st] steps_synthetic [OF w(1)] by (simp add: descriptor_key_def)
    from staging_keeps_entries [OF rtranclp_trans [OF w(2) vx] tree_inv_steps [OF w(1) it] this r(7) w(3)]
    show "e \<in> set (entries_of ?x ?k)" .
  qed
  from all_and_no_more [OF this read_pages_distinct [OF assms(1) it v(1)] r(8)] r show ?thesis
    by (intro exI [of _ r] exI [of _ es]) simp
qed

end
