(* ===== verification/Tree_Retention_Runs.thy ===== *)
theory Tree_Retention_Runs
  imports Tree_Leases
begin

text \<open>Concrete runs of retention, on which its properties are evaluated.\<close>

definition idle :: "tree_db net" where
  "idle = \<lparr>nt_before = (\<lambda>i s. s), nt_fate = (\<lambda>i. Delivered)\<rparr>"

lemma idle_others: "others_step tree_step idle"
  by (simp add: others_step_def idle_def)

lemma idle_undisturbed: "undisturbed idle"
  by (simp add: undisturbed_def idle_def)

section \<open>Two claims\<close>

definition demo_lease :: int where "demo_lease = 600000"

definition failed_row :: manifest_row where
  "failed_row = (staging_row demo_tree_descriptor)\<lparr>mf_status := Failed, mf_count := Some 0, mf_checksum := Some (replicate 64 97),
     mf_failed := Some 2000, mf_failure := Some ReconciliationRequired\<rparr>"

definition old_failure :: tree_db where
  "old_failure = \<lparr>tr_manifests = [failed_row], tr_entries = [], tr_events = [], tr_references = [], tr_synthetic = [],
     tr_repositories = [(str ''p'', str ''r'')], tr_runs = [], tr_cursors = [], tr_clock = 2000 + 31 * day_ms\<rparr>"

definition claimed_row :: "manifest_row \<Rightarrow> ustring \<Rightarrow> int \<Rightarrow> manifest_row" where
  "claimed_row r token until = r\<lparr>mf_status := Purging, mf_version := mf_version r + 1, mf_attempt := mf_attempt r + 1,
     mf_next := Some until, mf_token := Some token, mf_lease := Some until\<rparr>"

lemma claim_one_row:
  assumes "tr_manifests s = [r]" "claimable s cutoff r" "mf_status r = Failed \<or> mf_status r = Purging" "aged s r"
    "0 < lease" "lease \<le> 30 * minute_ms" "manifest_check (claimed_row r token (tr_clock s + lease))"
    "mf_status r = Purging \<Longrightarrow> known (\<lambda>n. n \<le> tr_clock s) (mf_next r)"
  shows "claim_update r token cutoff lease s = Inr (s\<lparr>tr_manifests := [claimed_row r token (tr_clock s + lease)]\<rparr>, 1)"
proof -
  let ?q = "claimed_row r token (tr_clock s + lease)"
  have "claims_purge s r ?q \<or> reclaims_purge s r ?q"
    using assms(2-6,8) by (auto simp: claims_purge_def reclaims_purge_def claimed_row_def same_failure_def new_lease_ok_def claimable_def)
  then have "transition_ok s r ?q" by (auto simp: transition_ok_def claimed_row_def)
  with assms(1,2,7) show ?thesis
    by (simp add: claim_update_def update_manifests_def update_where_def claimed_row_def)
qed

lemma demo_token: "digest_text (purge_token demo_tree_lib r a b)"
  using demo_hash by (simp add: hash_ok_def purge_token_def)

lemma digest_97: "digest_text (replicate 64 97)"
  by (simp add: digest_text_def hex_lower_char_def list_all_iff)

lemma demo_descriptor_ok: "descriptor_check demo_tree_descriptor"
  using demo_descriptor by (simp add: manifest_check_def staging_row_def)

definition demo_claim_state :: "tree_db \<times> (thrown + purge_claim option)" where
  "demo_claim_state = claimFailedManifest demo_tree_lib idle 0 \<lparr>rt_row = failed_row, rt_eligible = True\<rparr> (2000 + 31 * day_ms) 7 7 demo_lease old_failure"

definition first_claim :: purge_claim where
  "first_claim = \<lparr>pc_key = descriptor_key demo_tree_descriptor, pc_token = purge_token demo_tree_lib failed_row 7 7, pc_version = 1, pc_attempt = 1\<rparr>"

definition first_row :: manifest_row where
  "first_row = claimed_row failed_row (purge_token demo_tree_lib failed_row 7 7) (2000 + 31 * day_ms + demo_lease)"

lemma failed_row_simps:
  "mf_descriptor failed_row = demo_tree_descriptor" "mf_status failed_row = Failed" "mf_version failed_row = 0" "mf_attempt failed_row = 0"
  "mf_failed failed_row = Some 2000" "mf_next failed_row = None" "manifest_key failed_row = descriptor_key demo_tree_descriptor"
  by (simp_all add: failed_row_def staging_row_def manifest_key_def descriptor_key_def)

lemma claimed_row_simps:
  "mf_descriptor (claimed_row r t u) = mf_descriptor r" "mf_status (claimed_row r t u) = Purging" "mf_version (claimed_row r t u) = mf_version r + 1"
  "mf_attempt (claimed_row r t u) = mf_attempt r + 1" "mf_failed (claimed_row r t u) = mf_failed r" "mf_next (claimed_row r t u) = Some u"
  "mf_lease (claimed_row r t u) = Some u" "mf_token (claimed_row r t u) = Some t" "manifest_key (claimed_row r t u) = manifest_key r"
  by (simp_all add: claimed_row_def manifest_key_def)

lemma claimed_check: "digest_text t \<Longrightarrow> manifest_check (claimed_row failed_row t u)"
  "digest_text t \<Longrightarrow> digest_text t' \<Longrightarrow> manifest_check (claimed_row (claimed_row failed_row t u) t' u')"
  using demo_descriptor_ok digest_97
  by (simp_all add: manifest_check_def status_check_def claimed_row_def failed_row_def staging_row_def)

lemma demo_first_claim: "demo_claim_state = (old_failure\<lparr>tr_manifests := [first_row]\<rparr>, Inr (Some first_claim))"
proof -
  have "claim_update failed_row (purge_token demo_tree_lib failed_row 7 7) (2000 + 31 * day_ms) demo_lease old_failure =
      Inr (old_failure\<lparr>tr_manifests := [first_row]\<rparr>, 1)"
    using claim_one_row [of old_failure failed_row "2000 + 31 * day_ms" demo_lease "purge_token demo_tree_lib failed_row 7 7"] demo_token
    by (simp add: old_failure_def first_row_def failed_row_simps claimable_def unreferenced_def aged_def day_ms_def minute_ms_def
        demo_lease_def claimed_check)
  then show ?thesis
    by (simp add: demo_claim_state_def claimFailedManifest_def undisturbed_run [OF idle_undisturbed] failed_row_simps counter_ok_def
        max_safe_def first_claim_def)
qed

definition lease_over :: tree_db where
  "lease_over = old_failure\<lparr>tr_manifests := [first_row], tr_clock := 2000 + 31 * day_ms + demo_lease\<rparr>"

definition second_claim_state :: "tree_db \<times> (thrown + purge_claim option)" where
  "second_claim_state = claimFailedManifest demo_tree_lib idle 0 \<lparr>rt_row = first_row, rt_eligible = True\<rparr>
     (2000 + 31 * day_ms) 8 8 demo_lease lease_over"

definition second_claim :: purge_claim where
  "second_claim = \<lparr>pc_key = descriptor_key demo_tree_descriptor, pc_token = purge_token demo_tree_lib first_row 8 8,
     pc_version = 2, pc_attempt = 2\<rparr>"

lemma demo_second_claim: "snd second_claim_state = Inr (Some second_claim)"
proof -
  have "\<exists>t. claim_update first_row (purge_token demo_tree_lib first_row 8 8) (2000 + 31 * day_ms) demo_lease lease_over = Inr (t, 1)"
    using claim_one_row [of lease_over first_row "2000 + 31 * day_ms" demo_lease "purge_token demo_tree_lib first_row 8 8"] demo_token
    by (simp add: lease_over_def old_failure_def first_row_def failed_row_simps claimed_row_simps claimable_def unreferenced_def
        aged_def day_ms_def minute_ms_def demo_lease_def claimed_check)
  then show ?thesis
    by (auto simp: second_claim_state_def claimFailedManifest_def undisturbed_run [OF idle_undisturbed] first_row_def
        claimed_row_simps failed_row_simps counter_ok_def max_safe_def second_claim_def)
qed

lemma old_failure_inv: "tree_inv old_failure"
  by (simp add: tree_inv_def old_failure_def failed_row_simps)

theorem purge_claims_exclude_each_other_witness:
  "pc_version first_claim < pc_version second_claim \<and> purge_page first_claim (fst second_claim_state) = [] \<and>
     chunk_batch demo_tree_lib first_claim [] (fst second_claim_state) = Inr (fst second_claim_state, 0, 0)"
proof -
  let ?s1 = "old_failure\<lparr>tr_manifests := [first_row]\<rparr>"
  have a: "claimFailedManifest demo_tree_lib idle 0 \<lparr>rt_row = failed_row, rt_eligible = True\<rparr> (2000 + 31 * day_ms) 7 7 demo_lease
      old_failure = (?s1, Inr (Some first_claim))"
    using demo_first_claim by (simp add: demo_claim_state_def)
  have "tree_step ?s1 (?s1\<lparr>tr_clock := 2000 + 31 * day_ms + demo_lease\<rparr>)"
    by (rule tree_step.tick) (simp add: old_failure_def demo_lease_def)
  then have run: "tree_step\<^sup>*\<^sup>* ?s1 lease_over" by (simp add: lease_over_def)
  have b: "claimFailedManifest demo_tree_lib idle 0 \<lparr>rt_row = first_row, rt_eligible = True\<rparr> (2000 + 31 * day_ms) 8 8 demo_lease
      lease_over = (fst second_claim_state, Inr (Some second_claim))"
    using demo_second_claim by (metis second_claim_state_def prod.collapse)
  have k: "pc_key first_claim = pc_key second_claim" by (simp add: first_claim_def second_claim_def)
  from purge_claims_exclude_each_other [OF idle_others idle_others old_failure_inv a run b k rtranclp.rtrancl_refl, of "[]"]
  show ?thesis by simp
qed

section \<open>A purge\<close>

definition demo_purge :: "tree_db \<times> (thrown + nat \<times> bool)" where
  "demo_purge = purgeClaimedManifestEntries demo_tree_lib idle 0 first_claim 1 (old_failure\<lparr>tr_manifests := [first_row]\<rparr>)"

definition purged_row :: manifest_row where
  "purged_row = first_row\<lparr>mf_status := Purged, mf_version := 2, mf_next := None, mf_token := None, mf_lease := None,
     mf_purged := Some (2000 + 31 * day_ms)\<rparr>"

lemma purge_state_simps:
  "entries_of old_failure k = []" "tr_clock old_failure = 2000 + 31 * day_ms" "tr_events old_failure = []"
  "tr_synthetic old_failure = []" "tr_references old_failure = []"
  by (simp_all add: old_failure_def entries_of_def)

lemma first_row_purgeable: "purgeable (old_failure\<lparr>tr_manifests := rs\<rparr>) first_claim first_row"
  by (simp add: purgeable_def claim_row_def first_row_def claimed_row_simps failed_row_simps first_claim_def purge_state_simps aged_def
      unreferenced_def demo_lease_def day_ms_def)

lemma demo_purged_update:
  "purged_update first_claim (old_failure\<lparr>tr_manifests := [first_row]\<rparr>) = Inr (old_failure\<lparr>tr_manifests := [purged_row]\<rparr>, 1)"
proof -
  let ?s = "old_failure\<lparr>tr_manifests := [first_row]\<rparr>"
  have "purges ?s first_row purged_row"
    by (simp add: purges_def purged_row_def first_row_def claimed_row_simps failed_row_simps purge_state_simps same_failure_def aged_def
        recent_def unreferenced_def demo_lease_def day_ms_def minute_ms_def)
  then have t: "transition_ok ?s first_row purged_row" by (simp add: transition_ok_def purged_row_def)
  have m: "manifest_check purged_row"
    using demo_descriptor_ok digest_97 by (simp add: manifest_check_def status_check_def purged_row_def first_row_def claimed_row_def
        failed_row_def staging_row_def)
  have f: "first_row\<lparr>mf_status := Purged, mf_version := mf_version first_row + 1, mf_next := None, mf_token := None, mf_lease := None,
     mf_purged := Some (tr_clock ?s)\<rparr> = purged_row"
    by (simp add: purged_row_def first_row_def claimed_row_simps failed_row_simps purge_state_simps)
  show ?thesis
    using t m f first_row_purgeable [of "[first_row]"]
    by (simp add: purged_update_def update_manifests_def update_where_def purge_state_simps)
qed

lemma demo_purged_batch: "\<exists>t. purged_batch demo_tree_lib first_claim (old_failure\<lparr>tr_manifests := [first_row]\<rparr>) = Inr (t, 1, 1)"
proof -
  let ?t = "old_failure\<lparr>tr_manifests := [purged_row]\<rparr>"
  let ?v = "row_event (purged_event_id demo_tree_lib first_claim) PurgedEvent (purged_request demo_tree_lib first_claim) (mf_purged purged_row)
    None purged_row"
  have row: "manifest_key purged_row = pc_key first_claim" "mf_status purged_row = Purged" "mf_version purged_row = 2" "mf_attempt purged_row = 1"
    "mf_failure purged_row = Some ReconciliationRequired" "mf_count purged_row = Some 0" "mf_checksum purged_row = Some (replicate 64 97)"
    "mf_purged purged_row = Some (2000 + 31 * day_ms)"
    by (simp_all add: purged_row_def first_row_def claimed_row_def failed_row_def staging_row_def manifest_key_def first_claim_def descriptor_key_def)
  have "event_guard ?t ?v"
    by (simp add: event_guard_def event_of_row_def row_event_def row recent_def purge_state_simps day_ms_def minute_ms_def)
  moreover have "event_check ?v"
    using demo_hash digest_97 by (simp add: event_check_def row_event_def row hash_ok_def purged_event_id_def purged_request_def)
  ultimately have "insert_event ?v ?t = Inr (?t\<lparr>tr_events := [?v]\<rparr>, 1)" by (simp add: insert_event_def purge_state_simps)
  moreover have "filter (\<lambda>r. manifest_key r = pc_key first_claim \<and> mf_status r = Purged \<and> mf_version r = pc_version first_claim + 1 \<and>
      mf_attempt r = pc_attempt first_claim \<and> purged_event_id demo_tree_lib first_claim \<notin> set (map le_id (tr_events ?t))) (tr_manifests ?t) = [purged_row]"
    by (simp add: row purge_state_simps) (simp add: first_claim_def)
  ultimately show ?thesis
    by (simp add: purged_batch_def demo_purged_update select_event_def)
qed

lemma demo_purge_result: "snd demo_purge = Inr (0, True)"
proof -
  have "purge_page first_claim (old_failure\<lparr>tr_manifests := [first_row]\<rparr>) = []"
    by (simp add: purge_page_def purge_state_simps)
  then show ?thesis
    using demo_purged_batch
    by (auto simp: demo_purge_def purgeClaimedManifestEntries_def undisturbed_run [OF idle_undisturbed] undisturbed_read [OF idle_undisturbed]
        numeral_eq_Suc)
qed

theorem purged_manifest_is_gone_witness:
  "\<exists>r. gone (fst demo_purge) (descriptor_key demo_tree_descriptor) r \<and> mf_version r = 2"
proof -
  have run: "purgeClaimedManifestEntries demo_tree_lib idle 0 first_claim 1 (old_failure\<lparr>tr_manifests := [first_row]\<rparr>) =
      (fst demo_purge, Inr (0, True))"
    using demo_purge_result by (metis demo_purge_def prod.collapse)
  have "tree_inv (old_failure\<lparr>tr_manifests := [first_row]\<rparr>)"
    by (simp add: tree_inv_def first_row_def claimed_row_simps) (simp add: old_failure_def)
  from purged_manifest_is_gone [OF idle_others this run rtranclp.rtrancl_refl] show ?thesis
    by (auto simp: first_claim_def)
qed

section \<open>Maintenance\<close>




definition scan_candidate :: "nat \<Rightarrow> retention_candidate" where
  "scan_candidate c = \<lparr>rt_row = failed_row\<lparr>mf_descriptor := demo_tree_descriptor\<lparr>td_id := replicate 64 c\<rparr>\<rparr>, rt_eligible = True\<rparr>"

theorem retention_scan_is_fair_witness:
  "\<exists>cs looked. select_candidates 5 [] None [scan_candidate 97, scan_candidate 98, scan_candidate 99] = (cs, looked) \<and>
     length cs = RETENTION_PROJECT_QUOTA \<and> set cs \<subseteq> {scan_candidate 97, scan_candidate 98, scan_candidate 99}"
proof -
  let ?all = "[scan_candidate 97, scan_candidate 98, scan_candidate 99]"
  have s: "select_candidates 5 [] None ?all = ([scan_candidate 97, scan_candidate 98], Some (scan_candidate 99))"
    by (simp add: RETENTION_PROJECT_QUOTA_def) (simp add: scan_candidate_def candidate_key_def manifest_key_def)
  from retention_scan_is_fair [OF _ s] s show ?thesis by (auto simp: RETENTION_PROJECT_QUOTA_def)
qed

section \<open>A failure\<close>

definition demo_failure :: "tree_db \<times> (thrown + failure_result)" where
  "demo_failure = failGitHubTreeManifest demo_tree_lib idle 1 demo_tree_descriptor ReconciliationRequired demo_tree_staged"

definition failed_demo_row :: "ustring \<Rightarrow> manifest_row" where
  "failed_demo_row checksum = (staging_row demo_tree_descriptor)\<lparr>mf_status := Failed, mf_count := Some 2, mf_checksum := Some checksum,
     mf_failed := Some 2000, mf_failure := Some ReconciliationRequired\<rparr>"

lemma demo_fail_batch:
  assumes "digest_text checksum"
  shows "\<exists>t. fail_batch demo_tree_lib demo_tree_descriptor ReconciliationRequired 2 checksum demo_tree_staged = Inr (t, 1, 1)"
proof -
  let ?d = demo_tree_descriptor and ?r = "failed_demo_row checksum" and ?s = "staging_row demo_tree_descriptor"
  let ?t = "demo_tree_staged\<lparr>tr_manifests := [?r]\<rparr>"
  have c: "tr_clock demo_tree_staged = 2000" "tr_manifests demo_tree_staged = [?s]" "tr_events demo_tree_staged = []"
    by (simp_all add: demo_tree_staged_def)
  have key: "manifest_key ?s = descriptor_key ?d" "manifest_key ?r = descriptor_key ?d"
    by (simp_all add: failed_demo_row_def staging_row_def manifest_key_def descriptor_key_def)
  have row: "mf_descriptor ?s = ?d" "mf_status ?s = Staging" "mf_status ?r = Failed" "mf_failed ?r = Some 2000" "mf_count ?r = Some 2"
    "mf_descriptor ?r = ?d" "mf_failure ?r = Some ReconciliationRequired" "mf_checksum ?r = Some checksum" "td_created ?d = 1000"
    by (simp_all add: failed_demo_row_def staging_row_def demo_tree_descriptor_def)
  have "fails demo_tree_staged ?s ?r"
    by (simp add: fails_def key row c demo_entries_at recent_def minute_ms_def) (simp add: demo_entries_def)
  then have "transition_ok demo_tree_staged ?s ?r" by (simp add: transition_ok_def row)
  moreover have "manifest_check ?r"
    using demo_descriptor_ok assms by (simp add: manifest_check_def status_check_def failed_demo_row_def staging_row_def)
  moreover have "?s\<lparr>mf_status := Failed, mf_count := Some 2, mf_checksum := Some checksum, mf_failed := Some 2000,
      mf_failure := Some ReconciliationRequired\<rparr> = ?r" by (simp add: failed_demo_row_def)
  ultimately have up: "fail_update ?d ReconciliationRequired 2 checksum demo_tree_staged = Inr (?t, 1)"
    by (simp add: fail_update_def update_manifests_def update_where_def c key row)
  let ?v = "row_event (failed_event_id demo_tree_lib ?d) FailedEvent (failed_request demo_tree_lib ?d ReconciliationRequired 2 checksum)
    (mf_failed ?r) None ?r"
  have "event_guard ?t ?v" by (simp add: event_guard_def event_of_row_def row_event_def row key recent_def c minute_ms_def)
  moreover have "event_check ?v"
    using demo_hash assms by (simp add: event_check_def row_event_def row hash_ok_def failed_event_id_def failed_request_def)
  ultimately have "insert_event ?v ?t = Inr (?t\<lparr>tr_events := [?v]\<rparr>, 1)" by (simp add: insert_event_def c)
  then show ?thesis by (simp add: fail_batch_def up select_event_def key row)
qed

lemma demo_failure_result: "snd demo_failure = Inr FailedNow"
proof -
  let ?d = demo_tree_descriptor
  have read: "readManifest idle 0 ?d demo_tree_staged = (demo_tree_staged, Inr (Some (staging_row ?d)))"
    by (simp add: readManifest_def undisturbed_read [OF idle_undisturbed] manifest_at_def demo_tree_staged_def manifest_key_def
        descriptor_key_def staging_row_def)
  have page: "entry_page (descriptor_key ?d) [] demo_tree_staged = rev demo_entries"
    using demo_page [of "tr_clock demo_tree_staged"] by simp
  have len: "length (rev demo_entries) = 2" by (simp add: demo_entries_def)
  then have pages: "read_pages idle (descriptor_key ?d) 1 1 [] [] demo_tree_staged = (demo_tree_staged, Inr (rev demo_entries))"
    by (simp add: undisturbed_read [OF idle_undisturbed] page ENTRY_PAGE_SIZE_def)
  obtain t where "fail_batch demo_tree_lib ?d ReconciliationRequired 2 (stored_checksum demo_tree_lib (rev demo_entries)) demo_tree_staged = Inr (t, 1, 1)"
    using demo_fail_batch demo_hash by (force simp: stored_checksum_def hash_ok_def)
  then have run: "d1_run idle 2 (fail_batch demo_tree_lib ?d ReconciliationRequired 2 (stored_checksum demo_tree_lib (rev demo_entries))) demo_tree_staged = (t, Inr (1, 1))"
    by (simp add: undisturbed_run [OF idle_undisturbed])
  have row: "mf_status (staging_row ?d) = Staging" "same_descriptor (staging_row ?d) ?d" by (simp_all add: staging_row_def same_descriptor_def)
  show ?thesis
    by (simp only: demo_failure_def failGitHubTreeManifest_def read then_do.simps option.case row manifest_status.distinct simp_thms if_False
        if_True pages len one_add_one run try_catch.simps prod.case snd_conv)
qed

theorem failed_manifest_describes_its_entries_witness:
  "\<exists>r. r \<in> set (tr_manifests (fst demo_failure)) \<and> mf_status r = Failed \<and>
     mf_count r = Some (length (entries_of (fst demo_failure) (descriptor_key demo_tree_descriptor)))"
proof -
  have run: "failGitHubTreeManifest demo_tree_lib idle 1 demo_tree_descriptor ReconciliationRequired demo_tree_staged = (fst demo_failure, Inr FailedNow)"
    using demo_failure_result by (metis demo_failure_def prod.collapse)
  have "td_project demo_tree_descriptor \<notin> set (tr_synthetic demo_tree_staged)" using demo_tree_inv by simp
  from failed_manifest_describes_its_entries [OF idle_others demo_tree_inv(1) this run]
  obtain r es where "r \<in> set (tr_manifests (fst demo_failure))" "mf_status r = Failed" "mf_count r = Some (length es)"
    "mset es = mset (entries_of (fst demo_failure) (descriptor_key demo_tree_descriptor))" by blast
  then show ?thesis by (metis size_mset)
qed

end
