(* ===== verification/Json_Parse.thy ===== *)
theory Json_Parse
  imports Canonical_Json Uri_Codec
begin

text \<open>
  \<open>JSON.parse\<close>, and the indented \<open>JSON.stringify(value, null, 2)\<close> it reads back. The
  numbers of a value are exact integers, as the engine's are in the safe range the code keeps to; a text
  with a fraction or an exponent is outside the model and is not read. Keys that
  look like array indices keep their place, which the engine would move to the front: no text the
  code compares holds one. Texts are made of code points, so an escaped pair of surrogates is read as
  the code point it stands for.
\<close>

section \<open>Tokens\<close>

definition json_space :: "nat \<Rightarrow> bool" where
  "json_space c \<longleftrightarrow> c = 32 \<or> c = 10 \<or> c = 13 \<or> c = 9"

abbreviation skip_space :: "ustring \<Rightarrow> ustring" where
  "skip_space s \<equiv> dropWhile json_space s"

fun drop_prefix :: "ustring \<Rightarrow> ustring \<Rightarrow> ustring option" where
  "drop_prefix [] s = Some s"
| "drop_prefix (p # ps) [] = None"
| "drop_prefix (p # ps) (c # s) = (if p = c then drop_prefix ps s else None)"

definition hex4 :: "nat \<Rightarrow> nat \<Rightarrow> nat \<Rightarrow> nat \<Rightarrow> nat option" where
  "hex4 w x y z =
     (case (hex_value w, hex_value x, hex_value y, hex_value z) of
        (Some a, Some b, Some c, Some d) \<Rightarrow> Some (((a * 16 + b) * 16 + c) * 16 + d)
      | _ \<Rightarrow> None)"

definition simple_escape :: "nat \<Rightarrow> nat option" where
  "simple_escape c =
     (if c = 34 \<or> c = 92 \<or> c = 47 then Some c
      else if c = 98 then Some 8 else if c = 102 then Some 12 else if c = 110 then Some 10
      else if c = 114 then Some 13 else if c = 116 then Some 9 else None)"

text \<open>The characters up to the closing quote, and the text after it.\<close>

fun parse_chars :: "ustring \<Rightarrow> (ustring \<times> ustring) option" where
  "parse_chars [] = None"
| "parse_chars (c # s) =
     (if c = 34 then Some ([], s)
      else if c < 32 then None
      else if c \<noteq> 92 then map_option (apfst ((#) c)) (parse_chars s)
      else (case s of
              [] \<Rightarrow> None
            | d # t \<Rightarrow>
                if d \<noteq> 117
                then (case simple_escape d of
                        None \<Rightarrow> None
                      | Some e \<Rightarrow> map_option (apfst ((#) e)) (parse_chars t))
                else (case t of
                        w # x # y # z # r \<Rightarrow>
                          (case hex4 w x y z of
                             None \<Rightarrow> None
                           | Some e \<Rightarrow> map_option (apfst ((#) e)) (parse_chars r))
                      | _ \<Rightarrow> None)))"

definition high_surrogate :: "nat \<Rightarrow> bool" where
  "high_surrogate c \<longleftrightarrow> 55296 \<le> c \<and> c < 56320"

definition low_surrogate :: "nat \<Rightarrow> bool" where
  "low_surrogate c \<longleftrightarrow> 56320 \<le> c \<and> c < 57344"

fun fuse_surrogates :: "ustring \<Rightarrow> ustring" where
  "fuse_surrogates (h # l # s) =
     (if high_surrogate h \<and> low_surrogate l
      then (65536 + (h - 55296) * 1024 + (l - 56320)) # fuse_surrogates s
      else h # fuse_surrogates (l # s))"
| "fuse_surrogates s = s"

text \<open>A text of code points holds no such pair.\<close>

fun js_text :: "ustring \<Rightarrow> bool" where
  "js_text (h # l # s) \<longleftrightarrow> \<not> (high_surrogate h \<and> low_surrogate l) \<and> js_text (l # s)"
| "js_text s \<longleftrightarrow> True"

definition parse_string :: "ustring \<Rightarrow> (ustring \<times> ustring) option" where
  "parse_string s = map_option (apfst fuse_surrogates) (parse_chars s)"

definition digit_char :: "nat \<Rightarrow> bool" where
  "digit_char c \<longleftrightarrow> 48 \<le> c \<and> c \<le> 57"

definition parse_digits :: "ustring \<Rightarrow> (nat \<times> ustring) option" where
  "parse_digits s =
     (let ds = takeWhile digit_char s; r = dropWhile digit_char s
      in if ds = [] \<or> (hd ds = 48 \<and> tl ds \<noteq> []) \<or> (r \<noteq> [] \<and> hd r \<in> {46, 69, 101}) then None
         else Some (undec ds, r))"

definition parse_number :: "ustring \<Rightarrow> (json \<times> ustring) option" where
  "parse_number s =
     (let neg = (s \<noteq> [] \<and> hd s = 45)
      in case parse_digits (if neg then tl s else s) of
           None \<Rightarrow> None
         | Some (n, r) \<Rightarrow>
             Some (JNum (if neg then - int n else int n), r))"

definition parse_word :: "ustring \<Rightarrow> (json \<times> ustring) option" where
  "parse_word s =
     (case drop_prefix (str ''null'') s of
        Some r \<Rightarrow> Some (JNull, r)
      | None \<Rightarrow>
          (case drop_prefix (str ''true'') s of
             Some r \<Rightarrow> Some (JBool True, r)
           | None \<Rightarrow> map_option (Pair (JBool False)) (drop_prefix (str ''false'') s)))"

section \<open>Values\<close>

text \<open>A later entry for a key takes the place of the earlier one.\<close>

definition put_entry :: "ustring \<Rightarrow> json \<Rightarrow> (ustring \<times> json) list \<Rightarrow> (ustring \<times> json) list" where
  "put_entry k v es = (if k \<in> fst ` set es then map (\<lambda>(k', w). if k' = k then (k', v) else (k', w)) es else es @ [(k, v)])"

definition object_of :: "(ustring \<times> json) list \<Rightarrow> json" where
  "object_of es = JObj (foldl (\<lambda>acc (k, v). put_entry k v acc) [] es)"

text \<open>The fuel bounds the nesting; every second call consumes a character.\<close>

fun parse_value :: "nat \<Rightarrow> ustring \<Rightarrow> (json \<times> ustring) option"
  and parse_items :: "nat \<Rightarrow> ustring \<Rightarrow> (json list \<times> ustring) option"
  and parse_members :: "nat \<Rightarrow> ustring \<Rightarrow> ((ustring \<times> json) list \<times> ustring) option" where
  "parse_value 0 s = None"
| "parse_value (Suc n) s =
     (case skip_space s of
        [] \<Rightarrow> None
      | c # t \<Rightarrow>
          if c = 34 then map_option (apfst JStr) (parse_string t)
          else if c = 91 then
            (case drop_prefix [93] (skip_space t) of
               Some r \<Rightarrow> Some (JArr [], r)
             | None \<Rightarrow> map_option (apfst JArr) (parse_items n t))
          else if c = 123 then
            (case drop_prefix [125] (skip_space t) of
               Some r \<Rightarrow> Some (JObj [], r)
             | None \<Rightarrow> map_option (apfst object_of) (parse_members n t))
          else if c = 45 \<or> digit_char c then parse_number (c # t)
          else parse_word (c # t))"
| "parse_items 0 s = None"
| "parse_items (Suc n) s =
     (case parse_value n s of
        None \<Rightarrow> None
      | Some (v, r) \<Rightarrow>
          (case skip_space r of
             [] \<Rightarrow> None
           | c # t \<Rightarrow>
               if c = 44 then map_option (apfst ((#) v)) (parse_items n t)
               else if c = 93 then Some ([v], t) else None))"
| "parse_members 0 s = None"
| "parse_members (Suc n) s =
     (case drop_prefix [34] (skip_space s) of
        None \<Rightarrow> None
      | Some q \<Rightarrow>
          (case parse_string q of
             None \<Rightarrow> None
           | Some (k, u) \<Rightarrow>
               (case drop_prefix [58] (skip_space u) of
                  None \<Rightarrow> None
                | Some w \<Rightarrow>
                    (case parse_value n w of
                       None \<Rightarrow> None
                     | Some (v, r) \<Rightarrow>
                         (case skip_space r of
                            [] \<Rightarrow> None
                          | c # t \<Rightarrow>
                              if c = 44 then map_option (apfst ((#) (k, v))) (parse_members n t)
                              else if c = 125 then Some ([(k, v)], t) else None)))))"

definition json_parse :: "ustring \<Rightarrow> json option" where
  "json_parse s =
     (case parse_value (2 * length s + 1) s of
        None \<Rightarrow> None
      | Some (v, r) \<Rightarrow> if skip_space r = [] then Some v else None)"

section \<open>Indented printing\<close>

fun join_sep :: "ustring \<Rightarrow> ustring list \<Rightarrow> ustring" where
  "join_sep sep [] = []"
| "join_sep sep [x] = x"
| "join_sep sep (x # xs) = x @ sep @ join_sep sep xs"

abbreviation margin :: "nat \<Rightarrow> ustring" where
  "margin n \<equiv> replicate n 32"

fun pretty :: "nat \<Rightarrow> json \<Rightarrow> ustring" where
  "pretty n (JArr xs) =
     (if xs = [] then str ''[]''
      else [91, 10] @ join_sep [44, 10] (map (\<lambda>x. margin (n + 2) @ pretty (n + 2) x) xs) @
        10 # margin n @ [93])"
| "pretty n (JObj es) =
     (if es = [] then str ''{}''
      else [123, 10] @ join_sep [44, 10] (map (\<lambda>(k, v). margin (n + 2) @ json_string k @ str '': '' @ pretty (n + 2) v) es) @
        10 # margin n @ [125])"
| "pretty n JNull = str ''null''"
| "pretty n (JBool b) = (if b then str ''true'' else str ''false'')"
| "pretty n (JNum i) = dec_int i"
| "pretty n (JStr s) = json_string s"

definition stableJson :: "json \<Rightarrow> ustring" where
  "stableJson v = pretty 0 v @ [10]"

section \<open>Enough fuel\<close>

lemma skip_space_length: "length (skip_space s) \<le> length s"
  by (rule length_dropWhile_le)

lemma skip_space_Cons: "skip_space s = c # t \<Longrightarrow> length t < length s"
  using skip_space_length [of s] by simp

lemma drop_prefix_append [simp]: "drop_prefix p (p @ s) = Some s"
  by (induction p) auto

lemma drop_prefix_length: "drop_prefix p s = Some r \<Longrightarrow> length s = length p + length r"
  by (induction p s rule: drop_prefix.induct) (auto split: if_splits)

lemma parse_chars_length: "parse_chars s = Some (k, r) \<Longrightarrow> length r < length s"
  by (induction s arbitrary: k r rule: parse_chars.induct)
    (fastforce split: if_splits list.splits option.splits)+

lemma parse_string_length: "parse_string s = Some (k, r) \<Longrightarrow> length r < length s"
  by (auto simp: parse_string_def dest: parse_chars_length)

lemma parse_digits_length: "parse_digits s = Some (n, r) \<Longrightarrow> length r < length s"
proof -
  assume a: "parse_digits s = Some (n, r)"
  then have "takeWhile digit_char s \<noteq> []" "r = dropWhile digit_char s"
    by (auto simp: parse_digits_def Let_def split: if_splits)
  moreover have "length s = length (takeWhile digit_char s) + length (dropWhile digit_char s)"
    by (metis length_append takeWhile_dropWhile_id)
  ultimately show ?thesis by simp
qed

lemma parse_number_length: "parse_number s = Some (v, r) \<Longrightarrow> length r < length s"
  by (cases s) (auto simp: parse_number_def Let_def split: if_splits option.splits dest!: parse_digits_length)

lemma parse_word_length: "parse_word s = Some (v, r) \<Longrightarrow> length r < length s"
  by (auto simp: parse_word_def split: option.splits dest!: drop_prefix_length)

lemmas token_lengths = skip_space_Cons parse_string_length parse_number_length parse_word_length drop_prefix_length

lemma parse_fuel_enough:
  "parse_value m s = Some (v, r) \<Longrightarrow> length r < length s \<and> (\<forall>k\<ge>2 * length s + 1. parse_value k s = Some (v, r))"
  "parse_items m s = Some (vs, r) \<Longrightarrow> length r < length s \<and> (\<forall>k\<ge>2 * length s + 2. parse_items k s = Some (vs, r))"
  "parse_members m s = Some (es, r) \<Longrightarrow> length r < length s \<and> (\<forall>k\<ge>2 * length s + 2. parse_members k s = Some (es, r))"
proof (induction m s and m s and m s arbitrary: v r and vs r and es r
    rule: parse_value_parse_items_parse_members.induct)
  case (2 n s)
  obtain c t where st: "skip_space s = c # t" using "2.prems" by (cases "skip_space s") auto
  note lt = skip_space_Cons [OF st] and ih = "2.IH" [OF st]
  have "length r < length s \<and> parse_value (Suc k) s = Some (v, r)" if k: "2 * length s \<le> k" for k
  proof -
    have le: "2 * length t + 2 \<le> k" using k lt by simp
    consider "c = 34" | "c = 91" | "c = 123" | "c \<notin> {34, 91, 123}" by blast
    then show ?thesis
    proof cases
      case 1
      then show ?thesis using "2.prems" st lt by (auto dest: parse_string_length)
    next
      case 2
      show ?thesis
      proof (cases "drop_prefix [93] (skip_space t)")
        case None
        obtain x where "parse_items n t = Some (x, r)" using "2.prems" st 2 None by auto
        from ih(1) [OF _ 2 None this] "2.prems" st 2 None this lt le show ?thesis by simp
      next
        case (Some u)
        with "2.prems" st 2 lt skip_space_length [of t] drop_prefix_length [OF Some] show ?thesis by simp
      qed
    next
      case 3
      show ?thesis
      proof (cases "drop_prefix [125] (skip_space t)")
        case None
        obtain x where "parse_members n t = Some (x, r)" using "2.prems" st 3 None by auto
        from ih(2) [OF _ _ 3 None this] "2.prems" st 3 None this lt le show ?thesis by simp
      next
        case (Some u)
        with "2.prems" st 3 lt skip_space_length [of t] drop_prefix_length [OF Some] show ?thesis by simp
      qed
    next
      case 4
      then show ?thesis using "2.prems" st lt
        by (auto split: if_splits dest: parse_number_length parse_word_length)
    qed
  qed
  then have "length r < length s \<and> parse_value k s = Some (v, r)" if "2 * length s + 1 \<le> k" for k
    using that by (cases k) simp_all
  then show ?case by blast
next
  case (4 n s)
  obtain w u where v: "parse_value n s = Some (w, u)" using "4.prems" by (cases "parse_value n s") auto
  obtain c t where st: "skip_space u = c # t" using "4.prems" v by (cases "skip_space u") auto
  note lt = skip_space_Cons [OF st] and ih = "4.IH"(1) [OF v] "4.IH"(2) [OF v refl st]
  have "length r < length s \<and> parse_items (Suc k) s = Some (vs, r)" if k: "2 * length s + 1 \<le> k" for k
  proof (cases "c = 44")
    case True
    then obtain xs where "parse_items n t = Some (xs, r)" "vs = w # xs" using "4.prems" v st by auto
    with ih(1) ih(2) [OF True this(1)] k True v st lt show ?thesis by simp
  next
    case False
    with "4.prems" v st lt ih(1) k show ?thesis by (simp split: if_splits)
  qed
  then have "length r < length s \<and> parse_items k s = Some (vs, r)" if "2 * length s + 2 \<le> k" for k
    using that by (cases k) simp_all
  then show ?case by blast
next
  case (6 n s)
  obtain q where q: "drop_prefix [34] (skip_space s) = Some q"
    using "6.prems" by (cases "drop_prefix [34] (skip_space s)") auto
  obtain x u where x: "parse_string q = Some (x, u)"
    using "6.prems" q by (cases "parse_string q") auto
  obtain w where w: "drop_prefix [58] (skip_space u) = Some w"
    using "6.prems" q x by (cases "drop_prefix [58] (skip_space u)") auto
  obtain v0 y where y: "parse_value n w = Some (v0, y)"
    using "6.prems" q x w by (cases "parse_value n w") auto
  note a = q x w y
  obtain c t where st: "skip_space y = c # t" using "6.prems" a by (cases "skip_space y") auto
  have lw: "length w < length s"
    using drop_prefix_length [OF a(1)] parse_string_length [OF a(2)] drop_prefix_length [OF a(3)]
      skip_space_length [of s] skip_space_length [of u] by simp
  note lt = skip_space_Cons [OF st] and ih = "6.IH"(1) [OF a(1,2) refl a(3,4)] "6.IH"(2) [OF a(1,2) refl a(3,4) refl st]
  have "length r < length s \<and> parse_members (Suc k) s = Some (es, r)" if k: "2 * length s + 1 \<le> k" for k
  proof (cases "c = 44")
    case True
    then obtain xs where "parse_members n t = Some (xs, r)" "es = (x, v0) # xs" using "6.prems" a st by auto
    with ih(1) ih(2) [OF True this(1)] k True a st lt lw show ?thesis by simp
  next
    case False
    with "6.prems" a st lt lw ih(1) k show ?thesis by (simp split: if_splits)
  qed
  then have "length r < length s \<and> parse_members k s = Some (es, r)" if "2 * length s + 2 \<le> k" for k
    using that by (cases k) simp_all
  then show ?case by blast
qed auto

definition parses :: "ustring \<Rightarrow> json \<Rightarrow> ustring \<Rightarrow> bool" where
  "parses s v r \<longleftrightarrow> (\<exists>m. parse_value m s = Some (v, r))"

lemma parses_iff: "parses s v r \<longleftrightarrow> (\<forall>k\<ge>2 * length s + 1. parse_value k s = Some (v, r))"
  unfolding parses_def using parse_fuel_enough(1) by blast

lemma json_parse_iff: "json_parse s = Some v \<longleftrightarrow> (\<exists>r. parses s v r \<and> skip_space r = [])"
proof -
  have "parses s v r \<longleftrightarrow> parse_value (2 * length s + 1) s = Some (v, r)" for r
    unfolding parses_def using parse_fuel_enough(1) [of _ s v r] by blast
  then show ?thesis by (auto simp: json_parse_def split: option.splits)
qed

section \<open>Reading back what was printed\<close>

lemma hex_value_lower: "n < 16 \<Longrightarrow> hex_value (hex_lower n) = Some n"
  by (auto simp: hex_value_def hex_lower_def)

lemma parse_json_char: "parse_chars (json_char c @ s) = map_option (apfst ((#) c)) (parse_chars s)"
proof -
  consider "c \<in> {34, 92, 8, 12, 10, 13, 9}"
    | "c \<notin> {34, 92, 8, 12, 10, 13, 9}" "c < 32 \<or> (55296 \<le> c \<and> c < 57344)"
    | "c \<notin> {34, 92, 8, 12, 10, 13, 9}" "\<not> (c < 32 \<or> (55296 \<le> c \<and> c < 57344))"
    by blast
  then show ?thesis
  proof cases
    case 1
    then show ?thesis
      by (elim insertE emptyE) (simp_all add: json_char_def simple_escape_def)
  next
    case 2
    have "c div 4096 < 16" using 2(2) by (auto simp: less_mult_imp_div_less)
    moreover have "c div 256 mod 16 < 16" "c div 16 mod 16 < 16" "c mod 16 < 16" by simp_all
    ultimately have "hex4 (hex_lower (c div 4096)) (hex_lower (c div 256 mod 16))
        (hex_lower (c div 16 mod 16)) (hex_lower (c mod 16)) =
        Some (((c div 4096 * 16 + c div 256 mod 16) * 16 + c div 16 mod 16) * 16 + c mod 16)"
      by (simp add: hex4_def hex_value_lower del: mult_Suc_right)
    then have "hex4 (hex_lower (c div 4096)) (hex_lower (c div 256 mod 16))
        (hex_lower (c div 16 mod 16)) (hex_lower (c mod 16)) = Some c"
      by (simp only: base16)
    moreover have "json_char c = [92, 117, hex_lower (c div 4096), hex_lower (c div 256 mod 16),
        hex_lower (c div 16 mod 16), hex_lower (c mod 16)]"
      using 2 by (simp add: json_char_def)
    ultimately show ?thesis by simp
  next
    case 3
    then have "json_char c = [c]" by (simp add: json_char_def)
    with 3 show ?thesis by simp
  qed
qed

lemma parse_json_chars: "parse_chars (concat (map json_char k) @ 34 # r) = Some (k, r)"
  by (induction k) (simp_all add: parse_json_char)

lemma fuse_js_text: "js_text s \<Longrightarrow> fuse_surrogates s = s"
  by (induction s rule: js_text.induct) auto

lemma parse_json_string: "js_text k \<Longrightarrow> parse_string (concat (map json_char k) @ 34 # r) = Some (k, r)"
  by (simp add: parse_string_def parse_json_chars fuse_js_text)

definition number_ends :: "ustring \<Rightarrow> bool" where
  "number_ends r \<longleftrightarrow> r = [] \<or> \<not> digit_char (hd r) \<and> hd r \<notin> {46, 69, 101}"

lemma dec_first: "n > 0 \<Longrightarrow> hd (dec n) \<noteq> 48"
proof (induction n rule: dec.induct)
  case (1 n)
  then show ?case by (cases "n < 10") (auto simp: dec.simps [of n])
qed

lemma parse_dec:
  assumes "number_ends r"
  shows "parse_digits (dec n @ r) = Some (n, r)"
proof -
  have d: "\<forall>c\<in>set (dec n). digit_char c" using dec_digits by (auto simp: digit_char_def)
  have t: "takeWhile digit_char r = []" "dropWhile digit_char r = r"
    using assms by (cases r; simp add: number_ends_def)+
  have "takeWhile digit_char (dec n @ r) = dec n" "dropWhile digit_char (dec n @ r) = r"
    using d t by (simp_all add: takeWhile_append2 dropWhile_append2)
  moreover have "\<not> (hd (dec n) = 48 \<and> tl (dec n) \<noteq> [])"
    using dec_first [of n] by (cases "n = 0") (auto simp: dec.simps [of 0])
  ultimately show ?thesis using assms by (auto simp: parse_digits_def number_ends_def simp del: undec.simps)
qed

lemma parse_dec_int:
  assumes "number_ends r"
  shows "parse_number (dec_int i @ r) = Some (JNum i, r)"
proof (cases "i < 0")
  case True
  with assms show ?thesis by (simp add: parse_number_def dec_int_def parse_dec)
next
  case False
  have "hd (dec (nat i) @ r) \<noteq> 45" using dec_digits [of "hd (dec (nat i))" "nat i"] by (auto simp: hd_append)
  with False assms show ?thesis by (simp add: parse_number_def dec_int_def parse_dec)
qed

text \<open>The values a program can hold: texts are code points, keys are distinct.\<close>

fun json_ok :: "json \<Rightarrow> bool" where
  "json_ok (JStr s) \<longleftrightarrow> js_text s"
| "json_ok (JArr xs) \<longleftrightarrow> list_all json_ok xs"
| "json_ok (JObj es) \<longleftrightarrow> distinct (map fst es) \<and> list_all (\<lambda>(k, v). js_text k \<and> json_ok v) es"
| "json_ok _ \<longleftrightarrow> True"

lemma put_entries_distinct:
  "distinct (map fst es) \<Longrightarrow> fst ` set acc \<inter> fst ` set es = {} \<Longrightarrow>
     foldl (\<lambda>acc (k, v). put_entry k v acc) acc es = acc @ es"
  by (induction es arbitrary: acc) (auto simp: put_entry_def)

lemma object_of_distinct: "distinct (map fst es) \<Longrightarrow> object_of es = JObj es"
  by (simp add: object_of_def put_entries_distinct)

lemma pretty_first: "\<exists>c t. pretty n j = c # t \<and> c \<noteq> 93 \<and> c \<noteq> 125 \<and> \<not> json_space c"
proof (cases j)
  case (JNum i)
  then show ?thesis using dec_int_hd [of i] by (auto simp: json_space_def)
qed (auto simp: json_string_def json_space_def)

lemma skip_margin [simp]: "skip_space (margin n @ s) = skip_space s"
  by (induction n) (simp_all add: json_space_def)

lemma skip_newline [simp]: "skip_space (10 # s) = skip_space s"
  by (simp add: json_space_def)

lemma parse_value_skip: "skip_space s = skip_space t \<Longrightarrow> parse_value m s = parse_value m t"
  by (cases m) simp_all

lemma parses_skip: "skip_space s = skip_space t \<Longrightarrow> parses s = parses t"
  by (intro ext) (simp add: parses_def parse_value_skip [of s t])

lemma parse_items_skip: "skip_space s = skip_space t \<Longrightarrow> parse_items m s = parse_items m t"
  by (cases m) (simp_all add: parse_value_skip [of s t])

lemma parse_members_skip: "skip_space s = skip_space t \<Longrightarrow> parse_members m s = parse_members m t"
  by (cases m) simp_all

text \<open>One item, and the rest of the items, with fuel enough for both.\<close>

lemma parse_items_one:
  assumes "parses s x r" "skip_space r = 93 # t"
  shows "\<exists>m. parse_items m s = Some ([x], t)"
proof -
  obtain m where "parse_value m s = Some (x, r)" using assms(1) by (auto simp: parses_def)
  with assms(2) show ?thesis by (intro exI [of _ "Suc m"]) simp
qed

lemma parse_items_more:
  assumes "parses s x r" "skip_space r = 44 # t" "\<exists>m. parse_items m t = Some (xs, u)"
  shows "\<exists>m. parse_items m s = Some (x # xs, u)"
proof -
  define k where "k = 2 * length s + 2 * length t + 2"
  have "2 * length s + 1 \<le> k" by (simp add: k_def)
  then have "parse_value k s = Some (x, r)" using assms(1) unfolding parses_iff by blast
  moreover have "2 * length t + 2 \<le> k" by (simp add: k_def)
  then have "parse_items k t = Some (xs, u)"
    using assms(3) parse_fuel_enough(2) [of _ t xs u] by blast
  ultimately show ?thesis using assms(2) by (intro exI [of _ "Suc k"]) simp
qed

lemma parse_items_join:
  assumes "xs \<noteq> []" "\<And>x r. x \<in> set xs \<Longrightarrow> number_ends r \<Longrightarrow> parses (f x @ r) x r"
  shows "\<exists>m. parse_items m (join_sep [44, 10] (map (\<lambda>x. margin p @ f x) xs) @ 10 # margin q @ 93 # r) = Some (xs, r)"
  using assms
proof (induction xs rule: induct_list012)
  case (2 x)
  have "parses (f x @ 10 # margin q @ 93 # r) x (10 # margin q @ 93 # r)"
    by (rule 2) (simp_all add: number_ends_def digit_char_def)
  then have "parses (margin p @ f x @ 10 # margin q @ 93 # r) x (10 # margin q @ 93 # r)"
    by (subst parses_skip [OF skip_margin])
  from parse_items_one [OF this] show ?case by (simp add: json_space_def)
next
  case (3 x y zs)
  let ?u = "join_sep [44, 10] (map (\<lambda>x. margin p @ f x) (y # zs)) @ 10 # margin q @ 93 # r"
  have "parses (f x @ 44 # 10 # ?u) x (44 # 10 # ?u)"
    by (rule 3(4)) (simp_all add: number_ends_def digit_char_def)
  then have x: "parses (margin p @ f x @ 44 # 10 # ?u) x (44 # 10 # ?u)"
    by (subst parses_skip [OF skip_margin])
  have "\<exists>m. parse_items m ?u = Some (y # zs, r)" by (rule 3(2)) (use 3(4) in simp_all)
  then have "\<exists>m. parse_items m (10 # ?u) = Some (y # zs, r)"
    by (simp only: parse_items_skip [OF skip_newline])
  from parse_items_more [OF x _ this] show ?case by (simp add: json_space_def)
qed simp

definition member_text :: "nat \<Rightarrow> ustring \<times> json \<Rightarrow> ustring" where
  "member_text n e = json_string (fst e) @ str '': '' @ pretty n (snd e)"

lemma parse_members_head:
  assumes "js_text k" "parses s v r" "skip_space s = skip_space s'"
  shows "parse_value m s = Some (v, r) \<Longrightarrow> parse_members (Suc m) (json_string k @ 58 # s') =
    (case skip_space r of [] \<Rightarrow> None | c # t \<Rightarrow>
       if c = 44 then map_option (apfst ((#) (k, v))) (parse_members m t)
       else if c = 125 then Some ([(k, v)], t) else None)"
  using assms parse_value_skip [of s s' m]
  by (simp add: json_string_def parse_json_string json_space_def)

lemma parse_members_one:
  assumes "js_text k" "parses s v r" "skip_space r = 125 # t"
  shows "\<exists>m. parse_members m (json_string k @ 58 # 32 # s) = Some ([(k, v)], t)"
proof -
  obtain m where m: "parse_value m s = Some (v, r)" using assms(2) by (auto simp: parses_def)
  show ?thesis
    using parse_members_head [OF assms(1,2) _ m, of "32 # s"] assms(3)
    by (intro exI [of _ "Suc m"]) (simp add: json_space_def)
qed

lemma parse_members_more:
  assumes "js_text k" "parses s v r" "skip_space r = 44 # t" "\<exists>m. parse_members m t = Some (es, u)"
  shows "\<exists>m. parse_members m (json_string k @ 58 # 32 # s) = Some ((k, v) # es, u)"
proof -
  define f where "f = 2 * length s + 2 * length t + 2"
  have "2 * length s + 1 \<le> f" by (simp add: f_def)
  then have m: "parse_value f s = Some (v, r)" using assms(2) unfolding parses_iff by blast
  have "2 * length t + 2 \<le> f" by (simp add: f_def)
  then have "parse_members f t = Some (es, u)"
    using assms(4) parse_fuel_enough(3) [of _ t es u] by blast
  with parse_members_head [OF assms(1,2) _ m, of "32 # s"] assms(3) show ?thesis
    by (intro exI [of _ "Suc f"]) (simp add: json_space_def)
qed

lemma parse_members_join:
  assumes "es \<noteq> []" "\<forall>e\<in>set es. js_text (fst e)"
    "\<And>e r. e \<in> set es \<Longrightarrow> number_ends r \<Longrightarrow> parses (pretty n (snd e) @ r) (snd e) r"
  shows "\<exists>m. parse_members m (join_sep [44, 10] (map (\<lambda>e. margin p @ member_text n e) es) @ 10 # margin q @ 125 # r) =
     Some (es, r)"
  using assms
proof (induction es rule: induct_list012)
  case (2 e)
  have "parses (pretty n (snd e) @ 10 # margin q @ 125 # r) (snd e) (10 # margin q @ 125 # r)"
    by (rule 2) (simp_all add: number_ends_def digit_char_def)
  from parse_members_one [OF _ this, of "fst e" r] 2(2) show ?case
    by (simp add: member_text_def json_space_def parse_members_skip [OF skip_margin])
next
  case (3 e y zs)
  let ?u = "join_sep [44, 10] (map (\<lambda>e. margin p @ member_text n e) (y # zs)) @ 10 # margin q @ 125 # r"
  have e: "parses (pretty n (snd e) @ 44 # 10 # ?u) (snd e) (44 # 10 # ?u)"
    by (rule 3(5)) (simp_all add: number_ends_def digit_char_def)
  have "\<exists>m. parse_members m ?u = Some (y # zs, r)" by (rule 3(2)) (use 3(4,5) in simp_all)
  then have "\<exists>m. parse_members m (10 # ?u) = Some (y # zs, r)"
    by (simp only: parse_members_skip [OF skip_newline])
  from parse_members_more [OF _ e _ this, of "fst e"] 3(4) show ?case
    by (simp add: member_text_def json_space_def parse_members_skip [OF skip_margin])
qed simp

lemma pretty_object: "es \<noteq> [] \<Longrightarrow> pretty n (JObj es) =
    [123, 10] @ join_sep [44, 10] (map (\<lambda>e. margin (n + 2) @ member_text (n + 2) e) es) @ 10 # margin n @ [125]"
  by (simp add: member_text_def case_prod_unfold)

lemma drop_prefix_other: "skip_space s = c # t \<Longrightarrow> c \<noteq> d \<Longrightarrow> drop_prefix [d] (skip_space s) = None"
  by simp

lemma join_text_first: "xs \<noteq> [] \<Longrightarrow> \<exists>t. join_sep sep (map f xs) @ r = f (hd xs) @ t"
  by (cases xs; cases "tl xs") auto

lemma parses_array:
  assumes "xs \<noteq> []" "\<And>x r. x \<in> set xs \<Longrightarrow> number_ends r \<Longrightarrow> parses (pretty (n + 2) x @ r) x r"
  shows "parses (pretty n (JArr xs) @ r) (JArr xs) r"
proof -
  let ?u = "join_sep [44, 10] (map (\<lambda>x. margin (n + 2) @ pretty (n + 2) x) xs) @ 10 # margin n @ 93 # r"
  obtain m where m: "parse_items m ?u = Some (xs, r)"
    using parse_items_join [where f = "pretty (n + 2)", OF assms] by blast
  obtain t where "?u = margin (n + 2) @ pretty (n + 2) (hd xs) @ t"
    using join_text_first [OF assms(1), where f = "\<lambda>x. margin (n + 2) @ pretty (n + 2) x"] by fastforce
  then obtain c w where c: "skip_space ?u = c # w" "c \<noteq> 93"
    using pretty_first [of "n + 2" "hd xs"] by (auto simp del: replicate_add replicate.simps)
  have "parse_value (Suc m) (91 # 10 # ?u) = Some (JArr xs, r)"
    using m c parse_items_skip [OF skip_newline, of m ?u]
    by (simp add: json_space_def del: append_assoc replicate.simps)
  then have "parses (91 # 10 # ?u) (JArr xs) r" unfolding parses_def by blast
  moreover have "pretty n (JArr xs) @ r = 91 # 10 # ?u" using assms(1) by simp
  ultimately show ?thesis by (simp only:)
qed

lemma parses_object:
  assumes "es \<noteq> []" "\<forall>e\<in>set es. js_text (fst e)" "distinct (map fst es)"
    "\<And>e r. e \<in> set es \<Longrightarrow> number_ends r \<Longrightarrow> parses (pretty (n + 2) (snd e) @ r) (snd e) r"
  shows "parses (pretty n (JObj es) @ r) (JObj es) r"
proof -
  let ?u = "join_sep [44, 10] (map (\<lambda>e. margin (n + 2) @ member_text (n + 2) e) es) @ 10 # margin n @ 125 # r"
  obtain m where m: "parse_members m ?u = Some (es, r)"
    using parse_members_join [OF assms(1,2,4)] by blast
  obtain t where "?u = margin (n + 2) @ member_text (n + 2) (hd es) @ t"
    using join_text_first [OF assms(1), where f = "\<lambda>e. margin (n + 2) @ member_text (n + 2) e"] by fastforce
  then obtain w where c: "skip_space ?u = 34 # w"
    by (auto simp: member_text_def json_string_def json_space_def simp del: replicate_add replicate.simps)
  have "parse_value (Suc m) (123 # 10 # ?u) = Some (JObj es, r)"
    using m c parse_members_skip [OF skip_newline, of m ?u] object_of_distinct [OF assms(3)]
    by (simp add: json_space_def del: append_assoc replicate.simps)
  then have "parses (123 # 10 # ?u) (JObj es) r" unfolding parses_def by blast
  moreover have "pretty n (JObj es) @ r = 123 # 10 # ?u" unfolding pretty_object [OF assms(1)] by simp
  ultimately show ?thesis by (simp only:)
qed

lemma parse_pretty: "json_ok j \<Longrightarrow> number_ends r \<Longrightarrow> parses (pretty n j @ r) j r"
proof (induction j arbitrary: n r)
  case (JNum i)
  obtain c t where "dec_int i = c # t" "c = 45 \<or> digit_char c" using dec_int_hd [of i] by (auto simp: digit_char_def)
  moreover have "parse_number (dec_int i @ r) = Some (JNum i, r)" using JNum by (simp add: parse_dec_int)
  ultimately show ?case
    unfolding parses_def by (intro exI [of _ 1]) (auto simp: json_space_def digit_char_def)
next
  case (JStr s)
  then show ?case
    unfolding parses_def by (intro exI [of _ 1]) (simp add: json_string_def json_space_def parse_json_string)
next
  case (JArr xs)
  show ?case
  proof (cases "xs = []")
    case True
    then show ?thesis unfolding parses_def by (intro exI [of _ 1]) (simp add: json_space_def)
  next
    case False
    then show ?thesis by (rule parses_array) (use JArr in \<open>auto simp: list_all_iff\<close>)
  qed
next
  case (JObj es)
  show ?case
  proof (cases "es = []")
    case True
    then show ?thesis unfolding parses_def by (intro exI [of _ 1]) (simp add: json_space_def)
  next
    case False
    then show ?thesis
      by (rule parses_object) (use JObj in \<open>fastforce simp: list_all_iff\<close>)+
  qed
qed (unfold parses_def, (intro exI [of _ 1], simp add: json_space_def digit_char_def parse_word_def)+)

text \<open>The indented JSON text of a value parses back to the value, for every value whose texts are
  sequences of code points without a lone pair of surrogates and whose objects have distinct keys.\<close>

theorem stable_json_roundtrip: "json_ok v \<Longrightarrow> json_parse (stableJson v) = Some v"
proof -
  assume "json_ok v"
  then have "parses (stableJson v) v [10]"
    unfolding stableJson_def by (rule parse_pretty) (simp add: number_ends_def digit_char_def)
  then show ?thesis by (auto simp: json_parse_iff json_space_def)
qed

definition demo_json :: json where
  "demo_json = JObj [(str ''a'', JArr [JNum 3, JNull]), (str ''b'', JStr [34, 10, 233])]"

lemma stable_json_roundtrip_witness: "json_parse (stableJson demo_json) = Some demo_json"
  by (rule stable_json_roundtrip) (simp add: demo_json_def high_surrogate_def)

end
