(* ===== verification/Projection_Markdown.thy ===== *)
theory Projection_Markdown
  imports Scope_Ids Promotion_Plan Json_Parse
begin

text \<open>
  Rendering of one memory (\<open>src/projection/markdown.ts\<close>): the object key, the front matter and the
  Markdown body. \<open>sha\<close> is the hexadecimal SHA-256 of \<open>security/crypto.ts\<close>. Keys, prefixes and URIs are
  in \<open>Scope_Ids\<close>. Promises of several memories fail with one error text in every order, so they are
  run in list order.
\<close>

section \<open>Data\<close>

record projection_memory =
  pm_project :: ustring
  pm_project_version :: int
  pm_snapshot :: ustring
  pm_memory :: ustring
  pm_revision :: ustring
  pm_version :: int
  pm_kind :: memory_kind
  pm_class :: memory_class
  pm_scope :: memory_scope
  pm_scope_id :: ustring
  pm_status :: memory_status
  pm_from :: "ustring option"
  pm_until :: "ustring option"
  pm_evidence :: "ustring list"
  pm_content :: ustring

datatype content_type = ApplicationJson | TextMarkdown

fun content_type_name :: "content_type \<Rightarrow> ustring" where
  "content_type_name ApplicationJson = str ''application/json''"
| "content_type_name TextMarkdown = str ''text/markdown; charset=utf-8''"

record projection_write =
  pw_key :: ustring
  pw_body :: ustring
  pw_sha :: ustring
  pw_type :: content_type

record memory_write =
  mw_write :: projection_write
  mw_content_sha :: ustring

datatype object_type = HeadObject | RevisionObject

fun object_type_name :: "object_type \<Rightarrow> ustring" where
  "object_type_name HeadObject = str ''head''"
| "object_type_name RevisionObject = str ''revision''"

definition memory_classes :: "memory_class list" where
  "memory_classes = [Semantic, Procedural, Episodic]"

fun status_name :: "memory_status \<Rightarrow> ustring" where
  "status_name Active = str ''active''"
| "status_name Contested = str ''contested''"
| "status_name Superseded = str ''superseded''"
| "status_name Invalidated = str ''invalidated''"
| "status_name Archived = str ''archived''"

section \<open>Checks\<close>

definition normalizeEvidenceIds :: "ustring list \<Rightarrow> thrown + ustring list" where
  "normalizeEvidenceIds ids =
     bind_res (check_all (requireNonempty (str ''evidence ID'')) ids) (\<lambda>_. Inr (js_sort (js_unique ids)))"

definition requireOptional :: "ustring \<Rightarrow> ustring option \<Rightarrow> thrown + unit" where
  "requireOptional label v = (case v of None \<Rightarrow> Inr () | Some t \<Rightarrow> requireNonempty label t)"

text \<open>The taxonomy checks cannot fail on a typed memory.\<close>

definition validateProjectionMemory :: "projection_memory \<Rightarrow> thrown + unit" where
  "validateProjectionMemory m =
     bind_res (requireNonempty (str ''project ID'') (pm_project m)) (\<lambda>_.
     bind_res (requireNonempty (str ''snapshot ID'') (pm_snapshot m)) (\<lambda>_.
     bind_res (requireNonempty (str ''memory ID'') (pm_memory m)) (\<lambda>_.
     bind_res (requireNonempty (str ''revision ID'') (pm_revision m)) (\<lambda>_.
     bind_res (requireNonempty (str ''scope ID'') (pm_scope_id m)) (\<lambda>_.
     bind_res (requireOptional (str ''valid_from'') (pm_from m)) (\<lambda>_.
     bind_res (require (is_safe_integer (pm_project_version m) \<and> 0 \<le> pm_project_version m)
       (Other (str ''Project version must be a nonnegative safe integer.''))) (\<lambda>_.
     bind_res (require (is_safe_integer (pm_version m) \<and> 1 \<le> pm_version m)
       (Other (str ''Memory version must be a positive safe integer.''))) (\<lambda>_.
     bind_res (require (pm_kind m \<in> set memory_kinds)
       (Other (str ''Unsupported memory kind: '' @ kind_name (pm_kind m)))) (\<lambda>_.
     bind_res (require (pm_class m \<in> set memory_classes)
       (Other (str ''Unsupported memory class: '' @ class_name (pm_class m)))) (\<lambda>_.
     bind_res (require (pm_scope m \<in> set memory_scopes)
       (Other (str ''Unsupported memory scope: '' @ scope_name (pm_scope m)))) (\<lambda>_.
     bind_res (require (pm_status m \<in> set memory_statuses)
       (Other (str ''Unsupported memory status: '' @ status_name (pm_status m)))) (\<lambda>_.
     bind_res (requireOptional (str ''valid_until'') (pm_until m)) (\<lambda>_.
     bind_res (normalizeEvidenceIds (pm_evidence m)) (\<lambda>_. Inr ()))))))))))))))"

section \<open>Rendering\<close>

definition yaml :: "ustring \<Rightarrow> ustring" where
  "yaml = json_string"

definition yaml_option :: "ustring option \<Rightarrow> ustring" where
  "yaml_option v = (case v of None \<Rightarrow> str ''null'' | Some t \<Rightarrow> yaml t)"

definition frontmatter :: "object_type \<Rightarrow> projection_memory \<Rightarrow> ustring \<Rightarrow> ustring \<Rightarrow> ustring list \<Rightarrow> ustring \<Rightarrow> ustring list" where
  "frontmatter ty m canonicalUri revisionUri evidence contentSha =
     [str ''projection_object: '' @ object_type_name ty,
      str ''project_id: '' @ yaml (pm_project m),
      str ''project_version: '' @ dec_int (pm_project_version m),
      str ''memory_id: '' @ yaml (pm_memory m),
      str ''revision_id: '' @ yaml (pm_revision m),
      str ''memory_version: '' @ dec_int (pm_version m),
      str ''canonical_uri: '' @ yaml canonicalUri,
      str ''revision_uri: '' @ yaml revisionUri,
      str ''kind: '' @ kind_name (pm_kind m),
      str ''memory_class: '' @ class_name (pm_class m),
      str ''scope: '' @ scope_name (pm_scope m),
      str ''scope_id: '' @ yaml (pm_scope_id m),
      str ''status: '' @ status_name (pm_status m),
      str ''valid_from: '' @ yaml_option (pm_from m),
      str ''valid_until: '' @ yaml_option (pm_until m),
      str ''evidence_ids: ['' @ join_sep (str '', '') (map yaml evidence) @ str '']'',
      str ''sha256: '' @ contentSha]"

definition memory_body :: "ustring list \<Rightarrow> ustring \<Rightarrow> ustring" where
  "memory_body fm content = join_with 10 ([str ''---''] @ fm @ [str ''---'']) @ [10, 10] @ content @ [10]"

definition object_key :: "object_type \<Rightarrow> ustring \<Rightarrow> ustring \<Rightarrow> ustring \<Rightarrow> ustring \<Rightarrow> thrown + ustring" where
  "object_key ty prefix hash memoryId revisionId =
     (case ty of
        HeadObject \<Rightarrow> Inr (prefix @ str ''objects/'' @ hash @ str ''/'' @ memoryId @ str ''.md'')
      | RevisionObject \<Rightarrow>
          bind_res (pathSegment revisionId) (\<lambda>r.
            Inr (prefix @ str ''revisions/'' @ hash @ str ''/'' @ memoryId @ str ''/'' @ r @ str ''.md'')))"

definition buildMemoryObject :: "(ustring \<Rightarrow> ustring) \<Rightarrow> object_type \<Rightarrow> projection_memory \<Rightarrow> thrown + memory_write" where
  "buildMemoryObject sha ty m =
     bind_res (validateProjectionMemory m) (\<lambda>_.
     bind_res (projectionPrefix (pm_project m) (pm_snapshot m)) (\<lambda>prefix.
     bind_res (pathSegment (pm_memory m)) (\<lambda>memoryId.
     bind_res (object_key ty prefix (take 2 (sha (pm_memory m))) memoryId (pm_revision m)) (\<lambda>key.
     bind_res (canonicalMemoryUri (pm_project m) (pm_memory m)) (\<lambda>canonicalUri.
     bind_res (revisionMemoryUri (pm_project m) (pm_memory m) (pm_version m)) (\<lambda>revisionUri.
     bind_res (normalizeEvidenceIds (pm_evidence m)) (\<lambda>evidence.
       let contentSha = sha (pm_content m);
           body = memory_body (frontmatter ty m canonicalUri revisionUri evidence contentSha) (pm_content m)
       in Inr \<lparr>mw_write = \<lparr>pw_key = key, pw_body = body, pw_sha = sha body, pw_type = TextMarkdown\<rparr>,
             mw_content_sha = contentSha\<rparr>)))))))"

definition buildProjectionHeadObject :: "(ustring \<Rightarrow> ustring) \<Rightarrow> projection_memory \<Rightarrow> thrown + memory_write" where
  "buildProjectionHeadObject sha = buildMemoryObject sha HeadObject"

definition buildProjectionObject :: "(ustring \<Rightarrow> ustring) \<Rightarrow> projection_memory \<Rightarrow> thrown + memory_write" where
  "buildProjectionObject sha = buildMemoryObject sha RevisionObject"

end
