(* ===== verification/Projection_Snapshot.thy ===== *)
theory Projection_Snapshot
  imports Projection_Markdown "HOL-Library.Product_Lexorder"
begin

text \<open>
  The write plan of a project snapshot (\<open>src/projection/snapshot.ts\<close>): every current memory as a head
  and a revision object, the README, the indexes by kind, class, status and scope, and the manifest
  that lists them. Two memories the code compares by their JSON text are compared as records: the
  texts have the same keys in the same order.
\<close>

section \<open>Data\<close>

record snapshot_input =
  si_project :: ustring
  si_version :: int
  si_snapshot :: ustring
  si_heads :: "projection_memory list"
  si_revisions :: "projection_memory list"

record snapshot_plan =
  sp_project :: ustring
  sp_version :: int
  sp_snapshot :: ustring
  sp_prefix :: ustring
  sp_manifest_key :: ustring
  sp_manifest_sha :: ustring
  sp_writes :: "projection_write list"

record index_entry =
  ix_memory :: ustring
  ix_revision :: ustring
  ix_version :: int
  ix_kind :: memory_kind
  ix_class :: memory_class
  ix_scope :: memory_scope
  ix_scope_id :: ustring
  ix_status :: memory_status
  ix_from :: "ustring option"
  ix_until :: "ustring option"
  ix_canonical_uri :: ustring
  ix_revision_uri :: ustring
  ix_object_key :: ustring
  ix_revision_key :: ustring
  ix_content_sha :: ustring
  ix_object_sha :: ustring
  ix_revision_sha :: ustring

record revision_entry =
  re_memory :: ustring
  re_revision :: ustring
  re_version :: int
  re_from :: "ustring option"
  re_until :: "ustring option"
  re_revision_uri :: ustring
  re_revision_key :: ustring
  re_content_sha :: ustring
  re_revision_sha :: ustring

definition index_json :: "index_entry \<Rightarrow> json" where
  "index_json e = JObj [
     (str ''memory_id'', JStr (ix_memory e)), (str ''revision_id'', JStr (ix_revision e)),
     (str ''memory_version'', JNum (ix_version e)), (str ''kind'', JStr (kind_name (ix_kind e))),
     (str ''memory_class'', JStr (class_name (ix_class e))), (str ''scope'', JStr (scope_name (ix_scope e))),
     (str ''scope_id'', JStr (ix_scope_id e)), (str ''status'', JStr (status_name (ix_status e))),
     (str ''valid_from'', json_opt (ix_from e)), (str ''valid_until'', json_opt (ix_until e)),
     (str ''canonical_uri'', JStr (ix_canonical_uri e)), (str ''revision_uri'', JStr (ix_revision_uri e)),
     (str ''object_key'', JStr (ix_object_key e)), (str ''revision_key'', JStr (ix_revision_key e)),
     (str ''content_sha256'', JStr (ix_content_sha e)), (str ''object_sha256'', JStr (ix_object_sha e)),
     (str ''revision_sha256'', JStr (ix_revision_sha e))]"

definition revision_json :: "revision_entry \<Rightarrow> json" where
  "revision_json e = JObj [
     (str ''memory_id'', JStr (re_memory e)), (str ''revision_id'', JStr (re_revision e)),
     (str ''memory_version'', JNum (re_version e)), (str ''valid_from'', json_opt (re_from e)),
     (str ''valid_until'', json_opt (re_until e)), (str ''revision_uri'', JStr (re_revision_uri e)),
     (str ''revision_key'', JStr (re_revision_key e)), (str ''content_sha256'', JStr (re_content_sha e)),
     (str ''revision_sha256'', JStr (re_revision_sha e))]"

definition toManifestFile :: "projection_write \<Rightarrow> json" where
  "toManifestFile w = JObj [
     (str ''key'', JStr (pw_key w)), (str ''sha256'', JStr (pw_sha w)),
     (str ''content_type'', JStr (content_type_name (pw_type w))),
     (str ''bytes'', JNum (int (utf8_length (pw_body w))))]"

section \<open>The input\<close>

definition validateMemoryForSnapshot :: "snapshot_input \<Rightarrow> projection_memory \<Rightarrow> thrown + unit" where
  "validateMemoryForSnapshot i m =
     bind_res (validateProjectionMemory m) (\<lambda>_.
       require (pm_project m = si_project i \<and> pm_project_version m = si_version i \<and> pm_snapshot m = si_snapshot i)
         (Other (str ''Projection memory is outside the requested snapshot: '' @ pm_revision m)))"

fun check_heads :: "snapshot_input \<Rightarrow> ustring list \<Rightarrow> projection_memory list \<Rightarrow> thrown + unit" where
  "check_heads i seen [] = Inr ()"
| "check_heads i seen (h # hs) =
     bind_res (validateMemoryForSnapshot i h) (\<lambda>_.
     if pm_memory h \<in> set seen then Inl (Other (str ''Duplicate head memory ID: '' @ pm_memory h))
     else check_heads i (pm_memory h # seen) hs)"

definition version_key :: "projection_memory \<Rightarrow> ustring" where
  "version_key r = pm_memory r @ 0 # dec_int (pm_version r)"

definition canonical_head :: "projection_memory list \<Rightarrow> ustring \<Rightarrow> projection_memory option" where
  "canonical_head hs mid = find (\<lambda>h. pm_memory h = mid) hs"

fun check_revisions :: "snapshot_input \<Rightarrow> ustring list \<Rightarrow> ustring list \<Rightarrow> projection_memory list \<Rightarrow> thrown + unit" where
  "check_revisions i ids keys [] = Inr ()"
| "check_revisions i ids keys (r # rs) =
     bind_res (validateMemoryForSnapshot i r) (\<lambda>_.
     if pm_revision r \<in> set ids then Inl (Other (str ''Duplicate revision ID: '' @ pm_revision r))
     else if version_key r \<in> set keys
     then Inl (Other (str ''Duplicate memory revision version: '' @ pm_memory r @ 58 # dec_int (pm_version r)))
     else case canonical_head (si_heads i) (pm_memory r) of
       None \<Rightarrow> Inl (Other (str ''Revision has no canonical head: '' @ pm_revision r))
     | Some h \<Rightarrow>
         if pm_revision r \<noteq> pm_revision h
         then Inl (Other (str ''Revision is not the canonical current head: '' @ pm_revision r))
         else check_revisions i (pm_revision r # ids) (version_key r # keys) rs)"

definition normalizedMemory :: "projection_memory \<Rightarrow> thrown + projection_memory" where
  "normalizedMemory m = bind_res (normalizeEvidenceIds (pm_evidence m)) (\<lambda>es. Inr (m\<lparr>pm_evidence := es\<rparr>))"

definition sameProjectionMemory :: "projection_memory \<Rightarrow> projection_memory \<Rightarrow> thrown + bool" where
  "sameProjectionMemory l r =
     bind_res (normalizedMemory l) (\<lambda>a. bind_res (normalizedMemory r) (\<lambda>b. Inr (a = b)))"

definition check_matching :: "snapshot_input \<Rightarrow> projection_memory \<Rightarrow> thrown + unit" where
  "check_matching i h =
     (case find (\<lambda>r. pm_revision r = pm_revision h) (si_revisions i) of
        None \<Rightarrow> Inl (Other (str ''Head revision is missing from revisions: '' @ pm_revision h))
      | Some r \<Rightarrow>
          bind_res (sameProjectionMemory h r) (\<lambda>same.
            require same (Other (str ''Head and revision metadata differ: '' @ pm_revision h))))"

definition validateSnapshotInput :: "snapshot_input \<Rightarrow> thrown + unit" where
  "validateSnapshotInput i =
     bind_res (projectionPrefix (si_project i) (si_snapshot i)) (\<lambda>_.
     bind_res (require (is_safe_integer (si_version i) \<and> 0 \<le> si_version i)
       (Other (str ''Project version must be a nonnegative safe integer.''))) (\<lambda>_.
     bind_res (check_heads i [] (si_heads i)) (\<lambda>_.
     bind_res (check_revisions i [] [] (si_revisions i)) (\<lambda>_.
     bind_res (require (length (si_revisions i) = length (si_heads i))
       (Other (str ''Each projected head must have exactly one current revision.''))) (\<lambda>_.
       check_all (check_matching i) (si_heads i))))))"

section \<open>Entries\<close>

definition buildIndexEntry :: "projection_memory \<Rightarrow> memory_write \<Rightarrow> memory_write \<Rightarrow> thrown + index_entry" where
  "buildIndexEntry m hw rw =
     bind_res (canonicalMemoryUri (pm_project m) (pm_memory m)) (\<lambda>uri.
     bind_res (revisionMemoryUri (pm_project m) (pm_memory m) (pm_version m)) (\<lambda>ruri.
       Inr \<lparr>ix_memory = pm_memory m, ix_revision = pm_revision m, ix_version = pm_version m,
         ix_kind = pm_kind m, ix_class = pm_class m, ix_scope = pm_scope m, ix_scope_id = pm_scope_id m,
         ix_status = pm_status m, ix_from = pm_from m, ix_until = pm_until m, ix_canonical_uri = uri,
         ix_revision_uri = ruri, ix_object_key = pw_key (mw_write hw), ix_revision_key = pw_key (mw_write rw),
         ix_content_sha = mw_content_sha hw, ix_object_sha = pw_sha (mw_write hw),
         ix_revision_sha = pw_sha (mw_write rw)\<rparr>))"

definition buildRevisionEntry :: "projection_memory \<Rightarrow> memory_write \<Rightarrow> thrown + revision_entry" where
  "buildRevisionEntry m rw =
     bind_res (revisionMemoryUri (pm_project m) (pm_memory m) (pm_version m)) (\<lambda>ruri.
       Inr \<lparr>re_memory = pm_memory m, re_revision = pm_revision m, re_version = pm_version m,
         re_from = pm_from m, re_until = pm_until m, re_revision_uri = ruri,
         re_revision_key = pw_key (mw_write rw), re_content_sha = mw_content_sha rw,
         re_revision_sha = pw_sha (mw_write rw)\<rparr>)"

text \<open>A JavaScript map built from a list of entries, the last one of a key wins.\<close>

definition requiredMapValue :: "(ustring \<times> 'v) list \<Rightarrow> ustring \<Rightarrow> string \<Rightarrow> thrown + 'v" where
  "requiredMapValue es k label =
     (case map_of (rev es) k of None \<Rightarrow> Inl (Other (str ''Missing '' @ str label @ str ''.'')) | Some v \<Rightarrow> Inr v)"

definition index_entry_for :: "(ustring \<times> memory_write) list \<Rightarrow> (ustring \<times> memory_write) list \<Rightarrow> projection_memory \<Rightarrow> thrown + index_entry" where
  "index_entry_for hm rm h = bind_res (requiredMapValue hm (pm_memory h) ''head write'') (\<lambda>hw.
     bind_res (requiredMapValue rm (pm_revision h) ''revision write'') (buildIndexEntry h hw))"

definition revision_entry_for :: "(ustring \<times> memory_write) list \<Rightarrow> projection_memory \<Rightarrow> thrown + revision_entry" where
  "revision_entry_for rm r = bind_res (requiredMapValue rm (pm_revision r) ''revision write'') (buildRevisionEntry r)"

section \<open>Index files\<close>

definition buildTextWrite :: "(ustring \<Rightarrow> ustring) \<Rightarrow> ustring \<Rightarrow> ustring \<Rightarrow> content_type \<Rightarrow> projection_write" where
  "buildTextWrite sha key body ty = \<lparr>pw_key = key, pw_body = body, pw_sha = sha body, pw_type = ty\<rparr>"

datatype dimension = ByKind | ByClass | ByScope | ByStatus

fun dimension_name :: "dimension \<Rightarrow> ustring" where
  "dimension_name ByKind = str ''kind''"
| "dimension_name ByClass = str ''class''"
| "dimension_name ByScope = str ''scope''"
| "dimension_name ByStatus = str ''status''"

definition buildJsonIndexWrite ::
  "(ustring \<Rightarrow> ustring) \<Rightarrow> ustring \<Rightarrow> snapshot_input \<Rightarrow> dimension \<Rightarrow> ustring \<Rightarrow> index_entry list \<Rightarrow> projection_write" where
  "buildJsonIndexWrite sha key i d value entries =
     buildTextWrite sha key (stableJson (JObj [
       (str ''schema_version'', JNum 1), (str ''project_id'', JStr (si_project i)),
       (str ''project_version'', JNum (si_version i)), (str ''snapshot_id'', JStr (si_snapshot i)),
       (str ''dimension'', JObj [(str ''type'', JStr (dimension_name d)), (str ''value'', JStr value)]),
       (str ''memories'', JArr (map index_json entries))])) ApplicationJson"

definition escapeTableCell :: "ustring \<Rightarrow> ustring" where
  "escapeTableCell s = map (\<lambda>c. if c = 10 then 32 else c) (concat (map (\<lambda>c. if c = 124 then [92, 124] else [c]) s))"

definition table_row :: "index_entry \<Rightarrow> ustring" where
  "table_row e = str ''| '' @ escapeTableCell (ix_memory e) @ str '' | '' @ dec_int (ix_version e) @ str '' | '' @
     status_name (ix_status e) @ str '' | '' @ ix_canonical_uri e @ str '' |''"

definition code_line :: "string \<Rightarrow> ustring \<Rightarrow> ustring" where
  "code_line label v = str label @ str '': `'' @ v @ str ''`''"

definition buildMarkdownIndex :: "snapshot_input \<Rightarrow> dimension \<Rightarrow> ustring \<Rightarrow> index_entry list \<Rightarrow> ustring" where
  "buildMarkdownIndex i d value entries =
     join_with 10 ([str ''# Memories by '' @ dimension_name d @ str '': '' @ value, [],
        code_line ''Project'' (si_project i), [], code_line ''Project version'' (dec_int (si_version i)), []] @
       (if entries = [] then [str ''_No memories._'']
        else [str ''| Memory | Version | Status | Canonical URI |'', str ''| --- | ---: | --- | --- |''] @
          map table_row entries) @ [[]])"

definition appendDualIndex ::
  "(ustring \<Rightarrow> ustring) \<Rightarrow> ustring \<Rightarrow> snapshot_input \<Rightarrow> dimension \<Rightarrow> ustring \<Rightarrow> index_entry list \<Rightarrow>
    thrown + projection_write list" where
  "appendDualIndex sha prefix i d value entries =
     bind_res (pathSegment value) (\<lambda>seg.
       let indexPrefix = prefix @ str ''indexes/by-'' @ dimension_name d @ str ''/'' @ seg @ str ''/index''
       in Inr [buildJsonIndexWrite sha (indexPrefix @ str ''.json'') i d value entries,
            buildTextWrite sha (indexPrefix @ str ''.md'') (buildMarkdownIndex i d value entries) TextMarkdown])"

text \<open>The entries of the heads that satisfy a condition; entries and heads go in parallel.\<close>

definition entries_where :: "(projection_memory \<Rightarrow> bool) \<Rightarrow> projection_memory list \<Rightarrow> index_entry list \<Rightarrow> index_entry list" where
  "entries_where p heads entries = map snd (filter (\<lambda>(h, e). p h) (zip heads entries))"

definition status_index ::
  "(ustring \<Rightarrow> ustring) \<Rightarrow> ustring \<Rightarrow> snapshot_input \<Rightarrow> projection_memory list \<Rightarrow> index_entry list \<Rightarrow> memory_status \<Rightarrow>
    thrown + projection_write" where
  "status_index sha prefix i heads entries st =
     bind_res (pathSegment (status_name st)) (\<lambda>seg.
       Inr (buildJsonIndexWrite sha (prefix @ str ''indexes/by-status/'' @ seg @ str ''/index.json'') i ByStatus
         (status_name st) (entries_where (\<lambda>h. pm_status h = st) heads entries)))"

definition appendTaxonomyIndexes ::
  "(ustring \<Rightarrow> ustring) \<Rightarrow> ustring \<Rightarrow> snapshot_input \<Rightarrow> projection_memory list \<Rightarrow> index_entry list \<Rightarrow>
    thrown + projection_write list" where
  "appendTaxonomyIndexes sha prefix i heads entries =
     bind_res (map_res (\<lambda>k. appendDualIndex sha prefix i ByKind (kind_name k)
       (entries_where (\<lambda>h. pm_kind h = k) heads entries)) memory_kinds) (\<lambda>kinds.
     bind_res (map_res (\<lambda>c. appendDualIndex sha prefix i ByClass (class_name c)
       (entries_where (\<lambda>h. pm_class h = c) heads entries)) memory_classes) (\<lambda>classes.
     bind_res (map_res (status_index sha prefix i heads entries) memory_statuses) (\<lambda>statuses.
       Inr (concat kinds @ concat classes @ statuses))))"

definition scope_ids :: "projection_memory list \<Rightarrow> ustring list" where
  "scope_ids heads = js_sort (js_unique (map pm_scope_id heads))"

definition appendScopeIndexes ::
  "(ustring \<Rightarrow> ustring) \<Rightarrow> snapshot_input \<Rightarrow> projection_memory list \<Rightarrow> index_entry list \<Rightarrow>
    thrown + projection_write list" where
  "appendScopeIndexes sha i heads entries =
     map_res (\<lambda>s. bind_res (projectionScopeIndexKey (si_project i) (si_snapshot i) s) (\<lambda>key.
       Inr (buildJsonIndexWrite sha key i ByScope s (entries_where (\<lambda>h. pm_scope_id h = s) heads entries))))
       (scope_ids heads)"

definition readme_link :: "string \<Rightarrow> ustring \<Rightarrow> thrown + ustring" where
  "readme_link dim name =
     bind_res (pathSegment name) (\<lambda>seg.
       Inr (str ''- ['' @ name @ str ''](indexes/by-'' @ str dim @ str ''/'' @ seg @ str ''/index.md)''))"

definition buildReadme :: "snapshot_input \<Rightarrow> nat \<Rightarrow> nat \<Rightarrow> thrown + ustring" where
  "buildReadme i memories revisions =
     bind_res (map_res (\<lambda>k. readme_link ''kind'' (kind_name k)) memory_kinds) (\<lambda>kinds.
     bind_res (map_res (\<lambda>c. readme_link ''class'' (class_name c)) memory_classes) (\<lambda>classes.
       Inr (join_with 10 ([str ''# EdgeMneme Projection'', [], code_line ''Project'' (si_project i), [],
         code_line ''Project version'' (dec_int (si_version i)), [], code_line ''Snapshot'' (si_snapshot i), [],
         code_line ''Canonical memories'' (dec memories), [], code_line ''Current revisions'' (dec revisions), [],
         str ''## Kinds'', []] @ kinds @ [[], str ''## Classes'', []] @ classes @ [[]]))))"

section \<open>The plan\<close>

definition sort_heads :: "projection_memory list \<Rightarrow> projection_memory list" where
  "sort_heads hs = sort_key (\<lambda>h. utf16 (pm_memory h)) hs"

definition sort_revisions :: "projection_memory list \<Rightarrow> projection_memory list" where
  "sort_revisions rs = sort_key (\<lambda>r. (utf16 (pm_memory r), pm_version r, utf16 (pm_revision r))) rs"

definition sort_writes :: "projection_write list \<Rightarrow> projection_write list" where
  "sort_writes ws = sort_key (\<lambda>w. utf16 (pw_key w)) ws"

fun assertUniqueWriteKeys :: "ustring list \<Rightarrow> projection_write list \<Rightarrow> thrown + unit" where
  "assertUniqueWriteKeys seen [] = Inr ()"
| "assertUniqueWriteKeys seen (w # ws) =
     (if pw_key w \<in> set seen then Inl (Other (str ''Duplicate projection write key: '' @ pw_key w))
      else assertUniqueWriteKeys (pw_key w # seen) ws)"

definition manifest_json :: "snapshot_input \<Rightarrow> index_entry list \<Rightarrow> revision_entry list \<Rightarrow> projection_write list \<Rightarrow> json" where
  "manifest_json i entries revisions writes = JObj [
     (str ''schema_version'', JNum 1), (str ''project_id'', JStr (si_project i)),
     (str ''project_version'', JNum (si_version i)), (str ''snapshot_id'', JStr (si_snapshot i)),
     (str ''memories'', JArr (map index_json entries)), (str ''revisions'', JArr (map revision_json revisions)),
     (str ''files'', JArr (map toManifestFile writes))]"

definition finish_plan ::
  "(ustring \<Rightarrow> ustring) \<Rightarrow> snapshot_input \<Rightarrow> ustring \<Rightarrow> index_entry list \<Rightarrow> revision_entry list \<Rightarrow>
    projection_write list \<Rightarrow> snapshot_plan" where
  "finish_plan sha i prefix entries revisions writes =
     (let manifest = buildTextWrite sha (prefix @ str ''manifest.json'')
            (stableJson (manifest_json i entries revisions writes)) ApplicationJson
      in \<lparr>sp_project = si_project i, sp_version = si_version i, sp_snapshot = si_snapshot i, sp_prefix = prefix,
          sp_manifest_key = pw_key manifest, sp_manifest_sha = pw_sha manifest,
          sp_writes = sort_writes (writes @ [manifest])\<rparr>)"

definition buildProjectionSnapshotPlan :: "(ustring \<Rightarrow> ustring) \<Rightarrow> snapshot_input \<Rightarrow> thrown + snapshot_plan" where
  "buildProjectionSnapshotPlan sha i =
     bind_res (validateSnapshotInput i) (\<lambda>_.
     bind_res (projectionPrefix (si_project i) (si_snapshot i)) (\<lambda>prefix.
     let heads = sort_heads (si_heads i); revisions = sort_revisions (si_revisions i) in
     bind_res (map_res (buildProjectionObject sha) revisions) (\<lambda>revisionWrites.
     bind_res (map_res (buildProjectionHeadObject sha) heads) (\<lambda>headWrites.
     let revisionWriteById = zip (map pm_revision revisions) revisionWrites;
         headWriteByMemoryId = zip (map pm_memory heads) headWrites in
     bind_res (map_res (index_entry_for headWriteByMemoryId revisionWriteById) heads) (\<lambda>entries.
     bind_res (map_res (revision_entry_for revisionWriteById) revisions) (\<lambda>revisionEntries.
     bind_res (buildReadme i (length entries) (length revisionEntries)) (\<lambda>readme.
     bind_res (appendTaxonomyIndexes sha prefix i heads entries) (\<lambda>taxonomy.
     bind_res (appendScopeIndexes sha i heads entries) (\<lambda>scopes.
     let writes = sort_writes (map mw_write headWrites @ map mw_write revisionWrites @
           [buildTextWrite sha (prefix @ str ''README.md'') readme TextMarkdown] @ taxonomy @ scopes) in
     bind_res (assertUniqueWriteKeys [] writes) (\<lambda>_.
       Inr (finish_plan sha i prefix entries revisionEntries writes)))))))))))"

end
