(* ===== verification/Projection_Validation.thy ===== *)
theory Projection_Validation
  imports Projection_Snapshot Page_Token
begin

text \<open>
  The checks a write plan passes before anything is stored (\<open>src/projection/validation.ts\<close>): they work on
  the rendered texts alone. Errors are collected in order; \<open>thrown\<close> is left for what the code does not catch.
\<close>

section \<open>Text\<close>

definition starts_with :: "ustring \<Rightarrow> ustring \<Rightarrow> bool" where
  "starts_with p s \<longleftrightarrow> drop_prefix p s \<noteq> None"

definition ends_with_newline :: "ustring \<Rightarrow> bool" where
  "ends_with_newline s \<longleftrightarrow> s \<noteq> [] \<and> last s = 10"

text \<open>\<open>s.indexOf(p)\<close>.\<close>

fun find_text :: "ustring \<Rightarrow> ustring \<Rightarrow> nat option" where
  "find_text p [] = (if p = [] then Some 0 else None)"
| "find_text p (c # s) = (if starts_with p (c # s) then Some 0 else map_option Suc (find_text p s))"

definition contains_text :: "ustring \<Rightarrow> ustring \<Rightarrow> bool" where
  "contains_text p s \<longleftrightarrow> find_text p s \<noteq> None"

text \<open>What \<open>^\<close> and \<open>$\<close> of a multi-line regular expression take for the end of a line.\<close>

definition line_terminator :: "nat \<Rightarrow> bool" where
  "line_terminator c \<longleftrightarrow> c = 10 \<or> c = 13 \<or> c = 8232 \<or> c = 8233"

fun regex_lines :: "ustring \<Rightarrow> ustring list" where
  "regex_lines [] = [[]]"
| "regex_lines (c # s) =
     (if line_terminator c then [] # regex_lines s
      else (case regex_lines s of [] \<Rightarrow> [[c]] | l # ls \<Rightarrow> (c # l) # ls))"

definition checksum_line :: "ustring \<Rightarrow> ustring option" where
  "checksum_line l =
     (case drop_prefix (str ''sha256: '') l of
        None \<Rightarrow> None
      | Some d \<Rightarrow> if digest_text d then Some d else None)"

text \<open>The first match of \<open>/^sha256: ([a-f0-9]{64})$/mu\<close>.\<close>

definition frontmatter_checksum :: "ustring \<Rightarrow> ustring option" where
  "frontmatter_checksum fm =
     (case find (\<lambda>l. checksum_line l \<noteq> None) (regex_lines fm) of None \<Rightarrow> None | Some l \<Rightarrow> checksum_line l)"

definition thrown_message :: "thrown \<Rightarrow> ustring" where
  "thrown_message t = (case t of Edge e \<Rightarrow> err_message e | Other m \<Rightarrow> m)"

section \<open>Parsed values\<close>

definition field :: "json \<Rightarrow> string \<Rightarrow> json option" where
  "field j k = (case j of JObj es \<Rightarrow> map_of es (str k) | _ \<Rightarrow> None)"

definition isRecord :: "json \<Rightarrow> bool" where
  "isRecord j = (case j of JObj es \<Rightarrow> True | _ \<Rightarrow> False)"

definition text_field :: "json \<Rightarrow> string \<Rightarrow> ustring option" where
  "text_field j k = (case field j k of Some (JStr s) \<Rightarrow> Some s | _ \<Rightarrow> None)"

text \<open>\<open>===\<close> on parsed values: two arrays or objects are never the same one.\<close>

fun same_value :: "json option \<Rightarrow> json option \<Rightarrow> bool" where
  "same_value (Some (JArr xs)) b = False"
| "same_value (Some (JObj es)) b = False"
| "same_value a b \<longleftrightarrow> a = b"

definition array_entries :: "json option \<Rightarrow> json list" where
  "array_entries j = (case j of Some (JArr xs) \<Rightarrow> xs | _ \<Rightarrow> [])"

definition is_array :: "json option \<Rightarrow> bool" where
  "is_array j = (case j of Some (JArr xs) \<Rightarrow> True | _ \<Rightarrow> False)"

definition complain :: "bool \<Rightarrow> string \<Rightarrow> ustring list" where
  "complain bad m = (if bad then [str m] else [])"

section \<open>References\<close>

definition has_key :: "ustring list \<Rightarrow> ustring option \<Rightarrow> bool" where
  "has_key keys k = (case k of None \<Rightarrow> False | Some s \<Rightarrow> s \<in> set keys)"

definition matching_revision :: "json \<Rightarrow> json \<Rightarrow> bool" where
  "matching_revision e r \<longleftrightarrow> isRecord r \<and> same_value (field r ''memory_id'') (field e ''memory_id'') \<and>
     same_value (field r ''revision_id'') (field e ''revision_id'') \<and>
     same_value (field r ''revision_key'') (field e ''revision_key'')"

fun memory_reference_errors :: "ustring list \<Rightarrow> json list \<Rightarrow> ustring list \<Rightarrow> json list \<Rightarrow> ustring list" where
  "memory_reference_errors keys revisions seen [] = []"
| "memory_reference_errors keys revisions seen (e # es) =
     (if \<not> isRecord e
      then str ''Manifest contains an invalid memory entry.'' # memory_reference_errors keys revisions seen es
      else
        complain (\<not> has_key keys (text_field e ''object_key'') \<or> \<not> has_key keys (text_field e ''revision_key''))
          ''Manifest memory entry references a missing object.'' @
        (case (text_field e ''memory_id'', text_field e ''revision_id'') of
           (Some m, Some r) \<Rightarrow>
             complain (m \<in> set seen) ''Manifest contains a duplicate memory entry.'' @
             complain (\<not> list_ex (matching_revision e) revisions) ''Manifest memory entry has no matching current revision.'' @
             memory_reference_errors keys revisions (m # seen) es
         | _ \<Rightarrow>
             str ''Manifest memory entry has an invalid current revision identity.'' #
             complain (\<not> list_ex (matching_revision e) revisions) ''Manifest memory entry has no matching current revision.'' @
             memory_reference_errors keys revisions seen es))"

fun revision_reference_errors :: "ustring list \<Rightarrow> ustring list \<Rightarrow> json list \<Rightarrow> ustring list" where
  "revision_reference_errors keys seen [] = []"
| "revision_reference_errors keys seen (e # es) =
     complain (\<not> has_key keys (text_field e ''revision_key'')) ''Manifest revision entry references a missing object.'' @
     (case text_field e ''revision_id'' of
        None \<Rightarrow> revision_reference_errors keys seen es
      | Some r \<Rightarrow>
          complain (r \<in> set seen) ''Manifest contains a duplicate revision entry.'' @
          revision_reference_errors keys (r # seen) es)"

definition validateManifestReferences :: "ustring list \<Rightarrow> json option \<Rightarrow> json option \<Rightarrow> ustring list" where
  "validateManifestReferences keys memories revisions =
     (let ms = array_entries memories; rs = array_entries revisions
      in complain (length ms \<noteq> length rs) ''Manifest must contain exactly one current revision per memory.'' @
         memory_reference_errors keys rs [] ms @ revision_reference_errors keys [] rs)"

section \<open>Required indexes\<close>

definition dual_keys :: "ustring \<Rightarrow> string \<Rightarrow> ustring \<Rightarrow> thrown + ustring list" where
  "dual_keys prefix dim name =
     bind_res (pathSegment name) (\<lambda>seg.
       Inr [prefix @ str ''indexes/by-'' @ str dim @ str ''/'' @ seg @ str ''/index.json'',
            prefix @ str ''indexes/by-'' @ str dim @ str ''/'' @ seg @ str ''/index.md''])"

definition status_key :: "ustring \<Rightarrow> memory_status \<Rightarrow> thrown + ustring" where
  "status_key prefix st =
     bind_res (pathSegment (status_name st)) (\<lambda>seg. Inr (prefix @ str ''indexes/by-status/'' @ seg @ str ''/index.json''))"

definition taxonomy_keys :: "ustring \<Rightarrow> thrown + ustring list" where
  "taxonomy_keys prefix =
     bind_res (map_res (\<lambda>k. dual_keys prefix ''kind'' (kind_name k)) memory_kinds) (\<lambda>ks.
     bind_res (map_res (\<lambda>c. dual_keys prefix ''class'' (class_name c)) memory_classes) (\<lambda>cs.
     bind_res (map_res (status_key prefix) memory_statuses) (\<lambda>ss. Inr (concat ks @ concat cs @ ss))))"

fun somes :: "'a option list \<Rightarrow> 'a list" where
  "somes [] = []"
| "somes (None # xs) = somes xs"
| "somes (Some x # xs) = x # somes xs"

definition manifest_scopes :: "json option \<Rightarrow> ustring list" where
  "manifest_scopes memories = js_sort (js_unique (somes (map (\<lambda>m. text_field m ''scope_id'') (array_entries memories))))"

definition scope_key_errors :: "snapshot_plan \<Rightarrow> ustring list \<Rightarrow> ustring list" where
  "scope_key_errors p sids =
     concat (map (\<lambda>s. case projectionScopeIndexKey (sp_project p) (sp_snapshot p) s of
       Inl e \<Rightarrow> [thrown_message e] | Inr k \<Rightarrow> []) sids)"

definition scope_keys :: "snapshot_plan \<Rightarrow> ustring list \<Rightarrow> ustring list" where
  "scope_keys p sids =
     concat (map (\<lambda>s. case projectionScopeIndexKey (sp_project p) (sp_snapshot p) s of Inl e \<Rightarrow> [] | Inr k \<Rightarrow> [k]) sids)"

definition validateRequiredIndexes :: "snapshot_plan \<Rightarrow> json option \<Rightarrow> thrown + ustring list" where
  "validateRequiredIndexes p memories =
     bind_res (taxonomy_keys (sp_prefix p)) (\<lambda>tax.
       let keys = map pw_key (sp_writes p); sids = manifest_scopes memories
       in Inr (scope_key_errors p sids @
            map (\<lambda>k. str ''Required projection index is missing: '' @ k)
              (filter (\<lambda>k. k \<notin> set keys) (tax @ scope_keys p sids))))"

section \<open>The manifest\<close>

definition expected_files :: "snapshot_plan \<Rightarrow> json" where
  "expected_files p = JArr (map toManifestFile (filter (\<lambda>w. pw_key w \<noteq> sp_manifest_key p) (sp_writes p)))"

definition manifest_errors :: "snapshot_plan \<Rightarrow> json \<Rightarrow> thrown + ustring list" where
  "manifest_errors p m =
     (let memories = field m ''memories''; revisions = field m ''revisions'' in
      bind_res (validateRequiredIndexes p memories) (\<lambda>indexErrors.
        Inr (complain (field m ''schema_version'' \<noteq> Some (JNum 1) \<or> field m ''project_id'' \<noteq> Some (JStr (sp_project p)) \<or>
               field m ''project_version'' \<noteq> Some (JNum (sp_version p)) \<or>
               field m ''snapshot_id'' \<noteq> Some (JStr (sp_snapshot p)))
             ''Manifest identity does not match the projection plan.'' @
           complain (\<not> is_array memories \<or> \<not> is_array revisions) ''Manifest memory and revision lists are invalid.'' @
           complain (map_option stringify (field m ''files'') \<noteq> Some (stringify (expected_files p)))
             ''Manifest file inventory does not match the write plan.'' @
           complain (\<not> list_ex (\<lambda>w. pw_key w = sp_prefix p @ str ''README.md'') (sp_writes p)) ''Projection README is missing.'' @
           validateManifestReferences (map pw_key (sp_writes p)) memories revisions @ indexErrors)))"

definition validateManifest :: "snapshot_plan \<Rightarrow> projection_write \<Rightarrow> thrown + ustring list" where
  "validateManifest p w =
     (case json_parse (pw_body w) of
        None \<Rightarrow> Inr [str ''Manifest body is not valid JSON.'']
      | Some JNull \<Rightarrow> Inl (Other (str ''Cannot read properties of null''))
      | Some m \<Rightarrow> manifest_errors p m)"

section \<open>Memory objects\<close>

definition envelope_end :: "ustring \<Rightarrow> nat option" where
  "envelope_end body = map_option ((+) 4) (find_text ([10] @ str ''---'' @ [10, 10]) (drop 4 body))"

definition memory_object :: "projection_write \<Rightarrow> bool" where
  "memory_object w \<longleftrightarrow> contains_text (str ''/objects/'') (pw_key w) \<or> contains_text (str ''/revisions/'') (pw_key w)"

definition envelope_errors :: "(ustring \<Rightarrow> ustring) \<Rightarrow> projection_write \<Rightarrow> ustring list" where
  "envelope_errors sha w =
     (let body = pw_body w in
      case envelope_end body of
        Some n \<Rightarrow>
          if \<not> starts_with (str ''---'' @ [10]) body \<or> \<not> ends_with_newline body
          then [str ''Invalid Markdown envelope: '' @ pw_key w]
          else
            let checksum = frontmatter_checksum (take (n - 4) (drop 4 body));
                content = take (length body - 1 - (n + 6)) (drop (n + 6) body)
            in if checksum \<noteq> Some (sha content) then [str ''Content checksum mismatch: '' @ pw_key w] else []
      | None \<Rightarrow> [str ''Invalid Markdown envelope: '' @ pw_key w])"

definition validateMemoryObjectChecksums :: "(ustring \<Rightarrow> ustring) \<Rightarrow> projection_write list \<Rightarrow> ustring list" where
  "validateMemoryObjectChecksums sha ws = concat (map (envelope_errors sha) (filter memory_object ws))"

section \<open>The plan\<close>

text \<open>Strict order of the keys; \<open>utf16\<close> is the order of \<open><\<close> on strings.\<close>

fun isStrictlySorted :: "ustring list \<Rightarrow> bool" where
  "isStrictlySorted (x # y # zs) \<longleftrightarrow> utf16 x < utf16 y \<and> isStrictlySorted (y # zs)"
| "isStrictlySorted zs \<longleftrightarrow> True"

definition write_errors :: "(ustring \<Rightarrow> ustring) \<Rightarrow> ustring \<Rightarrow> projection_write \<Rightarrow> ustring list" where
  "write_errors sha prefix w =
     (if starts_with prefix (pw_key w) then [] else [str ''Write is outside the snapshot prefix: '' @ pw_key w]) @
     (if sha (pw_body w) = pw_sha w then [] else [str ''Checksum mismatch: '' @ pw_key w])"

definition finishValidation :: "ustring list \<Rightarrow> bool \<times> ustring list" where
  "finishValidation errors = (errors = [], js_unique errors)"

definition plan_errors :: "(ustring \<Rightarrow> ustring) \<Rightarrow> ustring \<Rightarrow> snapshot_plan \<Rightarrow> ustring list" where
  "plan_errors sha prefix p =
     (let keys = map pw_key (sp_writes p) in
      complain (sp_prefix p \<noteq> prefix) ''Projection prefix does not match the plan identifiers.'' @
      complain (\<not> isStrictlySorted keys) ''Projection writes are not sorted by key.'' @
      complain (length (js_unique keys) \<noteq> length keys) ''Projection write keys are not unique.'' @
      concat (map (write_errors sha prefix) (sp_writes p)) @
      complain (sp_manifest_key p \<noteq> prefix @ str ''manifest.json'') ''Manifest key does not match the snapshot prefix.'')"

definition validateProjectionSnapshotPlan :: "(ustring \<Rightarrow> ustring) \<Rightarrow> snapshot_plan \<Rightarrow> thrown + bool \<times> ustring list" where
  "validateProjectionSnapshotPlan sha p =
     (case projectionPrefix (sp_project p) (sp_snapshot p) of
        Inl e \<Rightarrow> Inr (False, [thrown_message e])
      | Inr prefix \<Rightarrow>
          (case find (\<lambda>w. pw_key w = prefix @ str ''manifest.json'') (sp_writes p) of
             None \<Rightarrow> Inr (finishValidation (plan_errors sha prefix p @ [str ''Manifest write is missing.'']))
           | Some w \<Rightarrow>
               bind_res (validateManifest p w) (\<lambda>es.
                 Inr (finishValidation (plan_errors sha prefix p @
                   complain (sp_manifest_sha p \<noteq> pw_sha w) ''Manifest checksum does not match the manifest write.'' @
                   es @ validateMemoryObjectChecksums sha (sp_writes p))))))"

end
