(* ===== verification/Projection_Publish.thy ===== *)
theory Projection_Publish
  imports Projection_Validation Formal_Frames D1_Net
begin

text \<open>
  Publication of a project's projection (\<open>src/projection/cloudflare.ts\<close>): three queries between two
  reads of the project version, the rows turned into memories, the plan built and validated, its writes
  put into R2 where the key is absent, and the batch that activates the snapshot if the version still
  stands. The authority database, the table \<open>projection_snapshots\<close> of migration 0001, the column
  \<open>projects.active_snapshot_id\<close> and the bucket are one state; \<open>sha\<close> is SHA-256 and \<open>lower\<close> is
  \<open>toLowerCase\<close>. The queries of one \<open>Promise.all\<close> reach the database in any order, the parameter \<open>order\<close>.
\<close>

section \<open>State\<close>

datatype snapshot_status = SnapshotBuilding | SnapshotReady | SnapshotActive | SnapshotSuperseded | SnapshotFailed

record snapshot_row =
  ss_id :: ustring
  ss_project :: ustring
  ss_version :: int
  ss_status :: snapshot_status
  ss_manifest_key :: "ustring option"
  ss_manifest_sha :: "ustring option"
  ss_created :: int
  ss_activated :: "int option"

record stored_object =
  so_body :: ustring
  so_type :: content_type
  so_meta :: "(ustring \<times> ustring) list"

record pub_db =
  pb_sys :: sys
  pb_rows :: "snapshot_row list"
  pb_active :: "ustring \<Rightarrow> ustring option"
  pb_objects :: "ustring \<Rightarrow> stored_object option"

abbreviation authority :: "pub_db \<Rightarrow> db" where
  "authority s \<equiv> sys_db (pb_sys s)"

section \<open>The queries\<close>

record snapshot_head =
  ph_memory :: ustring
  ph_revision :: "ustring option"
  ph_version :: int
  ph_kind :: memory_kind
  ph_class :: memory_class
  ph_scope :: memory_scope
  ph_scope_id :: ustring
  ph_status :: memory_status

record current_row =
  cv_memory :: ustring
  cv_revision :: ustring
  cv_version :: int
  cv_content :: ustring
  cv_sha :: ustring
  cv_from :: "ustring option"
  cv_until :: "ustring option"
  cv_kind :: memory_kind
  cv_class :: memory_class
  cv_scope :: memory_scope
  cv_scope_id :: ustring
  cv_status :: memory_status

record project_rows =
  rw_heads :: "snapshot_head list"
  rw_revisions :: "current_row list"
  rw_evidence :: "(ustring \<times> ustring) list"

definition live_memory :: "memory \<Rightarrow> bool" where
  "live_memory m \<longleftrightarrow> m_status m = Active \<or> m_status m = Contested"

definition snapshot_head_of :: "memory \<Rightarrow> snapshot_head" where
  "snapshot_head_of m = \<lparr>ph_memory = m_id m, ph_revision = m_revision m, ph_version = m_version m, ph_kind = m_kind m,
     ph_class = m_class m, ph_scope = m_scope m, ph_scope_id = m_scope_id m, ph_status = m_status m\<rparr>"

definition heads_query :: "ustring \<Rightarrow> db \<Rightarrow> snapshot_head list" where
  "heads_query pid d = sort_key ph_memory (map snapshot_head_of
     (filter (\<lambda>m. m_project m = pid \<and> m_revision m \<noteq> None \<and> live_memory m) (t_memories d)))"

text \<open>The current revisions of live memories, each with its memory: the join of the last two queries.\<close>

definition current_pairs :: "ustring \<Rightarrow> db \<Rightarrow> (revision \<times> memory) list" where
  "current_pairs pid d = concat (map
     (\<lambda>v. map (Pair v) (filter (\<lambda>m. current_of m v \<and> live_memory m) (t_memories d)))
     (filter (\<lambda>v. v_project v = pid) (t_revisions d)))"

definition current_row_of :: "revision \<times> memory \<Rightarrow> current_row" where
  "current_row_of = (\<lambda>(v, m). \<lparr>cv_memory = v_memory v, cv_revision = v_id v, cv_version = v_version v,
     cv_content = v_content v, cv_sha = v_sha256 v, cv_from = v_from v, cv_until = v_until v, cv_kind = m_kind m,
     cv_class = m_class m, cv_scope = m_scope m, cv_scope_id = m_scope_id m, cv_status = m_status m\<rparr>)"

definition revisions_query :: "ustring \<Rightarrow> db \<Rightarrow> current_row list" where
  "revisions_query pid d = sort_key (\<lambda>r. (cv_memory r, cv_version r, cv_revision r))
     (map current_row_of (current_pairs pid d))"

definition evidence_query :: "ustring \<Rightarrow> db \<Rightarrow> (ustring \<times> ustring) list" where
  "evidence_query pid d = sort_key (\<lambda>r. r) (concat (map
     (\<lambda>l. map (\<lambda>p. (l_revision l, l_evidence l)) (filter (\<lambda>(v, m). v_id v = l_revision l) (current_pairs pid d)))
     (filter (\<lambda>l. l_project l = pid) (t_links d))))"

datatype row_query = HeadsQuery | RevisionsQuery | EvidenceQuery

fun fetch_query :: "row_query \<Rightarrow> ustring \<Rightarrow> db \<Rightarrow> project_rows \<Rightarrow> project_rows" where
  "fetch_query HeadsQuery pid d rows = rows\<lparr>rw_heads := heads_query pid d\<rparr>"
| "fetch_query RevisionsQuery pid d rows = rows\<lparr>rw_revisions := revisions_query pid d\<rparr>"
| "fetch_query EvidenceQuery pid d rows = rows\<lparr>rw_evidence := evidence_query pid d\<rparr>"

fun fetch_rows :: "pub_db net \<Rightarrow> nat \<Rightarrow> ustring \<Rightarrow> row_query list \<Rightarrow> project_rows \<Rightarrow> pub_db \<Rightarrow>
    pub_db \<times> (thrown + project_rows)" where
  "fetch_rows N n pid [] rows s = (s, Inr rows)"
| "fetch_rows N n pid (q # qs) rows s =
     then_do (d1_read N n (\<lambda>s. fetch_query q pid (authority s) rows) s) (\<lambda>s rows.
       fetch_rows N (Suc n) pid qs rows s)"

definition readProjectVersion :: "pub_db net \<Rightarrow> nat \<Rightarrow> ustring \<Rightarrow> pub_db \<Rightarrow> pub_db \<times> (thrown + int option)" where
  "readProjectVersion N n pid s = d1_read N n (\<lambda>s. version_of pid (authority s)) s"

section \<open>Rows to memories\<close>

definition known_revision :: "project_rows \<Rightarrow> ustring \<times> ustring \<Rightarrow> thrown + unit" where
  "known_revision rows e = require (fst e \<in> set (map cv_revision (rw_revisions rows)))
     (Other (str ''Evidence references an unknown revision: '' @ fst e))"

definition rowToProjectionMemory :: "ustring \<Rightarrow> int \<Rightarrow> ustring \<Rightarrow> current_row \<Rightarrow> ustring list \<Rightarrow> projection_memory" where
  "rowToProjectionMemory pid ver snapshot r es = \<lparr>pm_project = pid, pm_project_version = ver, pm_snapshot = snapshot,
     pm_memory = cv_memory r, pm_revision = cv_revision r, pm_version = cv_version r, pm_kind = cv_kind r,
     pm_class = cv_class r, pm_scope = cv_scope r, pm_scope_id = cv_scope_id r, pm_status = cv_status r,
     pm_from = cv_from r, pm_until = cv_until r, pm_evidence = es, pm_content = cv_content r\<rparr>"

definition revision_evidence :: "project_rows \<Rightarrow> ustring \<Rightarrow> ustring list" where
  "revision_evidence rows rid = map snd (filter (\<lambda>e. fst e = rid) (rw_evidence rows))"

definition revision_memory ::
  "(ustring \<Rightarrow> ustring) \<Rightarrow> (ustring \<Rightarrow> ustring) \<Rightarrow> ustring \<Rightarrow> int \<Rightarrow> ustring \<Rightarrow> project_rows \<Rightarrow> current_row \<Rightarrow> thrown + projection_memory" where
  "revision_memory sha lower pid ver snapshot rows r =
     (if sha (cv_content r) \<noteq> lower (cv_sha r) then Inl (Other (str ''D1 content checksum mismatch: '' @ cv_revision r))
      else Inr (rowToProjectionMemory pid ver snapshot r (revision_evidence rows (cv_revision r))))"

definition head_memory :: "projection_memory list \<Rightarrow> snapshot_head \<Rightarrow> thrown + projection_memory" where
  "head_memory revisions h =
     (case ph_revision h of
        None \<Rightarrow> Inl (Other (str ''Formal memory has no current revision: '' @ ph_memory h))
      | Some rid \<Rightarrow>
          (case map_of (rev (map (\<lambda>r. (pm_revision r, r)) revisions)) rid of
             None \<Rightarrow> Inl (Other (str ''Current revision is missing from project history: '' @ rid))
           | Some r \<Rightarrow>
               if pm_memory r \<noteq> ph_memory h then Inl (Other (str ''Current revision is missing from project history: '' @ rid))
               else Inr (r\<lparr>pm_version := ph_version h, pm_kind := ph_kind h, pm_class := ph_class h, pm_scope := ph_scope h,
                 pm_scope_id := ph_scope_id h, pm_status := ph_status h\<rparr>)))"

definition mapProjectionRows ::
  "(ustring \<Rightarrow> ustring) \<Rightarrow> (ustring \<Rightarrow> ustring) \<Rightarrow> ustring \<Rightarrow> int \<Rightarrow> ustring \<Rightarrow> project_rows \<Rightarrow>
    thrown + projection_memory list \<times> projection_memory list" where
  "mapProjectionRows sha lower pid ver snapshot rows =
     bind_res (check_all (known_revision rows) (rw_evidence rows)) (\<lambda>_.
     bind_res (map_res (revision_memory sha lower pid ver snapshot rows) (rw_revisions rows)) (\<lambda>revisions.
     bind_res (map_res (head_memory revisions) (rw_heads rows)) (\<lambda>heads. Inr (heads, revisions))))"

section \<open>The validated plan\<close>

definition projected_plan ::
  "(ustring \<Rightarrow> ustring) \<Rightarrow> (ustring \<Rightarrow> ustring) \<Rightarrow> ustring \<Rightarrow> int \<Rightarrow> project_rows \<Rightarrow> thrown + snapshot_plan" where
  "projected_plan sha lower pid ver rows =
     bind_res (mapProjectionRows sha lower pid ver (dec_int ver) rows) (\<lambda>(heads, revisions).
     bind_res (buildProjectionSnapshotPlan sha \<lparr>si_project = pid, si_version = ver, si_snapshot = dec_int ver,
       si_heads = heads, si_revisions = revisions\<rparr>) (\<lambda>plan.
     bind_res (validateProjectionSnapshotPlan sha plan) (\<lambda>(valid, errors).
       if valid then Inr plan
       else Inl (Other (str ''Projection plan validation failed: '' @ join_sep (str ''; '') errors)))))"

section \<open>The bucket\<close>

text \<open>\<open>put\<close> with \<open>onlyIf: etagDoesNotMatch "*"\<close> stores where nothing is, and says whether it did.\<close>

definition put_object :: "ustring \<Rightarrow> stored_object \<Rightarrow> pub_db \<Rightarrow> thrown + pub_db \<times> bool" where
  "put_object key ob s =
     Inr (if pb_objects s key = None then (s\<lparr>pb_objects := (pb_objects s)(key := Some ob)\<rparr>, True) else (s, False))"

definition object_checksum :: "ustring \<Rightarrow> pub_db \<Rightarrow> ustring option" where
  "object_checksum key s = Option.bind (pb_objects s key) (\<lambda>ob. map_of (so_meta ob) (str ''sha256''))"

definition object_of_write :: "int \<Rightarrow> ustring \<Rightarrow> projection_write \<Rightarrow> stored_object" where
  "object_of_write ver sid w = \<lparr>so_body = pw_body w, so_type = pw_type w,
     so_meta = [(str ''sha256'', pw_sha w), (str ''projectVersion'', dec_int ver), (str ''snapshotId'', sid)]\<rparr>"

definition put_write :: "pub_db net \<Rightarrow> nat \<Rightarrow> int \<Rightarrow> ustring \<Rightarrow> projection_write \<Rightarrow> pub_db \<Rightarrow> pub_db \<times> (thrown + unit)" where
  "put_write N n ver sid w s =
     then_do (d1_run N n (put_object (pw_key w) (object_of_write ver sid w)) s) (\<lambda>s stored.
       if stored then (s, Inr ())
       else then_do (d1_read N (Suc n) (object_checksum (pw_key w)) s) (\<lambda>s existing.
         (s, require (existing = Some (pw_sha w)) (Other (str ''Immutable R2 projection collision: '' @ pw_key w)))))"

fun put_writes :: "pub_db net \<Rightarrow> nat \<Rightarrow> int \<Rightarrow> ustring \<Rightarrow> projection_write list \<Rightarrow> pub_db \<Rightarrow> pub_db \<times> (thrown + unit)" where
  "put_writes N n ver sid [] s = (s, Inr ())"
| "put_writes N n ver sid (w # ws) s =
     then_do (put_write N n ver sid w s) (\<lambda>s _. put_writes N (n + 2) ver sid ws s)"

section \<open>Activation\<close>

definition target_exists :: "ustring \<Rightarrow> pub_db \<Rightarrow> bool" where
  "target_exists sid s \<longleftrightarrow> (\<exists>r\<in>set (pb_rows s). ss_id r = sid \<and> (ss_status r = SnapshotReady \<or> ss_status r = SnapshotActive))"

text \<open>The upsert takes the row of the project version first; another row of that identifier is an error.\<close>

definition insert_ready :: "ustring \<Rightarrow> int \<Rightarrow> ustring \<Rightarrow> ustring \<Rightarrow> ustring \<Rightarrow> int \<Rightarrow> pub_db \<Rightarrow> thrown + pub_db \<times> nat" where
  "insert_ready pid ver sid key sha now s =
     (if \<not> project_at pid ver (authority s) then Inr (s, 0)
      else let here = (\<lambda>r. ss_project r = pid \<and> ss_version r = ver);
               open = (\<lambda>r. here r \<and> ss_status r \<noteq> SnapshotActive \<and> ss_status r \<noteq> SnapshotSuperseded)
      in if \<exists>r\<in>set (pb_rows s). here r
         then Inr (s\<lparr>pb_rows := update_where open
            (\<lambda>r. r\<lparr>ss_status := SnapshotReady, ss_manifest_key := Some key, ss_manifest_sha := Some sha\<rparr>) (pb_rows s)\<rparr>,
            count_where open (pb_rows s))
         else if \<exists>r\<in>set (pb_rows s). ss_id r = sid
         then Inl (Other (str ''UNIQUE constraint failed: projection_snapshots.snapshot_id''))
         else Inr (s\<lparr>pb_rows := pb_rows s @ [\<lparr>ss_id = sid, ss_project = pid, ss_version = ver, ss_status = SnapshotReady,
            ss_manifest_key = Some key, ss_manifest_sha = Some sha, ss_created = now, ss_activated = None\<rparr>]\<rparr>, 1))"

definition supersede_others :: "ustring \<Rightarrow> int \<Rightarrow> ustring \<Rightarrow> pub_db \<Rightarrow> thrown + pub_db \<times> nat" where
  "supersede_others pid ver sid s =
     (let old = (\<lambda>r. ss_project r = pid \<and> ss_status r = SnapshotActive \<and> ss_id r \<noteq> sid \<and>
            project_at pid ver (authority s) \<and> target_exists sid s)
      in Inr (s\<lparr>pb_rows := update_where old (\<lambda>r. r\<lparr>ss_status := SnapshotSuperseded\<rparr>) (pb_rows s)\<rparr>,
           count_where old (pb_rows s)))"

text \<open>\<open>synthetic_cleanup_projects_update_fence\<close> stops the update of a fenced project.\<close>

definition point_project :: "ustring \<Rightarrow> int \<Rightarrow> ustring \<Rightarrow> int \<Rightarrow> pub_db \<Rightarrow> thrown + pub_db \<times> nat" where
  "point_project pid ver sid now s =
     (let d = authority s; here = (\<lambda>p. p_id p = pid \<and> p_version p = ver \<and> target_exists sid s)
      in if \<exists>p\<in>set (t_projects d). here p \<and> fenced (p_id p) d then Inl (Other (str ''synthetic cleanup is fenced''))
         else Inr (s\<lparr>pb_sys := (pb_sys s)\<lparr>sys_db := d\<lparr>t_projects :=
                update_where here (\<lambda>p. p\<lparr>p_updated_at := now\<rparr>) (t_projects d)\<rparr>\<rparr>,
              pb_active := (if \<exists>p\<in>set (t_projects d). here p then (pb_active s)(pid := Some sid) else pb_active s)\<rparr>,
            count_where here (t_projects d)))"

definition set_active :: "ustring \<Rightarrow> int \<Rightarrow> ustring \<Rightarrow> int \<Rightarrow> pub_db \<Rightarrow> thrown + pub_db \<times> nat" where
  "set_active pid ver sid now s =
     (let target = (\<lambda>r. ss_id r = sid \<and> project_at pid ver (authority s) \<and> pb_active s pid = Some sid)
      in Inr (s\<lparr>pb_rows := update_where target (\<lambda>r. r\<lparr>ss_status := SnapshotActive, ss_activated := Some now\<rparr>) (pb_rows s)\<rparr>,
           count_where target (pb_rows s)))"

definition activation_batch :: "ustring \<Rightarrow> int \<Rightarrow> ustring \<Rightarrow> ustring \<Rightarrow> ustring \<Rightarrow> int \<Rightarrow> pub_db \<Rightarrow> thrown + pub_db \<times> nat list" where
  "activation_batch pid ver sid key sha now s =
     bind_res (insert_ready pid ver sid key sha now s) (\<lambda>(s, a).
     bind_res (supersede_others pid ver sid s) (\<lambda>(s, b).
     bind_res (point_project pid ver sid now s) (\<lambda>(s, c).
     bind_res (set_active pid ver sid now s) (\<lambda>(s, d). Inr (s, [a, b, c, d])))))"

definition activateSnapshot ::
  "pub_db net \<Rightarrow> nat \<Rightarrow> ustring \<Rightarrow> int \<Rightarrow> ustring \<Rightarrow> ustring \<Rightarrow> ustring \<Rightarrow> int \<Rightarrow> pub_db \<Rightarrow> pub_db \<times> (thrown + bool)" where
  "activateSnapshot N n pid ver sid key sha now s =
     then_do (d1_run N n (activation_batch pid ver sid key sha now) s) (\<lambda>s ns.
       (s, Inr (ns ! 2 = 1 \<and> ns ! 3 = 1)))"

section \<open>The publication\<close>

datatype publish_phase = BeforeRead | AfterRead | AtActivation

datatype publish_result =
    PublishActivated ustring ustring ustring nat
  | PublishStale publish_phase ustring int "int option" nat

definition requirePublishInput :: "ustring \<Rightarrow> int \<Rightarrow> thrown + unit" where
  "requirePublishInput pid ver =
     bind_res (require (pid \<noteq> [] \<and> 0 \<notin> set pid) (Other (str ''Project ID must be a nonempty string without null bytes.''))) (\<lambda>_.
     require (is_safe_integer ver \<and> 0 \<le> ver) (Other (str ''Project version must be a nonnegative safe integer.'')))"

definition snapshot_name :: "ustring \<Rightarrow> int \<Rightarrow> ustring" where
  "snapshot_name pid ver = pid @ 58 # dec_int ver"

definition no_rows :: project_rows where
  "no_rows = \<lparr>rw_heads = [], rw_revisions = [], rw_evidence = []\<rparr>"

definition publish_plan ::
  "pub_db net \<Rightarrow> nat \<Rightarrow> ustring \<Rightarrow> int \<Rightarrow> int \<Rightarrow> snapshot_plan \<Rightarrow> pub_db \<Rightarrow> pub_db \<times> (thrown + publish_result)" where
  "publish_plan N n pid ver now plan s =
     then_do (put_writes N n ver (snapshot_name pid ver) (sp_writes plan) s) (\<lambda>s _.
     then_do (activateSnapshot N (n + 2 * length (sp_writes plan)) pid ver (snapshot_name pid ver)
         (sp_manifest_key plan) (sp_manifest_sha plan) now s) (\<lambda>s activated.
       (s, Inr (if activated
          then PublishActivated (snapshot_name pid ver) (sp_manifest_key plan) (sp_manifest_sha plan) (length (sp_writes plan))
          else PublishStale AtActivation (snapshot_name pid ver) ver None (length (sp_writes plan))))))"

definition publishProjectProjection ::
  "(ustring \<Rightarrow> ustring) \<Rightarrow> (ustring \<Rightarrow> ustring) \<Rightarrow> pub_db net \<Rightarrow> row_query list \<Rightarrow> ustring \<Rightarrow> int \<Rightarrow> int \<Rightarrow> pub_db \<Rightarrow>
    pub_db \<times> (thrown + publish_result)" where
  "publishProjectProjection sha lower N order pid ver now s =
     then_do (s, requirePublishInput pid ver) (\<lambda>s _.
     then_do (readProjectVersion N 0 pid s) (\<lambda>s before.
     if before \<noteq> Some ver then (s, Inr (PublishStale BeforeRead (snapshot_name pid ver) ver before 0))
     else then_do (fetch_rows N 1 pid order no_rows s) (\<lambda>s rows.
     then_do (readProjectVersion N (1 + length order) pid s) (\<lambda>s after.
     if after \<noteq> Some ver then (s, Inr (PublishStale AfterRead (snapshot_name pid ver) ver after 0))
     else then_do (s, projected_plan sha lower pid ver rows) (\<lambda>s plan.
       publish_plan N (2 + length order) pid ver now plan s)))))"

end
