(* ===== verification/Projection_Rows.thy ===== *)
theory Projection_Rows
  imports Projection_Publish
begin

text \<open>
  The rows a project's snapshot is built from change only with the version of the project: the memories
  and revisions by \<open>Formal_Frames\<close>, the evidence links because every plan links its own project's evidence.
\<close>

section \<open>Evidence links\<close>

definition links_of :: "ustring \<Rightarrow> db \<Rightarrow> evidence_link list" where
  "links_of pid d = filter (\<lambda>l. l_project l = pid) (t_links d)"

definition keeps_links :: "ustring \<Rightarrow> stmt \<Rightarrow> bool" where
  "keeps_links pid st \<longleftrightarrow> (\<forall>d d' n. st d = Inr (d', n) \<longrightarrow> links_of pid d' = links_of pid d)"

named_theorems links "statements that keep the evidence links of a project"

lemma keeps_links_guarded [links]: "keeps_links pid st \<Longrightarrow> keeps_links pid (guarded c st)"
  by (auto simp: keeps_links_def guarded_def split: if_splits)

lemma keeps_links_tables [links]:
  "keeps_links pid (insert_audit a)" "keeps_links pid (insert_revision v)" "keeps_links pid (insert_memory m)"
  "keeps_links pid (insert_context x)" "keeps_links pid (insert_idem i)" "keeps_links pid (insert_outbox ob)"
  "keeps_links pid (insert_decision e)" "keeps_links pid (update_heads q f)" "keeps_links pid (update_requests q' f')"
  "keeps_links pid (update_candidates q'' f'')" "keeps_links pid (advance_project p ver h now)"
  "keeps_links pid (upsert_evidence ev)" "keeps_links pid (insert_evidence_or_ignore ev)"
  by (auto simp: keeps_links_def links_of_def table_ops advance_project_def split: if_splits option.splits)

lemma insert_links_of:
  "insert_links p rid es d = Inr (d', n) \<Longrightarrow> pid \<noteq> p \<Longrightarrow> links_of pid d' = links_of pid d"
  by (induction es arbitrary: d d' n) (fastforce simp: links_of_def split: if_splits sum.splits)+

lemma keeps_links_insert [links]: "pid \<noteq> p \<Longrightarrow> keeps_links pid (\<lambda>d. insert_links p rid (es d) d)"
  by (auto simp: keeps_links_def dest: insert_links_of)

lemma keeps_links_link [links]:
  assumes "pid \<noteq> p" shows "keeps_links pid (link_statement p ver rid ev)"
proof -
  have "link_statement p ver rid ev = guarded (project_at p ver) (\<lambda>d. insert_links p rid (filter (link_selects p ev) (t_evidence d)) d)"
    by (auto simp: link_statement_def guarded_def)
  with assms show ?thesis by (simp add: links)
qed

lemma keeps_links_promotion [links]:
  assumes "pid \<noteq> pi_project i" shows "keeps_links pid (promotion_link i ev)"
proof -
  have "promotion_link i ev = guarded (promotion_guard i) (\<lambda>d. insert_links (pi_project i) (pi_revision i)
      (filter (same_tuple (promotion_evidence_row i ev)) (t_evidence d)) d)"
    by (auto simp: promotion_link_def guarded_def)
  with assms show ?thesis by (simp add: links)
qed

lemma keeps_links_batch:
  "\<forall>st\<in>set ss. keeps_links pid st \<Longrightarrow> run_batch ss d = Inr (d', ns) \<Longrightarrow> links_of pid d' = links_of pid d"
  by (rule run_batch_frame [where f = "links_of pid"]) (auto simp: keeps_links_def)

lemma op_keeps_links:
  assumes "pid \<noteq> op_project op"
  shows "\<forall>st\<in>set (op_batch op). keeps_links pid st"
proof (cases op)
  case (OpMutate j)
  then show ?thesis
    using assms by (auto simp: mutation_batch_order mutation_statements_def evidence_statement_def intro!: links)
next
  case (OpReview i)
  then show ?thesis by (auto simp: review_statements_def intro!: links)
next
  case (OpPromote i)
  then show ?thesis
    using assms by (auto simp: promotion_statements_def promotion_prefix_def promotion_suffix_def
        promotion_evidence_statements_def split: option.splits intro!: links)
qed

lemma outside_links: "outside d d' \<Longrightarrow> t_links d' = t_links d"
  by (cases rule: outside.cases) (auto simp: update_candidates_Inr)

lemma sys_step_links:
  assumes "sys_step s t" "sys_ok s" "version_of pid (sys_db t) = version_of pid (sys_db s)"
  shows "links_of pid (sys_db t) = links_of pid (sys_db s)"
  using assms(1)
proof cases
  case (commit op)
  let ?d = "sys_db s" and ?d' = "after_batch (op_batch op) (sys_db s)"
  have inv: "formal_inv ?d" and snd: "op_sound ?d op" using assms(2) commit by (auto simp: sys_ok_def)
  show ?thesis
  proof (cases "?d' = ?d")
    case False
    have "project_at (op_project op) (op_version op) ?d" "formal_commit (op_project op) (op_version op) (op_audit op) ?d ?d'"
      using False fop.effect_cases [of op ?d] op_sound_ready [OF inv snd] by blast+
    then have "pid \<noteq> op_project op"
      using assms(3) commit version_of_commit(1) [OF formal_inv_ids [OF inv]] version_of_project_at [OF formal_inv_ids [OF inv]]
      by fastforce
    moreover obtain ns where "run_batch (op_batch op) ?d = Inr (?d', ns)"
      using False by (auto simp: after_batch_def split: sum.splits)
    ultimately show ?thesis using commit keeps_links_batch [OF op_keeps_links] by simp
  qed (use commit in simp)
next
  case (outside d')
  with outside_links show ?thesis by (simp add: links_of_def)
qed (use assms in simp_all)

section \<open>The rows of a project\<close>

definition project_rows_of :: "ustring \<Rightarrow> db \<Rightarrow> project_rows" where
  "project_rows_of pid d = \<lparr>rw_heads = heads_query pid d, rw_revisions = revisions_query pid d, rw_evidence = evidence_query pid d\<rparr>"

lemma heads_query_of:
  "heads_query pid d = sort_key ph_memory (map snapshot_head_of (filter (\<lambda>m. m_revision m \<noteq> None \<and> live_memory m) (memories_of pid d)))"
  by (simp add: heads_query_def memories_of_def conj_ac)

lemma current_pairs_of:
  "current_pairs pid d = concat (map
     (\<lambda>v. map (Pair v) (filter (\<lambda>m. current_of m v \<and> live_memory m) (memories_of pid d))) (revisions_of pid d))"
  unfolding current_pairs_def revisions_of_def
  by (rule arg_cong [where f = concat], rule map_cong [OF refl])
    (auto simp: memories_of_def current_of_def intro!: arg_cong [where f = "map _"] filter_cong)

lemma evidence_query_of:
  "evidence_query pid d = sort_key (\<lambda>r. r) (concat (map
     (\<lambda>l. map (\<lambda>p. (l_revision l, l_evidence l)) (filter (\<lambda>(v, m). v_id v = l_revision l) (current_pairs pid d))) (links_of pid d)))"
  by (simp add: evidence_query_def links_of_def)

lemma project_rows_frame:
  "memories_of pid d' = memories_of pid d \<Longrightarrow> revisions_of pid d' = revisions_of pid d \<Longrightarrow> links_of pid d' = links_of pid d \<Longrightarrow>
     project_rows_of pid d' = project_rows_of pid d"
  by (simp add: project_rows_of_def heads_query_of revisions_query_def evidence_query_of current_pairs_of)

lemma sys_step_project_rows:
  "sys_step s t \<Longrightarrow> sys_ok s \<Longrightarrow> version_of pid (sys_db t) = version_of pid (sys_db s) \<Longrightarrow>
     project_rows_of pid (sys_db t) = project_rows_of pid (sys_db s)"
  using sys_step_rows [of s t pid] sys_step_links [of s t pid] project_rows_frame by blast

text \<open>The three queries, in any order, read the rows of one state when nobody moves the version.\<close>

lemma fetch_query_rows:
  "fetch_query q pid d rows = (case q of
     HeadsQuery \<Rightarrow> rows\<lparr>rw_heads := rw_heads (project_rows_of pid d)\<rparr>
   | RevisionsQuery \<Rightarrow> rows\<lparr>rw_revisions := rw_revisions (project_rows_of pid d)\<rparr>
   | EvidenceQuery \<Rightarrow> rows\<lparr>rw_evidence := rw_evidence (project_rows_of pid d)\<rparr>)"
  by (cases q) (simp_all add: project_rows_of_def)

end
