(* ===== verification/Projection_Authority.thy ===== *)
theory Projection_Authority
  imports Projection_Rows
begin

text \<open>
  The published snapshot of a project as an invariant. Publishers, the formal write protocol and other
  writers of the bucket interleave freely; the pointer of a project always names its one active
  snapshot, whose manifest lists files that are all stored, and which was built from exactly the current
  rows of the project whenever the project still has the version of the snapshot.
\<close>

section \<open>Names of snapshots\<close>

lemma snapshot_name_inj: "snapshot_name p v = snapshot_name q w \<longleftrightarrow> p = q \<and> v = w"
proof
  assume eq: "snapshot_name p v = snapshot_name q w"
  have "58 \<notin> set (dec_int n)" for n using dec_int_chars [of _ n] by fastforce
  then have "p = q \<and> dec_int v = dec_int w"
    using eq split_at_last [of p 58 "dec_int v" q "dec_int w"] by (simp add: snapshot_name_def)
  then show "p = q \<and> v = w" using dec_int_inj by blast
qed simp

section \<open>Touching a project row\<close>

definition touch_project :: "(project \<Rightarrow> bool) \<Rightarrow> int \<Rightarrow> sys \<Rightarrow> sys" where
  "touch_project q now x = x\<lparr>sys_db := (sys_db x)\<lparr>t_projects :=
     update_where q (\<lambda>p. p\<lparr>p_updated_at := now\<rparr>) (t_projects (sys_db x))\<rparr>\<rparr>"

lemma touch_project_none: "\<forall>p\<in>set (t_projects (sys_db x)). \<not> q p \<Longrightarrow> touch_project q now x = x"
  by (simp add: touch_project_def update_where_none)

lemma touch_version [simp]: "version_of pid (sys_db (touch_project q now x)) = version_of pid (sys_db x)"
proof -
  have "find (\<lambda>p. p_id p = pid) (update_where q (\<lambda>p. p\<lparr>p_updated_at := now\<rparr>) (t_projects (sys_db x))) =
      map_option (\<lambda>p. if q p then p\<lparr>p_updated_at := now\<rparr> else p) (find (\<lambda>p. p_id p = pid) (t_projects (sys_db x)))"
    by (rule find_update_where) simp
  then show ?thesis by (cases "find (\<lambda>p. p_id p = pid) (t_projects (sys_db x))") (simp_all add: version_of_def touch_project_def)
qed

lemma touch_rows [simp]: "project_rows_of pid (sys_db (touch_project q now x)) = project_rows_of pid (sys_db x)"
  by (rule project_rows_frame) (simp_all add: touch_project_def memories_of_def revisions_of_def links_of_def)

lemma touch_project_at [simp]: "project_at pid ver (sys_db (touch_project q now x)) = project_at pid ver (sys_db x)"
proof -
  have "project_at pid ver d \<longleftrightarrow> (pid, ver) \<in> set (map (\<lambda>p. (p_id p, p_version p)) (t_projects d))" for d
    by (auto simp: project_at_def)
  moreover have "map (\<lambda>p. (p_id p, p_version p)) (update_where q (\<lambda>p. p\<lparr>p_updated_at := now\<rparr>) ps) =
      map (\<lambda>p. (p_id p, p_version p)) ps" for ps
    by (rule map_update_where) simp
  ultimately show ?thesis by (simp only: touch_project_def) simp
qed

lemma touch_op_ready: "op_ready op (sys_db (touch_project q now x)) = op_ready op (sys_db x)"
  by (cases op) (simp_all add: review_ready_def promotion_ready_def touch_project_def candidate_open_def)

lemma touch_sys_ok: "sys_ok x \<Longrightarrow> sys_ok (touch_project q now x)"
proof -
  assume ok: "sys_ok x"
  have "map p_id (update_where q (\<lambda>p. p\<lparr>p_updated_at := now\<rparr>) ps) = map p_id ps" for ps
    by (rule map_update_where) simp
  then have "formal_inv (sys_db (touch_project q now x))"
    using ok by (auto simp: sys_ok_def formal_inv_def touch_project_def project_audits_def memory_revisions_def set_update_where)
  moreover have "sys_ops (touch_project q now x) = sys_ops x" by (simp add: touch_project_def)
  ultimately show ?thesis
    using ok touch_op_ready by (auto simp: sys_ok_def op_sound_def)
qed

section \<open>The invariant\<close>

definition stored_plan :: "(ustring \<Rightarrow> ustring) \<Rightarrow> snapshot_plan \<Rightarrow> pub_db \<Rightarrow> bool" where
  "stored_plan sha p s \<longleftrightarrow>
     (\<forall>w\<in>set (sp_writes p). pw_sha w = sha (pw_body w) \<and> object_checksum (pw_key w) s = Some (pw_sha w))"

text \<open>Every object carries the checksum of its body.\<close>

definition honest_bucket :: "(ustring \<Rightarrow> ustring) \<Rightarrow> pub_db \<Rightarrow> bool" where
  "honest_bucket sha s \<longleftrightarrow> (\<forall>k ob. pb_objects s k = Some ob \<longrightarrow> map_of (so_meta ob) (str ''sha256'') = Some (sha (so_body ob)))"

definition described :: "(ustring \<Rightarrow> ustring) \<Rightarrow> (ustring \<Rightarrow> ustring) \<Rightarrow> pub_db \<Rightarrow> snapshot_row \<Rightarrow> bool" where
  "described sha lower s r \<longleftrightarrow> (\<exists>rows p. projected_plan sha lower (ss_project r) (ss_version r) rows = Inr p \<and>
     ss_manifest_key r = Some (sp_manifest_key p) \<and> ss_manifest_sha r = Some (sp_manifest_sha p) \<and> stored_plan sha p s \<and>
     (version_of (ss_project r) (authority s) = Some (ss_version r) \<longrightarrow> rows = project_rows_of (ss_project r) (authority s)))"

definition row_ok :: "(ustring \<Rightarrow> ustring) \<Rightarrow> (ustring \<Rightarrow> ustring) \<Rightarrow> pub_db \<Rightarrow> snapshot_row \<Rightarrow> bool" where
  "row_ok sha lower s r \<longleftrightarrow> ss_id r = snapshot_name (ss_project r) (ss_version r) \<and>
     (ss_status r = SnapshotActive \<longrightarrow> described sha lower s r \<and>
        (\<exists>w. version_of (ss_project r) (authority s) = Some w \<and> ss_version r \<le> w)) \<and>
     (ss_status r = SnapshotSuperseded \<longrightarrow>
        (\<exists>w. version_of (ss_project r) (authority s) = Some w \<and> ss_version r < w))"

definition pointer_ok :: "pub_db \<Rightarrow> bool" where
  "pointer_ok s \<longleftrightarrow> (\<forall>pid sid. pb_active s pid = Some sid \<longleftrightarrow>
     (\<exists>r\<in>set (pb_rows s). ss_project r = pid \<and> ss_status r = SnapshotActive \<and> ss_id r = sid))"

definition pub_ok :: "(ustring \<Rightarrow> ustring) \<Rightarrow> (ustring \<Rightarrow> ustring) \<Rightarrow> pub_db \<Rightarrow> bool" where
  "pub_ok sha lower s \<longleftrightarrow> sys_ok (pb_sys s) \<and> honest_bucket sha s \<and> distinct (map ss_id (pb_rows s)) \<and>
     (\<forall>r\<in>set (pb_rows s). row_ok sha lower s r) \<and> pointer_ok s"

section \<open>The steps\<close>

text \<open>
  The formal protocol steps; somebody stores an object where none is; a publisher activates a plan
  whose files are stored and which, if the project is still at its version, was built from its rows.
\<close>

inductive pub_step :: "(ustring \<Rightarrow> ustring) \<Rightarrow> (ustring \<Rightarrow> ustring) \<Rightarrow> pub_db \<Rightarrow> pub_db \<Rightarrow> bool" for sha lower where
  formal: "sys_step (pb_sys s) x \<Longrightarrow> pub_step sha lower s (s\<lparr>pb_sys := x\<rparr>)"
| store: "pb_objects s k = None \<Longrightarrow> map_of (so_meta ob) (str ''sha256'') = Some (sha (so_body ob)) \<Longrightarrow>
     pub_step sha lower s (s\<lparr>pb_objects := (pb_objects s)(k := Some ob)\<rparr>)"
| activate: "projected_plan sha lower pid ver rows = Inr p \<Longrightarrow> stored_plan sha p s \<Longrightarrow>
     (project_at pid ver (authority s) \<Longrightarrow> rows = project_rows_of pid (authority s)) \<Longrightarrow>
     activation_batch pid ver (snapshot_name pid ver) (sp_manifest_key p) (sp_manifest_sha p) now s = Inr (t, ns) \<Longrightarrow>
     pub_step sha lower s t"

lemma version_at: "pub_ok sha lower s \<Longrightarrow> project_at pid ver (authority s) \<longleftrightarrow> version_of pid (authority s) = Some ver"
  by (auto simp: pub_ok_def sys_ok_def formal_inv_ids version_of_project_at)

lemma stored_plan_mono:
  "stored_plan sha p s \<Longrightarrow> (\<And>k c. object_checksum k s = Some c \<Longrightarrow> object_checksum k t = Some c) \<Longrightarrow> stored_plan sha p t"
  by (auto simp: stored_plan_def)

text \<open>A row stays in order when versions only grow, rows change with versions and objects stay.\<close>

lemma row_ok_mono:
  assumes r: "row_ok sha lower s r"
    and mono: "\<And>v. version_of (ss_project r) (authority s) = Some v \<Longrightarrow> \<exists>w. version_of (ss_project r) (authority t) = Some w \<and> v \<le> w"
    and rows: "version_of (ss_project r) (authority t) = version_of (ss_project r) (authority s) \<Longrightarrow>
      project_rows_of (ss_project r) (authority t) = project_rows_of (ss_project r) (authority s)"
    and objs: "\<And>k c. object_checksum k s = Some c \<Longrightarrow> object_checksum k t = Some c"
  shows "row_ok sha lower t r"
proof -
  have "described sha lower t r" if act: "ss_status r = SnapshotActive"
  proof -
    obtain w w' where w: "version_of (ss_project r) (authority s) = Some w" "ss_version r \<le> w"
        "version_of (ss_project r) (authority t) = Some w'" "w \<le> w'"
      using r act mono by (auto simp: row_ok_def)
    have "described sha lower s r" using r act by (simp add: row_ok_def)
    then obtain rows p where p: "projected_plan sha lower (ss_project r) (ss_version r) rows = Inr p"
        "ss_manifest_key r = Some (sp_manifest_key p)" "ss_manifest_sha r = Some (sp_manifest_sha p)" "stored_plan sha p s"
        "version_of (ss_project r) (authority s) = Some (ss_version r) \<longrightarrow> rows = project_rows_of (ss_project r) (authority s)"
      by (auto simp: described_def)
    have "version_of (ss_project r) (authority t) = Some (ss_version r) \<longrightarrow> rows = project_rows_of (ss_project r) (authority t)"
      using p(5) w assms(3) by auto
    with p stored_plan_mono [OF p(4) objs] show ?thesis unfolding described_def by blast
  qed
  moreover have "\<exists>w. version_of (ss_project r) (authority t) = Some w \<and> ss_version r \<le> w" if "ss_status r = SnapshotActive"
    using r that mono by (fastforce simp: row_ok_def)
  moreover have "\<exists>w. version_of (ss_project r) (authority t) = Some w \<and> ss_version r < w" if "ss_status r = SnapshotSuperseded"
    using r that mono by (fastforce simp: row_ok_def)
  ultimately show ?thesis using r by (simp add: row_ok_def)
qed

lemma formal_keeps_ok:
  assumes ok: "pub_ok sha lower s" and step: "sys_step (pb_sys s) x"
  shows "pub_ok sha lower (s\<lparr>pb_sys := x\<rparr>)"
proof -
  have sok: "sys_ok (pb_sys s)" using ok by (simp add: pub_ok_def)
  have "row_ok sha lower (s\<lparr>pb_sys := x\<rparr>) r" if "r \<in> set (pb_rows s)" for r
  proof (rule row_ok_mono)
    show "row_ok sha lower s r" using ok that by (simp add: pub_ok_def)
    show "object_checksum k s = Some c \<Longrightarrow> object_checksum k (s\<lparr>pb_sys := x\<rparr>) = Some c" for k c
      by (simp add: object_checksum_def)
  qed (use sys_step_history [OF step sok] sys_step_project_rows [OF step sok] in auto)
  with ok sys_ok_step [OF step sok] show ?thesis
    by (simp add: pub_ok_def honest_bucket_def pointer_ok_def)
qed

lemma store_keeps_ok:
  assumes ok: "pub_ok sha lower s" and new: "pb_objects s k = None" and sum: "map_of (so_meta ob) (str ''sha256'') = Some (sha (so_body ob))"
  shows "pub_ok sha lower (s\<lparr>pb_objects := (pb_objects s)(k := Some ob)\<rparr>)"
proof -
  let ?t = "s\<lparr>pb_objects := (pb_objects s)(k := Some ob)\<rparr>"
  have objs: "object_checksum j s = Some c \<Longrightarrow> object_checksum j ?t = Some c" for j c
    using new by (auto simp: object_checksum_def simp del: str_eval)
  have "row_ok sha lower ?t r" if "r \<in> set (pb_rows s)" for r
    by (rule row_ok_mono [OF _ _ _ objs]) (use ok that in \<open>auto simp: pub_ok_def\<close>)
  with ok sum show ?thesis by (simp add: pub_ok_def honest_bucket_def pointer_ok_def del: str_eval)
qed

section \<open>Activation\<close>

lemma activation_idle:
  assumes "\<not> project_at pid ver (authority s)"
  shows "activation_batch pid ver sid key sha now s = Inr (s, [0, 0, 0, 0])"
proof -
  have "insert_ready pid ver sid key sha now s = Inr (s, 0)" using assms by (simp add: insert_ready_def)
  moreover have "supersede_others pid ver sid s = Inr (s, 0)"
    using assms by (simp add: supersede_others_def Let_def update_where_none count_where_0)
  moreover have "point_project pid ver sid now s = Inr (s, 0)"
  proof -
    have none: "\<forall>p\<in>set (t_projects (authority s)). \<not> (p_id p = pid \<and> p_version p = ver \<and> target_exists sid s)"
      using assms by (auto simp: project_at_def)
    then have "update_where (\<lambda>p. p_id p = pid \<and> p_version p = ver \<and> target_exists sid s) f (t_projects (authority s)) = t_projects (authority s)" for f
      by (simp add: update_where_none)
    with none show ?thesis by (auto simp: point_project_def Let_def count_where_0)
  qed
  moreover have "set_active pid ver sid now s = Inr (s, 0)"
    using assms by (simp add: set_active_def Let_def update_where_none count_where_0)
  ultimately show ?thesis by (simp add: activation_batch_def)
qed

definition fresh_row :: "ustring \<Rightarrow> int \<Rightarrow> ustring \<Rightarrow> ustring \<Rightarrow> pub_db \<Rightarrow> snapshot_row \<Rightarrow> bool" where
  "fresh_row pid ver key msha s r \<longleftrightarrow> ss_id r = snapshot_name pid ver \<and> ss_project r = pid \<and> ss_version r = ver \<and>
     (ss_status r = SnapshotReady \<and> ss_manifest_key r = Some key \<and> ss_manifest_sha r = Some msha \<or>
      ss_status r = SnapshotActive \<and> r \<in> set (pb_rows s))"

lemma insert_ready_effect:
  assumes dist: "distinct (map ss_id (pb_rows s))"
    and names: "\<forall>r\<in>set (pb_rows s). ss_id r = snapshot_name (ss_project r) (ss_version r)"
    and cur: "project_at pid ver (authority s)"
    and live: "\<forall>r\<in>set (pb_rows s). ss_project r = pid \<and> ss_version r = ver \<longrightarrow> ss_status r \<noteq> SnapshotSuperseded"
  obtains rs a where "insert_ready pid ver (snapshot_name pid ver) key msha now s = Inr (s\<lparr>pb_rows := rs\<rparr>, a)"
    "distinct (map ss_id rs)" "\<forall>r\<in>set rs. ss_id r \<noteq> snapshot_name pid ver \<longrightarrow> r \<in> set (pb_rows s)"
    "\<forall>r\<in>set (pb_rows s). ss_id r \<noteq> snapshot_name pid ver \<longrightarrow> r \<in> set rs" "\<exists>r\<in>set rs. fresh_row pid ver key msha s r"
proof -
  let ?sid = "snapshot_name pid ver"
  let ?open = "\<lambda>r. (ss_project r = pid \<and> ss_version r = ver) \<and> ss_status r \<noteq> SnapshotActive \<and> ss_status r \<noteq> SnapshotSuperseded"
  let ?f = "\<lambda>r. r\<lparr>ss_status := SnapshotReady, ss_manifest_key := Some key, ss_manifest_sha := Some msha\<rparr>"
  have here: "ss_id r = ?sid \<longleftrightarrow> ss_project r = pid \<and> ss_version r = ver" if "r \<in> set (pb_rows s)" for r
    using names that by (simp add: snapshot_name_inj)
  show thesis
  proof (cases "\<exists>r\<in>set (pb_rows s). ss_project r = pid \<and> ss_version r = ver")
    case True
    then obtain r where r: "r \<in> set (pb_rows s)" "ss_project r = pid" "ss_version r = ver" by blast
    let ?rs = "update_where ?open ?f (pb_rows s)"
    show thesis
    proof (rule that [of ?rs "count_where ?open (pb_rows s)"])
      show "insert_ready pid ver ?sid key msha now s = Inr (s\<lparr>pb_rows := ?rs\<rparr>, count_where ?open (pb_rows s))"
        using cur True by (simp add: insert_ready_def Let_def)
      have "map ss_id ?rs = map ss_id (pb_rows s)" by (rule map_update_where) simp
      then show "distinct (map ss_id ?rs)" using dist by simp
      show "\<forall>r\<in>set ?rs. ss_id r \<noteq> ?sid \<longrightarrow> r \<in> set (pb_rows s)"
        using here by (auto simp: set_update_where)
      show "\<forall>r\<in>set (pb_rows s). ss_id r \<noteq> ?sid \<longrightarrow> r \<in> set ?rs"
        using here by (fastforce simp: set_update_where)
      show "\<exists>r\<in>set ?rs. fresh_row pid ver key msha s r"
      proof (intro bexI)
        show "(if ?open r then ?f r else r) \<in> set ?rs" using r(1) by (simp add: set_update_where)
        show "fresh_row pid ver key msha s (if ?open r then ?f r else r)"
          using r here live by (auto simp: fresh_row_def)
      qed
    qed
  next
    case False
    let ?row = "\<lparr>ss_id = ?sid, ss_project = pid, ss_version = ver, ss_status = SnapshotReady, ss_manifest_key = Some key,
      ss_manifest_sha = Some msha, ss_created = now, ss_activated = None\<rparr>"
    have new: "\<forall>r\<in>set (pb_rows s). ss_id r \<noteq> ?sid" using False here by blast
    show thesis
    proof (rule that [of "pb_rows s @ [?row]" 1])
      show "insert_ready pid ver ?sid key msha now s = Inr (s\<lparr>pb_rows := pb_rows s @ [?row]\<rparr>, 1)"
        using cur False new by (auto simp: insert_ready_def Let_def)
      show "distinct (map ss_id (pb_rows s @ [?row]))" using dist new by auto
    qed (auto simp: fresh_row_def)
  qed
qed

definition activated_row :: "ustring \<Rightarrow> ustring \<Rightarrow> int \<Rightarrow> snapshot_row \<Rightarrow> snapshot_row" where
  "activated_row pid sid now r =
     (if ss_id r = sid then r\<lparr>ss_status := SnapshotActive, ss_activated := Some now\<rparr>
      else if ss_project r = pid \<and> ss_status r = SnapshotActive then r\<lparr>ss_status := SnapshotSuperseded\<rparr>
      else r)"

definition here_project :: "ustring \<Rightarrow> int \<Rightarrow> project \<Rightarrow> bool" where
  "here_project pid ver p \<longleftrightarrow> p_id p = pid \<and> p_version p = ver"

lemma activation_rest:
  assumes dist: "distinct (map ss_id rs)" and r: "r \<in> set rs" "fresh_row pid ver key msha s0 r"
    and ids: "distinct (map p_id (t_projects (authority s)))" and cur: "project_at pid ver (authority s)" and rs: "pb_rows s = rs"
  shows "(if fenced pid (authority s) then \<exists>e. bind_res (supersede_others pid ver (snapshot_name pid ver) s) (\<lambda>(s, b).
       bind_res (point_project pid ver (snapshot_name pid ver) now s) (\<lambda>(s, c).
       bind_res (set_active pid ver (snapshot_name pid ver) now s) (\<lambda>(s, d). Inr (s, [a, b, c, d])))) = Inl e
     else \<exists>b. bind_res (supersede_others pid ver (snapshot_name pid ver) s) (\<lambda>(s, b).
       bind_res (point_project pid ver (snapshot_name pid ver) now s) (\<lambda>(s, c).
       bind_res (set_active pid ver (snapshot_name pid ver) now s) (\<lambda>(s, d). Inr (s, [a, b, c, d])))) =
     Inr (s\<lparr>pb_sys := touch_project (here_project pid ver) now (pb_sys s),
       pb_rows := map (activated_row pid (snapshot_name pid ver) now) rs,
       pb_active := (pb_active s)(pid := Some (snapshot_name pid ver))\<rparr>, [a, b, 1, 1]))"
proof -
  let ?sid = "snapshot_name pid ver"
  let ?old = "\<lambda>r. ss_project r = pid \<and> ss_status r = SnapshotActive \<and> ss_id r \<noteq> ?sid"
  let ?s1 = "s\<lparr>pb_rows := update_where ?old (\<lambda>r. r\<lparr>ss_status := SnapshotSuperseded\<rparr>) rs\<rparr>"
  have target: "target_exists ?sid s"
    using r rs by (auto simp: target_exists_def fresh_row_def)
  then have one: "supersede_others pid ver ?sid s = Inr (?s1, count_where ?old rs)"
    using cur rs by (simp add: supersede_others_def Let_def)
  have target1: "target_exists ?sid ?s1"
  proof -
    have "r \<in> set (pb_rows ?s1)" using r by (auto simp: set_update_where fresh_row_def intro!: image_eqI [of _ _ r])
    with r(2) show ?thesis by (auto simp: target_exists_def fresh_row_def)
  qed
  obtain p where p: "p \<in> set (t_projects (authority s))" "here_project pid ver p"
    using cur by (auto simp: project_at_def here_project_def)
  have two: "point_project pid ver ?sid now ?s1 = (if fenced pid (authority s) then Inl (Other (str ''synthetic cleanup is fenced''))
      else Inr (?s1\<lparr>pb_sys := touch_project (here_project pid ver) now (pb_sys s), pb_active := (pb_active s)(pid := Some ?sid)\<rparr>, 1))"
  proof -
    have "count_where (here_project pid ver) (t_projects (authority s)) = 1"
      by (rule count_where_unique [OF ids p(1)]) (use p(2) in \<open>auto simp: here_project_def\<close>)
    then show ?thesis
      using target1 p by (auto simp: point_project_def Let_def touch_project_def here_project_def [abs_def] simp del: str_eval)
  qed
  let ?s2 = "?s1\<lparr>pb_sys := touch_project (here_project pid ver) now (pb_sys s), pb_active := (pb_active s)(pid := Some ?sid)\<rparr>"
  have three: "set_active pid ver ?sid now ?s2 = Inr (?s2\<lparr>pb_rows := map (activated_row pid ?sid now) rs\<rparr>, 1)"
  proof -
    have "map ss_id (pb_rows ?s1) = map ss_id rs"
      by simp (rule map_update_where, simp)
    then have "distinct (map ss_id (pb_rows ?s1))" using dist by simp
    moreover obtain r' where "r' \<in> set (pb_rows ?s1)" "ss_id r' = ?sid"
      using target1 by (auto simp: target_exists_def)
    ultimately have "count_where (\<lambda>r. ss_id r = ?sid) (pb_rows ?s1) = 1"
      by (intro count_where_unique [of ss_id _ r']) auto
    then show ?thesis
      using cur by (auto simp: set_active_def Let_def update_where_def activated_row_def)
  qed
  show ?thesis using one two three by (auto simp del: str_eval)
qed

lemma pub_ok_rows:
  assumes "pub_ok sha lower s"
  shows "distinct (map ss_id (pb_rows s))" "\<forall>r\<in>set (pb_rows s). ss_id r = snapshot_name (ss_project r) (ss_version r)"
    "distinct (map p_id (t_projects (authority s)))"
  using assms by (auto simp: pub_ok_def row_ok_def sys_ok_def formal_inv_ids)

text \<open>The batch of a current version, on a state in order, stops at the cleanup fence or activates.\<close>

lemma activation_runs:
  assumes ok: "pub_ok sha lower s" and cur: "project_at pid ver (authority s)"
  obtains (fenced) e where "fenced pid (authority s)" "activation_batch pid ver (snapshot_name pid ver) key msha now s = Inl e"
  | (active) rs a b where "\<not> fenced pid (authority s)"
      "activation_batch pid ver (snapshot_name pid ver) key msha now s =
        Inr (s\<lparr>pb_sys := touch_project (here_project pid ver) now (pb_sys s),
          pb_rows := map (activated_row pid (snapshot_name pid ver) now) rs,
          pb_active := (pb_active s)(pid := Some (snapshot_name pid ver))\<rparr>, [a, b, 1, 1])"
      "distinct (map ss_id rs)" "\<forall>r\<in>set rs. ss_id r \<noteq> snapshot_name pid ver \<longrightarrow> r \<in> set (pb_rows s)"
      "\<forall>r\<in>set (pb_rows s). ss_id r \<noteq> snapshot_name pid ver \<longrightarrow> r \<in> set rs" "\<exists>r\<in>set rs. fresh_row pid ver key msha s r"
proof -
  have "ss_status r \<noteq> SnapshotSuperseded" if "r \<in> set (pb_rows s)" "ss_project r = pid" "ss_version r = ver" for r
  proof
    assume "ss_status r = SnapshotSuperseded"
    then have "\<exists>w. version_of pid (authority s) = Some w \<and> ver < w"
      using ok that by (auto simp: pub_ok_def row_ok_def)
    with cur version_at [OF ok] show False by simp
  qed
  then have live: "\<forall>r\<in>set (pb_rows s). ss_project r = pid \<and> ss_version r = ver \<longrightarrow> ss_status r \<noteq> SnapshotSuperseded" by blast
  obtain rs a where i: "insert_ready pid ver (snapshot_name pid ver) key msha now s = Inr (s\<lparr>pb_rows := rs\<rparr>, a)"
      "distinct (map ss_id rs)" "\<forall>r\<in>set rs. ss_id r \<noteq> snapshot_name pid ver \<longrightarrow> r \<in> set (pb_rows s)"
      "\<forall>r\<in>set (pb_rows s). ss_id r \<noteq> snapshot_name pid ver \<longrightarrow> r \<in> set rs" "\<exists>r\<in>set rs. fresh_row pid ver key msha s r"
    by (rule insert_ready_effect [OF pub_ok_rows(1,2) [OF ok] cur live])
  obtain r where r: "r \<in> set rs" "fresh_row pid ver key msha s r" using i(5) by blast
  note rest = activation_rest [OF i(2) r, where s = "s\<lparr>pb_rows := rs\<rparr>" and a = a and now = now]
  show thesis
  proof (cases "fenced pid (authority s)")
    case True
    with rest pub_ok_rows(3) [OF ok] cur i(1) fenced show thesis by (auto simp: activation_batch_def)
  next
    case False
    with rest pub_ok_rows(3) [OF ok] cur obtain b where
      "activation_batch pid ver (snapshot_name pid ver) key msha now s =
        Inr (s\<lparr>pb_sys := touch_project (here_project pid ver) now (pb_sys s),
          pb_rows := map (activated_row pid (snapshot_name pid ver) now) rs,
          pb_active := (pb_active s)(pid := Some (snapshot_name pid ver))\<rparr>, [a, b, 1, 1])"
      using i(1) by (auto simp: activation_batch_def)
    with active False i(2-5) show thesis by blast
  qed
qed

lemma described_fresh:
  assumes ok: "pub_ok sha lower s" and cur: "project_at pid ver (authority s)"
    and plan: "projected_plan sha lower pid ver (project_rows_of pid (authority s)) = Inr p" "stored_plan sha p s"
    and r: "fresh_row pid ver (sp_manifest_key p) (sp_manifest_sha p) s r"
  shows "ss_manifest_key r = Some (sp_manifest_key p) \<and> ss_manifest_sha r = Some (sp_manifest_sha p)"
proof (cases "ss_status r = SnapshotReady")
  case False
  then have "r \<in> set (pb_rows s)" "ss_status r = SnapshotActive" and at: "ss_project r = pid" "ss_version r = ver"
    using r by (auto simp: fresh_row_def)
  then have "described sha lower s r" using ok by (auto simp: pub_ok_def row_ok_def)
  with at plan(1) cur version_at [OF ok] show ?thesis by (auto simp: described_def)
qed (use r in \<open>auto simp: fresh_row_def\<close>)

lemma activate_keeps_ok:
  assumes ok: "pub_ok sha lower s"
    and plan: "projected_plan sha lower pid ver rows = Inr p" "stored_plan sha p s"
      "project_at pid ver (authority s) \<Longrightarrow> rows = project_rows_of pid (authority s)"
    and run: "activation_batch pid ver (snapshot_name pid ver) (sp_manifest_key p) (sp_manifest_sha p) now s = Inr (t, ns)"
  shows "pub_ok sha lower t"
proof (cases "project_at pid ver (authority s)")
  case False
  with activation_idle [OF False] run ok show ?thesis by simp
next
  case cur: True
  let ?sid = "snapshot_name pid ver"
  note rows = plan(3) [OF cur]
  have here: "version_of pid (authority s) = Some ver" using cur version_at [OF ok] by simp
  from ok cur show ?thesis
  proof (cases rule: activation_runs [where key = "sp_manifest_key p" and msha = "sp_manifest_sha p" and now = now])
    case (fenced e)
    with run show ?thesis by simp
  next
    case (active rs a b)
    let ?f = "activated_row pid ?sid now"
    have t: "t = s\<lparr>pb_sys := touch_project (here_project pid ver) now (pb_sys s), pb_rows := map ?f rs,
        pb_active := (pb_active s)(pid := Some ?sid)\<rparr>"
      using active(2) run by simp
    have same: "version_of q (authority t) = version_of q (authority s)" "project_rows_of q (authority t) = project_rows_of q (authority s)" for q
      by (simp_all add: t)
    have objs: "object_checksum k t = object_checksum k s" for k by (simp add: t object_checksum_def)
    have names: "\<forall>r\<in>set (pb_rows s). ss_id r = snapshot_name (ss_project r) (ss_version r)" by (rule pub_ok_rows(2) [OF ok])
    have fresh: "fresh_row pid ver (sp_manifest_key p) (sp_manifest_sha p) s r" if "r \<in> set rs" "ss_id r = ?sid" for r
    proof -
      obtain r0 where "r0 \<in> set rs" "fresh_row pid ver (sp_manifest_key p) (sp_manifest_sha p) s r0" using active(6) by blast
      moreover from this have "r0 = r" using distinct_map_unique [OF active(3)] that by (simp add: fresh_row_def)
      ultimately show ?thesis by simp
    qed
    have kept: "row_ok sha lower t r" if "r \<in> set (pb_rows s)" for r
      by (rule row_ok_mono) (use ok that same objs in \<open>auto simp: pub_ok_def\<close>)
    have "row_ok sha lower t (?f r)" if r: "r \<in> set rs" for r
    proof (cases "ss_id r = ?sid")
      case True
      note f = fresh [OF r True]
      have "stored_plan sha p t" using plan(2) objs by (simp add: stored_plan_def)
      then have "described sha lower t (?f r)"
        using f described_fresh [OF ok cur _ plan(2) f] plan(1) rows same(2) True
        by (auto simp: described_def activated_row_def fresh_row_def)
      then show ?thesis using f True here same(1) by (auto simp: row_ok_def activated_row_def fresh_row_def)
    next
      case False
      then have rs: "r \<in> set (pb_rows s)" using active(4) r by blast
      have "ss_version r < ver" if "ss_project r = pid" "ss_status r = SnapshotActive"
      proof -
        have "ss_version r \<le> ver" using ok rs that here by (auto simp: pub_ok_def row_ok_def)
        moreover have "ss_version r \<noteq> ver" using names rs that False by auto
        ultimately show ?thesis by simp
      qed
      with kept [OF rs] False names rs here same(1) show ?thesis by (auto simp: row_ok_def activated_row_def described_def)
    qed
    moreover have "pointer_ok t"
    proof -
      have "pb_active t q = Some i \<longleftrightarrow> (\<exists>r\<in>set (pb_rows t). ss_project r = q \<and> ss_status r = SnapshotActive \<and> ss_id r = i)" for q i
      proof (cases "q = pid")
        case True
        have "(\<exists>r\<in>set rs. ss_project (?f r) = pid \<and> ss_status (?f r) = SnapshotActive \<and> ss_id (?f r) = i) \<longleftrightarrow> i = ?sid"
          using active(6) fresh by (auto simp: activated_row_def fresh_row_def)
        with True show ?thesis by (auto simp: t)
      next
        case False
        have "(\<exists>r\<in>set rs. ss_project (?f r) = q \<and> ss_status (?f r) = SnapshotActive \<and> ss_id (?f r) = i) \<longleftrightarrow>
            (\<exists>r\<in>set (pb_rows s). ss_project r = q \<and> ss_status r = SnapshotActive \<and> ss_id r = i)" (is "?l = ?r")
        proof
          assume ?l
          then obtain r where r: "r \<in> set rs" "ss_project (?f r) = q" "ss_status (?f r) = SnapshotActive" "ss_id (?f r) = i" by blast
          have "ss_id r \<noteq> ?sid" using fresh [OF r(1)] r(2) False by (auto simp: activated_row_def fresh_row_def)
          with r active(4) False show ?r by (auto simp: activated_row_def split: if_splits)
        next
          assume ?r
          then obtain r where r: "r \<in> set (pb_rows s)" "ss_project r = q" "ss_status r = SnapshotActive" "ss_id r = i" by blast
          have "ss_id r \<noteq> ?sid" using names r False by (auto simp: snapshot_name_inj)
          with r active(5) False show ?l by (auto simp: activated_row_def intro!: bexI [of _ r])
        qed
        moreover have "pointer_ok s" using ok by (simp add: pub_ok_def)
        ultimately show ?thesis using False by (auto simp: t pointer_ok_def)
      qed
      then show ?thesis by (simp add: pointer_ok_def)
    qed
    moreover have "distinct (map ss_id (pb_rows t))"
    proof -
      have "ss_id \<circ> ?f = ss_id" by (rule ext) (simp add: activated_row_def)
      with active(3) show ?thesis by (simp add: t)
    qed
    moreover have "sys_ok (pb_sys t)" "honest_bucket sha t"
      using ok touch_sys_ok by (auto simp: t pub_ok_def honest_bucket_def)
    ultimately show ?thesis by (auto simp: pub_ok_def t)
  qed
qed

lemma pub_step_ok: "pub_step sha lower s t \<Longrightarrow> pub_ok sha lower s \<Longrightarrow> pub_ok sha lower t"
  by (cases rule: pub_step.cases) (auto intro: formal_keeps_ok store_keeps_ok activate_keeps_ok simp del: str_eval)

lemma pub_run_ok: "(pub_step sha lower)\<^sup>*\<^sup>* s t \<Longrightarrow> pub_ok sha lower s \<Longrightarrow> pub_ok sha lower t"
  by (induction rule: rtranclp_induct) (auto dest: pub_step_ok)

end
