(* ===== verification/Projection_Soundness.thy ===== *)
theory Projection_Soundness
  imports Projection_Validation
begin

text \<open>
  A plan that was built passes validation: the rendered texts are read back as the values they were
  printed from. Two things can break this, and are excluded by name: a Unicode line separator inside a
  quoted identifier, and an identifier that spells the directory name \<open>objects\<close> or \<open>revisions\<close>.
\<close>

section \<open>Searching texts\<close>

lemma drop_prefix_iff: "drop_prefix p s = Some r \<longleftrightarrow> s = p @ r"
  by (induction p s rule: drop_prefix.induct) auto

lemma starts_with_iff: "starts_with p s \<longleftrightarrow> (\<exists>r. s = p @ r)"
  by (auto simp: starts_with_def drop_prefix_iff)

lemma starts_with_append [simp]: "starts_with p (p @ s)"
  by (auto simp: starts_with_iff)

lemma find_text_occurs: "find_text p s = Some n \<Longrightarrow> \<exists>a b. s = a @ p @ b \<and> length a = n"
proof (induction s arbitrary: n)
  case (Cons c s)
  show ?case
  proof (cases "starts_with p (c # s)")
    case True
    then obtain r where "c # s = [] @ p @ r" by (auto simp: starts_with_iff)
    moreover have "n = 0" using Cons.prems True by simp
    ultimately show ?thesis by (metis list.size(3))
  next
    case False
    then obtain m where "find_text p s = Some m" "n = Suc m" using Cons.prems by auto
    then show ?thesis using Cons.IH [of m] by (metis append_Cons length_Cons)
  qed
qed (auto split: if_splits)

lemma find_text_append: "\<exists>n\<le>length a. find_text p (a @ p @ b) = Some n"
proof (induction a)
  case Nil
  then show ?case by (cases "p @ b") (auto simp: starts_with_iff intro: exI [of _ b])
next
  case (Cons x a)
  then show ?case by auto
qed

lemma find_text_first:
  assumes "\<And>a b. j @ p @ r = a @ p @ b \<Longrightarrow> length j \<le> length a"
  shows "find_text p (j @ p @ r) = Some (length j)"
proof -
  obtain n where n: "n \<le> length j" "find_text p (j @ p @ r) = Some n" using find_text_append by blast
  from find_text_occurs [OF n(2)] obtain a b where a: "j @ p @ r = a @ p @ b" "length a = n" by blast
  with assms [OF a(1)] n show ?thesis by simp
qed

lemma contains_text_iff: "contains_text p s \<longleftrightarrow> (\<exists>a b. s = a @ p @ b)"
proof
  assume "contains_text p s"
  then obtain n where "find_text p s = Some n" by (auto simp: contains_text_def)
  from find_text_occurs [OF this] show "\<exists>a b. s = a @ p @ b" by blast
next
  assume "\<exists>a b. s = a @ p @ b"
  then obtain a b where "s = a @ p @ b" by blast
  then show "contains_text p s" using find_text_append [of a p b] by (auto simp: contains_text_def)
qed

lemma split_on_nonempty [simp]: "split_on c s \<noteq> []"
  by (induction s) (auto split: list.splits)

lemma split_on_at: "split_on c (a @ c # r) = split_on c a @ split_on c r"
proof (induction a)
  case (Cons x a)
  obtain q qs where "split_on c a = q # qs" by (cases "split_on c a") auto
  with Cons show ?case by simp
qed simp

lemma last_map_tl: "xs \<noteq> [] \<Longrightarrow> ys \<noteq> [] \<Longrightarrow> x \<in> set (butlast (tl (xs @ x # ys)))"
  by (cases xs) (auto simp: butlast_append)

text \<open>A directory name occurs in a key exactly as one of its inner segments.\<close>

lemma contains_segment:
  assumes "47 \<notin> set x" "contains_text (47 # x @ [47]) s"
  shows "x \<in> set (butlast (tl (split_on 47 s)))"
proof -
  obtain a b where "s = a @ 47 # x @ 47 # b" using assms(2) by (auto simp: contains_text_iff)
  then have "split_on 47 s = split_on 47 a @ x # split_on 47 b"
    by (simp add: split_on_at split_on_none [OF assms(1)])
  then show ?thesis using last_map_tl [of "split_on 47 a" "split_on 47 b" x] by simp
qed

section \<open>The front matter is read back\<close>

lemma regex_lines_one: "\<forall>c\<in>set l. \<not> line_terminator c \<Longrightarrow> regex_lines l = [l]"
  by (induction l) auto

lemma regex_lines_append: "\<forall>c\<in>set l. \<not> line_terminator c \<Longrightarrow> regex_lines (l @ 10 # s) = l # regex_lines s"
  by (induction l) (auto simp: line_terminator_def)

lemma regex_lines_join:
  "ls \<noteq> [] \<Longrightarrow> \<forall>l\<in>set ls. \<forall>c\<in>set l. \<not> line_terminator c \<Longrightarrow> regex_lines (join_with 10 ls) = ls"
  by (induction "10 :: nat" ls rule: join_with.induct) (simp_all add: regex_lines_one regex_lines_append)

lemma split_join: "ls \<noteq> [] \<Longrightarrow> \<forall>l\<in>set ls. 10 \<notin> set l \<Longrightarrow> split_on 10 (join_with 10 ls @ 10 # s) = ls @ split_on 10 s"
  by (induction "10 :: nat" ls rule: join_with.induct) (simp_all add: split_on_append)

lemma join_split: "join_with c (split_on c s) = s"
proof (induction s)
  case (Cons x s)
  obtain q qs where q: "split_on c s = q # qs" by (cases "split_on c s") auto
  then show ?case using Cons by (cases qs) auto
qed simp

lemma join_with_take: "length (join_with c (take n ls)) \<le> length (join_with c ls)"
proof (induction ls arbitrary: n)
  case (Cons l ls)
  show ?case
  proof (cases n)
    case (Suc m)
    then show ?thesis using Cons [of m] by (cases ls; cases "take m ls") auto
  qed simp
qed simp

lemma fence_position:
  assumes "ls \<noteq> []" "\<forall>l\<in>set ls. 10 \<notin> set l" "f \<notin> set ls" "10 \<notin> set f"
    "join_with 10 ls @ 10 # f @ 10 # s = a @ 10 # f @ 10 # b"
  shows "length (join_with 10 ls) \<le> length a"
proof -
  have eq: "split_on 10 a @ f # split_on 10 b = ls @ f # split_on 10 s"
    using arg_cong [OF assms(5), of "split_on 10"] split_join [OF assms(1,2), of "f @ 10 # s"]
    by (simp add: split_on_at split_on_none [OF assms(4)])
  have "length ls \<le> length (split_on 10 a)"
  proof (rule ccontr)
    let ?k = "length (split_on 10 a)"
    assume "\<not> ?thesis"
    then have k: "?k < length ls" by simp
    have "ls ! ?k = f" using arg_cong [OF eq, of "\<lambda>xs. xs ! ?k"] k by (simp add: nth_append)
    with k nth_mem [OF k] assms(3) show False by simp
  qed
  then have "take (length ls) (split_on 10 a) = ls"
    using arg_cong [OF eq, of "take (length ls)"] by simp
  then show ?thesis using join_with_take [of 10 "length ls" "split_on 10 a"] by (simp add: join_split)
qed

definition envelope_lines :: "ustring list \<Rightarrow> bool" where
  "envelope_lines fm \<longleftrightarrow> fm \<noteq> [] \<and> (\<forall>l\<in>set fm. (\<forall>c\<in>set l. \<not> line_terminator c) \<and> l \<noteq> str ''---'')"

lemma memory_body_eq:
  "fm \<noteq> [] \<Longrightarrow> memory_body fm content =
     (str ''---'' @ [10]) @ join_with 10 fm @ ([10] @ str ''---'' @ [10, 10]) @ content @ [10]"
proof -
  have "ls \<noteq> [] \<Longrightarrow> join_with 10 (ls @ [f]) = join_with 10 ls @ 10 # f" for ls f
    by (induction "10 :: nat" ls rule: join_with.induct) (auto simp: neq_Nil_conv)
  from this [of fm "str ''---''"] show "fm \<noteq> [] \<Longrightarrow> ?thesis"
    by (cases "fm @ [str ''---'']") (simp_all add: memory_body_def)
qed

lemma envelope_end_body:
  assumes "envelope_lines fm"
  shows "envelope_end (memory_body fm content) = Some (4 + length (join_with 10 fm))"
proof -
  let ?p = "[10] @ str ''---'' @ [10, 10]"
  have ne: "fm \<noteq> []" and l: "\<forall>l\<in>set fm. 10 \<notin> set l" "str ''---'' \<notin> set fm"
    using assms by (auto simp: envelope_lines_def line_terminator_def)
  have "length (join_with 10 fm) \<le> length a" if "join_with 10 fm @ ?p @ content @ [10] = a @ ?p @ b" for a b
    by (rule fence_position [OF ne l, of "10 # content @ [10]" a "10 # b"]) (use that in simp_all)
  then have "find_text ?p (join_with 10 fm @ ?p @ content @ [10]) = Some (length (join_with 10 fm))"
    by (rule find_text_first)
  moreover have "drop 4 (memory_body fm content) = join_with 10 fm @ ?p @ content @ [10]"
    by (simp add: memory_body_eq [OF ne])
  ultimately show ?thesis by (simp only: envelope_end_def) simp
qed

lemma envelope_read_back:
  assumes "envelope_lines fm" "frontmatter_checksum (join_with 10 fm) = Some (sha content)"
  shows "envelope_errors sha \<lparr>pw_key = k, pw_body = memory_body fm content, pw_sha = h, pw_type = ty\<rparr> = []"
proof -
  have ne: "fm \<noteq> []" using assms(1) by (simp add: envelope_lines_def)
  note b = memory_body_eq [OF ne, of content]
  have "starts_with (str ''---'' @ [10]) (memory_body fm content)" unfolding b by (rule starts_with_append)
  moreover have "ends_with_newline (memory_body fm content)" by (simp add: b ends_with_newline_def)
  moreover have "take (4 + length (join_with 10 fm) - 4) (drop 4 (memory_body fm content)) = join_with 10 fm"
    by (simp add: b)
  moreover have "take (length (memory_body fm content) - 1 - (4 + length (join_with 10 fm) + 6))
      (drop (4 + length (join_with 10 fm) + 6) (memory_body fm content)) = content"
  proof -
    let ?a = "(str ''---'' @ [10]) @ join_with 10 fm @ [10] @ str ''---'' @ [10, 10]"
    have "memory_body fm content = ?a @ content @ [10]" "length ?a = 4 + length (join_with 10 fm) + 6"
      by (simp_all add: b)
    then show ?thesis by (simp only: drop_append length_append) simp
  qed
  ultimately show ?thesis
    by (simp add: envelope_errors_def envelope_end_body [OF assms(1)] assms(2) Let_def)
qed

section \<open>Texts of a plan\<close>

definition ascii :: "ustring \<Rightarrow> bool" where
  "ascii s \<longleftrightarrow> (\<forall>c\<in>set s. c < 128)"

lemma ascii_simps [simp]:
  "ascii []" "ascii (c # s) \<longleftrightarrow> c < 128 \<and> ascii s" "ascii (s @ t) \<longleftrightarrow> ascii s \<and> ascii t"
  by (auto simp: ascii_def)

lemma js_text_small: "\<forall>c\<in>set s. c < 55296 \<or> 57344 \<le> c \<Longrightarrow> js_text s"
  by (induction s rule: js_text.induct) (auto simp: high_surrogate_def)

lemma ascii_js_text: "ascii s \<Longrightarrow> js_text s"
  by (rule js_text_small) (auto simp: ascii_def)

lemma ascii_utf16: "ascii s \<Longrightarrow> utf16 s = s"
  by (induction s) auto

lemma scalar_js_text: "list_all scalar s \<Longrightarrow> js_text s"
  by (rule js_text_small) (auto simp: list_all_iff scalar_def surrogate_def)

lemma digest_ascii: "digest_text d \<Longrightarrow> ascii d"
  by (auto simp: digest_text_def hex_lower_char_def list_all_iff ascii_def)

lemma dec_int_ascii: "ascii (dec_int i)"
  using dec_digits by (force simp: dec_int_def ascii_def)

text \<open>No character a multi-line regular expression takes for the end of a line, once quoted.\<close>

definition unseparated :: "ustring \<Rightarrow> bool" where
  "unseparated s \<longleftrightarrow> 8232 \<notin> set s \<and> 8233 \<notin> set s"

definition one_line :: "ustring \<Rightarrow> bool" where
  "one_line s \<longleftrightarrow> (\<forall>c\<in>set s. \<not> line_terminator c)"

lemma one_line_simps [simp]:
  "one_line []" "one_line (c # s) \<longleftrightarrow> \<not> line_terminator c \<and> one_line s" "one_line (s @ t) \<longleftrightarrow> one_line s \<and> one_line t"
  by (auto simp: one_line_def)

lemma json_char_one_line: "c \<noteq> 8232 \<Longrightarrow> c \<noteq> 8233 \<Longrightarrow> one_line (json_char c)"
proof -
  assume c: "c \<noteq> 8232" "c \<noteq> 8233"
  have h: "\<not> line_terminator (hex_lower n)" if "n < 16" for n
    using that by (simp add: hex_lower_def line_terminator_def)
  show ?thesis
  proof (cases "c < 32 \<or> (55296 \<le> c \<and> c < 57344)")
    case True
    then have "c div 4096 < 16" by (auto simp: less_mult_imp_div_less)
    moreover have "c div 256 mod 16 < 16" "c div 16 mod 16 < 16" "c mod 16 < 16" by simp_all
    moreover have "\<not> line_terminator n" if "n \<in> {34, 92, 98, 102, 110, 114, 116, 117}" for n
      using that by (auto simp: line_terminator_def)
    ultimately show ?thesis using True by (simp add: json_char_def h del: disj_not1)
  next
    case False
    with c show ?thesis by (auto simp: json_char_def line_terminator_def)
  qed
qed

lemma json_string_one_line: "unseparated s \<Longrightarrow> one_line (json_string s)"
proof -
  assume s: "unseparated s"
  have "one_line (concat (map json_char s))"
    using s by (induction s) (simp_all add: unseparated_def json_char_one_line)
  then show ?thesis by (simp add: json_string_def line_terminator_def)
qed

lemma dec_int_one_line [simp]: "one_line (dec_int i)"
  using dec_digits by (force simp: dec_int_def one_line_def line_terminator_def)

lemma join_text_one_line: "one_line sep \<Longrightarrow> \<forall>x\<in>set xs. one_line x \<Longrightarrow> one_line (join_sep sep xs)"
  by (induction sep xs rule: join_sep.induct) auto

lemma digest_one_line: "digest_text d \<Longrightarrow> one_line d"
  by (auto simp: digest_text_def hex_lower_char_def list_all_iff one_line_def line_terminator_def)

lemma kind_one_line [simp]: "one_line (kind_name k)"
  by (cases k) (simp_all add: line_terminator_def)

lemma class_one_line [simp]: "one_line (class_name c)"
  by (cases c) (simp_all add: line_terminator_def)

lemma scope_one_line [simp]: "one_line (scope_name s)"
  by (cases s) (simp_all add: line_terminator_def)

lemma status_one_line [simp]: "one_line (status_name t)"
  by (cases t) (simp_all add: line_terminator_def)

lemma object_type_one_line [simp]: "one_line (object_type_name y)"
  by (cases y) (simp_all add: line_terminator_def)

text \<open>The memory's texts that are printed quoted.\<close>

definition quoted_texts :: "projection_memory \<Rightarrow> ustring list" where
  "quoted_texts m = [pm_project m, pm_memory m, pm_revision m, pm_scope_id m] @
     somes [pm_from m, pm_until m] @ pm_evidence m"

definition printable :: "projection_memory \<Rightarrow> bool" where
  "printable m \<longleftrightarrow> list_all unseparated (quoted_texts m)"

lemma set_somes: "set (somes xs) = {x. Some x \<in> set xs}"
  by (induction xs rule: somes.induct) auto

lemma frontmatter_lines:
  assumes "printable m" "unseparated u" "unseparated v" "\<forall>e\<in>set es. unseparated e" "digest_text d"
  shows "\<forall>l\<in>set (frontmatter ty m u v es d). one_line l"
proof -
  have y: "one_line (yaml_option (pm_from m))" "one_line (yaml_option (pm_until m))"
    using assms(1) by (auto simp: printable_def quoted_texts_def list_all_iff set_somes yaml_option_def yaml_def
        json_string_one_line line_terminator_def split: option.split)
  have e: "one_line (join_sep (str '', '') (map yaml es))"
    by (rule join_text_one_line) (use assms(4) in \<open>auto simp: yaml_def json_string_one_line line_terminator_def\<close>)
  have q: "one_line (yaml (pm_project m))" "one_line (yaml (pm_memory m))" "one_line (yaml (pm_revision m))"
    "one_line (yaml (pm_scope_id m))" "one_line (yaml u)" "one_line (yaml v)"
    using assms(1-3) by (simp_all add: printable_def quoted_texts_def yaml_def json_string_one_line)
  show ?thesis
    using y e q digest_one_line [OF assms(5)] by (simp add: frontmatter_def line_terminator_def)
qed

lemma frontmatter_checksum_last:
  assumes "\<forall>l\<in>set (frontmatter ty m u v es d). one_line l" "digest_text d"
  shows "frontmatter_checksum (join_with 10 (frontmatter ty m u v es d)) = Some d"
proof -
  have "regex_lines (join_with 10 (frontmatter ty m u v es d)) = frontmatter ty m u v es d"
    by (rule regex_lines_join) (use assms(1) in \<open>auto simp: frontmatter_def one_line_def\<close>)
  then show ?thesis
    using assms(2) by (simp add: frontmatter_checksum_def checksum_line_def frontmatter_def)
qed

lemma frontmatter_envelope:
  assumes "\<forall>l\<in>set (frontmatter ty m u v es d). one_line l"
  shows "envelope_lines (frontmatter ty m u v es d)"
proof -
  have "frontmatter ty m u v es d \<noteq> []" "str ''---'' \<notin> set (frontmatter ty m u v es d)"
    by (simp_all add: frontmatter_def)
  with assms show ?thesis unfolding envelope_lines_def one_line_def by blast
qed

section \<open>Every write is good\<close>

text \<open>What is assumed of SHA-256: its result is printed as 64 hexadecimal digits.\<close>

definition sha_digests :: "(ustring \<Rightarrow> ustring) \<Rightarrow> bool" where
  "sha_digests sha \<longleftrightarrow> (\<forall>s. digest_text (sha s))"

definition reserved :: "ustring \<Rightarrow> bool" where
  "reserved s \<longleftrightarrow> s = str ''objects'' \<or> s = str ''revisions''"

definition good_write :: "(ustring \<Rightarrow> ustring) \<Rightarrow> ustring \<Rightarrow> projection_write \<Rightarrow> bool" where
  "good_write sha prefix w \<longleftrightarrow> (\<exists>rel. pw_key w = prefix @ rel \<and> ascii rel \<and> rel \<noteq> [] \<and> hd rel \<noteq> 109) \<and>
     pw_sha w = sha (pw_body w) \<and> (memory_object w \<longrightarrow> envelope_errors sha w = [])"

lemma plain_segment:
  assumes "s \<noteq> []" "\<forall>c\<in>set s. 97 \<le> c \<and> c \<le> 122"
  shows "pathSegment s = Inr s"
proof -
  have "encodeURIComponent s = Some s"
    using assms(2) by (induction s) (auto simp: encodeURIComponent_def scalar_def surrogate_def
        uri_encode_char_def uri_unreserved_def split: if_splits)
  moreover have "0 \<notin> set s" "46 \<notin> set s" using assms(2) by force+
  ultimately show ?thesis using assms(1) by (simp add: pathSegment_Inr escape_dots_id)
qed

lemma reserved_segment: "pathSegment v = Inr k \<Longrightarrow> reserved k \<longleftrightarrow> reserved v"
proof -
  assume v: "pathSegment v = Inr k"
  have "pathSegment (str ''objects'') = Inr (str ''objects'')" "pathSegment (str ''revisions'') = Inr (str ''revisions'')"
    by (rule plain_segment; simp)+
  then have r: "pathSegment x = Inr x" if "reserved x" for x using that unfolding reserved_def by blast
  show ?thesis
  proof
    assume "reserved k"
    from r [OF this] v have "v = k" by (simp only: pathSegment_inj)
    with \<open>reserved k\<close> show "reserved v" by simp
  next
    assume "reserved v"
    from r [OF this] v show "reserved k" using \<open>reserved v\<close> by simp
  qed
qed

lemma name_segments [simp]:
  "pathSegment (kind_name k) = Inr (kind_name k)" "pathSegment (class_name c) = Inr (class_name c)"
  "pathSegment (status_name t) = Inr (status_name t)"
proof -
  show "pathSegment (kind_name k) = Inr (kind_name k)" by (rule plain_segment; cases k; simp)
  show "pathSegment (class_name c) = Inr (class_name c)" by (rule plain_segment; cases c; simp)
  show "pathSegment (status_name t) = Inr (status_name t)" by (rule plain_segment; cases t; simp)
qed

lemma names_not_reserved [simp]:
  "\<not> reserved (kind_name k)" "\<not> reserved (class_name c)" "\<not> reserved (status_name t)"
proof -
  show "\<not> reserved (kind_name k)" by (cases k; simp add: reserved_def)
  show "\<not> reserved (class_name c)" by (cases c; simp add: reserved_def)
  show "\<not> reserved (status_name t)" by (cases t; simp add: reserved_def)
qed

definition prefix_text :: "ustring \<Rightarrow> ustring \<Rightarrow> ustring" where
  "prefix_text p n = str ''projects/'' @ p @ str ''/projections/'' @ n @ str ''/''"

lemma projectionPrefix_Inr:
  "projectionPrefix pid snap = Inr prefix \<longleftrightarrow>
     (\<exists>p n. pathSegment pid = Inr p \<and> pathSegment snap = Inr n \<and> prefix = prefix_text p n)"
  by (auto simp: projectionPrefix_def bind_res_Inr_iff prefix_text_def)

lemma prefix_segments:
  assumes "47 \<notin> set p" "47 \<notin> set n"
  shows "split_on 47 (prefix_text p n @ rel) = [str ''projects'', p, str ''projections'', n] @ split_on 47 rel"
proof -
  have "prefix_text p n @ rel = str ''projects'' @ 47 # p @ 47 # str ''projections'' @ 47 # n @ 47 # rel"
    by (simp add: prefix_text_def)
  then show ?thesis using assms by (simp only: split_on_append split_on_none) (simp add: split_on_append)
qed

definition plan_place :: "snapshot_input \<Rightarrow> ustring \<Rightarrow> bool" where
  "plan_place i prefix \<longleftrightarrow> projectionPrefix (si_project i) (si_snapshot i) = Inr prefix \<and>
     \<not> reserved (si_project i) \<and> \<not> reserved (si_snapshot i)"

lemma plain_key:
  assumes place: "plan_place i prefix" and key: "pw_key w = prefix @ rel" "\<forall>x\<in>set (butlast (split_on 47 rel)). \<not> reserved x"
  shows "\<not> memory_object w"
proof
  obtain p n where pn: "pathSegment (si_project i) = Inr p" "pathSegment (si_snapshot i) = Inr n" "prefix = prefix_text p n"
    using place by (auto simp: plan_place_def projectionPrefix_Inr)
  have sep: "47 \<notin> set p" "47 \<notin> set n" using pathSegment_chars [OF pn(1)] pathSegment_chars [OF pn(2)] by auto
  have inner: "butlast (tl (split_on 47 (pw_key w))) = [p, str ''projections'', n] @ butlast (split_on 47 rel)"
    by (simp add: key(1) pn(3) prefix_segments [OF sep] del: str_eval)
  have "\<not> reserved p" "\<not> reserved n" "\<not> reserved (str ''projections'')"
    using place reserved_segment [OF pn(1)] reserved_segment [OF pn(2)] by (auto simp: plan_place_def reserved_def)
  then have none: "\<not> reserved x" if "x \<in> set (butlast (tl (split_on 47 (pw_key w))))" for x
    using that key(2) unfolding inner by auto
  assume "memory_object w"
  then obtain x where "reserved x" "47 \<notin> set x" "contains_text (47 # x @ [47]) (pw_key w)"
    unfolding memory_object_def reserved_def by fastforce
  with contains_segment none show False by blast
qed

lemma text_write_good:
  assumes "plan_place i prefix" and "ascii rel" "rel \<noteq> []" "hd rel \<noteq> 109" "\<forall>x\<in>set (butlast (split_on 47 rel)). \<not> reserved x"
  shows "good_write sha prefix (buildTextWrite sha (prefix @ rel) body ty)"
proof -
  have "\<not> memory_object (buildTextWrite sha (prefix @ rel) body ty)"
    by (rule plain_key [OF assms(1) _ assms(5)]) (simp add: buildTextWrite_def)
  with assms(2-4) show ?thesis by (auto simp: good_write_def buildTextWrite_def)
qed

definition index_rel :: "ustring \<Rightarrow> ustring \<Rightarrow> ustring \<Rightarrow> ustring" where
  "index_rel dim seg ext = str ''indexes/by-'' @ dim @ 47 # seg @ 47 # str ''index'' @ ext"

lemma index_write_good:
  assumes place: "plan_place i prefix" and dim: "47 \<notin> set dim" "ascii dim" and seg: "pathSegment v = Inr seg" "\<not> reserved v"
    and ext: "47 \<notin> set ext" "ascii ext"
  shows "good_write sha prefix (buildTextWrite sha (prefix @ index_rel dim seg ext) body ty)"
proof (rule text_write_good [OF place])
  note c = pathSegment_chars [OF seg(1)]
  have "index_rel dim seg ext = str ''indexes'' @ 47 # (str ''by-'' @ dim) @ 47 # seg @ 47 # str ''index'' @ ext"
    by (simp add: index_rel_def)
  then have "split_on 47 (index_rel dim seg ext) = [str ''indexes'', str ''by-'' @ dim, seg, str ''index'' @ ext]"
    using dim(1) ext(1) c by (simp add: split_on_append split_on_none)
  moreover have "\<not> reserved seg" using seg reserved_segment by blast
  ultimately show "\<forall>x\<in>set (butlast (split_on 47 (index_rel dim seg ext))). \<not> reserved x"
    by (auto simp: reserved_def)
  show "ascii (index_rel dim seg ext)" using dim(2) ext(2) c by (auto simp: index_rel_def ascii_def)
qed (simp_all add: index_rel_def)

section \<open>Memory objects\<close>

lemma segment_ascii: "pathSegment v = Inr k \<Longrightarrow> ascii k"
  using pathSegment_chars [of v k] by (auto simp: ascii_def)

lemma canonical_uri_ascii: "canonicalMemoryUri p m = Inr u \<Longrightarrow> ascii u"
  by (auto simp: canonicalMemoryUri_def bind_res_Inr_iff dest!: segment_ascii)

lemma revision_uri_ascii: "revisionMemoryUri p m v = Inr u \<Longrightarrow> ascii u"
  by (auto simp: revisionMemoryUri_def bind_res_Inr_iff dec_int_ascii dest!: canonical_uri_ascii)

lemma ascii_unseparated: "ascii s \<Longrightarrow> unseparated s"
  by (auto simp: ascii_def unseparated_def)

lemma normalizeEvidenceIds_set: "normalizeEvidenceIds ids = Inr es \<Longrightarrow> set es = set ids"
  by (auto simp: normalizeEvidenceIds_def bind_res_Inr_iff)

lemma object_key_rel:
  assumes "object_key ty prefix h mid rid = Inr key" "ascii h" "ascii mid"
  shows "\<exists>rel. key = prefix @ rel \<and> ascii rel \<and> rel \<noteq> [] \<and> hd rel \<noteq> 109"
proof (cases ty)
  case HeadObject
  with assms show ?thesis
    by (intro exI [of _ "str ''objects/'' @ h @ str ''/'' @ mid @ str ''.md''"]) (simp add: object_key_def)
next
  case RevisionObject
  then obtain r where "pathSegment rid = Inr r" "key = prefix @ str ''revisions/'' @ h @ str ''/'' @ mid @ str ''/'' @ r @ str ''.md''"
    using assms(1) by (auto simp: object_key_def bind_res_Inr_iff)
  with assms segment_ascii show ?thesis
    by (intro exI [of _ "str ''revisions/'' @ h @ str ''/'' @ mid @ str ''/'' @ r @ str ''.md''"]) simp
qed

lemma take_ascii: "ascii s \<Longrightarrow> ascii (take n s)"
  by (auto simp: ascii_def dest: in_set_takeD)

lemma memory_object_good:
  assumes b: "buildMemoryObject sha ty m = Inr w" and sha: "sha_digests sha" and m: "printable m"
    and prefix: "projectionPrefix (pm_project m) (pm_snapshot m) = Inr prefix"
  shows "good_write sha prefix (mw_write w)" "mw_content_sha w = sha (pm_content m)"
proof -
  obtain mid key u v es where k: "pathSegment (pm_memory m) = Inr mid"
      "object_key ty prefix (take 2 (sha (pm_memory m))) mid (pm_revision m) = Inr key"
      "canonicalMemoryUri (pm_project m) (pm_memory m) = Inr u"
      "revisionMemoryUri (pm_project m) (pm_memory m) (pm_version m) = Inr v"
      "normalizeEvidenceIds (pm_evidence m) = Inr es"
    and w: "w = \<lparr>mw_write = \<lparr>pw_key = key,
        pw_body = memory_body (frontmatter ty m u v es (sha (pm_content m))) (pm_content m),
        pw_sha = sha (memory_body (frontmatter ty m u v es (sha (pm_content m))) (pm_content m)),
        pw_type = TextMarkdown\<rparr>, mw_content_sha = sha (pm_content m)\<rparr>"
    using b prefix by (auto simp: buildMemoryObject_def bind_res_Inr_iff Let_def)
  show "mw_content_sha w = sha (pm_content m)" by (simp add: w)
  have d: "digest_text (sha x)" for x using sha by (simp add: sha_digests_def)
  have "\<forall>e\<in>set es. unseparated e"
    using m normalizeEvidenceIds_set [OF k(5)] by (auto simp: printable_def quoted_texts_def list_all_iff)
  note lines = frontmatter_lines [OF m ascii_unseparated [OF canonical_uri_ascii [OF k(3)]]
      ascii_unseparated [OF revision_uri_ascii [OF k(4)]] this d [of "pm_content m"], of ty]
  have "envelope_errors sha (mw_write w) = []"
    unfolding w memory_write.simps
    by (rule envelope_read_back [where sha = sha, OF frontmatter_envelope [OF lines]])
      (rule frontmatter_checksum_last [OF lines d])
  then show "good_write sha prefix (mw_write w)"
    using object_key_rel [OF k(2) take_ascii [OF digest_ascii [OF d]] segment_ascii [OF k(1)]]
    by (simp add: good_write_def w)
qed

section \<open>The indexes\<close>

lemma dimension_ascii: "ascii (dimension_name d)" "47 \<notin> set (dimension_name d)"
  by (cases d; simp)+

lemma dual_index_good:
  assumes "plan_place i prefix" "appendDualIndex sha prefix i d value entries = Inr ws" "\<not> reserved value"
  shows "\<forall>w\<in>set ws. good_write sha prefix w"
proof -
  obtain seg where seg: "pathSegment value = Inr seg" and ws: "ws =
      [buildJsonIndexWrite sha (prefix @ index_rel (dimension_name d) seg (str ''.json'')) i d value entries,
       buildTextWrite sha (prefix @ index_rel (dimension_name d) seg (str ''.md'')) (buildMarkdownIndex i d value entries) TextMarkdown]"
    using assms(2) by (auto simp: appendDualIndex_def bind_res_Inr_iff Let_def index_rel_def)
  show ?thesis
    unfolding ws buildJsonIndexWrite_def by (auto simp: dimension_ascii intro!: index_write_good [OF assms(1) _ _ seg assms(3)])
qed

lemma status_index_good:
  assumes "plan_place i prefix" "status_index sha prefix i heads entries st = Inr w"
  shows "good_write sha prefix w"
proof -
  have w: "w = buildJsonIndexWrite sha (prefix @ index_rel (dimension_name ByStatus) (status_name st) (str ''.json'')) i ByStatus
      (status_name st) (entries_where (\<lambda>h. pm_status h = st) heads entries)"
    using assms(2) by (auto simp: status_index_def bind_res_Inr_iff index_rel_def)
  show ?thesis
    unfolding w buildJsonIndexWrite_def by (rule index_write_good [OF assms(1) _ _ name_segments(3)]) simp_all
qed

lemma taxonomy_good:
  assumes "plan_place i prefix" "appendTaxonomyIndexes sha prefix i heads entries = Inr ws"
  shows "\<forall>w\<in>set ws. good_write sha prefix w"
proof -
  obtain ks cs ss where
      ks: "map_res (\<lambda>k. appendDualIndex sha prefix i ByKind (kind_name k) (entries_where (\<lambda>h. pm_kind h = k) heads entries)) memory_kinds = Inr ks"
    and cs: "map_res (\<lambda>c. appendDualIndex sha prefix i ByClass (class_name c) (entries_where (\<lambda>h. pm_class h = c) heads entries)) memory_classes = Inr cs"
    and ss: "map_res (status_index sha prefix i heads entries) memory_statuses = Inr ss"
    and ws: "ws = concat ks @ concat cs @ ss"
    using assms(2) by (auto simp: appendTaxonomyIndexes_def bind_res_Inr_iff)
  have "good_write sha prefix w" if "x \<in> set ks" "w \<in> set x" for x w
    using map_res_source [OF ks that(1)] dual_index_good [OF assms(1)] that(2) by (metis names_not_reserved(1))
  moreover have "good_write sha prefix w" if "x \<in> set cs" "w \<in> set x" for x w
    using map_res_source [OF cs that(1)] dual_index_good [OF assms(1)] that(2) by (metis names_not_reserved(2))
  moreover have "good_write sha prefix w" if "w \<in> set ss" for w
    using map_res_source [OF ss that] status_index_good [OF assms(1)] by blast
  ultimately show ?thesis by (auto simp: ws)
qed

lemma scope_index_key:
  assumes "projectionPrefix pid snap = Inr prefix" "projectionScopeIndexKey pid snap s = Inr key"
  shows "\<exists>seg. pathSegment s = Inr seg \<and> key = prefix @ index_rel (str ''scope'') seg (str ''.json'')"
  using assms by (auto simp: projectionScopeIndexKey_Inr projectionPrefix_Inr scope_key_text_def prefix_text_def index_rel_def)

lemma scope_good:
  assumes "plan_place i prefix" "appendScopeIndexes sha i heads entries = Inr ws"
    "\<forall>h\<in>set heads. \<not> reserved (pm_scope_id h)"
  shows "\<forall>w\<in>set ws. good_write sha prefix w"
proof
  fix w assume "w \<in> set ws"
  then obtain s key where s: "s \<in> set (scope_ids heads)" "projectionScopeIndexKey (si_project i) (si_snapshot i) s = Inr key"
    and w: "w = buildJsonIndexWrite sha key i ByScope s (entries_where (\<lambda>h. pm_scope_id h = s) heads entries)"
    using assms(2) unfolding appendScopeIndexes_def by (auto simp: bind_res_Inr_iff dest!: map_res_source)
  obtain seg where seg: "pathSegment s = Inr seg" "key = prefix @ index_rel (str ''scope'') seg (str ''.json'')"
    using scope_index_key [OF _ s(2)] assms(1) by (auto simp: plan_place_def)
  have "\<not> reserved s" using s(1) assms(3) by (auto simp: scope_ids_def)
  then show "good_write sha prefix w"
    unfolding w seg(2) buildJsonIndexWrite_def by (intro index_write_good [OF assms(1) _ _ seg(1)]) simp_all
qed

lemma readme_good:
  assumes "plan_place i prefix"
  shows "good_write sha prefix (buildTextWrite sha (prefix @ str ''README.md'') body ty)"
  by (rule text_write_good [OF assms]) simp_all

end
