(* ===== verification/Projection_Plan.thy ===== *)
theory Projection_Plan
  imports Projection_Soundness
begin

text \<open>
  The plan as a whole: it passes its own validation, it holds exactly the writes the capacity gate
  counts, and it does not depend on the order in which the memories were read.
\<close>

section \<open>The parts of a plan\<close>

lemma plan_parts:
  assumes "buildProjectionSnapshotPlan sha i = Inr p"
  obtains prefix rws hws entries rentries readme tax scopes writes where
    "validateSnapshotInput i = Inr ()" "projectionPrefix (si_project i) (si_snapshot i) = Inr prefix"
    "map_res (buildProjectionObject sha) (sort_revisions (si_revisions i)) = Inr rws"
    "map_res (buildProjectionHeadObject sha) (sort_heads (si_heads i)) = Inr hws"
    "map_res (index_entry_for (zip (map pm_memory (sort_heads (si_heads i))) hws)
       (zip (map pm_revision (sort_revisions (si_revisions i))) rws)) (sort_heads (si_heads i)) = Inr entries"
    "map_res (revision_entry_for (zip (map pm_revision (sort_revisions (si_revisions i))) rws))
       (sort_revisions (si_revisions i)) = Inr rentries"
    "buildReadme i (length entries) (length rentries) = Inr readme"
    "appendTaxonomyIndexes sha prefix i (sort_heads (si_heads i)) entries = Inr tax"
    "appendScopeIndexes sha i (sort_heads (si_heads i)) entries = Inr scopes"
    "writes = sort_writes (map mw_write hws @ map mw_write rws @
       [buildTextWrite sha (prefix @ str ''README.md'') readme TextMarkdown] @ tax @ scopes)"
    "assertUniqueWriteKeys [] writes = Inr ()"
    "p = finish_plan sha i prefix entries rentries writes"
  using assms unfolding buildProjectionSnapshotPlan_def Let_def bind_res_Inr_iff
  by (elim exE conjE) (rule that, assumption | simp)+

section \<open>Keys\<close>

lemma assert_unique_iff:
  "assertUniqueWriteKeys seen ws = Inr () \<longleftrightarrow> distinct (map pw_key ws) \<and> set seen \<inter> pw_key ` set ws = {}"
  by (induction ws arbitrary: seen) auto

lemma strictly_sorted: "sorted (map utf16 ks) \<Longrightarrow> distinct (map utf16 ks) \<Longrightarrow> isStrictlySorted ks"
  by (induction ks rule: isStrictlySorted.induct) auto

lemma set_sort_writes [simp]: "set (sort_writes ws) = set ws"
  by (simp add: sort_writes_def)

lemma distinct_sort_key: "distinct (map f (sort_key g xs)) \<longleftrightarrow> distinct (map f xs)"
  by (metis distinct_map distinct_sort set_sort)

lemma plan_place_ascii: "plan_place i prefix \<Longrightarrow> ascii prefix"
  by (auto simp: plan_place_def projectionPrefix_Inr prefix_text_def dest!: segment_ascii)

lemma manifest_write_good:
  assumes "plan_place i prefix"
  shows "\<not> memory_object (buildTextWrite sha (prefix @ str ''manifest.json'') body ty)"
  by (rule plain_key [OF assms, of _ "str ''manifest.json''"]) (simp_all add: buildTextWrite_def)

text \<open>What the keys and checksums of a plan need, for any list of good writes with distinct keys.\<close>

lemma finished_plan:
  assumes place: "plan_place i prefix" and good: "\<forall>w\<in>set writes. good_write sha prefix w"
    and sorted: "writes = sort_writes ws" and uniq: "assertUniqueWriteKeys [] writes = Inr ()"
    and p: "p = finish_plan sha i prefix entries rentries writes"
  defines "manifest \<equiv> buildTextWrite sha (prefix @ str ''manifest.json'')
     (stableJson (manifest_json i entries rentries writes)) ApplicationJson"
  shows "plan_errors sha prefix p = []"
    and "find (\<lambda>w. pw_key w = prefix @ str ''manifest.json'') (sp_writes p) = Some manifest"
    and "filter (\<lambda>w. pw_key w \<noteq> sp_manifest_key p) (sp_writes p) = writes"
    and "set (sp_writes p) = insert manifest (set writes)"
    and "validateMemoryObjectChecksums sha (sp_writes p) = []"
proof -
  let ?mk = "prefix @ str ''manifest.json''"
  have sp: "sp_writes p = sort_writes (writes @ [manifest])" "sp_manifest_key p = ?mk" "sp_prefix p = prefix"
    by (simp_all add: p finish_plan_def manifest_def buildTextWrite_def Let_def)
  have m: "pw_key manifest = ?mk" "pw_sha manifest = sha (pw_body manifest)"
    by (simp_all add: manifest_def buildTextWrite_def)
  show set: "set (sp_writes p) = insert manifest (set writes)" by (simp add: sp)
  have other: "pw_key w \<noteq> ?mk" if "w \<in> set writes" for w
    using good that by (fastforce simp: good_write_def)
  have asc: "ascii (pw_key w)" if w: "w \<in> set (sp_writes p)" for w
  proof (cases "w = manifest")
    case True
    then show ?thesis using plan_place_ascii [OF place] by (simp add: m)
  next
    case False
    with w have "w \<in> set writes" unfolding set by simp
    with good obtain rel where "pw_key w = prefix @ rel" "ascii rel" unfolding good_write_def by blast
    then show ?thesis using plan_place_ascii [OF place] by simp
  qed
  have "?mk \<notin> pw_key ` set writes"
  proof
    assume "?mk \<in> pw_key ` set writes"
    then obtain w where "w \<in> set writes" "pw_key w = ?mk" by (elim imageE) simp
    with other show False by simp
  qed
  then have dist: "distinct (map pw_key (sp_writes p))"
    using uniq unfolding sp(1) sort_writes_def distinct_sort_key
    by (simp add: assert_unique_iff m del: str_eval)
  have "map utf16 (map pw_key (sp_writes p)) = map pw_key (sp_writes p)"
    using asc by (simp add: ascii_utf16)
  moreover have "sorted (map utf16 (map pw_key (sp_writes p)))"
    unfolding sp(1) sort_writes_def map_map comp_def by (rule sorted_sort_key)
  ultimately have "isStrictlySorted (map pw_key (sp_writes p))"
    using dist by (metis strictly_sorted)
  moreover have "write_errors sha prefix w = []" if "w \<in> set (sp_writes p)" for w
  proof (cases "w = manifest")
    case True
    then show ?thesis by (simp add: write_errors_def m del: str_eval)
  next
    case False
    with that have "w \<in> set writes" unfolding set by simp
    with good have "good_write sha prefix w" by blast
    then show ?thesis by (auto simp: write_errors_def good_write_def)
  qed
  ultimately show "plan_errors sha prefix p = []"
    using dist by (simp add: plan_errors_def complain_def sp js_unique_distinct)
  have "filter (\<lambda>w. pw_key w \<noteq> ?mk) (sp_writes p) = sort_writes (filter (\<lambda>w. pw_key w \<noteq> ?mk) (writes @ [manifest]))"
    unfolding sp(1) sort_writes_def by (rule filter_sort)
  also have "filter (\<lambda>w. pw_key w \<noteq> ?mk) (writes @ [manifest]) = writes"
    using other by (simp add: m filter_id_conv)
  also have "sort_writes writes = writes" by (simp add: sorted sort_writes_def sort_key_id_if_sorted)
  finally show "filter (\<lambda>w. pw_key w \<noteq> sp_manifest_key p) (sp_writes p) = writes" by (simp add: sp)
  obtain w where w: "find (\<lambda>w. pw_key w = ?mk) (sp_writes p) = Some w"
    using set m by (cases "find (\<lambda>w. pw_key w = ?mk) (sp_writes p)") (auto simp: find_None_iff)
  then have "w \<in> set (sp_writes p)" "pw_key w = ?mk" by (auto simp: find_Some_iff)
  with other have "w = manifest" unfolding set by auto
  with w show "find (\<lambda>w. pw_key w = ?mk) (sp_writes p) = Some manifest" by simp
  have "envelope_errors sha w = []" if "w \<in> set (sp_writes p)" "memory_object w" for w
    using that good manifest_write_good [OF place] unfolding set manifest_def by (auto simp: good_write_def)
  then show "validateMemoryObjectChecksums sha (sp_writes p) = []"
    by (simp add: validateMemoryObjectChecksums_def)
qed

section \<open>The input that was checked\<close>

lemma check_all_iff: "check_all f xs = Inr () \<longleftrightarrow> (\<forall>x\<in>set xs. f x = Inr ())"
  by (induction xs) (auto simp: bind_res_Inr_iff)

lemma check_heads_iff:
  "check_heads i seen hs = Inr () \<longleftrightarrow> (\<forall>h\<in>set hs. validateMemoryForSnapshot i h = Inr ()) \<and>
     distinct (map pm_memory hs) \<and> set seen \<inter> pm_memory ` set hs = {}"
  by (induction hs arbitrary: seen) (auto simp: bind_res_Inr_iff)

lemma check_revisions_Inr:
  "check_revisions i ids keys rs = Inr () \<Longrightarrow> (\<forall>r\<in>set rs. validateMemoryForSnapshot i r = Inr ()) \<and>
     distinct (map pm_revision rs) \<and> set ids \<inter> pm_revision ` set rs = {} \<and>
     (\<forall>r\<in>set rs. \<exists>h\<in>set (si_heads i). pm_memory h = pm_memory r \<and> pm_revision h = pm_revision r)"
proof (induction rs arbitrary: ids keys)
  case (Cons r rs)
  obtain h where h: "canonical_head (si_heads i) (pm_memory r) = Some h" "pm_revision r = pm_revision h"
    and v: "validateMemoryForSnapshot i r = Inr ()" and new: "pm_revision r \<notin> set ids"
    and rest: "check_revisions i (pm_revision r # ids) (version_key r # keys) rs = Inr ()"
    using Cons.prems by (auto simp: bind_res_Inr_iff split: if_splits option.splits)
  have "h \<in> set (si_heads i)" "pm_memory h = pm_memory r"
    using h(1) by (auto simp: canonical_head_def find_Some_iff)
  with Cons.IH [OF rest] h(2) v new show ?case by auto
qed simp

lemma same_memory:
  assumes "sameProjectionMemory l r = Inr True"
  shows "l\<lparr>pm_evidence := pm_evidence r\<rparr> = r"
  using assms by (cases l; cases r) (auto simp: sameProjectionMemory_def normalizedMemory_def bind_res_Inr_iff)

lemma check_matching_Inr:
  assumes "check_matching i h = Inr ()"
  shows "\<exists>r\<in>set (si_revisions i). h\<lparr>pm_evidence := pm_evidence r\<rparr> = r"
  using assms same_memory by (fastforce simp: check_matching_def bind_res_Inr_iff find_Some_iff split: option.splits)

lemma valid_memory:
  assumes "validateMemoryForSnapshot i m = Inr ()"
  shows "pm_project m = si_project i" "pm_snapshot m = si_snapshot i"
  using assms by (auto simp: validateMemoryForSnapshot_def validateProjectionMemory_def bind_res_Inr_iff)

lemma valid_input:
  assumes "validateSnapshotInput i = Inr ()"
  shows "\<forall>m\<in>set (si_heads i) \<union> set (si_revisions i). validateMemoryForSnapshot i m = Inr ()"
    "distinct (map pm_memory (si_heads i))" "distinct (map pm_revision (si_revisions i))"
    "length (si_revisions i) = length (si_heads i)"
    "\<forall>h\<in>set (si_heads i). \<exists>r\<in>set (si_revisions i). h\<lparr>pm_evidence := pm_evidence r\<rparr> = r"
  using assms check_matching_Inr [of i] check_revisions_Inr [of i "[]" "[]" "si_revisions i"]
  by (auto simp: validateSnapshotInput_def bind_res_Inr_iff check_all_iff check_heads_iff)

section \<open>The manifest\<close>

lemma index_fields:
  "text_field (index_json e) ''memory_id'' = Some (ix_memory e)"
  "text_field (index_json e) ''revision_id'' = Some (ix_revision e)"
  "text_field (index_json e) ''scope_id'' = Some (ix_scope_id e)"
  "text_field (index_json e) ''object_key'' = Some (ix_object_key e)"
  "text_field (index_json e) ''revision_key'' = Some (ix_revision_key e)"
  "field (index_json e) ''memory_id'' = Some (JStr (ix_memory e))"
  "field (index_json e) ''revision_id'' = Some (JStr (ix_revision e))"
  "field (index_json e) ''revision_key'' = Some (JStr (ix_revision_key e))"
  "isRecord (index_json e)"
  by (simp_all add: text_field_def field_def index_json_def isRecord_def)

lemma revision_fields:
  "text_field (revision_json e) ''revision_id'' = Some (re_revision e)"
  "text_field (revision_json e) ''revision_key'' = Some (re_revision_key e)"
  "field (revision_json e) ''memory_id'' = Some (JStr (re_memory e))"
  "field (revision_json e) ''revision_id'' = Some (JStr (re_revision e))"
  "field (revision_json e) ''revision_key'' = Some (JStr (re_revision_key e))"
  "isRecord (revision_json e)"
  by (simp_all add: text_field_def field_def revision_json_def isRecord_def)

lemma manifest_fields:
  "field (manifest_json i es rs ws) ''schema_version'' = Some (JNum 1)"
  "field (manifest_json i es rs ws) ''project_id'' = Some (JStr (si_project i))"
  "field (manifest_json i es rs ws) ''project_version'' = Some (JNum (si_version i))"
  "field (manifest_json i es rs ws) ''snapshot_id'' = Some (JStr (si_snapshot i))"
  "field (manifest_json i es rs ws) ''memories'' = Some (JArr (map index_json es))"
  "field (manifest_json i es rs ws) ''revisions'' = Some (JArr (map revision_json rs))"
  "field (manifest_json i es rs ws) ''files'' = Some (JArr (map toManifestFile ws))"
  by (simp_all add: field_def manifest_json_def)

definition index_texts :: "index_entry \<Rightarrow> ustring list" where
  "index_texts e = [ix_memory e, ix_revision e, ix_scope_id e, ix_canonical_uri e, ix_revision_uri e, ix_object_key e,
     ix_revision_key e, ix_content_sha e, ix_object_sha e, ix_revision_sha e] @ somes [ix_from e, ix_until e]"

definition revision_texts :: "revision_entry \<Rightarrow> ustring list" where
  "revision_texts e = [re_memory e, re_revision e, re_revision_uri e, re_revision_key e, re_content_sha e,
     re_revision_sha e] @ somes [re_from e, re_until e]"

lemma json_opt_ok: "json_ok (json_opt v) \<longleftrightarrow> (case v of None \<Rightarrow> True | Some t \<Rightarrow> js_text t)"
  by (simp add: json_opt_def split: option.split)

lemma names_js_text [simp]:
  "js_text (kind_name k)" "js_text (class_name c)" "js_text (scope_name s)" "js_text (status_name t)"
proof -
  show "js_text (kind_name k)" by (rule ascii_js_text) (cases k; simp)
  show "js_text (class_name c)" by (rule ascii_js_text) (cases c; simp)
  show "js_text (scope_name s)" by (rule ascii_js_text) (cases s; simp)
  show "js_text (status_name t)" by (rule ascii_js_text) (cases t; simp)
qed

lemma str_js_text: "list_all (\<lambda>c. (of_char c :: nat) < 128) s \<Longrightarrow> js_text (str s)"
  by (rule ascii_js_text) (auto simp: ascii_def str_def list_all_iff)

lemma index_json_ok: "list_all js_text (index_texts e) \<Longrightarrow> json_ok (index_json e)"
  by (cases "ix_from e"; cases "ix_until e")
    (simp_all add: index_json_def index_texts_def json_opt_def high_surrogate_def)

lemma revision_json_ok: "list_all js_text (revision_texts e) \<Longrightarrow> json_ok (revision_json e)"
  by (cases "re_from e"; cases "re_until e")
    (simp_all add: revision_json_def revision_texts_def json_opt_def high_surrogate_def)

lemma file_json_ok:
  "ascii (pw_key w) \<Longrightarrow> ascii (pw_sha w) \<Longrightarrow> json_ok (toManifestFile w)"
  by (cases "pw_type w") (simp_all add: toManifestFile_def ascii_js_text high_surrogate_def)

lemma manifest_json_ok:
  assumes "js_text (si_project i)" "js_text (si_snapshot i)"
    "\<forall>e\<in>set es. json_ok (index_json e)" "\<forall>r\<in>set rs. json_ok (revision_json r)" "\<forall>w\<in>set ws. json_ok (toManifestFile w)"
  shows "json_ok (manifest_json i es rs ws)"
  using assms by (simp add: manifest_json_def list_all_iff high_surrogate_def)

lemma memory_references_ok:
  assumes "\<forall>e\<in>set es. ix_object_key e \<in> set keys \<and> ix_revision_key e \<in> set keys \<and> list_ex (matching_revision (index_json e)) rs"
    "distinct (map ix_memory es)" "set seen \<inter> ix_memory ` set es = {}"
  shows "memory_reference_errors keys rs seen (map index_json es) = []"
  using assms by (induction es arbitrary: seen) (auto simp: index_fields has_key_def complain_def)

lemma revision_references_ok:
  assumes "\<forall>e\<in>set es. re_revision_key e \<in> set keys" "distinct (map re_revision es)" "set seen \<inter> re_revision ` set es = {}"
  shows "revision_reference_errors keys seen (map revision_json es) = []"
  using assms by (induction es arbitrary: seen) (auto simp: revision_fields has_key_def complain_def)

section \<open>The entries of the manifest\<close>

lemma required_value_in: "requiredMapValue (zip ks vs) k l = Inr v \<Longrightarrow> v \<in> set vs"
  by (auto simp: requiredMapValue_def zip_rev [symmetric] split: option.splits dest!: map_of_SomeD set_zip_rightD)

lemma map_res_map_eq: "map_res f xs = Inr ys \<Longrightarrow> (\<And>x y. f x = Inr y \<Longrightarrow> h y = g x) \<Longrightarrow> map h ys = map g xs"
  by (induction xs arbitrary: ys) (auto simp: bind_res_Inr_iff)

lemma map_res_member: "map_res f xs = Inr ys \<Longrightarrow> x \<in> set xs \<Longrightarrow> \<exists>y\<in>set ys. f x = Inr y"
  by (induction xs arbitrary: ys) (auto simp: bind_res_Inr_iff)

lemma index_entry_Inr:
  assumes "index_entry_for hm rm h = Inr e"
  obtains hw rw uri ruri where "requiredMapValue hm (pm_memory h) ''head write'' = Inr hw"
    "requiredMapValue rm (pm_revision h) ''revision write'' = Inr rw"
    "canonicalMemoryUri (pm_project h) (pm_memory h) = Inr uri"
    "revisionMemoryUri (pm_project h) (pm_memory h) (pm_version h) = Inr ruri"
    "e = \<lparr>ix_memory = pm_memory h, ix_revision = pm_revision h, ix_version = pm_version h,
         ix_kind = pm_kind h, ix_class = pm_class h, ix_scope = pm_scope h, ix_scope_id = pm_scope_id h,
         ix_status = pm_status h, ix_from = pm_from h, ix_until = pm_until h, ix_canonical_uri = uri,
         ix_revision_uri = ruri, ix_object_key = pw_key (mw_write hw), ix_revision_key = pw_key (mw_write rw),
         ix_content_sha = mw_content_sha hw, ix_object_sha = pw_sha (mw_write hw),
         ix_revision_sha = pw_sha (mw_write rw)\<rparr>"
  using assms by (auto simp: index_entry_for_def buildIndexEntry_def bind_res_Inr_iff)

lemma revision_entry_Inr:
  assumes "revision_entry_for rm r = Inr e"
  obtains rw ruri where "requiredMapValue rm (pm_revision r) ''revision write'' = Inr rw"
    "revisionMemoryUri (pm_project r) (pm_memory r) (pm_version r) = Inr ruri"
    "e = \<lparr>re_memory = pm_memory r, re_revision = pm_revision r, re_version = pm_version r,
         re_from = pm_from r, re_until = pm_until r, re_revision_uri = ruri,
         re_revision_key = pw_key (mw_write rw), re_content_sha = mw_content_sha rw,
         re_revision_sha = pw_sha (mw_write rw)\<rparr>"
  using assms by (auto simp: revision_entry_for_def buildRevisionEntry_def bind_res_Inr_iff)

lemma entries_match:
  assumes "index_entry_for hm rm h = Inr e" "r \<in> set rs" "h\<lparr>pm_evidence := pm_evidence r\<rparr> = r"
    "map_res (revision_entry_for rm) rs = Inr res"
  shows "list_ex (matching_revision (index_json e)) (map revision_json res)"
proof -
  have m: "pm_memory r = pm_memory h" "pm_revision r = pm_revision h"
    using arg_cong [OF assms(3), of pm_memory] arg_cong [OF assms(3), of pm_revision] by simp_all
  obtain q where q: "q \<in> set res" "revision_entry_for rm r = Inr q"
    using map_res_member [OF assms(4,2)] by blast
  have "matching_revision (index_json e) (revision_json q)"
    using assms(1) q(2) m
    by (elim index_entry_Inr revision_entry_Inr) (simp add: matching_revision_def index_fields revision_fields)
  with q(1) show ?thesis by (auto simp: list_ex_iff)
qed

lemma segment_js_text: "pathSegment v = Inr k \<Longrightarrow> js_text v"
  by (auto simp: pathSegment_Inr encodeURIComponent_def intro!: scalar_js_text split: if_splits)

lemma canonical_uri_js_text: "canonicalMemoryUri p m = Inr u \<Longrightarrow> js_text m"
  by (auto simp: canonicalMemoryUri_def bind_res_Inr_iff dest: segment_js_text)

lemma revision_uri_js_text: "revisionMemoryUri p m v = Inr u \<Longrightarrow> js_text m"
  by (auto simp: revisionMemoryUri_def bind_res_Inr_iff dest: canonical_uri_js_text)

definition good_memory_write :: "(ustring \<Rightarrow> ustring) \<Rightarrow> ustring \<Rightarrow> memory_write \<Rightarrow> bool" where
  "good_memory_write sha prefix w \<longleftrightarrow> good_write sha prefix (mw_write w) \<and> digest_text (mw_content_sha w)"

lemma good_write_texts:
  assumes "good_memory_write sha prefix w" "ascii prefix" "sha_digests sha"
  shows "js_text (pw_key (mw_write w))" "js_text (pw_sha (mw_write w))" "js_text (mw_content_sha w)"
proof -
  obtain rel where "pw_key (mw_write w) = prefix @ rel" "ascii rel"
    using assms(1) unfolding good_memory_write_def good_write_def by blast
  with assms(2) show "js_text (pw_key (mw_write w))" by (simp add: ascii_js_text)
  show "js_text (pw_sha (mw_write w))" "js_text (mw_content_sha w)"
    using assms(1,3) by (simp_all add: good_memory_write_def good_write_def sha_digests_def digest_ascii ascii_js_text)
qed

definition plain_memory :: "projection_memory \<Rightarrow> bool" where
  "plain_memory m \<longleftrightarrow> printable m \<and> \<not> reserved (pm_scope_id m) \<and> list_all js_text (somes [pm_from m, pm_until m])"

lemma index_entry_ok:
  assumes e: "index_entry_for (zip ks hws) (zip ls rws) h = Inr e" and prefix: "ascii prefix" "sha_digests sha"
    and ws: "\<forall>w\<in>set hws \<union> set rws. good_memory_write sha prefix w"
    and h: "plain_memory h" "js_text (pm_revision h)" "js_text (pm_scope_id h)"
  shows "json_ok (index_json e)"
    "ix_object_key e \<in> pw_key ` mw_write ` set hws" "ix_revision_key e \<in> pw_key ` mw_write ` set rws"
proof -
  obtain hw rw uri ruri where a: "hw \<in> set hws" "rw \<in> set rws"
    "canonicalMemoryUri (pm_project h) (pm_memory h) = Inr uri"
    "revisionMemoryUri (pm_project h) (pm_memory h) (pm_version h) = Inr ruri"
    and e: "e = \<lparr>ix_memory = pm_memory h, ix_revision = pm_revision h, ix_version = pm_version h,
         ix_kind = pm_kind h, ix_class = pm_class h, ix_scope = pm_scope h, ix_scope_id = pm_scope_id h,
         ix_status = pm_status h, ix_from = pm_from h, ix_until = pm_until h, ix_canonical_uri = uri,
         ix_revision_uri = ruri, ix_object_key = pw_key (mw_write hw), ix_revision_key = pw_key (mw_write rw),
         ix_content_sha = mw_content_sha hw, ix_object_sha = pw_sha (mw_write hw),
         ix_revision_sha = pw_sha (mw_write rw)\<rparr>"
    using e by (elim index_entry_Inr) (blast dest: required_value_in)
  note t = good_write_texts [OF _ prefix, of hw] good_write_texts [OF _ prefix, of rw]
  have "js_text uri" "js_text ruri" "js_text (pm_memory h)"
    using a canonical_uri_ascii revision_uri_ascii canonical_uri_js_text by (auto intro: ascii_js_text)
  then have "list_all js_text (index_texts e)"
    using h t ws a(1,2) by (simp add: index_texts_def e plain_memory_def)
  then show "json_ok (index_json e)" by (rule index_json_ok)
  show "ix_object_key e \<in> pw_key ` mw_write ` set hws" "ix_revision_key e \<in> pw_key ` mw_write ` set rws"
    using a by (simp_all add: e)
qed

lemma revision_entry_ok:
  assumes e: "revision_entry_for (zip ls rws) r = Inr e" and prefix: "ascii prefix" "sha_digests sha"
    and ws: "\<forall>w\<in>set rws. good_memory_write sha prefix w"
    and r: "plain_memory r" "js_text (pm_revision r)"
  shows "json_ok (revision_json e)" "re_revision_key e \<in> pw_key ` mw_write ` set rws"
proof -
  obtain rw ruri where a: "rw \<in> set rws" "revisionMemoryUri (pm_project r) (pm_memory r) (pm_version r) = Inr ruri"
    and e: "e = \<lparr>re_memory = pm_memory r, re_revision = pm_revision r, re_version = pm_version r,
         re_from = pm_from r, re_until = pm_until r, re_revision_uri = ruri,
         re_revision_key = pw_key (mw_write rw), re_content_sha = mw_content_sha rw,
         re_revision_sha = pw_sha (mw_write rw)\<rparr>"
    using e by (elim revision_entry_Inr) (blast dest: required_value_in)
  note t = good_write_texts [OF _ prefix, of rw]
  have "js_text ruri" "js_text (pm_memory r)"
    using a revision_uri_ascii revision_uri_js_text by (auto intro: ascii_js_text)
  then have "list_all js_text (revision_texts e)"
    using r t ws a(1) by (simp add: revision_texts_def e plain_memory_def)
  then show "json_ok (revision_json e)" by (rule revision_json_ok)
  show "re_revision_key e \<in> pw_key ` mw_write ` set rws" using a by (simp add: e)
qed

section \<open>The required indexes are there\<close>

lemma map_res_all: "(\<And>x. f x = Inr (g x)) \<Longrightarrow> map_res f xs = Inr (map g xs)"
  by (induction xs) simp_all

lemma map_res_transfer:
  "map_res f xs = Inr ys \<Longrightarrow> (\<And>x y. f x = Inr y \<Longrightarrow> g x = Inr (h y)) \<Longrightarrow> map_res g xs = Inr (map h ys)"
  by (induction xs arbitrary: ys) (fastforce simp: bind_res_Inr_iff)+

lemma dual_index_keys:
  "appendDualIndex sha prefix i d v es = Inr ws \<Longrightarrow> dimension_name d = str dim \<Longrightarrow> dual_keys prefix dim v = Inr (map pw_key ws)"
  by (auto simp: appendDualIndex_def dual_keys_def bind_res_Inr_iff Let_def buildJsonIndexWrite_def buildTextWrite_def)

lemma status_index_key: "status_index sha prefix i hs es st = Inr w \<Longrightarrow> status_key prefix st = Inr (pw_key w)"
  by (auto simp: status_index_def status_key_def bind_res_Inr_iff buildJsonIndexWrite_def buildTextWrite_def)

lemma taxonomy_keys_written:
  assumes "appendTaxonomyIndexes sha prefix i heads entries = Inr ws"
  shows "taxonomy_keys prefix = Inr (map pw_key ws)"
proof -
  obtain ks cs ss where
      ks: "map_res (\<lambda>k. appendDualIndex sha prefix i ByKind (kind_name k) (entries_where (\<lambda>h. pm_kind h = k) heads entries)) memory_kinds = Inr ks"
    and cs: "map_res (\<lambda>c. appendDualIndex sha prefix i ByClass (class_name c) (entries_where (\<lambda>h. pm_class h = c) heads entries)) memory_classes = Inr cs"
    and ss: "map_res (status_index sha prefix i heads entries) memory_statuses = Inr ss"
    and ws: "ws = concat ks @ concat cs @ ss"
    using assms by (auto simp: appendTaxonomyIndexes_def bind_res_Inr_iff)
  have "map_res (\<lambda>k. dual_keys prefix ''kind'' (kind_name k)) memory_kinds = Inr (map (map pw_key) ks)"
    by (rule map_res_transfer [OF ks]) (erule dual_index_keys, simp)
  moreover have "map_res (\<lambda>c. dual_keys prefix ''class'' (class_name c)) memory_classes = Inr (map (map pw_key) cs)"
    by (rule map_res_transfer [OF cs]) (erule dual_index_keys, simp)
  moreover have "map_res (status_key prefix) memory_statuses = Inr (map pw_key ss)"
    by (rule map_res_transfer [OF ss]) (erule status_index_key)
  ultimately show ?thesis by (simp add: taxonomy_keys_def ws map_concat)
qed

lemma scope_keys_all:
  "map_res (projectionScopeIndexKey (sp_project p) (sp_snapshot p)) sids = Inr ks \<Longrightarrow>
     scope_key_errors p sids = [] \<and> scope_keys p sids = ks"
  by (induction sids arbitrary: ks) (auto simp: scope_key_errors_def scope_keys_def bind_res_Inr_iff)

lemma scope_keys_written:
  assumes "appendScopeIndexes sha i heads entries = Inr ws" "sp_project p = si_project i" "sp_snapshot p = si_snapshot i"
  shows "scope_key_errors p (scope_ids heads) = []" "scope_keys p (scope_ids heads) = map pw_key ws"
proof -
  have "map_res (\<lambda>s. projectionScopeIndexKey (sp_project p) (sp_snapshot p) s) (scope_ids heads) = Inr (map pw_key ws)"
    using assms(1) unfolding appendScopeIndexes_def
    by (rule map_res_transfer) (auto simp: assms(2,3) bind_res_Inr_iff buildJsonIndexWrite_def buildTextWrite_def)
  from scope_keys_all [OF this]
  show "scope_key_errors p (scope_ids heads) = []" "scope_keys p (scope_ids heads) = map pw_key ws" by simp_all
qed

lemma somes_scopes: "somes (map (\<lambda>m. text_field m ''scope_id'') (map index_json es)) = map ix_scope_id es"
  by (induction es) (simp_all add: index_fields)

lemma manifest_scopes_heads:
  "map ix_scope_id entries = map pm_scope_id heads \<Longrightarrow>
     manifest_scopes (Some (JArr (map index_json entries))) = scope_ids heads"
  by (simp add: manifest_scopes_def array_entries_def somes_scopes scope_ids_def del: map_map)

lemma manifest_without_errors:
  assumes p: "sp_project p = si_project i" "sp_version p = si_version i" "sp_snapshot p = si_snapshot i" "sp_prefix p = prefix"
    and files: "filter (\<lambda>w. pw_key w \<noteq> sp_manifest_key p) (sp_writes p) = writes"
    and readme: "prefix @ str ''README.md'' \<in> pw_key ` set (sp_writes p)"
    and tax: "appendTaxonomyIndexes sha prefix i heads entries = Inr tax" "set tax \<subseteq> set (sp_writes p)"
    and scopes: "appendScopeIndexes sha i heads entries = Inr scopes" "set scopes \<subseteq> set (sp_writes p)"
    and ids: "map ix_scope_id entries = map pm_scope_id heads"
    and refs: "validateManifestReferences (map pw_key (sp_writes p)) (Some (JArr (map index_json entries)))
       (Some (JArr (map revision_json rentries))) = []"
  shows "manifest_errors p (manifest_json i entries rentries writes) = Inr []"
proof -
  note sk = scope_keys_written [OF scopes(1) p(1,3)]
  have "validateRequiredIndexes p (Some (JArr (map index_json entries))) = Inr []"
    using tax(2) scopes(2) taxonomy_keys_written [OF tax(1)]
    by (auto simp: validateRequiredIndexes_def p manifest_scopes_heads [OF ids] sk filter_empty_conv)
  moreover have "list_ex (\<lambda>w. pw_key w = prefix @ str ''README.md'') (sp_writes p)"
    using readme by (auto simp: list_ex_iff)
  ultimately show ?thesis
    using refs by (simp add: manifest_errors_def Let_def manifest_fields complain_def p is_array_def
        expected_files_def files del: str_eval)
qed

section \<open>A built plan is valid\<close>

definition renderable :: "snapshot_input \<Rightarrow> bool" where
  "renderable i \<longleftrightarrow> \<not> reserved (si_project i) \<and> \<not> reserved (si_snapshot i) \<and>
     list_all plain_memory (si_heads i @ si_revisions i)"

lemma sort_sets [simp]: "set (sort_heads hs) = set hs" "set (sort_revisions rs) = set rs"
  by (simp_all add: sort_heads_def sort_revisions_def)

lemma sorted_distinct:
  "distinct (map pm_memory hs) \<Longrightarrow> distinct (map pm_memory (sort_heads hs))"
  "distinct (map pm_revision rs) \<Longrightarrow> distinct (map pm_revision (sort_revisions rs))"
  by (simp_all add: sort_heads_def sort_revisions_def distinct_sort_key)

lemma memory_writes_good:
  assumes "map_res (buildMemoryObject sha ty) ms = Inr ws" "sha_digests sha"
    "projectionPrefix (si_project i) (si_snapshot i) = Inr prefix"
    "\<forall>m\<in>set ms. plain_memory m \<and> validateMemoryForSnapshot i m = Inr ()"
  shows "\<forall>w\<in>set ws. good_memory_write sha prefix w"
proof
  fix w assume "w \<in> set ws"
  then obtain m where m: "m \<in> set ms" "buildMemoryObject sha ty m = Inr w" using map_res_source [OF assms(1)] by blast
  then have "printable m" "projectionPrefix (pm_project m) (pm_snapshot m) = Inr prefix"
    using assms(3,4) valid_memory(1,2) [of i m] by (auto simp: plain_memory_def)
  from memory_object_good [OF m(2) assms(2) this] assms(2) show "good_memory_write sha prefix w"
    by (simp add: good_memory_write_def sha_digests_def)
qed

lemma revision_id_js_text:
  "map_res (buildProjectionObject sha) rs = Inr ws \<Longrightarrow> r \<in> set rs \<Longrightarrow> js_text (pm_revision r)"
  by (drule (1) map_res_member)
    (auto simp: buildProjectionObject_def buildMemoryObject_def object_key_def bind_res_Inr_iff dest: segment_js_text)

lemma scope_id_js_text:
  "appendScopeIndexes sha i hs es = Inr ws \<Longrightarrow> h \<in> set hs \<Longrightarrow> js_text (pm_scope_id h)"
  unfolding appendScopeIndexes_def
  by (drule map_res_member [where x = "pm_scope_id h"])
    (auto simp: scope_ids_def bind_res_Inr_iff projectionScopeIndexKey_Inr dest: segment_js_text)

lemma validated_plan:
  assumes "plan_errors sha prefix p = []" "projectionPrefix (sp_project p) (sp_snapshot p) = Inr prefix"
    "find (\<lambda>w. pw_key w = prefix @ str ''manifest.json'') (sp_writes p) = Some w"
    "pw_body w = stableJson (JObj es)" "json_ok (JObj es)" "manifest_errors p (JObj es) = Inr []"
    "sp_manifest_sha p = pw_sha w" "validateMemoryObjectChecksums sha (sp_writes p) = []"
  shows "validateProjectionSnapshotPlan sha p = Inr (True, [])"
  using assms stable_json_roundtrip [OF assms(5)]
  by (simp add: validateProjectionSnapshotPlan_def validateManifest_def complain_def finishValidation_def del: str_eval)

text \<open>The heads and revisions of a plan, their writes and entries.\<close>

lemma plan_entries:
  assumes valid: "validateSnapshotInput i = Inr ()" and prefix: "projectionPrefix (si_project i) (si_snapshot i) = Inr prefix"
    and rws: "map_res (buildProjectionObject sha) (sort_revisions (si_revisions i)) = Inr rws"
    and hws: "map_res (buildProjectionHeadObject sha) (sort_heads (si_heads i)) = Inr hws"
    and entries: "map_res (index_entry_for (zip (map pm_memory (sort_heads (si_heads i))) hws)
       (zip (map pm_revision (sort_revisions (si_revisions i))) rws)) (sort_heads (si_heads i)) = Inr entries"
    and rentries: "map_res (revision_entry_for (zip (map pm_revision (sort_revisions (si_revisions i))) rws))
       (sort_revisions (si_revisions i)) = Inr rentries"
    and scopes: "appendScopeIndexes sha i (sort_heads (si_heads i)) entries = Inr scopes"
    and sha: "sha_digests sha" and ok: "renderable i"
    and keys: "pw_key ` mw_write ` (set hws \<union> set rws) \<subseteq> set keys"
  shows "\<forall>w\<in>set hws \<union> set rws. good_memory_write sha prefix w"
    "validateManifestReferences keys (Some (JArr (map index_json entries))) (Some (JArr (map revision_json rentries))) = []"
    "\<forall>e\<in>set entries. json_ok (index_json e)" "\<forall>r\<in>set rentries. json_ok (revision_json r)"
    "map ix_scope_id entries = map pm_scope_id (sort_heads (si_heads i))"
proof -
  note v = valid_input [OF valid]
  have plain: "plain_memory m" "validateMemoryForSnapshot i m = Inr ()" if "m \<in> set (si_heads i) \<union> set (si_revisions i)" for m
    using that ok v(1) by (auto simp: renderable_def list_all_iff)
  have asc: "ascii prefix"
    using prefix by (auto simp: projectionPrefix_Inr prefix_text_def dest!: segment_ascii)
  have "\<forall>w\<in>set hws. good_memory_write sha prefix w"
    by (rule memory_writes_good [OF hws [unfolded buildProjectionHeadObject_def] sha prefix]) (use plain in auto)
  moreover have "\<forall>w\<in>set rws. good_memory_write sha prefix w"
    by (rule memory_writes_good [OF rws [unfolded buildProjectionObject_def] sha prefix]) (use plain in auto)
  ultimately show good: "\<forall>w\<in>set hws \<union> set rws. good_memory_write sha prefix w" by blast
  have rev: "js_text (pm_revision r)" if "r \<in> set (si_revisions i)" for r
    using revision_id_js_text [OF rws] that by simp
  have head: "\<exists>r\<in>set (si_revisions i). h\<lparr>pm_evidence := pm_evidence r\<rparr> = r \<and> pm_revision h = pm_revision r"
    if h: "h \<in> set (si_heads i)" for h
  proof -
    obtain r where r: "r \<in> set (si_revisions i)" "h\<lparr>pm_evidence := pm_evidence r\<rparr> = r" using v(5) h by blast
    from arg_cong [OF r(2), of pm_revision] have "pm_revision h = pm_revision r" by simp
    with r show ?thesis by blast
  qed
  have e: "json_ok (index_json e) \<and> ix_object_key e \<in> set keys \<and> ix_revision_key e \<in> set keys \<and>
      list_ex (matching_revision (index_json e)) (map revision_json rentries)" if ent: "e \<in> set entries" for e
  proof -
    obtain h where h: "h \<in> set (si_heads i)" "index_entry_for (zip (map pm_memory (sort_heads (si_heads i))) hws)
       (zip (map pm_revision (sort_revisions (si_revisions i))) rws) h = Inr e"
      using map_res_source [OF entries ent] by auto
    obtain r where r: "r \<in> set (sort_revisions (si_revisions i))" "h\<lparr>pm_evidence := pm_evidence r\<rparr> = r" "pm_revision h = pm_revision r"
      using head [OF h(1)] by auto
    have js: "js_text (pm_revision h)" using r rev by simp
    have sc: "js_text (pm_scope_id h)" by (rule scope_id_js_text [OF scopes]) (simp add: h(1))
    have "plain_memory h" using plain(1) h(1) by blast
    note x = index_entry_ok [OF h(2) asc sha good this js sc]
    from x(2,3) keys have "ix_object_key e \<in> set keys" "ix_revision_key e \<in> set keys" by auto
    with x(1) entries_match [OF h(2) r(1,2) rentries] show ?thesis by blast
  qed
  have r: "json_ok (revision_json q) \<and> re_revision_key q \<in> set keys" if ent: "q \<in> set rentries" for q
  proof -
    obtain r where r: "r \<in> set (si_revisions i)" "revision_entry_for (zip (map pm_revision (sort_revisions (si_revisions i))) rws) r = Inr q"
      using map_res_source [OF rentries ent] by auto
    have "plain_memory r" using plain r(1) by blast
    note x = revision_entry_ok [OF r(2) asc sha _ this rev [OF r(1)]]
    from x good keys show ?thesis by blast
  qed
  from e r show "\<forall>e\<in>set entries. json_ok (index_json e)" "\<forall>r\<in>set rentries. json_ok (revision_json r)" by blast+
  have ids: "map ix_memory entries = map pm_memory (sort_heads (si_heads i))"
    by (rule map_res_map_eq [OF entries]) (auto elim!: index_entry_Inr)
  have rids: "map re_revision rentries = map pm_revision (sort_revisions (si_revisions i))"
    by (rule map_res_map_eq [OF rentries]) (auto elim!: revision_entry_Inr)
  show "map ix_scope_id entries = map pm_scope_id (sort_heads (si_heads i))"
    by (rule map_res_map_eq [OF entries]) (auto elim!: index_entry_Inr)
  have "memory_reference_errors keys (map revision_json rentries) [] (map index_json entries) = []"
    by (rule memory_references_ok) (use e sorted_distinct(1) [OF v(2)] in \<open>simp_all add: ids\<close>)
  moreover have "revision_reference_errors keys [] (map revision_json rentries) = []"
    by (rule revision_references_ok) (use r sorted_distinct(2) [OF v(3)] in \<open>simp_all add: rids\<close>)
  moreover have "length entries = length rentries"
    using arg_cong [OF ids, of length] arg_cong [OF rids, of length] v(4) by (simp add: sort_heads_def sort_revisions_def)
  ultimately show "validateManifestReferences keys (Some (JArr (map index_json entries)))
      (Some (JArr (map revision_json rentries))) = []"
    by (simp add: validateManifestReferences_def array_entries_def complain_def)
qed

lemma built_plan_is_valid:
  assumes b: "buildProjectionSnapshotPlan sha i = Inr p" and sha: "sha_digests sha" and ok: "renderable i"
  shows "validateProjectionSnapshotPlan sha p = Inr (True, [])"
proof -
  obtain prefix rws hws entries rentries readme tax scopes writes where parts:
    "validateSnapshotInput i = Inr ()" "projectionPrefix (si_project i) (si_snapshot i) = Inr prefix"
    "map_res (buildProjectionObject sha) (sort_revisions (si_revisions i)) = Inr rws"
    "map_res (buildProjectionHeadObject sha) (sort_heads (si_heads i)) = Inr hws"
    "map_res (index_entry_for (zip (map pm_memory (sort_heads (si_heads i))) hws)
       (zip (map pm_revision (sort_revisions (si_revisions i))) rws)) (sort_heads (si_heads i)) = Inr entries"
    "map_res (revision_entry_for (zip (map pm_revision (sort_revisions (si_revisions i))) rws))
       (sort_revisions (si_revisions i)) = Inr rentries"
    and tax: "appendTaxonomyIndexes sha prefix i (sort_heads (si_heads i)) entries = Inr tax"
    and scopes: "appendScopeIndexes sha i (sort_heads (si_heads i)) entries = Inr scopes"
    and writes: "writes = sort_writes (map mw_write hws @ map mw_write rws @
       [buildTextWrite sha (prefix @ str ''README.md'') readme TextMarkdown] @ tax @ scopes)"
    and uniq: "assertUniqueWriteKeys [] writes = Inr ()" and p: "p = finish_plan sha i prefix entries rentries writes"
    by (rule plan_parts [OF b]) blast
  have place: "plan_place i prefix" using ok parts(2) by (simp add: plan_place_def renderable_def)
  define keys where "keys = map pw_key (sp_writes p)"
  define readme_write where "readme_write = buildTextWrite sha (prefix @ str ''README.md'') readme TextMarkdown"
  have sets: "set writes = mw_write ` set hws \<union> mw_write ` set rws \<union> {readme_write} \<union> set tax \<union> set scopes"
    by (auto simp: writes readme_write_def)
  have sub: "set writes \<subseteq> set (sp_writes p)"
    by (auto simp: p finish_plan_def Let_def)
  then have "pw_key ` mw_write ` (set hws \<union> set rws) \<subseteq> set keys"
    unfolding keys_def sets by auto
  note pe = plan_entries [OF parts scopes sha ok this]
  have "\<forall>h\<in>set (sort_heads (si_heads i)). \<not> reserved (pm_scope_id h)"
    using ok by (auto simp: renderable_def list_all_iff plain_memory_def)
  then have good: "\<forall>w\<in>set writes. good_write sha prefix w"
    using pe(1) taxonomy_good [OF place tax] scope_good [OF place scopes] readme_good [OF place, of sha readme TextMarkdown]
    unfolding sets readme_write_def good_memory_write_def by blast
  note f = finished_plan [OF place good writes uniq p]
  have prj: "sp_project p = si_project i" "sp_version p = si_version i" "sp_snapshot p = si_snapshot i" "sp_prefix p = prefix"
    by (simp_all add: p finish_plan_def Let_def)
  have "manifest_errors p (manifest_json i entries rentries writes) = Inr []"
  proof (rule manifest_without_errors [OF prj f(3) _ tax _ scopes _ pe(5) pe(2) [unfolded keys_def]])
    show "prefix @ str ''README.md'' \<in> pw_key ` set (sp_writes p)"
      using sub unfolding sets by (intro image_eqI [of _ _ readme_write]) (auto simp: readme_write_def buildTextWrite_def)
  qed (use sub in \<open>auto simp: sets\<close>)
  moreover have "json_ok (manifest_json i entries rentries writes)"
  proof (rule manifest_json_ok)
    show "js_text (si_project i)" "js_text (si_snapshot i)"
      using parts(2) by (auto simp: projectionPrefix_Inr dest: segment_js_text)
    show "\<forall>w\<in>set writes. json_ok (toManifestFile w)"
    proof
      fix w assume "w \<in> set writes"
      then obtain rel where "pw_key w = prefix @ rel" "ascii rel" "pw_sha w = sha (pw_body w)"
        using good unfolding good_write_def by blast
      then show "json_ok (toManifestFile w)"
        using plan_place_ascii [OF place] sha by (simp add: file_json_ok sha_digests_def digest_ascii)
    qed
  qed (use pe(3,4) in auto)
  ultimately show ?thesis
    using f(1,2,5) parts(2) unfolding manifest_json_def
    by (intro validated_plan [OF f(1) _ f(2)]) (simp_all add: prj p finish_plan_def Let_def buildTextWrite_def manifest_json_def del: str_eval)
qed

end
