(* ===== verification/Projection_Totality.thy ===== *)
theory Projection_Totality
  imports Projection_Plan Projection_Capacity
begin

text \<open>
  Which inputs have a plan: no two writes of a checked input ever share a key, so a plan exists as soon
  as the identifiers can be written as path segments and the scope index keys fit into R2. It has exactly
  as many writes as the capacity gate counts.
\<close>

section \<open>The steps succeed\<close>

definition encodes :: "ustring \<Rightarrow> bool" where
  "encodes v \<longleftrightarrow> \<not> isl (pathSegment v)"

definition encodable :: "snapshot_input \<Rightarrow> bool" where
  "encodable i \<longleftrightarrow> encodes (si_project i) \<and> encodes (si_snapshot i) \<and>
     list_all (\<lambda>m. encodes (pm_memory m) \<and> encodes (pm_revision m)) (si_heads i @ si_revisions i) \<and>
     list_all (\<lambda>h. \<not> isl (projectionScopeIndexKey (si_project i) (si_snapshot i) (pm_scope_id h))) (si_heads i)"

lemma not_isl: "\<not> isl r \<longleftrightarrow> (\<exists>a. r = Inr a)"
  by (cases r) auto

lemma map_res_total: "\<forall>x\<in>set xs. \<exists>y. f x = Inr y \<Longrightarrow> \<exists>ys. map_res f xs = Inr ys"
  by (induction xs) (auto simp: bind_res_Inr_iff)

definition head_rel :: "ustring \<Rightarrow> ustring \<Rightarrow> ustring" where
  "head_rel h mid = str ''objects/'' @ h @ 47 # mid @ str ''.md''"

definition revision_rel :: "ustring \<Rightarrow> ustring \<Rightarrow> ustring \<Rightarrow> ustring" where
  "revision_rel h mid rid = str ''revisions/'' @ h @ 47 # mid @ 47 # rid @ str ''.md''"

fun object_rel :: "object_type \<Rightarrow> ustring \<Rightarrow> ustring \<Rightarrow> ustring \<Rightarrow> ustring" where
  "object_rel HeadObject h mid rid = head_rel h mid"
| "object_rel RevisionObject h mid rid = revision_rel h mid rid"

lemma object_built:
  assumes "validateMemoryForSnapshot i m = Inr ()" "projectionPrefix (si_project i) (si_snapshot i) = Inr prefix"
    "pathSegment (pm_memory m) = Inr mid" "pathSegment (pm_revision m) = Inr rid"
  shows "\<exists>w. buildMemoryObject sha ty m = Inr w \<and>
    pw_key (mw_write w) = prefix @ object_rel ty (take 2 (sha (pm_memory m))) mid rid"
proof -
  note v = valid_memory [OF assms(1)]
  have ok: "validateProjectionMemory m = Inr ()" using assms(1) by (auto simp: validateMemoryForSnapshot_def bind_res_Inr_iff)
  then obtain es where es: "normalizeEvidenceIds (pm_evidence m) = Inr es"
    by (auto simp: validateProjectionMemory_def bind_res_Inr_iff)
  obtain pseg where "pathSegment (si_project i) = Inr pseg" using assms(2) by (auto simp: projectionPrefix_Inr)
  then show ?thesis
    using ok es assms(2-4) v
    by (cases ty) (simp_all add: buildMemoryObject_def object_key_def canonicalMemoryUri_def revisionMemoryUri_def
        head_rel_def revision_rel_def Let_def)
qed

lemma uris_built:
  assumes "pathSegment p = Inr ps" "pathSegment m = Inr ms"
  shows "\<exists>u. canonicalMemoryUri p m = Inr u" "\<exists>u. revisionMemoryUri p m v = Inr u"
  using assms by (simp_all add: canonicalMemoryUri_def revisionMemoryUri_def)

lemma required_value_found:
  assumes "k \<in> set ks" "length ks = length vs"
  shows "\<exists>v. requiredMapValue (zip ks vs) k l = Inr v"
proof -
  have "map_of (rev (zip ks vs)) k \<noteq> None"
    using assms by (simp add: map_of_eq_None_iff list.set_map [symmetric] del: list.set_map)
  then show ?thesis by (auto simp: requiredMapValue_def)
qed

section \<open>Keys never collide\<close>

lemma head_rel_inj:
  assumes "head_rel h m = head_rel h' m'" "47 \<notin> set h" "47 \<notin> set h'"
  shows "m = m'"
proof -
  have "h @ 47 # m @ str ''.md'' = h' @ 47 # m' @ str ''.md''" using assms(1) by (simp add: head_rel_def)
  from split_at_first [OF this assms(2,3)] show ?thesis by simp
qed

lemma revision_rel_inj:
  assumes "revision_rel h m r = revision_rel h' m' r'" "47 \<notin> set h" "47 \<notin> set h'" "47 \<notin> set m" "47 \<notin> set m'"
  shows "r = r'"
proof -
  have "h @ 47 # m @ 47 # r @ str ''.md'' = h' @ 47 # m' @ 47 # r' @ str ''.md''"
    using assms(1) by (simp add: revision_rel_def)
  from split_at_first [OF this assms(2,3)] have "m @ 47 # r @ str ''.md'' = m' @ 47 # r' @ str ''.md''" by simp
  from split_at_first [OF this assms(4,5)] show ?thesis by simp
qed

lemma index_rel_inj:
  assumes "index_rel d s x = index_rel d s' x" "47 \<notin> set s" "47 \<notin> set s'"
  shows "s = s'"
proof -
  have "s @ 47 # str ''index'' @ x = s' @ 47 # str ''index'' @ x" using assms(1) by (simp add: index_rel_def)
  from split_at_first [OF this assms(2,3)] show ?thesis by simp
qed

definition taxonomy_rels :: "ustring list" where
  "taxonomy_rels =
     concat (map (\<lambda>k. [index_rel (str ''kind'') (kind_name k) (str ''.json''), index_rel (str ''kind'') (kind_name k) (str ''.md'')]) memory_kinds) @
     concat (map (\<lambda>c. [index_rel (str ''class'') (class_name c) (str ''.json''), index_rel (str ''class'') (class_name c) (str ''.md'')]) memory_classes) @
     map (\<lambda>t. index_rel (str ''status'') (status_name t) (str ''.json'')) memory_statuses"

lemma taxonomy_keys_eq: "taxonomy_keys prefix = Inr (map ((@) prefix) taxonomy_rels)"
  by (simp add: taxonomy_keys_def dual_keys_def status_key_def memory_kinds_def memory_classes_def memory_statuses_def
      taxonomy_rels_def index_rel_def del: kind_name.simps class_name.simps status_name.simps)

lemma taxonomy_rels_distinct: "distinct taxonomy_rels" "length taxonomy_rels = 27"
  by (simp_all add: taxonomy_rels_def index_rel_def memory_kinds_def memory_classes_def memory_statuses_def)

definition rel_class :: "ustring \<Rightarrow> ustring" where
  "rel_class rel = (if take 8 rel = str ''indexes/'' then take 16 rel else take 8 rel)"

lemma rel_classes:
  "rel_class (head_rel h m) = str ''objects/''" "rel_class (revision_rel h m r) = str ''revision''"
  "rel_class (str ''README.md'') = str ''README.m''" "rel_class (index_rel (str ''scope'') s x) = str ''indexes/by-scope''"
  "rel_class (index_rel (str ''kind'') s x) = str ''indexes/by-kind/''"
  "rel_class (index_rel (str ''class'') s x) = str ''indexes/by-class''"
  "rel_class (index_rel (str ''status'') s x) = str ''indexes/by-statu''"
  by (simp_all add: rel_class_def head_rel_def revision_rel_def index_rel_def)

lemma taxonomy_class:
  "rel \<in> set taxonomy_rels \<Longrightarrow> rel_class rel \<in> {str ''indexes/by-kind/'', str ''indexes/by-class'', str ''indexes/by-statu''}"
  by (auto simp: taxonomy_rels_def rel_classes simp del: str_eval)

lemma rels_distinct:
  assumes "distinct hs" "distinct rs" "distinct ss"
    "\<forall>x\<in>set hs. rel_class x = str ''objects/''" "\<forall>x\<in>set rs. rel_class x = str ''revision''"
    "\<forall>x\<in>set ss. rel_class x = str ''indexes/by-scope''"
  shows "distinct (hs @ rs @ [str ''README.md''] @ taxonomy_rels @ ss)"
proof -
  have c: "rel_class x \<notin> {str ''objects/'', str ''revision'', str ''README.m'', str ''indexes/by-scope''}"
    if "x \<in> set taxonomy_rels" for x
    using taxonomy_class [OF that] by auto
  have r: "rel_class (str ''README.md'') = str ''README.m''" by (rule rel_classes)
  have d: "a \<noteq> b" if "rel_class a \<noteq> rel_class b" for a b using that by blast
  show ?thesis
    using assms(1-3) taxonomy_rels_distinct(1) c r assms(4-6)
    by (simp only: distinct_append distinct.simps set_append list.set) (auto simp: r dest!: c)
qed

lemma digest_no_slash: "sha_digests sha \<Longrightarrow> 47 \<notin> set (take 2 (sha s))"
proof
  assume "sha_digests sha" "47 \<in> set (take 2 (sha s))"
  then have "hex_lower_char 47" by (auto simp: sha_digests_def digest_text_def list_all_iff dest!: in_set_takeD)
  then show False by (simp add: hex_lower_char_def)
qed

lemma distinct_map_via:
  "distinct (map g ms) \<Longrightarrow> (\<And>x y. x \<in> set ms \<Longrightarrow> y \<in> set ms \<Longrightarrow> f x = f y \<Longrightarrow> g x = g y) \<Longrightarrow> distinct (map f ms)"
  unfolding distinct_map inj_on_def by blast

definition seg :: "ustring \<Rightarrow> ustring" where
  "seg v = (case pathSegment v of Inl e \<Rightarrow> [] | Inr k \<Rightarrow> k)"

lemma encodes_seg: "encodes v \<longleftrightarrow> pathSegment v = Inr (seg v)"
  by (cases "pathSegment v") (simp_all add: encodes_def seg_def)

lemma seg_inj: "encodes v \<Longrightarrow> encodes w \<Longrightarrow> seg v = seg w \<Longrightarrow> v = w"
  using pathSegment_inj [of v "seg v" w] by (simp add: encodes_seg)

lemma seg_no_slash: "encodes v \<Longrightarrow> 47 \<notin> set (seg v)"
  using pathSegment_chars [of v "seg v"] by (simp add: encodes_seg)

definition memory_rel :: "(ustring \<Rightarrow> ustring) \<Rightarrow> object_type \<Rightarrow> projection_memory \<Rightarrow> ustring" where
  "memory_rel sha ty m = object_rel ty (take 2 (sha (pm_memory m))) (seg (pm_memory m)) (seg (pm_revision m))"

lemma objects_built:
  assumes "projectionPrefix (si_project i) (si_snapshot i) = Inr prefix"
    "\<forall>m\<in>set ms. validateMemoryForSnapshot i m = Inr () \<and> encodes (pm_memory m) \<and> encodes (pm_revision m)"
  shows "\<exists>ws. map_res (buildMemoryObject sha ty) ms = Inr ws \<and> length ws = length ms \<and>
    map pw_key (map mw_write ws) = map (\<lambda>m. prefix @ memory_rel sha ty m) ms"
  using assms(2)
proof (induction ms)
  case (Cons m ms)
  obtain ws where "map_res (buildMemoryObject sha ty) ms = Inr ws" "length ws = length ms"
      "map pw_key (map mw_write ws) = map (\<lambda>m. prefix @ memory_rel sha ty m) ms"
    using Cons by auto
  moreover obtain w where "buildMemoryObject sha ty m = Inr w" "pw_key (mw_write w) = prefix @ memory_rel sha ty m"
    using object_built [OF _ assms(1), of m "seg (pm_memory m)" "seg (pm_revision m)" sha ty] Cons.prems
    by (auto simp: encodes_seg memory_rel_def)
  ultimately show ?case by simp
qed simp

lemma memory_rels_distinct:
  assumes "sha_digests sha" "\<forall>m\<in>set ms. encodes (pm_memory m) \<and> encodes (pm_revision m)"
  shows "distinct (map pm_memory ms) \<Longrightarrow> distinct (map (memory_rel sha HeadObject) ms)"
    and "distinct (map pm_revision ms) \<Longrightarrow> distinct (map (memory_rel sha RevisionObject) ms)"
proof -
  note ns = digest_no_slash [OF assms(1)]
  have h: "pm_memory m = pm_memory m'" if "m \<in> set ms" "m' \<in> set ms" "memory_rel sha HeadObject m = memory_rel sha HeadObject m'" for m m'
    using head_rel_inj [OF that(3) [unfolded memory_rel_def object_rel.simps] ns ns] seg_inj assms(2) that(1,2) by blast
  have r: "pm_revision m = pm_revision m'" if "m \<in> set ms" "m' \<in> set ms" "memory_rel sha RevisionObject m = memory_rel sha RevisionObject m'" for m m'
    using revision_rel_inj [OF that(3) [unfolded memory_rel_def object_rel.simps] ns ns seg_no_slash seg_no_slash]
      seg_inj assms(2) that(1,2) by blast
  show "distinct (map pm_memory ms) \<Longrightarrow> distinct (map (memory_rel sha HeadObject) ms)"
    by (erule distinct_map_via) (rule h)
  show "distinct (map pm_revision ms) \<Longrightarrow> distinct (map (memory_rel sha RevisionObject) ms)"
    by (erule distinct_map_via) (rule r)
qed

lemma taxonomy_built: "\<exists>ws. appendTaxonomyIndexes sha prefix i hs es = Inr ws"
  by (simp add: appendTaxonomyIndexes_def appendDualIndex_def status_index_def Let_def
      memory_kinds_def memory_classes_def memory_statuses_def del: kind_name.simps class_name.simps status_name.simps str_eval)

lemma readme_built: "\<exists>r. buildReadme i n k = Inr r"
  by (simp add: buildReadme_def readme_link_def memory_kinds_def memory_classes_def
      del: kind_name.simps class_name.simps str_eval)

lemma scopes_built:
  assumes prefix: "projectionPrefix (si_project i) (si_snapshot i) = Inr prefix"
    and keys: "\<forall>h\<in>set hs. \<exists>k. projectionScopeIndexKey (si_project i) (si_snapshot i) (pm_scope_id h) = Inr k"
  shows "\<exists>ws. appendScopeIndexes sha i hs es = Inr ws \<and> length ws = length (scope_ids hs) \<and>
    map pw_key ws = map (\<lambda>s. prefix @ index_rel (str ''scope'') (seg s) (str ''.json'')) (scope_ids hs) \<and>
    (\<forall>s\<in>set (scope_ids hs). encodes s)"
proof -
  have key: "projectionScopeIndexKey (si_project i) (si_snapshot i) s = Inr (prefix @ index_rel (str ''scope'') (seg s) (str ''.json''))
      \<and> encodes s" if s: "s \<in> set (scope_ids hs)" for s
  proof -
    obtain k where k: "projectionScopeIndexKey (si_project i) (si_snapshot i) s = Inr k"
      using s keys by (auto simp: scope_ids_def)
    from scope_index_key [OF prefix k] k show ?thesis by (auto simp: seg_def encodes_def simp del: str_eval)
  qed
  have "\<exists>ws. appendScopeIndexes sha i hs es = Inr ws"
    unfolding appendScopeIndexes_def by (rule map_res_total) (use key in \<open>simp del: str_eval\<close>)
  then obtain ws where ws: "appendScopeIndexes sha i hs es = Inr ws" by blast
  have "map pw_key ws = map (\<lambda>s. prefix @ index_rel (str ''scope'') (seg s) (str ''.json'')) ss \<and> length ws = length ss"
    if "map_res (\<lambda>s. bind_res (projectionScopeIndexKey (si_project i) (si_snapshot i) s) (\<lambda>key.
       Inr (buildJsonIndexWrite sha key i ByScope s (entries_where (\<lambda>h. pm_scope_id h = s) hs es)))) ss = Inr ws"
      "set ss \<subseteq> set (scope_ids hs)" for ss ws
    using that key
    by (induction ss arbitrary: ws) (auto simp: bind_res_Inr_iff buildJsonIndexWrite_def buildTextWrite_def simp del: str_eval)
  from this [OF ws [unfolded appendScopeIndexes_def]] ws key show ?thesis by blast
qed

section \<open>A plan for every checked input\<close>

lemma distinct_prefixed: "distinct (map ((@) p) xs) \<longleftrightarrow> distinct xs"
  by (simp add: distinct_map inj_on_def)

lemma scope_rels_distinct:
  assumes "distinct ss" "\<forall>s\<in>set ss. encodes s"
  shows "distinct (map (\<lambda>s. index_rel d (seg s) x) ss)"
proof (rule distinct_map_via [where g = "\<lambda>s. s"])
  fix s t assume st: "s \<in> set ss" "t \<in> set ss" "index_rel d (seg s) x = index_rel d (seg t) x"
  then have "seg s = seg t" using index_rel_inj [OF st(3)] seg_no_slash assms(2) by blast
  with seg_inj st(1,2) assms(2) show "s = t" by blast
qed (use assms(1) in simp)

lemma entries_built:
  assumes "length hws = length hs" "length rws = length rs" "\<forall>h\<in>set hs. pm_revision h \<in> pm_revision ` set rs"
    "encodes pid" "\<forall>m\<in>set hs \<union> set rs. pm_project m = pid \<and> encodes (pm_memory m)"
  shows "\<exists>es. map_res (index_entry_for (zip (map pm_memory hs) hws) (zip (map pm_revision rs) rws)) hs = Inr es"
    "\<exists>res. map_res (revision_entry_for (zip (map pm_revision rs) rws)) rs = Inr res"
proof -
  have u: "\<exists>u. canonicalMemoryUri (pm_project m) (pm_memory m) = Inr u" "\<exists>u. revisionMemoryUri (pm_project m) (pm_memory m) v = Inr u"
    if "m \<in> set hs \<union> set rs" for m v
    using uris_built [of "pm_project m" "seg pid" "pm_memory m" "seg (pm_memory m)"] assms(4,5) that
    by (auto simp: encodes_seg)
  have r: "\<exists>w. requiredMapValue (zip (map pm_revision rs) rws) (pm_revision m) l = Inr w"
    if "pm_revision m \<in> pm_revision ` set rs" for m l
    by (rule required_value_found) (use that assms(2) in auto)
  have h: "\<exists>w. requiredMapValue (zip (map pm_memory hs) hws) (pm_memory m) l = Inr w" if "m \<in> set hs" for m l
    by (rule required_value_found) (use that assms(1) in auto)
  have "\<exists>e. index_entry_for (zip (map pm_memory hs) hws) (zip (map pm_revision rs) rws) m = Inr e" if m: "m \<in> set hs" for m
  proof -
    obtain a b c d where "requiredMapValue (zip (map pm_memory hs) hws) (pm_memory m) ''head write'' = Inr a"
      "requiredMapValue (zip (map pm_revision rs) rws) (pm_revision m) ''revision write'' = Inr b"
      "canonicalMemoryUri (pm_project m) (pm_memory m) = Inr c"
      "revisionMemoryUri (pm_project m) (pm_memory m) (pm_version m) = Inr d"
      using h [OF m] r [of m] assms(3) u [of m] m by (metis UnI1)
    then show ?thesis by (simp add: index_entry_for_def buildIndexEntry_def)
  qed
  then show "\<exists>es. map_res (index_entry_for (zip (map pm_memory hs) hws) (zip (map pm_revision rs) rws)) hs = Inr es"
    by (intro map_res_total) blast
  have "\<exists>e. revision_entry_for (zip (map pm_revision rs) rws) m = Inr e" if m: "m \<in> set rs" for m
  proof -
    obtain b d where "requiredMapValue (zip (map pm_revision rs) rws) (pm_revision m) ''revision write'' = Inr b"
      "revisionMemoryUri (pm_project m) (pm_memory m) (pm_version m) = Inr d"
      using r [of m] u [of m] m by (metis UnI2 imageI)
    then show ?thesis by (simp add: revision_entry_for_def buildRevisionEntry_def)
  qed
  then show "\<exists>res. map_res (revision_entry_for (zip (map pm_revision rs) rws)) rs = Inr res"
    by (intro map_res_total) blast
qed

lemma plan_built:
  assumes valid: "validateSnapshotInput i = Inr ()" and enc: "encodable i" and sha: "sha_digests sha"
  shows "\<exists>p. buildProjectionSnapshotPlan sha i = Inr p \<and>
    length (sp_writes p) = length (si_heads i) + length (si_revisions i) + length (scope_ids (sort_heads (si_heads i))) + 29"
proof -
  let ?hs = "sort_heads (si_heads i)" and ?rs = "sort_revisions (si_revisions i)"
  note v = valid_input [OF valid]
  obtain prefix where prefix: "projectionPrefix (si_project i) (si_snapshot i) = Inr prefix"
    using valid by (auto simp: validateSnapshotInput_def bind_res_Inr_iff)
  have ms: "\<forall>m\<in>set (si_heads i) \<union> set (si_revisions i). validateMemoryForSnapshot i m = Inr () \<and>
      pm_project m = si_project i \<and> encodes (pm_memory m) \<and> encodes (pm_revision m)"
    using v(1) enc valid_memory(1) by (auto simp: encodable_def list_all_iff)
  obtain rws where rws: "map_res (buildProjectionObject sha) ?rs = Inr rws" "length rws = length ?rs"
      "map pw_key (map mw_write rws) = map (\<lambda>m. prefix @ memory_rel sha RevisionObject m) ?rs"
    using objects_built [OF prefix, of ?rs sha RevisionObject] ms by (auto simp: buildProjectionObject_def)
  obtain hws where hws: "map_res (buildProjectionHeadObject sha) ?hs = Inr hws" "length hws = length ?hs"
      "map pw_key (map mw_write hws) = map (\<lambda>m. prefix @ memory_rel sha HeadObject m) ?hs"
    using objects_built [OF prefix, of ?hs sha HeadObject] ms by (auto simp: buildProjectionHeadObject_def)
  have rev: "pm_revision h \<in> pm_revision ` set ?rs" if h: "h \<in> set ?hs" for h
  proof -
    obtain r where r: "r \<in> set (si_revisions i)" "h\<lparr>pm_evidence := pm_evidence r\<rparr> = r" using v(5) h by auto
    from arg_cong [OF r(2), of pm_revision] have "pm_revision h = pm_revision r" by simp
    with r show ?thesis by simp
  qed
  have "encodes (si_project i)" using enc by (simp add: encodable_def)
  from entries_built [OF hws(2) rws(2) _ this] ms rev obtain es res where
      es: "map_res (index_entry_for (zip (map pm_memory ?hs) hws) (zip (map pm_revision ?rs) rws)) ?hs = Inr es"
      "map_res (revision_entry_for (zip (map pm_revision ?rs) rws)) ?rs = Inr res"
    by fastforce
  obtain readme where readme: "buildReadme i (length es) (length res) = Inr readme" using readme_built by blast
  obtain tax where tax: "appendTaxonomyIndexes sha prefix i ?hs es = Inr tax" using taxonomy_built by blast
  have tk: "map pw_key tax = map ((@) prefix) taxonomy_rels"
    using taxonomy_keys_written [OF tax] taxonomy_keys_eq [of prefix] by simp
  obtain scopes where scopes: "appendScopeIndexes sha i ?hs es = Inr scopes" "length scopes = length (scope_ids ?hs)"
      "map pw_key scopes = map (\<lambda>s. prefix @ index_rel (str ''scope'') (seg s) (str ''.json'')) (scope_ids ?hs)"
      "\<forall>s\<in>set (scope_ids ?hs). encodes s"
    using scopes_built [OF prefix, of ?hs sha es] enc by (auto simp: encodable_def list_all_iff not_isl simp del: str_eval)
  let ?ws = "map mw_write hws @ map mw_write rws @ [buildTextWrite sha (prefix @ str ''README.md'') readme TextMarkdown] @ tax @ scopes"
  let ?rels = "map (memory_rel sha HeadObject) ?hs @ map (memory_rel sha RevisionObject) ?rs @ [str ''README.md''] @
     taxonomy_rels @ map (\<lambda>s. index_rel (str ''scope'') (seg s) (str ''.json'')) (scope_ids ?hs)"
  have keys: "map pw_key ?ws = map ((@) prefix) ?rels"
    using hws(3) rws(3) tk scopes(3) by (simp add: buildTextWrite_def comp_def del: str_eval)
  have "distinct ?rels"
  proof (rule rels_distinct)
    show "distinct (map (memory_rel sha HeadObject) ?hs)"
      by (rule memory_rels_distinct(1) [OF sha]) (use ms sorted_distinct(1) [OF v(2)] in auto)
    show "distinct (map (memory_rel sha RevisionObject) ?rs)"
      by (rule memory_rels_distinct(2) [OF sha]) (use ms sorted_distinct(2) [OF v(3)] in auto)
    show "distinct (map (\<lambda>s. index_rel (str ''scope'') (seg s) (str ''.json'')) (scope_ids ?hs))"
      by (rule scope_rels_distinct [OF _ scopes(4)]) (simp add: scope_ids_def)
  qed (auto simp: memory_rel_def rel_classes simp del: str_eval)
  then have "distinct (map pw_key ?ws)" by (simp only: keys distinct_prefixed)
  then have uniq: "assertUniqueWriteKeys [] (sort_writes ?ws) = Inr ()"
    by (simp add: assert_unique_iff sort_writes_def distinct_sort_key del: str_eval)
  have b: "buildProjectionSnapshotPlan sha i = Inr (finish_plan sha i prefix es res (sort_writes ?ws))"
    using valid prefix rws(1) hws(1) es readme tax scopes(1) uniq
    by (simp add: buildProjectionSnapshotPlan_def Let_def del: str_eval)
  have "length tax = 27" using arg_cong [OF tk, of length] by (simp add: taxonomy_rels_distinct(2))
  then have "length (sp_writes (finish_plan sha i prefix es res (sort_writes ?ws))) =
      length (si_heads i) + length (si_revisions i) + length (scope_ids ?hs) + 29"
    using hws(2) rws(2) scopes(2) by (simp add: finish_plan_def Let_def sort_writes_def sort_heads_def sort_revisions_def)
  with b show ?thesis by blast
qed

lemma card_scopes: "length (scope_ids hs) = card (set (map pm_scope_id hs))"
proof -
  have "distinct (scope_ids hs)" "set (scope_ids hs) = set (map pm_scope_id hs)" by (simp_all add: scope_ids_def)
  from distinct_card [OF this(1)] this(2) show ?thesis by simp
qed

text \<open>C11: A project snapshot whose memories passed the checks of the input, whose identifiers can be written as
  path segments, hold no Unicode line separator and do not spell \<open>objects\<close> or \<open>revisions\<close>, always has a
  write plan; the plan passes its own validation without an error, and it has exactly as many writes as
  the capacity gate of the formal handlers counts for these memories, revisions and scopes.
\<close>

theorem checked_snapshot_has_valid_plan:
  assumes "validateSnapshotInput i = Inr ()" "encodable i" "renderable i" "sha_digests sha"
  shows "\<exists>p. buildProjectionSnapshotPlan sha i = Inr p \<and>
    validateProjectionSnapshotPlan sha p = Inr (True, []) \<and>
    int (length (sp_writes p)) = capacity_writes \<lparr>ci_memories = int (length (si_heads i)),
      ci_revisions = int (length (si_revisions i)), ci_scopes = int (card (pm_scope_id ` set (si_heads i))), ci_bytes = b\<rparr>"
proof -
  obtain p where p: "buildProjectionSnapshotPlan sha i = Inr p"
      "length (sp_writes p) = length (si_heads i) + length (si_revisions i) + length (scope_ids (sort_heads (si_heads i))) + 29"
    using plan_built [OF assms(1,2,4)] by blast
  with built_plan_is_valid [OF p(1) assms(4,3)] show ?thesis
    by (intro exI [of _ p]) (simp add: capacity_writes_def snapshot_fixed_writes_def card_scopes)
qed

definition demo_sha :: "ustring \<Rightarrow> ustring" where
  "demo_sha s = replicate 64 97"

definition demo_projection_memory :: projection_memory where
  "demo_projection_memory = \<lparr>pm_project = str ''p'', pm_project_version = 3, pm_snapshot = str ''3'', pm_memory = str ''m/1'',
     pm_revision = str ''r.1'', pm_version = 2, pm_kind = Decision, pm_class = Semantic, pm_scope = ScopeProject,
     pm_scope_id = str ''p'', pm_status = Active, pm_from = Some (str ''2026-01-01T00:00:00Z''), pm_until = None,
     pm_evidence = [str ''e2'', str ''e1''], pm_content = str ''keep it''\<rparr>"

definition demo_snapshot :: snapshot_input where
  "demo_snapshot = \<lparr>si_project = str ''p'', si_version = 3, si_snapshot = str ''3'',
     si_heads = [demo_projection_memory\<lparr>pm_evidence := [str ''e1'', str ''e2'']\<rparr>], si_revisions = [demo_projection_memory]\<rparr>"

lemma demo_sha_digests: "sha_digests demo_sha"
  by (simp add: sha_digests_def demo_sha_def digest_text_def hex_lower_char_def list_all_iff)

lemma demo_segments:
  "pathSegment (str ''p'') = Inr (str ''p'')" "pathSegment (str ''3'') = Inr (str ''3'')"
  "pathSegment (str ''m/1'') = Inr (str ''m%2F1'')" "pathSegment (str ''r.1'') = Inr (str ''r%2E1'')"
  by (simp_all add: pathSegment_Inr encodeURIComponent_def scalar_def surrogate_def uri_encode_char_def
      uri_unreserved_def pct_def hex_digit_def utf8_def)

lemma demo_memory_valid:
  "validateMemoryForSnapshot demo_snapshot demo_projection_memory = Inr ()"
  "validateMemoryForSnapshot demo_snapshot (demo_projection_memory\<lparr>pm_evidence := [str ''e1'', str ''e2'']\<rparr>) = Inr ()"
  by (simp_all add: validateMemoryForSnapshot_def validateProjectionMemory_def demo_projection_memory_def demo_snapshot_def
      requireNonempty_def requireOptional_def is_safe_integer_def max_safe_def memory_kinds_def memory_classes_def
      memory_scopes_def memory_statuses_def normalizeEvidenceIds_def)

lemma demo_snapshot_checked: "validateSnapshotInput demo_snapshot = Inr ()"
proof -
  have "projectionPrefix (str ''p'') (str ''3'') = Inr (prefix_text (str ''p'') (str ''3''))"
    using demo_segments(1,2) by (simp only: projectionPrefix_Inr) blast
  moreover have "sameProjectionMemory (demo_projection_memory\<lparr>pm_evidence := [str ''e1'', str ''e2'']\<rparr>) demo_projection_memory = Inr True"
    by (simp add: sameProjectionMemory_def normalizedMemory_def normalizeEvidenceIds_def requireNonempty_def
        demo_projection_memory_def js_sort_def)
  ultimately show ?thesis
    using demo_memory_valid unfolding validateSnapshotInput_def
    by (simp add: demo_snapshot_def is_safe_integer_def max_safe_def canonical_head_def demo_projection_memory_def check_matching_def version_key_def)
qed

lemma demo_snapshot_encodable: "encodable demo_snapshot"
proof -
  have "\<not> isl (projectionScopeIndexKey (str ''p'') (str ''3'') (str ''p''))"
  proof -
    have "utf8_length (scope_key_text (str ''p'') (str ''3'') (str ''p'')) \<le> r2_key_max"
      by (simp add: scope_key_text_def utf8_def r2_key_max_def)
    with demo_segments(1,2) show ?thesis unfolding not_isl projectionScopeIndexKey_Inr by blast
  qed
  then show ?thesis
    using demo_segments by (simp add: encodable_def demo_snapshot_def demo_projection_memory_def encodes_def)
qed

lemma demo_snapshot_renderable: "renderable demo_snapshot"
  by (simp add: renderable_def reserved_def plain_memory_def printable_def quoted_texts_def unseparated_def
      demo_snapshot_def demo_projection_memory_def high_surrogate_def)

lemmas demo_snapshot_valid = demo_snapshot_checked demo_snapshot_encodable demo_snapshot_renderable

lemma checked_snapshot_has_valid_plan_witness:
  "\<exists>p. buildProjectionSnapshotPlan demo_sha demo_snapshot = Inr p \<and>
    validateProjectionSnapshotPlan demo_sha p = Inr (True, []) \<and>
    int (length (sp_writes p)) = capacity_writes \<lparr>ci_memories = 1, ci_revisions = 1, ci_scopes = 1, ci_bytes = 0\<rparr>"
  using checked_snapshot_has_valid_plan [OF demo_snapshot_valid demo_sha_digests, of 0]
  by (simp add: demo_snapshot_def)

section \<open>Names that stop projection\<close>

text \<open>
  The validator takes any key with \<open>/objects/\<close> or \<open>/revisions/\<close> in it for a memory object. In a project
  that has such a name every key is one, the README is no Markdown envelope, and no plan is valid.
\<close>

lemma contained: "contains_text p (a @ p @ b)"
  by (auto simp: contains_text_iff)

lemma readme_body: "buildReadme i n k = Inr r \<Longrightarrow> \<exists>t. r = 35 # t"
  by (auto simp: buildReadme_def bind_res_Inr_iff)

text \<open>C25: A project whose identifier is spelled \<open>objects\<close> or \<open>revisions\<close> never gets a projection: whatever its
  memories are, the validator does not accept the plan that was built for it.\<close>

theorem reserved_project_has_no_valid_plan:
  assumes b: "buildProjectionSnapshotPlan sha i = Inr p" and r: "reserved (si_project i)"
  shows "validateProjectionSnapshotPlan sha p \<noteq> Inr (True, es)"
proof
  assume v: "validateProjectionSnapshotPlan sha p = Inr (True, es)"
  obtain prefix readme where prefix: "projectionPrefix (si_project i) (si_snapshot i) = Inr prefix"
    and readme: "\<exists>n k. buildReadme i n k = Inr readme"
    and w: "buildTextWrite sha (prefix @ str ''README.md'') readme TextMarkdown \<in> set (sp_writes p)"
    by (rule plan_parts [OF b]) (auto simp: finish_plan_def Let_def simp del: str_eval)
  let ?w = "buildTextWrite sha (prefix @ str ''README.md'') readme TextMarkdown"
  obtain n where n: "pathSegment (si_project i) = Inr (si_project i)" "prefix = prefix_text (si_project i) n"
  proof -
    have "pathSegment (si_project i) = Inr (si_project i)"
      using r by (auto simp: reserved_def intro!: plain_segment)
    with prefix that show ?thesis by (auto simp: projectionPrefix_Inr)
  qed
  have "contains_text (47 # si_project i @ [47]) (pw_key ?w)"
  proof -
    have "pw_key ?w = str ''projects'' @ (47 # si_project i @ [47]) @ str ''projections/'' @ n @ str ''/README.md''"
      by (simp add: buildTextWrite_def n(2) prefix_text_def)
    then show ?thesis by (simp only: contained)
  qed
  then have "memory_object ?w" using r by (auto simp: memory_object_def reserved_def)
  moreover obtain t where "readme = 35 # t" using readme readme_body by blast
  then have "envelope_errors sha ?w \<noteq> []"
    by (simp add: envelope_errors_def buildTextWrite_def starts_with_def Let_def split: option.splits)
  ultimately have "validateMemoryObjectChecksums sha (sp_writes p) \<noteq> []"
    using w by (auto simp: validateMemoryObjectChecksums_def)
  then show False using v
    by (auto simp: validateProjectionSnapshotPlan_def finishValidation_def bind_res_Inr_iff split: sum.splits option.splits)
qed

definition demo_reserved :: snapshot_input where
  "demo_reserved = \<lparr>si_project = str ''objects'', si_version = 0, si_snapshot = str ''0'', si_heads = [], si_revisions = []\<rparr>"

lemma demo_reserved_plan: "\<exists>p. buildProjectionSnapshotPlan demo_sha demo_reserved = Inr p"
proof -
  have seg: "pathSegment (str ''objects'') = Inr (str ''objects'')" "pathSegment (str ''0'') = Inr (str ''0'')"
    by (simp_all add: pathSegment_Inr encodeURIComponent_def scalar_def surrogate_def uri_encode_char_def uri_unreserved_def)
  then have "projectionPrefix (str ''objects'') (str ''0'') = Inr (prefix_text (str ''objects'') (str ''0''))"
    by (simp only: projectionPrefix_Inr) blast
  then have "validateSnapshotInput demo_reserved = Inr ()"
    by (simp add: validateSnapshotInput_def demo_reserved_def is_safe_integer_def max_safe_def)
  moreover have "encodable demo_reserved" using seg by (simp add: encodable_def demo_reserved_def encodes_def)
  ultimately show ?thesis using plan_built [OF _ _ demo_sha_digests] by blast
qed

lemma reserved_project_has_no_valid_plan_witness:
  "\<exists>p. buildProjectionSnapshotPlan demo_sha demo_reserved = Inr p \<and>
     (\<forall>es. validateProjectionSnapshotPlan demo_sha p \<noteq> Inr (True, es))"
proof -
  obtain p where p: "buildProjectionSnapshotPlan demo_sha demo_reserved = Inr p" using demo_reserved_plan by blast
  moreover have "reserved (si_project demo_reserved)" by (simp add: reserved_def demo_reserved_def)
  ultimately show ?thesis using reserved_project_has_no_valid_plan [OF p] by blast
qed

end
