(* ===== verification/Projection_Publication.thy ===== *)
theory Projection_Publication
  imports Projection_Authority Projection_Totality
begin

text \<open>
  Runs of \<open>publishProjectProjection\<close> among other publishers, formal writes and lost replies: a publisher
  only takes the steps the others rely on, and what it reports as activated is the current project.
\<close>

section \<open>What a step leaves alone\<close>

lemma activation_frame:
  assumes ok: "pub_ok sha lower s" and run: "activation_batch pid ver (snapshot_name pid ver) key msha now s = Inr (t, ns)"
  shows "version_of q (authority t) = version_of q (authority s)" "project_rows_of q (authority t) = project_rows_of q (authority s)"
    "pb_objects t = pb_objects s" "ns ! 2 = 1 \<Longrightarrow> project_at pid ver (authority s)"
proof -
  have "version_of q (authority t) = version_of q (authority s) \<and> project_rows_of q (authority t) = project_rows_of q (authority s) \<and>
    pb_objects t = pb_objects s \<and> (ns ! 2 = 1 \<longrightarrow> project_at pid ver (authority s))"
  proof (cases "project_at pid ver (authority s)")
    case False
    with activation_idle [OF False] run show ?thesis by (auto simp: eval_nat_numeral)
  next
    case True
    from ok True show ?thesis
      by (cases rule: activation_runs [where key = key and msha = msha and now = now]) (use run True in auto)
  qed
  then show "version_of q (authority t) = version_of q (authority s)" "project_rows_of q (authority t) = project_rows_of q (authority s)"
    "pb_objects t = pb_objects s" "ns ! 2 = 1 \<Longrightarrow> project_at pid ver (authority s)" by blast+
qed

definition moves_on :: "ustring \<Rightarrow> pub_db \<Rightarrow> pub_db \<Rightarrow> bool" where
  "moves_on pid s t \<longleftrightarrow> (\<forall>v. version_of pid (authority s) = Some v \<longrightarrow> (\<exists>w. version_of pid (authority t) = Some w \<and> v \<le> w)) \<and>
     (version_of pid (authority t) = version_of pid (authority s) \<longrightarrow> project_rows_of pid (authority t) = project_rows_of pid (authority s)) \<and>
     (\<forall>k c. object_checksum k s = Some c \<longrightarrow> object_checksum k t = Some c)"

lemma pub_step_moves_on:
  assumes "pub_step sha lower s t" "pub_ok sha lower s"
  shows "moves_on pid s t"
  using assms(1)
proof cases
  case (formal x)
  have "sys_ok (pb_sys s)" using assms(2) by (simp add: pub_ok_def)
  with formal sys_step_history [OF formal(2)] sys_step_project_rows [OF formal(2)] show ?thesis
    by (simp add: moves_on_def object_checksum_def)
next
  case (store k ob)
  then show ?thesis by (auto simp: moves_on_def object_checksum_def simp del: str_eval)
next
  case (activate p ver rows plan now ns)
  note f = activation_frame [OF assms(2) activate(4)]
  have "object_checksum k t = object_checksum k s" for k by (simp add: object_checksum_def f(3))
  with f(1,2) show ?thesis by (auto simp: moves_on_def)
qed

lemma moves_on_trans:
  assumes a: "moves_on pid s t" and b: "moves_on pid t u" and v: "version_of pid (authority s) = Some v"
  shows "moves_on pid s u"
proof -
  obtain w x where w: "version_of pid (authority t) = Some w" "v \<le> w" and x: "version_of pid (authority u) = Some x" "w \<le> x"
    using a b v by (fastforce simp: moves_on_def)
  have "project_rows_of pid (authority u) = project_rows_of pid (authority s)" if "x = v"
    using a b v w x that by (auto simp: moves_on_def)
  with a b v w x show ?thesis by (auto simp: moves_on_def)
qed

lemma pub_run_moves_on:
  "(pub_step sha lower)\<^sup>*\<^sup>* s t \<Longrightarrow> pub_ok sha lower s \<Longrightarrow> version_of pid (authority s) = Some v \<Longrightarrow> moves_on pid s t"
proof (induction rule: rtranclp_induct)
  case base
  then show ?case by (simp add: moves_on_def)
next
  case (step t u)
  have "moves_on pid t u" by (rule pub_step_moves_on [OF step(2) pub_run_ok [OF step(1) step.prems(1)]])
  with step.IH [OF step.prems] step.prems(2) show ?case by (blast intro: moves_on_trans)
qed

lemma stored_run:
  "(pub_step sha lower)\<^sup>*\<^sup>* s t \<Longrightarrow> pub_ok sha lower s \<Longrightarrow> object_checksum k s = Some c \<Longrightarrow> object_checksum k t = Some c"
proof (induction rule: rtranclp_induct)
  case (step t u)
  have "moves_on [] t u" by (rule pub_step_moves_on [OF step(2) pub_run_ok [OF step(1) step.prems(1)]])
  with step show ?case by (simp add: moves_on_def)
qed

text \<open>Between two states of the same version every state has the same rows.\<close>

lemma rows_between:
  assumes "pub_ok sha lower s" "(pub_step sha lower)\<^sup>*\<^sup>* s t" "(pub_step sha lower)\<^sup>*\<^sup>* t u"
    "version_of pid (authority s) = Some v" "version_of pid (authority u) = Some v"
  shows "version_of pid (authority t) = Some v" "project_rows_of pid (authority t) = project_rows_of pid (authority u)"
proof -
  have st: "moves_on pid s t" by (rule pub_run_moves_on [OF assms(2,1,4)])
  then obtain w where w: "version_of pid (authority t) = Some w" "v \<le> w" using assms(4) by (auto simp: moves_on_def)
  have tu: "moves_on pid t u" by (rule pub_run_moves_on [OF assms(3) pub_run_ok [OF assms(2,1)] w(1)])
  with w(1) assms(5) have "w \<le> v" by (auto simp: moves_on_def)
  with w tu assms(5) show "version_of pid (authority t) = Some v" "project_rows_of pid (authority t) = project_rows_of pid (authority u)"
    by (auto simp: moves_on_def)
qed

section \<open>Reading the rows\<close>

lemma fetch_rows_reaches: "others_step R N \<Longrightarrow> R\<^sup>*\<^sup>* s (fst (fetch_rows N n pid qs rows s))"
  by (induction qs arbitrary: n rows s) (auto intro!: then_do_fst d1_read_fst)

definition row_field :: "row_query \<Rightarrow> project_rows \<Rightarrow> project_rows \<Rightarrow> bool" where
  "row_field q a b = (case q of HeadsQuery \<Rightarrow> rw_heads a = rw_heads b | RevisionsQuery \<Rightarrow> rw_revisions a = rw_revisions b
     | EvidenceQuery \<Rightarrow> rw_evidence a = rw_evidence b)"

lemma row_fields_eq: "(\<And>q. row_field q a b) \<Longrightarrow> a = b"
proof -
  assume f: "\<And>q. row_field q a b"
  from f [of HeadsQuery] f [of RevisionsQuery] f [of EvidenceQuery] show "a = b" by (simp add: row_field_def)
qed

lemma fetch_query_field:
  "row_field q (fetch_query q pid d rows) (project_rows_of pid d)" "q' \<noteq> q \<Longrightarrow> row_field q' (fetch_query q pid d rows) rows"
  by (cases q; cases q'; simp add: row_field_def project_rows_of_def)+

lemma row_field_trans: "row_field q a b \<Longrightarrow> row_field q b c \<Longrightarrow> row_field q a c"
  by (cases q) (simp_all add: row_field_def)

lemma fetch_rows_fields:
  assumes oth: "others_step (pub_step sha lower) N" and ok: "pub_ok sha lower s"
    and run: "fetch_rows N n pid qs rows s = (t, Inr rows')" and last: "(pub_step sha lower)\<^sup>*\<^sup>* t u"
    and v: "version_of pid (authority s) = Some v" "version_of pid (authority u) = Some v"
  shows "(q \<in> set qs \<longrightarrow> row_field q rows' (project_rows_of pid (authority u))) \<and> (q \<notin> set qs \<longrightarrow> row_field q rows' rows)"
  using ok run v(1)
proof (induction qs arbitrary: n rows s)
  case Nil
  then show ?case by (cases q) (simp_all add: row_field_def)
next
  case (Cons k qs)
  from Cons.prems(2) have "then_do (d1_read N n (\<lambda>s. fetch_query k pid (authority s) rows) s)
      (\<lambda>s rows. fetch_rows N (Suc n) pid qs rows s) = (t, Inr rows')" by simp
  then obtain s1 a where a: "d1_read N n (\<lambda>s. fetch_query k pid (authority s) rows) s = (s1, Inr a)"
      "fetch_rows N (Suc n) pid qs a s1 = (t, Inr rows')" by (rule then_do_Inr)
  have s1: "(pub_step sha lower)\<^sup>*\<^sup>* s s1" by (rule d1_read_reaches [OF oth a(1)])
  have "(pub_step sha lower)\<^sup>*\<^sup>* s1 t" using fetch_rows_reaches [OF oth, of s1 "Suc n" pid qs a] a(2) by simp
  then have s1u: "(pub_step sha lower)\<^sup>*\<^sup>* s1 u" using last by (rule rtranclp_trans)
  note between = rows_between [OF Cons.prems(1) s1 s1u Cons.prems(3) v(2)]
  have "a = fetch_query k pid (authority s1) rows" by (rule d1_read_Inr(2) [OF a(1)])
  then have fa: "row_field k a (project_rows_of pid (authority u))" "q \<noteq> k \<Longrightarrow> row_field q a rows"
    using fetch_query_field(1) [of k pid "authority s1" rows] fetch_query_field(2) [of q k pid "authority s1" rows] between(2)
    by simp_all
  note ih = Cons.IH [OF pub_run_ok [OF s1 Cons.prems(1)] a(2) between(1)]
  show ?case
  proof (cases "q \<in> set qs")
    case True
    with ih show ?thesis by simp
  next
    case False
    with ih have "row_field q rows' a" by blast
    then show ?thesis using False fa row_field_trans by (cases "q = k") auto
  qed
qed

section \<open>Storing the plan\<close>

lemma accepted_writes:
  assumes "projected_plan sha lower pid ver rows = Inr p" "w \<in> set (sp_writes p)"
  shows "pw_sha w = sha (pw_body w)"
proof -
  obtain es where "validateProjectionSnapshotPlan sha p = Inr (True, es)"
    using assms(1) by (auto simp: projected_plan_def bind_res_Inr_iff split: prod.splits if_splits)
  then have "\<exists>prefix. plan_errors sha prefix p = []"
    by (auto simp: validateProjectionSnapshotPlan_def finishValidation_def bind_res_Inr_iff split: sum.splits option.splits)
  then have "\<exists>prefix. write_errors sha prefix w = []" using assms(2) by (auto simp: plan_errors_def Let_def simp del: str_eval)
  then show ?thesis by (auto simp: write_errors_def simp del: str_eval split: if_splits)
qed

lemma put_object_step:
  assumes "put_object key ob s = Inr (t, b)" "map_of (so_meta ob) (str ''sha256'') = Some (sha (so_body ob))"
  shows "(pub_step sha lower)\<^sup>*\<^sup>* s t" "b \<Longrightarrow> object_checksum key t = Some (sha (so_body ob))"
proof -
  have "pub_step sha lower s t \<or> t = s"
    using assms(1) pub_step.store [of s key ob sha lower, OF _ assms(2)] by (auto simp: put_object_def split: if_splits)
  then show "(pub_step sha lower)\<^sup>*\<^sup>* s t" by auto
  show "b \<Longrightarrow> object_checksum key t = Some (sha (so_body ob))"
    using assms by (auto simp: put_object_def object_checksum_def simp del: str_eval split: if_splits)
qed

lemma object_of_write_sum: "map_of (so_meta (object_of_write ver sid w)) (str ''sha256'') = Some (pw_sha w)"
  by (simp add: object_of_write_def)

lemma put_write_run:
  assumes oth: "others_step (pub_step sha lower) N" and sum: "pw_sha w = sha (pw_body w)"
    and run: "put_write N n ver sid w s = (t, r)"
  shows "(pub_step sha lower)\<^sup>*\<^sup>* s t" "r = Inr u \<Longrightarrow> object_checksum (pw_key w) t = Some (pw_sha w)"
proof -
  let ?ob = "object_of_write ver sid w"
  have ob: "map_of (so_meta ?ob) (str ''sha256'') = Some (sha (so_body ?ob))"
    using object_of_write_sum sum by (simp add: object_of_write_def del: str_eval)
  have put: "(pub_step sha lower)\<^sup>*\<^sup>* s (fst (d1_run N n (put_object (pw_key w) ?ob) s))"
    by (rule d1_run_fst [OF oth]) (rule put_object_step(1) [where sha = sha, OF _ ob])
  show "(pub_step sha lower)\<^sup>*\<^sup>* s t"
    using run unfolding put_write_def
    by (elim then_do_reaches [OF _ put]) (auto intro!: then_do_fst d1_read_fst [OF oth])
  assume "r = Inr u"
  then obtain s1 b where b: "d1_run N n (put_object (pw_key w) ?ob) s = (s1, Inr b)"
      "(if b then (s1, Inr ()) else then_do (d1_read N (Suc n) (object_checksum (pw_key w)) s1) (\<lambda>s existing.
         (s, require (existing = Some (pw_sha w)) (Other (str ''Immutable R2 projection collision: '' @ pw_key w))))) = (t, Inr u)"
    using run unfolding put_write_def by (blast elim: then_do_Inr)
  show "object_checksum (pw_key w) t = Some (pw_sha w)"
  proof (cases b)
    case True
    with b put_object_step(2) [where sha = sha, OF d1_run_Inr [OF b(1)] ob] sum show ?thesis by (simp add: object_of_write_def del: str_eval)
  next
    case False
    with b(2) obtain s2 x where "d1_read N (Suc n) (object_checksum (pw_key w)) s1 = (s2, Inr x)"
        "s2 = t" "x = Some (pw_sha w)"
      by (auto elim!: then_do_Inr simp del: str_eval)
    then show ?thesis using d1_read_Inr(2) by fastforce
  qed
qed

lemma put_writes_run:
  assumes oth: "others_step (pub_step sha lower) N" and ok: "pub_ok sha lower s"
    and sums: "\<forall>w\<in>set ws. pw_sha w = sha (pw_body w)" and run: "put_writes N n ver sid ws s = (t, r)"
  shows "(pub_step sha lower)\<^sup>*\<^sup>* s t \<and> (r = Inr u \<longrightarrow> (\<forall>w\<in>set ws. object_checksum (pw_key w) t = Some (pw_sha w)))"
  using ok sums run
proof (induction ws arbitrary: n s)
  case Nil
  then show ?case by simp
next
  case (Cons w ws)
  have sum: "pw_sha w = sha (pw_body w)" using Cons.prems(2) by simp
  obtain s1 x where x: "put_write N n ver sid w s = (s1, x)" by fastforce
  note one = put_write_run [OF oth sum x]
  show ?case
  proof (cases x)
    case (Inl e)
    with Cons.prems(3) x one(1) show ?thesis by auto
  next
    case (Inr v)
    then have rest: "put_writes N (n + 2) ver sid ws s1 = (t, r)" using Cons.prems(3) x by simp
    have ok1: "pub_ok sha lower s1" by (rule pub_run_ok [OF one(1) Cons.prems(1)])
    note ih = Cons.IH [OF ok1 _ rest]
    have st: "object_checksum (pw_key w) s1 = Some (pw_sha w)" by (rule one(2) [OF Inr])
    have "(pub_step sha lower)\<^sup>*\<^sup>* s1 t" using ih Cons.prems(2) by simp
    then have "object_checksum (pw_key w) t = Some (pw_sha w)" using stored_run [OF _ ok1 st] by blast
    with ih Cons.prems(2) one(1) show ?thesis by auto
  qed
qed

section \<open>Activating the plan\<close>

definition published :: "(ustring \<Rightarrow> ustring) \<Rightarrow> (ustring \<Rightarrow> ustring) \<Rightarrow> ustring \<Rightarrow> int \<Rightarrow> snapshot_plan \<Rightarrow> pub_db \<Rightarrow> bool" where
  "published sha lower pid ver p s \<longleftrightarrow> version_of pid (authority s) = Some ver \<and>
     projected_plan sha lower pid ver (project_rows_of pid (authority s)) = Inr p \<and> stored_plan sha p s \<and>
     pb_active s pid = Some (snapshot_name pid ver) \<and>
     (\<exists>r\<in>set (pb_rows s). ss_id r = snapshot_name pid ver \<and> ss_project r = pid \<and> ss_version r = ver \<and>
        ss_status r = SnapshotActive \<and> ss_manifest_key r = Some (sp_manifest_key p) \<and> ss_manifest_sha r = Some (sp_manifest_sha p))"

lemma activation_publishes:
  assumes ok: "pub_ok sha lower s" and cur: "project_at pid ver (authority s)"
    and plan: "projected_plan sha lower pid ver (project_rows_of pid (authority s)) = Inr p" "stored_plan sha p s"
    and run: "activation_batch pid ver (snapshot_name pid ver) (sp_manifest_key p) (sp_manifest_sha p) now s = Inr (t, ns)"
  shows "published sha lower pid ver p t"
  using ok cur
proof (cases rule: activation_runs [where key = "sp_manifest_key p" and msha = "sp_manifest_sha p" and now = now])
  case (fenced e)
  with run show ?thesis by simp
next
  case (active rs a b)
  then have t: "pb_rows t = map (activated_row pid (snapshot_name pid ver) now) rs" "pb_active t pid = Some (snapshot_name pid ver)"
    using run by auto
  note f = activation_frame [OF ok run]
  obtain r where r: "r \<in> set rs" "fresh_row pid ver (sp_manifest_key p) (sp_manifest_sha p) s r" using active(6) by blast
  have "stored_plan sha p t" using plan(2) f(3) by (simp add: stored_plan_def object_checksum_def)
  moreover have "version_of pid (authority t) = Some ver" using cur version_at [OF ok] f(1) by simp
  moreover have "\<exists>q\<in>set (pb_rows t). ss_id q = snapshot_name pid ver \<and> ss_project q = pid \<and> ss_version q = ver \<and>
      ss_status q = SnapshotActive \<and> ss_manifest_key q = Some (sp_manifest_key p) \<and> ss_manifest_sha q = Some (sp_manifest_sha p)"
    using r described_fresh [OF ok cur plan r(2)]
    by (intro bexI [of _ "activated_row pid (snapshot_name pid ver) now r"]) (auto simp: t activated_row_def fresh_row_def)
  ultimately show ?thesis using plan(1) t(2) f(2) by (simp add: published_def)
qed

lemma activate_run:
  assumes oth: "others_step (pub_step sha lower) N" and ok: "pub_ok sha lower s0"
    and v: "version_of pid (authority s0) = Some ver" and since: "(pub_step sha lower)\<^sup>*\<^sup>* s0 s"
    and plan: "projected_plan sha lower pid ver (project_rows_of pid (authority s0)) = Inr p" "stored_plan sha p s"
    and run: "activateSnapshot N n pid ver (snapshot_name pid ver) (sp_manifest_key p) (sp_manifest_sha p) now s = (t, r)"
  shows "(pub_step sha lower)\<^sup>*\<^sup>* s t" "r = Inr True \<Longrightarrow> published sha lower pid ver p t"
proof -
  let ?st = "activation_batch pid ver (snapshot_name pid ver) (sp_manifest_key p) (sp_manifest_sha p) now"
  let ?b = "nt_before N n s"
  have before: "(pub_step sha lower)\<^sup>*\<^sup>* s ?b" using oth by (simp add: others_step_def)
  with since have all: "(pub_step sha lower)\<^sup>*\<^sup>* s0 ?b" by (rule rtranclp_trans)
  have okb: "pub_ok sha lower ?b" by (rule pub_run_ok [OF all ok])
  have stb: "stored_plan sha p ?b"
    using stored_plan_mono [OF plan(2)] stored_run [OF before pub_run_ok [OF since ok]] by blast
  have rowsb: "project_rows_of pid (authority ?b) = project_rows_of pid (authority s0)" if "project_at pid ver (authority ?b)"
    using pub_run_moves_on [OF all ok v] that version_at [OF okb] v by (simp add: moves_on_def)
  have step: "pub_step sha lower ?b u" if "?st ?b = Inr (u, ns)" for u ns
    by (rule pub_step.activate [OF plan(1) stb _ that]) (simp add: rowsb)
  show "(pub_step sha lower)\<^sup>*\<^sup>* s t"
  proof -
    have "t = ?b \<or> (\<exists>ns. ?st ?b = Inr (t, ns))"
      using run by (cases "?st ?b") (auto simp: activateSnapshot_def d1_run_def Let_def split: if_splits)
    with before step show ?thesis by (auto intro: rtranclp.rtrancl_into_rtrancl)
  qed
  assume "r = Inr True"
  then obtain ns where ns: "d1_run N n ?st s = (t, Inr ns)" "ns ! 2 = 1"
    using run by (auto simp: activateSnapshot_def elim!: then_do_Inr)
  note st = d1_run_Inr [OF ns(1)]
  have cur: "project_at pid ver (authority ?b)" by (rule activation_frame(4) [OF okb st ns(2)])
  show "published sha lower pid ver p t"
    by (rule activation_publishes [OF okb cur _ stb st]) (simp add: rowsb [OF cur] plan(1))
qed

lemma publish_plan_run:
  assumes oth: "others_step (pub_step sha lower) N" and ok: "pub_ok sha lower s"
    and v: "version_of pid (authority s) = Some ver"
    and plan: "projected_plan sha lower pid ver (project_rows_of pid (authority s)) = Inr p"
    and run: "publish_plan N n pid ver now p s = (t, r)"
  shows "(pub_step sha lower)\<^sup>*\<^sup>* s t"
    "r = Inr (PublishActivated sid key msha k) \<Longrightarrow> published sha lower pid ver p t \<and> sid = snapshot_name pid ver \<and>
       key = sp_manifest_key p \<and> msha = sp_manifest_sha p \<and> k = length (sp_writes p)"
proof -
  let ?sid = "snapshot_name pid ver"
  obtain s1 x where x: "put_writes N n ver ?sid (sp_writes p) s = (s1, x)" by fastforce
  note puts = put_writes_run [OF oth ok _ x] and sums = accepted_writes [OF plan]
  have s1: "(pub_step sha lower)\<^sup>*\<^sup>* s s1" using puts sums by blast
  have "(pub_step sha lower)\<^sup>*\<^sup>* s t \<and> (r = Inr (PublishActivated sid key msha k) \<longrightarrow> published sha lower pid ver p t \<and>
      sid = ?sid \<and> key = sp_manifest_key p \<and> msha = sp_manifest_sha p \<and> k = length (sp_writes p))"
  proof (cases x)
    case (Inl e)
    with run x s1 show ?thesis by (auto simp: publish_plan_def)
  next
    case (Inr u)
    obtain s2 y where y: "activateSnapshot N (n + 2 * length (sp_writes p)) pid ver ?sid (sp_manifest_key p) (sp_manifest_sha p) now s1 = (s2, y)"
      by fastforce
    have st: "stored_plan sha p s1" using puts sums Inr by (simp add: stored_plan_def)
    note act = activate_run [OF oth ok v s1 plan st y]
    have "(pub_step sha lower)\<^sup>*\<^sup>* s s2" using s1 act(1) by (rule rtranclp_trans)
    with act(2) run x Inr y show ?thesis by (cases y) (auto simp: publish_plan_def split: if_splits)
  qed
  then show "(pub_step sha lower)\<^sup>*\<^sup>* s t"
    "r = Inr (PublishActivated sid key msha k) \<Longrightarrow> published sha lower pid ver p t \<and> sid = ?sid \<and>
       key = sp_manifest_key p \<and> msha = sp_manifest_sha p \<and> k = length (sp_writes p)" by blast+
qed

section \<open>The publication\<close>

lemma publish_run:
  assumes oth: "others_step (pub_step sha lower) N" and ok: "pub_ok sha lower s" and order: "\<forall>q. q \<in> set order"
    and run: "publishProjectProjection sha lower N order pid ver now s = (t, r)"
  shows "(pub_step sha lower)\<^sup>*\<^sup>* s t \<and> (r = Inr (PublishActivated sid key msha k) \<longrightarrow> (\<exists>p. published sha lower pid ver p t \<and>
    sid = snapshot_name pid ver \<and> key = sp_manifest_key p \<and> msha = sp_manifest_sha p \<and> k = length (sp_writes p)))"
proof (cases "requirePublishInput pid ver")
  case (Inl e)
  with run show ?thesis by (auto simp: publishProjectProjection_def)
next
  case (Inr u)
  obtain s1 a where a: "readProjectVersion N 0 pid s = (s1, a)" by fastforce
  have s1: "(pub_step sha lower)\<^sup>*\<^sup>* s s1"
    using a d1_read_reaches [OF oth] unfolding readProjectVersion_def by blast
  show ?thesis
  proof (cases "a = Inr (Some ver)")
    case False
    with run a s1 Inr show ?thesis by (cases a) (auto simp: publishProjectProjection_def)
  next
    case True
    have v1: "version_of pid (authority s1) = Some ver"
      using a True d1_read_Inr(2) unfolding readProjectVersion_def by fastforce
    obtain s2 b where b: "fetch_rows N 1 pid order no_rows s1 = (s2, b)" by fastforce
    have s12: "(pub_step sha lower)\<^sup>*\<^sup>* s1 s2" using fetch_rows_reaches [OF oth, of s1 1 pid order no_rows] b by simp
    show ?thesis
    proof (cases b)
      case (Inl e)
      with run a b s1 s12 True Inr show ?thesis by (auto simp: publishProjectProjection_def intro: rtranclp_trans)
    next
      case rows: (Inr rows)
      obtain s3 c where c: "readProjectVersion N (1 + length order) pid s2 = (s3, c)" by fastforce
      have s23: "(pub_step sha lower)\<^sup>*\<^sup>* s2 s3"
        using c d1_read_reaches [OF oth] unfolding readProjectVersion_def by blast
      have s3: "(pub_step sha lower)\<^sup>*\<^sup>* s s3" using s1 s12 s23 by (meson rtranclp_trans)
      show ?thesis
      proof (cases "c = Inr (Some ver) \<and> (\<exists>p. projected_plan sha lower pid ver rows = Inr p)")
        case False
        with run a b c rows s3 True Inr show ?thesis
          by (cases c; cases "projected_plan sha lower pid ver rows") (auto simp: publishProjectProjection_def split: if_splits)
      next
        case ok3: True
        then obtain p where c': "c = Inr (Some ver)" and p: "projected_plan sha lower pid ver rows = Inr p" by blast
        have v3: "version_of pid (authority s3) = Some ver"
          using c c' d1_read_Inr(2) unfolding readProjectVersion_def by fastforce
        have "row_field q rows (project_rows_of pid (authority s3))" for q
          using fetch_rows_fields [OF oth pub_run_ok [OF s1 ok] _ s23 v1 v3] b rows order by blast
        then have "rows = project_rows_of pid (authority s3)" by (rule row_fields_eq)
        note plan = p [unfolded this]
        have "publish_plan N (2 + length order) pid ver now p s3 = (t, r)"
          using run a b c c' rows p True Inr by (simp add: publishProjectProjection_def)
        note fin = publish_plan_run [OF oth pub_run_ok [OF s3 ok] v3 plan this]
        show ?thesis using rtranclp_trans [OF s3 fin(1)] fin(2) by blast
      qed
    qed
  qed
qed

section \<open>An undisturbed publication\<close>

lemma accepted_keys: "projected_plan sha lower pid ver rows = Inr p \<Longrightarrow> distinct (map pw_key (sp_writes p))"
proof -
  assume plan: "projected_plan sha lower pid ver rows = Inr p"
  obtain es where "validateProjectionSnapshotPlan sha p = Inr (True, es)"
    using plan by (auto simp: projected_plan_def bind_res_Inr_iff split: prod.splits if_splits)
  then have "\<exists>prefix. plan_errors sha prefix p = []"
    by (auto simp: validateProjectionSnapshotPlan_def finishValidation_def bind_res_Inr_iff split: sum.splits option.splits)
  then have "length (js_unique (map pw_key (sp_writes p))) = length (map pw_key (sp_writes p))"
    by (auto simp: plan_errors_def complain_def Let_def simp del: str_eval split: if_splits)
  then show ?thesis by (simp add: length_js_unique card_distinct)
qed

definition storable :: "projection_write \<Rightarrow> pub_db \<Rightarrow> bool" where
  "storable w s \<longleftrightarrow> pb_objects s (pw_key w) = None \<or> object_checksum (pw_key w) s = Some (pw_sha w)"

lemma undisturbed_puts:
  assumes "undisturbed N"
  shows "\<forall>w\<in>set ws. storable w s \<Longrightarrow> distinct (map pw_key ws) \<Longrightarrow>
    \<exists>os. put_writes N n ver sid ws s = (s\<lparr>pb_objects := os\<rparr>, Inr ())"
proof (induction ws arbitrary: n s)
  case Nil
  have "s\<lparr>pb_objects := pb_objects s\<rparr> = s" by simp
  then show ?case by (metis put_writes.simps(1))
next
  case (Cons w ws)
  have "\<exists>os. put_write N n ver sid w s = (s\<lparr>pb_objects := os\<rparr>, Inr ()) \<and> (\<forall>k. k \<noteq> pw_key w \<longrightarrow> os k = pb_objects s k)"
  proof (cases "pb_objects s (pw_key w) = None")
    case True
    then show ?thesis
      by (intro exI [of _ "(pb_objects s)(pw_key w := Some (object_of_write ver sid w))"])
        (simp add: put_write_def put_object_def undisturbed_run [OF assms])
  next
    case False
    then obtain y where "pb_objects s (pw_key w) = Some y" "object_checksum (pw_key w) s = Some (pw_sha w)"
      using Cons.prems(1) by (auto simp: storable_def)
    then show ?thesis
      by (intro exI [of _ "pb_objects s"])
        (simp add: put_write_def put_object_def undisturbed_run [OF assms] undisturbed_read [OF assms] require_def del: str_eval)
  qed
  then obtain os where os: "put_write N n ver sid w s = (s\<lparr>pb_objects := os\<rparr>, Inr ())" "\<forall>k. k \<noteq> pw_key w \<longrightarrow> os k = pb_objects s k"
    by blast
  have "\<forall>v\<in>set ws. storable v (s\<lparr>pb_objects := os\<rparr>)"
  proof
    fix v assume v: "v \<in> set ws"
    then have "pw_key v \<noteq> pw_key w" using Cons.prems(2) by (auto simp: image_iff)
    then have "os (pw_key v) = pb_objects s (pw_key v)" using os(2) by blast
    moreover have "storable v s" using Cons.prems(1) v by simp
    ultimately show "storable v (s\<lparr>pb_objects := os\<rparr>)" by (simp add: storable_def object_checksum_def)
  qed
  then obtain os' where "put_writes N (n + 2) ver sid ws (s\<lparr>pb_objects := os\<rparr>) = (s\<lparr>pb_objects := os'\<rparr>, Inr ())"
    using Cons.IH [of "s\<lparr>pb_objects := os\<rparr>" "n + 2"] Cons.prems(2) by auto
  with os(1) show ?case by auto
qed

lemma undisturbed_fetch:
  assumes "undisturbed N"
  shows "fetch_rows N n pid qs rows s = (s, Inr (foldl (\<lambda>rows q. fetch_query q pid (authority s) rows) rows qs))"
  by (induction qs arbitrary: n rows) (simp_all add: undisturbed_read [OF assms])

lemma fold_fetch:
  "\<forall>q. q \<in> set qs \<Longrightarrow> foldl (\<lambda>rows q. fetch_query q pid d rows) rows qs = project_rows_of pid d"
proof (rule row_fields_eq)
  have "(q \<in> set qs \<longrightarrow> row_field q (foldl (\<lambda>rows q. fetch_query q pid d rows) rows qs) (project_rows_of pid d)) \<and>
      (q \<notin> set qs \<longrightarrow> row_field q (foldl (\<lambda>rows q. fetch_query q pid d rows) rows qs) rows)" for q rows
  proof (induction qs arbitrary: rows)
    case Nil
    then show ?case by (cases q) (simp_all add: row_field_def)
  next
    case (Cons k qs)
    let ?r = "fetch_query k pid d rows" and ?f = "\<lambda>rows. foldl (\<lambda>rows q. fetch_query q pid d rows) rows qs"
    show ?case
    proof (cases "q \<in> set qs")
      case True
      with Cons [of ?r] show ?thesis by simp
    next
      case False
      with Cons [of ?r] have "row_field q (?f ?r) ?r" by blast
      then show ?thesis
        using False fetch_query_field(1) [of k pid d rows] fetch_query_field(2) [of q k pid d rows] row_field_trans
        by (cases "q = k") auto
    qed
  qed
  then show "row_field q (foldl (\<lambda>rows q. fetch_query q pid d rows) rows qs) (project_rows_of pid d)" if "\<forall>q. q \<in> set qs" for q
    using that by blast
qed

lemma undisturbed_publish:
  assumes und: "undisturbed N" and ok: "pub_ok sha lower s" and order: "\<forall>q. q \<in> set order" and input: "requirePublishInput pid ver = Inr ()"
    and v: "version_of pid (authority s) = Some ver" and free: "\<not> fenced pid (authority s)"
    and plan: "projected_plan sha lower pid ver (project_rows_of pid (authority s)) = Inr p" and st: "\<forall>w\<in>set (sp_writes p). storable w s"
  shows "\<exists>t. publishProjectProjection sha lower N order pid ver now s =
    (t, Inr (PublishActivated (snapshot_name pid ver) (sp_manifest_key p) (sp_manifest_sha p) (length (sp_writes p))))"
proof -
  have oth: "others_step (pub_step sha lower) N" using und by (simp add: others_step_def undisturbed_def)
  let ?n = "2 + length order"
  obtain os where os: "put_writes N ?n ver (snapshot_name pid ver) (sp_writes p) s = (s\<lparr>pb_objects := os\<rparr>, Inr ())"
    using undisturbed_puts [OF und st accepted_keys [OF plan]] by blast
  let ?s = "s\<lparr>pb_objects := os\<rparr>"
  have run: "(pub_step sha lower)\<^sup>*\<^sup>* s ?s" using put_writes_run [OF oth ok _ os] accepted_writes [OF plan] by blast
  have ok1: "pub_ok sha lower ?s" by (rule pub_run_ok [OF run ok])
  have cur: "project_at pid ver (authority ?s)" using v version_at [OF ok1] by simp
  have "\<exists>t a b. activation_batch pid ver (snapshot_name pid ver) (sp_manifest_key p) (sp_manifest_sha p) now ?s = Inr (t, [a, b, 1, 1])"
    using ok1 cur by (cases rule: activation_runs [where key = "sp_manifest_key p" and msha = "sp_manifest_sha p" and now = now]) (use free in auto)
  then obtain t a b where t: "activation_batch pid ver (snapshot_name pid ver) (sp_manifest_key p) (sp_manifest_sha p) now ?s = Inr (t, [a, b, 1, 1])"
    by blast
  have "activateSnapshot N (?n + 2 * length (sp_writes p)) pid ver (snapshot_name pid ver) (sp_manifest_key p) (sp_manifest_sha p) now ?s = (t, Inr True)"
    by (simp add: activateSnapshot_def undisturbed_run [OF und] t eval_nat_numeral)
  then have "publish_plan N ?n pid ver now p s =
      (t, Inr (PublishActivated (snapshot_name pid ver) (sp_manifest_key p) (sp_manifest_sha p) (length (sp_writes p))))"
    by (simp only: publish_plan_def os then_do.simps if_True)
  then show ?thesis
    by (simp add: publishProjectProjection_def input readProjectVersion_def undisturbed_read [OF und] undisturbed_fetch [OF und]
        fold_fetch [OF order] v plan)
qed

section \<open>A concrete publication\<close>

definition demo_lower :: "ustring \<Rightarrow> ustring" where
  "demo_lower s = map (\<lambda>c. if 65 \<le> c \<and> c \<le> 90 then c + 32 else c) s"

definition demo_pub :: pub_db where
  "demo_pub = \<lparr>pb_sys = \<lparr>sys_db = demo_db\<lparr>t_revisions := [demo_revision\<lparr>v_sha256 := replicate 64 65\<rparr>],
       t_links := [\<lparr>l_project = str ''p'', l_revision = str ''r1'', l_evidence = str ''e1''\<rparr>]\<rparr>, sys_ops = []\<rparr>,
     pb_rows = [], pb_active = (\<lambda>_. None), pb_objects = (\<lambda>_. None)\<rparr>"

definition demo_published_memory :: projection_memory where
  "demo_published_memory = \<lparr>pm_project = str ''p'', pm_project_version = 1, pm_snapshot = str ''1'', pm_memory = str ''m'',
     pm_revision = str ''r1'', pm_version = 1, pm_kind = Fact, pm_class = Semantic, pm_scope = ScopeProject,
     pm_scope_id = str ''p'', pm_status = Active, pm_from = None, pm_until = None, pm_evidence = [str ''e1''], pm_content = str ''one''\<rparr>"

definition demo_published_input :: snapshot_input where
  "demo_published_input = \<lparr>si_project = str ''p'', si_version = 1, si_snapshot = dec_int 1,
     si_heads = [demo_published_memory], si_revisions = [demo_published_memory]\<rparr>"

lemma demo_pub_inv: "formal_inv (authority demo_pub)" by code_simp

lemma demo_pub_ok: "pub_ok sha lower demo_pub"
  using demo_pub_inv by (simp add: pub_ok_def sys_ok_def honest_bucket_def pointer_ok_def demo_pub_def)

lemma demo_pub_version: "version_of (str ''p'') (authority demo_pub) = Some 1" by code_simp

lemma demo_pub_rows: "mapProjectionRows demo_sha demo_lower (str ''p'') 1 (dec_int 1) (project_rows_of (str ''p'') (authority demo_pub)) =
    Inr ([demo_published_memory], [demo_published_memory])"
  by code_simp

lemma demo_one: "dec_int 1 = str ''1''" by code_simp

lemma demo_published_segments:
  "pathSegment (str ''p'') = Inr (str ''p'')" "pathSegment (str ''1'') = Inr (str ''1'')"
  "pathSegment (str ''m'') = Inr (str ''m'')" "pathSegment (str ''r1'') = Inr (str ''r1'')"
  by (simp_all add: pathSegment_Inr encodeURIComponent_def scalar_def surrogate_def uri_encode_char_def uri_unreserved_def)

lemma demo_published_checked: "validateSnapshotInput demo_published_input = Inr ()"
proof -
  have "projectionPrefix (str ''p'') (str ''1'') = Inr (prefix_text (str ''p'') (str ''1''))"
    using demo_published_segments(1,2) by (simp only: projectionPrefix_Inr) blast
  moreover have "validateMemoryForSnapshot demo_published_input demo_published_memory = Inr ()"
    by (simp add: validateMemoryForSnapshot_def validateProjectionMemory_def demo_published_memory_def demo_published_input_def demo_one
        requireNonempty_def requireOptional_def is_safe_integer_def max_safe_def memory_kinds_def memory_classes_def
        memory_scopes_def memory_statuses_def normalizeEvidenceIds_def)
  moreover have "sameProjectionMemory demo_published_memory demo_published_memory = Inr True"
    by (simp add: sameProjectionMemory_def normalizedMemory_def normalizeEvidenceIds_def requireNonempty_def demo_published_memory_def)
  ultimately show ?thesis
    unfolding validateSnapshotInput_def
    by (simp add: demo_published_input_def demo_one is_safe_integer_def max_safe_def canonical_head_def check_matching_def version_key_def)
qed

lemma demo_published_encodable: "encodable demo_published_input"
proof -
  have "\<not> isl (projectionScopeIndexKey (str ''p'') (str ''1'') (str ''p''))"
  proof -
    have "utf8_length (scope_key_text (str ''p'') (str ''1'') (str ''p'')) \<le> r2_key_max"
      by (simp add: scope_key_text_def utf8_def r2_key_max_def)
    with demo_published_segments(1,2) show ?thesis unfolding not_isl projectionScopeIndexKey_Inr by blast
  qed
  then show ?thesis
    using demo_published_segments by (simp add: encodable_def demo_published_input_def demo_published_memory_def demo_one encodes_def)
qed

lemma demo_published_renderable: "renderable demo_published_input"
  by (simp add: renderable_def reserved_def plain_memory_def printable_def quoted_texts_def unseparated_def
      demo_published_input_def demo_published_memory_def demo_one high_surrogate_def)

lemma demo_plan: "\<exists>p. projected_plan demo_sha demo_lower (str ''p'') 1 (project_rows_of (str ''p'') (authority demo_pub)) = Inr p"
proof -
  obtain p where p: "buildProjectionSnapshotPlan demo_sha demo_published_input = Inr p"
    using plan_built [OF demo_published_checked demo_published_encodable demo_sha_digests] by blast
  have "validateProjectionSnapshotPlan demo_sha p = Inr (True, [])"
    using built_plan_is_valid [OF p demo_sha_digests demo_published_renderable] by simp
  with p show ?thesis by (simp add: projected_plan_def demo_pub_rows demo_published_input_def del: str_eval)
qed

definition quiet_bucket :: "pub_db net" where
  "quiet_bucket = \<lparr>nt_before = (\<lambda>i s. s), nt_fate = (\<lambda>i. Delivered)\<rparr>"

lemma quiet_bucket_undisturbed: "undisturbed quiet_bucket"
  by (simp add: undisturbed_def quiet_bucket_def)

lemma quiet_bucket_others: "others_step R quiet_bucket"
  by (simp add: others_step_def quiet_bucket_def)

definition all_queries :: "row_query list" where
  "all_queries = [EvidenceQuery, HeadsQuery, RevisionsQuery]"

lemma all_queries: "\<forall>q. q \<in> set all_queries"
proof
  fix q show "q \<in> set all_queries" by (cases q) (simp_all add: all_queries_def)
qed

lemma demo_publish_input: "requirePublishInput (str ''p'') 1 = Inr ()"
  by (simp add: requirePublishInput_def is_safe_integer_def max_safe_def)

lemma demo_not_fenced: "\<not> fenced (str ''p'') (authority demo_pub)" by code_simp

lemma demo_storable: "storable w demo_pub"
  by (simp add: storable_def demo_pub_def)

lemma demo_publish: "\<exists>t (p :: snapshot_plan). publishProjectProjection demo_sha demo_lower quiet_bucket all_queries (str ''p'') 1 7 demo_pub =
    (t, Inr (PublishActivated (snapshot_name (str ''p'') 1) (sp_manifest_key p) (sp_manifest_sha p) (length (sp_writes p))))"
proof -
  obtain p where p: "projected_plan demo_sha demo_lower (str ''p'') 1 (project_rows_of (str ''p'') (authority demo_pub)) = Inr p"
    using demo_plan by blast
  have "\<forall>w\<in>set (sp_writes p). storable w demo_pub" using demo_storable by blast
  from undisturbed_publish [OF quiet_bucket_undisturbed demo_pub_ok all_queries demo_publish_input demo_pub_version demo_not_fenced p this, of 7]
  obtain t where t: "publishProjectProjection demo_sha demo_lower quiet_bucket all_queries (str ''p'') 1 7 demo_pub =
      (t, Inr (PublishActivated (snapshot_name (str ''p'') 1) (sp_manifest_key p) (sp_manifest_sha p) (length (sp_writes p))))" ..
  show ?thesis by (intro exI) (rule t)
qed

section \<open>The properties\<close>

text \<open>C14: Whatever other publishers, formal writes, storing of objects and lost replies come between its calls,
  a publication takes only steps of the system itself, whatever it replies: it stores absent objects under their own
  checksum, and activates only a validated plan whose files are all stored and which, at that moment,
  was built from the project's current rows or belongs to a version that has passed. It keeps the store in order.\<close>

theorem publication_refines_steps:
  assumes "others_step (pub_step sha lower) N" "pub_ok sha lower s" "\<forall>q. q \<in> set order"
    "publishProjectProjection sha lower N order pid ver now s = (t, r)"
  shows "(pub_step sha lower)\<^sup>*\<^sup>* s t \<and> pub_ok sha lower t"
  using publish_run [OF assms] pub_run_ok assms(2) by blast

lemma publication_refines_steps_witness:
  "(pub_step demo_sha demo_lower)\<^sup>*\<^sup>* demo_pub (fst (publishProjectProjection demo_sha demo_lower quiet_bucket all_queries (str ''p'') 1 7 demo_pub))"
  using publication_refines_steps [OF quiet_bucket_others demo_pub_ok all_queries,
      of demo_sha demo_lower "str ''p''" 1 7 "fst (publishProjectProjection demo_sha demo_lower quiet_bucket all_queries (str ''p'') 1 7 demo_pub)"
      "snd (publishProjectProjection demo_sha demo_lower quiet_bucket all_queries (str ''p'') 1 7 demo_pub)"]
  by (simp only: prod.collapse)

text \<open>C12: A publication that reports its snapshot as activated tells the truth at the moment of activation, under
  any interleaving and any order of its queries: the project has the requested version, the manifest it names is
  that of the validated plan of exactly the project's current memories, revisions and evidence, every file of
  the plan is stored under its checksum, and the project points at the snapshot, whose row is active.\<close>

theorem published_is_current:
  assumes "others_step (pub_step sha lower) N" "pub_ok sha lower s" "\<forall>q. q \<in> set order"
    "publishProjectProjection sha lower N order pid ver now s = (t, Inr (PublishActivated sid key msha k))"
  shows "\<exists>p. version_of pid (authority t) = Some ver \<and>
    projected_plan sha lower pid ver (project_rows_of pid (authority t)) = Inr p \<and>
    sid = snapshot_name pid ver \<and> key = sp_manifest_key p \<and> msha = sp_manifest_sha p \<and> k = length (sp_writes p) \<and>
    (\<forall>w\<in>set (sp_writes p). object_checksum (pw_key w) t = Some (sha (pw_body w))) \<and> pb_active t pid = Some sid \<and>
    (\<exists>r\<in>set (pb_rows t). ss_id r = sid \<and> ss_project r = pid \<and> ss_version r = ver \<and> ss_status r = SnapshotActive \<and>
       ss_manifest_key r = Some key \<and> ss_manifest_sha r = Some msha)"
proof -
  obtain p where "published sha lower pid ver p t" "sid = snapshot_name pid ver" "key = sp_manifest_key p" "msha = sp_manifest_sha p"
      "k = length (sp_writes p)"
    using publish_run [OF assms] by blast
  then show ?thesis by (intro exI [of _ p]) (auto simp: published_def stored_plan_def)
qed

lemma published_is_current_witness:
  "version_of (str ''p'') (authority (fst (publishProjectProjection demo_sha demo_lower quiet_bucket all_queries (str ''p'') 1 7 demo_pub))) = Some 1"
proof -
  obtain t key msha k where run: "publishProjectProjection demo_sha demo_lower quiet_bucket all_queries (str ''p'') 1 7 demo_pub =
      (t, Inr (PublishActivated (snapshot_name (str ''p'') 1) key msha k))" using demo_publish by blast
  have "version_of (str ''p'') (authority t) = Some 1"
    using published_is_current [OF quiet_bucket_others demo_pub_ok all_queries run] by blast
  then show ?thesis by (simp only: run fst_conv)
qed



text \<open>C15: Without interference a publication succeeds: if the input is well-formed, the project has the version, is not
  being cleaned up and its rows have a valid plan, and each key of the plan is free or already holds the file (as after a
  publication whose reply was lost), then the snapshot is activated and reported with its manifest.\<close>

theorem undisturbed_publication_succeeds:
  assumes "undisturbed N" "pub_ok sha lower s" "\<forall>q. q \<in> set order" "requirePublishInput pid ver = Inr ()"
    "version_of pid (authority s) = Some ver" "\<not> fenced pid (authority s)"
    "projected_plan sha lower pid ver (project_rows_of pid (authority s)) = Inr p"
    "\<forall>w\<in>set (sp_writes p). pb_objects s (pw_key w) = None \<or> object_checksum (pw_key w) s = Some (pw_sha w)"
  shows "\<exists>t. publishProjectProjection sha lower N order pid ver now s =
    (t, Inr (PublishActivated (snapshot_name pid ver) (sp_manifest_key p) (sp_manifest_sha p) (length (sp_writes p))))"
  using undisturbed_publish [OF assms(1-7)] assms(8) by (simp add: storable_def)

lemma undisturbed_publication_succeeds_witness:
  "\<exists>t (p :: snapshot_plan). publishProjectProjection demo_sha demo_lower quiet_bucket all_queries (str ''p'') 1 7 demo_pub =
    (t, Inr (PublishActivated (snapshot_name (str ''p'') 1) (sp_manifest_key p) (sp_manifest_sha p) (length (sp_writes p))))"
proof -
  obtain p where p: "projected_plan demo_sha demo_lower (str ''p'') 1 (project_rows_of (str ''p'') (authority demo_pub)) = Inr p"
    using demo_plan by blast
  have empty: "\<forall>w\<in>set (sp_writes p). pb_objects demo_pub (pw_key w) = None \<or> object_checksum (pw_key w) demo_pub = Some (pw_sha w)"
    by (simp add: demo_pub_def)
  from undisturbed_publication_succeeds [OF quiet_bucket_undisturbed demo_pub_ok all_queries demo_publish_input demo_pub_version demo_not_fenced p empty, of 7]
  obtain t where t: "publishProjectProjection demo_sha demo_lower quiet_bucket all_queries (str ''p'') 1 7 demo_pub =
      (t, Inr (PublishActivated (snapshot_name (str ''p'') 1) (sp_manifest_key p) (sp_manifest_sha p) (length (sp_writes p))))" ..
  show ?thesis by (intro exI) (rule t)
qed

end
