(* ===== verification/Spec2Isabelle.thy ===== *)
theory Spec2Isabelle
  imports Review_Requests Mutation_Requests Formal_Properties Page_Token Access_Control Dispatch_Ledger
    Current_Head Tree_Collection Tree_Retention_Runs Projection_Publication
begin

text \<open>
  EdgeMneme keeps the formal memory of projects in a D1 database. Reviewers change it through a
  Durable Object (the project coordinator), GitHub sync Workflows feed it with evidence, and callers
  search it. This development models the parts of the TypeScript that decide what is written and
  what is shown, as executable functions on explicit database states, and proves what they promise.

  \<^bold>\<open>Common ground.\<close> \<open>EM_Prelude\<close> has text values (lists of code points), thrown errors as a sum type,
  safe integers and decimal printing; \<open>Contracts\<close> is \<open>src/contracts\<close>; \<open>Uri_Codec\<close>, \<open>Base64_Url\<close>,
  \<open>Canonical_Json\<close> and \<open>Json_Lines\<close> are the codecs through which identifiers, tokens and digests go, with
  their injectivity and round trips. Cryptographic functions, Unicode tables, \<open>localeCompare\<close> and model
  calls are parameters; what is assumed of them is a named hypothesis (no collision at one text, a
  digest is 64 hexadecimal digits) and every such theorem has a concrete instance.

  \<^bold>\<open>Formal writes.\<close> \<open>Formal_Store\<close> has the tables of \<open>migrations/\<close> with their constraints and triggers;
  \<open>Mutation_Plan\<close>, \<open>Review_Plan\<close> and \<open>Promotion_Plan\<close> are the guarded batches of \<open>src/storage\<close>, statement
  by statement. \<open>Formal_Protocol\<close> states what the three have in common as the locale \<open>formal_batch\<close>
  (a batch commits exactly when its guard holds, then advances the project by one audited version)
  and interprets it on each; \<open>Formal_System\<close> lets any number of coordinators interleave, and
  \<open>Formal_Properties\<close> and \<open>Formal_Frames\<close> give invariants of every reachable state. \<open>Coordinator_Mutate\<close> and
  \<open>Coordinator_Review\<close> are the handlers of \<open>workers/memory-orchestrator/index.ts\<close>, every early return
  included; \<open>Mutation_Requests\<close> and \<open>Review_Requests\<close> prove that they refine the abstract system, that an
  error writes nothing and that a success is the request. \<open>Candidate_Provenance\<close>, \<open>Repository_Context\<close>,
  \<open>Evidence_Links\<close>, \<open>Scope_Ids\<close>, \<open>Projection_Capacity\<close> and \<open>Projection_Guard\<close> are the gates they pass.

  \<^bold>\<open>Access.\<close> \<open>Access_Control\<close> (\<open>src/security/auth.ts\<close>) shows that the SQL predicate grants exactly the
  memories comparable with a grant in the tree of scopes; \<open>Page_Token\<close> that page tokens fail closed.

  \<^bold>\<open>GitHub sync.\<close> \<open>D1_Net\<close> is a D1 call among other writers whose reply may be lost. On it \<open>Sync_Ledger\<close>
  (migration 0019), \<open>Sync_System\<close>, \<open>Lane_Fencing\<close>, \<open>Credential_Lane\<close>, \<open>Lane_Claims\<close>, \<open>Request_Budget\<close>,
  \<open>Dispatch_Ledger\<close> and \<open>Sync_Scheduling\<close> are \<open>src/github/sync-workflow.ts\<close>, \<open>sync-scheduling.ts\<close> and the
  lane wait and pacer of \<open>workers/github-sync/workflow-runtime.ts\<close>: exclusion, release, progress and
  exact budgets. \<open>Fenced_Lease\<close> states what a lease with a rising rank promises as the locale
  \<open>fenced_lease\<close>; the credential lane (\<open>Lane_Fencing\<close>) and the purge claims of tree manifests
  (\<open>Tree_Leases\<close>) interpret it.

  \<^bold>\<open>Tree manifests.\<close> \<open>Tree_Store\<close> has the tables, checks and triggers of migration 0011 and the steps other
  writers may take. \<open>Tree_Manifest\<close> and \<open>Tree_Collection\<close> are the collection half of
  \<open>src/github/tree-manifest.ts\<close>: whatever others do between the calls, a manifest that was completed
  holds exactly the collected entries for ever, and undisturbed, collecting one succeeds.
  \<open>Tree_Retention\<close> is \<open>tree-manifest-retention.ts\<close> and \<open>tree-manifest-purge.ts\<close>, \<open>Tree_Leases\<close> shows that
  purge claims exclude each other, that only manifests that failed thirty days ago lose entries,
  that a purged manifest is gone for good and that a failure records what was stored;
  \<open>Tree_Retention_Runs\<close> has concrete runs.

  \<^bold>\<open>Search.\<close> \<open>Search_Text\<close>, \<open>Search_Ranking\<close>, \<open>Search_Filters\<close> and \<open>Search_Pipeline\<close> are \<open>src/search\<close> from the
  request to the context pack, \<open>Current_Head\<close> the validator on the authority database. The locale
  \<open>head_validator\<close> is what the pipeline needs of a validator; its interpretation by \<open>validate_heads\<close>
  gives that a search shows only current heads its caller may read. Scores are exact numbers:
  rounding of floating-point sums is not modelled.

  \<^bold>\<open>Projection.\<close> \<open>Projection_Markdown\<close>, \<open>Projection_Snapshot\<close> and \<open>Projection_Validation\<close> are
  \<open>src/projection/markdown.ts\<close>, \<open>snapshot.ts\<close>, \<open>types.ts\<close> and \<open>validation.ts\<close>: the Markdown objects of the
  current memories, the README, indexes and manifest of a snapshot, and the validator that must accept
  the plan before it is published. \<open>Json_Parse\<close> is \<open>JSON.parse\<close> (its fuel, twice the length of
  the text and one, is proved enough) and \<open>JSON.stringify(v, null, 2)\<close>, inverse to each other. \<open>Projection_Soundness\<close>
  shows what the validator finds in one rendered object, \<open>Projection_Plan\<close> that it accepts every plan that
  was built, \<open>Projection_Totality\<close> that a checked input always has a plan, and what is outside both
  theorems: projects named \<open>objects\<close> or \<open>revisions\<close>, which never validate. \<open>Projection_Publish\<close> is
  \<open>cloudflare.ts\<close>: the queries, the writes to R2 and the activation batch, on one state of the authority
  database, the snapshot rows and the bucket. \<open>Projection_Rows\<close> shows that a project's rows change only with its
  version, \<open>Projection_Authority\<close> that the steps of publishers, formal writes and other writers keep one active
  snapshot per project whose files are all stored, and \<open>Projection_Publication\<close> that a publisher takes only such
  steps and that what it reports as activated is the current project.

  \<^bold>\<open>Bounds and fuel.\<close> Loops are structural or have a measure. The JSON parser has fuel for its nesting;
  two loops have fuel because other writers could feed them for ever: the pages of a manifest (read when it is completed and when it is failed), for
  which more fuel than full pages is proved enough when nobody else writes, and the lane attempts, whose number the code itself bounds. SQLite
  integers are \<open>nat\<close> or \<open>int\<close>; 32-bit arithmetic (\<open>fnv\<close>) is on words.

  \<^bold>\<open>Not modelled.\<close> Activation of tree manifests (twenty SQL statements over heads, deltas and receipts);
  the Workflow bodies and the collection of repository content; rebuild jobs; indexing and the Vectorize and FTS adapters; quality workflows, model
  runners and sensitivity patterns; the gateway's MCP surface; HTTP, queues, containers and scripts.
\<close>

end
